(* ===== verification/Prelude.thy ===== *)
theory Prelude
  imports Main "HOL-Library.AList" "HOL-Library.Multiset" "HOL-Library.Product_Lexorder"
begin

text \<open>
  What the components share: the JavaScript values the source handles (JSON, strings,
  insertion-ordered maps, timestamps), the string operations of its standard library, decimal
  rendering and reading of numbers, and the generic lemmas on them.

  Strings are lists of characters with codes 0 to 255, so a JavaScript string is modelled as
  long as it stays within Latin-1; \<open>is_ws\<close>, \<open>lower\<close> and \<open>upper\<close> follow the language on that
  range. A \<open>Date\<close> is its number of milliseconds, an \<open>int\<close>. A JavaScript \<open>Map\<close> is an
  association list in insertion order: \<open>AList.update\<close> overwrites in place or appends, which is
  what \<open>Map.prototype.set\<close> does, and \<open>map_of\<close> is \<open>get\<close>.
\<close>

section \<open>Values\<close>

type_synonym timestamp = int
type_synonym 'v js_map = "(string \<times> 'v) list"

datatype json =
    JNull
  | JBool bool
  | JNum int
  | JStr string
  | JArr "json list"
  | JObj "(string \<times> json) list"

text \<open>Component collections: definitions to unfold and invariant preservation facts.\<close>

named_theorems job_defs
named_theorems job_inv_intros
named_theorems perm_simps
named_theorems graph_defs

section \<open>Strings\<close>

definition is_ws :: "char \<Rightarrow> bool" where
  "is_ws c \<longleftrightarrow> of_char c \<in> ({9, 10, 11, 12, 13, 32, 160} :: nat set)"

definition is_digit :: "char \<Rightarrow> bool" where
  "is_digit c \<longleftrightarrow> 48 \<le> (of_char c :: nat) \<and> (of_char c :: nat) \<le> 57"

definition is_lower_ascii :: "char \<Rightarrow> bool" where
  "is_lower_ascii c \<longleftrightarrow> 97 \<le> (of_char c :: nat) \<and> (of_char c :: nat) \<le> 122"

definition is_upper_ascii :: "char \<Rightarrow> bool" where
  "is_upper_ascii c \<longleftrightarrow> 65 \<le> (of_char c :: nat) \<and> (of_char c :: nat) \<le> 90"

definition is_word :: "char \<Rightarrow> bool" where
  "is_word c \<longleftrightarrow> is_lower_ascii c \<or> is_upper_ascii c \<or> is_digit c \<or> c = CHR ''_''"

definition lower_char :: "char \<Rightarrow> char" where
  "lower_char c =
     (let n = (of_char c :: nat)
      in if (65 \<le> n \<and> n \<le> 90) \<or> (192 \<le> n \<and> n \<le> 222 \<and> n \<noteq> 215)
         then char_of (n + 32) else c)"

definition upper_char :: "char \<Rightarrow> char" where
  "upper_char c =
     (let n = (of_char c :: nat)
      in if (97 \<le> n \<and> n \<le> 122) \<or> (224 \<le> n \<and> n \<le> 254 \<and> n \<noteq> 247)
         then char_of (n - 32) else c)"

definition lower :: "string \<Rightarrow> string" where
  "lower s = map lower_char s"

definition upper :: "string \<Rightarrow> string" where
  "upper s = map upper_char s"

definition trim :: "string \<Rightarrow> string" where
  "trim s = rev (dropWhile is_ws (rev (dropWhile is_ws s)))"

definition starts_with :: "string \<Rightarrow> string \<Rightarrow> bool" where
  "starts_with p s \<longleftrightarrow> take (length p) s = p"

definition ends_with :: "string \<Rightarrow> string \<Rightarrow> bool" where
  "ends_with p s \<longleftrightarrow> starts_with (rev p) (rev s)"

fun contains_str :: "string \<Rightarrow> string \<Rightarrow> bool" where
  "contains_str p [] \<longleftrightarrow> p = []"
| "contains_str p (c # cs) \<longleftrightarrow> starts_with p (c # cs) \<or> contains_str p cs"

text \<open>\<open>split_on sep s\<close> is \<open>s.split(sep)\<close> for a one-character separator.\<close>

fun split_on :: "char \<Rightarrow> string \<Rightarrow> string list" where
  "split_on sep [] = [[]]"
| "split_on sep (c # cs) =
     (if c = sep then [] # split_on sep cs
      else (case split_on sep cs of [] \<Rightarrow> [[c]] | w # ws \<Rightarrow> (c # w) # ws))"

text \<open>\<open>split_runs P s\<close> is \<open>s.split(/P+/)\<close>: runs of separator characters separate the pieces.\<close>

fun split_runs :: "(char \<Rightarrow> bool) \<Rightarrow> string \<Rightarrow> string list" where
  "split_runs P [] = [[]]"
| "split_runs P (c # cs) =
     (if P c then
        (case cs of
           [] \<Rightarrow> [[], []]
         | d # _ \<Rightarrow> (if P d then split_runs P cs else [] # split_runs P cs))
      else (case split_runs P cs of [] \<Rightarrow> [[c]] | w # ws \<Rightarrow> (c # w) # ws))"

text \<open>\<open>replace_runs P r s\<close> is \<open>s.replace(/P+/g, r)\<close>.\<close>

fun replace_runs :: "(char \<Rightarrow> bool) \<Rightarrow> string \<Rightarrow> string \<Rightarrow> string" where
  "replace_runs P r [] = []"
| "replace_runs P r (c # cs) =
     (if P c then
        (case cs of
           [] \<Rightarrow> r
         | d # _ \<Rightarrow> (if P d then replace_runs P r cs else r @ replace_runs P r cs))
      else c # replace_runs P r cs)"

fun join :: "string \<Rightarrow> string list \<Rightarrow> string" where
  "join sep [] = []"
| "join sep [w] = w"
| "join sep (w # ws) = w @ sep @ join sep ws"

definition strip_trailing :: "char \<Rightarrow> string \<Rightarrow> string" where
  "strip_trailing c s = rev (dropWhile (\<lambda>x. x = c) (rev s))"

text \<open>\<open>[...new Set(xs)]\<close>: the first occurrence of each element.\<close>

definition js_unique :: "'a list \<Rightarrow> 'a list" where
  "js_unique xs = rev (remdups (rev xs))"

section \<open>Decimal numbers\<close>

definition digit_char :: "nat \<Rightarrow> char" where
  "digit_char n = char_of (48 + n)"

definition digit_val :: "char \<Rightarrow> nat" where
  "digit_val c = of_char c - 48"

fun show_nat :: "nat \<Rightarrow> string" where
  "show_nat n = (if n < 10 then [digit_char n] else show_nat (n div 10) @ [digit_char (n mod 10)])"

declare show_nat.simps [simp del]

definition read_nat :: "string \<Rightarrow> nat" where
  "read_nat s = foldl (\<lambda>acc c. acc * 10 + digit_val c) 0 s"

definition show_int :: "int \<Rightarrow> string" where
  "show_int i = (if i < 0 then ''-'' @ show_nat (nat (- i)) else show_nat (nat i))"

lemma set_js_unique [simp]: "set (js_unique xs) = set xs"
  by (simp add: js_unique_def)

lemma distinct_js_unique [simp]: "distinct (js_unique xs)"
  by (simp add: js_unique_def)

subsection \<open>Facts about digits and decimal rendering\<close>

lemma of_char_digit_char [simp]: "n < 10 \<Longrightarrow> (of_char (digit_char n) :: nat) = 48 + n"
  by (simp add: digit_char_def)

lemma digit_val_digit_char [simp]: "n < 10 \<Longrightarrow> digit_val (digit_char n) = n"
  by (simp add: digit_val_def)

lemma is_digit_digit_char [simp]: "n < 10 \<Longrightarrow> is_digit (digit_char n)"
  by (simp add: is_digit_def)

lemma show_nat_nonempty [simp]: "show_nat n \<noteq> []"
  by (subst show_nat.simps) simp

lemma show_nat_digits: "list_all is_digit (show_nat n)"
proof (induction n rule: show_nat.induct)
  case (1 n)
  then show ?case by (subst show_nat.simps) simp
qed

lemma read_nat_snoc: "read_nat (s @ [c]) = read_nat s * 10 + digit_val c"
  by (simp add: read_nat_def)

lemma read_show_nat [simp]: "read_nat (show_nat n) = n"
proof (induction n rule: show_nat.induct)
  case (1 n)
  show ?case
  proof (cases "n < 10")
    case True
    then show ?thesis by (subst show_nat.simps) (simp add: read_nat_def)
  next
    case False
    with 1 have "read_nat (show_nat (n div 10)) = n div 10" by simp
    then show ?thesis using False by (subst show_nat.simps) (simp add: read_nat_snoc)
  qed
qed

lemma show_nat_inj [simp]: "show_nat m = show_nat n \<longleftrightarrow> m = n"
  by (metis read_show_nat)

lemma is_digit_not_ws [simp]: "is_digit c \<Longrightarrow> \<not> is_ws c"
  by (auto simp: is_digit_def is_ws_def)

lemma is_digit_not_char:
  "is_digit c \<Longrightarrow> c \<noteq> CHR '':'' \<and> c \<noteq> CHR ''*'' \<and> c \<noteq> CHR '','' \<and> c \<noteq> CHR ''-'' \<and> c \<noteq> CHR ''/''"
  by (auto simp: is_digit_def)

lemma show_nat_no_sep: "\<not> is_digit sep \<Longrightarrow> sep \<notin> set (show_nat n)"
  using show_nat_digits by (auto simp: list_all_iff)

lemma show_nat_small:
  "n < 10 \<Longrightarrow> show_nat n = [digit_char n]"
  "10 \<le> n \<Longrightarrow> n < 100 \<Longrightarrow> show_nat n = [digit_char (n div 10), digit_char (n mod 10)]"
  "100 \<le> n \<Longrightarrow> n < 1000 \<Longrightarrow> show_nat n = [digit_char (n div 10 div 10), digit_char (n div 10 mod 10), digit_char (n mod 10)]"
  by (subst show_nat.simps, simp)
     (subst show_nat.simps, subst show_nat.simps, simp add: div_less_iff_less_mult,
      subst show_nat.simps, subst show_nat.simps, subst show_nat.simps, simp add: div_less_iff_less_mult)

lemma digit_chars:
  "digit_char 0 = CHR ''0''" "digit_char (Suc 0) = CHR ''1''" "digit_char 2 = CHR ''2''" "digit_char 3 = CHR ''3''"
  "digit_char 4 = CHR ''4''" "digit_char 5 = CHR ''5''" "digit_char 6 = CHR ''6''" "digit_char 7 = CHR ''7''"
  "digit_char 8 = CHR ''8''" "digit_char 9 = CHR ''9''"
  by code_simp+

subsection \<open>Facts about splitting, joining and trimming\<close>

lemma split_on_nonempty [simp]: "split_on sep s \<noteq> []"
  by (induction s) (auto split: list.splits)

lemma split_on_no_sep: "sep \<notin> set s \<Longrightarrow> split_on sep s = [s]"
  by (induction s) auto

lemma split_on_append: "sep \<notin> set w \<Longrightarrow> split_on sep (w @ sep # s) = w # split_on sep s"
  by (induction w) auto

lemma split_on_pieces: "w \<in> set (split_on sep s) \<Longrightarrow> sep \<notin> set w"
  by (induction s arbitrary: w) (auto split: list.splits if_splits)

lemma split_on_join:
  "ws \<noteq> [] \<Longrightarrow> \<forall>w \<in> set ws. sep \<notin> set w \<Longrightarrow> split_on sep (join [sep] ws) = ws"
  by (induction "[sep]" ws rule: join.induct) (auto simp: split_on_no_sep split_on_append)

lemma split_on_covers: "c \<in> set s \<Longrightarrow> c = sep \<or> (\<exists>w \<in> set (split_on sep s). c \<in> set w)"
  by (induction s) (auto split: list.splits)

lemma split_runs_none: "\<forall>c \<in> set s. \<not> P c \<Longrightarrow> split_runs P s = [s]"
  by (induction s) auto

lemma split_runs_append:
  assumes "\<forall>c \<in> set w. \<not> P c" and "P sep" and "s \<noteq> []" and "\<not> P (hd s)"
  shows "split_runs P (w @ sep # s) = w # split_runs P s"
proof -
  have "split_runs P (sep # s) = [] # split_runs P s"
    using assms(2,3,4) by (cases s) auto
  then show ?thesis using assms(1) by (induction w) auto
qed

lemma dropWhile_id: "(s = [] \<or> \<not> P (hd s)) \<Longrightarrow> dropWhile P s = s"
  by (cases s) auto

lemma trim_id: "s \<noteq> [] \<Longrightarrow> \<not> is_ws (hd s) \<Longrightarrow> \<not> is_ws (last s) \<Longrightarrow> trim s = s"
  by (simp add: trim_def dropWhile_id hd_rev)

lemma trim_Nil [simp]: "trim [] = []"
  by (simp add: trim_def)

lemma trim_ends: "trim s \<noteq> [] \<Longrightarrow> \<not> is_ws (hd (trim s)) \<and> \<not> is_ws (last (trim s))"
proof -
  assume ne: "trim s \<noteq> []"
  define a where "a = dropWhile is_ws s"
  have t: "trim s = rev (dropWhile is_ws (rev a))" by (simp add: trim_def a_def)
  have l: "\<not> is_ws (last (trim s))"
    using ne hd_dropWhile[of is_ws "rev a"] unfolding t by (simp add: last_rev)
  obtain b where b: "a = trim s @ b"
    using takeWhile_dropWhile_id[of is_ws "rev a"] unfolding t by (metis rev_append rev_rev_ident)
  have "a \<noteq> []" using b ne by auto
  then have "\<not> is_ws (hd a)" unfolding a_def by (rule hd_dropWhile)
  then show ?thesis using l b ne by simp
qed

lemma trim_idem [simp]: "trim (trim s) = trim s"
  by (cases "trim s = []") (auto simp: trim_ends intro: trim_id)

lemma starts_with_append [simp]: "starts_with p (p @ s)"
  by (simp add: starts_with_def)

lemma starts_with_Nil [simp]: "starts_with [] s"
  by (simp add: starts_with_def)

lemma starts_with_iff: "starts_with p s \<longleftrightarrow> (\<exists>r. s = p @ r)"
  by (metis append_eq_conv_conj starts_with_def append_take_drop_id)

lemma starts_with_Cons [simp]:
  "starts_with (a # p) (b # s) \<longleftrightarrow> a = b \<and> starts_with p s"
  "\<not> starts_with (a # p) []"
  by (auto simp: starts_with_def)

lemma strip_trailing_append:
  "strip_trailing c s = s' \<Longrightarrow> \<exists>n. s = s' @ replicate n c"
proof -
  assume "strip_trailing c s = s'"
  then have s': "s' = rev (dropWhile (\<lambda>x. x = c) (rev s))" by (simp add: strip_trailing_def)
  have "rev s = takeWhile (\<lambda>x. x = c) (rev s) @ dropWhile (\<lambda>x. x = c) (rev s)" by simp
  then have "s = s' @ rev (takeWhile (\<lambda>x. x = c) (rev s))"
    by (metis rev_append rev_rev_ident s')
  moreover have "replicate (length (rev (takeWhile (\<lambda>x. x = c) (rev s)))) c
      = rev (takeWhile (\<lambda>x. x = c) (rev s))"
    by (rule replicate_length_same) (auto dest: set_takeWhileD)
  ultimately show ?thesis by metis
qed

lemma strip_trailing_last: "strip_trailing c s \<noteq> [] \<Longrightarrow> last (strip_trailing c s) \<noteq> c"
  unfolding strip_trailing_def using hd_dropWhile[of "\<lambda>x. x = c" "rev s"] by (simp add: last_rev)

lemma strip_trailing_length: "length (strip_trailing c s) \<le> length s"
  unfolding strip_trailing_def by (metis length_dropWhile_le length_rev)

lemma replace_runs_chars:
  "c \<in> set (replace_runs P r s) \<Longrightarrow> c \<in> set r \<or> (c \<in> set s \<and> \<not> P c)"
proof (induction s)
  case (Cons a s)
  have "c \<in> set r \<or> c \<in> set (replace_runs P r s) \<or> (c = a \<and> \<not> P a)"
    using Cons.prems by (cases s) (auto simp del: replace_runs.simps(2) simp: replace_runs.simps(2)[of P r a] split: if_splits)
  then show ?case using Cons.IH by auto
qed simp

lemma replace_runs_none: "\<forall>c \<in> set s. \<not> P c \<Longrightarrow> replace_runs P r s = s"
  by (induction s) auto

section \<open>Maps and lists\<close>

lemma map_of_update [simp]: "map_of (AList.update k v m) = (map_of m)(k \<mapsto> v)"
  by (rule update_conv')

lemma update_new: "k \<notin> fst ` set m \<Longrightarrow> AList.update k v m = m @ [(k, v)]"
  by (induction m) auto

lemma find_Some_iff_first:
  "List.find P xs = Some x \<Longrightarrow> x \<in> set xs \<and> P x"
  by (auto simp: find_Some_iff)

text \<open>
  \<open>first_by key xs\<close> is the first row of \<open>ORDER BY key LIMIT 1\<close>. Where the key ties, the
  database may return any of the tied rows; the model returns the first in table order, and
  tables are quantified over, so every choice is covered.
\<close>

fun first_by :: "('a \<Rightarrow> 'k :: linorder) \<Rightarrow> 'a list \<Rightarrow> 'a option" where
  "first_by k [] = None"
| "first_by k (x # xs) =
     (case first_by k xs of
        None \<Rightarrow> Some x
      | Some y \<Rightarrow> (if k y < k x then Some y else Some x))"

lemma first_by_None [simp]: "first_by k xs = None \<longleftrightarrow> xs = []"
  by (cases xs) (auto split: option.splits)

lemma first_by_in: "first_by k xs = Some x \<Longrightarrow> x \<in> set xs"
  by (induction xs arbitrary: x) (auto split: option.splits if_splits)

lemma first_by_least: "first_by k xs = Some x \<Longrightarrow> y \<in> set xs \<Longrightarrow> k x \<le> k y"
proof (induction xs arbitrary: x y)
  case (Cons a xs)
  show ?case
  proof (cases "first_by k xs")
    case None
    with Cons.prems show ?thesis by simp
  next
    case (Some b)
    then have "k x \<le> k b \<and> k x \<le> k a"
      using Cons.prems(1) by (auto simp: not_less split: if_splits)
    with Cons.IH[OF Some] Cons.prems(2) show ?thesis by (auto intro: order_trans[of _ "k b"])
  qed
qed simp

lemma length_filter_less:
  "\<forall>x \<in> set xs. P x \<longrightarrow> Q x \<Longrightarrow> \<exists>x \<in> set xs. Q x \<and> \<not> P x \<Longrightarrow>
   length (filter P xs) < length (filter Q xs)"
proof (induction xs)
  case (Cons a xs)
  have le: "length (filter P xs) \<le> length (filter Q xs)"
    using Cons.prems(1) by (induction xs) auto
  show ?case
  proof (cases "Q a \<and> \<not> P a")
    case True
    with le show ?thesis by simp
  next
    case False
    with Cons have "length (filter P xs) < length (filter Q xs)" by auto
    with False Cons.prems(1) show ?thesis by auto
  qed
qed simp

lemma length_filter_le_imp:
  "\<forall>x \<in> set xs. P x \<longrightarrow> Q x \<Longrightarrow> length (filter P xs) \<le> length (filter Q xs)"
  by (induction xs) auto

end
