(* ===== verification/Shell_Words.thy ===== *)
theory Shell_Words
  imports Prelude
begin

text \<open>
  \<open>src/lib/shell-words.ts\<close>: splitting a command line into argv words and joining argv words
  back into an editable command line. The splitter is the source's character loop with its index
  and its mutable state passed explicitly; \<open>scan\<close> is the same loop on the remaining characters,
  used for proofs only. The main result is that joining and splitting round-trips every list of
  words.
\<close>

section \<open>Model\<close>

record SplitState =
  sw_current :: string
  sw_inWord :: bool
  sw_quote :: "char option"
  sw_words :: "string list"

abbreviation sq :: char where "sq \<equiv> CHR 39"
abbreviation dq :: char where "dq \<equiv> CHR 34"
abbreviation bs :: char where "bs \<equiv> CHR 92"

definition consumeQuoted :: "SplitState \<Rightarrow> string \<Rightarrow> nat \<Rightarrow> SplitState \<times> nat" where
  "consumeQuoted st text index =
     (let c = text ! index in
      if sw_quote st = Some c then (st\<lparr>sw_quote := None\<rparr>, 0)
      else if sw_quote st = Some dq \<and> c = bs \<and> index + 1 < length text
        then (st\<lparr>sw_current := sw_current st @ [text ! (index + 1)]\<rparr>, 1)
      else (st\<lparr>sw_current := sw_current st @ [c]\<rparr>, 0))"

definition consumeBare :: "SplitState \<Rightarrow> string \<Rightarrow> nat \<Rightarrow> SplitState \<times> nat" where
  "consumeBare st text index =
     (let c = text ! index in
      if is_ws c then
        (if sw_inWord st
         then (st\<lparr>sw_words := sw_words st @ [sw_current st], sw_current := [], sw_inWord := False\<rparr>, 0)
         else (st, 0))
      else
        (let st = st\<lparr>sw_inWord := True\<rparr> in
         if c = sq \<or> c = dq then (st\<lparr>sw_quote := Some c\<rparr>, 0)
         else if c = bs \<and> index + 1 < length text
           then (st\<lparr>sw_current := sw_current st @ [text ! (index + 1)]\<rparr>, 1)
         else (st\<lparr>sw_current := sw_current st @ [c]\<rparr>, 0)))"

function splitLoop :: "string \<Rightarrow> nat \<Rightarrow> SplitState \<Rightarrow> SplitState" where
  "splitLoop text index st =
     (if index < length text then
        (case (if sw_quote st \<noteq> None then consumeQuoted st text index
               else consumeBare st text index) of
           (st', extra) \<Rightarrow> splitLoop text (index + extra + 1) st')
      else st)"
  by pat_completeness auto
termination
  by (relation "measure (\<lambda>(text, index, st). length text - index)") auto

declare splitLoop.simps [simp del]

definition splitShellWords :: "string \<Rightarrow> string list" where
  "splitShellWords text =
     (let st = splitLoop text 0 \<lparr>sw_current = [], sw_inWord = False, sw_quote = None, sw_words = []\<rparr>
      in if sw_inWord st then sw_words st @ [sw_current st] else sw_words st)"

text \<open>The character class of \<open>/^[\w@%+=:,./-]+$/\<close>, and \<open>word.replaceAll("'", `'"'"'`)\<close>.\<close>

definition plainChar :: "char \<Rightarrow> bool" where
  "plainChar c \<longleftrightarrow> is_word c \<or> c \<in> set ''@%+=:,./-''"

fun escapeSingle :: "string \<Rightarrow> string" where
  "escapeSingle [] = []"
| "escapeSingle (c # cs) = (if c = sq then [sq, dq, sq, dq, sq] else [c]) @ escapeSingle cs"

definition quoteWord :: "string \<Rightarrow> string" where
  "quoteWord word =
     (if word \<noteq> [] \<and> list_all plainChar word then word
      else [sq] @ escapeSingle word @ [sq])"

definition joinShellWords :: "string list \<Rightarrow> string" where
  "joinShellWords ws = join '' '' (map quoteWord ws)"

text \<open>\<open>String(value)\<close> on JSON values; an array joins its elements with commas, null ones empty.\<close>

fun js_String :: "json \<Rightarrow> string" where
  "js_String JNull = ''null''"
| "js_String (JBool b) = (if b then ''true'' else ''false'')"
| "js_String (JNum i) = show_int i"
| "js_String (JStr s) = s"
| "js_String (JArr xs) = join '','' (map (\<lambda>x. if x = JNull then [] else js_String x) xs)"
| "js_String (JObj _) = ''[object Object]''"

text \<open>\<open>argvFrom\<close> reads \<open>undefined\<close> (None), or a JSON value.\<close>

definition argvFrom :: "json option \<Rightarrow> string list option" where
  "argvFrom raw =
     (let ws = (case raw of
                  Some (JArr xs) \<Rightarrow> map js_String xs
                | Some (JStr s) \<Rightarrow> splitShellWords s
                | _ \<Rightarrow> [])
      in if length ws > 0 then Some ws else None)"

section \<open>The loop on the remaining characters\<close>

fun scan :: "SplitState \<Rightarrow> string \<Rightarrow> SplitState" where
  "scan st [] = st"
| "scan st (c # cs) =
     (if sw_quote st \<noteq> None then
        (if sw_quote st = Some c then scan (st\<lparr>sw_quote := None\<rparr>) cs
         else (case cs of
                 d # ds \<Rightarrow>
                   (if sw_quote st = Some dq \<and> c = bs
                    then scan (st\<lparr>sw_current := sw_current st @ [d]\<rparr>) ds
                    else scan (st\<lparr>sw_current := sw_current st @ [c]\<rparr>) cs)
               | [] \<Rightarrow> scan (st\<lparr>sw_current := sw_current st @ [c]\<rparr>) cs))
      else if is_ws c then
        (if sw_inWord st
         then scan (st\<lparr>sw_words := sw_words st @ [sw_current st], sw_current := [], sw_inWord := False\<rparr>) cs
         else scan st cs)
      else if c = sq \<or> c = dq then scan (st\<lparr>sw_inWord := True, sw_quote := Some c\<rparr>) cs
      else (case cs of
              d # ds \<Rightarrow>
                (if c = bs
                 then scan (st\<lparr>sw_inWord := True, sw_current := sw_current st @ [d]\<rparr>) ds
                 else scan (st\<lparr>sw_inWord := True, sw_current := sw_current st @ [c]\<rparr>) cs)
            | [] \<Rightarrow> scan (st\<lparr>sw_inWord := True, sw_current := sw_current st @ [c]\<rparr>) cs))"

declare scan.simps(2) [simp del]

lemma splitLoop_done: "length text \<le> i \<Longrightarrow> splitLoop text i st = st"
  by (simp add: splitLoop.simps)

lemma splitLoop_step:
  "i < length text \<Longrightarrow> splitLoop text i st =
     (case (if sw_quote st \<noteq> None then consumeQuoted st text i else consumeBare st text i) of
        (st', extra) \<Rightarrow> splitLoop text (i + extra + 1) st')"
  by (subst splitLoop.simps) simp

lemma splitLoop_scan: "splitLoop (pre @ xs) (length pre) st = scan st xs"
proof (induction xs arbitrary: pre st rule: length_induct)
  case (1 xs)
  show ?case
  proof (cases xs)
    case Nil
    then show ?thesis by (simp add: splitLoop_done)
  next
    case (Cons c cs)
    have one: "splitLoop (pre @ c # cs) (Suc (length pre)) st' = scan st' cs" for st'
      using 1[rule_format, of cs "pre @ [c]" st'] Cons by simp
    have two: "cs = d # ds \<Longrightarrow> splitLoop (pre @ c # d # ds) (Suc (Suc (length pre))) st' = scan st' ds"
      for st' d ds
      using 1[rule_format, of ds "pre @ [c, d]" st'] Cons by simp
    have i: "length pre < length (pre @ c # cs)" by simp
    show ?thesis
    proof (cases cs)
      case Nil
      then show ?thesis
        using one unfolding \<open>xs = c # cs\<close>
        by (subst splitLoop_step[OF i])
          (simp add: scan.simps(2)[of st c] consumeQuoted_def consumeBare_def Let_def)
    next
      case (Cons d ds)
      then have "(pre @ c # d # ds) ! Suc (length pre) = d" by (simp add: nth_append)
      then show ?thesis
        using Cons one two[OF Cons] unfolding \<open>xs = c # cs\<close>
        by (subst splitLoop_step[OF i])
          (auto simp: scan.simps(2)[of st c "d # ds"] consumeQuoted_def consumeBare_def Let_def)
    qed
  qed
qed

section \<open>Scanning what the joiner writes\<close>

abbreviation bare :: "SplitState \<Rightarrow> bool" where
  "bare st \<equiv> sw_quote st = None"

lemma plainChar_bare: "plainChar c \<Longrightarrow> \<not> is_ws c \<and> c \<noteq> sq \<and> c \<noteq> dq \<and> c \<noteq> bs"
  by (auto simp: plainChar_def is_word_def is_lower_ascii_def is_upper_ascii_def is_digit_def is_ws_def)

lemma scan_plain:
  "list_all plainChar w \<Longrightarrow> bare st \<Longrightarrow> w \<noteq> [] \<Longrightarrow>
   scan st (w @ xs) = scan (st\<lparr>sw_inWord := True, sw_current := sw_current st @ w\<rparr>) xs"
proof (induction w arbitrary: st)
  case (Cons c w)
  then have c: "\<not> is_ws c" "c \<noteq> sq" "c \<noteq> dq" "c \<noteq> bs" using plainChar_bare by auto
  have step: "scan st (c # w @ xs) = scan (st\<lparr>sw_inWord := True, sw_current := sw_current st @ [c]\<rparr>) (w @ xs)"
    using c Cons.prems(2) by (simp add: scan.simps(2)[of st c] split: list.split)
  show ?case
  proof (cases "w = []")
    case True
    with step show ?thesis by simp
  next
    case False
    with Cons.IH[of "st\<lparr>sw_inWord := True, sw_current := sw_current st @ [c]\<rparr>"] Cons.prems step
    show ?thesis by simp
  qed
qed simp

lemma scan_literal:
  "sw_quote st = Some sq \<Longrightarrow> c \<noteq> sq \<Longrightarrow>
   scan st (c # xs) = scan (st\<lparr>sw_current := sw_current st @ [c]\<rparr>) xs"
  by (simp add: scan.simps(2)[of st c] split: list.split)

lemma scan_close_quote:
  "sw_quote st = Some q \<Longrightarrow> scan st (q # xs) = scan (st\<lparr>sw_quote := None\<rparr>) xs"
  by (simp add: scan.simps(2)[of st q])

lemma scan_open_quote:
  "bare st \<Longrightarrow> q = sq \<or> q = dq \<Longrightarrow>
   scan st (q # xs) = scan (st\<lparr>sw_inWord := True, sw_quote := Some q\<rparr>) xs"
  by (auto simp: scan.simps(2)[of st] is_ws_def)

lemma scan_dq_literal:
  "sw_quote st = Some dq \<Longrightarrow> c \<noteq> dq \<Longrightarrow> c \<noteq> bs \<Longrightarrow>
   scan st (c # xs) = scan (st\<lparr>sw_current := sw_current st @ [c]\<rparr>) xs"
  by (simp add: scan.simps(2)[of st c] split: list.split)

lemma scan_escaped:
  "sw_quote st = Some sq \<Longrightarrow> sw_inWord st \<Longrightarrow>
   scan st (escapeSingle w @ xs) = scan (st\<lparr>sw_current := sw_current st @ w\<rparr>) xs"
proof (induction w arbitrary: st)
  case (Cons c w)
  show ?case
  proof (cases "c = sq")
    case True
    have "scan st ([sq, dq, sq, dq, sq] @ escapeSingle w @ xs) =
          scan (st\<lparr>sw_current := sw_current st @ [sq]\<rparr>) (escapeSingle w @ xs)"
      using Cons.prems
      by (cases st) (simp add: scan_close_quote scan_open_quote scan_dq_literal)
    then show ?thesis using Cons True by simp
  next
    case False
    then show ?thesis using Cons by (simp add: scan_literal)
  qed
qed simp

lemma scan_quoteWord:
  assumes "bare st"
  shows "scan st (quoteWord w @ xs) = scan (st\<lparr>sw_inWord := True, sw_current := sw_current st @ w\<rparr>) xs"
proof (cases "w \<noteq> [] \<and> list_all plainChar w")
  case True
  then show ?thesis using assms by (simp add: quoteWord_def scan_plain)
next
  case False
  have "scan st ([sq] @ escapeSingle w @ [sq] @ xs) =
        scan (st\<lparr>sw_inWord := True, sw_quote := Some sq\<rparr>) (escapeSingle w @ sq # xs)"
    using assms by (simp add: scan_open_quote)
  also have "\<dots> = scan (st\<lparr>sw_inWord := True, sw_current := sw_current st @ w\<rparr>) xs"
    using assms by (cases st) (simp add: scan_escaped scan_close_quote)
  finally show ?thesis using False by (auto simp: quoteWord_def)
qed

lemma scan_space:
  "bare st \<Longrightarrow> sw_inWord st \<Longrightarrow> scan st (CHR '' '' # xs) =
     scan (st\<lparr>sw_words := sw_words st @ [sw_current st], sw_current := [], sw_inWord := False\<rparr>) xs"
  by (simp add: scan.simps(2)[of st] is_ws_def)

definition finishWords :: "SplitState \<Rightarrow> string list" where
  "finishWords st = (if sw_inWord st then sw_words st @ [sw_current st] else sw_words st)"

lemma splitShellWords_scan:
  "splitShellWords text =
     finishWords (scan \<lparr>sw_current = [], sw_inWord = False, sw_quote = None, sw_words = []\<rparr> text)"
  using splitLoop_scan[of "[]"] by (simp add: splitShellWords_def finishWords_def Let_def)

lemma finish_scan_join:
  "bare st \<Longrightarrow> \<not> sw_inWord st \<Longrightarrow> sw_current st = [] \<Longrightarrow>
   finishWords (scan st (join '' '' (map quoteWord ws))) = sw_words st @ ws"
proof (induction "'' ''" "map quoteWord ws" arbitrary: ws st rule: join.induct)
  case 1
  then show ?case by (simp add: finishWords_def)
next
  case (2 w)
  then obtain v where "ws = [v]" by auto
  then show ?case using 2 scan_quoteWord[of st v "[]"] by (simp add: finishWords_def)
next
  case (3 w w' rest)
  then obtain v vs where ws: "ws = v # vs" "map quoteWord vs = w' # rest" by (cases ws) auto
  let ?st = "st\<lparr>sw_words := sw_words st @ [v]\<rparr>"
  have "scan st (join '' '' (map quoteWord ws)) =
        scan (st\<lparr>sw_inWord := True, sw_current := v\<rparr>) (CHR '' '' # join '' '' (map quoteWord vs))"
    using 3(3-5) ws by (simp add: scan_quoteWord)
  also have "\<dots> = scan ?st (join '' '' (map quoteWord vs))"
    using 3(3-5) by (cases st) (simp add: scan_space)
  finally have "scan st (join '' '' (map quoteWord ws)) = scan ?st (join '' '' (map quoteWord vs))" .
  moreover have "finishWords (scan ?st (join '' '' (map quoteWord vs))) = sw_words ?st @ vs"
    by (rule 3(1)) (use 3 ws in simp_all)
  ultimately show ?case using ws by simp
qed

text \<open>
  C1. Joining argv words into a command line and splitting that line gives back exactly the same
  words, for every list of words: empty words, whitespace, quotes and backslashes included.
\<close>

theorem splitShellWords_joinShellWords: "splitShellWords (joinShellWords ws) = ws"
  by (simp add: splitShellWords_scan joinShellWords_def finish_scan_join)

end
