(* ===== verification/Job_Queue.thy ===== *)
theory Job_Queue
  imports Prelude
begin

text \<open>
  \<open>src/lib/dto/job-dto.ts\<close>, the \<open>job\<close> table of \<open>src/lib/server/db/schema.ts\<close> and the
  job types of \<open>src/lib/types.ts\<close>: the persistent background job queue.

  A table is a list of rows; its order stands for the physical order SQL leaves open. A NULL
  column is \<open>None\<close> and a SQL comparison with NULL never holds. \<open>sqlSet p f t\<close> is
  \<open>UPDATE ... SET f WHERE p\<close>, evaluated against the table the statement started from. Only
  statements that put a row into the queued status can violate the partial unique index
  \<open>job_type_dedupeKey_queued_uidx\<close>; those check it (\<open>checked\<close>) and fail as a whole. Foreign
  keys to users and services are not part of the table's model. A \<open>Date\<close> the code takes from
  the clock is an argument. The instance methods take the \<open>JobDTO\<close>'s own copy of its row, which
  may be older than the table's.
\<close>

section \<open>Data\<close>

datatype JobStatus = Queued | Running | Succeeded | Failed | Cancelled

datatype JobStage = Prepare | Execute | Finalize | Finalizing

datatype DeferGate = StatusChecks | BuildSlot

datatype JobType =
    Backup | BackupPrune | BackupRestore | CoreService | CronJob | Deploy
  | DockerCleanup | ImageScan | NotificationDelivery | PipelineSync

record job =
  job_attempts :: nat
  job_buildHostId :: "string option"
  job_createdAt :: timestamp
  job_dedupeKey :: "string option"
  job_deferredFor :: "DeferGate option"
  job_deferredSince :: "timestamp option"
  job_dependsOnJobId :: "string option"
  job_error :: "string option"
  job_exclusive :: bool
  job_executorError :: "string option"
  job_executorResult :: "json option"
  job_finishedAt :: "timestamp option"
  job_heartbeatAt :: "timestamp option"
  job_id :: string
  job_lockKey :: "string option"
  job_log :: string
  job_maxAttempts :: int
  job_payload :: "(string \<times> json) list"
  job_priority :: int
  job_progressAt :: "timestamp option"
  job_result :: "json option"
  job_runAt :: timestamp
  job_serviceId :: "string option"
  job_spec :: "string option"
  job_stage :: "JobStage option"
  job_startedAt :: "timestamp option"
  job_status :: JobStatus
  job_title :: string
  job_type :: JobType
  job_userId :: string
  job_workerId :: "string option"
  job_workerVersion :: "string option"

record NewJobInput =
  in_dedupeKey :: "string option"
  in_dependsOnJobId :: "string option"
  in_exclusive :: "bool option"
  in_lockKey :: "string option"
  in_maxAttempts :: "int option"
  in_payload :: "(string \<times> json) list"
  in_priority :: "int option"
  in_runAt :: "timestamp option"
  in_serviceId :: "string option"
  in_title :: string
  in_type :: JobType
  in_userId :: string

record CancelledJob =
  cj_id :: string
  cj_payload :: "(string \<times> json) list"
  cj_type :: JobType

type_synonym table = "job list"

datatype db_error = UniqueViolation

text \<open>A statement's result together with the table it leaves.\<close>

type_synonym 'r dbres = "(db_error + 'r) \<times> table"

section \<open>Statements and constraints\<close>

definition TERMINAL_STATUSES :: "JobStatus list" where
  "TERMINAL_STATUSES = [Succeeded, Failed, Cancelled]"

definition RETENTION_MS :: int where
  "RETENTION_MS = 7 * 24 * 60 * 60 * 1000"

definition ACTIVE :: "job \<Rightarrow> bool" where
  "ACTIVE j \<longleftrightarrow> job_status j \<in> set [Queued, Running]"

definition sqlSet :: "(job \<Rightarrow> bool) \<Rightarrow> (job \<Rightarrow> job) \<Rightarrow> table \<Rightarrow> table" where
  "sqlSet p f t = map (\<lambda>j. if p j then f j else j) t"

definition dedupeConflict :: "job \<Rightarrow> job \<Rightarrow> bool" where
  "dedupeConflict a b \<longleftrightarrow>
     job_status a = Queued \<and> job_status b = Queued \<and> job_type a = job_type b \<and>
     job_dedupeKey a = job_dedupeKey b \<and> job_dedupeKey a \<noteq> None"

definition noPair :: "(job \<Rightarrow> job \<Rightarrow> bool) \<Rightarrow> table \<Rightarrow> bool" where
  "noPair R t \<longleftrightarrow> list_all (\<lambda>a. list_all (\<lambda>b. R a b \<longrightarrow> job_id a = job_id b) t) t"

definition constraintsOk :: "table \<Rightarrow> bool" where
  "constraintsOk t \<longleftrightarrow> distinct (map job_id t) \<and> noPair dedupeConflict t"

definition checked :: "table \<Rightarrow> table \<Rightarrow> 'r \<Rightarrow> 'r dbres" where
  "checked t t' r = (if constraintsOk t' then (Inr r, t') else (Inl UniqueViolation, t))"

definition CLEARED_STAGE :: "job \<Rightarrow> job" where
  "CLEARED_STAGE j = j\<lparr>job_executorError := None, job_executorResult := None, job_heartbeatAt := None,
     job_progressAt := None, job_spec := None, job_stage := None, job_workerId := None\<rparr>"

section \<open>Claiming conditions\<close>

definition dependencySatisfied :: "table \<Rightarrow> job \<Rightarrow> bool" where
  "dependencySatisfied t j \<longleftrightarrow>
     \<not> list_ex (\<lambda>d. Some (job_id d) = job_dependsOnJobId j \<and> job_status d \<noteq> Succeeded) t"

definition lockFree :: "table \<Rightarrow> job \<Rightarrow> bool" where
  "lockFree t j \<longleftrightarrow>
     \<not> list_ex (\<lambda>h. job_status h = Running \<and> job_lockKey h \<noteq> None \<and> job_lockKey h = job_lockKey j) t"

definition exclusivityRespected :: "table \<Rightarrow> job \<Rightarrow> bool" where
  "exclusivityRespected t j \<longleftrightarrow>
     \<not> list_ex (\<lambda>r. job_status r = Running \<and> (job_exclusive r \<or> job_exclusive j)) t"

definition noExclusiveBarrierAhead :: "timestamp \<Rightarrow> table \<Rightarrow> job \<Rightarrow> bool" where
  "noExclusiveBarrierAhead now t j \<longleftrightarrow>
     job_exclusive j \<or>
     \<not> list_ex (\<lambda>b. job_status b = Queued \<and> job_exclusive b \<and> job_runAt b \<le> now) t"

definition claimableCondition :: "timestamp \<Rightarrow> table \<Rightarrow> job \<Rightarrow> bool" where
  "claimableCondition now t j \<longleftrightarrow>
     job_status j = Queued \<and> job_runAt j \<le> now \<and> dependencySatisfied t j \<and> lockFree t j \<and>
     exclusivityRespected t j \<and> noExclusiveBarrierAhead now t j"

definition claimOrder :: "job \<Rightarrow> int \<times> int \<times> int" where
  "claimOrder j = (- job_priority j, job_runAt j, job_createdAt j)"

section \<open>Reads\<close>

definition getJob :: "string \<Rightarrow> table \<Rightarrow> job option" where
  "getJob i t = List.find (\<lambda>j. job_id j = i) t"

text \<open>\<open>wanted\<close> drops null ids; the result is a map keyed by job id.\<close>

definition logsFor :: "string option list \<Rightarrow> table \<Rightarrow> string js_map" where
  "logsFor ids t =
     (let wanted = List.map_filter (\<lambda>i. i) ids in
      if wanted = [] then []
      else map (\<lambda>j. (job_id j, job_log j)) (filter (\<lambda>j. job_id j \<in> set wanted) t))"

definition progressFor :: "string option list \<Rightarrow> table \<Rightarrow> (nat \<times> timestamp option \<times> JobStatus) js_map" where
  "progressFor ids t =
     (let wanted = List.map_filter (\<lambda>i. i) ids in
      if wanted = [] then []
      else map (\<lambda>j. (job_id j, job_attempts j, job_progressAt j, job_status j))
             (filter (\<lambda>j. job_id j \<in> set wanted) t))"

definition hasActiveScheduledWork :: "table \<Rightarrow> bool" where
  "hasActiveScheduledWork t =
     list_ex (\<lambda>j. if job_type j = Deploy then map_of (job_payload j) ''trigger'' = Some (JStr ''cron'')
                  else map_of (job_payload j) ''scheduled'' = Some (JBool True))
       (filter (\<lambda>j. ACTIVE j \<and> job_type j \<in> set [Backup, CronJob, Deploy]) t)"

definition findQueued :: "JobType \<Rightarrow> string \<Rightarrow> table \<Rightarrow> job option" where
  "findQueued ty key t =
     List.find (\<lambda>j. job_type j = ty \<and> job_dedupeKey j = Some key \<and> job_status j = Queued) t"

definition listActiveForServices :: "string list \<Rightarrow> table \<Rightarrow> (string \<times> string option \<times> string) list" where
  "listActiveForServices ids t =
     map (\<lambda>j. (job_id j, job_serviceId j, job_title j))
       (filter (\<lambda>j. job_serviceId j \<in> Some ` set ids \<and> ACTIVE j) t)"

definition findActive :: "JobType \<Rightarrow> string \<Rightarrow> table \<Rightarrow> job option" where
  "findActive ty key t =
     List.find (\<lambda>j. job_type j = ty \<and> job_dedupeKey j = Some key \<and> ACTIVE j) t"

definition countByTypes :: "JobType list \<Rightarrow> JobStatus list \<Rightarrow> table \<Rightarrow> nat" where
  "countByTypes types statuses t =
     length (filter (\<lambda>j. job_type j \<in> set types \<and> job_status j \<in> set statuses) t)"

definition listStalledExecutions :: "timestamp \<Rightarrow> table \<Rightarrow> job list" where
  "listStalledExecutions since t =
     filter (\<lambda>j. job_status j = Running \<and> job_stage j = Some Execute \<and>
        ((job_heartbeatAt j = None \<and> (case job_startedAt j of None \<Rightarrow> False | Some s \<Rightarrow> s < since)) \<or>
         (case job_heartbeatAt j of None \<Rightarrow> False | Some h \<Rightarrow> h < since))) t"

section \<open>Writes\<close>

definition appendLog :: "string \<Rightarrow> string \<Rightarrow> timestamp \<Rightarrow> table \<Rightarrow> table" where
  "appendLog i line now t =
     sqlSet (\<lambda>j. job_id j = i)
       (\<lambda>j. j\<lparr>job_log := job_log j @ line @ [CHR 10], job_progressAt := Some now\<rparr>) t"

definition prune :: "timestamp \<Rightarrow> table \<Rightarrow> table" where
  "prune now t =
     filter (\<lambda>j. \<not> (job_status j \<in> set TERMINAL_STATUSES \<and>
        (case job_finishedAt j of None \<Rightarrow> False | Some f \<Rightarrow> f < now - RETENTION_MS))) t"

definition newRow :: "string \<Rightarrow> timestamp \<Rightarrow> NewJobInput \<Rightarrow> job" where
  "newRow uuid now input = \<lparr>
     job_attempts = 0,
     job_buildHostId = None,
     job_createdAt = now,
     job_dedupeKey = in_dedupeKey input,
     job_deferredFor = None,
     job_deferredSince = None,
     job_dependsOnJobId = in_dependsOnJobId input,
     job_error = None,
     job_exclusive = (case in_exclusive input of None \<Rightarrow> False | Some b \<Rightarrow> b),
     job_executorError = None,
     job_executorResult = None,
     job_finishedAt = None,
     job_heartbeatAt = None,
     job_id = uuid,
     job_lockKey = in_lockKey input,
     job_log = [],
     job_maxAttempts = (case in_maxAttempts input of None \<Rightarrow> 1 | Some m \<Rightarrow> m),
     job_payload = in_payload input,
     job_priority = (case in_priority input of None \<Rightarrow> 0 | Some p \<Rightarrow> p),
     job_progressAt = None,
     job_result = None,
     job_runAt = (case in_runAt input of None \<Rightarrow> now | Some r \<Rightarrow> r),
     job_serviceId = in_serviceId input,
     job_spec = None,
     job_stage = None,
     job_startedAt = None,
     job_status = Queued,
     job_title = in_title input,
     job_type = in_type input,
     job_userId = in_userId input,
     job_workerId = None,
     job_workerVersion = None\<rparr>"

text \<open>
  \<open>create\<close>: the uuid, the two clock reads and whether \<open>Math.random()\<close> fell under the prune
  probability are arguments. \<open>onConflictDoNothing\<close> skips the insert when the primary key or
  the queued dedupe index is already taken.
\<close>

definition create :: "string \<Rightarrow> timestamp \<Rightarrow> bool \<Rightarrow> timestamp \<Rightarrow> NewJobInput \<Rightarrow> table \<Rightarrow> job option \<times> table" where
  "create uuid now pruneNow pruneAt input t =
     (let row = newRow uuid now input;
          conflict = list_ex (\<lambda>j. job_id j = uuid \<or> dedupeConflict j row) t;
          t' = (if conflict then t else t @ [row])
      in (if conflict then None else Some row, if pruneNow then prune pruneAt t' else t'))"

text \<open>
  \<open>claimNext\<close>: \<open>locked\<close> are the rows other transactions hold, which \<open>SKIP LOCKED\<close> passes over.
\<close>

definition claimNext :: "timestamp \<Rightarrow> timestamp \<Rightarrow> string list \<Rightarrow> table \<Rightarrow> job option \<times> table" where
  "claimNext now startedAt locked t =
     (case first_by claimOrder (filter (\<lambda>j. claimableCondition now t j \<and> job_id j \<notin> set locked) t) of
        None \<Rightarrow> (None, t)
      | Some candidate \<Rightarrow>
          (let claim = (\<lambda>j. j\<lparr>job_attempts := job_attempts candidate + 1,
                              job_startedAt := Some startedAt, job_status := Running\<rparr>)
           in (Some (claim candidate), sqlSet (\<lambda>j. job_id j = job_id candidate) claim t)))"

definition finalizeOrder :: "job \<Rightarrow> int \<times> int" where
  "finalizeOrder j = (- job_priority j, job_createdAt j)"

definition claimFinalize :: "string list \<Rightarrow> table \<Rightarrow> job option \<times> table" where
  "claimFinalize locked t =
     (case first_by finalizeOrder (filter (\<lambda>j. job_status j = Running \<and> job_stage j = Some Finalize
              \<and> job_id j \<notin> set locked) t) of
        None \<Rightarrow> (None, t)
      | Some candidate \<Rightarrow>
          (Some (candidate\<lparr>job_stage := Some Finalizing\<rparr>),
           sqlSet (\<lambda>j. job_id j = job_id candidate) (\<lambda>j. j\<lparr>job_stage := Some Finalizing\<rparr>) t))"

definition orphaned :: "string list \<Rightarrow> job \<Rightarrow> bool" where
  "orphaned live j \<longleftrightarrow>
     job_status j = Running \<and> (job_stage j = None \<or> job_stage j = Some Prepare) \<and> job_id j \<notin> set live"

definition supersededBy :: "job \<Rightarrow> job \<Rightarrow> bool" where
  "supersededBy j twin \<longleftrightarrow>
     job_type twin = job_type j \<and> job_dedupeKey twin \<noteq> None \<and> job_dedupeKey twin = job_dedupeKey j \<and>
     job_id twin \<noteq> job_id j \<and>
     (job_status twin = Queued \<or>
      (job_status twin = Running \<and> (job_stage twin = None \<or> job_stage twin = Some Prepare) \<and>
       job_createdAt twin > job_createdAt j))"

text \<open>
  \<open>requeueOrphaned\<close> is three statements; the last one puts rows back into the queue, so it can
  fail on the dedupe index, leaving the table the first two made.
\<close>

definition requeueOrphaned :: "string list \<Rightarrow> timestamp \<Rightarrow> table \<Rightarrow> nat dbres" where
  "requeueOrphaned live now t =
     (let t1 = sqlSet (\<lambda>j. job_status j = Running \<and> job_stage j = Some Finalizing \<and> job_id j \<notin> set live)
                 (\<lambda>j. j\<lparr>job_stage := Some Finalize\<rparr>) t;
          t2 = sqlSet (\<lambda>j. orphaned live j \<and> list_ex (supersededBy j) t1)
                 (\<lambda>j. (CLEARED_STAGE j)\<lparr>
                    job_error := Some ''Superseded by a newer job for the same target.'',
                    job_finishedAt := Some now, job_status := Cancelled\<rparr>) t1;
          t3 = sqlSet (orphaned live)
                 (\<lambda>j. (CLEARED_STAGE j)\<lparr>job_startedAt := None, job_status := Queued\<rparr>) t2
      in checked t2 t3 (length (filter (orphaned live) t2)))"

definition toCancelled :: "job \<Rightarrow> CancelledJob" where
  "toCancelled j = \<lparr>cj_id = job_id j, cj_payload = job_payload j, cj_type = job_type j\<rparr>"

definition dependsOnAny :: "string list \<Rightarrow> job \<Rightarrow> bool" where
  "dependsOnAny frontier j \<longleftrightarrow>
     (case job_dependsOnJobId j of None \<Rightarrow> False | Some d \<Rightarrow> d \<in> set frontier) \<and> ACTIVE j"

definition cancelRow :: "string \<Rightarrow> timestamp \<Rightarrow> job \<Rightarrow> job" where
  "cancelRow reason now j = j\<lparr>job_error := Some reason, job_finishedAt := Some now, job_status := Cancelled\<rparr>"

lemma cancel_fewer_active:
  assumes "filter (dependsOnAny F) t \<noteq> []"
  shows "length (filter ACTIVE (sqlSet (dependsOnAny F) (cancelRow r c) t)) < length (filter ACTIVE t)"
proof -
  have "filter ACTIVE (sqlSet (dependsOnAny F) (cancelRow r c) t)
      = filter (\<lambda>j. ACTIVE j \<and> \<not> dependsOnAny F j) t"
    by (induction t) (auto simp: sqlSet_def cancelRow_def ACTIVE_def dependsOnAny_def)
  moreover have "length (filter (\<lambda>j. ACTIVE j \<and> \<not> dependsOnAny F j) t) < length (filter ACTIVE t)"
    using assms by (intro length_filter_less) (auto simp: filter_empty_conv dependsOnAny_def)
  ultimately show ?thesis by simp
qed

lemma cancel_same_active:
  assumes "filter (dependsOnAny F) t = []"
  shows "sqlSet (dependsOnAny F) (cancelRow r c) t = t"
  using assms by (induction t) (auto simp: sqlSet_def split: if_splits)

text \<open>
  The loop of \<open>cancelDependents\<close>, one dependency level per turn; \<open>clock n\<close> is the time the
  \<open>n\<close>-th turn reads. Every turn that finds rows leaves fewer active ones, so it ends.
\<close>

function cancelLevels :: "(nat \<Rightarrow> timestamp) \<Rightarrow> string \<Rightarrow> nat \<Rightarrow> string list \<Rightarrow> table \<Rightarrow> CancelledJob list \<times> table" where
  "cancelLevels clock reason n frontier t =
     (if frontier = [] then ([], t)
      else
        (let cancelled = filter (dependsOnAny frontier) t;
             t' = sqlSet (dependsOnAny frontier) (cancelRow reason (clock n)) t;
             (rest, t'') = cancelLevels clock reason (Suc n) (map job_id cancelled) t'
         in (map toCancelled cancelled @ rest, t'')))"
  by pat_completeness auto

termination
proof (relation "measure (\<lambda>(clock, reason, n, frontier, t).
    length (filter ACTIVE t) + (if frontier = [] then 0 else 1))", goal_cases)
  case (2 clock reason n frontier t cancelled t')
  show ?case
  proof (cases "filter (dependsOnAny frontier) t = []")
    case True
    then show ?thesis using 2 by (simp add: cancel_same_active)
  next
    case False
    then show ?thesis using 2 cancel_fewer_active[OF False] by simp
  qed
qed simp

declare cancelLevels.simps [simp del]

definition cancelDependents :: "(nat \<Rightarrow> timestamp) \<Rightarrow> string \<Rightarrow> string \<Rightarrow> table \<Rightarrow> CancelledJob list \<times> table" where
  "cancelDependents clock jobId reason t = cancelLevels clock reason 0 [jobId] t"

definition cancel :: "(nat \<Rightarrow> timestamp) \<Rightarrow> timestamp \<Rightarrow> string \<Rightarrow> string \<Rightarrow> table \<Rightarrow> CancelledJob list \<times> table" where
  "cancel clock now i reason t =
     (let hit = (\<lambda>j. job_id j = i \<and> ACTIVE j);
          cancelled = map toCancelled (filter hit t);
          t' = sqlSet hit (\<lambda>j. cancelRow reason now (CLEARED_STAGE j)) t
      in if cancelled = [] then ([], t')
         else (let (dependents, t'') = cancelDependents clock i reason t'
               in (cancelled @ dependents, t'')))"

text \<open>
  \<open>payload->>'key'\<close>: a scalar field as text. Objects and arrays would render as JSON text, which
  is never an id.
\<close>

definition payloadText :: "string \<Rightarrow> (string \<times> json) list \<Rightarrow> string option" where
  "payloadText key payload =
     (case map_of payload key of
        Some (JStr s) \<Rightarrow> Some s
      | Some (JNum i) \<Rightarrow> Some (show_int i)
      | Some (JBool b) \<Rightarrow> Some (if b then ''true'' else ''false'')
      | _ \<Rightarrow> None)"

definition cancelForDeployment ::
  "(string \<Rightarrow> nat \<Rightarrow> timestamp) \<Rightarrow> timestamp \<Rightarrow> string \<Rightarrow> string \<Rightarrow> table \<Rightarrow> bool \<times> table" where
  "cancelForDeployment clock now deploymentId reason t =
     (let hit = (\<lambda>j. payloadText ''deploymentId'' (job_payload j) = Some deploymentId \<and> ACTIVE j);
          cancelled = map job_id (filter hit t);
          t' = sqlSet hit (\<lambda>j. cancelRow reason now (CLEARED_STAGE j)) t
      in (cancelled \<noteq> [],
          fold (\<lambda>i u. snd (cancelDependents (clock i) i reason u)) cancelled t'))"

definition stampWorkerVersion :: "string \<Rightarrow> string \<Rightarrow> table \<Rightarrow> table" where
  "stampWorkerVersion i version t =
     sqlSet (\<lambda>j. job_id j = i) (\<lambda>j. j\<lparr>job_workerVersion := Some version\<rparr>) t"

section \<open>Instance methods\<close>

text \<open>
  \<open>update\<close> writes the given fields (the assignment \<open>f\<close>) to the entry's row and mirrors them
  onto the entry; no method looks at the row's current status.
\<close>

definition dtoUpdate :: "(job \<Rightarrow> job) \<Rightarrow> job \<Rightarrow> table \<Rightarrow> job dbres" where
  "dtoUpdate f entry t = checked t (sqlSet (\<lambda>j. job_id j = job_id entry) f t) (f entry)"

definition markSucceeded :: "timestamp \<Rightarrow> json option \<Rightarrow> job \<Rightarrow> table \<Rightarrow> job dbres" where
  "markSucceeded now result =
     dtoUpdate (\<lambda>j. j\<lparr>job_finishedAt := Some now, job_result := result, job_spec := None,
                      job_stage := None, job_status := Succeeded\<rparr>)"

definition markFailed :: "timestamp \<Rightarrow> string \<Rightarrow> job \<Rightarrow> table \<Rightarrow> job dbres" where
  "markFailed now err =
     dtoUpdate (\<lambda>j. j\<lparr>job_error := Some err, job_finishedAt := Some now, job_spec := None,
                      job_stage := None, job_status := Failed\<rparr>)"

definition scheduleRetry :: "string \<Rightarrow> timestamp \<Rightarrow> job \<Rightarrow> table \<Rightarrow> job dbres" where
  "scheduleRetry err runAt =
     dtoUpdate (\<lambda>j. (CLEARED_STAGE j)\<lparr>job_error := Some err, job_runAt := runAt,
                      job_startedAt := None, job_status := Queued\<rparr>)"

definition deferJob :: "timestamp \<Rightarrow> timestamp \<Rightarrow> DeferGate \<Rightarrow> job \<Rightarrow> table \<Rightarrow> job dbres" where
  "deferJob now runAt gate entry =
     (let sameGate = job_deferredFor entry = Some gate;
          since = (case job_deferredSince entry of Some s \<Rightarrow> if sameGate then s else now | None \<Rightarrow> now)
      in dtoUpdate (\<lambda>j. (CLEARED_STAGE j)\<lparr>
            job_attempts := job_attempts entry - 1,
            job_buildHostId := None,
            job_dedupeKey := None,
            job_deferredFor := Some gate,
            job_deferredSince := Some since,
            job_runAt := runAt,
            job_startedAt := None,
            job_status := Queued\<rparr>) entry)"

text \<open>The cipher and \<open>JSON.stringify\<close> are the parameter \<open>enc\<close>, their inverses \<open>dec\<close>.\<close>

definition handOff :: "(json \<Rightarrow> string) \<Rightarrow> json \<Rightarrow> job \<Rightarrow> table \<Rightarrow> job dbres" where
  "handOff enc spec =
     dtoUpdate (\<lambda>j. (CLEARED_STAGE j)\<lparr>job_spec := Some (enc spec), job_stage := Some Execute\<rparr>)"

definition decryptSpec :: "(string \<Rightarrow> json option) \<Rightarrow> job \<Rightarrow> json option" where
  "decryptSpec dec entry =
     (case job_spec entry of None \<Rightarrow> None | Some s \<Rightarrow> if s = [] then None else dec s)"

definition deferral :: "job \<Rightarrow> (DeferGate \<times> timestamp) option" where
  "deferral j =
     (case (job_deferredFor j, job_deferredSince j) of
        (Some gate, Some since) \<Rightarrow> Some (gate, since)
      | _ \<Rightarrow> None)"

section \<open>Staleness and summaries\<close>

definition STALE_JOB_MS :: int where
  "STALE_JOB_MS = 2 * 60 * 1000"

definition STALE_PROGRESS_MS :: int where
  "STALE_PROGRESS_MS = 15 * 60 * 1000"

definition isStaleJob :: "job \<Rightarrow> timestamp \<Rightarrow> bool" where
  "isStaleJob entry now =
     (if job_status entry \<noteq> Running \<or> job_stage entry \<noteq> Some Execute then False
      else
        (let lastSign = (case job_heartbeatAt entry of Some h \<Rightarrow> Some h | None \<Rightarrow> job_startedAt entry)
         in if (case lastSign of None \<Rightarrow> False | Some s \<Rightarrow> s < now - STALE_JOB_MS) then True
            else (case job_progressAt entry of None \<Rightarrow> False | Some p \<Rightarrow> p < now - STALE_PROGRESS_MS)))"

record JobSummary =
  js_attempts :: nat
  js_createdAt :: timestamp
  js_heartbeatAt :: "timestamp option"
  js_id :: string
  js_serviceId :: "string option"
  js_serviceName :: "string option"
  js_stage :: "JobStage option"
  js_stale :: bool
  js_startedAt :: "timestamp option"
  js_status :: JobStatus
  js_title :: string
  js_type :: JobType
  js_workerId :: "string option"

definition summaryOrder :: "job \<Rightarrow> int \<times> int \<times> int" where
  "summaryOrder j =
     (case job_status j of Running \<Rightarrow> 0 | Queued \<Rightarrow> 1 | _ \<Rightarrow> 2,
      if ACTIVE j then job_createdAt j else 0,
      - job_createdAt j)"

definition summaries ::
  "string js_map \<Rightarrow> timestamp \<Rightarrow> (job \<Rightarrow> bool) \<Rightarrow> (nat \<times> nat) option \<Rightarrow> table \<Rightarrow> JobSummary list" where
  "summaries services now cond page t =
     (let rows = sort_key summaryOrder (filter cond t);
          rows = (case page of None \<Rightarrow> rows | Some (limit, offset) \<Rightarrow> take limit (drop offset rows))
      in map (\<lambda>row. \<lparr>
           js_attempts = job_attempts row,
           js_createdAt = job_createdAt row,
           js_heartbeatAt = job_heartbeatAt row,
           js_id = job_id row,
           js_serviceId = job_serviceId row,
           js_serviceName = Option.bind (job_serviceId row) (map_of services),
           js_stage = job_stage row,
           js_stale = isStaleJob row now,
           js_startedAt = job_startedAt row,
           js_status = job_status row,
           js_title = job_title row,
           js_type = job_type row,
           js_workerId = job_workerId row\<rparr>) rows)"

definition listUpdateBlockers :: "string js_map \<Rightarrow> timestamp \<Rightarrow> table \<Rightarrow> JobSummary list" where
  "listUpdateBlockers services now t =
     summaries services now
       (\<lambda>j. job_status j = Running \<or> (job_type j = Deploy \<and> job_status j = Queued)) None t"

text \<open>\<open>listPaged\<close>: the page of summaries and the total.\<close>

definition listPaged ::
  "string js_map \<Rightarrow> timestamp \<Rightarrow> nat \<Rightarrow> nat \<Rightarrow> JobStatus list \<Rightarrow> table \<Rightarrow> JobSummary list \<times> nat" where
  "listPaged services now limit offset statuses t =
     (let cond = (\<lambda>j. statuses = [] \<or> job_status j \<in> set statuses)
      in (summaries services now cond (Some (limit, offset)) t, length (filter cond t)))"

text \<open>The search of a job list: a case-insensitive substring of the title, and the type filter.\<close>

definition jobFilter :: "string \<Rightarrow> JobType list \<Rightarrow> job \<Rightarrow> bool" where
  "jobFilter q types j \<longleftrightarrow>
     (q \<noteq> [] \<longrightarrow> contains_str (lower q) (lower (job_title j))) \<and>
     (types \<noteq> [] \<longrightarrow> job_type j \<in> set types)"

definition listActive :: "string \<Rightarrow> JobType list \<Rightarrow> table \<Rightarrow> job list" where
  "listActive q types t =
     take 50 (sort_key (\<lambda>j. (if job_status j = Running then 0 else (1::int), - job_priority j, job_createdAt j))
       (filter (\<lambda>j. ACTIVE j \<and> jobFilter q types j) t))"

definition listRecent :: "string js_map \<Rightarrow> nat \<Rightarrow> string \<Rightarrow> JobType list \<Rightarrow> table \<Rightarrow> (job \<times> string option) list" where
  "listRecent slugs limit q types t =
     map (\<lambda>j. (j, Option.bind (job_serviceId j) (map_of slugs)))
       (take limit (sort_key (\<lambda>j. case job_finishedAt j of None \<Rightarrow> (0::int, 0::int) | Some f \<Rightarrow> (1, - f))
          (filter (\<lambda>j. job_status j \<in> set TERMINAL_STATUSES \<and> jobFilter q types j) t)))"

section \<open>The Go worker's side of the table\<close>

text \<open>
  \<open>internal/worker/store.go\<close>, the other writer of the table: it leases, heartbeats, finishes and
  releases rows in the \<open>execute\<close> stage. \<open>lease\<close> is the lease timeout.
\<close>

definition goClaim :: "timestamp \<Rightarrow> int \<Rightarrow> string \<Rightarrow> string \<Rightarrow> string list \<Rightarrow> table \<Rightarrow> job option \<times> table" where
  "goClaim now lease worker version locked t =
     (let free = (\<lambda>j. job_status j = Running \<and> job_stage j = Some Execute \<and>
                      (job_workerId j = None \<or>
                       (case job_heartbeatAt j of None \<Rightarrow> True | Some h \<Rightarrow> h < now - lease)) \<and>
                      job_id j \<notin> set locked);
          take_lease = (\<lambda>j. j\<lparr>job_workerId := Some worker, job_workerVersion := Some version,
                              job_heartbeatAt := Some now, job_progressAt := Some now\<rparr>)
      in case first_by finalizeOrder (filter free t) of
           None \<Rightarrow> (None, t)
         | Some c \<Rightarrow> (Some (take_lease c), sqlSet (\<lambda>j. job_id j = job_id c) take_lease t))"

definition leasedBy :: "string \<Rightarrow> string \<Rightarrow> job \<Rightarrow> bool" where
  "leasedBy i worker j \<longleftrightarrow>
     job_id j = i \<and> job_workerId j = Some worker \<and> job_status j = Running \<and> job_stage j = Some Execute"

definition goHeartbeat :: "timestamp \<Rightarrow> int \<Rightarrow> string \<Rightarrow> string \<Rightarrow> table \<Rightarrow> bool \<times> table" where
  "goHeartbeat now quiet i worker t =
     (length (filter (leasedBy i worker) t) = 1,
      sqlSet (leasedBy i worker)
        (\<lambda>j. j\<lparr>job_heartbeatAt := Some now, job_progressAt := Some (now - max quiet 0)\<rparr>) t)"

definition goFinish :: "string \<Rightarrow> string \<Rightarrow> json option \<Rightarrow> string option \<Rightarrow> table \<Rightarrow> table" where
  "goFinish i worker result err t =
     sqlSet (leasedBy i worker)
       (\<lambda>j. j\<lparr>job_stage := Some Finalize, job_executorResult := result, job_executorError := err,
              job_workerId := None, job_heartbeatAt := None\<rparr>) t"

definition goRelease :: "string \<Rightarrow> string \<Rightarrow> table \<Rightarrow> table" where
  "goRelease i worker t =
     sqlSet (\<lambda>j. job_id j = i \<and> job_workerId j = Some worker)
       (\<lambda>j. j\<lparr>job_workerId := None, job_heartbeatAt := None\<rparr>) t"

end
