(* ===== verification/Job_Laws.thy ===== *)
theory Job_Laws
  imports Job_Queue
begin

text \<open>
  The laws of the job table. Every write of the app and of the Go worker keeps the queue
  invariant (\<open>queueInv\<close>): unique ids, the queued dedupe index, one running job per lock key and
  an exclusive job running alone. On top of it: what claiming picks and when it returns nothing,
  the exclusive barrier, the rows a cancel reaches, orphan recovery, deferral and staleness.
\<close>

section \<open>The invariant\<close>

definition lockConflict :: "job \<Rightarrow> job \<Rightarrow> bool" where
  "lockConflict a b \<longleftrightarrow>
     job_status a = Running \<and> job_status b = Running \<and> job_lockKey a \<noteq> None \<and> job_lockKey a = job_lockKey b"

definition exclConflict :: "job \<Rightarrow> job \<Rightarrow> bool" where
  "exclConflict a b \<longleftrightarrow>
     job_status a = Running \<and> job_status b = Running \<and> (job_exclusive a \<or> job_exclusive b)"

definition queueInv :: "table \<Rightarrow> bool" where
  "queueInv t \<longleftrightarrow> constraintsOk t \<and> noPair lockConflict t \<and> noPair exclConflict t"

text \<open>Assignments that start no job, and assignments that also queue no dedupe key.\<close>

definition startsNone :: "job \<Rightarrow> job \<Rightarrow> bool" where
  "startsNone j j' \<longleftrightarrow> job_id j' = job_id j \<and> job_lockKey j' = job_lockKey j \<and>
     job_exclusive j' = job_exclusive j \<and> (job_status j' = Running \<longrightarrow> job_status j = Running)"

definition queuesNone :: "job \<Rightarrow> job \<Rightarrow> bool" where
  "queuesNone j j' \<longleftrightarrow> job_id j' = job_id j \<and> job_type j' = job_type j \<and>
     (job_status j' = Queued \<and> job_dedupeKey j' \<noteq> None \<longrightarrow>
        job_status j = Queued \<and> job_dedupeKey j' = job_dedupeKey j)"

lemma noPairI: "(\<And>a b. a \<in> set t \<Longrightarrow> b \<in> set t \<Longrightarrow> R a b \<Longrightarrow> job_id a = job_id b) \<Longrightarrow> noPair R t"
  by (auto simp: noPair_def list_all_iff)

lemma noPairD: "noPair R t \<Longrightarrow> a \<in> set t \<Longrightarrow> b \<in> set t \<Longrightarrow> R a b \<Longrightarrow> job_id a = job_id b"
  by (auto simp: noPair_def list_all_iff)

lemma set_sqlSet: "set (sqlSet p f t) = (\<lambda>j. if p j then f j else j) ` set t"
  by (simp add: sqlSet_def)

lemma length_sqlSet [simp]: "length (sqlSet p f t) = length t"
  by (simp add: sqlSet_def)

lemma ids_sqlSet:
  "(\<And>j. j \<in> set t \<Longrightarrow> p j \<Longrightarrow> job_id (f j) = job_id j) \<Longrightarrow> map job_id (sqlSet p f t) = map job_id t"
  by (simp add: sqlSet_def)

lemma noPair_sqlSet:
  assumes "noPair R t"
    and ids: "\<And>j. j \<in> set t \<Longrightarrow> p j \<Longrightarrow> job_id (f j) = job_id j"
    and rback: "\<And>a b. a \<in> set t \<Longrightarrow> b \<in> set t \<Longrightarrow>
        R (if p a then f a else a) (if p b then f b else b) \<Longrightarrow> R a b"
  shows "noPair R (sqlSet p f t)"
proof (rule noPairI)
  fix a' b' assume "a' \<in> set (sqlSet p f t)" "b' \<in> set (sqlSet p f t)" "R a' b'"
  then obtain a b where a: "a \<in> set t" "a' = (if p a then f a else a)"
    and b: "b \<in> set t" "b' = (if p b then f b else b)" by (auto simp: set_sqlSet)
  with \<open>R a' b'\<close> rback have "R a b" by metis
  with assms(1) a(1) b(1) have "job_id a = job_id b" by (rule noPairD)
  then show "job_id a' = job_id b'" using a b ids by auto
qed

lemma running_pairs_sqlSet:
  assumes "noPair lockConflict t" "noPair exclConflict t"
    and f: "\<And>j. j \<in> set t \<Longrightarrow> p j \<Longrightarrow> startsNone j (f j)"
  shows "noPair lockConflict (sqlSet p f t)" "noPair exclConflict (sqlSet p f t)"
proof -
  have upd: "startsNone a (if p a then f a else a)" if "a \<in> set t" for a
    using f that by (auto simp: startsNone_def)
  have ids: "job_id (f j) = job_id j" if "j \<in> set t" "p j" for j
    using f that by (simp add: startsNone_def)
  show "noPair lockConflict (sqlSet p f t)"
  proof (rule noPair_sqlSet[OF assms(1) ids])
    fix a b assume "a \<in> set t" "b \<in> set t" "lockConflict (if p a then f a else a) (if p b then f b else b)"
    then show "lockConflict a b"
      using upd[of a] upd[of b] unfolding lockConflict_def startsNone_def by metis
  qed
  show "noPair exclConflict (sqlSet p f t)"
  proof (rule noPair_sqlSet[OF assms(2) ids])
    fix a b assume "a \<in> set t" "b \<in> set t" "exclConflict (if p a then f a else a) (if p b then f b else b)"
    then show "exclConflict a b"
      using upd[of a] upd[of b] unfolding exclConflict_def startsNone_def by metis
  qed
qed

lemma constraintsOk_sqlSet:
  assumes "constraintsOk t" and f: "\<And>j. j \<in> set t \<Longrightarrow> p j \<Longrightarrow> queuesNone j (f j)"
  shows "constraintsOk (sqlSet p f t)"
proof -
  have upd: "queuesNone a (if p a then f a else a)" if "a \<in> set t" for a
    using f that by (auto simp: queuesNone_def)
  have "map job_id (sqlSet p f t) = map job_id t"
    using f by (intro ids_sqlSet) (auto simp: queuesNone_def)
  moreover have "noPair dedupeConflict (sqlSet p f t)"
  proof (rule noPair_sqlSet)
    show "noPair dedupeConflict t" using assms(1) by (simp add: constraintsOk_def)
    show "job_id (f j) = job_id j" if "j \<in> set t" "p j" for j using f that by (simp add: queuesNone_def)
    fix a b assume "a \<in> set t" "b \<in> set t"
      and R: "dedupeConflict (if p a then f a else a) (if p b then f b else b)"
    then show "dedupeConflict a b"
      using upd[of a] upd[of b] unfolding dedupeConflict_def queuesNone_def by metis
  qed
  ultimately show ?thesis using assms(1) by (simp add: constraintsOk_def)
qed

lemma queueInv_sqlSet [job_inv_intros]:
  assumes "queueInv t" and "\<And>j. j \<in> set t \<Longrightarrow> p j \<Longrightarrow> startsNone j (f j) \<and> queuesNone j (f j)"
  shows "queueInv (sqlSet p f t)"
  using assms by (auto simp: queueInv_def intro!: constraintsOk_sqlSet running_pairs_sqlSet)

lemma queueInv_checked [job_inv_intros]:
  assumes "queueInv t" and "\<And>j. j \<in> set t \<Longrightarrow> p j \<Longrightarrow> startsNone j (f j)"
  shows "queueInv (snd (checked t (sqlSet p f t) r))"
  using assms by (auto simp: queueInv_def checked_def intro!: running_pairs_sqlSet)

lemma queueInv_subset:
  assumes "queueInv t" and "set t' \<subseteq> set t" and "distinct (map job_id t')"
  shows "queueInv t'"
  using assms by (auto simp: queueInv_def constraintsOk_def noPair_def list_all_iff subset_iff)

lemmas tame_defs = startsNone_def queuesNone_def CLEARED_STAGE_def cancelRow_def

section \<open>Every write keeps the invariant\<close>

lemma appendLog_inv [job_inv_intros]: "queueInv t \<Longrightarrow> queueInv (appendLog i line now t)"
  unfolding appendLog_def by (rule queueInv_sqlSet) (auto simp: tame_defs)

lemma stamp_inv [job_inv_intros]: "queueInv t \<Longrightarrow> queueInv (stampWorkerVersion i v t)"
  unfolding stampWorkerVersion_def by (rule queueInv_sqlSet) (auto simp: tame_defs)

lemma prune_inv [job_inv_intros]: "queueInv t \<Longrightarrow> queueInv (prune now t)"
  by (rule queueInv_subset[of t])
    (auto simp: prune_def queueInv_def constraintsOk_def distinct_map_filter)

lemma noPair_snoc:
  "noPair R t \<Longrightarrow> \<forall>j \<in> set t. \<not> R j row \<and> \<not> R row j \<Longrightarrow> noPair R (t @ [row])"
  by (auto simp: noPair_def list_all_iff)

lemma append_row_inv:
  assumes "queueInv t" and q: "job_status row = Queued"
    and free: "\<not> list_ex (\<lambda>j. job_id j = job_id row \<or> dedupeConflict j row) t"
  shows "queueInv (t @ [row])"
proof -
  have "noPair dedupeConflict (t @ [row])"
    by (rule noPair_snoc) (use assms in \<open>auto simp: queueInv_def constraintsOk_def list_ex_iff dedupeConflict_def\<close>)
  moreover have "noPair lockConflict (t @ [row])"
    by (rule noPair_snoc) (use assms(1) q in \<open>auto simp: queueInv_def lockConflict_def\<close>)
  moreover have "noPair exclConflict (t @ [row])"
    by (rule noPair_snoc) (use assms(1) q in \<open>auto simp: queueInv_def exclConflict_def\<close>)
  moreover have "distinct (map job_id (t @ [row]))"
    using assms(1) free by (auto simp: queueInv_def constraintsOk_def list_ex_iff)
  ultimately show ?thesis by (simp add: queueInv_def constraintsOk_def)
qed

lemma create_inv [job_inv_intros]: "queueInv t \<Longrightarrow> queueInv (snd (create uuid now p pa input t))"
  using append_row_inv[of t "newRow uuid now input"]
  by (auto simp: create_def Let_def newRow_def intro!: prune_inv)

lemma claimNext_cases:
  assumes "claimNext now s locked t = (r, t')"
  obtains (None) "r = None" "t' = t" "\<forall>j \<in> set t. \<not> (claimableCondition now t j \<and> job_id j \<notin> set locked)"
  | (Some) c where "c \<in> set t" "claimableCondition now t c" "job_id c \<notin> set locked"
      "\<forall>j \<in> set t. claimableCondition now t j \<and> job_id j \<notin> set locked \<longrightarrow> claimOrder c \<le> claimOrder j"
      "r = Some (c\<lparr>job_attempts := job_attempts c + 1, job_startedAt := Some s, job_status := Running\<rparr>)"
      "t' = sqlSet (\<lambda>j. job_id j = job_id c)
         (\<lambda>j. j\<lparr>job_attempts := job_attempts c + 1, job_startedAt := Some s, job_status := Running\<rparr>) t"
proof (cases "first_by claimOrder (filter (\<lambda>j. claimableCondition now t j \<and> job_id j \<notin> set locked) t)")
  case None
  then have "\<forall>j \<in> set t. \<not> (claimableCondition now t j \<and> job_id j \<notin> set locked)"
    by (simp add: filter_empty_conv)
  moreover have "r = None" "t' = t" using assms None by (auto simp: claimNext_def)
  ultimately show ?thesis using that(1) by blast
next
  case (Some c)
  note c = first_by_in[OF Some] first_by_least[OF Some]
  have "r = Some (c\<lparr>job_attempts := job_attempts c + 1, job_startedAt := Some s, job_status := Running\<rparr>)"
    "t' = sqlSet (\<lambda>j. job_id j = job_id c)
       (\<lambda>j. j\<lparr>job_attempts := job_attempts c + 1, job_startedAt := Some s, job_status := Running\<rparr>) t"
    using assms Some by (auto simp: claimNext_def Let_def)
  then show ?thesis using c that(2)[of c] by auto
qed

lemma dedupeConflict_sym: "dedupeConflict a b \<longleftrightarrow> dedupeConflict b a"
  unfolding dedupeConflict_def by metis

lemma lockConflict_sym: "lockConflict a b \<Longrightarrow> lockConflict b a"
  unfolding lockConflict_def by metis

lemma exclConflict_sym: "exclConflict a b \<Longrightarrow> exclConflict b a"
  unfolding exclConflict_def by blast

text \<open>The claimed row is the only one that starts, and no running job conflicts with it.\<close>

lemma noPair_start:
  assumes inv: "noPair R t"
    and sym: "\<And>a b. R a b \<Longrightarrow> R b a"
    and free: "\<And>b. b \<in> set t \<Longrightarrow> job_id b \<noteq> i \<Longrightarrow> \<not> R (f c) b"
    and ids: "\<And>j. job_id (f j) = job_id j"
    and c: "\<And>j. j \<in> set t \<Longrightarrow> job_id j = i \<Longrightarrow> f j = f c"
  shows "noPair R (sqlSet (\<lambda>j. job_id j = i) f t)"
proof (rule noPairI)
  fix a' b' assume "a' \<in> set (sqlSet (\<lambda>j. job_id j = i) f t)" "b' \<in> set (sqlSet (\<lambda>j. job_id j = i) f t)" "R a' b'"
  then obtain a b where ab: "a \<in> set t" "a' = (if job_id a = i then f a else a)"
      "b \<in> set t" "b' = (if job_id b = i then f b else b)" by (auto simp: set_sqlSet)
  then show "job_id a' = job_id b'"
    using \<open>R a' b'\<close> inv free sym ids c noPairD[OF inv, of a b] by (metis (full_types))
qed

lemma claimNext_inv [job_inv_intros]:
  assumes "queueInv t"
  shows "queueInv (snd (claimNext now s locked t))"
proof -
  obtain r t' where e: "claimNext now s locked t = (r, t')" by fastforce
  from e show ?thesis
  proof (cases rule: claimNext_cases)
    case None
    then show ?thesis using assms e by simp
  next
    case (Some c)
  let ?f = "\<lambda>j. j\<lparr>job_attempts := job_attempts c + 1, job_startedAt := Some s, job_status := Running\<rparr>"
  have d: "distinct (map job_id t)" using assms by (simp add: queueInv_def constraintsOk_def)
  have same: "?f j = ?f c" if "j \<in> set t" "job_id j = job_id c" for j
    using d that Some(1) by (metis (no_types, lifting) inj_on_def distinct_map)
  have lock: "\<not> lockConflict (?f c) b" and excl: "\<not> exclConflict (?f c) b"
    if "b \<in> set t" "job_id b \<noteq> job_id c" for b
    using Some(2) that
    by (auto simp: claimableCondition_def lockFree_def exclusivityRespected_def list_ex_iff
        lockConflict_def exclConflict_def)
  have "noPair lockConflict (sqlSet (\<lambda>j. job_id j = job_id c) ?f t)"
    by (rule noPair_start[where c = c and f = ?f and R = lockConflict, OF _ lockConflict_sym lock]) (use assms same in \<open>auto simp: queueInv_def\<close>)
  moreover have "noPair exclConflict (sqlSet (\<lambda>j. job_id j = job_id c) ?f t)"
    by (rule noPair_start[where c = c and f = ?f and R = exclConflict, OF _ exclConflict_sym excl]) (use assms same in \<open>auto simp: queueInv_def\<close>)
  moreover have "constraintsOk (sqlSet (\<lambda>j. job_id j = job_id c) ?f t)"
    by (rule constraintsOk_sqlSet) (use assms in \<open>auto simp: queueInv_def queuesNone_def\<close>)
  ultimately show ?thesis using Some e by (simp add: queueInv_def)
  qed
qed

lemma claimFinalize_inv [job_inv_intros]: "queueInv t \<Longrightarrow> queueInv (snd (claimFinalize locked t))"
  unfolding claimFinalize_def
  by (auto split: option.split intro!: queueInv_sqlSet simp: tame_defs)

lemma requeueOrphaned_inv [job_inv_intros]: "queueInv t \<Longrightarrow> queueInv (snd (requeueOrphaned live now t))"
  unfolding requeueOrphaned_def Let_def
  by (intro queueInv_checked queueInv_sqlSet) (auto simp: tame_defs)

lemma cancelLevels_Nil [simp]: "cancelLevels clock reason n [] t = ([], t)"
  by (simp add: cancelLevels.simps)

lemma cancelLevels_step:
  "frontier \<noteq> [] \<Longrightarrow> cancelLevels clock reason n frontier t =
     (let cancelled = filter (dependsOnAny frontier) t;
          t' = sqlSet (dependsOnAny frontier) (cancelRow reason (clock n)) t;
          (rest, t'') = cancelLevels clock reason (Suc n) (map job_id cancelled) t'
      in (map toCancelled cancelled @ rest, t''))"
  by (simp add: cancelLevels.simps[of clock reason n frontier])

lemma cancelLevels_inv: "queueInv t \<Longrightarrow> queueInv (snd (cancelLevels clock reason n frontier t))"
proof (induction clock reason n frontier t rule: cancelLevels.induct)
  case (1 clock reason n frontier t)
  show ?case
  proof (cases "frontier = []")
    case True
    with 1 show ?thesis by simp
  next
    case False
    have "queueInv (sqlSet (dependsOnAny frontier) (cancelRow reason (clock n)) t)"
      using 1(2) by (rule queueInv_sqlSet) (auto simp: tame_defs)
    with 1(1)[OF False] False show ?thesis
      by (simp add: cancelLevels_step Let_def split: prod.split) (metis snd_conv)
  qed
qed

lemma cancelDependents_inv [job_inv_intros]: "queueInv t \<Longrightarrow> queueInv (snd (cancelDependents clock i reason t))"
  by (simp add: cancelDependents_def cancelLevels_inv)

lemma cancel_inv [job_inv_intros]:
  assumes "queueInv t"
  shows "queueInv (snd (cancel clock now i reason t))"
proof -
  let ?t = "sqlSet (\<lambda>j. job_id j = i \<and> ACTIVE j) (\<lambda>j. cancelRow reason now (CLEARED_STAGE j)) t"
  have "queueInv ?t" using assms by (rule queueInv_sqlSet) (auto simp: tame_defs)
  then show ?thesis
    using cancelDependents_inv[of ?t clock i reason]
    by (auto simp: cancel_def Let_def split: prod.split)
qed

lemma cancelForDeployment_inv [job_inv_intros]:
  assumes "queueInv t"
  shows "queueInv (snd (cancelForDeployment clock now d reason t))"
proof -
  have fold: "queueInv u \<Longrightarrow> queueInv (fold (\<lambda>i u. snd (cancelDependents (clock i) i reason u)) is u)" for "is" u
    by (induction "is" arbitrary: u) (auto intro: cancelDependents_inv)
  show ?thesis
    unfolding cancelForDeployment_def Let_def snd_conv
    by (intro fold queueInv_sqlSet assms) (auto simp: tame_defs)
qed

lemma dtoUpdate_inv:
  "queueInv t \<Longrightarrow> (\<And>j. job_id j = job_id entry \<Longrightarrow> startsNone j (f j)) \<Longrightarrow> queueInv (snd (dtoUpdate f entry t))"
  unfolding dtoUpdate_def by (rule queueInv_checked) auto

lemma instance_methods_inv [job_inv_intros]:
  assumes "queueInv t"
  shows "queueInv (snd (markSucceeded now result entry t))"
    "queueInv (snd (markFailed now err entry t))"
    "queueInv (snd (scheduleRetry err runAt entry t))"
    "queueInv (snd (deferJob now runAt gate entry t))"
    "queueInv (snd (handOff enc spec entry t))"
  unfolding markSucceeded_def markFailed_def scheduleRetry_def deferJob_def handOff_def Let_def
  by (rule dtoUpdate_inv, rule assms, simp add: tame_defs)+

lemma goClaim_inv [job_inv_intros]: "queueInv t \<Longrightarrow> queueInv (snd (goClaim now lease w v locked t))"
  unfolding goClaim_def Let_def
  by (auto split: option.split intro!: queueInv_sqlSet simp: tame_defs)

lemma go_writes_inv [job_inv_intros]:
  assumes "queueInv t"
  shows "queueInv (snd (goHeartbeat now quiet i w t))"
    "queueInv (goFinish i w result err t)" "queueInv (goRelease i w t)"
  unfolding goHeartbeat_def goFinish_def goRelease_def snd_conv
  by (rule queueInv_sqlSet, rule assms, simp add: tame_defs)+

section \<open>Reachable tables\<close>

text \<open>
  One rule per write, of the app and of the Go worker. The instance methods run on any copy of a
  row (\<open>entry\<close>), whatever happened to the row since it was read.
\<close>

inductive queue_step :: "table \<Rightarrow> table \<Rightarrow> bool" where
  append_log: "queue_step t (appendLog i line now t)"
| stamp_version: "queue_step t (stampWorkerVersion i v t)"
| prune_old: "queue_step t (prune now t)"
| create_job: "queue_step t (snd (create uuid now p pa input t))"
| claim_next: "queue_step t (snd (claimNext now s locked t))"
| claim_finalize: "queue_step t (snd (claimFinalize locked t))"
| requeue_orphaned: "queue_step t (snd (requeueOrphaned live now t))"
| cancel_dependents: "queue_step t (snd (cancelDependents clock i reason t))"
| cancel_job: "queue_step t (snd (cancel clock now i reason t))"
| cancel_deployment: "queue_step t (snd (cancelForDeployment clocks now d reason t))"
| mark_succeeded: "queue_step t (snd (markSucceeded now result entry t))"
| mark_failed: "queue_step t (snd (markFailed now err entry t))"
| schedule_retry: "queue_step t (snd (scheduleRetry err runAt entry t))"
| defer_job: "queue_step t (snd (deferJob now runAt gate entry t))"
| hand_off: "queue_step t (snd (handOff enc spec entry t))"
| go_claim: "queue_step t (snd (goClaim now lease w v locked t))"
| go_heartbeat: "queue_step t (snd (goHeartbeat now quiet i w t))"
| go_finish: "queue_step t (goFinish i w result err t)"
| go_release: "queue_step t (goRelease i w t)"

inductive queue_reachable :: "table \<Rightarrow> bool" where
  empty_table: "queue_reachable []"
| one_step: "queue_reachable t \<Longrightarrow> queue_step t t' \<Longrightarrow> queue_reachable t'"

inductive_cases queue_stepE: "queue_step t t'"

lemma queue_step_inv: "queue_step t t' \<Longrightarrow> queueInv t \<Longrightarrow> queueInv t'"
  by (induction rule: queue_step.induct) (rule job_inv_intros, assumption)+

lemma queue_reachable_inv: "queue_reachable t \<Longrightarrow> queueInv t"
proof (induction rule: queue_reachable.induct)
  case empty_table
  show ?case by (simp add: queueInv_def constraintsOk_def noPair_def)
next
  case (one_step t t')
  then show ?case by (blast intro: queue_step_inv)
qed

lemma inv_same_id: "queueInv t \<Longrightarrow> a \<in> set t \<Longrightarrow> b \<in> set t \<Longrightarrow> job_id a = job_id b \<Longrightarrow> a = b"
  by (auto simp: queueInv_def constraintsOk_def distinct_map inj_on_def)

section \<open>Cancelling what waits on a job\<close>

inductive dependentOf :: "table \<Rightarrow> string \<Rightarrow> job \<Rightarrow> bool" for t root where
  direct: "j \<in> set t \<Longrightarrow> ACTIVE j \<Longrightarrow> job_dependsOnJobId j = Some root \<Longrightarrow> dependentOf t root j"
| indirect: "dependentOf t root k \<Longrightarrow> j \<in> set t \<Longrightarrow> ACTIVE j \<Longrightarrow>
    job_dependsOnJobId j = Some (job_id k) \<Longrightarrow> dependentOf t root j"

lemma dependentOf_row: "dependentOf t root j \<Longrightarrow> j \<in> set t \<and> ACTIVE j"
  by (induction rule: dependentOf.induct) auto

lemma dependsOnAny_iff:
  "dependsOnAny F j \<longleftrightarrow> ACTIVE j \<and> (\<exists>d \<in> set F. job_dependsOnJobId j = Some d)"
  by (auto simp: dependsOnAny_def split: option.splits)

lemma cancelRow_not_active: "\<not> ACTIVE (cancelRow reason now j)"
  by (simp add: ACTIVE_def cancelRow_def)

text \<open>
  The state of the loop over the original table \<open>t\<close>: \<open>g\<close> is what became of each row, \<open>F\<close> the
  frontier. Cancelled rows are dependents, frontier ids stand for the root or dependents, and an
  untouched active row waiting on the root or on a cancelled row waits on the frontier.
\<close>

definition levelInv ::
  "(nat \<Rightarrow> timestamp) \<Rightarrow> string \<Rightarrow> table \<Rightarrow> string \<Rightarrow> (job \<Rightarrow> job) \<Rightarrow> string list \<Rightarrow> bool" where
  "levelInv clock reason t root g F \<longleftrightarrow>
     (\<forall>j \<in> set t. g j = j \<or> (dependentOf t root j \<and> (\<exists>n. g j = cancelRow reason (clock n) j))) \<and>
     (\<forall>f \<in> set F. f = root \<or> (\<exists>k. dependentOf t root k \<and> job_id k = f)) \<and>
     (\<forall>j \<in> set t. \<forall>d. g j = j \<and> ACTIVE j \<and> job_dependsOnJobId j = Some d \<and>
        (d = root \<or> (\<exists>k \<in> set t. g k \<noteq> k \<and> job_id k = d)) \<longrightarrow> d \<in> set F)"

lemma levelInv_done:
  assumes "levelInv clock reason t root g []" and "dependentOf t root j"
  shows "g j \<noteq> j"
  using assms(2)
proof (induction rule: dependentOf.induct)
  case (direct j)
  then show ?case using assms(1) by (auto simp: levelInv_def)
next
  case (indirect k j)
  then show ?case using assms(1) dependentOf_row[OF indirect(1)] by (auto simp: levelInv_def)
qed

lemma levelInv_hit:
  assumes "levelInv clock reason t root g F" and "j \<in> set t" and "dependsOnAny F (g j)"
  shows "g j = j \<and> dependentOf t root j"
proof -
  have "g j = j"
    using assms cancelRow_not_active by (fastforce simp: levelInv_def dependsOnAny_iff)
  moreover from this assms(3) obtain d where "ACTIVE j" "d \<in> set F" "job_dependsOnJobId j = Some d"
    by (auto simp: dependsOnAny_iff)
  then have "dependentOf t root j"
    using assms(1,2) by (auto simp: levelInv_def intro: dependentOf.intros)
  ultimately show ?thesis by blast
qed

lemma levelInv_next:
  fixes clock reason t root g F n
  defines "g2 \<equiv> \<lambda>j. if dependsOnAny F (g j) then cancelRow reason (clock n) (g j) else g j"
  assumes inv: "levelInv clock reason t root g F"
  shows "levelInv clock reason t root g2 (map job_id (filter (dependsOnAny F) (map g t)))"
proof -
  note hit = levelInv_hit[OF inv]
  have moved: "g2 k \<noteq> k \<Longrightarrow> k \<in> set t \<Longrightarrow> g k \<noteq> k \<or> dependsOnAny F (g k)" for k
    by (auto simp: g2_def split: if_splits)
  have stay: "g2 j = j \<Longrightarrow> j \<in> set t \<Longrightarrow> g j = j \<and> \<not> dependsOnAny F j" for j
    using hit[of j] cancelRow_not_active[of reason "clock n" j]
    unfolding g2_def dependsOnAny_iff by metis
  have rows: "\<forall>j \<in> set t. g2 j = j \<or> (dependentOf t root j \<and> (\<exists>n. g2 j = cancelRow reason (clock n) j))"
    using inv hit unfolding g2_def levelInv_def by metis
  have front: "\<exists>k. dependentOf t root k \<and> job_id k = f"
    if "f \<in> set (map job_id (filter (dependsOnAny F) (map g t)))" for f
    using that hit by (force simp: dependsOnAny_iff)
  have closed: "d \<in> set (map job_id (filter (dependsOnAny F) (map g t)))"
    if "j \<in> set t" "g2 j = j" "ACTIVE j" "job_dependsOnJobId j = Some d"
      "d = root \<or> (\<exists>k \<in> set t. g2 k \<noteq> k \<and> job_id k = d)" for j d
  proof (cases "d = root \<or> (\<exists>k \<in> set t. g k \<noteq> k \<and> job_id k = d)")
    case True
    with inv that stay have "d \<in> set F" by (auto simp: levelInv_def)
    with that stay show ?thesis by (auto simp: dependsOnAny_iff)
  next
    case False
    with that(5) moved obtain k where "k \<in> set t" "dependsOnAny F (g k)" "job_id k = d" by blast
    with hit show ?thesis by force
  qed
  show ?thesis unfolding levelInv_def using rows front closed by blast
qed

lemma cancelLevels_spec:
  assumes "levelInv clock reason t root g F"
    and "cancelLevels clock reason n F (map g t) = (cs, u)"
  shows "\<exists>g'. u = map g' t \<and>
    (\<forall>j \<in> set t. if dependentOf t root j then \<exists>n. g' j = cancelRow reason (clock n) j else g' j = j) \<and>
    cj_id ` set cs = job_id ` {j. dependentOf t root j \<and> g j = j}"
  using assms
proof (induction clock reason n F "map g t" arbitrary: g cs u rule: cancelLevels.induct)
  case (1 clock reason n F)
  show ?case
  proof (cases "F = []")
    case True
    note fin = levelInv_done[OF 1(2)[unfolded True]]
    have "\<forall>j \<in> set t. if dependentOf t root j then \<exists>n. g j = cancelRow reason (clock n) j else g j = j"
      using 1(2) fin by (auto simp: levelInv_def)
    moreover have "{j. dependentOf t root j \<and> g j = j} = {}" using fin by auto
    ultimately show ?thesis using 1(3) True by (auto intro!: exI[of _ g])
  next
    case False
    let ?hits = "filter (dependsOnAny F) (map g t)"
    let ?g2 = "\<lambda>j. if dependsOnAny F (g j) then cancelRow reason (clock n) (g j) else g j"
    have next_table: "sqlSet (dependsOnAny F) (cancelRow reason (clock n)) (map g t) = map ?g2 t"
      by (simp add: sqlSet_def comp_def)
    obtain rest where rest: "cancelLevels clock reason (Suc n) (map job_id ?hits) (map ?g2 t) = (rest, u)"
        "cs = map toCancelled ?hits @ rest"
      using 1(3) False by (auto simp: cancelLevels_step Let_def next_table split: prod.splits)
    have "\<exists>g'. u = map g' t \<and>
      (\<forall>j \<in> set t. if dependentOf t root j then \<exists>n. g' j = cancelRow reason (clock n) j else g' j = j) \<and>
      cj_id ` set rest = job_id ` {j. dependentOf t root j \<and> ?g2 j = j}"
      by (rule 1(1)[OF False refl next_table[symmetric] levelInv_next[OF 1(2)] rest(1)])
    moreover have "cj_id ` set cs = job_id ` {j. dependentOf t root j \<and> g j = j}"
      if "cj_id ` set rest = job_id ` {j. dependentOf t root j \<and> ?g2 j = j}"
    proof -
      have hits: "cj_id ` set (map toCancelled ?hits) = job_id ` {j \<in> set t. dependsOnAny F (g j)}"
        using levelInv_hit[OF 1(2)] by (auto simp: toCancelled_def image_iff) metis+
      have "{j. dependentOf t root j \<and> g j = j} =
            {j \<in> set t. dependsOnAny F (g j)} \<union> {j. dependentOf t root j \<and> ?g2 j = j}"
        using levelInv_hit[OF 1(2)] dependentOf_row cancelRow_not_active
        by (auto split: if_splits)
      then show ?thesis using that hits rest(2) by (simp add: image_Un)
    qed
    ultimately show ?thesis by blast
  qed
qed

lemma levelInv_start: "levelInv clock reason t root (\<lambda>j. j) [root]"
  by (auto simp: levelInv_def)

text \<open>\<open>cancelDependents\<close> cancels the dependents, and only them.\<close>

lemma cancelDependents_rows:
  "\<exists>ended. snd (cancelDependents clock root reason t) =
       map (\<lambda>j. if dependentOf t root j then cancelRow reason (ended j) j else j) t \<and>
     cj_id ` set (fst (cancelDependents clock root reason t)) = job_id ` {j. dependentOf t root j}"
proof -
  obtain cs u where e: "cancelDependents clock root reason t = (cs, u)" by fastforce
  then have "cancelLevels clock reason 0 [root] (map (\<lambda>j. j) t) = (cs, u)"
    by (simp add: cancelDependents_def)
  from cancelLevels_spec[OF levelInv_start this] obtain g where g: "u = map g t"
      "\<forall>j \<in> set t. if dependentOf t root j then \<exists>n. g j = cancelRow reason (clock n) j else g j = j"
      "cj_id ` set cs = job_id ` {j. dependentOf t root j}" by auto
  from g(2) have "\<forall>j \<in> set t. \<exists>n. g j = (if dependentOf t root j then cancelRow reason n j else j)" by metis
  then obtain ended where "\<forall>j \<in> set t. g j = (if dependentOf t root j then cancelRow reason (ended j) j else j)"
    by (rule bchoice[THEN exE])
  then have "u = map (\<lambda>j. if dependentOf t root j then cancelRow reason (ended j) j else j) t"
    using g(1) by simp
  with g(3) e show ?thesis by auto
qed

section \<open>Recovering orphans\<close>

definition finalizingOrphan :: "string list \<Rightarrow> job \<Rightarrow> bool" where
  "finalizingOrphan live j \<longleftrightarrow>
     job_status j = Running \<and> job_stage j = Some Finalizing \<and> job_id j \<notin> set live"

text \<open>What \<open>requeueOrphaned\<close> promises for each row of a table \<open>t\<close>.\<close>

definition recoveredRow :: "string list \<Rightarrow> timestamp \<Rightarrow> table \<Rightarrow> job \<Rightarrow> job" where
  "recoveredRow live now t j =
     (if finalizingOrphan live j then j\<lparr>job_stage := Some Finalize\<rparr>
      else if orphaned live j then
        (if list_ex (supersededBy j) t
         then (CLEARED_STAGE j)\<lparr>job_error := Some ''Superseded by a newer job for the same target.'',
                job_finishedAt := Some now, job_status := Cancelled\<rparr>
         else (CLEARED_STAGE j)\<lparr>job_startedAt := None, job_status := Queued\<rparr>)
      else j)"

lemma supersededBy_stage:
  "supersededBy j (if finalizingOrphan live k then k\<lparr>job_stage := Some Finalize\<rparr> else k) \<longleftrightarrow> supersededBy j k"
  by (auto simp: supersededBy_def finalizingOrphan_def)

lemma superseded_table:
  "list_ex (supersededBy j) (sqlSet (finalizingOrphan live) (\<lambda>j. j\<lparr>job_stage := Some Finalize\<rparr>) t)
     \<longleftrightarrow> list_ex (supersededBy j) t"
  by (induction t) (auto simp: sqlSet_def supersededBy_def finalizingOrphan_def)

lemma requeue_table:
  "requeueOrphaned live now t =
     (let t2 = map (\<lambda>j. if finalizingOrphan live j then j\<lparr>job_stage := Some Finalize\<rparr>
                 else if orphaned live j \<and> list_ex (supersededBy j) t
                   then recoveredRow live now t j else j) t
      in checked t2 (map (recoveredRow live now t) t)
           (length (filter (\<lambda>j. orphaned live j \<and> \<not> list_ex (supersededBy j) t) t)))"
proof -
  let ?fin = "\<lambda>j. j\<lparr>job_stage := Some Finalize\<rparr>"
  let ?sup = "\<lambda>j. (CLEARED_STAGE j)\<lparr>job_error := Some ''Superseded by a newer job for the same target.'',
                job_finishedAt := Some now, job_status := Cancelled\<rparr>"
  let ?row2 = "\<lambda>j. if finalizingOrphan live j then ?fin j
                 else if orphaned live j \<and> list_ex (supersededBy j) t then recoveredRow live now t j else j"
  have fin: "finalizingOrphan live j \<Longrightarrow> \<not> orphaned live (?fin j)" for j
    by (simp add: finalizingOrphan_def orphaned_def)
  have fin': "finalizingOrphan live j \<Longrightarrow> \<not> orphaned live j" for j
    by (simp add: finalizingOrphan_def orphaned_def)
  have sup: "\<not> orphaned live (?sup j)" for j by (simp add: orphaned_def)
  have t2: "sqlSet (\<lambda>j. orphaned live j \<and> list_ex (supersededBy j) (sqlSet (finalizingOrphan live) ?fin t)) ?sup
       (sqlSet (finalizingOrphan live) ?fin t) = map ?row2 t"
    unfolding superseded_table unfolding sqlSet_def using fin fin' by (simp add: recoveredRow_def)
  have t3: "sqlSet (orphaned live) (\<lambda>j. (CLEARED_STAGE j)\<lparr>job_startedAt := None, job_status := Queued\<rparr>)
       (map ?row2 t) = map (recoveredRow live now t) t"
    unfolding sqlSet_def using fin fin' sup by (auto simp: recoveredRow_def)
  have n: "length (filter (orphaned live) (map ?row2 t)) =
       length (filter (\<lambda>j. orphaned live j \<and> \<not> list_ex (supersededBy j) t) t)"
    using fin fin' sup by (induction t) (auto simp: filter_map comp_def recoveredRow_def intro!: arg_cong[of _ _ length] filter_cong)
  show ?thesis
    unfolding requeueOrphaned_def Let_def finalizingOrphan_def[symmetric] t2 t3 n ..
qed

text \<open>Two orphans for the same target carrying the same creation time.\<close>

definition orphanTie :: "string list \<Rightarrow> table \<Rightarrow> bool" where
  "orphanTie live t \<longleftrightarrow>
     list_ex (\<lambda>a. list_ex (\<lambda>b. orphaned live a \<and> orphaned live b \<and> job_id a \<noteq> job_id b \<and>
        job_type a = job_type b \<and> job_dedupeKey a = job_dedupeKey b \<and> job_dedupeKey a \<noteq> None \<and>
        job_createdAt a = job_createdAt b) t) t"

end
