(* ===== verification/Job_Worker.thy ===== *)
theory Job_Worker
  imports Job_Laws
begin

text \<open>
  \<open>src/lib/services/queue/worker.ts\<close> (the poller that claims, runs and finalizes jobs),
  \<open>queue/cancelled-deploys.ts\<close>, the dispatch tables of \<open>queue/worker-jobs/index.ts\<close> and
  \<open>queue/handlers.ts\<close>, and \<open>services/queue.service.ts\<close> (enqueue and wait).

  The system state is the worker's fields, the job table, the deployments and the entries whose
  \<open>runJob\<close> or \<open>finalizeJob\<close> promise has not settled. What the prepare, finalize and handler
  functions of a job type do is a parameter (\<open>hooks\<close>): their outcome for an entry. A promise runs
  in the background, so it settles in a step of its own, with any other step in between; the table
  writes of a handler itself are such steps too. The worker's clock reads are arguments, the
  \<open>n\<close>-th claim of a loop reads \<open>clock n\<close>, and \<open>locks n\<close> are the rows other transactions hold then.
\<close>

section \<open>State\<close>

datatype DeploymentStatus = DPending | DPulling | DStarting | DRunning | DStopped | DFailed

record deployment =
  dep_status :: DeploymentStatus
  dep_errorMessage :: "string option"
  dep_finishedAt :: "timestamp option"

record worker =
  w_held :: bool
  w_inFlight :: "string list"
  w_stallWarned :: "string list"
  w_nextStallCheck :: timestamp
  w_nextOrphanCheck :: timestamp

record qsys =
  qs_worker :: worker
  qs_table :: table
  qs_deployments :: "deployment js_map"
  qs_synced :: "string list"
  qs_running :: "job list"
  qs_finalizing :: "job list"

datatype 'a outcome =
    Returned 'a
  | DeferredError string DeferGate timestamp
  | ThrewError string

record hooks =
  h_prepare :: "job \<Rightarrow> json outcome"
  h_finalize :: "job \<Rightarrow> json option outcome"
  h_handler :: "job \<Rightarrow> json option outcome"
  h_enc :: "json \<Rightarrow> string"
  h_version :: string
  h_dbMessage :: "db_error \<Rightarrow> string"

definition MAX_CONCURRENT_JOBS :: nat where
  "MAX_CONCURRENT_JOBS = 3"

definition RETRY_BASE_MS :: int where
  "RETRY_BASE_MS = 10000"

definition STALL_CHECK_EVERY_MS :: int where
  "STALL_CHECK_EVERY_MS = 30000"

definition ORPHAN_CHECK_EVERY_MS :: int where
  "ORPHAN_CHECK_EVERY_MS = 30000"

text \<open>\<open>workerJobs\<close> and \<open>jobHandlers\<close>: which types the Go worker executes, and which run in process.\<close>

fun workerJobs :: "JobType \<Rightarrow> bool" where
  "workerJobs Backup = True"
| "workerJobs BackupPrune = False"
| "workerJobs BackupRestore = True"
| "workerJobs CoreService = False"
| "workerJobs CronJob = True"
| "workerJobs Deploy = True"
| "workerJobs DockerCleanup = True"
| "workerJobs ImageScan = True"
| "workerJobs NotificationDelivery = False"
| "workerJobs PipelineSync = False"

definition jobHandlers :: "JobType \<Rightarrow> bool" where
  "jobHandlers ty \<longleftrightarrow> ty \<in> set [BackupPrune, CoreService, NotificationDelivery, PipelineSync]"

fun typeName :: "JobType \<Rightarrow> string" where
  "typeName Backup = ''backup''"
| "typeName BackupPrune = ''backup_prune''"
| "typeName BackupRestore = ''backup_restore''"
| "typeName CoreService = ''core_service''"
| "typeName CronJob = ''cron_job''"
| "typeName Deploy = ''deploy''"
| "typeName DockerCleanup = ''docker_cleanup''"
| "typeName ImageScan = ''image_scan''"
| "typeName NotificationDelivery = ''notification_delivery''"
| "typeName PipelineSync = ''pipeline_sync''"

section \<open>Closing the deployments of cancelled deploy jobs\<close>

definition DEPLOY_TRIGGERS :: "string list" where
  "DEPLOY_TRIGGERS = [''manual'', ''cron'', ''push'', ''promote'']"

definition isStr :: "json option \<Rightarrow> bool" where
  "isStr v = (case v of Some (JStr _) \<Rightarrow> True | _ \<Rightarrow> False)"

definition mountSwapOk :: "json option \<Rightarrow> bool" where
  "mountSwapOk v =
     (case v of
        None \<Rightarrow> True
      | Some (JObj obj) \<Rightarrow> isStr (map_of obj ''from'') \<and> isStr (map_of obj ''to'')
      | _ \<Rightarrow> False)"

text \<open>\<open>deployJobPayload.safeParse\<close>: the deployment and service ids of a payload that fits the schema.\<close>

definition deployJobPayload :: "(string \<times> json) list \<Rightarrow> (string \<times> string) option" where
  "deployJobPayload p =
     (if mountSwapOk (map_of p ''mountSwap'') \<and>
         (case map_of p ''noCache'' of None \<Rightarrow> True | Some (JBool _) \<Rightarrow> True | _ \<Rightarrow> False) \<and>
         (case map_of p ''trigger'' of None \<Rightarrow> True | Some (JStr s) \<Rightarrow> s \<in> set DEPLOY_TRIGGERS | _ \<Rightarrow> False) \<and>
         isStr (map_of p ''userId'')
      then (case (map_of p ''deploymentId'', map_of p ''serviceId'') of
              (Some (JStr d), Some (JStr s)) \<Rightarrow> Some (d, s)
            | _ \<Rightarrow> None)
      else None)"

definition closeDeployment :: "timestamp \<Rightarrow> string \<Rightarrow> string \<Rightarrow> deployment js_map \<Rightarrow> deployment js_map" where
  "closeDeployment now reason depId deps =
     (case map_of deps depId of
        None \<Rightarrow> deps
      | Some dep \<Rightarrow>
          if dep_status dep \<in> set [DPending, DPulling, DStarting]
          then AList.update depId (dep\<lparr>dep_errorMessage := Some reason, dep_finishedAt := Some now,
                 dep_status := DFailed\<rparr>) deps
          else deps)"

text \<open>
  \<open>syncServiceStatus\<close> re-reads a service's status from Docker; its calls are recorded. An error in
  one entry is logged and the loop goes on, so it has no further effect here.
\<close>

fun closeCancelledDeploys ::
  "timestamp \<Rightarrow> CancelledJob list \<Rightarrow> string \<Rightarrow> deployment js_map \<times> string list \<Rightarrow> deployment js_map \<times> string list" where
  "closeCancelledDeploys now [] reason st = st"
| "closeCancelledDeploys now (entry # rest) reason (deps, synced) =
     (if cj_type entry \<noteq> Deploy then closeCancelledDeploys now rest reason (deps, synced)
      else (case deployJobPayload (cj_payload entry) of
              None \<Rightarrow> closeCancelledDeploys now rest reason (deps, synced)
            | Some (d, s) \<Rightarrow>
                closeCancelledDeploys now rest reason (closeDeployment now reason d deps, synced @ [s])))"

section \<open>Settling a job\<close>

text \<open>
  The results are the database error that makes the bookkeeping itself fail (\<open>dispatch\<close> logs it),
  or none, and the new state.
\<close>

definition recordFailure ::
  "timestamp \<Rightarrow> (nat \<Rightarrow> timestamp) \<Rightarrow> job \<Rightarrow> string \<Rightarrow> qsys \<Rightarrow> db_error option \<times> qsys" where
  "recordFailure now clock entry message s =
     (if int (job_attempts entry) < job_maxAttempts entry then
        (case scheduleRetry message (now + RETRY_BASE_MS * 2 ^ job_attempts entry) entry (qs_table s) of
           (Inl e, t) \<Rightarrow> (Some e, s\<lparr>qs_table := t\<rparr>)
         | (Inr _, t) \<Rightarrow> (None, s\<lparr>qs_table := t\<rparr>))
      else
        (case markFailed now message entry (qs_table s) of
           (Inl e, t) \<Rightarrow> (Some e, s\<lparr>qs_table := t\<rparr>)
         | (Inr _, t) \<Rightarrow>
             (let reason = ''Cancelled because \"'' @ job_title entry @ ''\" failed.'';
                  (cancelled, t') = cancelDependents clock (job_id entry) reason t;
                  (deps, synced) = closeCancelledDeploys now cancelled reason (qs_deployments s, qs_synced s)
              in (None, s\<lparr>qs_table := t', qs_deployments := deps, qs_synced := synced\<rparr>))))"

definition settleError ::
  "timestamp \<Rightarrow> (nat \<Rightarrow> timestamp) \<Rightarrow> job \<Rightarrow> 'a outcome \<Rightarrow> qsys \<Rightarrow> db_error option \<times> qsys" where
  "settleError now clock entry err s =
     (case err of
        DeferredError _ gate runAt \<Rightarrow>
          (case deferJob now runAt gate entry (qs_table s) of
             (Inl e, t) \<Rightarrow> (Some e, s\<lparr>qs_table := t\<rparr>)
           | (Inr _, t) \<Rightarrow> (None, s\<lparr>qs_table := t\<rparr>))
      | ThrewError message \<Rightarrow> recordFailure now clock entry message s
      | Returned _ \<Rightarrow> (None, s))"

definition runJob :: "hooks \<Rightarrow> timestamp \<Rightarrow> (nat \<Rightarrow> timestamp) \<Rightarrow> job \<Rightarrow> qsys \<Rightarrow> db_error option \<times> qsys" where
  "runJob h now clock entry s =
     (if workerJobs (job_type entry) then
        (case h_prepare h entry of
           Returned spec \<Rightarrow>
             (case handOff (h_enc h) spec entry (qs_table s) of
                (Inl e, t) \<Rightarrow> recordFailure now clock entry (h_dbMessage h e) (s\<lparr>qs_table := t\<rparr>)
              | (Inr _, t) \<Rightarrow> (None, s\<lparr>qs_table := t\<rparr>))
         | err \<Rightarrow> settleError now clock entry err s)
      else if \<not> jobHandlers (job_type entry) then
        recordFailure now clock entry (''No handler for job type '' @ typeName (job_type entry) @ ''.'') s
      else
        (let s1 = s\<lparr>qs_table := stampWorkerVersion (job_id entry) (h_version h) (qs_table s)\<rparr>
         in case h_handler h entry of
              Returned result \<Rightarrow>
                (case markSucceeded now result entry (qs_table s1) of
                   (Inl e, t) \<Rightarrow> recordFailure now clock entry (h_dbMessage h e) (s1\<lparr>qs_table := t\<rparr>)
                 | (Inr _, t) \<Rightarrow> (None, s1\<lparr>qs_table := t\<rparr>))
            | err \<Rightarrow> settleError now clock entry err s1))"

text \<open>In \<open>finalizeJob\<close> every error goes to \<open>recordFailure\<close>, a deferral like any other.\<close>

definition finalizeJob :: "hooks \<Rightarrow> timestamp \<Rightarrow> (nat \<Rightarrow> timestamp) \<Rightarrow> job \<Rightarrow> qsys \<Rightarrow> db_error option \<times> qsys" where
  "finalizeJob h now clock entry s =
     (let w = qs_worker s;
          s1 = s\<lparr>qs_worker := w\<lparr>w_stallWarned := removeAll (job_id entry) (w_stallWarned w)\<rparr>\<rparr>
      in if \<not> workerJobs (job_type entry) then
           recordFailure now clock entry
             (''Job type '' @ typeName (job_type entry) @
              '' isn't executed by the Go worker, nothing can finalize it.'') s1
         else
           (case h_finalize h entry of
              Returned result \<Rightarrow>
                (case markSucceeded now result entry (qs_table s1) of
                   (Inl e, t) \<Rightarrow> recordFailure now clock entry (h_dbMessage h e) (s1\<lparr>qs_table := t\<rparr>)
                 | (Inr _, t) \<Rightarrow> (None, s1\<lparr>qs_table := t\<rparr>))
            | DeferredError message _ _ \<Rightarrow> recordFailure now clock entry message s1
            | ThrewError message \<Rightarrow> recordFailure now clock entry message s1))"

section \<open>The tick\<close>

text \<open>
  The claim loops of \<open>#pump\<close> and \<open>#finalizeExecuted\<close>: claim until \<open>full\<close> or until nothing is left.
  \<open>fuel\<close> bounds the turns; both callers pass more than the rows that can be claimed, and
  \<open>loop_exhausts\<close> below shows that this is enough.
\<close>

fun claimLoop ::
  "nat \<Rightarrow> (nat \<Rightarrow> table \<Rightarrow> job option \<times> table) \<Rightarrow> (string list \<Rightarrow> bool) \<Rightarrow> nat \<Rightarrow> string list \<Rightarrow> table
    \<Rightarrow> job list \<times> string list \<times> table" where
  "claimLoop 0 claim full n inFlight t = ([], inFlight, t)"
| "claimLoop (Suc fuel) claim full n inFlight t =
     (if full inFlight then ([], inFlight, t)
      else (case claim n t of
              (None, t') \<Rightarrow> ([], inFlight, t')
            | (Some e, t') \<Rightarrow>
                (let (es, inFlight', t'') = claimLoop fuel claim full (Suc n) (List.insert (job_id e) inFlight) t'
                 in (e # es, inFlight', t''))))"

definition isQueued :: "job \<Rightarrow> bool" where
  "isQueued j \<longleftrightarrow> job_status j = Queued"

definition isExecuted :: "job \<Rightarrow> bool" where
  "isExecuted j \<longleftrightarrow> job_status j = Running \<and> job_stage j = Some Finalize"

definition atCapacity :: "worker \<Rightarrow> string list \<Rightarrow> bool" where
  "atCapacity w inFlight \<longleftrightarrow> w_held w \<or> length inFlight \<ge> MAX_CONCURRENT_JOBS"

text \<open>At most \<open>fuel\<close> turns of the loops; \<open>pump\<close> and \<open>finalizeExecuted\<close> run them to the end.\<close>

definition pumpTurns :: "nat \<Rightarrow> (nat \<Rightarrow> timestamp) \<Rightarrow> (nat \<Rightarrow> string list) \<Rightarrow> qsys \<Rightarrow> qsys" where
  "pumpTurns fuel clock locks s =
     (let (es, inFlight, t) = claimLoop fuel
            (\<lambda>n. claimNext (clock n) (clock n) (locks n)) (atCapacity (qs_worker s)) 0
            (w_inFlight (qs_worker s)) (qs_table s)
      in s\<lparr>qs_worker := (qs_worker s)\<lparr>w_inFlight := inFlight\<rparr>, qs_table := t,
           qs_running := qs_running s @ es\<rparr>)"

definition pump :: "(nat \<Rightarrow> timestamp) \<Rightarrow> (nat \<Rightarrow> string list) \<Rightarrow> qsys \<Rightarrow> qsys" where
  "pump clock locks s = pumpTurns (Suc (length (filter isQueued (qs_table s)))) clock locks s"

definition finalizeTurns :: "nat \<Rightarrow> (nat \<Rightarrow> string list) \<Rightarrow> qsys \<Rightarrow> qsys" where
  "finalizeTurns fuel locks s =
     (let (es, inFlight, t) = claimLoop fuel
            (\<lambda>n. claimFinalize (locks n)) (\<lambda>_. False) 0 (w_inFlight (qs_worker s)) (qs_table s)
      in s\<lparr>qs_worker := (qs_worker s)\<lparr>w_inFlight := inFlight\<rparr>, qs_table := t,
           qs_finalizing := qs_finalizing s @ es\<rparr>)"

definition finalizeExecuted :: "(nat \<Rightarrow> string list) \<Rightarrow> qsys \<Rightarrow> qsys" where
  "finalizeExecuted locks s = finalizeTurns (Suc (length (filter isExecuted (qs_table s)))) locks s"

definition recoverOrphans :: "timestamp \<Rightarrow> timestamp \<Rightarrow> qsys \<Rightarrow> db_error option \<times> qsys" where
  "recoverOrphans now after s =
     (let w = qs_worker s
      in if now < w_nextOrphanCheck w then (None, s)
         else (case requeueOrphaned (w_inFlight w) now (qs_table s) of
                 (Inl e, t) \<Rightarrow> (Some e, s\<lparr>qs_table := t\<rparr>)
               | (Inr _, t) \<Rightarrow>
                   (None, s\<lparr>qs_worker := w\<lparr>w_nextOrphanCheck := after + ORPHAN_CHECK_EVERY_MS\<rparr>, qs_table := t\<rparr>)))"

definition warnStalledExecutions :: "timestamp \<Rightarrow> qsys \<Rightarrow> string list \<times> qsys" where
  "warnStalledExecutions now s =
     (let w = qs_worker s
      in if now < w_nextStallCheck w then ([], s)
         else
           (let stalled = map job_id (listStalledExecutions (now - STALE_JOB_MS) (qs_table s));
                fresh = filter (\<lambda>i. i \<notin> set (w_stallWarned w)) stalled
            in (fresh, s\<lparr>qs_worker := w\<lparr>w_nextStallCheck := now + STALL_CHECK_EVERY_MS,
                   w_stallWarned := w_stallWarned w @ fresh\<rparr>\<rparr>)))"

text \<open>A database error in the recovery ends the tick, before anything is claimed.\<close>

definition tick ::
  "timestamp \<Rightarrow> timestamp \<Rightarrow> (nat \<Rightarrow> string list) \<Rightarrow> (nat \<Rightarrow> timestamp) \<Rightarrow> (nat \<Rightarrow> string list) \<Rightarrow> timestamp
    \<Rightarrow> qsys \<Rightarrow> db_error option \<times> qsys" where
  "tick now after finLocks clock locks stallNow s =
     (if w_held (qs_worker s) then (None, s)
      else (case recoverOrphans now after s of
              (Some e, s1) \<Rightarrow> (Some e, s1)
            | (None, s1) \<Rightarrow>
                (None, snd (warnStalledExecutions stallNow (pump clock locks (finalizeExecuted finLocks s1))))))"

definition hold :: "qsys \<Rightarrow> qsys" where
  "hold s = s\<lparr>qs_worker := (qs_worker s)\<lparr>w_held := True\<rparr>\<rparr>"

definition release :: "qsys \<Rightarrow> qsys" where
  "release s = s\<lparr>qs_worker := (qs_worker s)\<lparr>w_held := False\<rparr>\<rparr>"

text \<open>A promise settles: its bookkeeping runs and the id leaves the in-flight set, whatever happened.\<close>

definition leaveFlight :: "string \<Rightarrow> qsys \<Rightarrow> qsys" where
  "leaveFlight i s = s\<lparr>qs_worker := (qs_worker s)\<lparr>w_inFlight := removeAll i (w_inFlight (qs_worker s))\<rparr>\<rparr>"

definition settleRun :: "hooks \<Rightarrow> timestamp \<Rightarrow> (nat \<Rightarrow> timestamp) \<Rightarrow> job \<Rightarrow> qsys \<Rightarrow> qsys" where
  "settleRun h now clock entry s =
     (let s1 = snd (runJob h now clock entry s)
      in leaveFlight (job_id entry) (s1\<lparr>qs_running := remove1 entry (qs_running s1)\<rparr>))"

definition settleFinalize :: "hooks \<Rightarrow> timestamp \<Rightarrow> (nat \<Rightarrow> timestamp) \<Rightarrow> job \<Rightarrow> qsys \<Rightarrow> qsys" where
  "settleFinalize h now clock entry s =
     (let s1 = snd (finalizeJob h now clock entry s)
      in leaveFlight (job_id entry) (s1\<lparr>qs_finalizing := remove1 entry (qs_finalizing s1)\<rparr>))"

section \<open>The queue service\<close>

datatype enqueue_error = CouldntQueue

text \<open>
  \<open>enqueue\<close>: \<open>race\<close> is what other writers make of the table between the first lookup and the
  insert (whose arguments are \<open>create\<close>'s), \<open>race2\<close> between the insert and the last lookup.
\<close>

definition enqueue ::
  "string \<Rightarrow> timestamp \<Rightarrow> bool \<Rightarrow> timestamp \<Rightarrow> (table \<Rightarrow> table) \<Rightarrow> (table \<Rightarrow> table) \<Rightarrow> NewJobInput \<Rightarrow> table
    \<Rightarrow> (enqueue_error + job) \<times> table" where
  "enqueue uuid now p pa race race2 input t =
     (let lookup = (\<lambda>u. case in_dedupeKey input of
                          None \<Rightarrow> None
                        | Some k \<Rightarrow> if k = [] then None else findQueued (in_type input) k u)
      in case lookup t of
           Some existing \<Rightarrow> (Inr existing, t)
         | None \<Rightarrow>
             (case create uuid now p pa input (race t) of
                (Some created, t') \<Rightarrow> (Inr created, t')
              | (None, t') \<Rightarrow>
                  (case lookup (race2 t') of
                     Some raced \<Rightarrow> (Inr raced, race2 t')
                   | None \<Rightarrow> (Inl CouldntQueue, race2 t'))))"

datatype wait_result = Ended job | TimedOut | Disappeared

text \<open>
  \<open>wait\<close>: the \<open>n\<close>-th poll reads the row from \<open>reads n\<close> and, if it is not terminal, the time
  \<open>clock n\<close>. \<open>None\<close> is running out of fuel.
\<close>

fun waitLoop :: "nat \<Rightarrow> (nat \<Rightarrow> table) \<Rightarrow> (nat \<Rightarrow> timestamp) \<Rightarrow> timestamp \<Rightarrow> string \<Rightarrow> nat \<Rightarrow> wait_result option" where
  "waitLoop 0 reads clock deadline i n = None"
| "waitLoop (Suc fuel) reads clock deadline i n =
     (case getJob i (reads n) of
        None \<Rightarrow> Some Disappeared
      | Some current \<Rightarrow>
          if job_status current \<in> set TERMINAL_STATUSES then Some (Ended current)
          else if clock n > deadline then Some TimedOut
          else waitLoop fuel reads clock deadline i (Suc n))"

definition waitFor :: "nat \<Rightarrow> (nat \<Rightarrow> table) \<Rightarrow> (nat \<Rightarrow> timestamp) \<Rightarrow> timestamp \<Rightarrow> int \<Rightarrow> string \<Rightarrow> wait_result option" where
  "waitFor fuel reads clock start timeoutMs i = waitLoop fuel reads clock (start + timeoutMs) i 0"

end
