(* ===== verification/Worker_Laws.thy ===== *)
theory Worker_Laws
  imports Job_Worker
begin

text \<open>
  The laws of the job worker. The locale \<open>claim_source\<close> is what its two claim loops need of a claim
  statement; \<open>claimNext\<close> and \<open>claimFinalize\<close> provide it. The step relation \<open>worker_step\<close> puts the
  worker's ticks, the settling of its promises and the writes of the other processes in any order;
  \<open>workInv\<close> holds in every state it reaches.
\<close>

section \<open>Claim loops\<close>

locale claim_source =
  fixes claim :: "nat \<Rightarrow> table \<Rightarrow> job option \<times> table"
    and waiting :: "job \<Rightarrow> bool"
  assumes claim_none: "claim n t = (None, t') \<Longrightarrow> t' = t"
    and claim_some: "claim n t = (Some e, t') \<Longrightarrow> length (filter waiting t') < length (filter waiting t)"
    and claim_keeps: "queueInv t \<Longrightarrow> queueInv (snd (claim n t))"
begin

lemma loop_cases:
  assumes "claimLoop (Suc fuel) claim full n fl t = (es, fl', t')"
  obtains (Full) "full fl" "es = []" "fl' = fl" "t' = t"
  | (Empty) "\<not> full fl" "claim n t = (None, t)" "es = []" "fl' = fl" "t' = t"
  | (Claimed) e u es' where "\<not> full fl" "claim n t = (Some e, u)" "es = e # es'"
      "claimLoop fuel claim full (Suc n) (List.insert (job_id e) fl) u = (es', fl', t')"
proof (cases "full fl")
  case True
  show ?thesis by (rule that(1)) (use assms True in auto)
next
  case False
  obtain r u where c: "claim n t = (r, u)" by fastforce
  show ?thesis
  proof (cases r)
    case None
    with c have u: "u = t" by (auto intro: claim_none)
    show ?thesis by (rule that(2)) (use assms False c None u in auto)
  next
    case (Some e)
    obtain es' f w where l: "claimLoop fuel claim full (Suc n) (List.insert (job_id e) fl) u = (es', f, w)"
      by (metis prod_cases3)
    show ?thesis by (rule that(3)[of e u es']) (use assms False c Some l in auto)
  qed
qed

text \<open>With more fuel than waiting rows, the loop ends because it is full or nothing is left.\<close>

lemma loop_exhausts:
  assumes "claimLoop fuel claim full n fl t = (es, fl', t')" and "length (filter waiting t) < fuel"
  shows "full fl' \<or> (\<exists>m. claim m t' = (None, t'))"
  using assms
proof (induction fuel arbitrary: n fl t es)
  case (Suc fuel)
  from Suc.prems(1) show ?case
  proof (cases rule: loop_cases)
    case (Claimed e u es')
    from Claimed(2) have "length (filter waiting u) < length (filter waiting t)" by (rule claim_some)
    then have "length (filter waiting u) < fuel" using Suc.prems(2) by linarith
    then show ?thesis by (rule Suc.IH[OF Claimed(4)])
  qed auto
qed simp

lemma loop_inv:
  assumes "claimLoop fuel claim full n fl t = (es, fl', t')" and "queueInv t"
  shows "queueInv t'"
  using assms
proof (induction fuel arbitrary: n fl t es)
  case (Suc fuel)
  from Suc.prems(1) show ?case
  proof (cases rule: loop_cases)
    case (Claimed e u es')
    then show ?thesis using Suc.IH[OF Claimed(4)] claim_keeps[OF Suc.prems(2), of n] by simp
  qed (use Suc.prems in auto)
qed simp

lemma loop_flight:
  assumes "claimLoop fuel claim full n fl t = (es, fl', t')"
  shows "set fl' = set fl \<union> job_id ` set es"
  using assms
proof (induction fuel arbitrary: n fl t es)
  case (Suc fuel)
  from Suc.prems(1) show ?case
  proof (cases rule: loop_cases)
    case (Claimed e u es')
    then show ?thesis using Suc.IH[OF Claimed(4)] by auto
  qed (use Suc.prems in auto)
qed simp

text \<open>A loop that stops at a number of ids in flight never takes more than that many.\<close>

lemma loop_capacity:
  assumes "claimLoop fuel claim full n fl t = (es, fl', t')" and "\<And>f. \<not> full f \<Longrightarrow> length f < cap"
  shows "length fl' \<le> max (length fl) cap"
  using assms(1)
proof (induction fuel arbitrary: n fl t es)
  case (Suc fuel)
  from Suc.prems(1) show ?case
  proof (cases rule: loop_cases)
    case (Claimed e u es')
    have "length (List.insert (job_id e) fl) \<le> Suc (length fl)" by (simp add: List.insert_def)
    moreover have "length fl < cap" using Claimed(1) assms(2) by blast
    ultimately show ?thesis using Suc.IH[OF Claimed(4)] by linarith
  qed (use Suc.prems in auto)
qed simp

text \<open>An invariant of the claim statement together with the ids in flight is one of the loop.\<close>

lemma loop_preserves:
  assumes "claimLoop fuel claim full n fl t = (es, fl', t')" and "P fl t acc"
    and "\<And>n fl t acc e u. P fl t acc \<Longrightarrow> \<not> full fl \<Longrightarrow> claim n t = (Some e, u) \<Longrightarrow>
           P (List.insert (job_id e) fl) u (acc @ [e])"
  shows "P fl' t' (acc @ es)"
  using assms(1,2)
proof (induction fuel arbitrary: n fl t es acc)
  case (Suc fuel)
  from Suc.prems(1) show ?case
  proof (cases rule: loop_cases)
    case (Claimed e u es')
    have "P (List.insert (job_id e) fl) u (acc @ [e])"
      using Suc.prems(2) Claimed(1,2) by (rule assms(3))
    from Suc.IH[OF Claimed(4) this] show ?thesis using Claimed(3) by simp
  qed (use Suc.prems in auto)
qed simp

end

lemma sqlSet_fewer:
  assumes "c \<in> set t" and "P c" and "p c" and "\<And>j. \<not> P (f j)"
  shows "length (filter P (sqlSet p f t)) < length (filter P t)"
proof -
  have "filter P (sqlSet p f t) = filter (\<lambda>j. P j \<and> \<not> p j) t"
    using assms(4) by (induction t) (auto simp: sqlSet_def)
  moreover have "length (filter (\<lambda>j. P j \<and> \<not> p j) t) < length (filter P t)"
    using assms(1-3) by (intro length_filter_less) auto
  ultimately show ?thesis by simp
qed

lemma claimFinalize_cases:
  assumes "claimFinalize locked t = (r, t')"
  obtains (None) "r = None" "t' = t" "\<forall>j \<in> set t. isExecuted j \<longrightarrow> job_id j \<in> set locked"
  | (Some) c where "c \<in> set t" "isExecuted c" "job_id c \<notin> set locked"
      "r = Some (c\<lparr>job_stage := Some Finalizing\<rparr>)"
      "t' = sqlSet (\<lambda>j. job_id j = job_id c) (\<lambda>j. j\<lparr>job_stage := Some Finalizing\<rparr>) t"
proof (cases "first_by finalizeOrder (filter (\<lambda>j. job_status j = Running \<and> job_stage j = Some Finalize
              \<and> job_id j \<notin> set locked) t)")
  case None
  then have "\<forall>j \<in> set t. isExecuted j \<longrightarrow> job_id j \<in> set locked"
    by (auto simp: filter_empty_conv isExecuted_def)
  moreover have "r = None" "t' = t" using assms None by (auto simp: claimFinalize_def)
  ultimately show ?thesis using that(1) by blast
next
  case (Some c)
  have "c \<in> set t" "isExecuted c" "job_id c \<notin> set locked"
    using first_by_in[OF Some] by (auto simp: isExecuted_def)
  then show ?thesis using assms Some that(2)[of c] by (simp add: claimFinalize_def)
qed

interpretation queued: claim_source "\<lambda>n. claimNext (clock n) (clock n) (locks n)" isQueued for clock locks
proof
  fix n t t' assume "claimNext (clock n) (clock n) (locks n) t = (None, t')"
  then show "t' = t" by (cases rule: claimNext_cases) auto
next
  fix n t e t' assume "claimNext (clock n) (clock n) (locks n) t = (Some e, t')"
  then show "length (filter isQueued t') < length (filter isQueued t)"
  proof (cases rule: claimNext_cases)
    case (Some c)
    show ?thesis unfolding Some(6)
      by (rule sqlSet_fewer[OF Some(1)]) (use Some(2) in \<open>simp_all add: claimableCondition_def isQueued_def\<close>)
  qed simp
qed (rule claimNext_inv)

interpretation executed: claim_source "\<lambda>n. claimFinalize (locks n)" isExecuted for locks
proof
  fix n t t' assume "claimFinalize (locks n) t = (None, t')"
  then show "t' = t" by (cases rule: claimFinalize_cases) auto
next
  fix n t e t' assume "claimFinalize (locks n) t = (Some e, t')"
  then show "length (filter isExecuted t') < length (filter isExecuted t)"
  proof (cases rule: claimFinalize_cases)
    case (Some c)
    show ?thesis unfolding Some(5)
      by (rule sqlSet_fewer[OF Some(1)]) (use Some(2) in \<open>simp_all add: isExecuted_def\<close>)
  qed simp
qed (rule claimFinalize_inv)

section \<open>The worker among the other writers\<close>

text \<open>
  A row the app holds (an entry of an unsettled promise) is neither queued nor in a stage the Go
  worker or \<open>claimFinalize\<close> looks at.
\<close>

definition heldRow :: "job \<Rightarrow> bool" where
  "heldRow j \<longleftrightarrow> job_status j \<noteq> Queued \<and>
     \<not> (job_status j = Running \<and> (job_stage j = Some Execute \<or> job_stage j = Some Finalize))"

definition tableInv :: "string set \<Rightarrow> table \<Rightarrow> bool" where
  "tableInv held t \<longleftrightarrow> queueInv t \<and> (\<forall>j \<in> set t. job_status j = Queued \<longrightarrow> job_stage j = None) \<and>
     (\<forall>j \<in> set t. job_id j \<in> held \<longrightarrow> heldRow j)"

text \<open>The ids in flight are those of the unsettled promises, no id twice.\<close>

definition flightOk :: "string list \<Rightarrow> job list \<Rightarrow> job list \<Rightarrow> bool" where
  "flightOk inFlight run fin \<longleftrightarrow> set inFlight = job_id ` (set run \<union> set fin) \<and>
     distinct (map job_id (run @ fin)) \<and> distinct inFlight"

definition workInv :: "qsys \<Rightarrow> bool" where
  "workInv s \<longleftrightarrow> tableInv (set (w_inFlight (qs_worker s))) (qs_table s) \<and>
     flightOk (w_inFlight (qs_worker s)) (qs_running s) (qs_finalizing s) \<and>
     length (qs_running s) \<le> MAX_CONCURRENT_JOBS"

lemma flight_add:
  assumes "flightOk fl run fin" and "job_id e \<notin> set fl"
  shows "flightOk (List.insert (job_id e) fl) (run @ [e]) fin" "flightOk (List.insert (job_id e) fl) run (fin @ [e])"
  using assms by (auto simp: flightOk_def List.insert_def)

lemma flight_drop:
  assumes "flightOk fl run fin"
  shows "e \<in> set run \<Longrightarrow> job_id e \<in> set fl \<and> flightOk (removeAll (job_id e) fl) (remove1 e run) fin"
    "e \<in> set fin \<Longrightarrow> job_id e \<in> set fl \<and> flightOk (removeAll (job_id e) fl) run (remove1 e fin)"
proof -
  have ids: "job_id ` set (remove1 e xs) = job_id ` set xs - {job_id e} \<and> distinct (map job_id (remove1 e xs))"
    if "distinct (map job_id xs)" "e \<in> set xs" for xs
    using that by (induction xs) auto
  have d: "distinct (map job_id run)" "distinct (map job_id fin)" "job_id ` set run \<inter> job_id ` set fin = {}"
    using assms by (auto simp: flightOk_def)
  show "e \<in> set run \<Longrightarrow> job_id e \<in> set fl \<and> flightOk (removeAll (job_id e) fl) (remove1 e run) fin"
    using assms d ids[OF d(1)] by (auto simp: flightOk_def image_Un distinct_removeAll)
  show "e \<in> set fin \<Longrightarrow> job_id e \<in> set fl \<and> flightOk (removeAll (job_id e) fl) run (remove1 e fin)"
    using assms d ids[OF d(2)] by (auto simp: flightOk_def image_Un distinct_removeAll)
qed

lemma flight_running: "flightOk fl run fin \<Longrightarrow> length run \<le> length fl"
proof -
  assume f: "flightOk fl run fin"
  then have "length run = card (job_id ` set run)"
    unfolding flightOk_def by (metis distinct_append map_append distinct_card length_map set_map)
  also have "\<dots> \<le> card (set fl)" using f by (intro card_mono) (auto simp: flightOk_def)
  also have "\<dots> \<le> length fl" by (rule card_length)
  finally show ?thesis .
qed

text \<open>A change of one row that another process may make whatever the app holds.\<close>

definition tame :: "job \<Rightarrow> job \<Rightarrow> bool" where
  "tame j j' \<longleftrightarrow> job_id j' = job_id j \<and> (heldRow j \<longrightarrow> heldRow j') \<and>
     (job_status j' = Queued \<longrightarrow> job_stage j' = None \<or> job_status j = Queued \<and> job_stage j' = job_stage j)"

lemma tableInv_rows:
  assumes "tableInv held t" and "queueInv t'"
    and "\<And>j'. j' \<in> set t' \<Longrightarrow> (\<exists>j \<in> set t. tame j j') \<or> (job_id j' \<notin> held \<and> (job_status j' = Queued \<longrightarrow> job_stage j' = None))"
  shows "tableInv held t'"
  using assms unfolding tableInv_def tame_def by metis

lemma tameE_held: "tableInv held t \<Longrightarrow> j \<in> set t \<Longrightarrow> job_id j \<in> held \<Longrightarrow> heldRow j"
  by (simp add: tableInv_def)

lemma tableInv_inv: "tableInv held t \<Longrightarrow> queueInv t"
  by (simp add: tableInv_def)

lemma tableInv_sqlSet:
  assumes "tableInv held t" and "queueInv (sqlSet p f t)"
    and "\<And>j. j \<in> set t \<Longrightarrow> p j \<Longrightarrow> tame j (f j)"
  shows "tableInv held (sqlSet p f t)"
proof (rule tableInv_rows[OF assms(1,2)])
  fix j' assume "j' \<in> set (sqlSet p f t)"
  then obtain j where "j \<in> set t" "j' = (if p j then f j else j)" by (auto simp: set_sqlSet)
  moreover have "tame j j" by (simp add: tame_def)
  ultimately show "(\<exists>j \<in> set t. tame j j') \<or> (job_id j' \<notin> held \<and> (job_status j' = Queued \<longrightarrow> job_stage j' = None))"
    using assms(3)[of j] by auto
qed

lemmas tame_row_defs = tame_def heldRow_def CLEARED_STAGE_def cancelRow_def

lemma tableInv_append: "tableInv held t \<Longrightarrow> tableInv held (appendLog i line now t)"
  unfolding appendLog_def
  by (rule tableInv_sqlSet, assumption)
    (use appendLog_inv[of t i line now] in \<open>auto simp: appendLog_def tableInv_inv tame_row_defs\<close>)

lemma tableInv_stamp: "tableInv held t \<Longrightarrow> tableInv held (stampWorkerVersion i v t)"
  unfolding stampWorkerVersion_def
  by (rule tableInv_sqlSet, assumption)
    (use stamp_inv[of t i v] in \<open>auto simp: stampWorkerVersion_def tableInv_inv tame_row_defs\<close>)

lemma tableInv_prune: "tableInv held t \<Longrightarrow> tableInv held (prune now t)"
  by (rule tableInv_rows, assumption, rule prune_inv, erule tableInv_inv)
    (auto simp: prune_def tame_def)

lemma tableInv_create:
  "tableInv held t \<Longrightarrow> uuid \<notin> held \<Longrightarrow> tableInv held (snd (create uuid now p pa input t))"
  by (rule tableInv_rows, assumption, rule create_inv, erule tableInv_inv)
    (auto simp: create_def Let_def prune_def tame_def newRow_def split: if_splits)

lemma tame_cancelRow: "tame j (cancelRow reason now j)" "tame j (cancelRow reason now (CLEARED_STAGE j))"
  by (auto simp: tame_row_defs)

lemma tame_refl: "tame j j"
  by (simp add: tame_def)

lemma tableInv_cancelRows:
  assumes "tableInv held t"
  shows "tableInv held (sqlSet p (\<lambda>j. cancelRow reason now (CLEARED_STAGE j)) t)"
proof (rule tableInv_sqlSet[OF assms])
  show "queueInv (sqlSet p (\<lambda>j. cancelRow reason now (CLEARED_STAGE j)) t)"
    by (rule queueInv_sqlSet[OF tableInv_inv[OF assms]]) (simp add: tame_defs)
qed (rule tame_cancelRow(2))

lemma tableInv_cancelDependents: "tableInv held t \<Longrightarrow> tableInv held (snd (cancelDependents clock i reason t))"
proof -
  assume inv: "tableInv held t"
  obtain cs u where e: "cancelDependents clock i reason t = (cs, u)" by fastforce
  then have "cancelLevels clock reason 0 [i] (map (\<lambda>j. j) t) = (cs, u)" by (simp add: cancelDependents_def)
  from cancelLevels_spec[OF levelInv_start this] obtain g where g: "u = map g t"
      "\<forall>j \<in> set t. if dependentOf t i j then \<exists>n. g j = cancelRow reason (clock n) j else g j = j" by auto
  show ?thesis
  proof (rule tableInv_rows[OF inv])
    show "queueInv (snd (cancelDependents clock i reason t))" using inv by (intro job_inv_intros tableInv_inv)
    fix j' assume "j' \<in> set (snd (cancelDependents clock i reason t))"
    then obtain j where j: "j \<in> set t" "j' = g j" using e g(1) by auto
    have "tame j (g j)" using g(2) j(1) tame_cancelRow(1)[of j reason] tame_refl[of j] by metis
    with j show "(\<exists>j \<in> set t. tame j j') \<or> (job_id j' \<notin> held \<and> (job_status j' = Queued \<longrightarrow> job_stage j' = None))"
      by blast
  qed
qed

lemma tableInv_cancel: "tableInv held t \<Longrightarrow> tableInv held (snd (cancel clock now i reason t))"
  using tableInv_cancelDependents[OF tableInv_cancelRows] tableInv_cancelRows
  by (auto simp: cancel_def Let_def split: prod.split) (metis snd_conv)

lemma tableInv_cancelForDeployment:
  assumes "tableInv held t"
  shows "tableInv held (snd (cancelForDeployment clocks now d reason t))"
proof -
  have "tableInv held (fold (\<lambda>i u. snd (cancelDependents (clocks i) i reason u)) ids u)"
    if "tableInv held u" for ids u
    using that by (induction ids arbitrary: u) (simp_all add: tableInv_cancelDependents)
  then show ?thesis
    by (simp add: cancelForDeployment_def Let_def tableInv_cancelRows[OF assms])
qed

text \<open>The Go worker only moves rows in the execute stage.\<close>

lemma tableInv_goClaim:
  assumes "tableInv held t"
  shows "tableInv held (snd (goClaim now lease w v locked t))"
proof -
  have "tableInv held (sqlSet p (\<lambda>j. j\<lparr>job_workerId := Some w, job_workerVersion := Some v,
      job_heartbeatAt := Some now, job_progressAt := Some now\<rparr>) t)" for p
    by (intro tableInv_sqlSet[OF assms] queueInv_sqlSet[OF tableInv_inv[OF assms]])
      (simp_all add: tame_row_defs tame_defs)
  with assms show ?thesis unfolding goClaim_def Let_def by (simp split: option.split)
qed

lemma tableInv_goWrites:
  assumes "tableInv held t"
  shows "tableInv held (snd (goHeartbeat now quiet i w t))"
    "tableInv held (goFinish i w result err t)" "tableInv held (goRelease i w t)"
  using go_writes_inv[OF tableInv_inv[OF assms]]
  unfolding goHeartbeat_def goFinish_def goRelease_def snd_conv
  by (intro tableInv_sqlSet[OF assms]; auto simp: tame_row_defs leasedBy_def)+

text \<open>Orphan recovery leaves the ids in flight alone.\<close>

lemma tableInv_requeue:
  assumes "tableInv (set live) t"
  shows "tableInv (set live) (snd (requeueOrphaned live now t))"
proof -
  define t1 where "t1 = sqlSet (\<lambda>j. job_status j = Running \<and> job_stage j = Some Finalizing \<and> job_id j \<notin> set live)
                 (\<lambda>j. j\<lparr>job_stage := Some Finalize\<rparr>) t"
  define t2 where "t2 = sqlSet (\<lambda>j. orphaned live j \<and> list_ex (supersededBy j) t1)
                 (\<lambda>j. (CLEARED_STAGE j)\<lparr>
                    job_error := Some ''Superseded by a newer job for the same target.'',
                    job_finishedAt := Some now, job_status := Cancelled\<rparr>) t1"
  define t3 where "t3 = sqlSet (orphaned live)
                 (\<lambda>j. (CLEARED_STAGE j)\<lparr>job_startedAt := None, job_status := Queued\<rparr>) t2"
  have q1: "queueInv t1" unfolding t1_def
    by (rule queueInv_sqlSet[OF tableInv_inv[OF assms]]) (simp add: tame_defs)
  have q2: "queueInv t2" unfolding t2_def by (rule queueInv_sqlSet[OF q1]) (simp add: tame_defs)
  have i1: "tableInv (set live) t1"
  proof (rule tableInv_rows[OF assms q1])
    fix j' assume "j' \<in> set t1"
    then obtain j where "j \<in> set t" "j' = j \<or> (job_id j' \<notin> set live \<and> job_status j' = Running)"
      by (auto simp: t1_def set_sqlSet)
    then show "(\<exists>j\<in>set t. tame j j') \<or> job_id j' \<notin> set live \<and> (job_status j' = Queued \<longrightarrow> job_stage j' = None)"
      using tame_refl by auto
  qed
  have i2: "tableInv (set live) t2"
    using q2 unfolding t2_def by (intro tableInv_sqlSet[OF i1]) (auto simp: tame_row_defs)
  have i3: "tableInv (set live) t3" if "constraintsOk t3"
  proof (rule tableInv_rows[OF i2])
    show "queueInv t3"
      using that q2 running_pairs_sqlSet[of t2 "orphaned live"
          "\<lambda>j. (CLEARED_STAGE j)\<lparr>job_startedAt := None, job_status := Queued\<rparr>"]
      by (auto simp: queueInv_def t3_def startsNone_def CLEARED_STAGE_def)
    fix j' assume "j' \<in> set t3"
    then obtain j where "j \<in> set t2" "j' = j \<or> (job_id j' \<notin> set live \<and> job_stage j' = None)"
      by (auto simp: t3_def set_sqlSet orphaned_def CLEARED_STAGE_def)
    then show "(\<exists>j\<in>set t2. tame j j') \<or> job_id j' \<notin> set live \<and> (job_status j' = Queued \<longrightarrow> job_stage j' = None)"
      using tame_refl by auto
  qed
  have "snd (requeueOrphaned live now t) = (if constraintsOk t3 then t3 else t2)"
    by (simp add: requeueOrphaned_def Let_def t1_def t2_def t3_def checked_def)
  with i2 i3 show ?thesis by simp
qed

text \<open>Claims take ids nothing in this process works on.\<close>

lemma tableInv_claimNext:
  assumes "tableInv held t" and "claimNext now s locked t = (Some e, t')"
  shows "job_id e \<notin> held \<and> tableInv (insert (job_id e) held) t'"
proof -
  have q: "queueInv t'" using claimNext_inv[OF tableInv_inv[OF assms(1)]] assms(2) by (metis snd_conv)
  from assms(2) show ?thesis
  proof (cases rule: claimNext_cases)
    case (Some c)
    have c: "job_status c = Queued" "job_stage c = None"
      using assms(1) Some(1,2) by (auto simp: claimableCondition_def tableInv_def)
    then have new: "job_id c \<notin> held" using assms(1) Some(1) by (auto simp: tableInv_def heldRow_def)
    have same: "j = c" if "j \<in> set t" "job_id j = job_id c" for j
      using inv_same_id[OF tableInv_inv[OF assms(1)] that(1) Some(1) that(2)] .
    have "tableInv (insert (job_id c) held) t'"
      unfolding tableInv_def
    proof (intro conjI ballI impI q)
      fix j' assume "j' \<in> set t'"
      then obtain j where j: "j \<in> set t" "j' = (if job_id j = job_id c then j\<lparr>job_attempts := job_attempts c + 1,
          job_startedAt := Some s, job_status := Running\<rparr> else j)" unfolding Some(6) by (auto simp: set_sqlSet)
      show "job_stage j' = None" if "job_status j' = Queued"
        using assms(1) j that by (auto simp: tableInv_def split: if_splits)
      show "heldRow j'" if "job_id j' \<in> insert (job_id c) held"
        using assms(1) j that same[OF j(1)] c by (auto simp: tableInv_def heldRow_def split: if_splits)
    qed
    with new Some(5) show ?thesis by simp
  qed simp
qed

lemma tableInv_claimFinalize:
  assumes "tableInv held t" and "claimFinalize locked t = (Some e, t')"
  shows "job_id e \<notin> held \<and> tableInv (insert (job_id e) held) t'"
proof -
  have q: "queueInv t'" using claimFinalize_inv[OF tableInv_inv[OF assms(1)]] assms(2) by (metis snd_conv)
  from assms(2) show ?thesis
  proof (cases rule: claimFinalize_cases)
    case (Some c)
    have new: "job_id c \<notin> held" using assms(1) Some(1,2) by (auto simp: tableInv_def heldRow_def isExecuted_def)
    have same: "j = c" if "j \<in> set t" "job_id j = job_id c" for j
      using inv_same_id[OF tableInv_inv[OF assms(1)] that(1) Some(1) that(2)] .
    have "tableInv (insert (job_id c) held) t'"
      unfolding tableInv_def
    proof (intro conjI ballI impI q)
      fix j' assume "j' \<in> set t'"
      then obtain j where j: "j \<in> set t" "j' = (if job_id j = job_id c then j\<lparr>job_stage := Some Finalizing\<rparr> else j)"
        unfolding Some(5) by (auto simp: set_sqlSet)
      show "job_stage j' = None" if "job_status j' = Queued"
        using assms(1) j that same[OF j(1)] Some(2) by (auto simp: tableInv_def isExecuted_def split: if_splits)
      show "heldRow j'" if "job_id j' \<in> insert (job_id c) held"
        using assms(1) j that same[OF j(1)] Some(2)
        by (auto simp: tableInv_def heldRow_def isExecuted_def split: if_splits)
    qed
    with new Some(4) show ?thesis by simp
  qed simp
qed

section \<open>Settling\<close>

lemma dtoUpdate_Inl: "dtoUpdate f entry t = (Inl e, t') \<Longrightarrow> t' = t"
  by (auto simp: dtoUpdate_def checked_def split: if_splits)

lemma tableInv_mono: "tableInv held t \<Longrightarrow> held' \<subseteq> held \<Longrightarrow> tableInv held' t"
  by (auto simp: tableInv_def)

text \<open>The app's own update of a row it holds gives the row up.\<close>

lemma tableInv_dtoUpdate:
  assumes inv: "tableInv held t" and i: "job_id entry \<in> held"
    and f: "\<And>j. startsNone j (f j)"
    and q: "\<And>j. job_status (f j) = Queued \<Longrightarrow> job_status j = Queued \<or> job_stage (f j) = None"
  shows "tableInv (held - {job_id entry}) (snd (dtoUpdate f entry t))"
proof (rule tableInv_rows[OF tableInv_mono[OF inv]])
  show "queueInv (snd (dtoUpdate f entry t))" by (rule dtoUpdate_inv[OF tableInv_inv[OF inv] f])
  fix j' assume "j' \<in> set (snd (dtoUpdate f entry t))"
  then obtain j where j: "j \<in> set t" "j' = j \<or> (job_id j = job_id entry \<and> j' = f j)"
    by (auto simp: dtoUpdate_def checked_def set_sqlSet split: if_splits)
  have "heldRow j" if "job_id j = job_id entry" using tameE_held[OF inv j(1)] i that by simp
  then have "j' = j \<or> (job_id j' \<notin> held - {job_id entry} \<and> (job_status j' = Queued \<longrightarrow> job_stage j' = None))"
    using j(2) f[of j] q[of j] by (auto simp: heldRow_def startsNone_def)
  then show "(\<exists>j\<in>set t. tame j j') \<or>
      job_id j' \<notin> held - {job_id entry} \<and> (job_status j' = Queued \<longrightarrow> job_stage j' = None)"
    using j(1) tame_refl by auto
qed auto

lemma tableInv_marks:
  assumes "tableInv held t" and "job_id entry \<in> held"
  shows "tableInv (held - {job_id entry}) (snd (markSucceeded now result entry t))"
    "tableInv (held - {job_id entry}) (snd (markFailed now err entry t))"
    "tableInv (held - {job_id entry}) (snd (scheduleRetry err runAt entry t))"
    "tableInv (held - {job_id entry}) (snd (deferJob now runAt gate entry t))"
    "tableInv (held - {job_id entry}) (snd (handOff enc spec entry t))"
  unfolding markSucceeded_def markFailed_def scheduleRetry_def deferJob_def handOff_def Let_def
  by (rule tableInv_dtoUpdate[OF assms], simp_all add: startsNone_def CLEARED_STAGE_def)+

lemma recordFailure_inv:
  assumes "tableInv held (qs_table s)" and "job_id entry \<in> held"
  shows "tableInv (held - {job_id entry}) (qs_table (snd (recordFailure now clock entry message s)))"
  using tableInv_marks(2,3)[OF assms] tableInv_cancelDependents[OF tableInv_marks(2)[OF assms]]
  unfolding recordFailure_def Let_def by (auto split: prod.splits sum.splits) (metis snd_conv)+

lemma recordFailure_frame:
  "qs_worker (snd (recordFailure now clock entry message s)) = qs_worker s \<and>
   qs_running (snd (recordFailure now clock entry message s)) = qs_running s \<and>
   qs_finalizing (snd (recordFailure now clock entry message s)) = qs_finalizing s"
  unfolding recordFailure_def Let_def by (auto split: prod.split sum.split)

lemma settleError_inv:
  assumes "tableInv held (qs_table s)" and "job_id entry \<in> held"
  shows "tableInv (held - {job_id entry}) (qs_table (snd (settleError now clock entry err s)))"
  using tableInv_marks(4)[OF assms] recordFailure_inv[OF assms] tableInv_mono[OF assms(1)]
  unfolding settleError_def by (auto split: prod.splits sum.splits outcome.splits) (metis snd_conv)+

lemma settleError_frame:
  "qs_worker (snd (settleError now clock entry err s)) = qs_worker s \<and>
   qs_running (snd (settleError now clock entry err s)) = qs_running s \<and>
   qs_finalizing (snd (settleError now clock entry err s)) = qs_finalizing s"
  unfolding settleError_def using recordFailure_frame by (auto split: prod.split sum.split outcome.split)

text \<open>An update that succeeds ends the entry; one that fails leaves the table and records the failure.\<close>

lemma update_or_fail_inv:
  assumes inv: "tableInv held (qs_table s)" and i: "job_id entry \<in> held"
    and upd: "tableInv (held - {job_id entry}) (snd r)" and inl: "\<And>e t. r = (Inl e, t) \<Longrightarrow> t = qs_table s"
  shows "tableInv (held - {job_id entry}) (qs_table (snd (case r of
           (Inl e, t) \<Rightarrow> recordFailure now clock entry (msg e) (s\<lparr>qs_table := t\<rparr>)
         | (Inr _, t) \<Rightarrow> (None, s\<lparr>qs_table := t\<rparr>))))"
proof -
  obtain a t where r: "r = (a, t)" by fastforce
  show ?thesis
  proof (cases a)
    case (Inl e)
    then show ?thesis using r inl recordFailure_inv[OF _ i, of "s\<lparr>qs_table := t\<rparr>"] inv by simp
  next
    case (Inr x)
    then show ?thesis using r upd by simp
  qed
qed

lemma handOff_or_fail_inv:
  assumes "tableInv held (qs_table s)" and "job_id entry \<in> held"
  shows "tableInv (held - {job_id entry}) (qs_table (snd (case handOff enc spec entry (qs_table s) of
           (Inl e, t) \<Rightarrow> recordFailure now clock entry (msg e) (s\<lparr>qs_table := t\<rparr>)
         | (Inr _, t) \<Rightarrow> (None, s\<lparr>qs_table := t\<rparr>))))"
  by (rule update_or_fail_inv[OF assms tableInv_marks(5)[OF assms]]) (simp add: handOff_def dtoUpdate_Inl)

lemma succeed_or_fail_inv:
  assumes "tableInv held (qs_table s)" and "job_id entry \<in> held"
  shows "tableInv (held - {job_id entry}) (qs_table (snd (case markSucceeded now result entry (qs_table s) of
           (Inl e, t) \<Rightarrow> recordFailure now clock entry (msg e) (s\<lparr>qs_table := t\<rparr>)
         | (Inr _, t) \<Rightarrow> (None, s\<lparr>qs_table := t\<rparr>))))"
  by (rule update_or_fail_inv[OF assms tableInv_marks(1)[OF assms]]) (simp add: markSucceeded_def dtoUpdate_Inl)

lemma runJob_inv:
  assumes inv: "tableInv held (qs_table s)" and i: "job_id entry \<in> held"
  shows "tableInv (held - {job_id entry}) (qs_table (snd (runJob h now clock entry s)))"
proof -
  define s1 where "s1 = s\<lparr>qs_table := stampWorkerVersion (job_id entry) (h_version h) (qs_table s)\<rparr>"
  have inv1: "tableInv held (qs_table s1)" using tableInv_stamp[OF inv] by (simp add: s1_def)
  show ?thesis
    unfolding runJob_def Let_def s1_def[symmetric]
    using handOff_or_fail_inv[OF inv i] succeed_or_fail_inv[OF inv1 i] settleError_inv[OF inv i]
      settleError_inv[OF inv1 i] recordFailure_inv[OF inv i]
    by (cases "h_prepare h entry"; cases "h_handler h entry") auto
qed

lemma finalizeJob_inv:
  assumes inv: "tableInv held (qs_table s)" and i: "job_id entry \<in> held"
  shows "tableInv (held - {job_id entry}) (qs_table (snd (finalizeJob h now clock entry s)))"
proof -
  let ?s1 = "s\<lparr>qs_worker := (qs_worker s)\<lparr>w_stallWarned := removeAll (job_id entry) (w_stallWarned (qs_worker s))\<rparr>\<rparr>"
  have inv1: "tableInv held (qs_table ?s1)" using inv by simp
  show ?thesis
    unfolding finalizeJob_def Let_def
    using succeed_or_fail_inv[OF inv1 i] recordFailure_inv[OF inv1 i] by (simp split: outcome.split)
qed

text \<open>Settling changes neither the promises nor the ids in flight.\<close>

lemma runJob_frame:
  "qs_worker (snd (runJob h now clock entry s)) = qs_worker s \<and>
   qs_running (snd (runJob h now clock entry s)) = qs_running s \<and>
   qs_finalizing (snd (runJob h now clock entry s)) = qs_finalizing s"
  unfolding runJob_def Let_def
  by (simp add: recordFailure_frame settleError_frame split: outcome.split prod.split sum.split)

lemma finalizeJob_frame:
  "w_inFlight (qs_worker (snd (finalizeJob h now clock entry s))) = w_inFlight (qs_worker s) \<and>
   w_held (qs_worker (snd (finalizeJob h now clock entry s))) = w_held (qs_worker s) \<and>
   qs_running (snd (finalizeJob h now clock entry s)) = qs_running s \<and>
   qs_finalizing (snd (finalizeJob h now clock entry s)) = qs_finalizing s"
  unfolding finalizeJob_def Let_def
  by (simp add: recordFailure_frame split: outcome.split prod.split sum.split)

section \<open>Reachable worker states\<close>

text \<open>Writes of other processes and requests. New jobs get ids no unsettled promise has.\<close>

inductive other_step :: "string set \<Rightarrow> table \<Rightarrow> table \<Rightarrow> bool" for held where
  other_log: "other_step held t (appendLog i line now t)"
| other_prune: "other_step held t (prune now t)"
| other_create: "uuid \<notin> held \<Longrightarrow> other_step held t (snd (create uuid now p pa input t))"
| other_cancel: "other_step held t (snd (cancel clock now i reason t))"
| other_cancel_deployment: "other_step held t (snd (cancelForDeployment clocks now d reason t))"
| go_claims: "other_step held t (snd (goClaim now lease w v locked t))"
| go_beats: "other_step held t (snd (goHeartbeat now quiet i w t))"
| go_finishes: "other_step held t (goFinish i w result err t)"
| go_releases: "other_step held t (goRelease i w t)"

inductive worker_step :: "qsys \<Rightarrow> qsys \<Rightarrow> bool" where
  recover: "\<not> w_held (qs_worker s) \<Longrightarrow> worker_step s (snd (recoverOrphans now after s))"
| finalize_turns: "\<not> w_held (qs_worker s) \<Longrightarrow> worker_step s (finalizeTurns fuel locks s)"
| pump_turns: "worker_step s (pumpTurns fuel clock locks s)"
| warn_stalled: "worker_step s (snd (warnStalledExecutions now s))"
| hold_worker: "worker_step s (hold s)"
| release_worker: "worker_step s (release s)"
| settle_run: "entry \<in> set (qs_running s) \<Longrightarrow> worker_step s (settleRun h now clock entry s)"
| settle_finalize: "entry \<in> set (qs_finalizing s) \<Longrightarrow> worker_step s (settleFinalize h now clock entry s)"
| other: "other_step (set (w_inFlight (qs_worker s))) (qs_table s) t \<Longrightarrow> worker_step s (s\<lparr>qs_table := t\<rparr>)"

inductive_cases other_stepE: "other_step held t t'"
inductive_cases worker_stepE: "worker_step s s'"

definition freshWorker :: worker where
  "freshWorker = \<lparr>w_held = False, w_inFlight = [], w_stallWarned = [], w_nextStallCheck = 0, w_nextOrphanCheck = 0\<rparr>"

text \<open>A process boots with nothing in flight over the table the previous one left.\<close>

inductive worker_reachable :: "qsys \<Rightarrow> bool" where
  boot: "tableInv {} t \<Longrightarrow> worker_reachable \<lparr>qs_worker = freshWorker, qs_table = t, qs_deployments = deps,
           qs_synced = [], qs_running = [], qs_finalizing = []\<rparr>"
| step: "worker_reachable s \<Longrightarrow> worker_step s s' \<Longrightarrow> worker_reachable s'"

lemma other_step_inv: "other_step held t t' \<Longrightarrow> tableInv held t \<Longrightarrow> tableInv held t'"
  by (induction rule: other_step.induct)
    (auto intro: tableInv_append tableInv_prune tableInv_create tableInv_cancel
      tableInv_cancelForDeployment tableInv_goClaim tableInv_goWrites)

lemma recoverOrphans_inv:
  assumes "workInv s"
  shows "workInv (snd (recoverOrphans now after s))"
proof -
  have "tableInv (set (w_inFlight (qs_worker s)))
      (snd (requeueOrphaned (w_inFlight (qs_worker s)) now (qs_table s)))"
    by (rule tableInv_requeue) (use assms in \<open>simp add: workInv_def\<close>)
  with assms show ?thesis
    by (auto simp: recoverOrphans_def Let_def workInv_def split: prod.split sum.split)
qed

lemma pumpTurns_inv:
  assumes "workInv s"
  shows "workInv (pumpTurns fuel clock locks s)"
proof -
  let ?P = "\<lambda>fl t run. tableInv (set fl) t \<and> flightOk fl run (qs_finalizing s) \<and> length run \<le> MAX_CONCURRENT_JOBS"
  obtain es fl t where l: "claimLoop fuel (\<lambda>n. claimNext (clock n) (clock n) (locks n)) (atCapacity (qs_worker s)) 0
            (w_inFlight (qs_worker s)) (qs_table s) = (es, fl, t)" by (metis prod_cases3)
  have "?P fl t (qs_running s @ es)"
  proof (rule queued.loop_preserves[OF l, of ?P])
    show "?P (w_inFlight (qs_worker s)) (qs_table s) (qs_running s)" using assms by (simp add: workInv_def)
  next
    fix n fl t acc e u
    assume P: "?P fl t acc" and room: "\<not> atCapacity (qs_worker s) fl"
      and c: "claimNext (clock n) (clock n) (locks n) t = (Some e, u)"
    from tableInv_claimNext[OF conjunct1[OF P] c]
    have e: "job_id e \<notin> set fl" "tableInv (insert (job_id e) (set fl)) u" by auto
    have "length (acc @ [e]) \<le> MAX_CONCURRENT_JOBS"
      using room P flight_running[of fl acc "qs_finalizing s"] by (simp add: atCapacity_def)
    then show "?P (List.insert (job_id e) fl) u (acc @ [e])" using P e flight_add(1) by simp
  qed
  then show ?thesis by (simp add: pumpTurns_def l workInv_def)
qed

lemma finalizeTurns_inv:
  assumes "workInv s"
  shows "workInv (finalizeTurns fuel locks s)"
proof -
  let ?P = "\<lambda>fl t fin. tableInv (set fl) t \<and> flightOk fl (qs_running s) fin"
  obtain es fl t where l: "claimLoop fuel (\<lambda>n. claimFinalize (locks n)) (\<lambda>_. False) 0
            (w_inFlight (qs_worker s)) (qs_table s) = (es, fl, t)" by (metis prod_cases3)
  have "?P fl t (qs_finalizing s @ es)"
  proof (rule executed.loop_preserves[OF l, of ?P])
    show "?P (w_inFlight (qs_worker s)) (qs_table s) (qs_finalizing s)" using assms by (simp add: workInv_def)
  next
    fix n fl t acc e u
    assume P: "?P fl t acc" and c: "claimFinalize (locks n) t = (Some e, u)"
    from tableInv_claimFinalize[OF conjunct1[OF P] c]
    show "?P (List.insert (job_id e) fl) u (acc @ [e])" using P flight_add(2) by simp
  qed
  then show ?thesis using assms by (simp add: finalizeTurns_def l workInv_def)
qed

lemma settleRun_inv:
  assumes inv: "workInv s" and e: "entry \<in> set (qs_running s)"
  shows "workInv (settleRun h now clock entry s)"
proof -
  let ?fl = "w_inFlight (qs_worker s)"
  have f: "job_id entry \<in> set ?fl" "flightOk (removeAll (job_id entry) ?fl) (remove1 entry (qs_running s)) (qs_finalizing s)"
    using flight_drop(1)[OF _ e] inv by (auto simp: workInv_def)
  have "tableInv (set ?fl - {job_id entry}) (qs_table (snd (runJob h now clock entry s)))"
    by (rule runJob_inv) (use inv f(1) in \<open>simp_all add: workInv_def\<close>)
  moreover have "length (remove1 entry (qs_running s)) \<le> MAX_CONCURRENT_JOBS"
    using inv by (auto simp: workInv_def length_remove1)
  ultimately show ?thesis
    using f(2) by (simp add: settleRun_def leaveFlight_def workInv_def Let_def runJob_frame)
qed

lemma settleFinalize_inv:
  assumes inv: "workInv s" and e: "entry \<in> set (qs_finalizing s)"
  shows "workInv (settleFinalize h now clock entry s)"
proof -
  let ?fl = "w_inFlight (qs_worker s)"
  have f: "job_id entry \<in> set ?fl" "flightOk (removeAll (job_id entry) ?fl) (qs_running s) (remove1 entry (qs_finalizing s))"
    using flight_drop(2)[OF _ e] inv by (auto simp: workInv_def)
  have "tableInv (set ?fl - {job_id entry}) (qs_table (snd (finalizeJob h now clock entry s)))"
    by (rule finalizeJob_inv) (use inv f(1) in \<open>simp_all add: workInv_def\<close>)
  with f(2) inv show ?thesis
    by (simp add: settleFinalize_def leaveFlight_def workInv_def Let_def finalizeJob_frame)
qed

lemma worker_step_inv: "worker_step s s' \<Longrightarrow> workInv s \<Longrightarrow> workInv s'"
proof (induction rule: worker_step.induct)
  case (warn_stalled s now)
  then show ?case by (simp add: warnStalledExecutions_def Let_def workInv_def)
next
  case (other s t)
  then show ?case using other_step_inv by (simp add: workInv_def)
qed (simp_all add: recoverOrphans_inv finalizeTurns_inv pumpTurns_inv settleRun_inv settleFinalize_inv,
     simp_all add: hold_def release_def workInv_def)

lemma worker_reachable_inv: "worker_reachable s \<Longrightarrow> workInv s"
proof (induction rule: worker_reachable.induct)
  case (boot t deps)
  then show ?case by (simp add: workInv_def flightOk_def freshWorker_def)
next
  case (step s s')
  then show ?case by (blast intro: worker_step_inv)
qed

end
