(* ===== verification/Job_Theorems.thy ===== *)
theory Job_Theorems
  imports Job_Laws
begin

text \<open>
  The properties of the job queue: mutual exclusion in every reachable table, what claiming
  picks, the exclusive barrier, exactly which rows a cancel ends, deduplication on create, orphan
  recovery and its one failing case, deferral, staleness, the spec round trip, and what an
  unconditional instance update does to a job cancelled meanwhile. \<open>sampleInput\<close> and the sample
  tables only serve the witnesses.
\<close>

definition sampleInput :: "JobType \<Rightarrow> string option \<Rightarrow> string option \<Rightarrow> string option \<Rightarrow> bool \<Rightarrow> NewJobInput" where
  "sampleInput ty key lock dep excl = \<lparr>in_dedupeKey = key, in_dependsOnJobId = dep, in_exclusive = Some excl,
     in_lockKey = lock, in_maxAttempts = Some 3, in_payload = [], in_priority = None, in_runAt = None,
     in_serviceId = None, in_title = ''sample'', in_type = ty, in_userId = ''u''\<rparr>"

definition sampleRow :: "string \<Rightarrow> string option \<Rightarrow> string option \<Rightarrow> bool \<Rightarrow> job" where
  "sampleRow i key dep excl = newRow i 0 (sampleInput Deploy key (Some ''lock'') dep excl)"

lemmas sample_defs = sampleRow_def sampleInput_def newRow_def

lemmas claim_defs = claimNext_def claimableCondition_def dependencySatisfied_def lockFree_def
  exclusivityRespected_def noExclusiveBarrierAhead_def claimOrder_def sqlSet_def



text \<open>
  C3. \<open>claimNext\<close> returns nothing, and leaves the table alone, only when no row that another transaction does
  not hold is claimable: a due job whose conditions hold is never left behind. Otherwise the job it returns was
  queued, due and claimable and in no other transaction's hands; every other such row has a lower priority,
  or the same one and a later run time, or the same both and was not created earlier; the returned entry is
  that row running with one more attempt, and it is the only row changed.
\<close>

theorem claimNext_claims_best:
  assumes "constraintsOk t"
  shows "case claimNext now s locked t of
       (None, t') \<Rightarrow> t' = t \<and> (\<forall>j \<in> set t. \<not> (claimableCondition now t j \<and> job_id j \<notin> set locked))
     | (Some entry, t') \<Rightarrow>
         \<exists>c \<in> set t. job_status c = Queued \<and> job_runAt c \<le> now \<and> claimableCondition now t c \<and> job_id c \<notin> set locked \<and>
           (\<forall>j \<in> set t. claimableCondition now t j \<and> job_id j \<notin> set locked \<longrightarrow>
              job_priority j < job_priority c \<or>
              (job_priority j = job_priority c \<and>
                 (job_runAt c < job_runAt j \<or> (job_runAt c = job_runAt j \<and> job_createdAt c \<le> job_createdAt j)))) \<and>
           entry = c\<lparr>job_attempts := job_attempts c + 1, job_startedAt := Some s, job_status := Running\<rparr> \<and>
           t' = map (\<lambda>j. if j = c then entry else j) t"
proof -
  obtain r t' where e: "claimNext now s locked t = (r, t')" by fastforce
  show ?thesis
  proof (cases rule: claimNext_cases[OF e])
    case (2 c)
    have "job_id j = job_id c \<longleftrightarrow> j = c" if "j \<in> set t" for j
      using assms 2(1) that by (auto simp: constraintsOk_def distinct_map inj_on_def)
    then have "t' = map (\<lambda>j. if j = c
        then c\<lparr>job_attempts := job_attempts c + 1, job_startedAt := Some s, job_status := Running\<rparr> else j) t"
      using 2(6) by (auto simp: sqlSet_def)
    moreover have "job_status c = Queued \<and> job_runAt c \<le> now" using 2(2) by (simp add: claimableCondition_def)
    moreover have "\<forall>j \<in> set t. claimableCondition now t j \<and> job_id j \<notin> set locked \<longrightarrow>
        job_priority j < job_priority c \<or> (job_priority j = job_priority c \<and>
          (job_runAt c < job_runAt j \<or> (job_runAt c = job_runAt j \<and> job_createdAt c \<le> job_createdAt j)))"
      using 2(4) by (auto simp: claimOrder_def less_eq_prod_def)
    ultimately show ?thesis using 2(1,2,3,5) unfolding e by auto
  qed (auto simp: e)
qed

theorem claimNext_claims_best_witness:
  "\<exists>entry t'. claimNext 5 6 [] [sampleRow ''a'' None None False] = (Some entry, t') \<and>
     job_attempts entry = 1 \<and> t' = [entry]"
proof -
  let ?t = "[sampleRow ''a'' None None False]"
  have ok: "constraintsOk ?t" by (simp add: constraintsOk_def noPair_def)
  obtain e t' where e: "claimNext 5 6 [] ?t = (Some e, t')"
    by (simp add: claim_defs Let_def sample_defs)
  have "job_attempts (sampleRow ''a'' None None False) = 0" by (simp add: sample_defs)
  then have "job_attempts e = 1 \<and> t' = [e]" using claimNext_claims_best[OF ok, where now = 5 and s = 6 and locked = "[]"] unfolding e by auto
  with e show ?thesis by blast
qed



text \<open>
  C5. \<open>cancelDependents\<close> terminates and cancels exactly the queued or running jobs that depend on
  the given job directly or through other such jobs: it records the reason and an end time on each
  of them, changes no other row, and returns exactly the jobs it cancelled.
\<close>

theorem cancelDependents_exact:
  "\<exists>ended. snd (cancelDependents clock root reason t) =
       map (\<lambda>j. if dependentOf t root j then cancelRow reason (ended j) j else j) t \<and>
     cj_id ` set (fst (cancelDependents clock root reason t)) = job_id ` {j. dependentOf t root j}"
  using cancelDependents_rows[of clock root reason t] by blast

lemma find_queued_eq:
  assumes "constraintsOk t" and "j \<in> set t" and "job_status j = Queued" and "job_dedupeKey j = Some k"
  shows "findQueued (job_type j) k t = Some j"
proof -
  obtain i where i: "findQueued (job_type j) k t = Some i"
    using assms by (cases "findQueued (job_type j) k t") (auto simp: findQueued_def find_None_iff)
  then have "i \<in> set t" "dedupeConflict i j"
    using assms by (auto simp: findQueued_def dedupeConflict_def find_Some_iff)
  then have "i = j" using assms by (auto simp: constraintsOk_def distinct_map inj_on_def dest: noPairD)
  with i show ?thesis by simp
qed

lemma find_id_eq: "distinct (map job_id t) \<Longrightarrow> j \<in> set t \<Longrightarrow> getJob (job_id j) t = Some j"
  by (induction t) (auto simp: getJob_def)

lemma prune_keeps_queued: "job_status j = Queued \<Longrightarrow> j \<in> set (prune now t) \<longleftrightarrow> j \<in> set t"
  by (auto simp: prune_def TERMINAL_STATUSES_def)

lemma constraintsOk_prune: "constraintsOk t \<Longrightarrow> constraintsOk (prune now t)"
  by (auto simp: constraintsOk_def prune_def distinct_map_filter noPair_def list_all_iff)

lemma constraintsOk_snoc:
  "constraintsOk t \<Longrightarrow> \<not> list_ex (\<lambda>j. job_id j = job_id row \<or> dedupeConflict j row) t \<Longrightarrow> constraintsOk (t @ [row])"
  using dedupeConflict_sym[of row] by (auto simp: constraintsOk_def list_ex_iff intro!: noPair_snoc)

text \<open>
  Creating a job deduplicates: with a fresh id, \<open>create\<close> returns nothing exactly when a job of
  the same type and dedupe key is already queued; otherwise the returned row is in the table under
  its id and is the queued job of its key, and a second request with that key creates nothing.
\<close>

theorem create_dedupes:
  assumes ok: "constraintsOk t" and new: "uuid \<notin> job_id ` set t"
    and r: "create uuid now p pa input t = (r, t')"
  shows "constraintsOk t' \<and>
     (r = None \<longleftrightarrow> (\<exists>k. in_dedupeKey input = Some k \<and> findQueued (in_type input) k t \<noteq> None)) \<and>
     (\<forall>row. r = Some row \<longrightarrow> getJob uuid t' = Some row \<and> job_status row = Queued) \<and>
     (\<forall>k. in_dedupeKey input = Some k \<longrightarrow>
        findQueued (in_type input) k t' \<noteq> None \<and> fst (create uuid2 now2 p2 pa2 input t') = None)"
proof -
  let ?row = "newRow uuid now input"
  let ?c = "list_ex (\<lambda>j. job_id j = uuid \<or> dedupeConflict j ?row) t"
  have row: "job_id ?row = uuid" "job_status ?row = Queued" "job_type ?row = in_type input"
      "job_dedupeKey ?row = in_dedupeKey input" by (simp_all add: newRow_def)
  let ?u = "if ?c then t else t @ [?row]"
  have u: "constraintsOk ?u" using ok constraintsOk_snoc[of t ?row] row(1) by simp
  have r': "r = (if ?c then None else Some ?row)" "t' = (if p then prune pa ?u else ?u)"
    using r by (auto simp: create_def Let_def)
  have ok': "constraintsOk t'" using u r'(2) constraintsOk_prune by simp
  have in': "j \<in> set t' \<longleftrightarrow> j \<in> set ?u" if "job_status j = Queued" for j
    using that r'(2) prune_keeps_queued by simp
  have c: "?c \<longleftrightarrow> (\<exists>k. in_dedupeKey input = Some k \<and> findQueued (in_type input) k t \<noteq> None)"
    using new row by (cases "in_dedupeKey input")
      (auto simp: findQueued_def find_None_iff list_ex_iff dedupeConflict_def)
  have got: "getJob uuid t' = Some ?row" if "\<not> ?c"
    using find_id_eq[of t' ?row] ok' in'[of ?row] row that by (simp add: constraintsOk_def)
  have queued: "\<exists>j \<in> set t'. job_status j = Queued \<and> job_type j = in_type input \<and> job_dedupeKey j = Some k"
    if "in_dedupeKey input = Some k" for k
  proof (cases ?c)
    case True
    then obtain j where "j \<in> set t" "dedupeConflict j ?row" using new by (auto simp: list_ex_iff)
    with True in'[of j] row that show ?thesis by (intro bexI[of _ j]) (auto simp: dedupeConflict_def)
  next
    case False
    with in'[of ?row] row that show ?thesis by (intro bexI[of _ ?row]) auto
  qed
  have "findQueued (in_type input) k t' \<noteq> None \<and> fst (create uuid2 now2 p2 pa2 input t') = None"
    if k: "in_dedupeKey input = Some k" for k
  proof -
    from queued[OF k] obtain j where "j \<in> set t'" "job_status j = Queued" "job_type j = in_type input"
      "job_dedupeKey j = Some k" by blast
    then have "list_ex (\<lambda>j. job_id j = uuid2 \<or> dedupeConflict j (newRow uuid2 now2 input)) t'"
      "findQueued (in_type input) k t' = Some j"
      using k find_queued_eq[OF ok', of j k] by (auto simp: list_ex_iff dedupeConflict_def newRow_def)
    then show ?thesis by (simp add: create_def Let_def)
  qed
  with ok' c got row r'(1) show ?thesis by simp
qed

theorem create_dedupes_witness:
  "\<exists>row t'. create ''a'' 0 False 0 (sampleInput Deploy (Some ''k'') None None False) [] = (Some row, t') \<and>
     getJob ''a'' t' = Some row \<and>
     fst (create ''b'' 9 False 9 (sampleInput Deploy (Some ''k'') None None False) t') = None"
proof -
  let ?i = "sampleInput Deploy (Some ''k'') None None False"
  obtain r t' where e: "create ''a'' 0 False 0 ?i [] = (r, t')" by fastforce
  have "constraintsOk []" by (simp add: constraintsOk_def noPair_def)
  from create_dedupes[OF this _ e] e show ?thesis
    by (cases r) (auto simp: findQueued_def sampleInput_def)
qed

lemma recovered_queued:
  assumes "job_status (recoveredRow live now t a) = Queued"
  shows "job_status a = Queued \<and> recoveredRow live now t a = a \<or>
         orphaned live a \<and> \<not> list_ex (supersededBy a) t"
  using assms by (auto simp: recoveredRow_def finalizingOrphan_def orphaned_def split: if_splits)

lemma recovered_same:
  "job_id (recoveredRow live now t a) = job_id a" "job_type (recoveredRow live now t a) = job_type a"
  "job_dedupeKey (recoveredRow live now t a) = job_dedupeKey a"
  by (simp_all add: recoveredRow_def CLEARED_STAGE_def)

lemma recovered_pair:
  assumes inv: "noPair dedupeConflict t" and tie: "\<not> orphanTie live t" and ab: "a \<in> set t" "b \<in> set t"
    and c: "dedupeConflict (recoveredRow live now t a) (recoveredRow live now t b)"
  shows "job_id a = job_id b"
proof (rule ccontr)
  assume ne: "job_id a \<noteq> job_id b"
  have key: "job_type a = job_type b" "job_dedupeKey a = job_dedupeKey b" "job_dedupeKey a \<noteq> None"
    using c unfolding dedupeConflict_def recovered_same by metis+
  have qa: "job_status a = Queued \<or> orphaned live a \<and> \<not> list_ex (supersededBy a) t"
    and qb: "job_status b = Queued \<or> orphaned live b \<and> \<not> list_ex (supersededBy b) t"
    using c recovered_queued[of live now t] by (auto simp: dedupeConflict_def)
  have "\<not> (job_status a = Queued \<and> job_status b = Queued)"
    using noPairD[OF inv ab] key ne by (auto simp: dedupeConflict_def)
  moreover have "\<not> (job_status a = Queued \<and> orphaned live b \<and> \<not> list_ex (supersededBy b) t)"
    using ab key ne by (auto simp: list_ex_iff supersededBy_def)
  moreover have "\<not> (job_status b = Queued \<and> orphaned live a \<and> \<not> list_ex (supersededBy a) t)"
    using ab key ne by (auto simp: list_ex_iff supersededBy_def)
  ultimately have o: "orphaned live a" "orphaned live b" "\<not> supersededBy a b" "\<not> supersededBy b a"
    using qa qb ab by (auto simp: list_ex_iff)
  then have "\<not> job_createdAt b > job_createdAt a" "\<not> job_createdAt a > job_createdAt b"
    using key ne by (auto simp: supersededBy_def orphaned_def)
  then have "job_createdAt a = job_createdAt b" by simp
  with tie o(1,2) key ne ab show False unfolding orphanTie_def list_ex_iff by metis
qed

text \<open>
  C6. Orphan recovery: unless two orphans of one target carry the same creation time,
  \<open>requeueOrphaned\<close> succeeds and leaves every row as \<open>recoveredRow\<close> says. Orphans caught finalizing
  go back to \<open>finalize\<close>, an orphan with a queued or newer twin is cancelled, the other orphans are
  queued again, and every other row (live, executing, queued or ended) is untouched.
\<close>

theorem requeueOrphaned_recovers:
  assumes "queueInv t" and "\<not> orphanTie live t"
  shows "requeueOrphaned live now t =
     (Inr (length (filter (\<lambda>j. orphaned live j \<and> \<not> list_ex (supersededBy j) t) t)),
      map (recoveredRow live now t) t)"
proof -
  have "noPair dedupeConflict (map (recoveredRow live now t) t)"
  proof (rule noPairI)
    fix a' b' assume "a' \<in> set (map (recoveredRow live now t) t)" "b' \<in> set (map (recoveredRow live now t) t)"
      "dedupeConflict a' b'"
    then show "job_id a' = job_id b'"
      using recovered_pair[OF _ assms(2)] assms(1) by (auto simp: recovered_same queueInv_def constraintsOk_def)
  qed
  moreover have "distinct (map job_id (map (recoveredRow live now t) t))"
    using assms(1) by (simp add: comp_def recovered_same constraintsOk_def queueInv_def)
  ultimately have "constraintsOk (map (recoveredRow live now t) t)" by (simp add: constraintsOk_def)
  then show ?thesis by (simp add: requeue_table checked_def)
qed

definition runningRow :: "string \<Rightarrow> timestamp \<Rightarrow> JobStage option \<Rightarrow> job" where
  "runningRow i at stage = (newRow i at (sampleInput Deploy (Some ''k'') None None False))
     \<lparr>job_status := Running, job_stage := stage, job_attempts := 1, job_startedAt := Some at\<rparr>"

theorem requeueOrphaned_recovers_witness:
  "map job_status (snd (requeueOrphaned [''live''] 9 [runningRow ''old'' 1 None, runningRow ''new'' 2 (Some Prepare),
      runningRow ''go'' 3 (Some Execute), runningRow ''live'' 4 None])) = [Cancelled, Cancelled, Running, Running]"
proof -
  let ?t = "[runningRow ''old'' 1 None, runningRow ''new'' 2 (Some Prepare),
      runningRow ''go'' 3 (Some Execute), runningRow ''live'' 4 None]"
  have "queueInv ?t"
    by (simp add: queueInv_def constraintsOk_def noPair_def dedupeConflict_def lockConflict_def exclConflict_def
        runningRow_def sample_defs)
  moreover have "\<not> orphanTie [''live''] ?t"
    by (simp add: orphanTie_def orphaned_def runningRow_def sample_defs)
  ultimately show ?thesis
    using requeueOrphaned_recovers[of ?t "[''live'']" 9]
    by (simp add: recoveredRow_def finalizingOrphan_def orphaned_def supersededBy_def runningRow_def sample_defs)
qed

text \<open>
  Deferring a freshly claimed job never fails and undoes the claim: the job is queued again for
  the given time with the attempts it had before the claim, its dedupe key freed, marked as waiting
  on the gate since the first time it waited there in a row; no other row changes.
\<close>

theorem claim_then_defer:
  assumes "constraintsOk t" and "claimNext now s locked t = (Some entry, t1)"
  shows "\<exists>c \<in> set t. \<exists>e t2. job_id e = job_id c \<and> deferJob now' runAt gate entry t1 = (Inr e, t2) \<and>
     job_status e = Queued \<and> job_attempts e = job_attempts c \<and> job_runAt e = runAt \<and> job_dedupeKey e = None \<and>
     deferral e = Some (gate, case deferral c of Some (g, since) \<Rightarrow> if g = gate then since else now' | None \<Rightarrow> now') \<and>
     t2 = map (\<lambda>j. if job_id j = job_id c then e else j) t"
  using assms(2)
proof (cases rule: claimNext_cases)
  case (Some c)
  define since where "since = (case job_deferredSince c of Some s \<Rightarrow> if job_deferredFor c = Some gate then s else now' | None \<Rightarrow> now')"
  define f where "f = (\<lambda>j. (CLEARED_STAGE j)\<lparr>job_attempts := job_attempts c, job_buildHostId := None,
     job_dedupeKey := None, job_deferredFor := Some gate, job_deferredSince := Some since,
     job_runAt := runAt, job_startedAt := None, job_status := Queued\<rparr>)"
  have entry: "entry = c\<lparr>job_attempts := job_attempts c + 1, job_startedAt := Some s, job_status := Running\<rparr>"
    using Some(5) by simp
  have same: "job_id j = job_id c \<longleftrightarrow> j = c" if "j \<in> set t" for j
    using assms(1) Some(1) that by (auto simp: constraintsOk_def distinct_map inj_on_def)
  have t2: "sqlSet (\<lambda>j. job_id j = job_id entry) f t1 = map (\<lambda>j. if job_id j = job_id c then f entry else j) t"
    unfolding Some(6) sqlSet_def using same by (auto simp: entry)
  have "constraintsOk t1"
    unfolding Some(6) by (rule constraintsOk_sqlSet[OF assms(1)]) (simp add: queuesNone_def)
  then have "constraintsOk (sqlSet (\<lambda>j. job_id j = job_id entry) f t1)"
    by (rule constraintsOk_sqlSet) (simp add: f_def queuesNone_def CLEARED_STAGE_def)
  moreover have "deferJob now' runAt gate entry t1 = dtoUpdate f entry t1"
  proof -
    have "job_attempts entry - 1 = job_attempts c" "job_deferredFor entry = job_deferredFor c"
      "job_deferredSince entry = job_deferredSince c" by (simp_all add: entry)
    then show ?thesis unfolding deferJob_def Let_def f_def since_def by metis
  qed
  ultimately have "deferJob now' runAt gate entry t1 = (Inr (f entry), sqlSet (\<lambda>j. job_id j = job_id entry) f t1)"
    by (simp add: dtoUpdate_def checked_def)
  moreover have "deferral (f entry) = Some (gate, case deferral c of
      Some (g, since) \<Rightarrow> if g = gate then since else now' | None \<Rightarrow> now')"
    by (auto simp: f_def deferral_def since_def split: option.splits)
  moreover have "job_id (f entry) = job_id c" "job_status (f entry) = Queued" "job_attempts (f entry) = job_attempts c"
      "job_runAt (f entry) = runAt" "job_dedupeKey (f entry) = None"
    by (simp_all add: f_def entry CLEARED_STAGE_def)
  ultimately show ?thesis using Some(1) t2 by blast
qed simp

theorem claim_then_defer_witness:
  "\<exists>entry t1 e t2. claimNext 5 6 [] [sampleRow ''a'' (Some ''k'') None False] = (Some entry, t1) \<and>
     deferJob 7 99 StatusChecks entry t1 = (Inr e, t2) \<and> job_attempts e = 0 \<and> t2 = [e]"
proof -
  let ?r = "sampleRow ''a'' (Some ''k'') None False"
  have ok: "constraintsOk [?r]" by (simp add: constraintsOk_def noPair_def)
  obtain e t' where e: "claimNext 5 6 [] [?r] = (Some e, t')"
    by (simp add: claim_defs Let_def sample_defs)
  have "job_attempts ?r = 0" by (simp add: sample_defs)
  then show ?thesis
    using claim_then_defer[OF ok e, of 7 99 StatusChecks] e by auto
qed

text \<open>
  The stale marker and the stalled-executions query agree: a job is stale exactly when the
  query for two minutes ago lists it, or when it is executing and reported no progress for a
  quarter of an hour.
\<close>

theorem isStaleJob_iff_listed:
  "isStaleJob j now \<longleftrightarrow>
     listStalledExecutions (now - STALE_JOB_MS) [j] = [j] \<or>
     (job_status j = Running \<and> job_stage j = Some Execute \<and>
      (\<exists>p. job_progressAt j = Some p \<and> p < now - STALE_PROGRESS_MS))"
  by (auto simp: isStaleJob_def listStalledExecutions_def Let_def split: option.splits)

text \<open>
  A spec handed to the Go worker comes back: after \<open>handOff\<close> succeeds, the job's row in the
  table and the returned entry both decrypt to the spec, for a cipher whose decryption inverts its
  encryption and never yields the empty string.
\<close>

theorem handOff_roundtrip:
  assumes "dec (enc spec) = Some spec" and "enc spec \<noteq> []"
    and "constraintsOk t" and "entry \<in> set t"
  shows "\<exists>e t'. handOff enc spec entry t = (Inr e, t') \<and> decryptSpec dec e = Some spec \<and>
     getJob (job_id entry) t' = Some e \<and> job_stage e = Some Execute \<and> job_workerId e = None"
proof -
  let ?f = "\<lambda>j. (CLEARED_STAGE j)\<lparr>job_spec := Some (enc spec), job_stage := Some Execute\<rparr>"
  let ?t = "sqlSet (\<lambda>j. job_id j = job_id entry) ?f t"
  have ok: "constraintsOk ?t"
    by (rule constraintsOk_sqlSet[OF assms(3)]) (simp add: queuesNone_def CLEARED_STAGE_def)
  then have r: "handOff enc spec entry t = (Inr (?f entry), ?t)"
    by (simp add: handOff_def dtoUpdate_def checked_def)
  have "?f entry \<in> set ?t" using assms(4) by (force simp: set_sqlSet)
  moreover have "job_id (?f entry) = job_id entry" by (simp add: CLEARED_STAGE_def)
  ultimately have "getJob (job_id entry) ?t = Some (?f entry)"
    using ok find_id_eq[of ?t "?f entry"] by (simp add: constraintsOk_def)
  with r show ?thesis using assms(1,2) by (auto simp: decryptSpec_def CLEARED_STAGE_def)
qed

fun sampleEnc :: "json \<Rightarrow> string" where
  "sampleEnc (JStr s) = CHR ''s'' # s"
| "sampleEnc _ = ''?''"

fun sampleDec :: "string \<Rightarrow> json option" where
  "sampleDec (c # s) = (if c = CHR ''s'' then Some (JStr s) else None)"
| "sampleDec [] = None"

theorem handOff_roundtrip_witness:
  "\<exists>e t'. handOff sampleEnc (JStr ''spec'') (runningRow ''a'' 1 None) [runningRow ''a'' 1 None] = (Inr e, t') \<and>
     decryptSpec sampleDec e = Some (JStr ''spec'')"
  using handOff_roundtrip[of sampleDec sampleEnc "JStr ''spec''" "[runningRow ''a'' 1 None]" "runningRow ''a'' 1 None"]
  by (auto simp: constraintsOk_def noPair_def)

text \<open>
  An instance method does not look at the row's current status: a job cancelled while the app
  still works on its copy goes back to the queue when the app schedules a retry of that copy,
  unless a queued twin holds its dedupe key, and is recorded as succeeded when the app marks the
  copy so.
\<close>

theorem stale_entry_revives_cancelled:
  assumes "constraintsOk t" and "j \<in> set t" and "job_status j = Cancelled" and "job_id entry = job_id j"
    and "job_dedupeKey j = None \<or> findQueued (job_type j) (the (job_dedupeKey j)) t = None"
  shows "(\<exists>j' e t'. scheduleRetry err runAt entry t = (Inr e, t') \<and> getJob (job_id j) t' = Some j' \<and>
            job_status j' = Queued \<and> job_runAt j' = runAt) \<and>
         (\<exists>j' e t'. markSucceeded now result entry t = (Inr e, t') \<and> getJob (job_id j) t' = Some j' \<and>
            job_status j' = Succeeded)"
proof -
  let ?p = "\<lambda>j. job_id j = job_id entry"
  let ?f = "\<lambda>j. (CLEARED_STAGE j)\<lparr>job_error := Some err, job_runAt := runAt, job_startedAt := None, job_status := Queued\<rparr>"
  let ?g = "\<lambda>j. j\<lparr>job_finishedAt := Some now, job_result := result, job_spec := None,
                      job_stage := None, job_status := Succeeded\<rparr>"
  have same: "k = j" if "k \<in> set t" "job_id k = job_id entry" for k
    using assms that by (auto simp: constraintsOk_def distinct_map inj_on_def)
  have clean: "\<not> dedupeConflict (?f j) k" if "k \<in> set t" "job_id k \<noteq> job_id entry" for k
    using assms(5) that by (cases "job_dedupeKey j")
      (auto simp: dedupeConflict_def CLEARED_STAGE_def findQueued_def find_None_iff)
  have "noPair dedupeConflict (sqlSet ?p ?f t)"
    by (rule noPair_start[where c = j])
      (use assms(1) dedupeConflict_sym clean same in \<open>auto simp: constraintsOk_def CLEARED_STAGE_def\<close>)
  moreover have "map job_id (sqlSet ?p ?f t) = map job_id t"
    by (rule ids_sqlSet) (simp add: CLEARED_STAGE_def)
  ultimately have okf: "constraintsOk (sqlSet ?p ?f t)" using assms(1) by (simp add: constraintsOk_def)
  have okg: "constraintsOk (sqlSet ?p ?g t)"
    by (rule constraintsOk_sqlSet[OF assms(1)]) (simp add: queuesNone_def)
  have got: "getJob (job_id j) (sqlSet ?p h t) = Some (h j)"
    if "constraintsOk (sqlSet ?p h t)" "job_id (h j) = job_id j" for h
  proof -
    have "h j \<in> set (sqlSet ?p h t)" using assms(2,4) by (force simp: set_sqlSet)
    with find_id_eq[of "sqlSet ?p h t" "h j"] that show ?thesis by (simp add: constraintsOk_def)
  qed
  have "scheduleRetry err runAt entry t = (Inr (?f entry), sqlSet ?p ?f t)"
    using okf by (simp add: scheduleRetry_def dtoUpdate_def checked_def)
  moreover have "markSucceeded now result entry t = (Inr (?g entry), sqlSet ?p ?g t)"
    using okg by (simp add: markSucceeded_def dtoUpdate_def checked_def)
  ultimately show ?thesis
    using got[OF okf] got[OF okg] by (simp add: CLEARED_STAGE_def)
qed

theorem stale_entry_revives_cancelled_witness:
  "\<exists>j' e t'. scheduleRetry ''boom'' 99 (runningRow ''a'' 1 None)
       (snd (cancel (\<lambda>_. 5) 5 ''a'' ''stop'' [runningRow ''a'' 1 None])) = (Inr e, t') \<and>
     getJob ''a'' t' = Some j' \<and> job_status j' = Queued"
proof -
  let ?j = "cancelRow ''stop'' 5 (CLEARED_STAGE (runningRow ''a'' 1 None))"
  have t: "snd (cancel (\<lambda>_. 5) 5 ''a'' ''stop'' [runningRow ''a'' 1 None]) = [?j]"
    by (simp add: cancel_def cancelDependents_def cancelLevels_step Let_def sqlSet_def ACTIVE_def
        dependsOnAny_def runningRow_def sample_defs cancelRow_def CLEARED_STAGE_def)
  have "constraintsOk [?j]" by (simp add: constraintsOk_def noPair_def)
  moreover have "job_status ?j = Cancelled" "job_id ?j = ''a''" "job_id (runningRow ''a'' 1 None) = ''a''"
    by (simp_all add: cancelRow_def CLEARED_STAGE_def runningRow_def sample_defs)
  moreover have "findQueued (job_type ?j) (the (job_dedupeKey ?j)) [?j] = None"
    by (simp add: findQueued_def cancelRow_def)
  ultimately show ?thesis
    using stale_entry_revives_cancelled[of "[?j]" ?j "runningRow ''a'' 1 None" "''boom''" 99 0 None] unfolding t
    by simp blast
qed

text \<open>
  Orphan recovery can fail for good: a table the queue's own operations reach, in which two
  running jobs of one type and dedupe key carry one creation time, makes \<open>requeueOrphaned\<close> raise
  the unique violation every time it runs.
\<close>

theorem requeueOrphaned_tie_fails:
  "\<exists>t. queue_reachable t \<and> orphanTie [] t \<and> fst (requeueOrphaned [] now t) = Inl UniqueViolation \<and>
     fst (requeueOrphaned [] now' (snd (requeueOrphaned [] now t))) = Inl UniqueViolation"
proof -
  let ?i = "sampleInput NotificationDelivery (Some ''k'') None None False"
  let ?c = "\<lambda>t. snd (claimNext 5 6 [] t)"
  let ?t1 = "?c (snd (create ''a'' 0 False 0 ?i []))"
  let ?t = "?c (snd (create ''b'' 0 False 0 ?i ?t1))"
  let ?r = "\<lambda>i. (newRow i 0 ?i)\<lparr>job_attempts := 1, job_startedAt := Some 6, job_status := Running\<rparr>"
  have r: "queue_reachable ?t"
    by (intro queue_reachable.one_step[OF _ queue_step.claim_next]
        queue_reachable.one_step[OF _ queue_step.create_job] queue_reachable.empty_table)
  have t1: "?t1 = [?r ''a'']"
    by (simp add: create_def claim_defs Let_def sample_defs)
  have t: "?t = [?r ''a'', ?r ''b'']"
    unfolding t1 by (simp add: create_def claim_defs Let_def sample_defs dedupeConflict_def)
  have tie: "orphanTie [] ?t"
    unfolding t by (simp add: orphanTie_def orphaned_def sample_defs)
  have step: "requeueOrphaned [] n [?r ''a'', ?r ''b''] = (Inl UniqueViolation, [?r ''a'', ?r ''b''])" for n
    by (simp add: requeueOrphaned_def Let_def sqlSet_def orphaned_def supersededBy_def checked_def constraintsOk_def
        noPair_def dedupeConflict_def sample_defs CLEARED_STAGE_def)
  show ?thesis by (rule exI[of _ ?t]) (use r tie step in \<open>simp add: t\<close>)
qed

end
