(* ===== verification/Worker_Theorems.thy ===== *)
theory Worker_Theorems
  imports Worker_Laws Job_Theorems
begin

text \<open>
  The properties of the job worker and of the queue service: nothing is run twice at once, the claim
  loops end and leave nothing claimable behind, what happens to a failed job, when the bookkeeping
  itself fails, and what enqueueing and waiting return.
\<close>


definition bootState :: "table \<Rightarrow> qsys" where
  "bootState t = \<lparr>qs_worker = freshWorker, qs_table = t, qs_deployments = [], qs_synced = [], qs_running = [], qs_finalizing = []\<rparr>"


text \<open>
  The pump ends; the ids in flight stay within the limit (or where they were, if finalizing
  jobs already exceed it); each claimed entry is added to both; and when it stops, the worker is
  held, at capacity, or \<open>claimNext\<close> finds nothing in the table it leaves.
\<close>

theorem pump_spec:
  "let s' = pump clock locks s; w = qs_worker s' in
     length (w_inFlight w) \<le> max (length (w_inFlight (qs_worker s))) MAX_CONCURRENT_JOBS \<and>
     (\<exists>es. qs_running s' = qs_running s @ es \<and> set (w_inFlight w) = set (w_inFlight (qs_worker s)) \<union> job_id ` set es) \<and>
     (w_held w \<or> length (w_inFlight w) \<ge> MAX_CONCURRENT_JOBS \<or>
      (\<exists>n. claimNext (clock n) (clock n) (locks n) (qs_table s') = (None, qs_table s')))"
proof -
  obtain es fl t where l: "claimLoop (Suc (length (filter isQueued (qs_table s))))
            (\<lambda>n. claimNext (clock n) (clock n) (locks n)) (atCapacity (qs_worker s)) 0
            (w_inFlight (qs_worker s)) (qs_table s) = (es, fl, t)" by (metis prod_cases3)
  have "length fl \<le> max (length (w_inFlight (qs_worker s))) MAX_CONCURRENT_JOBS"
    by (rule queued.loop_capacity[OF l]) (simp add: atCapacity_def)
  moreover have "atCapacity (qs_worker s) fl \<or> (\<exists>n. claimNext (clock n) (clock n) (locks n) t = (None, t))"
    by (rule queued.loop_exhausts[OF l]) simp
  moreover have "set fl = set (w_inFlight (qs_worker s)) \<union> job_id ` set es" by (rule queued.loop_flight[OF l])
  moreover have "pump clock locks s = s\<lparr>qs_worker := (qs_worker s)\<lparr>w_inFlight := fl\<rparr>, qs_table := t,
      qs_running := qs_running s @ es\<rparr>" unfolding pump_def pumpTurns_def l by simp
  ultimately show ?thesis by (auto simp: Let_def atCapacity_def)
qed

text \<open>
  Finalizing ends and picks up every job the Go worker has finished: afterwards a running job
  in the \<open>finalize\<close> stage is one another transaction has locked, and every row it moved is in
  flight.
\<close>

theorem finalizeExecuted_spec:
  "let s' = finalizeExecuted locks s in
     (\<exists>n. filter (\<lambda>j. isExecuted j \<and> job_id j \<notin> set (locks n)) (qs_table s') = []) \<and>
     (\<exists>es. qs_finalizing s' = qs_finalizing s @ es \<and>
        set (w_inFlight (qs_worker s')) = set (w_inFlight (qs_worker s)) \<union> job_id ` set es)"
proof -
  obtain es fl t where l: "claimLoop (Suc (length (filter isExecuted (qs_table s))))
            (\<lambda>n. claimFinalize (locks n)) (\<lambda>_. False) 0
            (w_inFlight (qs_worker s)) (qs_table s) = (es, fl, t)" by (metis prod_cases3)
  have "False \<or> (\<exists>n. claimFinalize (locks n) t = (None, t))"
    by (rule executed.loop_exhausts[OF l]) simp
  then obtain n where "claimFinalize (locks n) t = (None, t)" by blast
  then have "filter (\<lambda>j. isExecuted j \<and> job_id j \<notin> set (locks n)) t = []"
    by (cases rule: claimFinalize_cases) (auto simp: filter_empty_conv)
  moreover have "set fl = set (w_inFlight (qs_worker s)) \<union> job_id ` set es" by (rule executed.loop_flight[OF l])
  moreover have "finalizeExecuted locks s = s\<lparr>qs_worker := (qs_worker s)\<lparr>w_inFlight := fl\<rparr>, qs_table := t,
      qs_finalizing := qs_finalizing s @ es\<rparr>" unfolding finalizeExecuted_def finalizeTurns_def l by simp
  ultimately show ?thesis by auto
qed

definition twinQueued :: "table \<Rightarrow> job \<Rightarrow> bool" where
  "twinQueued t j \<longleftrightarrow> job_dedupeKey j \<noteq> None \<and>
     list_ex (\<lambda>k. job_id k \<noteq> job_id j \<and> job_status k = Queued \<and> job_type k = job_type j \<and>
       job_dedupeKey k = job_dedupeKey j) t"

lemma requeue_ok_iff:
  assumes ok: "constraintsOk t" and j: "j \<in> set t" "job_id j = i"
    and f: "\<And>k. job_id (f k) = job_id k \<and> job_type (f k) = job_type k \<and> job_dedupeKey (f k) = job_dedupeKey k \<and>
       job_status (f k) = Queued"
  shows "constraintsOk (sqlSet (\<lambda>k. job_id k = i) f t) \<longleftrightarrow> \<not> twinQueued t j"
proof -
  have same: "k = j" if "k \<in> set t" "job_id k = i" for k
    using ok j that by (auto simp: constraintsOk_def distinct_map inj_on_def)
  have "distinct (map job_id (sqlSet (\<lambda>k. job_id k = i) f t))"
    using ok f ids_sqlSet[of t "\<lambda>k. job_id k = i" f] by (simp add: constraintsOk_def)
  moreover have "noPair dedupeConflict (sqlSet (\<lambda>k. job_id k = i) f t)" if "\<not> twinQueued t j"
  proof (rule noPair_start[where c = j and f = f])
    show "\<not> dedupeConflict (f j) b" if b: "b \<in> set t" "job_id b \<noteq> i" for b
      using \<open>\<not> twinQueued t j\<close> b j f[of j] unfolding twinQueued_def dedupeConflict_def list_ex_iff by metis
    show "f k = f j" if "k \<in> set t" "job_id k = i" for k using same[OF that] by simp
    show "noPair dedupeConflict t" using ok by (simp add: constraintsOk_def)
    show "dedupeConflict b a" if "dedupeConflict a b" for a b using that dedupeConflict_sym by blast
  qed (simp add: f)
  moreover have "\<not> noPair dedupeConflict (sqlSet (\<lambda>k. job_id k = i) f t)" if tw: "twinQueued t j"
  proof
    assume np: "noPair dedupeConflict (sqlSet (\<lambda>k. job_id k = i) f t)"
    from tw obtain k where k: "k \<in> set t" "job_id k \<noteq> job_id j" "dedupeConflict (f j) k"
      using f[of j] unfolding twinQueued_def dedupeConflict_def list_ex_iff by metis
    have "f j \<in> set (sqlSet (\<lambda>k. job_id k = i) f t)" using j by (force simp: set_sqlSet)
    moreover have "k \<in> set (sqlSet (\<lambda>k. job_id k = i) f t)" using k(1,2) j(2) by (force simp: set_sqlSet)
    ultimately have "job_id (f j) = job_id k" using noPairD[OF np] k(3) by blast
    with k(2) f show False by simp
  qed
  ultimately show ?thesis by (auto simp: constraintsOk_def)
qed

lemma update_succeeds:
  assumes "constraintsOk t" and "\<And>k. queuesNone k (f k)"
  shows "dtoUpdate f entry t = (Inr (f entry), map (\<lambda>k. if job_id k = job_id entry then f k else k) t)"
  using constraintsOk_sqlSet[OF assms(1), of _ f] assms(2) by (simp add: dtoUpdate_def checked_def sqlSet_def)

definition retryRow :: "string \<Rightarrow> timestamp \<Rightarrow> job \<Rightarrow> job" where
  "retryRow message runAt k = (CLEARED_STAGE k)\<lparr>job_error := Some message, job_runAt := runAt,
     job_startedAt := None, job_status := Queued\<rparr>"

definition failedRow :: "string \<Rightarrow> timestamp \<Rightarrow> job \<Rightarrow> job" where
  "failedRow message now k = k\<lparr>job_error := Some message, job_finishedAt := Some now, job_spec := None,
     job_stage := None, job_status := Failed\<rparr>"

lemma scheduleRetry_eq:
  assumes "constraintsOk t" and "j \<in> set t" and "job_id j = job_id entry"
  shows "scheduleRetry message runAt entry t =
    (if twinQueued t j then (Inl UniqueViolation, t)
     else (Inr (retryRow message runAt entry),
           map (\<lambda>k. if job_id k = job_id entry then retryRow message runAt k else k) t))"
proof -
  have "constraintsOk (sqlSet (\<lambda>k. job_id k = job_id entry) (retryRow message runAt) t) \<longleftrightarrow> \<not> twinQueued t j"
    by (rule requeue_ok_iff[OF assms]) (simp add: retryRow_def CLEARED_STAGE_def)
  then show ?thesis
    unfolding scheduleRetry_def dtoUpdate_def checked_def retryRow_def[symmetric] by (simp add: sqlSet_def)
qed

text \<open>
  A failed job with attempts left is queued again after ten seconds doubled per attempt, with
  its stage cleared, unless a twin with its dedupe key was queued meanwhile: then the update
  violates the index and the table stays as it is. Without attempts left its row is failed with the
  message and every job waiting on it, directly or not, is cancelled with a reason naming it.
\<close>

theorem recordFailure_spec:
  assumes ok: "constraintsOk (qs_table s)" and j: "j \<in> set (qs_table s)" and i: "job_id j = job_id entry"
    and r: "recordFailure now clock entry message s = (e, s')"
  shows "if int (job_attempts entry) < job_maxAttempts entry then
           (if twinQueued (qs_table s) j then e = Some UniqueViolation \<and> qs_table s' = qs_table s
            else e = None \<and> qs_table s' = map (\<lambda>k. if job_id k = job_id entry
                then retryRow message (now + 10000 * 2 ^ job_attempts entry) k else k) (qs_table s))
         else e = None \<and>
           (\<exists>ended. let t = map (\<lambda>k. if job_id k = job_id entry then failedRow message now k else k) (qs_table s) in
             qs_table s' = map (\<lambda>k. if dependentOf t (job_id entry) k
               then cancelRow (''Cancelled because \"'' @ job_title entry @ ''\" failed.'') (ended k) k else k) t)"
proof (cases "int (job_attempts entry) < job_maxAttempts entry")
  case True
  with r show ?thesis
    by (auto simp: recordFailure_def scheduleRetry_eq[OF ok j i] RETRY_BASE_MS_def split: if_splits)
next
  case False
  let ?t = "map (\<lambda>k. if job_id k = job_id entry then failedRow message now k else k) (qs_table s)"
  let ?reason = "''Cancelled because \"'' @ job_title entry @ ''\" failed.''"
  have "markFailed now message entry (qs_table s) = (Inr (failedRow message now entry), ?t)"
    unfolding markFailed_def failedRow_def[symmetric]
    by (rule update_succeeds[OF ok]) (simp add: failedRow_def queuesNone_def)
  then have e: "e = None" "qs_table s' = snd (cancelDependents clock (job_id entry) ?reason ?t)"
    using r False by (auto simp: recordFailure_def Let_def split: prod.splits)
  obtain ended where "snd (cancelDependents clock (job_id entry) ?reason ?t) =
       map (\<lambda>j. if dependentOf ?t (job_id entry) j then cancelRow ?reason (ended j) j else j) ?t"
    using cancelDependents_rows by blast
  with e False show ?thesis unfolding Let_def by auto
qed


definition failingRow :: "string \<Rightarrow> JobStatus \<Rightarrow> job" where
  "failingRow i st = (newRow i 0 \<lparr>in_dedupeKey = Some ''k'', in_dependsOnJobId = None, in_exclusive = None,
     in_lockKey = None, in_maxAttempts = Some 2, in_payload = [], in_priority = None, in_runAt = None,
     in_serviceId = None, in_title = ''sample'', in_type = PipelineSync, in_userId = ''u''\<rparr>)\<lparr>job_status := st, job_attempts := 1\<rparr>"

theorem recordFailure_spec_witness:
  "\<exists>s'. recordFailure 100 (\<lambda>_. 0) (failingRow ''a'' Running) ''boom'' (bootState [failingRow ''a'' Running]) = (None, s') \<and>
     map job_runAt (qs_table s') = [20100]"
proof -
  let ?j = "failingRow ''a'' Running"
  obtain e s' where r: "recordFailure 100 (\<lambda>_. 0) ?j ''boom'' (bootState [?j]) = (e, s')" by fastforce
  have ok: "constraintsOk (qs_table (bootState [?j]))" by (simp add: bootState_def constraintsOk_def noPair_def)
  have "\<not> twinQueued [?j] ?j" by (simp add: twinQueued_def)
  moreover have "int (job_attempts ?j) < job_maxAttempts ?j" "job_attempts ?j = 1"
    by (simp_all add: failingRow_def newRow_def)
  ultimately show ?thesis
    using recordFailure_spec[OF ok _ refl r, unfolded bootState_def, simplified] r
    by (simp add: bootState_def retryRow_def)
qed

text \<open>The first bookkeeping of an outcome that is not a value.\<close>

lemma deferJob_succeeds: "constraintsOk t \<Longrightarrow> \<exists>e t'. deferJob now runAt gate entry t = (Inr e, t')"
  unfolding deferJob_def Let_def by (subst update_succeeds) (simp_all add: queuesNone_def CLEARED_STAGE_def)

lemma recordFailure_error_iff:
  assumes "constraintsOk (qs_table s)" and "j \<in> set (qs_table s)" and "job_id j = job_id entry"
  shows "fst (recordFailure now clock entry message s) \<noteq> None \<longleftrightarrow>
     int (job_attempts entry) < job_maxAttempts entry \<and> twinQueued (qs_table s) j"
proof -
  have m: "\<exists>x t. markFailed now message entry (qs_table s) = (Inr x, t)"
    unfolding markFailed_def by (subst update_succeeds[OF assms(1)]) (simp_all add: queuesNone_def)
  then show ?thesis
    by (auto simp: recordFailure_def scheduleRetry_eq[OF assms] Let_def split: prod.split)
qed

lemma settleError_error_iff:
  assumes "constraintsOk (qs_table s)" and "j \<in> set (qs_table s)" and "job_id j = job_id entry"
  shows "fst (settleError now clock entry err s) \<noteq> None \<longleftrightarrow>
     int (job_attempts entry) < job_maxAttempts entry \<and> twinQueued (qs_table s) j \<and> (\<exists>m. err = ThrewError m)"
proof (cases err)
  case (Returned x)
  then show ?thesis by (simp add: settleError_def)
next
  case (DeferredError m gate runAt)
  obtain e t where "deferJob now runAt gate entry (qs_table s) = (Inr e, t)"
    using deferJob_succeeds[OF assms(1)] by blast
  with DeferredError show ?thesis by (simp add: settleError_def)
next
  case (ThrewError m)
  then show ?thesis
    using recordFailure_error_iff[OF assms, of now clock m] by (simp add: settleError_def del: not_None_eq)
qed

lemma twinQueued_map:
  fixes g :: "job \<Rightarrow> job"
  assumes "\<And>k. job_id (g k) = job_id k" "\<And>k. job_status (g k) = job_status k" "\<And>k. job_type (g k) = job_type k"
    "\<And>k. job_dedupeKey (g k) = job_dedupeKey k"
  shows "twinQueued (map g t) (g j) \<longleftrightarrow> twinQueued t j"
  by (simp add: twinQueued_def list_ex_iff assms)

lemma stamp_facts:
  assumes "constraintsOk t" and "j \<in> set t"
  shows "constraintsOk (stampWorkerVersion i v t)"
    "\<exists>j' \<in> set (stampWorkerVersion i v t). job_id j' = job_id j \<and> twinQueued (stampWorkerVersion i v t) j' = twinQueued t j"
proof -
  define g :: "job \<Rightarrow> job" where "g = (\<lambda>k. if job_id k = i then k\<lparr>job_workerVersion := Some v\<rparr> else k)"
  show "constraintsOk (stampWorkerVersion i v t)"
    unfolding stampWorkerVersion_def by (rule constraintsOk_sqlSet[OF assms(1)]) (simp add: queuesNone_def)
  have t: "stampWorkerVersion i v t = map g t" by (simp add: stampWorkerVersion_def sqlSet_def g_def)
  have "twinQueued (map g t) (g j) = twinQueued t j" by (rule twinQueued_map) (simp_all add: g_def)
  moreover have "g j \<in> set (map g t)" "job_id (g j) = job_id j" using assms(2) by (auto simp: g_def)
  ultimately show "\<exists>j' \<in> set (stampWorkerVersion i v t). job_id j' = job_id j \<and>
      twinQueued (stampWorkerVersion i v t) j' = twinQueued t j" unfolding t by blast
qed

lemma dispatch_total: "workerJobs ty \<noteq> jobHandlers ty"
  by (cases ty) (simp_all add: jobHandlers_def)

text \<open>
  C8. Every job type has exactly one executor, and the bookkeeping of a run fails in one case only:
  the run threw, has attempts left, and a twin took its dedupe key in the queue meanwhile. Handing
  over, succeeding and deferring always go through.
\<close>

theorem runJob_fails_iff:
  assumes ok: "constraintsOk (qs_table s)" and j: "j \<in> set (qs_table s)" "job_id j = job_id entry"
  shows "fst (runJob h now clock entry s) \<noteq> None \<longleftrightarrow>
     int (job_attempts entry) < job_maxAttempts entry \<and> twinQueued (qs_table s) j \<and>
     (if workerJobs (job_type entry) then \<exists>m. h_prepare h entry = ThrewError m
      else \<exists>m. h_handler h entry = ThrewError m)"
proof (cases "workerJobs (job_type entry)")
  case True
  have "\<exists>x t. handOff (h_enc h) spec entry (qs_table s) = (Inr x, t)" for spec
    unfolding handOff_def by (subst update_succeeds[OF ok]) (simp_all add: queuesNone_def CLEARED_STAGE_def)
  note off = this
  show ?thesis
  proof (cases "h_prepare h entry")
    case (Returned spec)
    with True off[of spec] show ?thesis by (auto simp: runJob_def)
  qed (use True settleError_error_iff[OF ok j, of now clock "h_prepare h entry"] in \<open>simp_all add: runJob_def\<close>)
next
  case False
  then have handler: "jobHandlers (job_type entry)" using dispatch_total by blast
  define s1 where "s1 = s\<lparr>qs_table := stampWorkerVersion (job_id entry) (h_version h) (qs_table s)\<rparr>"
  have ok1: "constraintsOk (qs_table s1)" using stamp_facts(1)[OF ok j(1)] by (simp add: s1_def)
  obtain j' where j': "j' \<in> set (qs_table s1)" "job_id j' = job_id entry" "twinQueued (qs_table s1) j' = twinQueued (qs_table s) j"
    using stamp_facts(2)[OF ok j(1)] j(2) by (auto simp: s1_def)
  have "\<exists>x t. markSucceeded now result entry (qs_table s1) = (Inr x, t)" for result
    unfolding markSucceeded_def by (subst update_succeeds[OF ok1]) (simp_all add: queuesNone_def)
  note succ = this
  show ?thesis
  proof (cases "h_handler h entry")
    case (Returned result)
    with False handler succ[of result] show ?thesis by (auto simp: runJob_def Let_def s1_def)
  qed (use False handler settleError_error_iff[OF ok1 j'(1,2), of now clock "h_handler h entry"] j'(3)
       in \<open>simp_all add: runJob_def s1_def\<close>)
qed

definition throwingHooks :: hooks where
  "throwingHooks = \<lparr>h_prepare = (\<lambda>_. ThrewError ''boom''), h_finalize = (\<lambda>_. ThrewError ''boom''),
     h_handler = (\<lambda>_. ThrewError ''boom''), h_enc = (\<lambda>_. ''x''), h_version = ''1'', h_dbMessage = (\<lambda>_. ''db'')\<rparr>"

theorem runJob_fails_iff_witness:
  "fst (runJob throwingHooks 1 (\<lambda>_. 1) (failingRow ''a'' Running)
     (bootState [failingRow ''a'' Running, failingRow ''b'' Queued])) \<noteq> None"
proof -
  let ?s = "bootState [failingRow ''a'' Running, failingRow ''b'' Queued]"
  have "constraintsOk (qs_table ?s)" "twinQueued (qs_table ?s) (failingRow ''a'' Running)"
    "job_type (failingRow ''a'' Running) = PipelineSync"
    "int (job_attempts (failingRow ''a'' Running)) < job_maxAttempts (failingRow ''a'' Running)"
    by (simp_all add: bootState_def constraintsOk_def noPair_def twinQueued_def dedupeConflict_def
        failingRow_def newRow_def)
  moreover have "failingRow ''a'' Running \<in> set (qs_table ?s)" by (simp add: bootState_def)
  ultimately show ?thesis
    using runJob_fails_iff[of ?s "failingRow ''a'' Running" "failingRow ''a'' Running" throwingHooks 1 "\<lambda>_. 1"]
    by (simp add: throwingHooks_def)
qed

lemma create_inserts:
  assumes "constraintsOk t" and "uuid \<notin> job_id ` set t" and "\<not> list_ex (\<lambda>j. dedupeConflict j (newRow uuid now input)) t"
  obtains t' where "create uuid now p pa input t = (Some (newRow uuid now input), t')"
    "getJob uuid t' = Some (newRow uuid now input)"
proof -
  let ?row = "newRow uuid now input"
  have row: "job_id ?row = uuid" "job_status ?row = Queued" by (simp_all add: newRow_def)
  have free: "\<not> list_ex (\<lambda>j. job_id j = job_id ?row \<or> dedupeConflict j ?row) t"
    using assms(2,3) row(1) by (auto simp: list_ex_iff)
  let ?t = "if p then prune pa (t @ [?row]) else t @ [?row]"
  have ok: "constraintsOk ?t" using constraintsOk_snoc[OF assms(1) free] constraintsOk_prune by simp
  have "?row \<in> set ?t" using prune_keeps_queued[OF row(2)] by simp
  with ok row(1) have "getJob uuid ?t = Some ?row" using find_id_eq[of ?t ?row] by (simp add: constraintsOk_def)
  moreover have "create uuid now p pa input t = (Some ?row, ?t)"
    using free row(1) by (simp add: create_def Let_def)
  ultimately show ?thesis using that by blast
qed

lemma findQueued_row:
  assumes "findQueued ty k t = Some j" and "constraintsOk t"
  shows "getJob (job_id j) t = Some j \<and> job_status j = Queued \<and> job_type j = ty \<and> job_dedupeKey j = Some k"
  using assms find_id_eq[of t j] by (auto simp: findQueued_def find_Some_iff constraintsOk_def)

text \<open>
  Enqueueing returns a queued job that is in the table under its id, of the requested type and
  dedupe key: the one already queued, the one it created, or the one a concurrent caller inserted
  between its lookup and its insert. It never gives up, given a fresh id and a key that is not the
  empty string.
\<close>

theorem enqueue_returns_queued:
  assumes ok: "constraintsOk t" "constraintsOk (race t)" and new: "uuid \<notin> job_id ` set (race t)"
    and key: "in_dedupeKey input \<noteq> Some []"
  shows "\<exists>j t'. enqueue uuid now p pa race (\<lambda>u. u) input t = (Inr j, t') \<and> getJob (job_id j) t' = Some j \<and>
     job_status j = Queued \<and> job_type j = in_type input \<and> job_dedupeKey j = in_dedupeKey input"
proof -
  let ?look = "\<lambda>u. case in_dedupeKey input of None \<Rightarrow> None
                | Some k \<Rightarrow> if k = [] then None else findQueued (in_type input) k u"
  have row: "getJob (job_id j) u = Some j \<and> job_status j = Queued \<and> job_type j = in_type input \<and>
      job_dedupeKey j = in_dedupeKey input" if "?look u = Some j" "constraintsOk u" for j u
    using that findQueued_row by (auto split: option.splits if_splits)
  show ?thesis
  proof (cases "?look t")
    case (Some j)
    then show ?thesis using row[OF Some ok(1)] by (simp add: enqueue_def Let_def)
  next
    case None
    show ?thesis
    proof (cases "list_ex (\<lambda>j. dedupeConflict j (newRow uuid now input)) (race t)")
      case False
      from create_inserts[OF ok(2) new False] obtain t' where
        "create uuid now p pa input (race t) = (Some (newRow uuid now input), t')"
        "getJob uuid t' = Some (newRow uuid now input)" .
      with None show ?thesis by (simp add: enqueue_def Let_def newRow_def)
    next
      case True
      then obtain j where j: "j \<in> set (race t)" "dedupeConflict j (newRow uuid now input)" by (auto simp: list_ex_iff)
      then obtain k where k: "in_dedupeKey input = Some k" "job_dedupeKey j = Some k" "job_type j = in_type input"
          "job_status j = Queued"
        by (cases "in_dedupeKey input") (auto simp: dedupeConflict_def newRow_def)
      let ?u = "if p then prune pa (race t) else race t"
      have c: "create uuid now p pa input (race t) = (None, ?u)"
        using j by (auto simp: create_def Let_def list_ex_iff)
      have u: "constraintsOk ?u" "j \<in> set ?u"
        using ok(2) j(1) k(4) constraintsOk_prune prune_keeps_queued by auto
      have "?look ?u = Some j" using find_queued_eq[OF u k(4) k(2)] k(1,3) key by simp
      with None c row[OF this u(1)] show ?thesis by (simp add: enqueue_def Let_def)
    qed
  qed
qed

theorem enqueue_returns_queued_witness:
  "\<exists>j t'. enqueue ''b'' 1 False 1 (\<lambda>u. u @ [sampleRow ''a'' (Some ''k'') None False]) (\<lambda>u. u)
     (sampleInput Deploy (Some ''k'') None None False) [] = (Inr j, t') \<and> job_id j = ''a''"
proof -
  let ?race = "\<lambda>u. u @ [sampleRow ''a'' (Some ''k'') None False]"
  let ?in = "sampleInput Deploy (Some ''k'') None None False"
  have a: "constraintsOk []" "constraintsOk (?race [])" "''b'' \<notin> job_id ` set (?race [])"
      "in_dedupeKey ?in \<noteq> Some []"
    by (simp_all add: constraintsOk_def noPair_def sample_defs)
  have "snd (enqueue ''b'' 1 False 1 ?race (\<lambda>u. u) ?in []) = ?race []"
    by (simp add: enqueue_def Let_def create_def findQueued_def dedupeConflict_def sample_defs)
  with enqueue_returns_queued[of "[]" ?race "''b''" ?in 1 False 1] a show ?thesis
    by (auto simp: getJob_def sampleRow_def newRow_def split: if_splits)
qed

lemma waitLoop_returns:
  assumes "clock m > deadline" and "n + fuel = Suc m" and "0 < fuel"
  shows "\<exists>r. waitLoop fuel reads clock deadline i n = Some r \<and>
     (\<forall>j. r = Ended j \<longrightarrow> job_status j \<in> set TERMINAL_STATUSES \<and> (\<exists>k \<le> m. getJob i (reads k) = Some j))"
  using assms(2,3)
proof (induction fuel arbitrary: n)
  case (Suc fuel)
  show ?case
  proof (cases "fuel = 0")
    case True
    with Suc.prems assms(1) show ?thesis by (auto split: option.split)
  next
    case False
    with Suc.IH[of "Suc n"] Suc.prems have "\<exists>r. waitLoop fuel reads clock deadline i (Suc n) = Some r \<and>
      (\<forall>j. r = Ended j \<longrightarrow> job_status j \<in> set TERMINAL_STATUSES \<and> (\<exists>k \<le> m. getJob i (reads k) = Some j))" by simp
    moreover have "n \<le> m" using Suc.prems(1) by simp
    ultimately show ?thesis by (auto split: option.split)
  qed
qed simp

text \<open>
  Waiting for a job returns: by the first poll after the deadline at the latest it has a
  result, and when that result is a job, the job had reached a terminal status when it was read.
\<close>

theorem wait_returns:
  assumes "clock m > start + timeoutMs"
  shows "\<exists>r. waitFor (Suc m) reads clock start timeoutMs i = Some r \<and>
     (\<forall>j. r = Ended j \<longrightarrow> job_status j \<in> set TERMINAL_STATUSES \<and> (\<exists>k \<le> m. getJob i (reads k) = Some j))"
  unfolding waitFor_def using waitLoop_returns[where n = 0 and fuel = "Suc m" and clock = clock and m = m, OF assms] by simp

theorem wait_returns_witness:
  "\<exists>r. waitFor 5 (\<lambda>n. [sampleRow ''a'' None None False]) (\<lambda>n. 250 * int n) 0 900 ''a'' = Some r \<and> r = TimedOut"
  using wait_returns[of 0 900 "\<lambda>n. 250 * int n" 4 "\<lambda>n. [sampleRow ''a'' None None False]" "''a''"]
  by (auto simp: waitFor_def getJob_def sample_defs TERMINAL_STATUSES_def numeral_eq_Suc)

end
