(* ===== verification/Permissions.thy ===== *)
theory Permissions
  imports Prelude
begin

text \<open>
  \<open>src/lib/permissions.ts\<close>: areas, levels, roles, the permissions a user or an API key holds, and
  the permission a request needs. A \<open>Permissions\<close> object, a partial record keyed by area, is a map
  from areas to levels. Untrusted input is a \<open>json\<close> value. A regular expression split at \<open>?\<close> or
  \<open>#\<close> is \<open>takeWhile\<close>.
\<close>

section \<open>Data\<close>

datatype PermissionLevel = Read | Write

datatype PermissionArea =
    ServicesArea
  | WorkstationsArea
  | StacksArea
  | TemplatesArea
  | CronJobsArea
  | RedirectsArea
  | StatusPagesArea
  | StorageArea
  | ObjectStorageArea
  | RegistryArea
  | BuildCacheArea
  | GitProvidersArea
  | NotificationsArea
  | DnsArea
  | RemoteHostsArea
  | SystemArea
  | IacArea
  | UsersArea
  | SettingsArea

fun areaKey :: "PermissionArea \<Rightarrow> string" where
  "areaKey ServicesArea = ''services''"
| "areaKey WorkstationsArea = ''workstations''"
| "areaKey StacksArea = ''stacks''"
| "areaKey TemplatesArea = ''templates''"
| "areaKey CronJobsArea = ''cron-jobs''"
| "areaKey RedirectsArea = ''redirects''"
| "areaKey StatusPagesArea = ''status-pages''"
| "areaKey StorageArea = ''storage''"
| "areaKey ObjectStorageArea = ''object-storage''"
| "areaKey RegistryArea = ''registry''"
| "areaKey BuildCacheArea = ''build-cache''"
| "areaKey GitProvidersArea = ''git-providers''"
| "areaKey NotificationsArea = ''notifications''"
| "areaKey DnsArea = ''dns''"
| "areaKey RemoteHostsArea = ''remote-hosts''"
| "areaKey SystemArea = ''system''"
| "areaKey IacArea = ''iac''"
| "areaKey UsersArea = ''users''"
| "areaKey SettingsArea = ''settings''"

record area_entry =
  ae_key :: PermissionArea
  ae_label :: string
  ae_description :: string
  ae_routes :: "string list"

definition PERMISSION_AREAS :: "area_entry list" where
  "PERMISSION_AREAS = [
     \<lparr>ae_key = ServicesArea, ae_label = ''Services'',
      ae_description = ''Services, deployments, previews, logs, monitoring and CI pipelines.'',
      ae_routes = [''/activity'', ''/services'', ''/deployments'', ''/monitoring'',
                   ''/pipelines'', ''/api/v1/monitoring'', ''/api/v1/services'', ''/api/v1/service-environments'',
                   ''/api/v1/service-dependencies'', ''/api/v1/volume-mounts'']\<rparr>,
     \<lparr>ae_key = WorkstationsArea, ae_label = ''Workstations'',
      ae_description = ''Your own dev workstations: browser IDE containers on this server or an agent host.'',
      ae_routes = [''/workstations'', ''/api/v1/workstations'', ''/api/v1/workstation-presets'']\<rparr>,
     \<lparr>ae_key = StacksArea, ae_label = ''Stacks'',
      ae_description = ''Stacks and compose imports into them.'',
      ae_routes = [''/stacks'', ''/api/v1/stacks'']\<rparr>,
     \<lparr>ae_key = TemplatesArea, ae_label = ''Templates'',
      ae_description = ''Service templates and their links.'',
      ae_routes = [''/templates'', ''/api/v1/templates'']\<rparr>,
     \<lparr>ae_key = CronJobsArea, ae_label = ''Cron jobs'',
      ae_description = ''Scheduled jobs. Host command jobs also need write access to System.'',
      ae_routes = [''/cron-jobs'', ''/api/v1/cron-jobs'']\<rparr>,
     \<lparr>ae_key = RedirectsArea, ae_label = ''Redirects'',
      ae_description = ''Hostname and path redirects.'',
      ae_routes = [''/redirects'', ''/api/v1/redirects'']\<rparr>,
     \<lparr>ae_key = StatusPagesArea, ae_label = ''Status pages'',
      ae_description = ''Public status pages.'',
      ae_routes = [''/status-pages'', ''/api/v1/status-pages'']\<rparr>,
     \<lparr>ae_key = StorageArea, ae_label = ''Volumes & backups'',
      ae_description = ''Volumes, backups and backup destinations.'',
      ae_routes = [''/storage'', ''/backups'', ''/s3-destinations'', ''/api/v1/volumes'',
                   ''/api/v1/backups'', ''/api/v1/backup-destinations'']\<rparr>,
     \<lparr>ae_key = ObjectStorageArea, ae_label = ''Object storage'',
      ae_description = ''Object stores, their buckets and IaC state storage.'',
      ae_routes = [''/object-storage'', ''/api/v1/object-stores'']\<rparr>,
     \<lparr>ae_key = RegistryArea, ae_label = ''Docker Registry'',
      ae_description = ''The built-in image registry, its images and tokens.'',
      ae_routes = [''/registry'', ''/api/v1/registry'']\<rparr>,
     \<lparr>ae_key = BuildCacheArea, ae_label = ''Build cache'',
      ae_description = ''Registries that cache image builds.'',
      ae_routes = [''/build-cache-registries'', ''/api/v1/build-cache-registries'']\<rparr>,
     \<lparr>ae_key = GitProvidersArea, ae_label = ''Git providers'',
      ae_description = ''GitHub, GitLab and other git provider connections.'',
      ae_routes = [''/git-providers'', ''/api/v1/git-providers'']\<rparr>,
     \<lparr>ae_key = NotificationsArea, ae_label = ''Notification channels'',
      ae_description = ''Channels alerts and deploy notifications are sent to.'',
      ae_routes = [''/notifications/settings/channels'', ''/api/v1/notification-channels'']\<rparr>,
     \<lparr>ae_key = DnsArea, ae_label = ''DNS'',
      ae_description = ''DNS provider connections and managed records.'',
      ae_routes = [''/dns'', ''/api/v1/dns-connections'', ''/api/v1/domains'']\<rparr>,
     \<lparr>ae_key = RemoteHostsArea, ae_label = ''Remote hosts'',
      ae_description = ''Remote build and swarm hosts, and service scheduling.'',
      ae_routes = [''/remote-hosts'', ''/scheduling'', ''/api/v1/remote-hosts'']\<rparr>,
     \<lparr>ae_key = SystemArea, ae_label = ''System'',
      ae_description = ''Root on the box: the host terminal, system logs, Docker cleanup, host command cron jobs and host-level service options.'',
      ae_routes = [''/terminal'', ''/system-logs'', ''/docker-cleanup'', ''/api/v1/jobs'',
                   ''/api/v1/system'']\<rparr>,
     \<lparr>ae_key = IacArea, ae_label = ''Infrastructure as code'',
      ae_description = ''IaC projects, their state and code generation.'',
      ae_routes = [''/iac'', ''/api/v1/iac'']\<rparr>,
     \<lparr>ae_key = UsersArea, ae_label = ''Users & authentication'',
      ae_description = ''Users, invites, sign-in providers and Homerun's OIDC apps. Write access can grant any permission, its holder's own included.'',
      ae_routes = [''/users'', ''/service-accounts'', ''/authentication'', ''/idp'',
                   ''/api/v1/service-accounts'', ''/api/v1/authentication'', ''/api/v1/users'', ''/api/v1/oauth-providers'',
                   ''/api/v1/oidc-apps'']\<rparr>,
     \<lparr>ae_key = SettingsArea, ae_label = ''Settings'',
      ae_description = ''Instance settings: domains, TLS, email, Docker, networking and updates.'',
      ae_routes = [''/settings'', ''/api/v1/instance'']\<rparr>]"

type_synonym Permissions = "PermissionArea \<rightharpoonup> PermissionLevel"

fun levelName :: "PermissionLevel \<Rightarrow> string" where
  "levelName Read = ''read''"
| "levelName Write = ''write''"

definition AREA_KEYS :: "PermissionArea list" where
  "AREA_KEYS = map ae_key PERMISSION_AREAS"

definition OPEN_ROUTES :: "string list" where
  "OPEN_ROUTES = [''/'', ''/notifications'', ''/profile'', ''/search'',
                   ''/cli-auth'', ''/api-docs'', ''/api/v1/auth'', ''/api/v1/auth-check'',
                   ''/api/v1/auth-token'', ''/api/v1/mcp'', ''/api/v1/nodes'', ''/api/v1/notifications'',
                   ''/api/v1/manifest.schema.json'', ''/api/v1/manifests'', ''/api/v1/openapi.json'', ''/api/v1/otlp'',
                   ''/api/v1/ready'', ''/api/v1/system-stats'', ''/api/v1/webhooks'']"

definition PROTECTED_GROUP :: string where
  "PROTECTED_GROUP = ''/(protected)''"

definition SAFE_METHODS :: "string list" where
  "SAFE_METHODS = [''GET'', ''HEAD'', ''OPTIONS'']"

definition USER_ROLES :: "string list" where
  "USER_ROLES = [''admin'', ''developer'', ''viewer'', ''app-user'', ''custom'']"

definition APP_ONLY_ROLE :: string where
  "APP_ONLY_ROLE = ''app-user''"

text \<open>\<open>ROLE_OPTIONS\<close>: value, label and description.\<close>

definition ROLE_OPTIONS :: "(string \<times> string \<times> string) list" where
  "ROLE_OPTIONS = [
     (''developer'', ''Developer'', ''The whole dashboard, except Users and Settings.''),
     (''viewer'', ''Read-only'', ''Sees what a developer sees but can't change anything.''),
     (''app-user'', ''App access only'',
      ''No dashboard at all: only signs in to the apps whose login wall lets them through.''),
     (''custom'', ''Custom'', ''Exactly the areas you pick, each read-only or read-write.''),
     (''admin'', ''Admin'', ''Everything, including Users and Settings.'')]"

definition DEVELOPER_PERMISSIONS :: Permissions where
  "DEVELOPER_PERMISSIONS = [BuildCacheArea \<mapsto> Write, CronJobsArea \<mapsto> Write, GitProvidersArea \<mapsto> Read, NotificationsArea \<mapsto> Write,
     RedirectsArea \<mapsto> Write, RemoteHostsArea \<mapsto> Read, ServicesArea \<mapsto> Write, StacksArea \<mapsto> Write,
     StatusPagesArea \<mapsto> Write, StorageArea \<mapsto> Write, TemplatesArea \<mapsto> Write, WorkstationsArea \<mapsto> Write]"

definition APP_ONLY_API_PREFIXES :: "string list" where
  "APP_ONLY_API_PREFIXES = [''/api/v1/auth/'', ''/api/health'', ''/api/v1/ready'']"

definition APP_ONLY_DENIED_AUTH_PREFIXES :: "string list" where
  "APP_ONLY_DENIED_AUTH_PREFIXES = [''/api/v1/auth/api-key/'', ''/api/v1/auth/admin/'', ''/api/v1/auth/cli/'']"

definition APP_ONLY_REMOTE_COMMANDS :: "string list" where
  "APP_ONLY_REMOTE_COMMANDS = [''completeAccountSetup'', ''lookupSignIn'', ''resendSetupCode'']"

definition APP_ONLY_DENIED_ROUTES :: "string list" where
  "APP_ONLY_DENIED_ROUTES = [''/(protected)'', ''/onboarding'']"

definition REMOTE_PREFIX :: string where
  "REMOTE_PREFIX = ''/_app/remote/''"

section \<open>Operations\<close>

definition samePermissions :: "Permissions \<Rightarrow> Permissions \<Rightarrow> bool" where
  "samePermissions p q = list_all (\<lambda>area. p area = q area) AREA_KEYS"

definition isUserRole :: "json \<Rightarrow> bool" where
  "isUserRole role = (case role of JStr s \<Rightarrow> s \<in> set USER_ROLES | _ \<Rightarrow> False)"

definition roleLabel :: "string option \<Rightarrow> string" where
  "roleLabel role =
     (case List.find (\<lambda>(v, l, d). Some v = role) ROLE_OPTIONS of
        Some (v, l, d) \<Rightarrow> l
      | None \<Rightarrow> ''Developer'')"

definition isAppOnly :: "string option \<Rightarrow> bool" where
  "isAppOnly role \<longleftrightarrow> role = Some APP_ONLY_ROLE"

definition areaLabel :: "PermissionArea \<Rightarrow> string" where
  "areaLabel area =
     (case List.find (\<lambda>entry. ae_key entry = area) PERMISSION_AREAS of
        Some entry \<Rightarrow> ae_label entry
      | None \<Rightarrow> areaKey area)"

definition can :: "Permissions \<Rightarrow> PermissionArea \<Rightarrow> PermissionLevel \<Rightarrow> bool" where
  "can permissions area level \<longleftrightarrow>
     permissions area = Some Write \<or> (permissions area = Some Read \<and> level = Read)"

definition allPermissions :: "PermissionLevel \<Rightarrow> Permissions" where
  "allPermissions level = map_of (map (\<lambda>area. (area, level)) AREA_KEYS)"

definition hasAllPermissions :: "Permissions \<Rightarrow> bool" where
  "hasAllPermissions permissions = list_all (\<lambda>area. permissions area = Some Write) AREA_KEYS"

definition hasAnyWrite :: "Permissions \<Rightarrow> bool" where
  "hasAnyWrite permissions = list_ex (\<lambda>area. permissions area = Some Write) AREA_KEYS"

definition rawLevels :: "json option \<Rightarrow> json list" where
  "rawLevels raw = (case raw of Some (JArr xs) \<Rightarrow> xs | Some v \<Rightarrow> [v] | None \<Rightarrow> [])"

definition parsedLevel :: "json option \<Rightarrow> PermissionLevel option" where
  "parsedLevel raw =
     (if JStr ''write'' \<in> set (rawLevels raw) then Some Write
      else if JStr ''read'' \<in> set (rawLevels raw) then Some Read
      else None)"

definition parsePermissions :: "json \<Rightarrow> Permissions" where
  "parsePermissions v =
     (case v of
        JObj obj \<Rightarrow> fold (\<lambda>area parsed. case parsedLevel (map_of obj (areaKey area)) of
            Some level \<Rightarrow> parsed(area \<mapsto> level)
          | None \<Rightarrow> parsed) AREA_KEYS Map.empty
      | _ \<Rightarrow> Map.empty)"

definition toApiKeyPermissions :: "Permissions \<Rightarrow> (string \<times> json) list" where
  "toApiKeyPermissions permissions =
     List.map_filter (\<lambda>area. map_option (\<lambda>level. (areaKey area, JArr [JStr (levelName level)])) (permissions area))
       AREA_KEYS"

definition intersectPermissions :: "Permissions \<Rightarrow> Permissions \<Rightarrow> Permissions" where
  "intersectPermissions p q =
     fold (\<lambda>area result.
        if can p area Write \<and> can q area Write then result(area \<mapsto> Write)
        else if can p area Read \<and> can q area Read then result(area \<mapsto> Read)
        else result) AREA_KEYS Map.empty"

definition permissionsForRole :: "string option \<Rightarrow> json \<Rightarrow> Permissions" where
  "permissionsForRole role stored =
     (if role = Some ''admin'' then allPermissions Write
      else if role = Some ''viewer'' then (\<lambda>area. map_option (\<lambda>_. Read) (DEVELOPER_PERMISSIONS area))
      else if role = Some ''app-user'' then Map.empty
      else if role = Some ''custom'' then parsePermissions stored
      else DEVELOPER_PERMISSIONS)"

text \<open>A form's text fields; a field that is missing reads as null.\<close>

definition permissionsFromForm :: "(string \<times> string) list \<Rightarrow> Permissions" where
  "permissionsFromForm formData =
     parsePermissions (JObj (map (\<lambda>area. (areaKey area,
        case map_of formData (''permission.'' @ areaKey area) of None \<Rightarrow> JNull | Some s \<Rightarrow> JStr s)) AREA_KEYS))"

text \<open>The presets a form offers: id, label, description, permissions.\<close>

definition PERMISSION_PRESETS :: "(string \<times> string \<times> string \<times> Permissions) list" where
  "PERMISSION_PRESETS = [
     (''read-only'', ''Read-only'', ''Sees every area, changes nothing.'', allPermissions Read),
     (''developer'', ''Developer'', ''What the Developer role holds: the dashboard minus Users and Settings.'',
      DEVELOPER_PERMISSIONS),
     (''ci'', ''CI deploys'', ''A CI pipeline: pushes to the built-in registry and deploys services.'',
      [RegistryArea \<mapsto> Write, ServicesArea \<mapsto> Write, StacksArea \<mapsto> Read]),
     (''iac'', ''Infrastructure as code'', ''Everything the Terraform provider manages, plus IaC state.'',
      [BuildCacheArea \<mapsto> Write, CronJobsArea \<mapsto> Write, DnsArea \<mapsto> Write, GitProvidersArea \<mapsto> Write,
       IacArea \<mapsto> Write, NotificationsArea \<mapsto> Write, ObjectStorageArea \<mapsto> Write, RedirectsArea \<mapsto> Write,
       RemoteHostsArea \<mapsto> Write, ServicesArea \<mapsto> Write, StacksArea \<mapsto> Write, StatusPagesArea \<mapsto> Write,
       StorageArea \<mapsto> Write, TemplatesArea \<mapsto> Read, WorkstationsArea \<mapsto> Write])]"

definition routeWithin :: "string \<Rightarrow> string \<Rightarrow> bool" where
  "routeWithin routeId prefix \<longleftrightarrow>
     routeId = prefix \<or> (prefix \<noteq> ''/'' \<and> starts_with (prefix @ ''/'') routeId)"

datatype required = NoPermission | Unmapped | Needs PermissionArea PermissionLevel

definition requiredPermission :: "string \<Rightarrow> string option \<Rightarrow> required" where
  "requiredPermission meth routeId =
     (case routeId of
        None \<Rightarrow> NoPermission
      | Some r \<Rightarrow>
          if r = [] then NoPermission
          else
            (let inDashboard = routeWithin r PROTECTED_GROUP
             in if \<not> (inDashboard \<or> routeWithin r ''/api/v1'') then NoPermission
                else
                  (let rest = drop (length PROTECTED_GROUP) r;
                       i = (if inDashboard then (if rest = [] then ''/'' else rest) else r)
                   in case List.find (\<lambda>entry. list_ex (routeWithin i) (ae_routes entry)) PERMISSION_AREAS of
                        None \<Rightarrow> if list_ex (routeWithin i) OPEN_ROUTES then NoPermission else Unmapped
                      | Some area \<Rightarrow> Needs (ae_key area) (if upper meth \<in> set SAFE_METHODS then Read else Write))))"

definition allowed :: "Permissions \<Rightarrow> required \<Rightarrow> bool" where
  "allowed permissions req =
     (case req of
        Unmapped \<Rightarrow> hasAllPermissions permissions
      | NoPermission \<Rightarrow> True
      | Needs area level \<Rightarrow> can permissions area level)"

definition mayVisit :: "Permissions \<Rightarrow> string \<Rightarrow> bool" where
  "mayVisit permissions href =
     (let path = takeWhile (\<lambda>c. c \<noteq> CHR ''?'' \<and> c \<noteq> CHR ''#'') href;
          pathname = (if path = [] then ''/'' else path)
      in allowed permissions (requiredPermission ''GET''
           (Some (if pathname = ''/'' then PROTECTED_GROUP else PROTECTED_GROUP @ pathname))))"

definition permissionDeniedMessage :: "PermissionArea \<Rightarrow> PermissionLevel \<Rightarrow> string" where
  "permissionDeniedMessage area level =
     (if level = Write then ''You don't have permission to change '' @ areaLabel area @ ''.''
      else ''You don't have permission to view '' @ areaLabel area @ ''.'')"

definition appOnlyMayRequest :: "string \<Rightarrow> string option \<Rightarrow> bool" where
  "appOnlyMayRequest pathname routeId =
     (if starts_with REMOTE_PREFIX pathname then
        (let pieces = split_on (CHR ''/'') (drop (length REMOTE_PREFIX) pathname);
             name = (if length pieces > 1 then pieces ! 1 else [])
         in name \<in> set APP_ONLY_REMOTE_COMMANDS)
      else if starts_with ''/api/'' pathname then
        list_ex (\<lambda>prefix. starts_with prefix pathname) APP_ONLY_API_PREFIXES \<and>
        \<not> list_ex (\<lambda>prefix. starts_with prefix pathname) APP_ONLY_DENIED_AUTH_PREFIXES
      else
        \<not> (case routeId of
              None \<Rightarrow> False
            | Some r \<Rightarrow> r \<noteq> [] \<and>
                list_ex (\<lambda>denied. r = denied \<or> starts_with (denied @ ''/'') r) APP_ONLY_DENIED_ROUTES))"

end
