(* ===== verification/Permission_Theorems.thy ===== *)
theory Permission_Theorems
  imports Permissions
begin

text \<open>
  The properties of the permission model: areas and routes, the meet of two permission sets, parsing
  and storing them, the roles, and how the two request guards agree.
\<close>

section \<open>Areas\<close>

lemma AREA_KEYS_eq [perm_simps]: "AREA_KEYS = [ServicesArea, WorkstationsArea, StacksArea, TemplatesArea,
    CronJobsArea, RedirectsArea, StatusPagesArea, StorageArea, ObjectStorageArea, RegistryArea, BuildCacheArea,
    GitProvidersArea, NotificationsArea, DnsArea, RemoteHostsArea, SystemArea, IacArea, UsersArea, SettingsArea]"
  by (simp add: AREA_KEYS_def PERMISSION_AREAS_def)

lemma area_listed: "area \<in> set AREA_KEYS"
  by (cases area) (simp_all add: AREA_KEYS_eq)

lemma distinct_areas: "distinct AREA_KEYS"
  by (simp add: AREA_KEYS_eq)

lemma areaKey_inj [simp]: "areaKey a = areaKey b \<longleftrightarrow> a = b"
  by (cases a; cases b; simp)

lemma level_cases: "l = Read \<or> l = Write"
  by (cases l) auto

text \<open>A loop over the areas that sets at most its own area reads as a function of the area.\<close>

lemma fold_areas:
  assumes "\<And>area m. step area m = (case f area of Some l \<Rightarrow> m(area \<mapsto> l) | None \<Rightarrow> m)"
  shows "fold step AREA_KEYS Map.empty = f"
proof -
  have "fold step xs m area = (if area \<in> set xs \<and> f area \<noteq> None then f area else m area)"
    if "distinct xs" for xs m area
    using that
  proof (induction xs arbitrary: m)
    case (Cons x xs)
    then show ?case by (auto simp: assms split: option.split)
  qed simp
  then show ?thesis using area_listed distinct_areas by fastforce
qed

lemma parse_object: "parsePermissions (JObj obj) = (\<lambda>area. parsedLevel (map_of obj (areaKey area)))"
  unfolding parsePermissions_def json.case by (rule fold_areas) simp

lemma intersect_eq: "intersectPermissions p q = (\<lambda>area.
    if can p area Write \<and> can q area Write then Some Write
    else if can p area Read \<and> can q area Read then Some Read else None)"
  unfolding intersectPermissions_def by (rule fold_areas) simp

lemma all_eq: "allPermissions level = (\<lambda>area. Some level)"
proof
  fix area show "allPermissions level area = Some level"
    using area_listed[of area] distinct_areas by (auto simp: allPermissions_def map_of_eq_Some_iff comp_def)
qed

lemma can_mono: "can p area Write \<Longrightarrow> can p area l"
  by (auto simp: can_def)

text \<open>The meet of permission sets is a bounded semilattice, so its library facts apply to it.\<close>

lemma permissions_eqI: "(\<And>area l. can p area l = can q area l) \<Longrightarrow> p = q"
proof
  fix area assume e: "\<And>area l. can p area l = can q area l"
  show "p area = q area"
    using e[of area Read] e[of area Write] level_cases by (cases "p area"; cases "q area") (auto simp: can_def)
qed

lemma can_intersect: "can (intersectPermissions p q) area l \<longleftrightarrow> can p area l \<and> can q area l"
  by (cases l) (auto simp: intersect_eq can_def)

lemma can_all [simp]: "can (allPermissions Write) area l"
  by (simp add: all_eq can_def)

interpretation perms: semilattice_neutr intersectPermissions "allPermissions Write"
  by unfold_locales (rule permissions_eqI, auto simp: can_intersect)+

text \<open>
  An API key acts with the lower of its own and its owner's grants on every area: the
  intersection grants a level exactly when both do; it is the greatest set below both.
\<close>

theorem intersect_is_meet:
  "(can (intersectPermissions p q) area l \<longleftrightarrow> can p area l \<and> can q area l) \<and>
   intersectPermissions p q = intersectPermissions q p \<and>
   intersectPermissions (allPermissions Write) p = p \<and>
   ((\<forall>a k. can r a k \<longrightarrow> can (intersectPermissions p q) a k) \<longleftrightarrow>
    (\<forall>a k. can r a k \<longrightarrow> can p a k) \<and> (\<forall>a k. can r a k \<longrightarrow> can q a k))"
  using can_intersect perms.commute perms.left_neutral by auto

theorem intersect_is_meet_witness:
  "can (intersectPermissions [DnsArea \<mapsto> Write] [DnsArea \<mapsto> Read, IacArea \<mapsto> Write]) DnsArea Read \<and>
   \<not> can (intersectPermissions [DnsArea \<mapsto> Write] [DnsArea \<mapsto> Read, IacArea \<mapsto> Write]) DnsArea Write"
  unfolding intersect_is_meet[THEN conjunct1] by (simp add: can_def)

lemma map_of_stored:
  "distinct xs \<Longrightarrow> map_of (List.map_filter (\<lambda>area. map_option (\<lambda>level. (areaKey area, JArr [JStr (levelName level)]))
     (p area)) xs) (areaKey a) =
   (if a \<in> set xs then map_option (\<lambda>level. JArr [JStr (levelName level)]) (p a) else None)"
  by (induction xs) (auto simp: List.map_filter_simps split: option.split)

lemma parsed_stored: "parsedLevel (map_option (\<lambda>level. JArr [JStr (levelName level)]) x) = x"
proof (cases x)
  case (Some l)
  then show ?thesis by (cases l) (simp_all add: parsedLevel_def rawLevels_def)
qed (simp add: parsedLevel_def rawLevels_def)

lemma map_of_areas: "map_of (map (\<lambda>area. (areaKey area, f area)) AREA_KEYS) (areaKey a) = Some (f a)"
proof -
  have "map_of (map (\<lambda>area. (areaKey area, f area)) xs) (areaKey a) = (if a \<in> set xs then Some (f a) else None)" for xs
    by (induction xs) auto
  then show ?thesis using area_listed by simp
qed

text \<open>
  Storing permissions on an API key and parsing them back, and posting them as form fields,
  give the same permissions; and what is parsed from an object never depends on keys that are not
  areas.
\<close>

theorem permissions_roundtrip:
  "parsePermissions (JObj (toApiKeyPermissions p)) = p \<and>
   permissionsFromForm (List.map_filter (\<lambda>area. map_option (\<lambda>level. (''permission.'' @ areaKey area, levelName level)) (p area))
     AREA_KEYS) = p \<and>
   parsePermissions (JObj (filter (\<lambda>(k, v). k \<in> areaKey ` set AREA_KEYS) obj)) = parsePermissions (JObj obj)"
proof (intro conjI)
  show "parsePermissions (JObj (toApiKeyPermissions p)) = p"
    unfolding parse_object toApiKeyPermissions_def map_of_stored[OF distinct_areas]
    using area_listed parsed_stored by simp
  have form: "distinct xs \<Longrightarrow> map_of (List.map_filter (\<lambda>area. map_option (\<lambda>level. (''permission.'' @ areaKey area, levelName level))
     (p area)) xs) (''permission.'' @ areaKey a) = (if a \<in> set xs then map_option levelName (p a) else None)" for xs a
    by (induction xs) (auto simp: List.map_filter_simps split: option.split)
  have form': "parsedLevel (Some (case map_option levelName x of None \<Rightarrow> JNull | Some s \<Rightarrow> JStr s)) = x" for x
  proof (cases x)
    case (Some l)
    then show ?thesis by (cases l) (simp_all add: parsedLevel_def rawLevels_def)
  qed (simp add: parsedLevel_def rawLevels_def)
  show "permissionsFromForm (List.map_filter (\<lambda>area. map_option (\<lambda>level. (''permission.'' @ areaKey area, levelName level))
      (p area)) AREA_KEYS) = p"
    unfolding permissionsFromForm_def parse_object map_of_areas form[OF distinct_areas]
    using area_listed form' by simp
  have "map_of (filter (\<lambda>(k, v). k \<in> S) obj) k = (if k \<in> S then map_of obj k else None)" for S :: "string set" and k
    by (induction obj) auto
  then show "parsePermissions (JObj (filter (\<lambda>(k, v). k \<in> areaKey ` set AREA_KEYS) obj)) = parsePermissions (JObj obj)"
    unfolding parse_object using area_listed by simp
qed

section \<open>Routes\<close>

lemma routeWithin_iff: "routeWithin r p \<longleftrightarrow> r = p \<or> (p \<noteq> ''/'' \<and> (\<exists>s. r = p @ ''/'' @ s))"
  by (auto simp: routeWithin_def starts_with_iff)

text \<open>Two prefixes of one route are nested.\<close>

lemma routeWithin_nested:
  assumes "routeWithin r p" "routeWithin r q" "p \<noteq> ''/''" "q \<noteq> ''/''"
  shows "routeWithin p q \<or> routeWithin q p"
proof -
  have tail: "p = q \<or> (\<exists>v. p = q @ ''/'' @ v)"
    if e: "p @ ''/'' @ s = q @ u" and u: "u = [] \<or> (\<exists>v. u = CHR ''/'' # v)" and l: "length q \<le> length p" for p q s u
  proof -
    obtain w where "p = q @ w" "w @ ''/'' @ s = u" using e l by (auto simp: append_eq_append_conv2)
    then show ?thesis using u by (cases w) auto
  qed
  have sym: "routeWithin p q" if r: "routeWithin r p" "routeWithin r q" "q \<noteq> ''/''" "length q \<le> length p" for p q
  proof -
    obtain u where u: "r = q @ u" "u = [] \<or> (\<exists>v. u = CHR ''/'' # v)" using r(2) by (auto simp: routeWithin_iff)
    consider "r = p" | s where "r = p @ ''/'' @ s" using r(1) by (auto simp: routeWithin_iff)
    then show ?thesis
    proof cases
      case 1
      then show ?thesis using r(2) by simp
    next
      case (2 s)
      then show ?thesis using tail[of p s q u] u r(3,4) by (auto simp: routeWithin_iff)
    qed
  qed
  show ?thesis using assms sym[of p q] sym[of q p] by linarith
qed

lemma routes_disjoint:
  "list_all (\<lambda>e. list_all (\<lambda>f. ae_key e = ae_key f \<or>
     list_all (\<lambda>p. p \<noteq> ''/'' \<and> list_all (\<lambda>q. \<not> routeWithin p q) (ae_routes f)) (ae_routes e)) PERMISSION_AREAS) PERMISSION_AREAS"
  by code_simp

lemma area_entries_distinct: "e \<in> set PERMISSION_AREAS \<Longrightarrow> f \<in> set PERMISSION_AREAS \<Longrightarrow> ae_key e = ae_key f \<Longrightarrow> e = f"
  using distinct_areas by (auto simp: AREA_KEYS_def distinct_map inj_on_def)

definition owns :: "area_entry \<Rightarrow> string \<Rightarrow> bool" where
  "owns entry i \<longleftrightarrow> list_ex (routeWithin i) (ae_routes entry)"

lemma owner_unique:
  assumes "e \<in> set PERMISSION_AREAS" "f \<in> set PERMISSION_AREAS" "owns e i" "owns f i"
  shows "e = f"
proof (rule ccontr)
  assume "e \<noteq> f"
  with assms have ne: "ae_key e \<noteq> ae_key f" using area_entries_distinct by blast
  obtain p q where pq: "p \<in> set (ae_routes e)" "routeWithin i p" "q \<in> set (ae_routes f)" "routeWithin i q"
    using assms(3,4) by (auto simp: owns_def list_ex_iff)
  have d: "p \<noteq> ''/''" "q \<noteq> ''/''" "\<not> routeWithin p q" "\<not> routeWithin q p"
    using routes_disjoint ne assms(1,2) pq(1,3) unfolding list_all_iff by metis+
  with routeWithin_nested[OF pq(2,4)] show False by blast
qed

text \<open>The path an area's routes are matched against.\<close>

definition dashboardPath :: "string \<Rightarrow> string" where
  "dashboardPath r =
     (if routeWithin r PROTECTED_GROUP
      then (if drop (length PROTECTED_GROUP) r = [] then ''/'' else drop (length PROTECTED_GROUP) r) else r)"

text \<open>
  C9. Every dashboard and API route is guarded, and the guard does not depend on the order of the
  areas: when an area owns the route, the request passes exactly with that area's permission at
  \<open>read\<close> for a safe method and \<open>write\<close> otherwise; when none does, it passes for everyone on an open
  route, and elsewhere only for a holder of every permission.
\<close>

theorem route_guard:
  assumes r: "routeWithin r PROTECTED_GROUP \<or> routeWithin r ''/api/v1''"
  shows "(\<forall>e \<in> set PERMISSION_AREAS. owns e (dashboardPath r) \<longrightarrow>
       allowed p (requiredPermission meth (Some r)) =
         can p (ae_key e) (if upper meth \<in> set [''GET'', ''HEAD'', ''OPTIONS''] then Read else Write)) \<and>
     (filter (\<lambda>e. owns e (dashboardPath r)) PERMISSION_AREAS = [] \<longrightarrow>
       allowed p (requiredPermission meth (Some r)) =
         (list_ex (routeWithin (dashboardPath r)) OPEN_ROUTES \<or> p = allPermissions Write))"
proof -
  have ne: "r \<noteq> []" using r by (auto simp: routeWithin_iff PROTECTED_GROUP_def)
  have req: "requiredPermission meth (Some r) =
      (case List.find (\<lambda>e. owns e (dashboardPath r)) PERMISSION_AREAS of
         None \<Rightarrow> if list_ex (routeWithin (dashboardPath r)) OPEN_ROUTES then NoPermission else Unmapped
       | Some e \<Rightarrow> Needs (ae_key e) (if upper meth \<in> set SAFE_METHODS then Read else Write))"
    using r ne unfolding requiredPermission_def Let_def dashboardPath_def owns_def by simp
  have all: "hasAllPermissions p \<longleftrightarrow> p = allPermissions Write"
    using area_listed by (auto simp: hasAllPermissions_def all_eq list_all_iff)
  have found: "List.find (\<lambda>e. owns e (dashboardPath r)) PERMISSION_AREAS = Some e"
    if "e \<in> set PERMISSION_AREAS" "owns e (dashboardPath r)" for e
  proof (cases "List.find (\<lambda>e. owns e (dashboardPath r)) PERMISSION_AREAS")
    case None
    then show ?thesis using that by (auto simp: find_None_iff)
  next
    case (Some f)
    then have "f \<in> set PERMISSION_AREAS" "owns f (dashboardPath r)" by (auto simp: find_Some_iff)
    with that Some show ?thesis using owner_unique by blast
  qed
  have "List.find (\<lambda>e. owns e (dashboardPath r)) PERMISSION_AREAS = None"
    if "filter (\<lambda>e. owns e (dashboardPath r)) PERMISSION_AREAS = []"
    using that by (auto simp: find_None_iff filter_empty_conv)
  with found show ?thesis
    unfolding req by (auto simp: allowed_def SAFE_METHODS_def all)
qed

theorem route_guard_witness:
  "\<not> allowed [DnsArea \<mapsto> Read] (requiredPermission ''delete'' (Some ''/(protected)/dns/records''))"
proof -
  let ?r = "''/(protected)/dns/records''"
  let ?e = "PERMISSION_AREAS ! 13"
  have "routeWithin ?r PROTECTED_GROUP" "?e \<in> set PERMISSION_AREAS" "owns ?e (dashboardPath ?r)" "ae_key ?e = DnsArea"
      "upper ''delete'' \<notin> set [''GET'', ''HEAD'', ''OPTIONS'']"
    by code_simp+
  then show ?thesis using route_guard[of ?r "[DnsArea \<mapsto> Read]" "''delete''"] by (auto simp: can_def)
qed

section \<open>Roles\<close>

text \<open>
  The roles' promises: an admin holds everything; a read-only user sees exactly what a
  developer sees and changes nothing; an app-only user holds nothing; a custom user holds exactly
  what their stored permissions grant; an unknown or missing role is a developer; and only the admin
  role, or a custom user's stored permissions, reach users and settings.
\<close>

theorem role_promises:
  "can (permissionsForRole (Some ''admin'') stored) area level \<and>
   can (permissionsForRole (Some ''viewer'') stored) area level =
     (level = Read \<and> can (permissionsForRole (Some ''developer'') stored) area Read) \<and>
   \<not> can (permissionsForRole (Some ''app-user'') stored) area level \<and>
   permissionsForRole (Some ''custom'') (JObj (toApiKeyPermissions p)) = p \<and>
   permissionsForRole None stored = permissionsForRole (Some ''developer'') stored \<and>
   (name \<notin> set USER_ROLES \<longrightarrow> permissionsForRole (Some name) stored = permissionsForRole (Some ''developer'') stored) \<and>
   (can (permissionsForRole role stored) UsersArea level \<or> can (permissionsForRole role stored) SettingsArea level \<longrightarrow>
      role = Some ''admin'' \<or> role = Some ''custom'')"
proof -
  have custom: "parsePermissions (JObj (toApiKeyPermissions p)) = p"
    unfolding parse_object toApiKeyPermissions_def map_of_stored[OF distinct_areas]
    using area_listed parsed_stored by simp
  have "DEVELOPER_PERMISSIONS UsersArea = None" "DEVELOPER_PERMISSIONS SettingsArea = None"
    by (simp_all add: DEVELOPER_PERMISSIONS_def)
  moreover have "can (\<lambda>area. map_option (\<lambda>_. Read) (DEVELOPER_PERMISSIONS area)) area level =
      (level = Read \<and> can DEVELOPER_PERMISSIONS area Read)"
    by (cases "DEVELOPER_PERMISSIONS area") (use level_cases in \<open>auto simp: can_def\<close>)
  moreover have "permissionsForRole (Some name) stored = DEVELOPER_PERMISSIONS" if "name \<notin> set USER_ROLES"
    using that by (simp add: permissionsForRole_def USER_ROLES_def)
  ultimately show ?thesis by (simp add: permissionsForRole_def custom) (simp add: can_def)
qed

theorem role_promises_witness:
  "\<not> can (permissionsForRole (Some ''viewer'') JNull) UsersArea Read \<and>
   permissionsForRole (Some ''guest'') JNull = permissionsForRole (Some ''developer'') JNull"
proof -
  have "''guest'' \<notin> set USER_ROLES" by (simp add: USER_ROLES_def)
  then show ?thesis
    using role_promises[of JNull UsersArea Read Map.empty "''guest''" "Some ''viewer''"] by blast
qed

text \<open>
  The developer role is narrower than its description (the whole dashboard except users and
  settings): it holds nothing at all on DNS, object storage, the registry, system and IaC, so a
  developer is refused on pages of those areas.
\<close>

theorem developer_narrower_than_described:
  "filter (\<lambda>area. \<not> can (permissionsForRole (Some ''developer'') stored) area Read) AREA_KEYS =
     [ObjectStorageArea, RegistryArea, DnsArea, SystemArea, IacArea, UsersArea, SettingsArea] \<and>
   \<not> mayVisit (permissionsForRole (Some ''developer'') stored) ''/dns?tab=records''"
proof
  have dev: "permissionsForRole (Some ''developer'') stored = DEVELOPER_PERMISSIONS"
    by (simp add: permissionsForRole_def)
  show "filter (\<lambda>area. \<not> can (permissionsForRole (Some ''developer'') stored) area Read) AREA_KEYS =
     [ObjectStorageArea, RegistryArea, DnsArea, SystemArea, IacArea, UsersArea, SettingsArea]"
    unfolding dev by (simp add: AREA_KEYS_eq can_def DEVELOPER_PERMISSIONS_def)
  have "requiredPermission ''GET'' (Some ''/(protected)/dns'') = Needs DnsArea Read" by code_simp
  then show "\<not> mayVisit (permissionsForRole (Some ''developer'') stored) ''/dns?tab=records''"
    unfolding dev mayVisit_def by (simp add: PROTECTED_GROUP_def allowed_def can_def DEVELOPER_PERMISSIONS_def)
qed

section \<open>App-only users\<close>

lemma app_prefixes_outside:
  "list_all (\<lambda>e. list_all (\<lambda>q. list_all (\<lambda>p. \<not> starts_with p (q @ ''/'') \<and> \<not> starts_with (q @ ''/'') p)
     APP_ONLY_API_PREFIXES) (ae_routes e)) PERMISSION_AREAS"
  by code_simp

lemma starts_with_within:
  assumes "routeWithin r q" and "starts_with p r"
  shows "starts_with p (q @ ''/'') \<or> starts_with (q @ ''/'') p"
proof -
  obtain s where s: "r = p @ s" using assms(2) by (auto simp: starts_with_iff)
  show ?thesis
  proof (cases "r = q")
    case True
    with s show ?thesis by (simp add: starts_with_iff)
  next
    case False
    then obtain u where "r = q @ ''/'' @ u" using assms(1) by (auto simp: routeWithin_iff)
    then have "p @ s = (q @ ''/'') @ u" using s by simp
    then show ?thesis unfolding append_eq_append_conv2 starts_with_iff by metis
  qed
qed

text \<open>
  The two guards agree on app-only users: whenever a route needs an area's permission, an
  app-only user is refused, as the API path itself or as any page rendered by that dashboard route.
\<close>

theorem app_only_never_reaches_areas:
  assumes need: "requiredPermission meth (Some r) = Needs area level"
    and path: "\<not> starts_with ''/_app/remote/'' path"
      "(if routeWithin r ''/(protected)'' then \<not> starts_with ''/api/'' path else path = r)"
  shows "\<not> appOnlyMayRequest path (Some r)"
proof (cases "routeWithin r ''/(protected)''")
  case True
  then have "r \<noteq> []" by (auto simp: routeWithin_iff)
  moreover have "r = ''/(protected)'' \<or> starts_with (''/(protected)'' @ ''/'') r" using True by (auto simp: routeWithin_def)
  ultimately show ?thesis
    using True path by (auto simp: appOnlyMayRequest_def REMOTE_PREFIX_def APP_ONLY_DENIED_ROUTES_def)
next
  case False
  then have p: "path = r" using path(2) by simp
  have api: "routeWithin r ''/api/v1''"
    using need False by (auto simp: requiredPermission_def Let_def PROTECTED_GROUP_def split: if_splits)
  then have "starts_with ''/api/'' r" by (auto simp: routeWithin_iff)
  obtain e q where q: "e \<in> set PERMISSION_AREAS" "q \<in> set (ae_routes e)" "routeWithin r q"
    using need False api
    by (auto simp: requiredPermission_def Let_def PROTECTED_GROUP_def list_ex_iff
        dest!: find_Some_iff_first split: if_splits option.splits)
  have "\<not> starts_with pre r" if "pre \<in> set APP_ONLY_API_PREFIXES" for pre
    using app_prefixes_outside q(1,2) that starts_with_within[OF q(3)] unfolding list_all_iff by blast
  then show ?thesis
    using \<open>starts_with ''/api/'' r\<close> path(1) p by (auto simp: appOnlyMayRequest_def REMOTE_PREFIX_def list_ex_iff)
qed

theorem app_only_never_reaches_areas_witness:
  "\<not> appOnlyMayRequest ''/api/v1/services/x'' (Some ''/api/v1/services/x'')"
proof -
  have n: "requiredPermission ''POST'' (Some ''/api/v1/services/x'') = Needs ServicesArea Write" by code_simp
  have "\<not> routeWithin ''/api/v1/services/x'' ''/(protected)''" by code_simp
  then show ?thesis
    using app_only_never_reaches_areas[OF n, of "''/api/v1/services/x''"] by simp
qed

end
