(* ===== verification/Service_Links.thy ===== *)
theory Service_Links
  imports Prelude
begin

text \<open>
  \<open>src/lib/service-link.ts\<close>: the connection variables a service link writes, and the host-reading
  half of \<open>src/lib/service-graph.ts\<close> (\<open>hostsIn\<close> and what uses it).

  The regular expressions are anchored or search for a word, so each is written as the scan its
  matching performs; where the matcher can backtrack (the optional user part of a URL, the quoted
  or bare password) the alternatives are tried in its order. Environments are objects from names to
  values, in insertion order. Images are taken to have no line breaks. The bullet characters that
  hide a password are a parameter, since they lie outside Latin-1.
\<close>

section \<open>Engines\<close>

datatype LinkFormat = FUrl | FPostgresql | FJdbc | FVars

datatype LinkEngineId = EPostgres | EMysql | EMariadb | EMongo | ERedis | ERabbitmq | EGeneric

record LinkEngine =
  le_defaultPort :: nat
  le_defaultUrlKey :: string
  le_defaultVarPrefix :: string
  le_id :: LinkEngineId
  le_label :: string
  le_supportsJdbc :: bool

record LinkTargetService =
  lt_command :: "string list option"
  lt_containerPort :: nat
  lt_envVars :: "(string \<times> string) list"
  lt_image :: string
  lt_name :: string
  lt_slug :: string

fun ENGINES :: "LinkEngineId \<Rightarrow> LinkEngine" where
  "ENGINES EGeneric = \<lparr>le_defaultPort = 80, le_defaultUrlKey = ''SERVICE_URL'', le_defaultVarPrefix = ''SERVICE'',
     le_id = EGeneric, le_label = ''HTTP service'', le_supportsJdbc = False\<rparr>"
| "ENGINES EMariadb = \<lparr>le_defaultPort = 3306, le_defaultUrlKey = ''MYSQL_URL'', le_defaultVarPrefix = ''MYSQL'',
     le_id = EMariadb, le_label = ''MariaDB'', le_supportsJdbc = True\<rparr>"
| "ENGINES EMongo = \<lparr>le_defaultPort = 27017, le_defaultUrlKey = ''MONGO_URL'', le_defaultVarPrefix = ''MONGO'',
     le_id = EMongo, le_label = ''MongoDB'', le_supportsJdbc = False\<rparr>"
| "ENGINES EMysql = \<lparr>le_defaultPort = 3306, le_defaultUrlKey = ''MYSQL_URL'', le_defaultVarPrefix = ''MYSQL'',
     le_id = EMysql, le_label = ''MySQL'', le_supportsJdbc = True\<rparr>"
| "ENGINES EPostgres = \<lparr>le_defaultPort = 5432, le_defaultUrlKey = ''POSTGRES_URL'', le_defaultVarPrefix = ''POSTGRES'',
     le_id = EPostgres, le_label = ''PostgreSQL'', le_supportsJdbc = True\<rparr>"
| "ENGINES ERabbitmq = \<lparr>le_defaultPort = 5672, le_defaultUrlKey = ''AMQP_URL'', le_defaultVarPrefix = ''AMQP'',
     le_id = ERabbitmq, le_label = ''RabbitMQ'', le_supportsJdbc = False\<rparr>"
| "ENGINES ERedis = \<lparr>le_defaultPort = 6379, le_defaultUrlKey = ''REDIS_URL'', le_defaultVarPrefix = ''REDIS'',
     le_id = ERedis, le_label = ''Redis'', le_supportsJdbc = False\<rparr>"

text \<open>\<open>p\<close> at the start of the string or right after a slash.\<close>

fun segment_starts :: "string \<Rightarrow> string \<Rightarrow> bool" where
  "segment_starts p [] \<longleftrightarrow> p = []"
| "segment_starts p (c # cs) \<longleftrightarrow> (c = CHR ''/'' \<and> starts_with p cs) \<or> segment_starts p cs"

definition at_segment :: "string \<Rightarrow> string \<Rightarrow> bool" where
  "at_segment p s \<longleftrightarrow> starts_with p s \<or> segment_starts p s"

definition IMAGE_MATCHERS :: "((string \<Rightarrow> bool) \<times> LinkEngineId) list" where
  "IMAGE_MATCHERS = [
     (\<lambda>s. at_segment ''timescale/timescaledb'' s \<or> at_segment ''postgis/postgis'' s \<or> contains_str ''postgres'' s, EPostgres),
     (\<lambda>s. contains_str ''mariadb'' s, EMariadb),
     (\<lambda>s. contains_str ''mysql'' s \<or> contains_str ''percona'' s, EMysql),
     (\<lambda>s. contains_str ''mongo'' s, EMongo),
     (\<lambda>s. contains_str ''redis'' s \<or> contains_str ''valkey'' s \<or> contains_str ''dragonfly'' s \<or>
          contains_str ''keydb'' s \<or> contains_str ''garnet'' s, ERedis),
     (\<lambda>s. contains_str ''rabbitmq'' s, ERabbitmq)]"

definition detectLinkEngine :: "string \<Rightarrow> LinkEngine" where
  "detectLinkEngine img =
     (case List.find (\<lambda>(pat, i). pat (lower img)) IMAGE_MATCHERS of
        Some (pat, i) \<Rightarrow> ENGINES i
      | None \<Rightarrow> ENGINES EGeneric)"

definition isDatabaseImage :: "string \<Rightarrow> bool" where
  "isDatabaseImage img \<longleftrightarrow>
     le_id (detectLinkEngine img) \<noteq> EGeneric \<or> contains_str ''memcached'' (lower img)"

fun DATA_PATHS :: "LinkEngineId \<Rightarrow> string option" where
  "DATA_PATHS EMariadb = Some ''/var/lib/mysql''"
| "DATA_PATHS EMongo = Some ''/data/db''"
| "DATA_PATHS EMysql = Some ''/var/lib/mysql''"
| "DATA_PATHS ERabbitmq = Some ''/var/lib/rabbitmq''"
| "DATA_PATHS ERedis = Some ''/data''"
| "DATA_PATHS _ = None"

text \<open>\<open>/(?:^|pg)(\d+)/\<close>: digits at the start, else the digits after the first \<open>pg\<close> that has some.\<close>

fun digits_after_pg :: "string \<Rightarrow> string option" where
  "digits_after_pg [] = None"
| "digits_after_pg (c # cs) =
     (if starts_with ''pg'' (c # cs) \<and> takeWhile is_digit (drop 2 (c # cs)) \<noteq> []
      then Some (takeWhile is_digit (drop 2 (c # cs)))
      else digits_after_pg cs)"

definition majorOf :: "string \<Rightarrow> nat option" where
  "majorOf tag =
     (if takeWhile is_digit tag \<noteq> [] then Some (read_nat (takeWhile is_digit tag))
      else map_option read_nat (digits_after_pg tag))"

definition dataPathFor :: "string \<Rightarrow> string \<Rightarrow> string option" where
  "dataPathFor img tag =
     (let engine = le_id (detectLinkEngine img)
      in if engine \<noteq> EPostgres then DATA_PATHS engine
         else (case majorOf tag of
                 Some major \<Rightarrow> Some (if major < 18 then ''/var/lib/postgresql/data'' else ''/var/lib/postgresql'')
               | None \<Rightarrow> Some ''/var/lib/postgresql''))"

text \<open>\<open>linkRoles\<close> only reads the two images: the consumer and the provider, in this order.\<close>

definition linkRoles :: "('a \<Rightarrow> string) \<Rightarrow> 'a \<Rightarrow> 'a \<Rightarrow> 'a \<times> 'a" where
  "linkRoles imageOf source target =
     (if isDatabaseImage (imageOf source) \<and> \<not> isDatabaseImage (imageOf target)
      then (target, source) else (source, target))"

definition is_key_char :: "char \<Rightarrow> bool" where
  "is_key_char c \<longleftrightarrow> is_upper_ascii c \<or> is_digit c"

definition envKeyPrefix :: "string \<Rightarrow> string" where
  "envKeyPrefix slug =
     (let cleaned = strip_trailing (CHR ''_'') (dropWhile (\<lambda>c. c = CHR ''_'')
            (replace_runs (\<lambda>c. \<not> is_key_char c) ''_'' (upper slug)))
      in if cleaned \<noteq> [] \<and> is_upper_ascii (hd cleaned) then cleaned else ''SVC_'' @ cleaned)"

definition defaultVarPrefix :: "LinkEngine \<Rightarrow> LinkTargetService \<Rightarrow> string" where
  "defaultVarPrefix engine target =
     (if le_id engine = EGeneric then envKeyPrefix (lt_slug target) else le_defaultVarPrefix engine)"

definition defaultUrlKey :: "LinkEngine \<Rightarrow> LinkTargetService \<Rightarrow> string" where
  "defaultUrlKey engine target =
     (if le_id engine = EGeneric then envKeyPrefix (lt_slug target) @ ''_URL'' else le_defaultUrlKey engine)"

section \<open>Credentials\<close>

record Credentials =
  cr_database :: "string option"
  cr_password :: string
  cr_scheme :: string
  cr_user :: string

fun firstOf :: "(string \<times> string) list \<Rightarrow> string list \<Rightarrow> string \<Rightarrow> string" where
  "firstOf envVars [] fallback = fallback"
| "firstOf envVars (key # keys) fallback =
     (case map_of envVars key of
        Some v \<Rightarrow> if v \<noteq> [] then v else firstOf envVars keys fallback
      | None \<Rightarrow> firstOf envVars keys fallback)"

text \<open>
  \<open>--requirepass(?:=|\s+)(?:'...'|"..."|\S+)\<close> at the start of \<open>s\<close>, after the flag: the value's text.
\<close>

definition passValue :: "string \<Rightarrow> string option" where
  "passValue s =
     (let quoted = (\<lambda>q. case s of
            c # cs \<Rightarrow> if c = q \<and> q \<in> set cs then Some (takeWhile (\<lambda>x. x \<noteq> q) cs) else None
          | [] \<Rightarrow> None);
          bare = takeWhile (\<lambda>c. \<not> is_ws c) s
      in case quoted (CHR 0x27) of
           Some v \<Rightarrow> Some v
         | None \<Rightarrow> (case quoted (CHR 0x22) of
                      Some v \<Rightarrow> Some v
                    | None \<Rightarrow> if bare \<noteq> [] then Some bare else None))"

fun findPass :: "string \<Rightarrow> string option" where
  "findPass [] = None"
| "findPass (c # cs) =
     (let s = c # cs;
          rest = drop (length ''--requirepass'') s;
          value = (if \<not> starts_with ''--requirepass'' s then None
                   else (case rest of
                           [] \<Rightarrow> None
                         | d # ds \<Rightarrow> if d = CHR ''='' then passValue ds
                                     else if is_ws d then passValue (dropWhile is_ws ds)
                                     else None))
      in case value of Some v \<Rightarrow> Some v | None \<Rightarrow> findPass cs)"

definition requirePassword :: "string list option \<Rightarrow> string" where
  "requirePassword command =
     (case findPass (join '' '' (case command of None \<Rightarrow> [] | Some c \<Rightarrow> c)) of
        Some v \<Rightarrow> v
      | None \<Rightarrow> [])"

definition credentialsFor :: "LinkEngine \<Rightarrow> LinkTargetService \<Rightarrow> Credentials" where
  "credentialsFor engine target =
     (let env = lt_envVars target
      in case le_id engine of
           EPostgres \<Rightarrow> \<lparr>
             cr_database = Some (firstOf env [''POSTGRES_DB''] (firstOf env [''POSTGRES_USER''] ''postgres'')),
             cr_password = firstOf env [''POSTGRES_PASSWORD''] [],
             cr_scheme = ''postgres'',
             cr_user = firstOf env [''POSTGRES_USER''] ''postgres''\<rparr>
         | EMongo \<Rightarrow> \<lparr>
             cr_database = (case map_of env ''MONGO_INITDB_DATABASE'' of
                              Some d \<Rightarrow> if d = [] then None else Some d | None \<Rightarrow> None),
             cr_password = firstOf env [''MONGO_INITDB_ROOT_PASSWORD''] [],
             cr_scheme = ''mongodb'',
             cr_user = firstOf env [''MONGO_INITDB_ROOT_USERNAME''] ''root''\<rparr>
         | ERedis \<Rightarrow> \<lparr>
             cr_database = None,
             cr_password = firstOf env [''REDIS_PASSWORD'', ''VALKEY_PASSWORD''] (requirePassword (lt_command target)),
             cr_scheme = ''redis'',
             cr_user = []\<rparr>
         | ERabbitmq \<Rightarrow> \<lparr>
             cr_database = None,
             cr_password = firstOf env [''RABBITMQ_DEFAULT_PASS''] ''guest'',
             cr_scheme = ''amqp'',
             cr_user = firstOf env [''RABBITMQ_DEFAULT_USER''] ''guest''\<rparr>
         | EGeneric \<Rightarrow> \<lparr>cr_database = None, cr_password = [], cr_scheme = ''http'', cr_user = []\<rparr>
         | _ \<Rightarrow> \<lparr>
             cr_database = Some (firstOf env [''MYSQL_DATABASE'', ''MARIADB_DATABASE''] ''mysql''),
             cr_password = firstOf env [''MYSQL_PASSWORD'', ''MARIADB_PASSWORD'', ''MYSQL_ROOT_PASSWORD'',
               ''MARIADB_ROOT_PASSWORD''] [],
             cr_scheme = ''mysql'',
             cr_user = firstOf env [''MYSQL_USER'', ''MARIADB_USER''] ''root''\<rparr>)"

text \<open>\<open>encodeURIComponent\<close>: other than unreserved characters, each UTF-8 byte as \<open>%XX\<close>.\<close>

definition uri_unreserved :: "char \<Rightarrow> bool" where
  "uri_unreserved c \<longleftrightarrow> is_lower_ascii c \<or> is_upper_ascii c \<or> is_digit c \<or>
     c \<in> set [CHR ''-'', CHR ''_'', CHR ''.'', CHR ''!'', CHR ''~'', CHR ''*'', CHR 0x27, CHR ''('', CHR '')'']"

definition hex_digit :: "nat \<Rightarrow> char" where
  "hex_digit n = (if n < 10 then char_of (48 + n) else char_of (55 + n))"

definition percent :: "nat \<Rightarrow> string" where
  "percent b = [CHR ''%'', hex_digit (b div 16 mod 16), hex_digit (b mod 16)]"

definition encodeChar :: "char \<Rightarrow> string" where
  "encodeChar c =
     (let n = (of_char c :: nat)
      in if uri_unreserved c then [c]
         else if n < 128 then percent n
         else percent (192 + n div 64) @ percent (128 + n mod 64))"

definition encodeURIComponent :: "string \<Rightarrow> string" where
  "encodeURIComponent s = concat (map encodeChar s)"

definition authorityFor :: "Credentials \<Rightarrow> string \<Rightarrow> string" where
  "authorityFor credentials host =
     (if cr_user credentials = [] \<and> cr_password credentials = [] then host
      else encodeURIComponent (cr_user credentials) @
           (if cr_password credentials \<noteq> [] then '':'' @ encodeURIComponent (cr_password credentials) else []) @
           ''@'' @ host)"

definition jdbcDriver :: "LinkEngine \<Rightarrow> string" where
  "jdbcDriver engine = (if le_id engine = EPostgres then ''postgresql'' else ''mysql'')"

definition linkPort :: "LinkEngine \<Rightarrow> LinkTargetService \<Rightarrow> nat" where
  "linkPort engine target = (if lt_containerPort target \<noteq> 0 then lt_containerPort target else le_defaultPort engine)"

definition buildLinkUrl :: "LinkEngine \<Rightarrow> LinkTargetService \<Rightarrow> LinkFormat \<Rightarrow> string" where
  "buildLinkUrl engine target format =
     (let credentials = credentialsFor engine target;
          host = lt_slug target @ '':'' @ show_nat (linkPort engine target);
          path = (case cr_database credentials of Some d \<Rightarrow> (if d = [] then [] else ''/'' @ d) | None \<Rightarrow> [])
      in if format = FJdbc then
           (let params = filter (\<lambda>p. p \<noteq> [])
                  [if cr_user credentials \<noteq> [] then ''user='' @ encodeURIComponent (cr_user credentials) else [],
                   if cr_password credentials \<noteq> [] then ''password='' @ encodeURIComponent (cr_password credentials) else []];
                query = (if params \<noteq> [] then ''?'' @ join ''&'' params else [])
            in ''jdbc:'' @ jdbcDriver engine @ ''://'' @ host @ path @ query)
         else
           (let scheme = (if format = FPostgresql \<and> le_id engine = EPostgres then ''postgresql'' else cr_scheme credentials)
            in scheme @ ''://'' @ authorityFor credentials host @ path))"

definition linkFormatsFor :: "LinkEngine option \<Rightarrow> (LinkFormat \<times> string) list" where
  "linkFormatsFor engine =
     (let pg = (map_option le_id engine = Some EPostgres)
      in [(FUrl, if pg then ''Connection URL (postgres://)'' else ''Connection URL'')] @
         (if pg then [(FPostgresql, ''Connection URL (postgresql://)'')] else []) @
         (if map_option le_supportsJdbc engine = Some True then [(FJdbc, ''JDBC URL'')] else []) @
         [(FVars, ''One variable per value'')])"

definition varRows :: "LinkEngine \<Rightarrow> LinkTargetService \<Rightarrow> string \<Rightarrow> (string \<times> string) list" where
  "varRows engine target prefix =
     (let credentials = credentialsFor engine target
      in [(prefix @ ''_HOST'', lt_slug target),
          (prefix @ ''_PORT'', show_nat (linkPort engine target))] @
         (if cr_user credentials \<noteq> [] then [(prefix @ ''_USER'', cr_user credentials)] else []) @
         (if cr_password credentials \<noteq> [] then [(prefix @ ''_PASSWORD'', cr_password credentials)] else []) @
         (case cr_database credentials of
            Some d \<Rightarrow> if d \<noteq> [] then [(prefix @ ''_DB'', d)] else []
          | None \<Rightarrow> []))"

definition buildLinkEnv :: "LinkFormat \<Rightarrow> string \<Rightarrow> LinkTargetService \<Rightarrow> string \<Rightarrow> (string \<times> string) list" where
  "buildLinkEnv format prefix target urlKey =
     (let engine = detectLinkEngine (lt_image target)
      in if format = FVars then varRows engine target prefix
         else [(urlKey, buildLinkUrl engine target format)])"

definition internalUrl :: "LinkTargetService \<Rightarrow> string" where
  "internalUrl target =
     (let engine = detectLinkEngine (lt_image target)
      in if le_id engine = EGeneric
         then ''http://'' @ lt_slug target @ '':'' @ show_nat (lt_containerPort target)
         else buildLinkUrl engine target FUrl)"

text \<open>
  \<open>(:\/\/[^:/@]*:)[^@/]+@\<close>: the length of the kept group and what follows the \<open>@\<close>, when the
  pattern matches at the start of \<open>s\<close>.
\<close>

definition passwordAt :: "string \<Rightarrow> (string \<times> string) option" where
  "passwordAt s =
     (if \<not> starts_with ''://'' s then None
      else
        (let rest = drop 3 s;
             user = takeWhile (\<lambda>c. c \<noteq> CHR '':'' \<and> c \<noteq> CHR ''/'' \<and> c \<noteq> CHR ''@'') rest
         in case drop (length user) rest of
              [] \<Rightarrow> None
            | c # cs \<Rightarrow>
                (let pw = takeWhile (\<lambda>x. x \<noteq> CHR ''@'' \<and> x \<noteq> CHR ''/'') cs
                 in if c = CHR '':'' \<and> pw \<noteq> [] \<and> drop (length pw) cs \<noteq> [] \<and> hd (drop (length pw) cs) = CHR ''@''
                    then Some (''://'' @ user @ '':'', tl (drop (length pw) cs)) else None)))"

fun maskUrlPassword :: "string \<Rightarrow> string \<Rightarrow> string" where
  "maskUrlPassword dots [] = []"
| "maskUrlPassword dots (c # cs) =
     (case passwordAt (c # cs) of
        Some (kept, rest) \<Rightarrow> kept @ dots @ ''@'' @ rest
      | None \<Rightarrow> c # maskUrlPassword dots cs)"

section \<open>Hosts in env values\<close>

definition is_alnum :: "char \<Rightarrow> bool" where
  "is_alnum c \<longleftrightarrow> is_lower_ascii c \<or> is_upper_ascii c \<or> is_digit c"

definition is_host_char :: "char \<Rightarrow> bool" where
  "is_host_char c \<longleftrightarrow> is_alnum c \<or> c = CHR ''.'' \<or> c = CHR ''-''"

definition not_in :: "string \<Rightarrow> char \<Rightarrow> bool" where
  "not_in cs c \<longleftrightarrow> c \<notin> set cs"

text \<open>
  \<open>URL_HOST_RE\<close>'s group: after the scheme, the host behind the user part if there is a user part
  and a host behind it, else the host right after the scheme.
\<close>

definition URL_HOST_RE :: "string \<Rightarrow> string option" where
  "URL_HOST_RE s =
     (case s of
        [] \<Rightarrow> None
      | c # cs \<Rightarrow>
          (let scheme = takeWhile (\<lambda>x. is_alnum x \<or> x = CHR ''+'' \<or> x = CHR ''.'' \<or> x = CHR ''-'') cs;
               rest = drop (length scheme) cs;
               host = (\<lambda>t. takeWhile (not_in '':/?#@'') t)
           in if (is_lower_ascii c \<or> is_upper_ascii c) \<and> starts_with ''://'' rest then
                (let body = drop 3 rest;
                     user = takeWhile (not_in ''@/?#'') body;
                     behind = drop (length user) body
                 in if behind \<noteq> [] \<and> hd behind = CHR ''@'' \<and> host (tl behind) \<noteq> [] then Some (host (tl behind))
                    else if host body \<noteq> [] then Some (host body) else None)
              else None))"

definition BARE_HOST_RE :: "string \<Rightarrow> bool" where
  "BARE_HOST_RE s \<longleftrightarrow> s \<noteq> [] \<and> list_all is_host_char s \<and> is_alnum (hd s) \<and> is_alnum (last s)"

definition HOST_PORT_RE :: "string \<Rightarrow> string option" where
  "HOST_PORT_RE s =
     (let host = takeWhile (\<lambda>c. c \<noteq> CHR '':'') s;
          rest = drop (length host) s;
          port = takeWhile is_digit (tl rest);
          tail = drop (length port) (tl rest)
      in if BARE_HOST_RE host \<and> rest \<noteq> [] \<and> port \<noteq> [] \<and>
            (tail = [] \<or> (hd tail = CHR ''/'' \<and> CHR 10 \<notin> set tail \<and> CHR 13 \<notin> set tail))
         then Some host else None)"

definition HOST_WORDS :: "string list" where
  "HOST_WORDS = [''HOST'', ''HOSTNAME'', ''URL'', ''URI'', ''ADDR'', ''ADDRESS'', ''SERVER'', ''ENDPOINT'', ''DSN'',
     ''UPSTREAM'', ''BACKEND'', ''BROKER'', ''BROKERS'', ''NODE'', ''NODES'']"

text \<open>\<open>HOST_KEY_RE\<close>: one of the underscore-separated pieces of the key is such a word, in any case.\<close>

definition HOST_KEY_RE :: "string \<Rightarrow> bool" where
  "HOST_KEY_RE key \<longleftrightarrow> list_ex (\<lambda>w. upper w \<in> set HOST_WORDS) (split_on (CHR ''_'') key)"

definition is_list_sep :: "char \<Rightarrow> bool" where
  "is_list_sep c \<longleftrightarrow> is_ws c \<or> c = CHR '','' \<or> c = CHR '';''"

definition hostOf :: "string \<Rightarrow> string \<Rightarrow> string option" where
  "hostOf key part =
     (case URL_HOST_RE part of
        Some h \<Rightarrow> Some h
      | None \<Rightarrow> (case HOST_PORT_RE part of
                   Some h \<Rightarrow> Some h
                 | None \<Rightarrow> if HOST_KEY_RE key \<and> BARE_HOST_RE part then Some part else None))"

definition hostsIn :: "string \<Rightarrow> string \<Rightarrow> string list" where
  "hostsIn v key = map lower (List.map_filter (hostOf key) (split_runs is_list_sep v))"

definition referencesHost :: "string \<Rightarrow> string \<Rightarrow> string \<Rightarrow> bool" where
  "referencesHost v slug key \<longleftrightarrow> lower slug \<in> set (hostsIn v key)"

definition linkKeys :: "(string \<times> string) list option \<Rightarrow> string \<Rightarrow> string list" where
  "linkKeys envVars slug =
     map fst (filter (\<lambda>(key, v). referencesHost v slug key) (case envVars of None \<Rightarrow> [] | Some e \<Rightarrow> e))"

end
