(* ===== verification/Service_Graph.thy ===== *)
theory Service_Graph
  imports Service_Links
begin

text \<open>
  \<open>src/lib/service-graph.ts\<close>: the dependency graph of services. A dependency map is a JavaScript
  \<open>Map\<close> from a service id to the ids it depends on; \<open>depsOf deps i\<close> is \<open>deps.get(i) ?? []\<close>. Sets the
  code only tests membership in are lists. A stack the code pushes to and pops from the end of is a
  list with its top first.
\<close>

section \<open>Data\<close>

type_synonym dep_map = "string list js_map"

record GraphService =
  gs_envVars :: "(string \<times> string) list option"
  gs_id :: string
  gs_slug :: string

record BackfillService = GraphService +
  bs_createdAt :: timestamp
  bs_image :: string
  bs_stackId :: "string option"

record GraphServiceInfo =
  gi_category :: "string option"
  gi_containerId :: "string option"
  gi_currentStatus :: string
  gi_desiredState :: string
  gi_domain :: "string option"
  gi_icon :: "string option"
  gi_id :: string
  gi_image :: string
  gi_name :: string
  gi_slug :: string
  gi_stackId :: "string option"

datatype PreviewKind = Canary | EnvironmentOf string | Preview "string option" int "string option"

record PreviewRow =
  pr_currentStatus :: string
  pr_id :: string
  pr_name :: string
  pr_parentId :: string
  pr_kind :: PreviewKind

datatype DependencyNode = DependencyNode (dn_children: "DependencyNode list") (dn_id: string) (dn_repeat: bool)

datatype DependencySource = FromBoth | FromEnv | FromRecorded

definition depsOf :: "dep_map \<Rightarrow> string \<Rightarrow> string list" where
  "depsOf deps i = (case map_of deps i of Some ds \<Rightarrow> ds | None \<Rightarrow> [])"

section \<open>Rows and trees\<close>

text \<open>\<open>toGraphService\<close> joins the row's image and tag; the main domain is left out.\<close>

definition toGraphService :: "GraphServiceInfo \<Rightarrow> string \<Rightarrow> GraphServiceInfo" where
  "toGraphService row tag = row\<lparr>gi_domain := None, gi_image := gi_image row @ '':'' @ tag\<rparr>"

definition toPreviewRow ::
  "bool \<Rightarrow> string \<Rightarrow> string option \<Rightarrow> string \<Rightarrow> string \<Rightarrow> string option \<Rightarrow> string option \<Rightarrow> int option \<Rightarrow> string option \<Rightarrow> PreviewRow" where
  "toPreviewRow channelCanary currentStatus environmentName i name previewBranch previewParentId previewPrNumber previewPrTitle =
     \<lparr>pr_currentStatus = currentStatus, pr_id = i, pr_name = name,
      pr_parentId = (case previewParentId of None \<Rightarrow> [] | Some p \<Rightarrow> p),
      pr_kind = (if channelCanary then Canary
                 else (case previewPrNumber of
                         None \<Rightarrow> EnvironmentOf (case environmentName of None \<Rightarrow> ''environment'' | Some e \<Rightarrow> e)
                       | Some n \<Rightarrow> Preview previewBranch n previewPrTitle))\<rparr>"

definition previewsByParent :: "PreviewRow list \<Rightarrow> PreviewRow list js_map" where
  "previewsByParent previews =
     fold (\<lambda>preview byParent. AList.update (pr_parentId preview)
         ((case map_of byParent (pr_parentId preview) of Some ps \<Rightarrow> ps | None \<Rightarrow> []) @ [preview]) byParent)
       previews []"

fun filterForest :: "(string \<Rightarrow> bool) \<Rightarrow> DependencyNode list \<Rightarrow> DependencyNode list" where
  "filterForest keep [] = []"
| "filterForest keep (DependencyNode children i r # nodes) =
     (let kept = filterForest keep children
      in (if keep i \<or> kept \<noteq> [] then [DependencyNode kept i r] else []) @ filterForest keep nodes)"

definition matchesServiceQuery :: "GraphServiceInfo \<Rightarrow> string \<Rightarrow> bool" where
  "matchesServiceQuery svc query =
     (let needle = lower (trim query)
      in needle = [] \<or>
         list_ex (\<lambda>field. contains_str needle (lower field))
           [gi_name svc, gi_slug svc, gi_image svc, case gi_domain svc of None \<Rightarrow> [] | Some d \<Rightarrow> d])"

definition envEntries :: "(string \<times> string) list option \<Rightarrow> (string \<times> string) list" where
  "envEntries envVars = (case envVars of None \<Rightarrow> [] | Some e \<Rightarrow> e)"

definition dependencyMap :: "('a GraphService_scheme) list \<Rightarrow> dep_map" where
  "dependencyMap services =
     fold (\<lambda>from deps. AList.update (gs_id from)
         (map gs_id (filter (\<lambda>to. gs_id to \<noteq> gs_id from \<and>
            list_ex (\<lambda>(key, v). referencesHost v (gs_slug to) key) (envEntries (gs_envVars from))) services)) deps)
       services []"

text \<open>
  \<open>build\<close> in \<open>dependencyForest\<close>, with the \<open>expanded\<close> set it mutates threaded through. \<open>None\<close> is
  running out of fuel; \<open>dependencyForest\<close> passes one more than there are members.
\<close>

function (sequential) build :: "nat \<Rightarrow> string list \<Rightarrow> dep_map \<Rightarrow> string list \<Rightarrow> string list \<Rightarrow> string
      \<Rightarrow> (DependencyNode \<times> string list) option"
  and buildAll :: "nat \<Rightarrow> string list \<Rightarrow> dep_map \<Rightarrow> string list \<Rightarrow> string list \<Rightarrow> string list
      \<Rightarrow> (DependencyNode list \<times> string list) option" where
  "build 0 members deps expanded path i = None"
| "build (Suc fuel) members deps expanded path i =
     (if i \<in> set expanded \<or> i \<in> set path then Some (DependencyNode [] i True, expanded)
      else if i \<notin> set members then Some (DependencyNode [] i False, expanded)
      else (case buildAll fuel members deps (i # expanded) (i # path) (depsOf deps i) of
              None \<Rightarrow> None
            | Some (children, expanded') \<Rightarrow> Some (DependencyNode children i False, expanded')))"
| "buildAll fuel members deps expanded path [] = Some ([], expanded)"
| "buildAll fuel members deps expanded path (d # ds) =
     (case build fuel members deps expanded path d of
        None \<Rightarrow> None
      | Some (node, expanded') \<Rightarrow>
          (case buildAll fuel members deps expanded' path ds of
             None \<Rightarrow> None
           | Some (nodes, expanded'') \<Rightarrow> Some (node # nodes, expanded'')))"
  by pat_completeness auto
termination
  by (relation "measures [\<lambda>x. (case x of Inl (n, _) \<Rightarrow> n | Inr (n, _) \<Rightarrow> n),
      \<lambda>x. (case x of Inl _ \<Rightarrow> 0 | Inr (_, _, _, _, _, ds) \<Rightarrow> Suc (length ds))]") auto

definition dependedOn :: "string list \<Rightarrow> dep_map \<Rightarrow> string list" where
  "dependedOn memberIds deps = concat (map (\<lambda>i. filter (\<lambda>d. d \<in> set memberIds) (depsOf deps i)) memberIds)"

text \<open>The second loop: a tree for each member no tree has expanded yet.\<close>

fun buildMissing :: "nat \<Rightarrow> string list \<Rightarrow> dep_map \<Rightarrow> string list \<Rightarrow> string list \<Rightarrow> (DependencyNode list \<times> string list) option" where
  "buildMissing fuel members deps expanded [] = Some ([], expanded)"
| "buildMissing fuel members deps expanded (i # ids) =
     (if i \<in> set expanded then buildMissing fuel members deps expanded ids
      else (case build fuel members deps expanded [] i of
              None \<Rightarrow> None
            | Some (node, expanded') \<Rightarrow>
                (case buildMissing fuel members deps expanded' ids of
                   None \<Rightarrow> None
                 | Some (nodes, expanded'') \<Rightarrow> Some (node # nodes, expanded''))))"

definition dependencyForest :: "string list \<Rightarrow> dep_map \<Rightarrow> DependencyNode list option" where
  "dependencyForest memberIds deps =
     (let fuel = Suc (length memberIds);
          roots = filter (\<lambda>i. i \<notin> set (dependedOn memberIds deps)) memberIds
      in case buildAll fuel memberIds deps [] [] roots of
           None \<Rightarrow> None
         | Some (forest, expanded) \<Rightarrow>
             map_option (\<lambda>(more, _). forest @ more) (buildMissing fuel memberIds deps expanded memberIds))"

section \<open>Layers\<close>

definition relax :: "nat \<Rightarrow> string \<times> string \<Rightarrow> (string \<Rightarrow> nat) \<times> bool \<Rightarrow> (string \<Rightarrow> nat) \<times> bool" where
  "relax n e st =
     (let (depth, changed) = st; (i, dep) = e; wanted = depth i + 1
      in if wanted > depth dep \<and> wanted < n then (depth(dep := wanted), True) else (depth, changed))"

text \<open>The edges between the given ids, in the order the two inner loops visit them.\<close>

definition innerEdges :: "string list \<Rightarrow> dep_map \<Rightarrow> (string \<times> string) list" where
  "innerEdges ids deps = concat (map (\<lambda>i. map (\<lambda>d. (i, d)) (filter (\<lambda>d. d \<in> set ids) (depsOf deps i))) ids)"

fun layerPasses :: "nat \<Rightarrow> nat \<Rightarrow> (string \<times> string) list \<Rightarrow> (string \<Rightarrow> nat) \<Rightarrow> (string \<Rightarrow> nat)" where
  "layerPasses 0 n edges depth = depth"
| "layerPasses (Suc pass) n edges depth =
     (let (depth', changed) = fold (relax n) edges (depth, False)
      in if changed then layerPasses pass n edges depth' else depth')"

text \<open>\<open>depth.get(i) ?? 0\<close> is a function that is 0 outside the map.\<close>

definition layerDepth :: "string list \<Rightarrow> dep_map \<Rightarrow> string \<Rightarrow> nat" where
  "layerDepth ids deps = layerPasses (length ids) (length ids) (innerEdges ids deps) (\<lambda>_. 0)"

definition dependencyLayers :: "string list \<Rightarrow> dep_map \<Rightarrow> string list list" where
  "dependencyLayers ids deps =
     (let depth = layerDepth ids deps
      in filter (\<lambda>row. row \<noteq> []) (map (\<lambda>r. filter (\<lambda>i. depth i = r) ids) [0..<Suc (length ids)]))"

text \<open>The deploy order of a stack's linked services (\<open>enqueueStackDeploy\<close>): the lowest row first.\<close>

definition stackDeployOrder :: "string list \<Rightarrow> dep_map \<Rightarrow> string list" where
  "stackDeployOrder linked deps = concat (rev (dependencyLayers linked deps))"

section \<open>Edges and loops\<close>

definition mergeDependencies :: "dep_map list \<Rightarrow> dep_map" where
  "mergeDependencies maps =
     fold (\<lambda>m merged. fold (\<lambda>(i, ds) merged. AList.update i (js_unique (depsOf merged i @ ds)) merged) m merged) maps []"

function createsCycleLoop :: "string \<Rightarrow> dep_map \<Rightarrow> string list \<Rightarrow> string list \<Rightarrow> bool" where
  "createsCycleLoop from deps seen [] = False"
| "createsCycleLoop from deps seen (current # stack) =
     (if current = from then True
      else if current \<notin> set seen
        then createsCycleLoop from deps (current # seen) (rev (depsOf deps current) @ stack)
        else createsCycleLoop from deps seen stack)"
  by pat_completeness auto
termination
proof (relation "measures [\<lambda>(from, deps, seen, stack). card (fst ` set deps - set seen),
    \<lambda>(from, deps, seen, stack). length stack]", goal_cases)
  case (2 start deps seen current stack)
  show ?case
  proof (cases "current \<in> fst ` set deps")
    case True
    have "fst ` set deps - set (current # seen) \<subset> fst ` set deps - set seen" using True 2 by auto
    then have "card (fst ` set deps - set (current # seen)) < card (fst ` set deps - set seen)"
      by (intro psubset_card_mono) auto
    then show ?thesis by simp
  next
    case False
    then have "depsOf deps current = []" by (simp add: depsOf_def map_of_eq_None_iff[THEN iffD2])
    moreover have "fst ` set deps - set (current # seen) = fst ` set deps - set seen" using False by auto
    ultimately show ?thesis by simp
  qed
qed auto

definition createsCycle :: "string \<Rightarrow> string \<Rightarrow> dep_map \<Rightarrow> bool" where
  "createsCycle from to deps = createsCycleLoop from deps [] [to]"

text \<open>The state of \<open>backfillEdges\<close>: edges to add, edges that would close a loop, the working map.\<close>

type_synonym backfill_state = "(string \<times> string) list \<times> (string \<times> string) list \<times> dep_map"

definition backfillOne ::
  "dep_map \<Rightarrow> timestamp \<Rightarrow> BackfillService \<Rightarrow> BackfillService \<Rightarrow> backfill_state \<Rightarrow> backfill_state" where
  "backfillOne recorded before from to st =
     (let (add, cycles, working) = st;
          sameStack = (bs_stackId from \<noteq> None \<and> bs_stackId from = bs_stackId to);
          byUrl = list_ex (\<lambda>(_, v). lower (gs_slug to) \<in> set (hostsIn v [])) (envEntries (gs_envVars from));
          (consumer, provider) = linkRoles bs_image from to
      in if \<not> (sameStack \<or> byUrl) \<or> bs_createdAt consumer \<ge> before \<or>
            depsOf recorded (gs_id consumer) \<noteq> [] \<or> gs_id provider \<in> set (depsOf working (gs_id consumer))
         then st
         else if createsCycle (gs_id consumer) (gs_id provider) working
         then (add, cycles @ [(gs_id consumer, gs_id provider)], working)
         else (add @ [(gs_id consumer, gs_id provider)], cycles,
               AList.update (gs_id consumer) (depsOf working (gs_id consumer) @ [gs_id provider]) working))"

definition backfillEdges :: "BackfillService list \<Rightarrow> dep_map \<Rightarrow> timestamp \<Rightarrow> backfill_state" where
  "backfillEdges services recorded before =
     (let byId = fold (\<lambda>svc m. AList.update (gs_id svc) svc m) services [];
          pick = (\<lambda>i. the (map_of byId i))
      in fold (\<lambda>(fromId, toIds) st. fold (\<lambda>toId st. backfillOne recorded before (pick fromId) (pick toId) st) toIds st)
           (dependencyMap services) ([], [], mergeDependencies [recorded]))"

definition sourceOf :: "dep_map \<Rightarrow> dep_map \<Rightarrow> string \<Rightarrow> string \<Rightarrow> DependencySource option" where
  "sourceOf env recorded from to =
     (let byEnv = to \<in> set (depsOf env from); byRow = to \<in> set (depsOf recorded from)
      in if byEnv \<and> byRow then Some FromBoth
         else if byEnv then Some FromEnv else if byRow then Some FromRecorded else None)"

text \<open>\<open>dependencyEdges\<close>: what the service is depended on by, and what it depends on.\<close>

definition dependencyEdges ::
  "string \<Rightarrow> dep_map \<Rightarrow> dep_map \<Rightarrow> (string \<times> DependencySource) list \<times> (string \<times> DependencySource option) list" where
  "dependencyEdges serviceId env recorded =
     (let merged = mergeDependencies [env, recorded]
      in (List.map_filter (\<lambda>i. map_option (\<lambda>s. (i, s)) (sourceOf env recorded i serviceId)) (map fst merged),
          map (\<lambda>i. (i, sourceOf env recorded serviceId i)) (depsOf merged serviceId)))"

definition replacementCycle :: "string \<Rightarrow> string list \<Rightarrow> dep_map \<Rightarrow> string option" where
  "replacementCycle serviceId ids recorded =
     List.find (\<lambda>i. createsCycle serviceId i (AList.delete serviceId recorded)) ids"

end
