(* ===== verification/Graph_Laws.thy ===== *)
theory Graph_Laws
  imports Service_Graph
begin

text \<open>
  The laws of the dependency graph. \<open>edges deps\<close> is the relation a dependency map stands for. The
  locale \<open>cycle_guard\<close> is what recording a dependency needs of the loop check; \<open>createsCycle\<close>
  provides it.
\<close>

section \<open>The relation of a dependency map\<close>

definition edges :: "dep_map \<Rightarrow> (string \<times> string) set" where
  "edges deps = {(a, b). b \<in> set (depsOf deps a)}"

lemma edges_iff [graph_defs]: "(a, b) \<in> edges deps \<longleftrightarrow> b \<in> set (depsOf deps a)"
  by (simp add: edges_def)

lemma depsOf_update [simp]: "depsOf (AList.update k v m) i = (if i = k then v else depsOf m i)"
  by (simp add: depsOf_def)

lemma edges_update_append: "edges (AList.update c (depsOf m c @ [p]) m) = insert (c, p) (edges m)"
  by (auto simp: edges_def split: if_splits)

lemma depsOf_entry: "distinct (map fst m) \<Longrightarrow> (i, ds) \<in> set m \<Longrightarrow> depsOf m i = ds"
  by (simp add: depsOf_def)

lemma depsOf_key: "depsOf m i \<noteq> [] \<Longrightarrow> (i, depsOf m i) \<in> set m"
  by (auto simp: depsOf_def dest: map_of_SomeD split: option.splits)

section \<open>The loop check\<close>

locale cycle_guard =
  fixes closes :: "string \<Rightarrow> string \<Rightarrow> dep_map \<Rightarrow> bool"
  assumes closes_iff: "closes from to deps \<longleftrightarrow> (to, from) \<in> (edges deps)\<^sup>*"
begin

lemma add_keeps_acyclic:
  assumes "acyclic (edges deps)" and "\<not> closes from to deps"
  shows "acyclic (insert (from, to) (edges deps))"
  using assms by (simp add: closes_iff acyclic_insert)

lemma closing_is_cyclic:
  assumes "closes from to deps"
  shows "\<not> acyclic (insert (from, to) (edges deps))"
  using assms by (simp add: closes_iff acyclic_insert)

lemma closes_mono: "closes from to deps \<Longrightarrow> edges deps \<subseteq> edges deps' \<Longrightarrow> closes from to deps'"
  unfolding closes_iff using rtrancl_mono by blast

text \<open>Giving one node new targets, none of which reaches it without its own edges, adds no loop.\<close>

lemma replace_keeps_acyclic:
  assumes ac: "acyclic (edges deps)" and ok: "\<forall>to \<in> set ids. \<not> closes from to deps"
  shows "acyclic (edges deps \<union> {from} \<times> set ids)"
  using ok
proof (induction ids)
  case Nil
  with ac show ?case by simp
next
  case (Cons to ids)
  let ?E = "edges deps \<union> {from} \<times> set ids"
  have "(to, from) \<notin> ?E\<^sup>*"
  proof
    have first: "(to, z) \<in> (edges deps)\<^sup>* \<or> (to, from) \<in> (edges deps)\<^sup>*" if "(to, z) \<in> ?E\<^sup>*" for z
      using that by (induction rule: rtrancl_induct) (auto intro: rtrancl.rtrancl_into_rtrancl)
    assume "(to, from) \<in> ?E\<^sup>*"
    with first Cons.prems show False by (auto simp: closes_iff)
  qed
  with Cons have "acyclic (insert (from, to) ?E)" by (simp add: acyclic_insert)
  moreover have "edges deps \<union> {from} \<times> set (to # ids) = insert (from, to) ?E" by auto
  ultimately show ?case by simp
qed

end

text \<open>A path that leaves the closed set of seen nodes passes through the stack.\<close>

lemma leaves_seen:
  assumes "(s, goal) \<in> E\<^sup>*" and "s \<in> S" and "goal \<notin> S" and "\<forall>x \<in> S. E `` {x} \<subseteq> S \<union> T"
  shows "\<exists>x \<in> T. (x, goal) \<in> E\<^sup>*"
  using assms(1,2)
proof (induction rule: converse_rtrancl_induct)
  case base
  then show ?case using assms(3) by blast
next
  case (step y z)
  then show ?case using assms(4) by blast
qed

lemma createsCycleLoop_iff:
  assumes "from \<notin> set seen" and "\<forall>x \<in> set seen. edges deps `` {x} \<subseteq> set seen \<union> set stack"
  shows "createsCycleLoop from deps seen stack \<longleftrightarrow> (\<exists>x \<in> set stack. (x, from) \<in> (edges deps)\<^sup>*)"
  using assms
proof (induction "from" deps seen stack rule: createsCycleLoop.induct)
  case (2 goal deps seen current stack)
  have out: "edges deps `` {current} = set (depsOf deps current)" by (auto simp: edges_iff)
  show ?case
  proof (cases "current = goal")
    case False
    show ?thesis
    proof (cases "current \<in> set seen")
      case True
      have "\<exists>x \<in> set stack. (x, goal) \<in> (edges deps)\<^sup>*" if "(current, goal) \<in> (edges deps)\<^sup>*"
        by (rule leaves_seen[OF that True 2(3)]) (use 2(4) True in auto)
      moreover have "createsCycleLoop goal deps seen stack \<longleftrightarrow> (\<exists>x \<in> set stack. (x, goal) \<in> (edges deps)\<^sup>*)"
        using 2(2)[OF False _ 2(3)] True 2(4) by auto
      ultimately show ?thesis using True False by auto
    next
      case new: False
      have "createsCycleLoop goal deps (current # seen) (rev (depsOf deps current) @ stack) \<longleftrightarrow>
          (\<exists>x \<in> set (rev (depsOf deps current) @ stack). (x, goal) \<in> (edges deps)\<^sup>*)"
        by (rule 2(1)[OF False new]) (use 2(3,4) False out in auto)
      moreover have "(current, goal) \<in> (edges deps)\<^sup>* \<longleftrightarrow> (\<exists>x \<in> set (depsOf deps current). (x, goal) \<in> (edges deps)\<^sup>*)"
        using False by (metis converse_rtranclE converse_rtrancl_into_rtrancl edges_iff)
      ultimately show ?thesis using new False by auto
    qed
  qed simp
qed simp

interpretation guard: cycle_guard createsCycle
  by unfold_locales (simp del: createsCycleLoop.simps add: createsCycle_def createsCycleLoop_iff)

section \<open>Merging\<close>

lemma merge_entries:
  "set (depsOf (fold (\<lambda>(i, ds) merged. AList.update i (js_unique (depsOf merged i @ ds)) merged) m acc) i) =
     set (depsOf acc i) \<union> \<Union> {set ds |ds. (i, ds) \<in> set m}"
proof (induction m arbitrary: acc)
  case (Cons e m)
  obtain j es where e: "e = (j, es)" by fastforce
  have "\<Union> {set ds |ds. (i, ds) \<in> set (e # m)} = (if i = j then set es else {}) \<union> \<Union> {set ds |ds. (i, ds) \<in> set m}"
    unfolding e by auto
  with Cons.IH[of "AList.update j (js_unique (depsOf acc j @ es)) acc"] show ?case
    unfolding e by auto
qed simp

lemma entries_of_map: "distinct (map fst m) \<Longrightarrow> \<Union> {set ds |ds. (i, ds) \<in> set m} = set (depsOf m i)"
proof -
  assume d: "distinct (map fst m)"
  show ?thesis
  proof (cases "map_of m i")
    case None
    then have "(i, ds) \<notin> set m" for ds by (metis image_eqI fst_conv map_of_eq_None_iff)
    then show ?thesis using None by (simp add: depsOf_def)
  next
    case (Some ds)
    then have "(i, e) \<in> set m \<longleftrightarrow> e = ds" for e using d by (metis map_of_eq_Some_iff option.inject)
    then show ?thesis using Some by (simp add: depsOf_def)
  qed
qed

lemma set_depsOf_merge:
  assumes "\<forall>m \<in> set maps. distinct (map fst m)"
  shows "set (depsOf (mergeDependencies maps) i) = (\<Union>m \<in> set maps. set (depsOf m i))"
proof -
  have "set (depsOf (fold (\<lambda>m merged. fold (\<lambda>(i, ds) merged. AList.update i (js_unique (depsOf merged i @ ds)) merged) m merged)
      maps acc) i) = set (depsOf acc i) \<union> (\<Union>m \<in> set maps. set (depsOf m i))" for acc
    using assms by (induction maps arbitrary: acc) (auto simp: merge_entries entries_of_map)
  from this[of "[]"] show ?thesis by (simp add: mergeDependencies_def depsOf_def)
qed

lemma edges_merge_one: "distinct (map fst m) \<Longrightarrow> edges (mergeDependencies [m]) = edges m"
  by (simp add: edges_def set_depsOf_merge)

section \<open>Backfilling\<close>

definition backfillInv :: "dep_map \<Rightarrow> backfill_state \<Rightarrow> bool" where
  "backfillInv recorded st \<longleftrightarrow> (case st of (add, cycles, working) \<Rightarrow>
     edges working = edges recorded \<union> set add \<and> acyclic (edges working) \<and>
     (\<forall>(c, p) \<in> set cycles. (p, c) \<in> (edges working)\<^sup>*))"

lemma backfillOne_inv:
  assumes "backfillInv recorded st"
  shows "backfillInv recorded (backfillOne recorded before src dst st)"
proof -
  obtain add cycles working where st: "st = (add, cycles, working)" by (cases st)
  obtain c p where cp: "linkRoles bs_image src dst = (c, p)" by fastforce
  have inv: "edges working = edges recorded \<union> set add" "acyclic (edges working)"
      "\<forall>(c, p) \<in> set cycles. (p, c) \<in> (edges working)\<^sup>*"
    using assms by (auto simp: backfillInv_def st)
  let ?w = "AList.update (gs_id c) (depsOf working (gs_id c) @ [gs_id p]) working"
  have added: "backfillInv recorded (add @ [(gs_id c, gs_id p)], cycles, ?w)"
    if "\<not> createsCycle (gs_id c) (gs_id p) working"
  proof -
    have "acyclic (edges ?w)"
      using guard.add_keeps_acyclic[OF inv(2) that] by (simp add: edges_update_append)
    moreover have "\<forall>(c, p) \<in> set cycles. (p, c) \<in> (edges ?w)\<^sup>*"
      using inv(3) rtrancl_mono[of "edges working" "edges ?w"] by (auto simp: edges_update_append)
    ultimately show ?thesis using inv(1) by (simp add: backfillInv_def edges_update_append)
  qed
  have looped: "backfillInv recorded (add, cycles @ [(gs_id c, gs_id p)], working)"
    if "createsCycle (gs_id c) (gs_id p) working"
    using inv that guard.closes_iff by (auto simp: backfillInv_def)
  show ?thesis
    using added looped assms unfolding backfillOne_def st Let_def cp prod.case by (simp add: st)
qed

lemma fold_inv: "P st \<Longrightarrow> (\<And>x st. P st \<Longrightarrow> P (f x st)) \<Longrightarrow> P (fold f xs st)"
  by (induction xs arbitrary: st) simp_all

lemma backfillEdges_inv:
  assumes "acyclic (edges recorded)" and "distinct (map fst recorded)"
  shows "backfillInv recorded (backfillEdges services recorded before)"
proof -
  have start: "backfillInv recorded ([], [], mergeDependencies [recorded])"
    using assms by (simp add: backfillInv_def edges_merge_one)
  show ?thesis
    unfolding backfillEdges_def Let_def
    by (rule fold_inv[where P = "backfillInv recorded", OF start])
      (auto intro!: fold_inv[where P = "backfillInv recorded"] backfillOne_inv)
qed

section \<open>Layers\<close>

text \<open>The graph the layers are drawn for: the edges between the given ids.\<close>

definition inner :: "string list \<Rightarrow> dep_map \<Rightarrow> (string \<times> string) set" where
  "inner ids deps = {(a, b). a \<in> set ids \<and> b \<in> set ids \<and> b \<in> set (depsOf deps a)}"

lemma set_innerEdges: "set (innerEdges ids deps) = inner ids deps"
  by (auto simp: innerEdges_def inner_def)

text \<open>A path in an acyclic graph over the ids has fewer edges than there are ids.\<close>

lemma path_bound:
  assumes ac: "acyclic E" and E: "E \<subseteq> set ids \<times> set ids" and p: "(u, v) \<in> E ^^ k" and v: "v \<in> set ids"
  shows "k < length ids"
proof -
  obtain f where f: "f 0 = u" "f k = v" "\<And>i. i < k \<Longrightarrow> (f i, f (Suc i)) \<in> E"
    using p by (auto simp: relpow_fun_conv)
  have reach: "(f i, f j) \<in> E\<^sup>+" if "i < j" "j \<le> k" for i j
    using that
  proof (induction j)
    case (Suc j)
    show ?case
    proof (cases "i = j")
      case True
      then show ?thesis using f(3)[of j] Suc.prems by auto
    next
      case False
      then have "(f i, f j) \<in> E\<^sup>+" using Suc by simp
      then show ?thesis using f(3)[of j] Suc.prems by (simp add: trancl.trancl_into_trancl)
    qed
  qed simp
  have "inj_on f {0..k}"
    by (rule inj_onI) (metis ac acyclic_def atLeastAtMost_iff linorder_neqE_nat reach)
  moreover have "f ` {0..k} \<subseteq> set ids"
  proof
    fix x assume "x \<in> f ` {0..k}"
    then obtain i where "i \<le> k" "x = f i" by auto
    then show "x \<in> set ids" using f(2) f(3)[of i] v E by (cases "i = k") auto
  qed
  ultimately have "card {0..k} \<le> card (set ids)" by (rule card_inj_on_le) simp
  also have "\<dots> \<le> length ids" by (rule card_length)
  finally show ?thesis by simp
qed

text \<open>Every depth is the length of some path, so the guard \<open>wanted < ids.length\<close> never bites without a loop.\<close>

definition depthOk :: "(string \<times> string) set \<Rightarrow> (string \<Rightarrow> nat) \<Rightarrow> bool" where
  "depthOk E depth \<longleftrightarrow> (\<forall>v. \<exists>u. (u, v) \<in> E ^^ depth v)"

lemma relax_depthOk: "(i, d) \<in> E \<Longrightarrow> depthOk E depth \<Longrightarrow> depthOk E (fst (relax n (i, d) (depth, c)))"
  by (auto simp: relax_def Let_def depthOk_def) (metis relcomp.relcompI relpow.simps(2))

lemma relax_mono: "fst st v \<le> fst (relax n e st) v"
  by (cases st; cases e) (auto simp: relax_def Let_def)

lemma fold_relax_mono: "fst st v \<le> fst (fold (relax n) es st) v"
proof (induction es arbitrary: st)
  case (Cons e es)
  have "fst st v \<le> fst (relax n e st) v" by (rule relax_mono)
  also have "\<dots> \<le> fst (fold (relax n) es (relax n e st)) v" by (rule Cons)
  finally show ?case by simp
qed simp

lemma fold_relax_depthOk: "set es \<subseteq> E \<Longrightarrow> depthOk E (fst st) \<Longrightarrow> depthOk E (fst (fold (relax n) es st))"
proof (induction es arbitrary: st)
  case (Cons e es)
  obtain i d depth c where "e = (i, d)" "st = (depth, c)" by (metis surj_pair)
  then show ?case using Cons relax_depthOk[of i d E depth n c] by simp
qed simp

lemma relax_edge:
  assumes "acyclic E" and "E \<subseteq> set ids \<times> set ids" and "depthOk E depth" and "(i, d) \<in> E"
  shows "depth i + 1 \<le> fst (relax (length ids) (i, d) (depth, c)) d"
    "\<not> snd (relax (length ids) (i, d) (depth, c)) \<Longrightarrow> depth i + 1 \<le> depth d \<and> \<not> c"
proof -
  obtain u where "(u, i) \<in> E ^^ depth i" using assms(3) by (auto simp: depthOk_def)
  then have "(u, d) \<in> E ^^ Suc (depth i)" using assms(4) by (auto intro: relcomp.relcompI)
  then have "Suc (depth i) < length ids" by (rule path_bound[OF assms(1,2)]) (use assms(2,4) in auto)
  then show "depth i + 1 \<le> fst (relax (length ids) (i, d) (depth, c)) d"
    "\<not> snd (relax (length ids) (i, d) (depth, c)) \<Longrightarrow> depth i + 1 \<le> depth d \<and> \<not> c"
    by (auto simp: relax_def Let_def split: if_splits)
qed

lemma fold_relax_edge:
  assumes "acyclic E" and "E \<subseteq> set ids \<times> set ids" and "depthOk E (fst st)" and "set es \<subseteq> E" and "(i, d) \<in> set es"
  shows "fst st i + 1 \<le> fst (fold (relax (length ids)) es st) d"
  using assms(3-5)
proof (induction es arbitrary: st)
  case (Cons e es)
  obtain j b depth c where e: "e = (j, b)" "st = (depth, c)" by (metis surj_pair)
  have "(j, b) \<in> E" using Cons.prems e by simp
  note edge = relax_edge(1)[OF assms(1,2) _ this, of depth c]
  let ?st = "relax (length ids) e st"
  show ?case
  proof (cases "(i, d) = e")
    case True
    have "fst st i + 1 \<le> fst ?st d" using edge Cons.prems(1) e True by simp
    also have "\<dots> \<le> fst (fold (relax (length ids)) es ?st) d" by (rule fold_relax_mono)
    finally show ?thesis by simp
  next
    case False
    have "fst st i + 1 \<le> fst ?st i + 1" using relax_mono[of st i "length ids" e] by simp
    also have "\<dots> \<le> fst (fold (relax (length ids)) es ?st) d"
      by (rule Cons.IH) (use Cons.prems False e relax_depthOk[of j b E depth "length ids" c] in auto)
    finally show ?thesis by simp
  qed
qed simp

lemma relax_unchanged: "\<not> snd (relax n e st) \<Longrightarrow> relax n e st = st \<and> \<not> snd st"
  by (cases st; cases e) (auto simp: relax_def Let_def split: if_splits)

lemma fold_relax_unchanged:
  assumes "acyclic E" and "E \<subseteq> set ids \<times> set ids" and "depthOk E (fst st)" and "set es \<subseteq> E"
    and "\<not> snd (fold (relax (length ids)) es st)"
  shows "fold (relax (length ids)) es st = st \<and> \<not> snd st \<and> (\<forall>(i, d) \<in> set es. fst st i + 1 \<le> fst st d)"
  using assms(3-5)
proof (induction es arbitrary: st)
  case (Cons e es)
  obtain j b depth c where e: "e = (j, b)" "st = (depth, c)" by (metis surj_pair)
  let ?st = "relax (length ids) e st"
  have "depthOk E (fst ?st)" using Cons.prems e relax_depthOk[of j b E depth "length ids" c] by simp
  then have ih: "fold (relax (length ids)) es ?st = ?st" "\<not> snd ?st" "\<forall>(i, d) \<in> set es. fst ?st i + 1 \<le> fst ?st d"
    using Cons.IH[of ?st] Cons.prems by auto
  have same: "?st = st" "\<not> snd st" using relax_unchanged[OF ih(2)] by blast+
  have "fst st j + 1 \<le> fst st b"
    using relax_edge(2)[OF assms(1,2), of depth j b c] Cons.prems e ih(2) by auto
  with ih same e show ?case by auto
qed simp

lemma layerPasses_spec:
  assumes "acyclic E" and "E \<subseteq> set ids \<times> set ids" and "set es = E" and "depthOk E depth"
    and "\<And>u v j. j \<le> k \<Longrightarrow> (u, v) \<in> E ^^ j \<Longrightarrow> j \<le> depth v" and "k + pass = length ids"
  shows "\<forall>(i, d) \<in> E. layerPasses pass (length ids) es depth i + 1 \<le> layerPasses pass (length ids) es depth d"
  using assms(4-6)
proof (induction pass arbitrary: depth k)
  case 0
  have "depth i + 1 \<le> depth d" if "(i, d) \<in> E" for i d
  proof -
    obtain u where "(u, i) \<in> E ^^ depth i" using 0(1) by (auto simp: depthOk_def)
    then have p: "(u, d) \<in> E ^^ Suc (depth i)" using that by (auto intro: relcomp.relcompI)
    then have "Suc (depth i) < length ids" by (rule path_bound[OF assms(1,2)]) (use assms(2) that in auto)
    then have "Suc (depth i) \<le> k" using 0(3) by simp
    from 0(2)[OF this p] show ?thesis by simp
  qed
  then show ?case by auto
next
  case (Suc pass)
  obtain depth' changed where f: "fold (relax (length ids)) es (depth, False) = (depth', changed)" by fastforce
  show ?case
  proof (cases changed)
    case False
    with fold_relax_unchanged[OF assms(1,2), of "(depth, False)" es] Suc.prems(1) assms(3) f
    show ?thesis by auto
  next
    case True
    have "depthOk E depth'" using fold_relax_depthOk[of es E "(depth, False)" "length ids"] Suc.prems(1) assms(3) f by simp
    moreover have "j \<le> depth' v" if jk: "j \<le> Suc k" and path: "(u, v) \<in> E ^^ j" for u v j
    proof (cases "j = 0")
      case False
      then obtain m where m: "j = Suc m" by (cases j) auto
      then obtain w where w: "(u, w) \<in> E ^^ m" "(w, v) \<in> E" using path by auto
      have "m \<le> depth w" using Suc.prems(2)[of m u w] w(1) jk m by simp
      moreover have "depth w + 1 \<le> depth' v"
        using fold_relax_edge[OF assms(1,2), of "(depth, False)" es w v] Suc.prems(1) assms(3) w(2) f by simp
      ultimately show ?thesis using m by simp
    qed simp
    moreover have "Suc k + pass = length ids" using Suc.prems(3) by simp
    ultimately have "\<forall>(i, d) \<in> E. layerPasses pass (length ids) es depth' i + 1 \<le> layerPasses pass (length ids) es depth' d"
      by (rule Suc.IH)
    then show ?thesis using True f by simp
  qed
qed

lemma layerDepth_edge:
  assumes "acyclic (inner ids deps)" and "(i, d) \<in> inner ids deps"
  shows "layerDepth ids deps i < layerDepth ids deps d"
proof -
  have "\<forall>(i, d) \<in> inner ids deps. layerDepth ids deps i + 1 \<le> layerDepth ids deps d"
    unfolding layerDepth_def
    by (rule layerPasses_spec[where k = 0, OF assms(1) _ set_innerEdges])
      (auto simp: inner_def depthOk_def)
  with assms(2) show ?thesis by auto
qed

lemma fold_relax_bound: "(\<forall>v. fst st v \<le> n) \<Longrightarrow> (\<forall>v. fst (fold (relax n) es st) v \<le> n)"
  by (induction es arbitrary: st) (auto simp: relax_def Let_def split: prod.splits)

lemma layerDepth_bound: "layerDepth ids deps v \<le> length ids"
proof -
  have "\<forall>v. layerPasses pass n es depth v \<le> n" if "\<forall>v. depth v \<le> n" for pass n es depth
    using that
  proof (induction pass arbitrary: depth)
    case (Suc pass)
    obtain depth' c where "fold (relax n) es (depth, False) = (depth', c)" by fastforce
    moreover from this have "\<forall>v. depth' v \<le> n" using fold_relax_bound[of "(depth, False)" n es] Suc.prems by simp
    ultimately show ?case using Suc.IH by simp
  qed simp
  then show ?thesis by (simp add: layerDepth_def)
qed

lemma mset_rows: "mset (concat (map (\<lambda>r. filter (\<lambda>i. f i = r) xs) [0..<m])) = mset (filter (\<lambda>i. f i < m) xs)"
proof (induction m)
  case (Suc m)
  have "mset (filter (\<lambda>i. f i < m) xs) + mset (filter (\<lambda>i. f i = m) xs) = mset (filter (\<lambda>i. f i < Suc m) xs)"
    by (induction xs) auto
  with Suc show ?case by simp
qed simp

lemma concat_nonempty: "concat (filter (\<lambda>r. r \<noteq> []) xs) = concat xs"
  by (induction xs) auto

end
