(* ===== verification/Service_Dependencies.thy ===== *)
theory Service_Dependencies
  imports Graph_Laws
begin

text \<open>
  \<open>src/lib/dto/service-dependency-dto.ts\<close>: the recorded dependencies (table \<open>service_dependency\<close>)
  and the activity events their changes leave. The other services, with their names, slugs and
  env values, are arguments; new ids and times are arguments too. An \<open>add\<close> reads the table in one
  statement and inserts in another, so it is given both as a whole and as its two halves
  (\<open>addCheck\<close>, \<open>addInsert\<close>).
\<close>

section \<open>The table and its events\<close>

record ServiceDependency =
  sd_createdAt :: timestamp
  sd_dependsOnId :: string
  sd_id :: string
  sd_serviceId :: string

record ServiceEvent =
  ev_serviceId :: string
  ev_detail :: "string list"
  ev_summary :: string

record depStore =
  st_rows :: "ServiceDependency list"
  st_events :: "ServiceEvent list"

datatype depError =
    SelfDependency
  | MutualDependency
  | UnknownServices "string list"
  | LoopThrough string

definition depMap :: "ServiceDependency list \<Rightarrow> dep_map" where
  "depMap rows =
     fold (\<lambda>row deps. AList.update (sd_serviceId row) (depsOf deps (sd_serviceId row) @ [sd_dependsOnId row]) deps) rows []"

definition getDep :: "string \<Rightarrow> depStore \<Rightarrow> ServiceDependency option" where
  "getDep i store = List.find (\<lambda>row. sd_id row = i) (st_rows store)"

definition listDeps :: "depStore \<Rightarrow> ServiceDependency list" where
  "listDeps store = sort_key sd_createdAt (st_rows store)"

definition listForService :: "string \<Rightarrow> depStore \<Rightarrow> string list" where
  "listForService serviceId store = map sd_dependsOnId (filter (\<lambda>row. sd_serviceId row = serviceId) (st_rows store))"

definition recordChange :: "string js_map \<Rightarrow> string \<Rightarrow> string list \<Rightarrow> string list \<Rightarrow> depStore \<Rightarrow> depStore" where
  "recordChange names serviceId added removed store =
     (if length added + length removed = 0 then store
      else
        (let name = (\<lambda>i. case map_of names i of Some n \<Rightarrow> n | None \<Rightarrow> i);
             detail = map (\<lambda>i. ''Depends on '' @ name i) added @ map (\<lambda>i. ''No longer depends on '' @ name i) removed
         in store\<lparr>st_events := st_events store @
              [\<lparr>ev_serviceId = serviceId, ev_detail = detail,
                ev_summary = (if length detail = 1 then hd detail else ''Changed dependencies'')\<rparr>]\<rparr>))"

text \<open>\<open>describe\<close>: both directions, leaving out ids no service has.\<close>

record namedService = GraphService +
  ns_name :: string

record DependencyRef =
  dr_id :: string
  dr_name :: string
  dr_slug :: string
  dr_source :: "DependencySource option"

definition refs :: "namedService list \<Rightarrow> (string \<times> DependencySource option) list \<Rightarrow> DependencyRef list" where
  "refs services entries =
     List.map_filter (\<lambda>(i, source).
       map_option (\<lambda>svc. \<lparr>dr_id = i, dr_name = ns_name svc, dr_slug = gs_slug svc, dr_source = source\<rparr>)
         (map_of (rev (map (\<lambda>svc. (gs_id svc, svc)) services)) i)) entries"

definition describeDeps :: "namedService list \<Rightarrow> string \<Rightarrow> depStore \<Rightarrow> DependencyRef list \<times> DependencyRef list" where
  "describeDeps services serviceId store =
     (let (dependedOnBy, dependsOn) =
            dependencyEdges serviceId (dependencyMap (map GraphService.truncate services)) (depMap (st_rows store))
      in (refs services (map (\<lambda>(i, s). (i, Some s)) dependedOnBy), refs services dependsOn))"

section \<open>Writes\<close>

datatype addVerdict = Existing ServiceDependency | Refused depError | MayAdd

definition addCheck :: "string \<Rightarrow> string \<Rightarrow> depStore \<Rightarrow> addVerdict" where
  "addCheck serviceId dependsOnId store =
     (let deps = depMap (st_rows store)
      in if dependsOnId \<in> set (depsOf deps serviceId) then
           Existing (hd (filter (\<lambda>row. sd_serviceId row = serviceId \<and> sd_dependsOnId row = dependsOnId) (st_rows store)))
         else if createsCycle serviceId dependsOnId deps then
           Refused (if serviceId = dependsOnId then SelfDependency else MutualDependency)
         else MayAdd)"

text \<open>The insert skips a pair the unique index already holds (\<open>onConflictDoNothing\<close>).\<close>

definition addInsert ::
  "string js_map \<Rightarrow> string \<Rightarrow> timestamp \<Rightarrow> string \<Rightarrow> string \<Rightarrow> depStore \<Rightarrow> ServiceDependency \<times> depStore" where
  "addInsert names uuid now serviceId dependsOnId store =
     (let row = \<lparr>sd_createdAt = now, sd_dependsOnId = dependsOnId, sd_id = uuid, sd_serviceId = serviceId\<rparr>;
          taken = list_ex (\<lambda>r. sd_serviceId r = serviceId \<and> sd_dependsOnId r = dependsOnId) (st_rows store);
          store' = (if taken then store else store\<lparr>st_rows := st_rows store @ [row]\<rparr>)
      in (row, recordChange names serviceId [dependsOnId] [] store'))"

definition addDep ::
  "string js_map \<Rightarrow> string \<Rightarrow> timestamp \<Rightarrow> string \<Rightarrow> string \<Rightarrow> depStore \<Rightarrow> (depError + ServiceDependency) \<times> depStore" where
  "addDep names uuid now serviceId dependsOnId store =
     (case addCheck serviceId dependsOnId store of
        Existing row \<Rightarrow> (Inr row, store)
      | Refused e \<Rightarrow> (Inl e, store)
      | MayAdd \<Rightarrow> (let (row, store') = addInsert names uuid now serviceId dependsOnId store in (Inr row, store')))"

definition removeDep :: "string js_map \<Rightarrow> string \<Rightarrow> string \<Rightarrow> depStore \<Rightarrow> bool \<times> depStore" where
  "removeDep names serviceId dependsOnId store =
     (let hit = (\<lambda>row. sd_serviceId row = serviceId \<and> sd_dependsOnId row = dependsOnId);
          deleted = filter hit (st_rows store);
          store' = store\<lparr>st_rows := filter (\<lambda>row. \<not> hit row) (st_rows store)\<rparr>
      in (deleted \<noteq> [], if deleted \<noteq> [] then recordChange names serviceId [] [dependsOnId] store' else store'))"

definition replaceDeps ::
  "string js_map \<Rightarrow> (string \<Rightarrow> string) \<Rightarrow> timestamp \<Rightarrow> string \<Rightarrow> string list \<Rightarrow> depStore \<Rightarrow> (depError + unit) \<times> depStore" where
  "replaceDeps names uuidFor now serviceId ids store =
     (let wanted = js_unique ids;
          unknown = filter (\<lambda>i. i \<notin> set (map fst names)) wanted
      in if unknown \<noteq> [] then (Inl (UnknownServices unknown), store)
         else
           (let deps = depMap (st_rows store);
                loop = (case replacementCycle serviceId wanted deps of Some i \<Rightarrow> i | None \<Rightarrow> [])
            in if loop \<noteq> [] then (Inl (if loop = serviceId then SelfDependency else LoopThrough loop), store)
               else
                 (let current = depsOf deps serviceId;
                      rows = filter (\<lambda>row. sd_serviceId row \<noteq> serviceId) (st_rows store) @
                        map (\<lambda>d. \<lparr>sd_createdAt = now, sd_dependsOnId = d, sd_id = uuidFor d, sd_serviceId = serviceId\<rparr>) wanted
                  in (Inr (), recordChange names serviceId
                        (filter (\<lambda>i. i \<notin> set current) wanted) (filter (\<lambda>i. i \<notin> set wanted) current)
                        (store\<lparr>st_rows := rows\<rparr>)))))"

definition deleteDep :: "string js_map \<Rightarrow> ServiceDependency \<Rightarrow> depStore \<Rightarrow> depStore" where
  "deleteDep names row store =
     recordChange names (sd_serviceId row) [] [sd_dependsOnId row]
       (store\<lparr>st_rows := filter (\<lambda>r. sd_id r \<noteq> sd_id row) (st_rows store)\<rparr>)"

text \<open>The loop of \<open>backfillFromEnv\<close>; an \<open>add\<close> that throws ends it.\<close>

fun addAll ::
  "string js_map \<Rightarrow> (string \<times> string \<Rightarrow> string) \<Rightarrow> timestamp \<Rightarrow> (string \<times> string) list \<Rightarrow> nat \<Rightarrow> depStore
    \<Rightarrow> (depError + nat) \<times> depStore" where
  "addAll names uuidFor now [] added store = (Inr added, store)"
| "addAll names uuidFor now ((s, d) # es) added store =
     (case addDep names (uuidFor (s, d)) now s d store of
        (Inl e, store') \<Rightarrow> (Inl e, store')
      | (Inr _, store') \<Rightarrow> addAll names uuidFor now es (Suc added) store')"

definition backfillFromEnv ::
  "string js_map \<Rightarrow> (string \<times> string \<Rightarrow> string) \<Rightarrow> timestamp \<Rightarrow> BackfillService list \<Rightarrow> timestamp \<Rightarrow> depStore
    \<Rightarrow> (depError + nat \<times> (string option \<times> string option) list) \<times> depStore" where
  "backfillFromEnv names uuidFor now services since store =
     (let slugOf = map_of (map (\<lambda>svc. (gs_id svc, gs_slug svc)) (rev services));
          (add, cycles, _) = backfillEdges services (depMap (st_rows store)) since
      in case addAll names uuidFor now add 0 store of
           (Inl e, store') \<Rightarrow> (Inl e, store')
         | (Inr added, store') \<Rightarrow> (Inr (added, map (\<lambda>(a, b). (slugOf a, slugOf b)) cycles), store'))"

end
