(* ===== verification/Graph_Theorems.thy ===== *)
theory Graph_Theorems
  imports Service_Dependencies
begin

text \<open>
  The properties of the dependency graph: the loop check is exact, the recorded dependencies stay
  free of loops under every write (one at a time), backfilling never fails, layers point down and
  give the deploy order, and the forest of a stack shows every member once.
\<close>

section \<open>Rows as a relation\<close>

definition rowEdges :: "ServiceDependency list \<Rightarrow> (string \<times> string) set" where
  "rowEdges rows = (\<lambda>r. (sd_serviceId r, sd_dependsOnId r)) ` set rows"

lemma edges_depMap [simp]: "edges (depMap rows) = rowEdges rows"
proof -
  have "edges (fold (\<lambda>row deps. AList.update (sd_serviceId row) (depsOf deps (sd_serviceId row) @ [sd_dependsOnId row]) deps) rows acc)
      = edges acc \<union> rowEdges rows" for acc
    by (induction rows arbitrary: acc) (auto simp: edges_update_append rowEdges_def)
  from this[of "[]"] show ?thesis by (simp add: depMap_def edges_def depsOf_def)
qed

lemma rowEdges_mono: "set a \<subseteq> set b \<Longrightarrow> rowEdges a \<subseteq> rowEdges b"
  by (auto simp: rowEdges_def)

lemma depsOf_depMap: "d \<in> set (depsOf (depMap rows) i) \<longleftrightarrow> (i, d) \<in> rowEdges rows"
  using edges_iff[of i d "depMap rows"] by simp

lemma recordChange_rows [simp]: "st_rows (recordChange names s a r store) = st_rows store"
  by (simp add: recordChange_def Let_def)

text \<open>
  C12. The loop check is exact: it ends, and making one service depend on another is refused
  exactly when the two are the same or the other already depends on the first at any depth, which
  is exactly when the new edge would leave the graph cyclic.
\<close>

theorem createsCycle_exact:
  "(createsCycle from to deps \<longleftrightarrow> (to, from) \<in> (edges deps)\<^sup>*) \<and>
   (if acyclic (edges deps) then createsCycle from to deps = (\<not> acyclic (insert (from, to) (edges deps)))
    else \<not> acyclic (insert (from, to) (edges deps)))"
proof -
  have "\<not> acyclic (insert (from, to) (edges deps))" if "\<not> acyclic (edges deps)"
    using that by (auto simp: acyclic_insert)
  then show ?thesis
    using guard.closes_iff guard.add_keeps_acyclic guard.closing_is_cyclic by auto
qed

section \<open>Recording dependencies\<close>

lemma addInsert_rows:
  "rowEdges (st_rows (snd (addInsert names uuid now s d store))) = insert (s, d) (rowEdges (st_rows store))"
  by (auto simp: addInsert_def Let_def rowEdges_def list_ex_iff)

lemma addDep_cases:
  obtains (Done) row where "addDep names uuid now s d store = (Inr row, store)" "(s, d) \<in> rowEdges (st_rows store)"
  | (Failed) e where "addDep names uuid now s d store = (Inl e, store)" "(d, s) \<in> (rowEdges (st_rows store))\<^sup>*"
  | (Added) row store' where "addDep names uuid now s d store = (Inr row, store')"
      "(d, s) \<notin> (rowEdges (st_rows store))\<^sup>*" "rowEdges (st_rows store') = insert (s, d) (rowEdges (st_rows store))"
proof (cases "(s, d) \<in> rowEdges (st_rows store)")
  case True
  then show ?thesis using Done by (simp add: addDep_def addCheck_def Let_def depsOf_depMap)
next
  case new: False
  show ?thesis
  proof (cases "createsCycle s d (depMap (st_rows store))")
    case True
    then have "(d, s) \<in> (rowEdges (st_rows store))\<^sup>*" by (simp add: guard.closes_iff)
    then show ?thesis using Failed True new by (simp add: addDep_def addCheck_def Let_def depsOf_depMap)
  next
    case False
    then have "(d, s) \<notin> (rowEdges (st_rows store))\<^sup>*" by (simp add: guard.closes_iff)
    moreover obtain row store' where "addInsert names uuid now s d store = (row, store')" by fastforce
    ultimately show ?thesis
      using Added False new addInsert_rows[of names uuid now s d store]
      by (simp add: addDep_def addCheck_def Let_def depsOf_depMap)
  qed
qed

lemma addDep_acyclic:
  assumes "acyclic (rowEdges (st_rows store))"
  shows "acyclic (rowEdges (st_rows (snd (addDep names uuid now s d store))))"
  by (rule addDep_cases[of names uuid now s d store]) (use assms in \<open>auto simp: acyclic_insert\<close>)

lemma addAll_acyclic:
  "acyclic (rowEdges (st_rows store)) \<Longrightarrow> acyclic (rowEdges (st_rows (snd (addAll names uuidFor now es n store))))"
proof (induction names uuidFor now es n store rule: addAll.induct)
  case (2 names uuidFor now s d es n store)
  then show ?case using addDep_acyclic[of store names "uuidFor (s, d)" now s d]
    by (auto split: prod.split sum.split)
qed simp

lemma edges_delete: "edges (AList.delete s m) = {(a, b) \<in> edges m. a \<noteq> s}"
proof -
  have "depsOf (AList.delete s m) a = (if a = s then [] else depsOf m a)" for a
    by (simp add: depsOf_def delete_conv')
  then show ?thesis by (auto simp: edges_def split: if_splits)
qed

lemma replaceDeps_acyclic:
  assumes ac: "acyclic (rowEdges (st_rows store))" and ids: "[] \<notin> fst ` set names"
  shows "acyclic (rowEdges (st_rows (snd (replaceDeps names uuidFor now s ids' store))))"
proof -
  let ?deps = "depMap (st_rows store)" and ?others = "AList.delete s (depMap (st_rows store))"
  let ?wanted = "js_unique ids'"
  let ?rows = "filter (\<lambda>row. sd_serviceId row \<noteq> s) (st_rows store) @
      map (\<lambda>d. \<lparr>sd_createdAt = now, sd_dependsOnId = d, sd_id = uuidFor d, sd_serviceId = s\<rparr>) ?wanted"
  have "acyclic (rowEdges ?rows)"
    if known: "set ?wanted \<subseteq> fst ` set names" and "(case replacementCycle s ?wanted ?deps of Some i \<Rightarrow> i | None \<Rightarrow> []) = []"
  proof -
    have "replacementCycle s ?wanted ?deps = None"
    proof (cases "replacementCycle s ?wanted ?deps")
      case (Some i)
      then have "i \<in> set ?wanted" unfolding replacementCycle_def by (auto dest: find_Some_iff_first)
      with known ids that(2) Some show ?thesis by auto
    qed simp
    then have "\<forall>t \<in> set ?wanted. \<not> createsCycle s t ?others"
      unfolding replacementCycle_def by (auto simp: find_None_iff)
    moreover have "acyclic (edges ?others)"
      by (rule acyclic_subset[OF ac]) (auto simp: edges_delete)
    ultimately have "acyclic (edges ?others \<union> {s} \<times> set ?wanted)" by (intro guard.replace_keeps_acyclic)
    moreover have "rowEdges ?rows = edges ?others \<union> {s} \<times> set ?wanted"
      by (auto simp: edges_delete rowEdges_def image_Un image_image)
    ultimately show ?thesis by simp
  qed
  with ac show ?thesis
    by (auto simp: replaceDeps_def Let_def filter_empty_conv image_def)
qed

inductive dep_step :: "depStore \<Rightarrow> depStore \<Rightarrow> bool" where
  add_dep: "dep_step store (snd (addDep names uuid now s d store))"
| remove_dep: "dep_step store (snd (removeDep names s d store))"
| replace_deps: "[] \<notin> fst ` set names \<Longrightarrow> dep_step store (snd (replaceDeps names uuidFor now s ids store))"
| delete_dep: "dep_step store (deleteDep names row store)"
| backfill: "dep_step store (snd (backfillFromEnv names uuidFor now services since store))"

inductive dep_reachable :: "depStore \<Rightarrow> bool" where
  no_rows: "dep_reachable \<lparr>st_rows = [], st_events = []\<rparr>"
| dep_next: "dep_reachable store \<Longrightarrow> dep_step store store' \<Longrightarrow> dep_reachable store'"

lemma dep_step_acyclic: "dep_step store store' \<Longrightarrow> acyclic (rowEdges (st_rows store)) \<Longrightarrow> acyclic (rowEdges (st_rows store'))"
proof (induction rule: dep_step.induct)
  case (remove_dep store names s d)
  then show ?case by (auto simp: removeDep_def Let_def intro: acyclic_subset[OF _ rowEdges_mono])
next
  case (delete_dep store names row)
  then show ?case by (auto simp: deleteDep_def intro: acyclic_subset[OF _ rowEdges_mono])
next
  case (backfill store names uuidFor now services since)
  then show ?case
    using addAll_acyclic[of store names uuidFor now]
    by (auto simp: backfillFromEnv_def Let_def split: prod.split sum.split) (metis snd_conv)+
qed (simp_all add: addDep_acyclic replaceDeps_acyclic)

text \<open>
  C13. No sequence of adding, removing, replacing, deleting and backfilling recorded dependencies
  ever makes services depend on each other in a loop, not even on themselves.
\<close>

theorem recorded_dependencies_acyclic:
  assumes "dep_reachable store"
  shows "acyclic (edges (depMap (st_rows store)))"
  using assms
proof (induction rule: dep_reachable.induct)
  case no_rows
  show ?case by (simp add: rowEdges_def acyclic_def)
next
  case (dep_next store store')
  then show ?case using dep_step_acyclic by simp
qed

theorem recorded_dependencies_acyclic_witness:
  "\<exists>store. dep_reachable store \<and> length (st_rows store) = 1 \<and> acyclic (edges (depMap (st_rows store)))"
proof -
  let ?s = "snd (addDep [] ''r'' 0 ''a'' ''b'' \<lparr>st_rows = [], st_events = []\<rparr>)"
  have r: "dep_reachable ?s" by (intro dep_reachable.dep_next[OF dep_reachable.no_rows] dep_step.add_dep)
  have "length (st_rows ?s) = 1"
    by (simp add: addDep_def addCheck_def addInsert_def Let_def depMap_def depsOf_def createsCycle_def)
  with r recorded_dependencies_acyclic[OF r] show ?thesis by blast
qed

lemma distinct_depMap: "distinct (map fst (depMap rows))"
proof -
  have "distinct (map fst (fold (\<lambda>row deps. AList.update (sd_serviceId row)
      (depsOf deps (sd_serviceId row) @ [sd_dependsOnId row]) deps) rows acc))" if "distinct (map fst acc)" for acc
    using that by (induction rows arbitrary: acc) (simp_all add: distinct_update)
  then show ?thesis by (simp add: depMap_def)
qed

text \<open>Adding edges one by one inside an acyclic graph never fails.\<close>

lemma addAll_succeeds:
  assumes "acyclic F" and "rowEdges (st_rows store) \<union> set es \<subseteq> F"
  shows "\<exists>store'. addAll names uuidFor now es n store = (Inr (n + length es), store') \<and>
     rowEdges (st_rows store') = rowEdges (st_rows store) \<union> set es"
  using assms(2)
proof (induction es arbitrary: n store)
  case (Cons e es)
  obtain s d where e: "e = (s, d)" by fastforce
  have "(s, d) \<in> F" using Cons.prems e by auto
  then have no: "(d, s) \<notin> (rowEdges (st_rows store))\<^sup>*"
    using assms(1) Cons.prems by (meson acyclic_def rtrancl_into_trancl2 rtrancl_mono subsetD Un_subset_iff)
  obtain row store1 where a: "addDep names (uuidFor (s, d)) now s d store = (Inr row, store1)"
      "rowEdges (st_rows store1) = insert (s, d) (rowEdges (st_rows store))"
    by (rule addDep_cases[of names "uuidFor (s, d)" now s d store]) (use no in auto)
  have "rowEdges (st_rows store1) \<union> set es \<subseteq> F" using Cons.prems a(2) e by auto
  from Cons.IH[OF this, of "Suc n"] show ?case using a e by auto
qed simp

text \<open>
  Backfilling the recorded dependencies from env values never fails over a table without loops:
  every edge \<open>backfillEdges\<close> picks is added, the table stays without loops, and each edge it reports
  instead would close a loop with what is recorded in the end.
\<close>

theorem backfill_succeeds:
  assumes "acyclic (edges (depMap (st_rows store)))"
    and "backfillEdges services (depMap (st_rows store)) since = (add, cycles, working)"
  shows "\<exists>slugs store'. backfillFromEnv names uuidFor now services since store = (Inr (length add, slugs), store') \<and>
     edges (depMap (st_rows store')) = edges (depMap (st_rows store)) \<union> set add \<and>
     acyclic (edges (depMap (st_rows store'))) \<and>
     (\<forall>(c, p) \<in> set cycles. createsCycle c p (depMap (st_rows store')))"
proof -
  have inv: "edges working = rowEdges (st_rows store) \<union> set add" "acyclic (edges working)"
      "\<forall>(c, p) \<in> set cycles. (p, c) \<in> (edges working)\<^sup>*"
    using backfillEdges_inv[OF assms(1) distinct_depMap, of services since] assms(2) by (auto simp: backfillInv_def)
  obtain store' where s: "addAll names uuidFor now add 0 store = (Inr (length add), store')"
      "rowEdges (st_rows store') = rowEdges (st_rows store) \<union> set add"
    using addAll_succeeds[OF inv(2), of store add names uuidFor now 0] inv(1) by auto
  have "backfillFromEnv names uuidFor now services since store =
      (Inr (length add, map (\<lambda>(a, b). (map_of (map (\<lambda>svc. (gs_id svc, gs_slug svc)) (rev services)) a,
        map_of (map (\<lambda>svc. (gs_id svc, gs_slug svc)) (rev services)) b)) cycles), store')"
    unfolding backfillFromEnv_def Let_def assms(2) prod.case s(1) by simp
  with s(2) inv show ?thesis by (simp add: guard.closes_iff)
qed

definition sampleService :: "string \<Rightarrow> string \<Rightarrow> string \<Rightarrow> BackfillService" where
  "sampleService i slug v = \<lparr>gs_envVars = Some [(''API_HOST'', v)], gs_id = i, gs_slug = slug,
     bs_createdAt = 0, bs_image = ''app'', bs_stackId = Some ''s''\<rparr>"

theorem backfill_succeeds_witness:
  "\<exists>r store'. backfillFromEnv [] fst 9 [sampleService ''1'' ''web'' ''api'', sampleService ''2'' ''api'' ''web'']
     5 \<lparr>st_rows = [], st_events = []\<rparr> = (Inr r, store') \<and> acyclic (edges (depMap (st_rows store')))"
proof -
  let ?store = "\<lparr>st_rows = [], st_events = []\<rparr> :: depStore"
  let ?svcs = "[sampleService ''1'' ''web'' ''api'', sampleService ''2'' ''api'' ''web'']"
  have ac: "acyclic (edges (depMap (st_rows ?store)))" by (simp add: rowEdges_def acyclic_def)
  obtain add cycles working where b: "backfillEdges ?svcs (depMap (st_rows ?store)) 5 = (add, cycles, working)"
    by (metis prod_cases3)
  from backfill_succeeds[OF ac b, of "[]" fst 9] show ?thesis by blast
qed

text \<open>
  The check and the insert of \<open>add\<close> are separate statements: two requests that both check
  before either inserts are both accepted and leave two services depending on each other.
\<close>

theorem racing_adds_close_a_loop:
  "\<exists>store0 store1 store2.
     addCheck ''a'' ''b'' store0 = MayAdd \<and> addCheck ''b'' ''a'' store0 = MayAdd \<and>
     store1 = snd (addInsert [] ''r1'' 0 ''a'' ''b'' store0) \<and> store2 = snd (addInsert [] ''r2'' 0 ''b'' ''a'' store1) \<and>
     \<not> acyclic (edges (depMap (st_rows store2)))"
proof -
  let ?s0 = "\<lparr>st_rows = [], st_events = []\<rparr> :: depStore"
  let ?s1 = "snd (addInsert [] ''r1'' 0 ''a'' ''b'' ?s0)"
  let ?s2 = "snd (addInsert [] ''r2'' 0 ''b'' ''a'' ?s1)"
  have "addCheck ''a'' ''b'' ?s0 = MayAdd" "addCheck ''b'' ''a'' ?s0 = MayAdd"
    by (simp_all add: addCheck_def Let_def depMap_def depsOf_def createsCycle_def)
  moreover have e: "edges (depMap (st_rows ?s2)) = {(''b'', ''a''), (''a'', ''b'')}"
    by (simp add: addInsert_rows) (simp add: rowEdges_def)
  have "\<not> acyclic (edges (depMap (st_rows ?s2)))"
    unfolding e acyclic_insert by auto
  ultimately show ?thesis by blast
qed

section \<open>Layers and the deploy order\<close>

lemma layers_rows: "concat (dependencyLayers ids deps) =
    concat (map (\<lambda>r. filter (\<lambda>i. layerDepth ids deps i = r) ids) [0..<Suc (length ids)])"
  unfolding dependencyLayers_def Let_def by (rule concat_nonempty)

lemma order_rows: "stackDeployOrder ids deps =
    concat (map (\<lambda>r. filter (\<lambda>i. layerDepth ids deps i = r) ids) (rev [0..<Suc (length ids)]))"
proof -
  have "concat (rev (filter (\<lambda>r. r \<noteq> []) xs)) = concat (rev xs)" for xs :: "string list list"
    by (simp add: rev_filter concat_nonempty)
  then show ?thesis unfolding stackDeployOrder_def dependencyLayers_def Let_def by (simp add: rev_map del: upt_Suc)
qed

lemma concat_before:
  assumes "(x :: nat) < y" and "y < m" and "a \<in> set (f y)" and "b \<in> set (f x)"
  shows "\<exists>ps qs rs. concat (map f (rev [0..<m])) = ps @ a # qs @ b # rs"
proof -
  have cut: "[i..<k] = [i..<j] @ [j..<k]" if "i \<le> j" "j \<le> k" for i j k
    using upt_add_eq_append[of i j "k - j"] that by simp
  have "[0..<m] = [0..<x] @ x # [Suc x..<y] @ y # [Suc y..<m]"
    using assms(1,2) cut[of 0 x m] cut[of x y m] by (simp add: upt_conv_Cons)
  then have "concat (map f (rev [0..<m])) = concat (map f (rev [Suc y..<m])) @ f y @
      concat (map f (rev [Suc x..<y])) @ f x @ concat (map f (rev [0..<x]))" by simp
  moreover obtain p q where "f y = p @ a # q" using assms(3) by (meson split_list)
  moreover obtain r s where "f x = r @ b # s" using assms(4) by (meson split_list)
  ultimately have "concat (map f (rev [0..<m])) = (concat (map f (rev [Suc y..<m])) @ p) @ a #
      (q @ concat (map f (rev [Suc x..<y])) @ r) @ b # (s @ concat (map f (rev [0..<x])))" by simp
  then show ?thesis by blast
qed

lemma deploy_order_is_right:
  "mset (stackDeployOrder ids deps) = mset ids \<and>
   (acyclic (inner ids deps) \<longrightarrow> (\<forall>i d. (i, d) \<in> inner ids deps \<longrightarrow>
      (\<exists>ps qs rs. stackDeployOrder ids deps = ps @ d # qs @ i # rs)))"
proof (intro conjI impI allI)
  have "mset (stackDeployOrder ids deps) = mset (concat (dependencyLayers ids deps))"
    unfolding stackDeployOrder_def by (simp add: mset_concat rev_map[symmetric] mset_rev)
  also have "\<dots> = mset (filter (\<lambda>i. layerDepth ids deps i < Suc (length ids)) ids)"
    unfolding layers_rows by (rule mset_rows)
  also have "filter (\<lambda>i. layerDepth ids deps i < Suc (length ids)) ids = ids"
    using layerDepth_bound by (intro filter_True) (auto simp: less_Suc_eq_le)
  finally show "mset (stackDeployOrder ids deps) = mset ids" .
next
  fix i d assume ac: "acyclic (inner ids deps)" and e: "(i, d) \<in> inner ids deps"
  have "layerDepth ids deps i < layerDepth ids deps d" by (rule layerDepth_edge[OF ac e])
  moreover have "layerDepth ids deps d < Suc (length ids)" using layerDepth_bound by (simp add: less_Suc_eq_le)
  ultimately show "\<exists>ps qs rs. stackDeployOrder ids deps = ps @ d # qs @ i # rs"
    unfolding order_rows using e by (intro concat_before) (auto simp: inner_def)
qed

text \<open>
  Deploying a stack in layers is right: the layers hold each linked service exactly as often as
  it was given, and when the recorded dependencies between them have no loop, every service comes
  after all the services it depends on.
\<close>

theorem deploy_order_correct:
  "mset (stackDeployOrder ids deps) = mset ids \<and>
   (acyclic (inner ids deps) \<longrightarrow> (\<forall>i d. (i, d) \<in> inner ids deps \<longrightarrow>
      (\<exists>ps qs rs. stackDeployOrder ids deps = ps @ d # qs @ i # rs)))"
  by (rule deploy_order_is_right)

theorem deploy_order_correct_witness:
  "\<exists>ps qs rs. stackDeployOrder [''a'', ''b''] [(''a'', [''b''])] = ps @ ''b'' # qs @ ''a'' # rs"
proof -
  have "inner [''a'', ''b''] [(''a'', [''b''])] = {(''a'', ''b'')}"
    by (auto simp: inner_def depsOf_def split: if_splits)
  moreover have "acyclic {(''a'', ''b'')}" unfolding acyclic_insert by (simp add: acyclic_def)
  ultimately show ?thesis using deploy_order_correct[of "[''a'', ''b'']" "[(''a'', [''b''])]"] by simp
qed

section \<open>The forest of a stack\<close>

text \<open>The ids a forest shows, a repeated node aside.\<close>

fun shown :: "DependencyNode list \<Rightarrow> string list" where
  "shown [] = []"
| "shown (DependencyNode children i r # nodes) = (if r then [] else [i]) @ shown children @ shown nodes"

lemma shown_Cons: "shown (node # nodes) = shown [node] @ shown nodes"
  by (cases node) simp

text \<open>What a build leaves: the expanded ids grow by the members it shows, each once.\<close>

definition grew :: "string list \<Rightarrow> string list \<Rightarrow> string list \<Rightarrow> DependencyNode list \<Rightarrow> bool" where
  "grew M ex ex' nodes \<longleftrightarrow> distinct ex' \<and> set ex' \<subseteq> set M \<and> set ex \<subseteq> set ex' \<and>
     mset ex' = mset ex + mset (filter (\<lambda>x. x \<in> set M) (shown nodes))"

lemma grew_refl: "distinct ex \<Longrightarrow> set ex \<subseteq> set M \<Longrightarrow> filter (\<lambda>x. x \<in> set M) (shown nodes) = [] \<Longrightarrow> grew M ex ex nodes"
  by (simp add: grew_def)

lemma grew_trans: "grew M ex ex1 [node] \<Longrightarrow> grew M ex1 ex2 nodes \<Longrightarrow> grew M ex ex2 (node # nodes)"
  unfolding grew_def by (subst shown_Cons) auto

lemma fewer_left:
  assumes "i \<in> set M" and "i \<notin> set ex"
  shows "card (set M - set (i # ex)) < card (set M - set ex)"
  by (rule psubset_card_mono) (use assms in auto)

lemma more_left: "set ex \<subseteq> set ex' \<Longrightarrow> card (set M - set ex') \<le> card (set M - set ex)"
  by (intro card_mono) auto

lemma build_spec:
  "card (set M - set ex) < fuel \<Longrightarrow> distinct ex \<Longrightarrow> set ex \<subseteq> set M \<Longrightarrow>
     \<exists>node ex'. build fuel M deps ex path i = Some (node, ex') \<and> grew M ex ex' [node] \<and>
       (i \<in> set M \<and> i \<notin> set path \<longrightarrow> i \<in> set ex')"
  "card (set M - set ex) < fuel \<Longrightarrow> distinct ex \<Longrightarrow> set ex \<subseteq> set M \<Longrightarrow>
     \<exists>nodes ex'. buildAll fuel M deps ex path ds = Some (nodes, ex') \<and> grew M ex ex' nodes"
proof (induction fuel M deps ex path i and fuel M deps ex path ds rule: build_buildAll.induct)
  case (2 fuel M deps ex path i)
  show ?case
  proof (cases "i \<in> set ex \<or> i \<in> set path \<or> i \<notin> set M")
    case True
    then show ?thesis using 2(3,4) by (auto intro!: grew_refl)
  next
    case False
    have "card (set M - set (i # ex)) < fuel" using fewer_left[of i M ex] False 2(2) by simp
    then obtain nodes ex' where b: "buildAll fuel M deps (i # ex) (i # path) (depsOf deps i) = Some (nodes, ex')"
        "grew M (i # ex) ex' nodes"
      using 2(1) False 2(3,4) by auto
    then have "grew M ex ex' [DependencyNode nodes i False]" "i \<in> set ex'"
      using False by (auto simp: grew_def)
    with b(1) False show ?thesis by simp
  qed
next
  case (4 fuel M deps ex path d ds)
  then obtain node ex1 where b: "build fuel M deps ex path d = Some (node, ex1)" "grew M ex ex1 [node]" by blast
  have "card (set M - set ex1) < fuel" "distinct ex1" "set ex1 \<subseteq> set M"
    using b(2) 4(3) more_left[of ex ex1 M] by (auto simp: grew_def)
  then obtain nodes ex2 where "buildAll fuel M deps ex1 path ds = Some (nodes, ex2)" "grew M ex1 ex2 nodes"
    using 4(2)[OF b(1)] by fastforce
  with b grew_trans show ?case by fastforce
qed (auto intro: grew_refl)

lemma buildMissing_spec:
  "card (set M - set ex) < fuel \<Longrightarrow> distinct ex \<Longrightarrow> set ex \<subseteq> set M \<Longrightarrow> set ids \<subseteq> set M \<Longrightarrow>
     \<exists>nodes ex'. buildMissing fuel M deps ex ids = Some (nodes, ex') \<and> grew M ex ex' nodes \<and> set ids \<subseteq> set ex'"
proof (induction ids arbitrary: ex)
  case (Cons i ids)
  show ?case
  proof (cases "i \<in> set ex")
    case True
    obtain nodes ex' where m: "buildMissing fuel M deps ex ids = Some (nodes, ex')" "grew M ex ex' nodes" "set ids \<subseteq> set ex'"
      using Cons.IH[of ex] Cons.prems by auto
    have "i \<in> set ex'" using True m(2) by (auto simp: grew_def)
    with True m show ?thesis by simp
  next
    case False
    obtain node ex1 where b: "build fuel M deps ex [] i = Some (node, ex1)" "grew M ex ex1 [node]" "i \<in> set ex1"
      using build_spec(1)[OF Cons.prems(1-3), of deps "[]" i] Cons.prems(4) by auto
    have "card (set M - set ex1) < fuel" "distinct ex1" "set ex1 \<subseteq> set M"
      using b(2) Cons.prems(1) more_left[of ex ex1 M] by (auto simp: grew_def)
    then obtain nodes ex2 where m: "buildMissing fuel M deps ex1 ids = Some (nodes, ex2)" "grew M ex1 ex2 nodes" "set ids \<subseteq> set ex2"
      using Cons.IH[of ex1] Cons.prems(4) by auto
    have "i \<in> set ex2" using b(3) m(2) by (auto simp: grew_def)
    with False b m grew_trans[OF b(2) m(2)] show ?thesis by simp
  qed
qed (simp add: grew_def)

lemma shown_append: "shown (xs @ ys) = shown xs @ shown ys"
  by (induction xs rule: shown.induct) simp_all

text \<open>
  The forest of a stack is always built, however its members depend on each other, and shows
  every member exactly once with its own dependencies, any further mention of it being a repeat.
\<close>

theorem forest_shows_members_once:
  assumes "distinct memberIds"
  shows "\<exists>forest. dependencyForest memberIds deps = Some forest \<and>
     mset (filter (\<lambda>i. i \<in> set memberIds) (shown forest)) = mset memberIds"
proof -
  let ?M = memberIds and ?fuel = "Suc (length memberIds)"
  let ?roots = "filter (\<lambda>i. i \<notin> set (dependedOn ?M deps)) ?M"
  have fuel: "card (set ?M - set []) < ?fuel" using card_length[of ?M] by simp
  obtain forest ex where f: "buildAll ?fuel ?M deps [] [] ?roots = Some (forest, ex)" "grew ?M [] ex forest"
    using build_spec(2)[OF fuel, of deps "[]" ?roots] by auto
  have "card (set ?M - set ex) < ?fuel" using card_length[of ?M] card_mono[of "set ?M" "set ?M - set ex"] by auto
  moreover have "distinct ex" "set ex \<subseteq> set ?M" using f(2) by (auto simp: grew_def)
  ultimately obtain more ex' where m: "buildMissing ?fuel ?M deps ex ?M = Some (more, ex')" "grew ?M ex ex' more" "set ?M \<subseteq> set ex'"
    using buildMissing_spec[of ?M ex ?fuel ?M deps] by auto
  have "dependencyForest ?M deps = Some (forest @ more)" unfolding dependencyForest_def Let_def by (simp add: f m)
  moreover have "mset (filter (\<lambda>i. i \<in> set ?M) (shown (forest @ more))) = mset ex'"
    using f(2) m(2) by (simp add: grew_def shown_append)
  moreover have "mset ex' = mset ?M"
  proof -
    have "distinct ex'" "set ex' = set ?M" using m(2,3) by (auto simp: grew_def)
    with assms show ?thesis using set_eq_iff_mset_eq_distinct by blast
  qed
  ultimately show ?thesis by simp
qed

theorem forest_shows_members_once_witness:
  "\<exists>forest. dependencyForest [''a'', ''b''] [(''a'', [''b'']), (''b'', [''a''])] = Some forest \<and> length (shown forest) = 2"
proof -
  have "distinct [''a'', ''b'']" by simp
  from forest_shows_members_once[OF this, of "[(''a'', [''b'']), (''b'', [''a''])]"] obtain forest where
    f: "dependencyForest [''a'', ''b''] [(''a'', [''b'']), (''b'', [''a''])] = Some forest"
      "mset (filter (\<lambda>i. i \<in> set [''a'', ''b'']) (shown forest)) = mset [''a'', ''b'']" by blast
  have "shown forest = [''a'', ''b'']"
    using f(1) by (auto simp: dependencyForest_def dependedOn_def depsOf_def Let_def numeral_2_eq_2 split: if_splits)
  with f show ?thesis by simp
qed

end
