(* ===== verification/Status_Checks.thy ===== *)
theory Status_Checks
  imports Service_Links
begin

text \<open>
  \<open>src/lib/status-checks.ts\<close>: reading a commit's checks from a git provider and deciding whether a
  deploy that waits for them may go on. A provider's response is the typed record the code casts it
  to, \<open>None\<close> where the list is absent; an HTTP call is its result. \<open>new URL\<close> is the parameter
  \<open>parseUrl\<close>: the host and the path, or nothing when the text is no URL; \<open>decodeURIComponent\<close> is the
  parameter \<open>decode\<close>, nothing when it throws. A lookup in an object literal reads own properties.
\<close>

section \<open>Data\<close>

datatype StatusCheckProviderKind = Github | Gitlab | Gitea | Bitbucket

datatype CheckState = CPending | CSuccess | CFailure

datatype CheckOutcome = OPass | OPending | OFail | OTimeout

record CheckResult =
  c_detail :: "string option"
  c_name :: string
  c_state :: CheckState

record CheckEvaluation =
  e_failed :: "string list"
  e_missing :: "string list"
  e_outcome :: CheckOutcome
  e_passed :: "string list"
  e_pending :: "string list"

record CheckTarget =
  t_api :: string
  t_kind :: StatusCheckProviderKind
  t_repo :: string
  t_token :: "string option"

definition WELL_KNOWN_HOSTS :: "StatusCheckProviderKind js_map" where
  "WELL_KNOWN_HOSTS = [(''bitbucket.org'', Bitbucket), (''github.com'', Github), (''gitlab.com'', Gitlab)]"

fun STATE_RANK :: "CheckState \<Rightarrow> nat" where
  "STATE_RANK CFailure = 2"
| "STATE_RANK CPending = 1"
| "STATE_RANK CSuccess = 0"

datatype checkError = ApiError string nat | OtherError string

definition permanent :: "checkError \<Rightarrow> bool" where
  "permanent err = (case err of ApiError _ status \<Rightarrow> status \<in> set [401, 403, 404, 422] | OtherError _ \<Rightarrow> False)"

section \<open>Repositories and endpoints\<close>

text \<open>\<open>[\w.-]+@([\w.-]+):(.+)\<close>, anchored; the host class has no colon, so the first colon ends it.\<close>

definition is_scp_char :: "char \<Rightarrow> bool" where
  "is_scp_char c \<longleftrightarrow> is_word c \<or> c = CHR ''.'' \<or> c = CHR ''-''"

definition scpUrl :: "string \<Rightarrow> (string \<times> string) option" where
  "scpUrl s =
     (let user = takeWhile is_scp_char s; rest = drop (length user) s
      in if user = [] \<or> rest = [] \<or> hd rest \<noteq> CHR ''@'' then None
         else
           (let host = takeWhile is_scp_char (tl rest); path = drop (length host) (tl rest)
            in if host = [] \<or> path = [] \<or> hd path \<noteq> CHR '':'' \<or> tl path = [] \<or> CHR 10 \<in> set path \<or> CHR 13 \<in> set path
               then None else Some (host, tl path)))"

definition parseGitUrl :: "(string \<Rightarrow> (string \<times> string) option) \<Rightarrow> string \<Rightarrow> (string \<times> string) option" where
  "parseGitUrl parseUrl gitUrl =
     (case scpUrl (trim gitUrl) of
        Some (host, path) \<Rightarrow> Some (lower host, ''/'' @ path)
      | None \<Rightarrow> map_option (\<lambda>(host, path). (lower host, path)) (parseUrl (trim gitUrl)))"

definition inferProviderKind :: "(string \<Rightarrow> (string \<times> string) option) \<Rightarrow> string \<Rightarrow> StatusCheckProviderKind option" where
  "inferProviderKind parseUrl gitUrl =
     (case parseGitUrl parseUrl gitUrl of Some (host, _) \<Rightarrow> map_of WELL_KNOWN_HOSTS host | None \<Rightarrow> None)"

definition drop_git :: "string \<Rightarrow> string" where
  "drop_git s = (if ends_with ''.git'' s then take (length s - 4) s else s)"

text \<open>\<open>.replace(/\/-\/.*$/, "")\<close>: from the first \<open>/-/\<close> with no line end behind it.\<close>

fun drop_dash :: "string \<Rightarrow> string" where
  "drop_dash [] = []"
| "drop_dash (c # cs) =
     (if starts_with ''/-/'' (c # cs) \<and> CHR 10 \<notin> set cs \<and> CHR 13 \<notin> set cs then [] else c # drop_dash cs)"

datatype uri_error = URIError

definition repoPathFromGitUrl ::
  "(string \<Rightarrow> (string \<times> string) option) \<Rightarrow> (string \<Rightarrow> string option) \<Rightarrow> string \<Rightarrow> string option \<Rightarrow>
   uri_error + string option" where
  "repoPathFromGitUrl parseUrl decode gitUrl baseUrl =
     (case parseGitUrl parseUrl gitUrl of
        None \<Rightarrow> Inr None
      | Some (_, p) \<Rightarrow>
          (case decode p of
             None \<Rightarrow> Inl URIError
           | Some path \<Rightarrow>
               (let prefix = (case baseUrl of
                                None \<Rightarrow> []
                              | Some b \<Rightarrow> if b = [] then []
                                          else (case parseGitUrl parseUrl b of
                                                  None \<Rightarrow> []
                                                | Some (_, bp) \<Rightarrow> strip_trailing (CHR ''/'') bp));
                    path = (if prefix \<noteq> [] \<and> starts_with (prefix @ ''/'') path then drop (length prefix) path else path);
                    repo = drop_dash (drop_git (strip_trailing (CHR ''/'') (dropWhile (\<lambda>c. c = CHR ''/'') path)))
                in Inr (if CHR ''/'' \<in> set repo then Some repo else None))))"

definition providerApiBase :: "StatusCheckProviderKind \<Rightarrow> string option \<Rightarrow> string + string" where
  "providerApiBase kind baseUrl =
     (let base = (case baseUrl of None \<Rightarrow> [] | Some b \<Rightarrow> strip_trailing (CHR ''/'') b)
      in case kind of
           Github \<Rightarrow> Inr (if base \<noteq> [] \<and> \<not> ends_with ''github.com'' base then base @ ''/api/v3'' else ''https://api.github.com'')
         | Gitlab \<Rightarrow> Inr ((if base \<noteq> [] then base else ''https://gitlab.com'') @ ''/api/v4'')
         | Gitea \<Rightarrow> if base = [] then Inl ''Gitea providers require a base URL.'' else Inr (base @ ''/api/v1'')
         | Bitbucket \<Rightarrow> Inr ''https://api.bitbucket.org/2.0'')"

section \<open>Responses\<close>

record GitHubCheckRun =
  gh_conclusion :: "string option"
  gh_name :: string
  gh_status :: string

record GitHubStatus =
  gs_context :: string
  gs_description :: "string option"
  gs_state :: string

record GitLabStatus =
  gl_allow_failure :: bool
  gl_description :: "string option"
  gl_name :: string
  gl_status :: string

record GiteaStatus =
  gt_context :: string
  gt_description :: "string option"
  gt_state :: "string option"
  gt_status :: "string option"

record BitbucketStatus =
  bb_description :: "string option"
  bb_key :: string
  bb_state :: string

definition GITHUB_PASSING :: "string list" where
  "GITHUB_PASSING = [''success'', ''neutral'', ''skipped'']"

definition listOf :: "'a list option \<Rightarrow> 'a list" where
  "listOf xs = (case xs of None \<Rightarrow> [] | Some ys \<Rightarrow> ys)"

definition mapGitHubCheckRuns :: "GitHubCheckRun list option \<Rightarrow> CheckResult list" where
  "mapGitHubCheckRuns runs =
     map (\<lambda>run. \<lparr>
       c_detail = (if gh_status run = ''completed'' then gh_conclusion run else Some (gh_status run)),
       c_name = gh_name run,
       c_state = (if gh_status run \<noteq> ''completed'' then CPending
                  else if (case gh_conclusion run of None \<Rightarrow> [] | Some c \<Rightarrow> c) \<in> set GITHUB_PASSING then CSuccess
                  else CFailure)\<rparr>) (listOf runs)"

definition stateFrom :: "string \<Rightarrow> string list \<Rightarrow> string list \<Rightarrow> CheckState" where
  "stateFrom v failure success =
     (if v \<in> set success then CSuccess else if v \<in> set failure then CFailure else CPending)"

definition mapGitHubStatuses :: "GitHubStatus list option \<Rightarrow> CheckResult list" where
  "mapGitHubStatuses statuses =
     map (\<lambda>status. \<lparr>
       c_detail = Some (case gs_description status of None \<Rightarrow> gs_state status | Some d \<Rightarrow> d),
       c_name = gs_context status,
       c_state = stateFrom (gs_state status) [''failure'', ''error''] [''success'']\<rparr>) (listOf statuses)"

definition gitLabJobState :: "GitLabStatus \<Rightarrow> CheckState" where
  "gitLabJobState status =
     (if gl_status status = ''success'' \<or> gl_status status = ''skipped'' then CSuccess
      else if gl_status status = ''failed'' \<or> gl_status status = ''canceled'' then
        (if gl_allow_failure status \<and> gl_status status = ''failed'' then CSuccess else CFailure)
      else if gl_status status = ''manual'' \<and> gl_allow_failure status then CSuccess
      else CPending)"

definition mapGitLabStatuses :: "GitLabStatus list option \<Rightarrow> CheckResult list" where
  "mapGitLabStatuses rows =
     map (\<lambda>status. \<lparr>
       c_detail = Some (case gl_description status of None \<Rightarrow> gl_status status | Some d \<Rightarrow> d),
       c_name = gl_name status,
       c_state = gitLabJobState status\<rparr>) (listOf rows)"

text \<open>A pipeline is its status.\<close>

definition mapGitLabPipelines :: "string list option \<Rightarrow> CheckResult list" where
  "mapGitLabPipelines body =
     (case listOf body of
        [] \<Rightarrow> []
      | latest # _ \<Rightarrow> [\<lparr>c_detail = Some latest, c_name = ''pipeline'',
           c_state = stateFrom latest [''failed'', ''canceled''] [''success'', ''skipped'']\<rparr>])"

definition orElse :: "string option \<Rightarrow> string \<Rightarrow> string" where
  "orElse d v = (case d of Some s \<Rightarrow> if s = [] then v else s | None \<Rightarrow> v)"

definition mapGiteaStatuses :: "GiteaStatus list option \<Rightarrow> CheckResult list" where
  "mapGiteaStatuses statuses =
     map (\<lambda>status.
       let v = (case gt_status status of Some s \<Rightarrow> s
                | None \<Rightarrow> (case gt_state status of Some s \<Rightarrow> s | None \<Rightarrow> ''pending''))
       in \<lparr>c_detail = Some (orElse (gt_description status) v),
           c_name = gt_context status,
           c_state = stateFrom v [''failure'', ''error''] [''success'', ''warning'']\<rparr>) (listOf statuses)"

definition mapBitbucketStatuses :: "BitbucketStatus list option \<Rightarrow> CheckResult list" where
  "mapBitbucketStatuses values =
     map (\<lambda>status. \<lparr>
       c_detail = Some (orElse (bb_description status) (bb_state status)),
       c_name = bb_key status,
       c_state = stateFrom (bb_state status) [''FAILED'', ''STOPPED''] [''SUCCESSFUL'']\<rparr>) (listOf values)"

section \<open>Evaluating\<close>

definition mergeStep :: "CheckResult \<Rightarrow> CheckResult js_map \<Rightarrow> CheckResult js_map" where
  "mergeStep result byName =
     (case map_of byName (c_name result) of
        None \<Rightarrow> AList.update (c_name result) result byName
      | Some existing \<Rightarrow>
          if STATE_RANK (c_state result) > STATE_RANK (c_state existing)
          then AList.update (c_name result) result byName else byName)"

definition mergeChecks :: "CheckResult list \<Rightarrow> CheckResult list" where
  "mergeChecks results = map snd (fold mergeStep results [])"

definition outcomeOf :: "CheckEvaluation \<Rightarrow> CheckResult list \<Rightarrow> bool \<Rightarrow> CheckOutcome" where
  "outcomeOf evaluation results graceExpired =
     (if e_failed evaluation \<noteq> [] then OFail
      else if e_pending evaluation \<noteq> [] then OPending
      else if e_missing evaluation = [] then OPass
      else if list_all (\<lambda>r. c_state r \<noteq> CPending) results \<and> graceExpired then OFail
      else OPending)"

definition classify :: "CheckResult js_map \<Rightarrow> string \<Rightarrow> CheckEvaluation \<Rightarrow> CheckEvaluation" where
  "classify byName name e =
     (case map_option c_state (map_of byName name) of
        Some CSuccess \<Rightarrow> e\<lparr>e_passed := e_passed e @ [name]\<rparr>
      | Some CFailure \<Rightarrow> e\<lparr>e_failed := e_failed e @ [name]\<rparr>
      | Some CPending \<Rightarrow> e\<lparr>e_pending := e_pending e @ [name]\<rparr>
      | None \<Rightarrow> e\<lparr>e_missing := e_missing e @ [name]\<rparr>)"

definition evaluateChecks :: "string list \<Rightarrow> CheckResult list \<Rightarrow> bool \<Rightarrow> CheckEvaluation" where
  "evaluateChecks required results graceExpired =
     (let byName = fold (\<lambda>r m. AList.update (c_name r) r m) (mergeChecks results) [];
          evaluation = fold (classify byName) required
            \<lparr>e_failed = [], e_missing = [], e_outcome = OPass, e_passed = [], e_pending = []\<rparr>
      in evaluation\<lparr>e_outcome := outcomeOf evaluation results graceExpired\<rparr>)"

definition describeEvaluation :: "CheckEvaluation \<Rightarrow> string" where
  "describeEvaluation e =
     join ''; ''
       ((if e_failed e \<noteq> [] then [''failed: '' @ join '', '' (e_failed e)] else []) @
        (if e_missing e \<noteq> [] then [''never reported: '' @ join '', '' (e_missing e)] else []) @
        (if e_pending e \<noteq> [] then [''still running: '' @ join '', '' (e_pending e)] else []) @
        (if e_passed e \<noteq> [] then [''passed: '' @ join '', '' (e_passed e)] else []))"

section \<open>Requests\<close>

definition encodedRepo :: "CheckTarget \<Rightarrow> string" where
  "encodedRepo target = (if t_kind target = Gitlab then encodeURIComponent (t_repo target) else t_repo target)"

definition commitsPath :: "CheckTarget \<Rightarrow> string \<Rightarrow> nat \<Rightarrow> string" where
  "commitsPath target ref howMany =
     (let repo = encodedRepo target; branch = encodeURIComponent ref
      in case t_kind target of
           Github \<Rightarrow> ''/repos/'' @ repo @ ''/commits?sha='' @ branch @ ''&per_page='' @ show_nat howMany
         | Gitlab \<Rightarrow> ''/projects/'' @ repo @ ''/repository/commits?ref_name='' @ branch @ ''&per_page='' @ show_nat howMany
         | Gitea \<Rightarrow> ''/repos/'' @ repo @ ''/commits?sha='' @ branch @ ''&limit='' @ show_nat howMany @
             ''&stat=false&verification=false&files=false''
         | Bitbucket \<Rightarrow> ''/repositories/'' @ repo @ ''/commits/'' @ branch @ ''?pagelen='' @ show_nat howMany)"

text \<open>A commit is its \<open>id\<close>, \<open>sha\<close> and \<open>hash\<close> fields; an empty one counts as absent.\<close>

record commitRow =
  cm_id :: "string option"
  cm_sha :: "string option"
  cm_hash :: "string option"

definition shasFromCommits :: "StatusCheckProviderKind \<Rightarrow> commitRow list option \<Rightarrow> string list" where
  "shasFromCommits kind body =
     (let field = (case kind of Bitbucket \<Rightarrow> cm_hash | Gitlab \<Rightarrow> cm_id | _ \<Rightarrow> cm_sha)
      in filter (\<lambda>s. s \<noteq> []) (List.map_filter field (listOf body)))"

text \<open>A source's mapper is named by the endpoint it reads.\<close>

datatype CheckSource = GitHubRuns | GitHubCommit | GitLabJobs | GitLabPipes | GiteaCommit | BitbucketCommit

definition checkSources :: "CheckTarget \<Rightarrow> string \<Rightarrow> (CheckSource \<times> string) list" where
  "checkSources target sha =
     (let repo = encodedRepo target
      in case t_kind target of
           Github \<Rightarrow> [(GitHubRuns, ''/repos/'' @ repo @ ''/commits/'' @ sha @ ''/check-runs?per_page=100&filter=latest''),
                      (GitHubCommit, ''/repos/'' @ repo @ ''/commits/'' @ sha @ ''/status?per_page=100'')]
         | Gitlab \<Rightarrow> [(GitLabJobs, ''/projects/'' @ repo @ ''/repository/commits/'' @ sha @ ''/statuses?all=false&per_page=100''),
                      (GitLabPipes, ''/projects/'' @ repo @ ''/pipelines?sha='' @ sha @ ''&per_page=1'')]
         | Gitea \<Rightarrow> [(GiteaCommit, ''/repos/'' @ repo @ ''/commits/'' @ sha @ ''/status'')]
         | Bitbucket \<Rightarrow> [(BitbucketCommit, ''/repositories/'' @ repo @ ''/commit/'' @ sha @ ''/statuses?pagelen=100'')])"

definition authHeaders :: "CheckTarget \<Rightarrow> string js_map" where
  "authHeaders target =
     [(''Accept'', if t_kind target = Github then ''application/vnd.github+json'' else ''application/json'')] @
     (case t_token target of
        Some tok \<Rightarrow> if tok \<noteq> [] then [(''Authorization'', ''Bearer '' @ tok)] else []
      | None \<Rightarrow> [])"

text \<open>
  \<open>StatusCheckClient\<close>: a response is its status, its body as text and the JSON the body parses to
  (\<open>None\<close> when it does not parse); \<open>fetch\<close> fails with a message when no response arrives. JSON is
  the typed list the code casts it to; a list of another shape has nothing a mapper reads.
\<close>

record 'j HttpResponse =
  hr_status :: nat
  hr_text :: string
  hr_json :: "'j option"

datatype checksJson =
    CheckRuns "GitHubCheckRun list option"
  | GitHubStatuses "GitHubStatus list option"
  | GitLabStatuses "GitLabStatus list option"
  | GitLabPipelines "string list option"
  | GiteaStatuses "GiteaStatus list option"
  | BitbucketValues "BitbucketStatus list option"

fun mapSource :: "CheckSource \<Rightarrow> checksJson \<Rightarrow> CheckResult list" where
  "mapSource GitHubRuns (CheckRuns b) = mapGitHubCheckRuns b"
| "mapSource GitHubCommit (GitHubStatuses b) = mapGitHubStatuses b"
| "mapSource GitLabJobs (GitLabStatuses b) = mapGitLabStatuses b"
| "mapSource GitLabPipes (GitLabPipelines b) = mapGitLabPipelines b"
| "mapSource GiteaCommit (GiteaStatuses b) = mapGiteaStatuses b"
| "mapSource BitbucketCommit (BitbucketValues b) = mapBitbucketStatuses b"
| "mapSource _ _ = []"

record StatusCheckClient =
  cl_target :: CheckTarget
  cl_commits :: "string \<Rightarrow> string js_map \<Rightarrow> string + commitRow list option HttpResponse"
  cl_checks :: "string \<Rightarrow> string js_map \<Rightarrow> string + checksJson HttpResponse"

fun kindName :: "StatusCheckProviderKind \<Rightarrow> string" where
  "kindName Github = ''github''"
| "kindName Gitlab = ''gitlab''"
| "kindName Gitea = ''gitea''"
| "kindName Bitbucket = ''bitbucket''"

definition apiGet :: "(string \<Rightarrow> string js_map \<Rightarrow> string + 'j HttpResponse) \<Rightarrow> CheckTarget \<Rightarrow> string \<Rightarrow> checkError + 'j" where
  "apiGet fetch target path =
     (case fetch (t_api target @ path) (authHeaders target) of
        Inl message \<Rightarrow> Inl (OtherError message)
      | Inr response \<Rightarrow>
          if \<not> (200 \<le> hr_status response \<and> hr_status response \<le> 299) then
            Inl (ApiError
              (kindName (t_kind target) @ '' API returned HTTP '' @ show_nat (hr_status response) @ '' for '' @ t_repo target @
               (if hr_text response \<noteq> [] then '': '' @ take 160 (trim (hr_text response)) else []))
              (hr_status response))
          else (case hr_json response of
                  None \<Rightarrow> Inl (OtherError ''Failed to parse JSON'')
                | Some body \<Rightarrow> Inr body))"

definition recentCommits :: "StatusCheckClient \<Rightarrow> string \<Rightarrow> nat \<Rightarrow> checkError + string list" where
  "recentCommits client ref howMany =
     map_sum id (shasFromCommits (t_kind (cl_target client)))
       (apiGet (cl_commits client) (cl_target client) (commitsPath (cl_target client) ref howMany))"

definition resolveCommit :: "StatusCheckClient \<Rightarrow> string \<Rightarrow> checkError + string" where
  "resolveCommit client ref =
     (case recentCommits client ref 1 of
        Inl e \<Rightarrow> Inl e
      | Inr (sha # _) \<Rightarrow> Inr sha
      | Inr [] \<Rightarrow> Inl (ApiError (''No commit found for '' @ t_repo (cl_target client) @ ''@'' @ ref @ ''.'') 404))"

text \<open>\<open>Promise.all\<close>: every call succeeds, or one error; of several errors the first in order.\<close>

fun allOf :: "('e + 'a) list \<Rightarrow> 'e + 'a list" where
  "allOf [] = Inr []"
| "allOf (Inl e # _) = Inl e"
| "allOf (Inr x # rest) = map_sum id ((#) x) (allOf rest)"

definition checks :: "StatusCheckClient \<Rightarrow> string \<Rightarrow> checkError + CheckResult list" where
  "checks client sha =
     map_sum id (\<lambda>lists. mergeChecks (concat lists))
       (allOf (map (\<lambda>(src, path). map_sum id (mapSource src) (apiGet (cl_checks client) (cl_target client) path))
                (checkSources (cl_target client) sha)))"

text \<open>\<open>localeSort\<close> is \<open>sort\<close> with \<open>localeCompare\<close>, which depends on the host's locale.\<close>

definition checkNames :: "(string list \<Rightarrow> string list) \<Rightarrow> StatusCheckClient \<Rightarrow> string \<Rightarrow> nat \<Rightarrow> checkError + string list" where
  "checkNames localeSort client ref commits =
     (case recentCommits client ref commits of
        Inl e \<Rightarrow> Inl e
      | Inr shas \<Rightarrow>
          map_sum id (\<lambda>lists. localeSort (rev (remdups (rev (map c_name (concat lists))))))
            (allOf (map (checks client) shas)))"

section \<open>A round\<close>

datatype CheckRound = Evaluated CheckEvaluation CheckOutcome | Retry string

definition emptyEvaluation :: "string list \<Rightarrow> CheckEvaluation" where
  "emptyEvaluation required =
     \<lparr>e_failed = [], e_missing = required, e_outcome = OPending, e_passed = [], e_pending = []\<rparr>"

definition errorMessage :: "checkError \<Rightarrow> string" where
  "errorMessage err = (case err of ApiError m _ \<Rightarrow> m | OtherError m \<Rightarrow> m)"

definition checkRound ::
  "checkError + CheckResult list \<Rightarrow> int \<Rightarrow> string list \<Rightarrow> int \<Rightarrow> int \<Rightarrow> checkError + CheckRound" where
  "checkRound fetched graceMs required timeoutMs waitedMs =
     (let timedOut = (waitedMs \<ge> timeoutMs)
      in case fetched of
           Inl err \<Rightarrow>
             if permanent err then Inl err
             else if timedOut then Inr (Evaluated (emptyEvaluation required) OTimeout)
             else Inr (Retry (errorMessage err))
         | Inr results \<Rightarrow>
             (let evaluation = evaluateChecks required results (waitedMs \<ge> graceMs)
              in if e_outcome evaluation = OPending \<and> timedOut then Inr (Evaluated evaluation OTimeout)
                 else Inr (Evaluated evaluation (e_outcome evaluation))))"

end
