(* ===== verification/Status_Gate.thy ===== *)
theory Status_Gate
  imports Status_Checks Job_Queue
begin

text \<open>
  \<open>src/lib/services/deploy/status-check-step.ts\<close>: the gate a git build passes before its deploy
  changes anything. The deployment is passed in and returned with its log and commit updated; what the
  gate throws is a value. \<open>clientFor\<close> is \<open>StatusCheckService.clientFor\<close>, a client or its error
  message. \<open>now\<close> and \<open>later\<close> are the two readings of the clock. Server logging is left out.
\<close>

definition STATUS_CHECK_POLL_MS :: int where
  "STATUS_CHECK_POLL_MS = 20000"

definition STATUS_CHECK_TIMEOUT_MS :: int where
  "STATUS_CHECK_TIMEOUT_MS = 30 * 60 * 1000"

definition STATUS_CHECK_GRACE_MS :: int where
  "STATUS_CHECK_GRACE_MS = 3 * 60 * 1000"

record gateService =
  sv_gitRef :: "string option"
  sv_gitUrl :: "string option"
  sv_requireStatusChecks :: bool
  sv_requiredStatusChecks :: "string list"

record gateDeployment =
  dep_gitCommit :: "string option"
  dep_gitRef :: "string option"
  dep_log :: string

datatype gateResult =
    Proceed "string option"
  | JobDeferred string DeferGate timestamp
  | StatusChecksFailed string "string option" "CheckEvaluation option"

definition appendDeployLog :: "string \<Rightarrow> gateDeployment \<Rightarrow> gateDeployment" where
  "appendDeployLog line dep = dep\<lparr>dep_log := dep_log dep @ line @ [CHR 10]\<rparr>"

definition trimEnd :: "string \<Rightarrow> string" where
  "trimEnd s = rev (dropWhile is_ws (rev s))"

definition logChange :: "string \<Rightarrow> gateDeployment \<Rightarrow> gateDeployment" where
  "logChange line dep =
     (if last (split_on (CHR 10) (trimEnd (dep_log dep))) \<noteq> line then appendDeployLog line dep else dep)"

definition checkAgain :: "timestamp \<Rightarrow> string \<Rightarrow> gateResult" where
  "checkAgain later message = JobDeferred message StatusChecks (later + STATUS_CHECK_POLL_MS)"

definition settle :: "timestamp \<Rightarrow> CheckRound \<Rightarrow> string \<Rightarrow> gateDeployment \<Rightarrow> gateResult \<times> gateDeployment" where
  "settle later round commit dep =
     (case round of
        Retry reason \<Rightarrow>
          (checkAgain later reason,
           logChange (''Couldn't read status checks ('' @ reason @ ''), retrying.'') dep)
      | Evaluated evaluation outcome \<Rightarrow>
          (let summary = describeEvaluation evaluation
           in case outcome of
                OPass \<Rightarrow> (Proceed (Some commit), appendDeployLog (''Status checks passed ('' @ summary @ '').'') dep)
              | OPending \<Rightarrow> (checkAgain later summary, logChange (''Waiting for status checks: '' @ summary) dep)
              | OTimeout \<Rightarrow>
                  (StatusChecksFailed
                     (''Status checks didn't finish within '' @ show_int (STATUS_CHECK_TIMEOUT_MS div 60000) @
                      '' minutes ('' @ summary @ ''). The build will not carry on.'')
                     (Some commit) (Some evaluation), dep)
              | OFail \<Rightarrow>
                  (StatusChecksFailed
                     (''Required status checks didn't pass ('' @ summary @ ''). The build will not carry on.'')
                     (Some commit) (Some evaluation), dep)))"

definition unreadable :: "string \<Rightarrow> string option \<Rightarrow> gateResult" where
  "unreadable reason commit =
     StatusChecksFailed (''Couldn't read status checks: '' @ reason @ ''. The build will not carry on.'') commit None"

definition roundOn :: "StatusCheckClient \<Rightarrow> string list \<Rightarrow> int \<Rightarrow> timestamp \<Rightarrow> string \<Rightarrow> gateDeployment \<Rightarrow> gateResult \<times> gateDeployment" where
  "roundOn client required waitedMs later pinned dep =
     (case checkRound (checks client pinned) STATUS_CHECK_GRACE_MS required STATUS_CHECK_TIMEOUT_MS waitedMs of
        Inl err \<Rightarrow> (unreadable (errorMessage err) (Some pinned), dep)
      | Inr round \<Rightarrow> settle later round pinned dep)"

definition truthy :: "string option \<Rightarrow> bool" where
  "truthy s \<longleftrightarrow> (case s of Some x \<Rightarrow> x \<noteq> [] | None \<Rightarrow> False)"

definition gateStatusChecks ::
  "(string \<Rightarrow> string + StatusCheckClient) \<Rightarrow> timestamp \<Rightarrow> timestamp \<Rightarrow> gateService \<Rightarrow> job \<Rightarrow> gateDeployment \<Rightarrow>
   gateResult \<times> gateDeployment" where
  "gateStatusChecks clientFor now later svc j dep =
     (if \<not> (sv_requireStatusChecks svc \<and> truthy (sv_gitUrl svc)) then (Proceed None, dep)
      else if map_option fst (deferral j) = Some BuildSlot then (Proceed (dep_gitCommit dep), dep)
      else
        (let required = sv_requiredStatusChecks svc;
             waiting = (case deferral j of Some (StatusChecks, since) \<Rightarrow> Some since | _ \<Rightarrow> None);
             waitedMs = (case waiting of Some since \<Rightarrow> now - since | None \<Rightarrow> 0);
             ref = (if truthy (sv_gitRef svc) then the (sv_gitRef svc) else ''main'');
             commit = (if waiting \<noteq> None then dep_gitCommit dep else None)
         in if required = [] then
              (StatusChecksFailed
                 ''Status checks are required, but no checks are selected. Pick them on the Source tab.'' None None, dep)
            else
              (case clientFor (the (sv_gitUrl svc)) of
                 Inl reason \<Rightarrow> (unreadable reason commit, dep)
               | Inr client \<Rightarrow>
                   if truthy commit then roundOn client required waitedMs later (the commit) dep
                   else
                     (case resolveCommit client ref of
                        Inl err \<Rightarrow> (unreadable (errorMessage err) commit, dep)
                      | Inr sha \<Rightarrow>
                          roundOn client required waitedMs later sha
                            ((appendDeployLog (''Checking status checks on '' @ ref @ ''@'' @ take 7 sha @ '': '' @ join '', '' required) dep)
                              \<lparr>dep_gitCommit := Some sha, dep_gitRef := Some ref\<rparr>)))))"

end
