(* ===== verification/Status_Theorems.thy ===== *)
theory Status_Theorems
  imports Status_Gate Job_Theorems
begin

text \<open>
  What the status checks of a commit decide: merging keeps the worst report of each check, an
  evaluation follows the reports of the required checks, the gate lets a build through only on a
  commit whose required checks all succeeded, and a build that waits keeps its commit and stops
  waiting.
\<close>

section \<open>Reports\<close>

text \<open>The states reported under a name.\<close>

definition reports :: "string \<Rightarrow> CheckResult list \<Rightarrow> CheckState set" where
  "reports name results = set (map c_state (filter (\<lambda>r. c_name r = name) results))"

definition worstOf :: "CheckState set \<Rightarrow> CheckState option" where
  "worstOf S = (if CFailure \<in> S then Some CFailure else if CPending \<in> S then Some CPending
                else if CSuccess \<in> S then Some CSuccess else None)"

lemma reports_Nil [simp]: "reports n [] = {}"
  by (simp add: reports_def)

lemma reports_Cons [simp]: "reports n (r # rs) = (if c_name r = n then insert (c_state r) (reports n rs) else reports n rs)"
  by (auto simp: reports_def)

lemma reports_snoc: "reports n (rs @ [r]) = (if c_name r = n then insert (c_state r) (reports n rs) else reports n rs)"
  by (auto simp: reports_def)

lemma reports_empty: "reports n rs = {} \<longleftrightarrow> n \<notin> c_name ` set rs"
  by (auto simp: reports_def)

lemma worstOf_cases:
  "worstOf S = Some CSuccess \<longleftrightarrow> S = {CSuccess}"
  "worstOf S = Some CFailure \<longleftrightarrow> CFailure \<in> S"
  "worstOf S = Some CPending \<longleftrightarrow> CPending \<in> S \<and> CFailure \<notin> S"
  "worstOf S = None \<longleftrightarrow> S = {}"
proof -
  show "worstOf S = Some CSuccess \<longleftrightarrow> S = {CSuccess}"
    by (auto simp: worstOf_def split: if_splits) (metis CheckState.exhaust)
  show "worstOf S = None \<longleftrightarrow> S = {}" 
    by (auto simp: worstOf_def split: if_splits) (metis CheckState.exhaust)
qed (auto simp: worstOf_def)

section \<open>Merging\<close>

abbreviation merged :: "CheckResult list \<Rightarrow> CheckResult js_map" where
  "merged rs \<equiv> fold mergeStep rs []"

lemma merged_snoc: "merged (rs @ [r]) = mergeStep r (merged rs)"
  by simp

lemma mergeStep_state:
  "map_option c_state (map_of (mergeStep r m) n) =
     (if c_name r = n
      then Some (case map_option c_state (map_of m n) of
                   None \<Rightarrow> c_state r
                 | Some s \<Rightarrow> if STATE_RANK (c_state r) > STATE_RANK s then c_state r else s)
      else map_option c_state (map_of m n))"
  by (auto simp: mergeStep_def split: option.splits)

lemma worstOf_insert:
  "worstOf (insert s S) = Some (case worstOf S of None \<Rightarrow> s | Some s' \<Rightarrow> if STATE_RANK s > STATE_RANK s' then s else s')"
  by (cases s) (auto simp: worstOf_def)

lemma merged_state: "map_option c_state (map_of (merged rs) n) = worstOf (reports n rs)"
proof (induction rs rule: rev_induct)
  case Nil
  then show ?case by (simp add: worstOf_def)
next
  case (snoc r rs)
  then show ?case unfolding merged_snoc mergeStep_state reports_snoc by (simp add: worstOf_insert)
qed

lemma update_subset: "set (AList.update k v m) \<subseteq> insert (k, v) (set m)"
  by (induction m) auto

definition keyed :: "CheckResult list \<Rightarrow> CheckResult js_map \<Rightarrow> bool" where
  "keyed rs m \<longleftrightarrow> distinct (map fst m) \<and> (\<forall>(k, r) \<in> set m. c_name r = k \<and> r \<in> set rs)"

lemma keyed_update: "keyed rs m \<Longrightarrow> keyed (rs @ [r]) (AList.update (c_name r) r m)"
  using update_subset[of "c_name r" r m] unfolding keyed_def by (fastforce simp: distinct_update)

lemma keyed_mergeStep: "keyed rs m \<Longrightarrow> keyed (rs @ [r]) (mergeStep r m)"
  unfolding mergeStep_def using keyed_update[of rs m r]
  by (auto simp: keyed_def split: option.splits)

lemma merged_keyed: "keyed rs (merged rs)"
proof (induction rs rule: rev_induct)
  case Nil
  then show ?case by (simp add: keyed_def)
next
  case (snoc r rs)
  then show ?case unfolding merged_snoc by (rule keyed_mergeStep)
qed

lemmas merged_keys = merged_keyed[unfolded keyed_def]

lemma merged_names: "k \<in> fst ` set (merged rs) \<Longrightarrow> k \<in> c_name ` set rs"
  using merged_keyed[of rs] unfolding keyed_def by auto

lemma names_merged: "map c_name (mergeChecks rs) = map fst (merged rs)"
  using merged_keys[of rs] by (auto simp: mergeChecks_def)

lemma distinct_mergeChecks: "distinct (map c_name (mergeChecks rs))"
  using merged_keys by (simp add: names_merged)

lemma fold_update_distinct:
  "distinct (map fst (m @ map (\<lambda>r. (c_name r, r)) rs)) \<Longrightarrow>
   fold (\<lambda>r m. AList.update (c_name r) r m) rs m = m @ map (\<lambda>r. (c_name r, r)) rs"
proof (induction rs arbitrary: m)
  case (Cons r rs)
  have "AList.update (c_name r) r m = m @ [(c_name r, r)]"
    using Cons.prems by (intro update_new) auto
  then show ?case using Cons.IH[of "m @ [(c_name r, r)]"] Cons.prems by simp
qed simp

lemma byName_merged: "fold (\<lambda>r m. AList.update (c_name r) r m) (mergeChecks rs) [] = merged rs"
proof -
  have "map (\<lambda>r. (c_name r, r)) (mergeChecks rs) = merged rs"
    using merged_keys[of rs] by (auto simp: mergeChecks_def intro!: map_idI)
  moreover from this have "distinct (map fst (map (\<lambda>r. (c_name r, r)) (mergeChecks rs)))"
    using merged_keys[of rs] by simp
  ultimately show ?thesis using fold_update_distinct[of "[]" "mergeChecks rs"] by simp
qed

lemma reports_mergeChecks: "reports n (mergeChecks rs) = set_option (worstOf (reports n rs))"
proof -
  have "map_of (merged rs) n = Some r \<longleftrightarrow> r \<in> set (mergeChecks rs) \<and> c_name r = n" for r
  proof -
    have "map_of (merged rs) n = Some r \<longleftrightarrow> (n, r) \<in> set (merged rs)"
      using merged_keys[of rs] by simp
    also have "\<dots> \<longleftrightarrow> r \<in> set (mergeChecks rs) \<and> c_name r = n"
      using merged_keys[of rs] by (force simp: mergeChecks_def)
    finally show ?thesis .
  qed
  then have "reports n (mergeChecks rs) = set_option (map_option c_state (map_of (merged rs) n))"
    by (auto simp: reports_def)
  then show ?thesis by (simp only: merged_state)
qed

lemma worstOf_mergeChecks: "worstOf (reports n (mergeChecks rs)) = worstOf (reports n rs)"
  by (auto simp: reports_mergeChecks worstOf_def)

lemma mergeChecks_distinct: "distinct (map c_name rs) \<Longrightarrow> mergeChecks rs = rs"
proof (induction rs rule: rev_induct)
  case (snoc r rs)
  have "c_name r \<notin> fst ` set (merged rs)"
    using merged_names[of "c_name r" rs] snoc.prems by auto
  then have "merged (rs @ [r]) = merged rs @ [(c_name r, r)]"
    unfolding merged_snoc mergeStep_def by (simp add: update_new map_of_eq_None_iff[THEN iffD2])
  then show ?case using snoc by (simp add: mergeChecks_def)
qed (simp add: mergeChecks_def)

section \<open>Evaluating\<close>

lemma classify_fold:
  "fold (classify m) req e = e
     \<lparr>e_failed := e_failed e @ filter (\<lambda>n. map_option c_state (map_of m n) = Some CFailure) req,
      e_missing := e_missing e @ filter (\<lambda>n. map_of m n = None) req,
      e_passed := e_passed e @ filter (\<lambda>n. map_option c_state (map_of m n) = Some CSuccess) req,
      e_pending := e_pending e @ filter (\<lambda>n. map_option c_state (map_of m n) = Some CPending) req\<rparr>"
proof (induction req arbitrary: e)
  case (Cons n req)
  show ?case unfolding fold_Cons comp_def Cons.IH
    by (cases "map_of m n") (auto simp: classify_def split: CheckState.splits)
qed simp

lemma evaluateChecks_groups:
  "e_failed (evaluateChecks req rs g) = filter (\<lambda>n. CFailure \<in> reports n rs) req"
  "e_pending (evaluateChecks req rs g) = filter (\<lambda>n. CPending \<in> reports n rs \<and> CFailure \<notin> reports n rs) req"
  "e_passed (evaluateChecks req rs g) = filter (\<lambda>n. reports n rs = {CSuccess}) req"
  "e_missing (evaluateChecks req rs g) = filter (\<lambda>n. reports n rs = {}) req"
proof -
  have none: "map_of (merged rs) n = None \<longleftrightarrow> reports n rs = {}" for n
    using merged_state[of rs n] worstOf_cases(4)[of "reports n rs"] by (cases "map_of (merged rs) n") auto
  show "e_failed (evaluateChecks req rs g) = filter (\<lambda>n. CFailure \<in> reports n rs) req"
    "e_pending (evaluateChecks req rs g) = filter (\<lambda>n. CPending \<in> reports n rs \<and> CFailure \<notin> reports n rs) req"
    "e_passed (evaluateChecks req rs g) = filter (\<lambda>n. reports n rs = {CSuccess}) req"
    "e_missing (evaluateChecks req rs g) = filter (\<lambda>n. reports n rs = {}) req"
    unfolding evaluateChecks_def Let_def byName_merged classify_fold merged_state worstOf_cases none by simp_all
qed

lemma evaluateChecks_outcome:
  "e_outcome (evaluateChecks req rs g) = outcomeOf (evaluateChecks req rs g) rs g"
  by (simp add: evaluateChecks_def Let_def outcomeOf_def)

lemma not_success_cases: "reports n rs = {CSuccess} \<longleftrightarrow>
    CFailure \<notin> reports n rs \<and> CPending \<notin> reports n rs \<and> reports n rs \<noteq> {}"
  by (auto) (metis CheckState.exhaust)+

lemma evaluateChecks_pass:
  "e_outcome (evaluateChecks req rs g) = OPass \<longleftrightarrow> (\<forall>n \<in> set req. reports n rs = {CSuccess})"
  unfolding evaluateChecks_outcome outcomeOf_def evaluateChecks_groups not_success_cases
  by (auto simp: filter_empty_conv)

lemma evaluateChecks_fail:
  "e_outcome (evaluateChecks req rs g) = OFail \<longleftrightarrow>
     (\<exists>n \<in> set req. CFailure \<in> reports n rs) \<or>
     g \<and> (\<forall>r \<in> set rs. c_state r \<noteq> CPending) \<and> (\<exists>n \<in> set req. reports n rs = {})"
proof -
  have "CPending \<notin> reports n rs" if "\<forall>r \<in> set rs. c_state r \<noteq> CPending" for n
    using that by (auto simp: reports_def)
  then show ?thesis unfolding evaluateChecks_outcome outcomeOf_def evaluateChecks_groups
    by (auto simp: filter_empty_conv list_all_iff)
qed

lemma evaluateChecks_no_timeout: "e_outcome (evaluateChecks req rs g) \<noteq> OTimeout"
  unfolding evaluateChecks_outcome outcomeOf_def by simp

lemma evaluateChecks_partition:
  "mset (e_failed (evaluateChecks req rs g)) + mset (e_pending (evaluateChecks req rs g)) +
   mset (e_passed (evaluateChecks req rs g)) + mset (e_missing (evaluateChecks req rs g)) = mset req"
  unfolding evaluateChecks_groups
proof (induction req)
  case (Cons n req)
  then show ?case using not_success_cases[of n rs] by auto
qed simp

section \<open>The gate\<close>

text \<open>The reports on a commit from all of the provider's sources, or the first error.\<close>

definition answers :: "StatusCheckClient \<Rightarrow> string \<Rightarrow> checkError + CheckResult list list" where
  "answers client sha =
     allOf (map (\<lambda>(src, path). map_sum id (mapSource src) (apiGet (cl_checks client) (cl_target client) path))
       (checkSources (cl_target client) sha))"

text \<open>The commit a round looks at: the recorded one while waiting, else the head of the ref.\<close>

definition pinnedCommit :: "StatusCheckClient \<Rightarrow> gateService \<Rightarrow> job \<Rightarrow> gateDeployment \<Rightarrow> checkError + string" where
  "pinnedCommit client svc j dep =
     (if map_option fst (deferral j) = Some StatusChecks \<and> truthy (dep_gitCommit dep) then Inr (the (dep_gitCommit dep))
      else resolveCommit client (if truthy (sv_gitRef svc) then the (sv_gitRef svc) else ''main''))"

lemma checks_answers: "checks client sha = map_sum id (\<lambda>lists. mergeChecks (concat lists)) (answers client sha)"
  by (simp add: checks_def answers_def)

lemma map_sum_Inl [simp]: "map_sum id f x = Inl e \<longleftrightarrow> x = Inl e"
  by (cases x) auto

lemma map_sum_Inr: "map_sum id f x = Inr y \<longleftrightarrow> (\<exists>z. x = Inr z \<and> y = f z)"
  by (cases x) auto

lemma pass_mergeChecks: "reports n (mergeChecks rs) = {CSuccess} \<longleftrightarrow> reports n rs = {CSuccess}"
  using worstOf_mergeChecks[of n rs] worstOf_cases(1) by metis

text \<open>What a round returns: an unreadable provider, one evaluation, or another look.\<close>

lemma checkRound_cases:
  "checkRound fetched grace req timeout waited =
     (case fetched of
        Inl err \<Rightarrow> if permanent err then Inl err
                   else if waited \<ge> timeout then Inr (Evaluated (emptyEvaluation req) OTimeout)
                   else Inr (Retry (errorMessage err))
      | Inr rs \<Rightarrow>
          Inr (Evaluated (evaluateChecks req rs (waited \<ge> grace))
                (if e_outcome (evaluateChecks req rs (waited \<ge> grace)) = OPending \<and> waited \<ge> timeout then OTimeout
                 else e_outcome (evaluateChecks req rs (waited \<ge> grace)))))"
  by (simp add: checkRound_def Let_def split: sum.splits)

lemma settle_result:
  "fst (settle later round commit dep) = Proceed c \<longleftrightarrow> (\<exists>e. round = Evaluated e OPass) \<and> c = Some commit"
  "fst (settle later round commit dep) = JobDeferred m g at \<Longrightarrow>
     g = StatusChecks \<and> at = later + STATUS_CHECK_POLL_MS \<and> ((\<exists>e. round = Evaluated e OPending) \<or> (\<exists>reason. round = Retry reason))"
  "dep_gitCommit (snd (settle later round commit dep)) = dep_gitCommit dep"
  by (auto simp: settle_def checkAgain_def Let_def logChange_def appendDeployLog_def
      split: CheckRound.splits CheckOutcome.splits if_splits)

lemma roundOn_proceed:
  "fst (roundOn client req waited later pinned dep) = Proceed c \<longleftrightarrow>
     c = Some pinned \<and>
     (\<exists>lists. answers client pinned = Inr lists \<and> (\<forall>n \<in> set req. reports n (concat lists) = {CSuccess}))"
proof (cases "answers client pinned")
  case (Inl err)
  then show ?thesis
    by (simp add: roundOn_def checkRound_cases checks_answers settle_result unreadable_def)
next
  case (Inr lists)
  have "(\<exists>e. Evaluated (evaluateChecks req rs g) (if e_outcome (evaluateChecks req rs g) = OPending \<and> late then OTimeout
          else e_outcome (evaluateChecks req rs g)) = Evaluated e OPass) \<longleftrightarrow> e_outcome (evaluateChecks req rs g) = OPass" for rs g late
    by simp
  then show ?thesis using Inr
    by (auto simp: roundOn_def checkRound_cases checks_answers settle_result evaluateChecks_pass pass_mergeChecks)
qed

lemma roundOn_deferred:
  assumes "fst (roundOn client req waited later pinned dep) = JobDeferred m g at"
  shows "g = StatusChecks" "at = later + STATUS_CHECK_POLL_MS" "waited < STATUS_CHECK_TIMEOUT_MS"
  using assms settle_result(2)
  by (fastforce simp: roundOn_def checkRound_cases unreadable_def split: sum.splits if_splits)+

lemma roundOn_commit: "dep_gitCommit (snd (roundOn client req waited later pinned dep)) = dep_gitCommit dep"
  by (auto simp: roundOn_def settle_result split: sum.splits)

lemma shas_nonempty: "s \<in> set (shasFromCommits kind body) \<Longrightarrow> s \<noteq> []"
  by (simp add: shasFromCommits_def Let_def)

lemma resolveCommit_nonempty:
  assumes "resolveCommit client ref = Inr sha"
  shows "sha \<noteq> []"
proof -
  obtain rest where "recentCommits client ref 1 = Inr (sha # rest)"
    using assms by (auto simp: resolveCommit_def split: sum.splits list.splits)
  then obtain body where "sha # rest = shasFromCommits (t_kind (cl_target client)) body"
    unfolding recentCommits_def map_sum_Inr by blast
  then show ?thesis using shas_nonempty[of sha] by (metis list.set_intros(1))
qed

text \<open>The gate as a round on its pinned commit.\<close>

definition gateDep :: "gateService \<Rightarrow> job \<Rightarrow> gateDeployment \<Rightarrow> string \<Rightarrow> gateDeployment" where
  "gateDep svc j dep sha =
     (if map_option fst (deferral j) = Some StatusChecks \<and> truthy (dep_gitCommit dep) then dep
      else (let ref = (if truthy (sv_gitRef svc) then the (sv_gitRef svc) else ''main'')
            in (appendDeployLog (''Checking status checks on '' @ ref @ ''@'' @ take 7 sha @ '': '' @
                  join '', '' (sv_requiredStatusChecks svc)) dep)\<lparr>dep_gitCommit := Some sha, dep_gitRef := Some ref\<rparr>))"

definition gateWaited :: "timestamp \<Rightarrow> job \<Rightarrow> int" where
  "gateWaited now j = (case deferral j of Some (StatusChecks, since) \<Rightarrow> now - since | _ \<Rightarrow> 0)"

lemma gate_round:
  assumes "sv_requireStatusChecks svc" "truthy (sv_gitUrl svc)" "map_option fst (deferral j) \<noteq> Some BuildSlot"
    "sv_requiredStatusChecks svc \<noteq> []" "clientFor (the (sv_gitUrl svc)) = Inr client"
  shows "gateStatusChecks clientFor now later svc j dep =
    (case pinnedCommit client svc j dep of
       Inl err \<Rightarrow> (unreadable (errorMessage err) (if map_option fst (deferral j) = Some StatusChecks then dep_gitCommit dep else None), dep)
     | Inr sha \<Rightarrow> roundOn client (sv_requiredStatusChecks svc) (gateWaited now j) later sha (gateDep svc j dep sha))"
  using assms
  by (cases "deferral j") (auto simp: gateStatusChecks_def pinnedCommit_def gateDep_def gateWaited_def Let_def truthy_def
      split: sum.splits DeferGate.splits)

section \<open>Waiting\<close>

text \<open>
  A waiting build: the earliest time it may be claimed again, its job and its deployment. A round looks
  at the checks once, at a time it may be claimed, is deferred, and the deferral is written to the job's
  row; the claim after it keeps the row's deferral.
\<close>

type_synonym wait = "timestamp \<times> job \<times> gateDeployment"

inductive waits :: "gateService \<Rightarrow> wait \<Rightarrow> wait \<Rightarrow> bool" for svc where
  again:
    "runAt \<le> now \<Longrightarrow> now \<le> later \<Longrightarrow>
     gateStatusChecks clientFor now later svc j dep = (JobDeferred message gate runAt', dep') \<Longrightarrow>
     deferJob written runAt' gate j t = (Inr entry, t') \<Longrightarrow>
     deferral j' = deferral entry \<Longrightarrow>
     waits svc (runAt, j, dep) (runAt', j', dep')"

inductive_cases waitsE: "waits svc s s'"

lemma deferJob_deferral:
  assumes "deferJob now runAt gate j t = (Inr e, t')"
  shows "deferral e = Some (gate, case deferral j of Some (g, since) \<Rightarrow> if g = gate then since else now | None \<Rightarrow> now)"
  using assms by (auto simp: deferJob_def Let_def dtoUpdate_def checked_def deferral_def split: if_splits option.splits)

lemma gate_deferred:
  assumes "gateStatusChecks clientFor now later svc j dep = (JobDeferred message gate at, dep')"
  obtains sha where
    "gate = StatusChecks" "at = later + STATUS_CHECK_POLL_MS" "gateWaited now j < STATUS_CHECK_TIMEOUT_MS"
    "dep_gitCommit dep' = Some sha" "sha \<noteq> []"
    "map_option fst (deferral j) = Some StatusChecks \<and> truthy (dep_gitCommit dep) \<longrightarrow> dep_gitCommit dep = Some sha"
proof -
  have r: "sv_requireStatusChecks svc" "truthy (sv_gitUrl svc)" "map_option fst (deferral j) \<noteq> Some BuildSlot"
    "sv_requiredStatusChecks svc \<noteq> []"
    using assms by (auto simp: gateStatusChecks_def Let_def split: if_splits)
  obtain client where c: "clientFor (the (sv_gitUrl svc)) = Inr client"
    using assms r by (cases "clientFor (the (sv_gitUrl svc))") (auto simp: gateStatusChecks_def Let_def unreadable_def split: if_splits)
  note gr = gate_round[of svc j clientFor client now later dep, OF r c]
  obtain sha where sha: "pinnedCommit client svc j dep = Inr sha"
    using assms gr by (cases "pinnedCommit client svc j dep") (auto simp: unreadable_def)
  have round: "roundOn client (sv_requiredStatusChecks svc) (gateWaited now j) later sha (gateDep svc j dep sha) =
      (JobDeferred message gate at, dep')"
    using assms gr sha by simp
  have ne: "sha \<noteq> []"
    using sha resolveCommit_nonempty by (auto simp: pinnedCommit_def truthy_def split: if_splits option.splits)
  have commit: "dep_gitCommit dep' = Some sha"
  proof -
    have "dep_gitCommit (gateDep svc j dep sha) = Some sha"
      using sha by (auto simp: gateDep_def pinnedCommit_def truthy_def Let_def split: if_splits option.splits)
    then show ?thesis using roundOn_commit[of client _ _ later sha "gateDep svc j dep sha"] round by (metis snd_conv)
  qed
  have "map_option fst (deferral j) = Some StatusChecks \<and> truthy (dep_gitCommit dep) \<longrightarrow> dep_gitCommit dep = Some sha"
    using sha by (auto simp: pinnedCommit_def truthy_def split: option.splits)
  then show ?thesis using that roundOn_deferred[of client _ _ later sha "gateDep svc j dep sha"] round ne commit
    by (metis fst_conv)
qed

lemma waits_pins:
  assumes "waits svc (runAt, j, dep) (runAt', j', dep')"
  obtains since sha where
    "deferral j' = Some (StatusChecks, since)" "dep_gitCommit dep' = Some sha" "sha \<noteq> []"
    "runAt + STATUS_CHECK_POLL_MS \<le> runAt'"
    "\<And>since0. deferral j = Some (StatusChecks, since0) \<Longrightarrow> since = since0 \<and> runAt < since + STATUS_CHECK_TIMEOUT_MS"
    "\<And>sha0 since0. deferral j = Some (StatusChecks, since0) \<Longrightarrow> dep_gitCommit dep = Some sha0 \<Longrightarrow> sha0 \<noteq> [] \<Longrightarrow> sha = sha0"
  using assms
proof (cases rule: waits.cases)
  case (again now later clientFor message gate written t entry t')
  obtain sha where g: "gate = StatusChecks" "runAt' = later + STATUS_CHECK_POLL_MS" "gateWaited now j < STATUS_CHECK_TIMEOUT_MS"
    "dep_gitCommit dep' = Some sha" "sha \<noteq> []"
    "map_option fst (deferral j) = Some StatusChecks \<and> truthy (dep_gitCommit dep) \<longrightarrow> dep_gitCommit dep = Some sha"
    using gate_deferred[OF again(3)] .
  have d: "deferral j' = Some (StatusChecks, case deferral j of Some (g, since) \<Rightarrow> if g = StatusChecks then since else written | None \<Rightarrow> written)"
    using again(5) deferJob_deferral[OF again(4)] unfolding g(1) by simp
  have "runAt < since0 + STATUS_CHECK_TIMEOUT_MS" if "deferral j = Some (StatusChecks, since0)" for since0
    using g(3) again(1) that by (simp add: gateWaited_def)
  moreover have "sha = sha0" if "deferral j = Some (StatusChecks, since0)" "dep_gitCommit dep = Some sha0" "sha0 \<noteq> []" for sha0 since0
    using g(6) that by (simp add: truthy_def)
  moreover have "runAt + STATUS_CHECK_POLL_MS \<le> runAt'" using g(2) again(1,2) by simp
  ultimately show ?thesis using that[OF d g(4,5)] by simp
qed

lemma waits_n:
  assumes "(waits svc ^^ n) (runAt, j, dep) (runAt', j', dep')"
    and "deferral j = Some (StatusChecks, since)" "dep_gitCommit dep = Some sha" "sha \<noteq> []"
  shows "deferral j' = Some (StatusChecks, since) \<and> dep_gitCommit dep' = Some sha \<and>
    runAt + int n * STATUS_CHECK_POLL_MS \<le> runAt' \<and>
    (n \<noteq> 0 \<longrightarrow> runAt + int (n - 1) * STATUS_CHECK_POLL_MS < since + STATUS_CHECK_TIMEOUT_MS)"
  using assms(1)
proof (induction n arbitrary: runAt' j' dep')
  case 0
  then show ?case using assms by simp
next
  case (Suc n)
  from Suc.prems obtain r1 j1 d1 where one: "(waits svc ^^ n) (runAt, j, dep) (r1, j1, d1)"
    and two: "waits svc (r1, j1, d1) (runAt', j', dep')" by (metis prod_cases3 relpowp_Suc_E)
  note IH = Suc.IH[OF one]
  obtain since' sha' where "deferral j' = Some (StatusChecks, since')" "dep_gitCommit dep' = Some sha'"
    "r1 + STATUS_CHECK_POLL_MS \<le> runAt'"
    "\<And>since0. deferral j1 = Some (StatusChecks, since0) \<Longrightarrow> since' = since0 \<and> r1 < since' + STATUS_CHECK_TIMEOUT_MS"
    "\<And>sha0 since0. deferral j1 = Some (StatusChecks, since0) \<Longrightarrow> dep_gitCommit d1 = Some sha0 \<Longrightarrow> sha0 \<noteq> [] \<Longrightarrow> sha' = sha0"
    using waits_pins[OF two] by metis
  with IH assms(4) show ?case by (auto simp: algebra_simps)
qed

section \<open>A sample client\<close>

text \<open>A Gitea client that finds the head commit and cannot reach the checks.\<close>

definition offlineClient :: StatusCheckClient where
  "offlineClient =
     \<lparr>cl_target = \<lparr>t_api = ''api'', t_kind = Gitea, t_repo = ''o/r'', t_token = None\<rparr>,
      cl_commits = (\<lambda>_ _. Inr \<lparr>hr_status = 200, hr_text = [], hr_json = Some (Some
        [\<lparr>cm_id = None, cm_sha = Some ''abc'', cm_hash = None\<rparr>])\<rparr>),
      cl_checks = (\<lambda>_ _. Inl ''offline'')\<rparr>"

definition checkedService :: gateService where
  "checkedService = \<lparr>sv_gitRef = None, sv_gitUrl = Some ''git'', sv_requireStatusChecks = True,
     sv_requiredStatusChecks = [''build'']\<rparr>"

lemma offline_resolves: "resolveCommit offlineClient ref = Inr ''abc''"
  by (simp add: resolveCommit_def recentCommits_def apiGet_def offlineClient_def shasFromCommits_def listOf_def
      List.map_filter_def)

lemma offline_checks: "checks offlineClient sha = Inl (OtherError ''offline'')"
  by (simp add: checks_def checkSources_def offlineClient_def apiGet_def)

lemma offline_deferred:
  assumes "deferral j = None \<or> deferral j = Some (StatusChecks, since) \<and> now < since + STATUS_CHECK_TIMEOUT_MS"
  shows "\<exists>m dep'. gateStatusChecks (\<lambda>_. Inr offlineClient) now later checkedService j dep =
    (JobDeferred m StatusChecks (later + STATUS_CHECK_POLL_MS), dep')"
proof -
  have g: "gateStatusChecks (\<lambda>_. Inr offlineClient) now later checkedService j dep =
     (case pinnedCommit offlineClient checkedService j dep of
       Inl err \<Rightarrow> (unreadable (errorMessage err) (if map_option fst (deferral j) = Some StatusChecks then dep_gitCommit dep else None), dep)
     | Inr sha \<Rightarrow> roundOn offlineClient (sv_requiredStatusChecks checkedService) (gateWaited now j) later sha
                  (gateDep checkedService j dep sha))"
    by (rule gate_round) (use assms in \<open>auto simp: checkedService_def truthy_def\<close>)
  have "gateWaited now j < STATUS_CHECK_TIMEOUT_MS"
    using assms by (auto simp: gateWaited_def STATUS_CHECK_TIMEOUT_MS_def)
  then have "\<exists>m dep'. roundOn offlineClient req (gateWaited now j) later sha d =
      (JobDeferred m StatusChecks (later + STATUS_CHECK_POLL_MS), dep')" for sha req d
    by (simp add: roundOn_def offline_checks checkRound_cases permanent_def settle_def checkAgain_def)
  then show ?thesis unfolding g by (auto simp: pinnedCommit_def offline_resolves)
qed

lemma offline_waits:
  assumes "deferral j = None \<or> deferral j = Some (StatusChecks, since) \<and> now < since + STATUS_CHECK_TIMEOUT_MS"
  shows "\<exists>j' dep'. waits checkedService (now, j, dep) (now + STATUS_CHECK_POLL_MS, j', dep') \<and>
    deferral j' = Some (StatusChecks, case deferral j of None \<Rightarrow> now | Some (_, s) \<Rightarrow> s)"
proof -
  obtain m dep' where g: "gateStatusChecks (\<lambda>_. Inr offlineClient) now now checkedService j dep =
      (JobDeferred m StatusChecks (now + STATUS_CHECK_POLL_MS), dep')"
    using offline_deferred[OF assms] by blast
  obtain e t where d: "deferJob now (now + STATUS_CHECK_POLL_MS) StatusChecks j [j] = (Inr e, t)"
    by (simp add: deferJob_def Let_def dtoUpdate_def checked_def sqlSet_def constraintsOk_def noPair_def)
  have "waits checkedService (now, j, dep) (now + STATUS_CHECK_POLL_MS, e, dep')"
    using waits.again[OF _ _ g d] by simp
  then show ?thesis using deferJob_deferral[OF d] assms by (auto split: option.splits)
qed

definition onlineClient :: StatusCheckClient where
  "onlineClient = offlineClient\<lparr>cl_checks := (\<lambda>_ _. Inr \<lparr>hr_status = 200, hr_text = [], hr_json = Some (GiteaStatuses (Some
     [\<lparr>gt_context = ''build'', gt_description = None, gt_state = None, gt_status = Some ''success''\<rparr>]))\<rparr>)\<rparr>"

lemma online_resolves: "resolveCommit onlineClient ref = Inr ''abc''"
  by (simp add: resolveCommit_def recentCommits_def apiGet_def onlineClient_def offlineClient_def shasFromCommits_def
      listOf_def List.map_filter_def)

lemma online_answers:
  "answers onlineClient sha = Inr [[\<lparr>c_detail = Some ''success'', c_name = ''build'', c_state = CSuccess\<rparr>]]"
  by (simp add: answers_def checkSources_def onlineClient_def offlineClient_def apiGet_def mapGiteaStatuses_def listOf_def
      orElse_def stateFrom_def)

section \<open>Properties\<close>

text \<open>
  Merging the reports of several sources keeps one report per check, in reported form; the state
  kept for a check is the worst one reported for it (failure over pending over success), so no order of
  the sources hides a failure; and merging what is already merged changes nothing.
\<close>

theorem mergeChecks_keeps_worst:
  "distinct (map c_name (mergeChecks rs)) \<and> set (mergeChecks rs) \<subseteq> set rs \<and>
   (\<forall>name. reports name (mergeChecks rs) =
      (if CFailure \<in> reports name rs then {CFailure}
       else if CPending \<in> reports name rs then {CPending}
       else if CSuccess \<in> reports name rs then {CSuccess} else {})) \<and>
   mergeChecks (mergeChecks rs) = mergeChecks rs"
proof (intro conjI allI)
  show "set (mergeChecks rs) \<subseteq> set rs" using merged_keyed[of rs] by (auto simp: mergeChecks_def keyed_def)
  show "reports name (mergeChecks rs) =
      (if CFailure \<in> reports name rs then {CFailure}
       else if CPending \<in> reports name rs then {CPending}
       else if CSuccess \<in> reports name rs then {CSuccess} else {})" for name
    by (simp add: reports_mergeChecks worstOf_def)
qed (use distinct_mergeChecks mergeChecks_distinct in auto)

text \<open>
  C15. An evaluation puts every required check in exactly one of the groups failed, pending, passed and
  missing, each in the order required. It passes exactly when every required check was reported and every
  report of it succeeded. It fails exactly when a required check has a failing report, or when the grace
  period is over, nothing at all is still running and a required check was never reported. Otherwise it is
  pending.
\<close>

theorem evaluateChecks_decides:
  fixes req rs g
  defines "e \<equiv> evaluateChecks req rs g"
  shows "(e_outcome e = OPass \<longleftrightarrow> (\<forall>n \<in> set req. reports n rs = {CSuccess})) \<and>
    (e_outcome e = OFail \<longleftrightarrow>
       (\<exists>n \<in> set req. CFailure \<in> reports n rs) \<or>
       g \<and> (\<forall>r \<in> set rs. c_state r \<noteq> CPending) \<and> (\<exists>n \<in> set req. reports n rs = {})) \<and>
    e_outcome e \<in> {OPass, OFail, OPending} \<and>
    e_failed e = filter (\<lambda>n. CFailure \<in> reports n rs) req \<and>
    e_missing e = filter (\<lambda>n. reports n rs = {}) req \<and>
    mset (e_failed e) + mset (e_pending e) + mset (e_passed e) + mset (e_missing e) = mset req"
  unfolding e_def
  using evaluateChecks_pass[of req rs g] evaluateChecks_fail[of req rs g] evaluateChecks_no_timeout[of req rs g]
    evaluateChecks_partition[of req rs g]
  by (cases "e_outcome (evaluateChecks req rs g)") (simp_all add: evaluateChecks_groups)

theorem evaluateChecks_decides_witness:
  "e_outcome (evaluateChecks [''build'', ''lint'']
     [\<lparr>c_detail = None, c_name = ''build'', c_state = CSuccess\<rparr>, \<lparr>c_detail = None, c_name = ''lint'', c_state = CSuccess\<rparr>,
      \<lparr>c_detail = None, c_name = ''lint'', c_state = CFailure\<rparr>] False) = OFail"
  using evaluateChecks_decides[of "[''build'', ''lint'']"
     "[\<lparr>c_detail = None, c_name = ''build'', c_state = CSuccess\<rparr>, \<lparr>c_detail = None, c_name = ''lint'', c_state = CSuccess\<rparr>,
      \<lparr>c_detail = None, c_name = ''lint'', c_state = CFailure\<rparr>]" False]
  by simp

text \<open>
  C16. What the gate lets through, on every branch. A service that does not require checks, or has no git repository, goes on
  with no commit. A job put back for a build slot, which the gate had let through before, goes on with the commit its
  deployment recorded, and no check is read again. Any other build goes on exactly when checks are selected, the provider of
  the repository can be asked, every source could be read for the commit the round looks at, and every selected
  check was reported there and every report of it succeeded, on any of the sources; it then gets that commit, which is the
  recorded one while the job waits on its checks and the head of the ref otherwise.
\<close>

theorem gate_passes_iff:
  "fst (gateStatusChecks clientFor now later svc j dep) = Proceed c \<longleftrightarrow>
     (if \<not> (sv_requireStatusChecks svc \<and> truthy (sv_gitUrl svc)) then c = None
      else if map_option fst (deferral j) = Some BuildSlot then c = dep_gitCommit dep
      else sv_requiredStatusChecks svc \<noteq> [] \<and>
        (\<exists>client sha lists. clientFor (the (sv_gitUrl svc)) = Inr client \<and> c = Some sha \<and>
           pinnedCommit client svc j dep = Inr sha \<and> answers client sha = Inr lists \<and>
           (\<forall>n \<in> set (sv_requiredStatusChecks svc). reports n (concat lists) = {CSuccess})))"
proof (cases "sv_requireStatusChecks svc \<and> truthy (sv_gitUrl svc) \<and> map_option fst (deferral j) \<noteq> Some BuildSlot")
  case asked: True
  show ?thesis
  proof (cases "sv_requiredStatusChecks svc = [] \<or> (\<exists>reason. clientFor (the (sv_gitUrl svc)) = Inl reason)")
    case True
    then show ?thesis using asked by (auto simp: gateStatusChecks_def Let_def unreadable_def)
  next
    case False
    then obtain client where client: "clientFor (the (sv_gitUrl svc)) = Inr client" "sv_requiredStatusChecks svc \<noteq> []"
      by (cases "clientFor (the (sv_gitUrl svc))") auto
    have "fst (gateStatusChecks clientFor now later svc j dep) = Proceed c \<longleftrightarrow>
        (\<exists>sha lists. c = Some sha \<and> pinnedCommit client svc j dep = Inr sha \<and> answers client sha = Inr lists \<and>
           (\<forall>n \<in> set (sv_requiredStatusChecks svc). reports n (concat lists) = {CSuccess}))"
      unfolding gate_round[of svc j clientFor client now later dep, OF conjunct1[OF asked] conjunct1[OF conjunct2[OF asked]]
          conjunct2[OF conjunct2[OF asked]] client(2,1)]
      by (auto simp: unreadable_def roundOn_proceed client(2) split: sum.splits)
    then show ?thesis using asked client by simp
  qed
next
  case False
  then show ?thesis by (auto simp: gateStatusChecks_def)
qed

theorem gate_passes_iff_witness:
  "fst (gateStatusChecks (\<lambda>_. Inr onlineClient) 0 0 checkedService (sampleRow ''a'' None None False)
     \<lparr>dep_gitCommit = None, dep_gitRef = None, dep_log = []\<rparr>) = Proceed (Some ''abc'')"
proof -
  have n: "deferral (sampleRow ''a'' None None False) = None" by (simp add: sample_defs deferral_def)
  show ?thesis
    using gate_passes_iff[of "\<lambda>_. Inr onlineClient" 0 0 checkedService "sampleRow ''a'' None None False"
        "\<lparr>dep_gitCommit = None, dep_gitRef = None, dep_log = []\<rparr>" "Some ''abc''"]
    by (simp add: n pinnedCommit_def online_resolves online_answers checkedService_def truthy_def)
qed

text \<open>
  C17. A build that waits on its checks keeps the commit its first round pinned and the time its wait
  started, however many rounds it takes and whatever the provider answers, and it stops waiting: a round is
  put back only before the 30 minutes are over, each at least 20 seconds after the one before, so from its
  first deferral (due at \<open>runAt\<close>) at most the rounds that fit in the time left are put back.
\<close>

theorem gate_wait_is_pinned_and_ends:
  assumes "waits svc (runAt0, j0, dep0) (runAt, j, dep)" "(waits svc ^^ n) (runAt, j, dep) (runAt', j', dep')"
  shows "\<exists>since sha. deferral j = Some (StatusChecks, since) \<and> dep_gitCommit dep = Some sha \<and>
    deferral j' = Some (StatusChecks, since) \<and> dep_gitCommit dep' = Some sha \<and>
    (\<forall>client. pinnedCommit client svc j' dep' = Inr sha) \<and>
    (n \<noteq> 0 \<longrightarrow> runAt + int (n - 1) * STATUS_CHECK_POLL_MS < since + STATUS_CHECK_TIMEOUT_MS)"
proof -
  obtain since sha where s: "deferral j = Some (StatusChecks, since)" "dep_gitCommit dep = Some sha" "sha \<noteq> []"
    using waits_pins[OF assms(1)] by metis
  then show ?thesis using waits_n[OF assms(2) s]
    by (intro exI[of _ since] exI[of _ sha]) (simp add: pinnedCommit_def truthy_def)
qed

theorem gate_wait_is_pinned_and_ends_witness:
  "\<exists>runAt j dep runAt' j' dep' since sha. (waits checkedService ^^ 1) (runAt, j, dep) (runAt', j', dep') \<and>
     deferral j' = Some (StatusChecks, since) \<and> dep_gitCommit dep = Some sha \<and> dep_gitCommit dep' = Some sha"
proof -
  let ?j0 = "sampleRow ''a'' None None False" and ?d0 = "\<lparr>dep_gitCommit = None, dep_gitRef = None, dep_log = []\<rparr>"
  obtain j1 d1 where one: "waits checkedService (0, ?j0, ?d0) (STATUS_CHECK_POLL_MS, j1, d1)" "deferral j1 = Some (StatusChecks, 0)"
    using offline_waits[of ?j0 0 0 ?d0] by (auto simp: sample_defs deferral_def)
  obtain j2 d2 where two: "waits checkedService (STATUS_CHECK_POLL_MS, j1, d1) (STATUS_CHECK_POLL_MS + STATUS_CHECK_POLL_MS, j2, d2)"
    using offline_waits[of j1 0 STATUS_CHECK_POLL_MS d1] one(2) by (auto simp: STATUS_CHECK_POLL_MS_def STATUS_CHECK_TIMEOUT_MS_def)
  then have "(waits checkedService ^^ 1) (STATUS_CHECK_POLL_MS, j1, d1) (STATUS_CHECK_POLL_MS + STATUS_CHECK_POLL_MS, j2, d2)"
    unfolding relpowp_1 .
  from gate_wait_is_pinned_and_ends[OF one(1) this] this show ?thesis by blast
qed

end
