(* ===== verification/Cron_Expression.thy ===== *)
theory Cron_Expression
  imports Prelude
begin

text \<open>
  \<open>src/lib/services/cron/cron-expression.ts\<close>, \<open>due-scheduler.ts\<close> and \<open>base-scheduler.ts\<close> beside it, and
  the schedule picker of \<open>src/lib/schedule.ts\<close>.

  A \<open>Date\<close> is its milliseconds since the epoch. Local time is UTC moved by \<open>off\<close> milliseconds: a zone
  whose offset does not change. The calendar functions are those of the language's \<open>Date\<close>, on day
  numbers since the epoch. A \<open>Set\<close> of numbers is a list in insertion order.
\<close>

section \<open>Calendar\<close>

definition dayFromYear :: "int \<Rightarrow> int" where
  "dayFromYear y = 365 * (y - 1970) + (y - 1969) div 4 - (y - 1901) div 100 + (y - 1601) div 400"

definition leapYear :: "int \<Rightarrow> bool" where
  "leapYear y \<longleftrightarrow> y mod 4 = 0 \<and> (y mod 100 \<noteq> 0 \<or> y mod 400 = 0)"

text \<open>The year of a day: the mean year length gives it up to one.\<close>

definition yearOf :: "int \<Rightarrow> int" where
  "yearOf d =
     (let e = 1970 + (d * 400) div 146097
      in if d < dayFromYear e then e - 1 else if dayFromYear (e + 1) \<le> d then e + 1 else e)"

text \<open>The days of a year before each month, months counted from 0.\<close>

definition monthStart :: "int \<Rightarrow> nat \<Rightarrow> int" where
  "monthStart y m =
     [0, 31, 59, 90, 120, 151, 181, 212, 243, 273, 304, 334] ! m + (if leapYear y \<and> m \<ge> 2 then 1 else 0)"

definition monthOf :: "int \<Rightarrow> nat" where
  "monthOf d =
     (let y = yearOf d
      in last (filter (\<lambda>m. m = 0 \<or> monthStart y m \<le> d - dayFromYear y) [0..<12]))"

definition dateOf :: "int \<Rightarrow> int" where
  "dateOf d = d - dayFromYear (yearOf d) - monthStart (yearOf d) (monthOf d) + 1"

definition weekdayOf :: "int \<Rightarrow> int" where
  "weekdayOf d = (d + 4) mod 7"

text \<open>The day \<open>new Date(y, m, d)\<close> names; a year from 0 to 99 counts from 1900.\<close>

definition makeDay :: "int \<Rightarrow> nat \<Rightarrow> int \<Rightarrow> int" where
  "makeDay y m d =
     (let y' = (if 0 \<le> y \<and> y \<le> 99 then y + 1900 else y)
      in dayFromYear y' + monthStart y' m + d - 1)"

definition localDay :: "int \<Rightarrow> timestamp \<Rightarrow> int" where
  "localDay off t = (t + off) div 86400000"

definition localHours :: "int \<Rightarrow> timestamp \<Rightarrow> int" where
  "localHours off t = (t + off) mod 86400000 div 3600000"

definition localMinutes :: "int \<Rightarrow> timestamp \<Rightarrow> int" where
  "localMinutes off t = (t + off) mod 3600000 div 60000"

text \<open>\<open>toISOString\<close>, for the years 0 to 9999.\<close>

definition padTo :: "nat \<Rightarrow> nat \<Rightarrow> string" where
  "padTo k n = replicate (k - length (show_nat n)) (CHR ''0'') @ show_nat n"

definition toISOString :: "timestamp \<Rightarrow> string" where
  "toISOString t =
     (let d = localDay 0 t
      in padTo 4 (nat (yearOf d)) @ ''-'' @ padTo 2 (Suc (monthOf d)) @ ''-'' @ padTo 2 (nat (dateOf d)) @ ''T'' @
         padTo 2 (nat (localHours 0 t)) @ '':'' @ padTo 2 (nat (localMinutes 0 t)) @ '':'' @
         padTo 2 (nat (t mod 60000 div 1000)) @ ''.'' @ padTo 3 (nat (t mod 1000)) @ ''Z'')"

section \<open>Parsing\<close>

datatype FieldName = Minute | Hour | Day | Month | Weekday

fun FIELD_RANGES :: "FieldName \<Rightarrow> nat \<times> nat" where
  "FIELD_RANGES Day = (1, 31)"
| "FIELD_RANGES Hour = (0, 23)"
| "FIELD_RANGES Minute = (0, 59)"
| "FIELD_RANGES Month = (1, 12)"
| "FIELD_RANGES Weekday = (0, 6)"

definition FIELD_ORDER :: "FieldName list" where
  "FIELD_ORDER = [Minute, Hour, Day, Month, Weekday]"

definition all_digits :: "string \<Rightarrow> bool" where
  "all_digits s \<longleftrightarrow> s \<noteq> [] \<and> list_all is_digit s"

text \<open>\<open>STEP_PART_RE\<close>: the part up to a slash, and the digits behind the slash when there is one.\<close>

definition stepPart :: "string \<Rightarrow> (string \<times> string option) option" where
  "stepPart part =
     (let base = takeWhile (\<lambda>c. c \<noteq> CHR ''/'') part; rest = drop (length base) part;
          start = takeWhile is_digit base; end = drop (length start) base
      in if \<not> (base = ''*'' \<or> start \<noteq> [] \<and> (end = [] \<or> hd end = CHR ''-'' \<and> all_digits (tl end))) then None
         else if rest = [] then Some (base, None)
         else if all_digits (tl rest) then Some (base, Some (tl rest)) else None)"

text \<open>\<open>RANGE_RE\<close>.\<close>

definition rangeMatch :: "string \<Rightarrow> (string \<times> string option) option" where
  "rangeMatch base =
     (let start = takeWhile is_digit base; end = drop (length start) base
      in if start = [] then None
         else if end = [] then Some (start, None)
         else if hd end = CHR ''-'' \<and> all_digits (tl end) then Some (start, Some (tl end)) else None)"

text \<open>The least number \<open>Number\<close> rounds to infinity.\<close>

definition numberIsFinite :: "nat \<Rightarrow> bool" where
  "numberIsFinite n \<longleftrightarrow> int n < 2 ^ 1024 - 2 ^ 970"

function rangeBy :: "nat \<Rightarrow> nat \<Rightarrow> nat \<Rightarrow> nat list" where
  "rangeBy v rangeEnd step = (if v > rangeEnd \<or> step = 0 then [] else v # rangeBy (v + step) rangeEnd step)"
  by auto
termination
  by (relation "measure (\<lambda>(v, rangeEnd, _). Suc rangeEnd - v)") auto

declare rangeBy.simps [simp del]

definition parsePart :: "string \<Rightarrow> nat \<Rightarrow> nat \<Rightarrow> nat list option" where
  "parsePart part lo hi =
     (case stepPart part of
        None \<Rightarrow> None
      | Some (base, stepStr) \<Rightarrow>
          (let step = (case stepStr of Some s \<Rightarrow> read_nat s | None \<Rightarrow> 1)
           in if \<not> (numberIsFinite step \<and> step > 0) then None
              else
                (case (if base = ''*'' then Some (lo, hi)
                       else (case rangeMatch base of
                               None \<Rightarrow> None
                             | Some (a, b) \<Rightarrow>
                                 Some (read_nat a, case b of Some e \<Rightarrow> read_nat e | None \<Rightarrow> read_nat a))) of
                   None \<Rightarrow> None
                 | Some (rangeStart, rangeEnd) \<Rightarrow>
                     if rangeStart < lo \<or> rangeEnd > hi \<or> rangeStart > rangeEnd then None
                     else Some (rangeBy rangeStart rangeEnd step))))"

definition setAdd :: "nat \<Rightarrow> nat list \<Rightarrow> nat list" where
  "setAdd v vs = (if v \<in> set vs then vs else vs @ [v])"

fun parseParts :: "string list \<Rightarrow> nat \<Rightarrow> nat \<Rightarrow> nat list \<Rightarrow> nat list option" where
  "parseParts [] lo hi vs = Some vs"
| "parseParts (part # parts) lo hi vs =
     (case parsePart part lo hi of
        None \<Rightarrow> None
      | Some parsed \<Rightarrow> parseParts parts lo hi (fold setAdd parsed vs))"

definition parseField :: "string \<Rightarrow> FieldName \<Rightarrow> nat list option" where
  "parseField raw field =
     (case FIELD_RANGES field of (lo, hi) \<Rightarrow>
        (case parseParts (split_on (CHR '','') raw) lo hi [] of
           None \<Rightarrow> None
         | Some vs \<Rightarrow> if length vs > 0 then Some vs else None))"

record ParsedCron =
  pc_day :: "nat list"
  pc_dayRestricted :: bool
  pc_hour :: "nat list"
  pc_minute :: "nat list"
  pc_month :: "nat list"
  pc_weekday :: "nat list"
  pc_weekdayRestricted :: bool

fun parseFields :: "FieldName list \<Rightarrow> string list \<Rightarrow> (FieldName \<rightharpoonup> nat list) option" where
  "parseFields [] parts = Some Map.empty"
| "parseFields (field # fs) parts =
     (case parseField (hd parts) field of
        None \<Rightarrow> None
      | Some parsed \<Rightarrow> map_option (\<lambda>m. m(field \<mapsto> parsed)) (parseFields fs (tl parts)))"

definition parseCronSchedule :: "string \<Rightarrow> ParsedCron option" where
  "parseCronSchedule schedule =
     (let parts = split_runs is_ws (trim schedule)
      in if length parts \<noteq> 5 then None
         else (case parseFields FIELD_ORDER parts of
                 None \<Rightarrow> None
               | Some m \<Rightarrow>
                   Some \<lparr>pc_day = the (m Day), pc_dayRestricted = (\<not> starts_with ''*'' (parts ! 2)),
                         pc_hour = the (m Hour), pc_minute = the (m Minute), pc_month = the (m Month),
                         pc_weekday = the (m Weekday), pc_weekdayRestricted = (\<not> starts_with ''*'' (parts ! 4))\<rparr>))"

section \<open>Matching\<close>

definition has :: "nat list \<Rightarrow> int \<Rightarrow> bool" where
  "has vs v \<longleftrightarrow> list_ex (\<lambda>x. int x = v) vs"

definition dateMatches :: "ParsedCron \<Rightarrow> int \<Rightarrow> bool" where
  "dateMatches parsed d =
     (let dayHit = has (pc_day parsed) (dateOf d); weekdayHit = has (pc_weekday parsed) (weekdayOf d);
          dateHit = (if pc_dayRestricted parsed \<and> pc_weekdayRestricted parsed then dayHit \<or> weekdayHit
                     else dayHit \<and> weekdayHit)
      in has (pc_month parsed) (int (monthOf d) + 1) \<and> dateHit)"

definition cronMatches :: "int \<Rightarrow> string \<Rightarrow> timestamp \<Rightarrow> bool" where
  "cronMatches off schedule date =
     (case parseCronSchedule schedule of
        None \<Rightarrow> False
      | Some parsed \<Rightarrow>
          has (pc_minute parsed) (localMinutes off date) \<and> has (pc_hour parsed) (localHours off date) \<and>
          dateMatches parsed (localDay off date))"

definition MAX_LOOKAHEAD_DAYS :: nat where
  "MAX_LOOKAHEAD_DAYS = 366 * 4"

definition minuteAfter :: "int \<Rightarrow> timestamp \<Rightarrow> timestamp" where
  "minuteAfter off from = from - (from + off) mod 60000 + 60000"

definition makeTime :: "int \<Rightarrow> int \<Rightarrow> nat \<Rightarrow> nat \<Rightarrow> timestamp" where
  "makeTime off d hour minute = d * 86400000 + int hour * 3600000 + int minute * 60000 - off"

definition candidates :: "int \<Rightarrow> nat list \<Rightarrow> nat list \<Rightarrow> int \<Rightarrow> timestamp list" where
  "candidates off hours minutes d = concat (map (\<lambda>hour. map (makeTime off d hour) minutes) hours)"

text \<open>The loop over days: \<open>day\<close> is the start's day moved by the offset, taken apart and put together again.\<close>

definition lookaheadDay :: "int \<Rightarrow> timestamp \<Rightarrow> nat \<Rightarrow> int" where
  "lookaheadDay off start offset =
     (let d = localDay off start in makeDay (yearOf d) (monthOf d) (dateOf d + int offset))"

definition candidateDay :: "int \<Rightarrow> int" where
  "candidateDay d = makeDay (yearOf d) (monthOf d) (dateOf d)"

fun nextLoop :: "int \<Rightarrow> ParsedCron \<Rightarrow> nat list \<Rightarrow> nat list \<Rightarrow> timestamp \<Rightarrow> nat list \<Rightarrow> timestamp option" where
  "nextLoop off parsed hours minutes start [] = None"
| "nextLoop off parsed hours minutes start (offset # offsets) =
     (let day = lookaheadDay off start offset
      in if \<not> dateMatches parsed day then nextLoop off parsed hours minutes start offsets
         else (case List.find (\<lambda>candidate. candidate \<ge> start) (candidates off hours minutes (candidateDay day)) of
                 Some candidate \<Rightarrow> Some candidate
               | None \<Rightarrow> nextLoop off parsed hours minutes start offsets))"

definition nextCronRun :: "int \<Rightarrow> string \<Rightarrow> timestamp \<Rightarrow> timestamp option" where
  "nextCronRun off schedule from =
     (case parseCronSchedule schedule of
        None \<Rightarrow> None
      | Some parsed \<Rightarrow>
          nextLoop off parsed (sort (pc_hour parsed)) (sort (pc_minute parsed)) (minuteAfter off from)
            [0..<MAX_LOOKAHEAD_DAYS])"

definition sameMinute :: "int \<Rightarrow> timestamp \<Rightarrow> timestamp \<Rightarrow> bool" where
  "sameMinute off a b \<longleftrightarrow>
     yearOf (localDay off a) = yearOf (localDay off b) \<and> monthOf (localDay off a) = monthOf (localDay off b) \<and>
     dateOf (localDay off a) = dateOf (localDay off b) \<and> localHours off a = localHours off b \<and>
     localMinutes off a = localMinutes off b"

section \<open>The due scheduler\<close>

text \<open>
  An entity is its schedule and when it last ran. \<open>marked\<close> tells whether writing the run of an entity
  succeeds; when it does not, the entity is neither updated nor fired. The runs of one tick touch one
  entity each.
\<close>

record dueEntity =
  due_id :: string
  due_schedule :: "string option"
  due_lastRunAt :: "timestamp option"

definition isDueNow :: "int \<Rightarrow> dueEntity \<Rightarrow> timestamp \<Rightarrow> bool" where
  "isDueNow off entity now =
     (case due_schedule entity of
        None \<Rightarrow> False
      | Some schedule \<Rightarrow>
          if \<not> (schedule \<noteq> [] \<and> cronMatches off schedule now) then False
          else (case due_lastRunAt entity of None \<Rightarrow> True | Some lastRun \<Rightarrow> \<not> sameMinute off lastRun now))"

definition dueTick :: "int \<Rightarrow> (dueEntity \<Rightarrow> bool) \<Rightarrow> timestamp \<Rightarrow> dueEntity list \<Rightarrow> dueEntity list \<times> dueEntity list" where
  "dueTick off marked now entities =
     (let due = filter (\<lambda>e. isDueNow off e now \<and> marked e) entities
      in (map (\<lambda>e. if isDueNow off e now \<and> marked e then e\<lparr>due_lastRunAt := Some now\<rparr> else e) entities, due))"

section \<open>The base scheduler\<close>

text \<open>
  The intervals of the process by label, and whether a scheduler's tick is in flight. \<open>startScheduler\<close>
  tells whether it runs a tick at once; \<open>runGuard\<close> is \<open>#run\<close> up to calling \<open>tick\<close>.
\<close>

definition startScheduler :: "string list \<Rightarrow> string \<Rightarrow> bool \<Rightarrow> bool \<times> string list" where
  "startScheduler registry label runOnStart =
     (if label \<in> set registry then (False, registry) else (runOnStart, registry @ [label]))"

definition runGuard :: "bool \<Rightarrow> bool \<times> bool" where
  "runGuard inFlight = (\<not> inFlight, True)"

section \<open>The schedule picker\<close>

datatype ScheduleMode = Hourly | Daily | Weekly | Monthly | Custom

record Schedule =
  sc_custom :: string
  sc_dayOfMonth :: nat
  sc_minute :: nat
  sc_mode :: ScheduleMode
  sc_time :: string
  sc_weekday :: nat

definition WEEKDAYS :: "string list" where
  "WEEKDAYS = [''Sunday'', ''Monday'', ''Tuesday'', ''Wednesday'', ''Thursday'', ''Friday'', ''Saturday'']"

definition pickerField :: "string \<Rightarrow> nat \<Rightarrow> nat \<Rightarrow> nat option" where
  "pickerField v lo hi =
     (if \<not> all_digits v then None
      else if read_nat v \<ge> lo \<and> read_nat v \<le> hi then Some (read_nat v) else None)"

definition pad :: "nat \<Rightarrow> string" where
  "pad n = (if length (show_nat n) < 2 then CHR ''0'' # show_nat n else show_nat n)"

definition nthOr :: "string list \<Rightarrow> nat \<Rightarrow> string" where
  "nthOr xs i = (if i < length xs then xs ! i else [])"

definition scheduleFromCron :: "string option \<Rightarrow> Schedule" where
  "scheduleFromCron cron =
     (let trimmed = (case cron of Some c \<Rightarrow> trim c | None \<Rightarrow> []);
          base = \<lparr>sc_custom = trimmed, sc_dayOfMonth = 1, sc_minute = 0, sc_mode = Daily, sc_time = ''03:00'', sc_weekday = 1\<rparr>
      in if trimmed = [] then base
         else
           (let parts = split_runs is_ws trimmed; h = nthOr parts 1; dom = nthOr parts 2; dow = nthOr parts 4
            in case pickerField (nthOr parts 0) 0 59 of
                 None \<Rightarrow> base\<lparr>sc_mode := Custom\<rparr>
               | Some minute \<Rightarrow>
                   if length parts \<noteq> 5 \<or> nthOr parts 3 \<noteq> ''*'' then base\<lparr>sc_mode := Custom\<rparr>
                   else if h = ''*'' \<and> dom = ''*'' \<and> dow = ''*'' then base\<lparr>sc_minute := minute, sc_mode := Hourly\<rparr>
                   else
                     (case pickerField h 0 23 of
                        None \<Rightarrow> base\<lparr>sc_mode := Custom\<rparr>
                      | Some hour \<Rightarrow>
                          (let time = pad hour @ '':'' @ pad minute
                           in if dom = ''*'' \<and> dow = ''*'' then base\<lparr>sc_mode := Daily, sc_time := time\<rparr>
                              else if dom = ''*'' \<and> pickerField dow 0 6 \<noteq> None then
                                base\<lparr>sc_mode := Weekly, sc_time := time, sc_weekday := the (pickerField dow 0 6)\<rparr>
                              else if dow = ''*'' \<and> pickerField dom 1 31 \<noteq> None then
                                base\<lparr>sc_dayOfMonth := the (pickerField dom 1 31), sc_mode := Monthly, sc_time := time\<rparr>
                              else base\<lparr>sc_mode := Custom\<rparr>))))"

text \<open>
  A part of the time as \<open>Number\<close> reads it and a template prints it; a picker's time has digits and a
  colon, so no other form of numeral occurs.
\<close>

definition numberText :: "string \<Rightarrow> string" where
  "numberText s =
     (if trim s = [] then ''0'' else if all_digits (trim s) then show_nat (read_nat (trim s)) else ''NaN'')"

definition scheduleToCron :: "Schedule \<Rightarrow> string" where
  "scheduleToCron schedule =
     (case sc_mode schedule of
        Custom \<Rightarrow> trim (sc_custom schedule)
      | Hourly \<Rightarrow> show_nat (sc_minute schedule) @ '' * * * *''
      | mode \<Rightarrow>
          (let parts = map numberText (split_on (CHR '':'') (sc_time schedule));
               hour = parts ! 0; minute = (if length parts > 1 then parts ! 1 else ''0'')
           in case mode of
                Daily \<Rightarrow> minute @ '' '' @ hour @ '' * * *''
              | Weekly \<Rightarrow> minute @ '' '' @ hour @ '' * * '' @ show_nat (sc_weekday schedule)
              | _ \<Rightarrow> minute @ '' '' @ hour @ '' '' @ show_nat (sc_dayOfMonth schedule) @ '' * *''))"

definition describeSchedule :: "Schedule \<Rightarrow> string" where
  "describeSchedule schedule =
     (case sc_mode schedule of
        Hourly \<Rightarrow> ''Every hour at :'' @ pad (sc_minute schedule)
      | Daily \<Rightarrow> ''Every day at '' @ sc_time schedule
      | Weekly \<Rightarrow> ''Every '' @
          (if sc_weekday schedule < length WEEKDAYS then WEEKDAYS ! sc_weekday schedule else ''undefined'') @
          '' at '' @ sc_time schedule
      | Monthly \<Rightarrow> ''On day '' @ show_nat (sc_dayOfMonth schedule) @ '' of every month at '' @ sc_time schedule
      | Custom \<Rightarrow> if trim (sc_custom schedule) \<noteq> [] then ''Cron: '' @ trim (sc_custom schedule) else ''No schedule'')"

end
