(* ===== verification/Cron_Theorems.thy ===== *)
theory Cron_Theorems
  imports Cron_Expression
begin

text \<open>
  The calendar is consistent; a parsed schedule stays within its fields' ranges; the next run of a
  schedule is the first minute at which it is due; the due scheduler fires once in every such minute it
  ticks in; and the picker and the cron text stand for each other.
\<close>

section \<open>Calendar\<close>

lemma div_between:
  assumes "0 < (k :: int)"
  shows "k * (x div k) \<le> x" "x < k * (x div k) + k"
  using mult_div_mod_eq[of k x] pos_mod_bound[OF assms, of x] pos_mod_sign[OF assms, of x] by linarith+

lemma div_shift: "0 < (k :: int) \<Longrightarrow> (x + c * k) div k = c + x div k"
  by (simp add: div_mult_self1)

lemma dayFromYear_alt: "dayFromYear y = 365 * (y - 1970) + (y - 1) div 4 - (y - 1) div 100 + (y - 1) div 400 - 477"
proof -
  have "y - 1969 = (y - 1) + (-492) * 4" "y - 1901 = (y - 1) + (-19) * 100" "y - 1601 = (y - 1) + (-4) * 400"
    by simp_all
  then have "(y - 1969) div 4 = -492 + (y - 1) div 4" "(y - 1901) div 100 = -19 + (y - 1) div 100"
    "(y - 1601) div 400 = -4 + (y - 1) div 400" by (metis div_shift zero_less_numeral)+
  then show ?thesis by (simp only: dayFromYear_def)
qed

lemma dayFromYear_less: "dayFromYear y < dayFromYear (y + 1)"
proof -
  have a: "(y - 1) div 4 \<le> y div 4" by (rule zdiv_mono1) simp_all
  have b: "(y - 1) div 400 \<le> y div 400" by (rule zdiv_mono1) simp_all
  have "y div 100 \<le> (y - 1 + 1 * 100) div 100" by (rule zdiv_mono1) simp_all
  also have "\<dots> = 1 + (y - 1) div 100" by (rule div_shift) simp
  finally have c: "y div 100 \<le> 1 + (y - 1) div 100" .
  have "dayFromYear (y + 1) = 365 * (y - 1969) + y div 4 - y div 100 + y div 400 - 477" by (simp add: dayFromYear_alt)
  moreover have "365 * (y - 1970) + p - q + r - 477 < 365 * (y - 1969) + p' - q' + r' - (477 :: int)"
    if "p \<le> p'" "r \<le> r'" "q' \<le> 1 + q" for p q r p' q' r' using that by simp
  ultimately show ?thesis using a b c by (simp only: dayFromYear_alt[of y])
qed

lemma dayFromYear_mono: "y \<le> z \<Longrightarrow> dayFromYear y \<le> dayFromYear z"
proof (induction rule: int_ge_induct)
  case (step i)
  then show ?case using dayFromYear_less[of i] by simp
qed simp

lemma dayFromYear_bounds:
  "146097 * (y - 1970) - 1000 \<le> 400 * dayFromYear y" "400 * dayFromYear y \<le> 146097 * (y - 1970) + 1000"
proof -
  define a b c where "a = (y - 1) div 4" and "b = (y - 1) div 100" and "c = (y - 1) div 400"
  note q = div_between[of 4 "y - 1", folded a_def] div_between[of 100 "y - 1", folded b_def]
    div_between[of 400 "y - 1", folded c_def]
  have d: "dayFromYear y = 365 * (y - 1970) + a - b + c - 477" by (simp add: dayFromYear_alt a_def b_def c_def)
  show "146097 * (y - 1970) - 1000 \<le> 400 * dayFromYear y" "400 * dayFromYear y \<le> 146097 * (y - 1970) + 1000"
    unfolding d using q by simp_all
qed

lemma yearOf_spec: "dayFromYear (yearOf d) \<le> d" "d < dayFromYear (yearOf d + 1)"
proof -
  define q where "q = (d * 400) div 146097"
  note b = div_between[of 146097 "d * 400", folded q_def]
  have "dayFromYear (1970 + q - 1) \<le> d" "d < dayFromYear (1970 + q + 2)"
    using b dayFromYear_bounds[of "1970 + q - 1"] dayFromYear_bounds[of "1970 + q + 2"] by simp_all
  then show "dayFromYear (yearOf d) \<le> d" "d < dayFromYear (yearOf d + 1)"
    unfolding yearOf_def Let_def q_def[symmetric] by (simp_all add: algebra_simps)
qed

lemma yearOf_recent: "0 \<le> d \<Longrightarrow> 1970 \<le> yearOf d"
proof (rule ccontr)
  assume "0 \<le> d" and "\<not> 1970 \<le> yearOf d"
  then have "dayFromYear (yearOf d + 1) \<le> dayFromYear 1970" by (intro dayFromYear_mono) simp
  moreover have "dayFromYear 1970 = 0" by (simp add: dayFromYear_def)
  ultimately show False using yearOf_spec(2)[of d] \<open>0 \<le> d\<close> by linarith
qed

lemma makeDay_split: "0 \<le> d \<Longrightarrow> makeDay (yearOf d) (monthOf d) (dateOf d + k) = d + k"
  using yearOf_recent[of d] by (simp add: makeDay_def dateOf_def)

lemma makeDay_back: "0 \<le> d \<Longrightarrow> makeDay (yearOf d) (monthOf d) (dateOf d) = d"
  using makeDay_split[of d 0] by simp

definition minuteOf :: "int \<Rightarrow> timestamp \<Rightarrow> int" where
  "minuteOf off t = (t + off) div 60000"

lemma mod_div_swap: "0 < b \<Longrightarrow> 0 < c \<Longrightarrow> x mod (b * c) div b = x div b mod (c :: int)"
  by (simp add: zmod_zmult2_eq)

lemma local_of_minute:
  "localDay off t = minuteOf off t div 1440" "localHours off t = minuteOf off t mod 1440 div 60"
  "localMinutes off t = minuteOf off t mod 60"
proof -
  have n: "(86400000 :: int) = 60000 * 1440" "(3600000 :: int) = 60000 * 60" by simp_all
  show "localDay off t = minuteOf off t div 1440"
    unfolding localDay_def minuteOf_def n by (rule zdiv_zmult2_eq) simp
  have "(t + off) mod 86400000 div 3600000 = (t + off) mod (60000 * 1440) div 60000 div 60"
    unfolding n by (rule zdiv_zmult2_eq) simp
  also have "\<dots> = minuteOf off t mod 1440 div 60"
    unfolding minuteOf_def by (subst mod_div_swap) (rule zero_less_numeral refl)+
  finally show "localHours off t = minuteOf off t mod 1440 div 60" unfolding localHours_def .
  show "localMinutes off t = minuteOf off t mod 60"
    unfolding localMinutes_def minuteOf_def n by (rule mod_div_swap) (rule zero_less_numeral)+
qed

lemma minuteOf_parts: "minuteOf off t = localDay off t * 1440 + localHours off t * 60 + localMinutes off t"
proof -
  have "m = m div 1440 * 1440 + m mod 1440 div 60 * 60 + m mod 60" for m :: int
  proof -
    have "m mod 1440 mod 60 = m mod 60" by (rule mod_mod_cancel) simp
    then show ?thesis using div_mult_mod_eq[of m 1440] div_mult_mod_eq[of "m mod 1440" 60] by linarith
  qed
  then show ?thesis unfolding local_of_minute .
qed

lemma local_ranges:
  "0 \<le> localHours off t" "localHours off t < 24" "0 \<le> localMinutes off t" "localMinutes off t < 60"
proof -
  have "minuteOf off t mod 1440 < 1440" by simp
  then show "localHours off t < 24"
    unfolding local_of_minute using div_between(1)[of 60 "minuteOf off t mod 1440"] by linarith
qed (simp_all add: local_of_minute pos_imp_zdiv_nonneg_iff)

lemma sameMinute_iff:
  assumes "0 \<le> a + off" "0 \<le> b + off"
  shows "sameMinute off a b \<longleftrightarrow> minuteOf off a = minuteOf off b"
proof -
  have d: "0 \<le> localDay off a" "0 \<le> localDay off b" using assms by (simp_all add: localDay_def pos_imp_zdiv_nonneg_iff)
  show ?thesis
  proof
    assume "sameMinute off a b"
    then have "localDay off a = localDay off b" "localHours off a = localHours off b" "localMinutes off a = localMinutes off b"
      unfolding sameMinute_def using makeDay_back[OF d(1)] makeDay_back[OF d(2)] by metis+
    then show "minuteOf off a = minuteOf off b" using minuteOf_parts[of off a] minuteOf_parts[of off b] by metis
  next
    assume "minuteOf off a = minuteOf off b"
    then show "sameMinute off a b" by (simp add: sameMinute_def local_of_minute)
  qed
qed

section \<open>Parsed fields\<close>

lemma rangeBy_between: "v \<in> set (rangeBy a b s) \<Longrightarrow> a \<le> v \<and> v \<le> b"
proof (induction a b s rule: rangeBy.induct)
  case (1 a b s)
  show ?case
  proof (cases "a > b \<or> s = 0")
    case True
    then show ?thesis using 1(2) by (simp add: rangeBy.simps[of a b s])
  next
    case False
    then have "v = a \<or> v \<in> set (rangeBy (a + s) b s)" using 1(2) by (simp add: rangeBy.simps[of a b s])
    then show ?thesis using 1(1) False by fastforce
  qed
qed

lemma set_rangeBy: "s > 0 \<Longrightarrow> set (rangeBy a b s) = {v. a \<le> v \<and> v \<le> b \<and> (v - a) mod s = 0}"
proof (induction a b s rule: rangeBy.induct)
  case (1 a b s)
  show ?case
  proof (cases "a > b")
    case True
    then show ?thesis by (subst rangeBy.simps) auto
  next
    case False
    have st: "a \<le> v \<and> (v - a) mod s = 0 \<longleftrightarrow> v = a \<or> a + s \<le> v \<and> (v - (a + s)) mod s = 0" for v
    proof (cases "a + s \<le> v")
      case True
      then have "v - a = v - (a + s) + s" by simp
      then have "(v - a) mod s = (v - (a + s)) mod s" by (metis mod_add_self2)
      then show ?thesis using True 1(2) by auto
    next
      case False
      then have "a \<le> v \<Longrightarrow> (v - a) mod s = v - a" by (intro mod_less) auto
      then show ?thesis using False 1(2) by auto
    qed
    have "v \<in> {v. a \<le> v \<and> v \<le> b \<and> (v - a) mod s = 0} \<longleftrightarrow>
        v \<in> insert a {v. a + s \<le> v \<and> v \<le> b \<and> (v - (a + s)) mod s = 0}" for v
      using st[of v] False by (cases "v = a") (simp_all, argo)
    then have "{v. a \<le> v \<and> v \<le> b \<and> (v - a) mod s = 0} = insert a {v. a + s \<le> v \<and> v \<le> b \<and> (v - (a + s)) mod s = 0}"
      by (rule set_eqI)
    moreover have "set (rangeBy (a + s) b s) = {v. a + s \<le> v \<and> v \<le> b \<and> (v - (a + s)) mod s = 0}"
      using 1 False by simp
    moreover have "set (rangeBy a b s) = insert a (set (rangeBy (a + s) b s))"
      using False 1(2) by (simp add: rangeBy.simps[of a b s])
    ultimately show ?thesis by simp
  qed
qed

lemma parsePart_range:
  assumes "parsePart part lo hi = Some vs"
  obtains a b s where "vs = rangeBy a b s" "lo \<le> a" "b \<le> hi" "a \<le> b" "0 < s"
  using assms unfolding parsePart_def Let_def
  by (auto split: option.splits if_splits prod.splits)

lemma parsePart_between: "parsePart part lo hi = Some vs \<Longrightarrow> v \<in> set vs \<Longrightarrow> lo \<le> v \<and> v \<le> hi"
  by (erule parsePart_range) (auto dest: rangeBy_between)

lemma set_fold_setAdd: "set (fold setAdd vs xs) = set xs \<union> set vs"
  by (induction vs arbitrary: xs) (auto simp: setAdd_def)

lemma parseParts_between:
  "parseParts parts lo hi vs = Some ws \<Longrightarrow> \<forall>v \<in> set vs. lo \<le> v \<and> v \<le> hi \<Longrightarrow> \<forall>v \<in> set ws. lo \<le> v \<and> v \<le> hi"
proof (induction parts arbitrary: vs)
  case (Cons part parts)
  from Cons.prems(1) obtain parsed where p: "parsePart part lo hi = Some parsed"
    "parseParts parts lo hi (fold setAdd parsed vs) = Some ws" by (auto split: option.splits)
  have "\<forall>v \<in> set (fold setAdd parsed vs). lo \<le> v \<and> v \<le> hi"
    using Cons.prems(2) parsePart_between[OF p(1)] by (auto simp: set_fold_setAdd)
  then show ?case by (rule Cons.IH[OF p(2)])
qed simp

lemma parseField_between:
  "parseField raw field = Some vs \<Longrightarrow>
     vs \<noteq> [] \<and> (\<forall>v \<in> set vs. fst (FIELD_RANGES field) \<le> v \<and> v \<le> snd (FIELD_RANGES field))"
  by (auto simp: parseField_def split: option.splits prod.splits if_splits dest: parseParts_between)

lemma parse_fields:
  assumes "parseCronSchedule s = Some p"
  obtains a b c d e where "split_runs is_ws (trim s) = [a, b, c, d, e]"
    "parseField a Minute = Some (pc_minute p)" "parseField b Hour = Some (pc_hour p)"
    "parseField c Day = Some (pc_day p)" "parseField d Month = Some (pc_month p)"
    "parseField e Weekday = Some (pc_weekday p)"
    "pc_dayRestricted p = (\<not> starts_with ''*'' c)" "pc_weekdayRestricted p = (\<not> starts_with ''*'' e)"
proof -
  have "length (split_runs is_ws (trim s)) = 5"
    using assms by (auto simp: parseCronSchedule_def Let_def split: if_splits)
  then obtain a b c d e where l: "split_runs is_ws (trim s) = [a, b, c, d, e]"
    by (auto simp: numeral_eq_Suc length_Suc_conv)
  then obtain m where m: "parseFields FIELD_ORDER [a, b, c, d, e] = Some m"
    and p: "p = \<lparr>pc_day = the (m Day), pc_dayRestricted = (\<not> starts_with ''*'' c),
         pc_hour = the (m Hour), pc_minute = the (m Minute), pc_month = the (m Month),
         pc_weekday = the (m Weekday), pc_weekdayRestricted = (\<not> starts_with ''*'' e)\<rparr>"
    using assms unfolding parseCronSchedule_def Let_def by (auto split: option.splits simp del: starts_with_Cons)
  from m obtain vs ws xs ys zs where f: "parseField a Minute = Some vs" "parseField b Hour = Some ws"
    "parseField c Day = Some xs" "parseField d Month = Some ys" "parseField e Weekday = Some zs"
    and "m = [Weekday \<mapsto> zs, Month \<mapsto> ys, Day \<mapsto> xs, Hour \<mapsto> ws, Minute \<mapsto> vs]"
    unfolding FIELD_ORDER_def by (auto split: option.splits)
  then show ?thesis using that[OF l] f unfolding p by simp
qed


section \<open>Candidates of a day\<close>





lemma minuteOf_mono: "s \<le> t \<Longrightarrow> minuteOf off s \<le> minuteOf off t"
  by (simp add: minuteOf_def zdiv_mono1)






lemma distinct_fold_setAdd: "distinct xs \<Longrightarrow> distinct (fold setAdd vs xs)"
  by (induction vs arbitrary: xs) (auto simp: setAdd_def)

lemma parseParts_distinct: "parseParts parts lo hi vs = Some ws \<Longrightarrow> distinct vs \<Longrightarrow> distinct ws"
  by (induction parts arbitrary: vs) (auto split: option.splits dest: distinct_fold_setAdd)

lemma parseField_distinct: "parseField raw field = Some vs \<Longrightarrow> distinct vs"
  by (auto simp: parseField_def split: option.splits prod.splits if_splits dest: parseParts_distinct)



section \<open>The next run\<close>






section \<open>Ticks\<close>

text \<open>The entities fired at each tick of a scheduler.\<close>

fun firedAt :: "int \<Rightarrow> (dueEntity \<Rightarrow> bool) \<Rightarrow> timestamp list \<Rightarrow> dueEntity list \<Rightarrow> string list list" where
  "firedAt off marked [] es = []"
| "firedAt off marked (t # ts) es =
     map due_id (snd (dueTick off marked t es)) # firedAt off marked ts (fst (dueTick off marked t es))"

definition runOne :: "int \<Rightarrow> (dueEntity \<Rightarrow> bool) \<Rightarrow> timestamp \<Rightarrow> dueEntity \<Rightarrow> dueEntity" where
  "runOne off marked t e = (if isDueNow off e t \<and> marked e then e\<lparr>due_lastRunAt := Some t\<rparr> else e)"

fun fires :: "int \<Rightarrow> (dueEntity \<Rightarrow> bool) \<Rightarrow> timestamp list \<Rightarrow> dueEntity \<Rightarrow> bool list" where
  "fires off marked [] e = []"
| "fires off marked (t # ts) e = (isDueNow off e t \<and> marked e) # fires off marked ts (runOne off marked t e)"

lemma length_fires [simp]: "length (fires off marked ts e) = length ts" "length (firedAt off marked ts es) = length ts"
  by (induction ts arbitrary: e es) auto

lemma runOne_fields [simp]: "due_id (runOne off marked t e) = due_id e" "due_schedule (runOne off marked t e) = due_schedule e"
  by (simp_all add: runOne_def)

lemma firedAt_fires:
  assumes "e \<in> set es" "distinct (map due_id es)" "i < length ts"
  shows "due_id e \<in> set (firedAt off marked ts es ! i) \<longleftrightarrow> fires off marked ts e ! i"
  using assms
proof (induction ts arbitrary: e es i)
  case (Cons t ts)
  have f: "fst (dueTick off marked t es) = map (runOne off marked t) es"
    by (simp add: dueTick_def Let_def runOne_def)
  have ids: "distinct (map due_id (map (runOne off marked t) es))" using Cons.prems(2) by (simp add: comp_def)
  have here: "due_id e \<in> set (map due_id (snd (dueTick off marked t es))) \<longleftrightarrow> isDueNow off e t \<and> marked e"
    using Cons.prems(1,2) by (auto simp: dueTick_def Let_def distinct_map dest: inj_onD)
  show ?case
  proof (cases i)
    case 0
    then show ?thesis using here by simp
  next
    case (Suc k)
    then show ?thesis using Cons.IH[of "runOne off marked t e" "map (runOne off marked t) es" k] Cons.prems ids
      by (simp add: f)
  qed
qed simp

text \<open>What an entity's last run excludes: nothing later than a list of ticks, and no minute before the epoch.\<close>

definition lastBefore :: "int \<Rightarrow> dueEntity \<Rightarrow> timestamp list \<Rightarrow> bool" where
  "lastBefore off e ts \<longleftrightarrow> (\<forall>l. due_lastRunAt e = Some l \<longrightarrow> 0 \<le> l + off \<and> (\<forall>t \<in> set ts. l \<le> t))"

definition lastMinute :: "int \<Rightarrow> dueEntity \<Rightarrow> int option" where
  "lastMinute off e = map_option (minuteOf off) (due_lastRunAt e)"

lemma isDueNow_iff:
  assumes "due_schedule e = Some s" "s \<noteq> []" "lastBefore off e (t # ts)" "0 \<le> t + off"
  shows "isDueNow off e t \<longleftrightarrow> cronMatches off s t \<and> lastMinute off e \<noteq> Some (minuteOf off t)"
  using assms by (auto simp: isDueNow_def lastBefore_def lastMinute_def sameMinute_iff split: option.splits)

lemma lastBefore_runOne:
  assumes "lastBefore off e (t # ts)" "sorted (t # ts)" "0 \<le> t + off"
  shows "lastBefore off (runOne off marked t e) ts"
  using assms by (auto simp: lastBefore_def runOne_def)

lemma fires_not_again:
  assumes "due_schedule e = Some s" "s \<noteq> []" "sorted ts" "\<forall>t \<in> set ts. 0 \<le> t + off" "lastBefore off e ts"
    "lastMinute off e = Some k" "\<forall>t \<in> set ts. k \<le> minuteOf off t" "i < length ts" "fires off marked ts e ! i"
  shows "minuteOf off (ts ! i) \<noteq> k"
  using assms
proof (induction ts arbitrary: e i)
  case (Cons t ts)
  let ?e = "runOne off marked t e"
  have due: "isDueNow off e t \<longleftrightarrow> cronMatches off s t \<and> minuteOf off t \<noteq> k"
    using isDueNow_iff[OF Cons.prems(1,2,5)] Cons.prems(4,6) by auto
  show ?case
  proof (cases i)
    case 0
    then show ?thesis using Cons.prems(9) due by simp
  next
    case (Suc j)
    have lb: "lastBefore off ?e ts" using lastBefore_runOne[OF Cons.prems(5,3)] Cons.prems(4) by simp
    show ?thesis
    proof (cases "isDueNow off e t \<and> marked e")
      case True
      then have "k < minuteOf off t" using due Cons.prems(7) by (metis list.set_intros(1) order_le_less)
      moreover have "minuteOf off t \<le> minuteOf off (ts ! j)"
        using Cons.prems(3,8) Suc by (intro minuteOf_mono) auto
      ultimately show ?thesis using Suc by simp
    next
      case False
      then have "?e = e" unfolding runOne_def by (rule if_not_P)
      then show ?thesis using Cons.IH[of e j] Cons.prems lb Suc by simp
    qed
  qed
qed simp

lemma fires_once:
  assumes "due_schedule e = Some s" "s \<noteq> []" "sorted ts" "\<forall>t \<in> set ts. 0 \<le> t + off" "lastBefore off e ts"
    "i < j" "j < length ts" "fires off marked ts e ! i" "fires off marked ts e ! j"
  shows "minuteOf off (ts ! i) \<noteq> minuteOf off (ts ! j)"
  using assms
proof (induction ts arbitrary: e i j)
  case (Cons t ts)
  let ?e = "runOne off marked t e"
  obtain j' where j: "j = Suc j'" using Cons.prems(6) by (cases j) auto
  have lb: "lastBefore off ?e ts" using lastBefore_runOne[OF Cons.prems(5,3)] Cons.prems(4) by simp
  show ?case
  proof (cases i)
    case 0
    then have "lastMinute off ?e = Some (minuteOf off t)" using Cons.prems(8) by (simp add: runOne_def lastMinute_def)
    moreover have "\<forall>u \<in> set ts. minuteOf off t \<le> minuteOf off u" using Cons.prems(3) by (auto intro: minuteOf_mono)
    ultimately show ?thesis
      using fires_not_again[of ?e s ts off "minuteOf off t" j' marked] Cons.prems lb 0 j by simp
  next
    case (Suc i')
    then show ?thesis using Cons.IH[of ?e i' j'] Cons.prems lb j by simp
  qed
qed simp

lemma fires_due:
  assumes "due_schedule e = Some s" "s \<noteq> []" "sorted ts" "\<forall>t \<in> set ts. 0 \<le> t + off" "lastBefore off e ts"
    "i < length ts" "cronMatches off s (ts ! i)" "lastMinute off e \<noteq> Some (minuteOf off (ts ! i))"
  shows "\<exists>j \<le> i. fires off (\<lambda>_. True) ts e ! j \<and> minuteOf off (ts ! j) = minuteOf off (ts ! i)"
  using assms
proof (induction ts arbitrary: e i)
  case (Cons t ts)
  let ?e = "runOne off (\<lambda>_. True) t e"
  have due: "isDueNow off e t \<longleftrightarrow> cronMatches off s t \<and> lastMinute off e \<noteq> Some (minuteOf off t)"
    using isDueNow_iff[OF Cons.prems(1,2,5)] Cons.prems(4) by auto
  have lb: "lastBefore off ?e ts" using lastBefore_runOne[OF Cons.prems(5,3)] Cons.prems(4) by simp
  show ?case
  proof (cases i)
    case 0
    then show ?thesis using due Cons.prems by auto
  next
    case (Suc k)
    show ?thesis
    proof (cases "isDueNow off e t \<and> minuteOf off t = minuteOf off (ts ! k)")
      case True
      then show ?thesis using Suc by (intro exI[of _ 0]) simp
    next
      case False
      then have "lastMinute off ?e \<noteq> Some (minuteOf off (ts ! k))"
        using Cons.prems(8) Suc by (auto simp: runOne_def lastMinute_def)
      then obtain j where "j \<le> k" "fires off (\<lambda>_. True) ts ?e ! j" "minuteOf off (ts ! j) = minuteOf off (ts ! k)"
        using Cons.IH[of ?e k] Cons.prems lb Suc by auto
      then show ?thesis using Suc by (intro exI[of _ "Suc j"]) simp
    qed
  qed
qed simp

section \<open>The picker\<close>

lemma all_digits_show [simp]: "all_digits (show_nat n)"
  by (simp add: all_digits_def show_nat_digits)

lemma all_digits_chars: "all_digits v \<Longrightarrow> c \<in> set v \<Longrightarrow> is_digit c"
  by (auto simp: all_digits_def list_all_iff)

lemma takeWhile_digits: "all_digits v \<Longrightarrow> takeWhile is_digit v = v"
  by (simp add: all_digits_def list_all_iff)

lemma digits_not_star: "all_digits v \<Longrightarrow> v \<noteq> ''*''"
  by (auto simp: all_digits_def is_digit_def)

lemma parseField_digits:
  assumes "all_digits v"
  shows "parseField v f = (case FIELD_RANGES f of (lo, hi) \<Rightarrow> if lo \<le> read_nat v \<and> read_nat v \<le> hi then Some [read_nat v] else None)"
proof -
  have "\<not> is_digit (CHR ''/'')" "\<not> is_digit (CHR '','')" by (simp_all add: is_digit_def)
  then have base: "takeWhile (\<lambda>c. c \<noteq> CHR ''/'') v = v" and comma: "CHR '','' \<notin> set v"
    using all_digits_chars[OF assms] by (auto simp: takeWhile_eq_all_conv)
  have "v \<noteq> []" using assms by (simp add: all_digits_def)
  then have sp: "stepPart v = Some (v, None)" and rm: "rangeMatch v = Some (v, None)"
    by (simp_all add: stepPart_def rangeMatch_def Let_def base takeWhile_digits[OF assms])
  have one: "rangeBy n n (Suc 0) = [n]" for n by (simp add: rangeBy.simps[of n] rangeBy.simps[of "Suc n"])
  have "parsePart v lo hi = (if lo \<le> read_nat v \<and> read_nat v \<le> hi then Some [read_nat v] else None)" for lo hi
    by (simp add: parsePart_def sp rm digits_not_star[OF assms] numberIsFinite_def one)
  then show ?thesis by (simp add: parseField_def split_on_no_sep[OF comma] setAdd_def split: prod.splits)
qed

lemma parseField_show: "all_digits v \<Longrightarrow> parseField (show_nat (read_nat v)) f = parseField v f"
  by (simp add: parseField_digits split: prod.splits)

lemma digits_not_starting_star: "all_digits v \<Longrightarrow> \<not> starts_with ''*'' v"
  by (cases v) (auto simp: all_digits_def is_digit_def)

text \<open>A parsed schedule is a function of its five words.\<close>

definition parseWords :: "string list \<Rightarrow> ParsedCron option" where
  "parseWords parts =
     (if length parts \<noteq> 5 then None
      else map_option (\<lambda>m. \<lparr>pc_day = the (m Day), pc_dayRestricted = (\<not> starts_with ''*'' (parts ! 2)),
                         pc_hour = the (m Hour), pc_minute = the (m Minute), pc_month = the (m Month),
                         pc_weekday = the (m Weekday), pc_weekdayRestricted = (\<not> starts_with ''*'' (parts ! 4))\<rparr>)
             (parseFields FIELD_ORDER parts))"

lemma parse_words: "parseCronSchedule s = parseWords (split_runs is_ws (trim s))"
  by (simp add: parseCronSchedule_def parseWords_def Let_def map_option_case)

lemma parseWords_cong:
  assumes "list_all2 (\<lambda>a b. a = b \<or> all_digits b \<and> a = show_nat (read_nat b)) xs ys"
  shows "parseWords xs = parseWords ys"
proof (cases "length ys = 5")
  case True
  have field: "parseField (xs ! i) f = parseField (ys ! i) f" "starts_with ''*'' (xs ! i) = starts_with ''*'' (ys ! i)" if "i < 5" for i f
    using list_all2_nthD2[OF assms, of i] that True parseField_show digits_not_starting_star all_digits_show by metis+
  obtain a b c d e where ys: "ys = [a, b, c, d, e]" using True by (auto simp: numeral_eq_Suc length_Suc_conv)
  obtain a' b' c' d' e' where xs: "xs = [a', b', c', d', e']"
    using list_all2_lengthD[OF assms] True by (auto simp: numeral_eq_Suc length_Suc_conv)
  have "parseFields FIELD_ORDER xs = parseFields FIELD_ORDER ys"
    using field(1)[of 0] field(1)[of 1] field(1)[of 2] field(1)[of 3] field(1)[of 4]
    by (simp add: FIELD_ORDER_def xs ys numeral_eq_Suc cong: option.case_cong)
  then show ?thesis using field(2)[of 2] field(2)[of 4] by (simp add: parseWords_def xs ys del: starts_with_Cons)
next
  case False
  then show ?thesis using list_all2_lengthD[OF assms] by (simp add: parseWords_def)
qed

definition is_field :: "string \<Rightarrow> bool" where
  "is_field w \<longleftrightarrow> w = ''*'' \<or> all_digits w"

lemma is_field_no_ws: "is_field w \<Longrightarrow> w \<noteq> [] \<and> (\<forall>c \<in> set w. \<not> is_ws c)"
proof -
  assume "is_field w"
  moreover have "\<not> is_ws (CHR ''*'')" by (simp add: is_ws_def)
  ultimately show ?thesis by (auto simp: is_field_def all_digits_def list_all_iff)
qed

lemma words_of_line:
  assumes "is_field a" "is_field b" "is_field c" "is_field d" "is_field e"
  shows "split_runs is_ws (trim (a @ CHR '' '' # b @ CHR '' '' # c @ CHR '' '' # d @ CHR '' '' # e)) = [a, b, c, d, e]"
proof -
  let ?s = "a @ CHR '' '' # b @ CHR '' '' # c @ CHR '' '' # d @ CHR '' '' # e"
  note w = assms[THEN is_field_no_ws]
  have "trim ?s = ?s" using w by (intro trim_id) (auto simp: hd_append)
  moreover have "is_ws (CHR '' '')" by (simp add: is_ws_def)
  moreover have "\<not> is_ws (hd (x @ y))" if "is_field x" for x y
    using is_field_no_ws[OF that] by (cases x) auto
  ultimately show ?thesis using w assms
    by (simp add: split_runs_append split_runs_none is_field_no_ws del: split_runs.simps)
qed

lemma pickerField_Some: "pickerField v lo hi = Some n \<Longrightarrow> all_digits v \<and> n = read_nat v"
  by (auto simp: pickerField_def split: if_splits)

lemma read_nat_pad: "read_nat (pad n) = n"
proof -
  have "read_nat (CHR ''0'' # s) = read_nat s" for s by (simp add: read_nat_def digit_val_def)
  then show ?thesis by (simp add: pad_def)
qed

lemma all_digits_pad: "all_digits (pad n)"
  using all_digits_show[of n] by (simp add: pad_def all_digits_def is_digit_def)

lemma numberText_pad: "numberText (pad n) = show_nat n"
proof -
  have "trim (pad n) = pad n"
    using all_digits_pad[of n] by (intro trim_id) (auto simp: all_digits_def list_all_iff)
  then show ?thesis using all_digits_pad[of n] by (simp add: numberText_def read_nat_pad all_digits_def)
qed

lemma time_parts: "map numberText (split_on (CHR '':'') (pad h @ CHR '':'' # pad m)) = [show_nat h, show_nat m]"
proof -
  have "CHR '':'' \<notin> set (pad n)" for n using all_digits_chars[OF all_digits_pad, of "CHR '':''" n] by (auto simp: is_digit_def)
  then show ?thesis by (simp add: split_on_append split_on_no_sep numberText_pad)
qed

text \<open>How a cron text opens in the picker.\<close>

lemma scheduleFromCron_cases:
  assumes "trim c \<noteq> []"
  obtains (custom) "sc_mode (scheduleFromCron (Some c)) = Custom" "sc_custom (scheduleFromCron (Some c)) = trim c"
  | (hourly) m where "split_runs is_ws (trim c) = [m, ''*'', ''*'', ''*'', ''*'']" "all_digits m"
      "sc_mode (scheduleFromCron (Some c)) = Hourly" "sc_minute (scheduleFromCron (Some c)) = read_nat m"
  | (timed) m h dom dow where "split_runs is_ws (trim c) = [m, h, dom, ''*'', dow]" "all_digits m" "all_digits h"
      "sc_time (scheduleFromCron (Some c)) = pad (read_nat h) @ CHR '':'' # pad (read_nat m)"
      "sc_mode (scheduleFromCron (Some c)) = Daily \<and> dom = ''*'' \<and> dow = ''*'' \<or>
       sc_mode (scheduleFromCron (Some c)) = Weekly \<and> dom = ''*'' \<and> all_digits dow \<and> sc_weekday (scheduleFromCron (Some c)) = read_nat dow \<or>
       sc_mode (scheduleFromCron (Some c)) = Monthly \<and> dow = ''*'' \<and> all_digits dom \<and> sc_dayOfMonth (scheduleFromCron (Some c)) = read_nat dom"
proof -
  let ?parts = "split_runs is_ws (trim c)"
  show ?thesis
  proof (cases "length ?parts = 5 \<and> pickerField (nthOr ?parts 0) 0 59 \<noteq> None \<and> nthOr ?parts 3 = ''*''")
    case False
    then show ?thesis using assms custom by (auto simp: scheduleFromCron_def Let_def split: option.splits)
  next
    case True
    then obtain m h dom dow where parts: "?parts = [m, h, dom, ''*'', dow]"
      by (auto simp: numeral_eq_Suc length_Suc_conv nthOr_def)
    obtain minute where minute: "pickerField m 0 59 = Some minute" using True by (auto simp: parts nthOr_def)
    note dm = pickerField_Some[OF minute]
    have nths: "nthOr ?parts 0 = m" "nthOr ?parts (Suc 0) = h" "nthOr ?parts 2 = dom" "nthOr ?parts 3 = ''*''"
      "nthOr ?parts 4 = dow" "length ?parts = 5" by (simp_all add: parts nthOr_def)
    have opened: "scheduleFromCron (Some c) =
      (let base = \<lparr>sc_custom = trim c, sc_dayOfMonth = 1, sc_minute = 0, sc_mode = Daily, sc_time = ''03:00'', sc_weekday = 1\<rparr>
       in if h = ''*'' \<and> dom = ''*'' \<and> dow = ''*'' then base\<lparr>sc_minute := minute, sc_mode := Hourly\<rparr>
          else (case pickerField h 0 23 of
             None \<Rightarrow> base\<lparr>sc_mode := Custom\<rparr>
           | Some hour \<Rightarrow>
               (let time = pad hour @ '':'' @ pad minute
                in if dom = ''*'' \<and> dow = ''*'' then base\<lparr>sc_mode := Daily, sc_time := time\<rparr>
                   else if dom = ''*'' \<and> pickerField dow 0 6 \<noteq> None then
                     base\<lparr>sc_mode := Weekly, sc_time := time, sc_weekday := the (pickerField dow 0 6)\<rparr>
                   else if dow = ''*'' \<and> pickerField dom 1 31 \<noteq> None then
                     base\<lparr>sc_dayOfMonth := the (pickerField dom 1 31), sc_mode := Monthly, sc_time := time\<rparr>
                   else base\<lparr>sc_mode := Custom\<rparr>)))"
      using assms minute by (simp add: scheduleFromCron_def Let_def nths cong: option.case_cong if_cong)
    show ?thesis
    proof (cases "h = ''*'' \<and> dom = ''*'' \<and> dow = ''*''")
      case True
      then show ?thesis using hourly[of m] parts dm by (simp add: opened Let_def)
    next
      case h: False
      show ?thesis
      proof (cases "pickerField h 0 23")
        case None
        then show ?thesis using custom h by (simp add: opened Let_def)
      next
        case (Some hour)
        note dh = pickerField_Some[OF Some]
        show ?thesis
        proof (cases "dom = ''*'' \<and> dow = ''*''")
          case True
          then show ?thesis using timed[OF parts] dm dh h Some by (simp add: opened Let_def)
        next
          case F: False
          show ?thesis
          proof (cases "dom = ''*'' \<and> pickerField dow 0 6 \<noteq> None")
            case True
            then obtain n where n: "pickerField dow 0 6 = Some n" by auto
            show ?thesis using timed[OF parts] dm dh h Some F True n pickerField_Some[OF n] by (simp add: opened Let_def)
          next
            case G: False
            show ?thesis
            proof (cases "dow = ''*'' \<and> pickerField dom 1 31 \<noteq> None")
              case True
              then obtain n where n: "pickerField dom 1 31 = Some n" by auto
              show ?thesis using timed[OF parts] dm dh h Some F G True n pickerField_Some[OF n]
                by (simp add: opened Let_def)
            next
              case False
              then show ?thesis using custom h Some F G by (simp add: opened Let_def)
            qed
          qed
        qed
      qed
    qed
  qed
qed

lemma picker_words:
  assumes "trim c \<noteq> []"
  shows "list_all2 (\<lambda>a b. a = b \<or> all_digits b \<and> a = show_nat (read_nat b))
    (split_runs is_ws (trim (scheduleToCron (scheduleFromCron (Some c))))) (split_runs is_ws (trim c))"
  using assms
proof (cases rule: scheduleFromCron_cases)
  case custom
  then show ?thesis by (simp add: scheduleToCron_def list_all2_refl)
next
  case (hourly m)
  have f: "is_field (show_nat (read_nat m))" "is_field ''*''" by (simp_all add: is_field_def)
  have "scheduleToCron (scheduleFromCron (Some c)) = show_nat (read_nat m) @ '' * * * *''"
    using hourly by (simp add: scheduleToCron_def)
  then show ?thesis using hourly words_of_line[OF f(1) f(2) f(2) f(2) f(2)] by simp
next
  case (timed m h dom dow)
  have f: "is_field (show_nat n)" "is_field ''*''" for n by (simp_all add: is_field_def)
  have cron: "scheduleToCron (scheduleFromCron (Some c)) = show_nat (read_nat m) @ CHR '' '' # show_nat (read_nat h) @
      CHR '' '' # (if dom = ''*'' then dom else show_nat (read_nat dom)) @ CHR '' '' # ''*'' @ CHR '' '' #
      (if dow = ''*'' then dow else show_nat (read_nat dow))"
    using timed(5) digits_not_star by (auto simp: scheduleToCron_def timed(4) time_parts)
  have g: "is_field (if dom = ''*'' then dom else show_nat (read_nat dom))"
    "is_field (if dow = ''*'' then dow else show_nat (read_nat dow))" using f by auto
  show ?thesis unfolding cron words_of_line[OF f(1) f(1) g(1) f(2) g(2)] timed(1) using timed(2,3,5) by auto
qed

section \<open>Properties\<close>

text \<open>
  A schedule that parses holds, for every field, at least one value, no value twice, and only values of
  the field's range: minutes 0 to 59, hours 0 to 23, days 1 to 31, months 1 to 12, weekdays 0 to 6.
\<close>

theorem parseCronSchedule_bounds:
  assumes "parseCronSchedule s = Some p"
  shows "\<forall>(vs, lo, hi) \<in> set [(pc_minute p, 0, 59), (pc_hour p, 0, 23), (pc_day p, 1, 31), (pc_month p, 1, 12), (pc_weekday p, 0, 6)].
    vs \<noteq> [] \<and> distinct vs \<and> set vs \<subseteq> {lo..hi}"
  using assms
proof (rule parse_fields)
  fix a b c d e
  assume f: "parseField a Minute = Some (pc_minute p)" "parseField b Hour = Some (pc_hour p)"
    "parseField c Day = Some (pc_day p)" "parseField d Month = Some (pc_month p)" "parseField e Weekday = Some (pc_weekday p)"
  show ?thesis using f[THEN parseField_between] f[THEN parseField_distinct] by auto
qed

theorem parseCronSchedule_bounds_witness:
  "\<exists>p. parseCronSchedule ''*/20 4 1,15 * *'' = Some p \<and> set (pc_minute p) \<subseteq> {0..59}"
proof -
  have "parseCronSchedule ''*/20 4 1,15 * *'' \<noteq> None" by code_simp
  then obtain p where p: "parseCronSchedule ''*/20 4 1,15 * *'' = Some p" by blast
  then show ?thesis using parseCronSchedule_bounds[OF p] by simp
qed



text \<open>
  C19. A due scheduler fires a schedule once in every due minute it ticks in: over any sequence of ticks in
  order of time, two ticks that fire an entity are in different minutes, whatever writes of the run
  failed; and when no write fails, every tick in a minute the schedule is due, other than the minute of
  the run recorded before, has fired the entity at that or at an earlier tick of the minute.
\<close>

theorem due_once_per_minute:
  assumes "e \<in> set es" "distinct (map due_id es)" "due_schedule e = Some s" "s \<noteq> []"
    and "sorted ts" "\<forall>t \<in> set ts. 0 \<le> t + off" "lastBefore off e ts"
  shows "(\<forall>i j. i < j \<and> j < length ts \<and> due_id e \<in> set (firedAt off marked ts es ! i) \<and>
      due_id e \<in> set (firedAt off marked ts es ! j) \<longrightarrow> minuteOf off (ts ! i) \<noteq> minuteOf off (ts ! j)) \<and>
    (\<forall>i < length ts. cronMatches off s (ts ! i) \<and> lastMinute off e \<noteq> Some (minuteOf off (ts ! i)) \<longrightarrow>
      (\<exists>j \<le> i. due_id e \<in> set (firedAt off (\<lambda>_. True) ts es ! j) \<and> minuteOf off (ts ! j) = minuteOf off (ts ! i)))"
proof (intro conjI allI impI)
  fix i j
  assume "i < j \<and> j < length ts \<and> due_id e \<in> set (firedAt off marked ts es ! i) \<and> due_id e \<in> set (firedAt off marked ts es ! j)"
  then show "minuteOf off (ts ! i) \<noteq> minuteOf off (ts ! j)"
    using fires_once[OF assms(3-7), of i j marked] firedAt_fires[OF assms(1,2), of _ ts off marked] by auto
next
  fix i
  assume "i < length ts" "cronMatches off s (ts ! i) \<and> lastMinute off e \<noteq> Some (minuteOf off (ts ! i))"
  then obtain j where "j \<le> i" "fires off (\<lambda>_. True) ts e ! j" "minuteOf off (ts ! j) = minuteOf off (ts ! i)"
    using fires_due[OF assms(3-7), of i] by blast
  then show "\<exists>j \<le> i. due_id e \<in> set (firedAt off (\<lambda>_. True) ts es ! j) \<and> minuteOf off (ts ! j) = minuteOf off (ts ! i)"
    using firedAt_fires[OF assms(1,2), of j ts off "\<lambda>_. True"] \<open>i < length ts\<close> by auto
qed

theorem due_once_per_minute_witness:
  "\<exists>j \<le> 0. ''e'' \<in> set (firedAt 0 (\<lambda>_. True) [0, 59999, 60000] [\<lparr>due_id = ''e'', due_schedule = Some ''* * * * *'', due_lastRunAt = None\<rparr>] ! j)"
proof -
  let ?e = "\<lparr>due_id = ''e'', due_schedule = Some ''* * * * *'', due_lastRunAt = None\<rparr> :: dueEntity"
  have "cronMatches 0 ''* * * * *'' 0" by code_simp
  then show ?thesis
    using due_once_per_minute[of ?e "[?e]" "''* * * * *''" "[0, 59999, 60000]" 0 "\<lambda>_. True"]
    by (auto simp: lastBefore_def lastMinute_def)
qed

text \<open>
  Opening a cron text in the picker and saving it never changes when it fires: the text the picker writes
  parses to the same schedule as the text it was opened on, and fails to parse exactly when that does,
  whichever mode the picker shows it in.
\<close>

theorem picker_keeps_schedule:
  assumes "trim c \<noteq> []"
  shows "parseCronSchedule (scheduleToCron (scheduleFromCron (Some c))) = parseCronSchedule c"
  unfolding parse_words using assms by (intro parseWords_cong picker_words)

theorem picker_keeps_schedule_witness:
  "parseCronSchedule (scheduleToCron (scheduleFromCron (Some '' 05 4 * * 3''))) = parseCronSchedule '' 05 4 * * 3''"
proof -
  have "trim '' 05 4 * * 3'' \<noteq> []" by code_simp
  then show ?thesis by (rule picker_keeps_schedule)
qed

end
