(* ===== verification/Regex.thy ===== *)
theory Regex
  imports Prelude
begin

text \<open>
  Regular expressions as the text the code hands to \<open>RegExp\<close> or to Traefik: the part of their common syntax the sources
  write. \<open>parseRx\<close> reads the text, \<open>rxTest\<close> says whether an expression matches somewhere in a string, \<open>rxMatches\<close> lists
  its matches with the texts of the capturing groups, \<open>replaceRx\<close> is \<open>String.replace\<close> with the \<open>g\<close> flag. A match state is
  the text before the position, reversed, and the text after it; matching lists the states a match can end in, in the
  order in which a backtracking matcher tries them: the first is the match both engines take.
\<close>

section \<open>Expressions\<close>

datatype rx =
    Lit char | Any | Digit | OneOf "char list" | Bol | Eol
  | NotBehind "char list" | NotAhead "char list"
  | Many rx | Many1 rx | Opt rx | Group "rx list list" | Capture "rx list list"

type_synonym spot = "string \<times> string"

definition same_char :: "bool \<Rightarrow> char \<Rightarrow> char \<Rightarrow> bool" where
  "same_char ci c d \<longleftrightarrow> (if ci then upper_char c = upper_char d else c = d)"

definition is_eol :: "char \<Rightarrow> bool" where
  "is_eol c \<longleftrightarrow> c = CHR 10 \<or> c = CHR 13"

text \<open>What a one-character expression accepts.\<close>

fun accepts :: "bool \<Rightarrow> rx \<Rightarrow> char \<Rightarrow> bool" where
  "accepts ci (Lit c) d = same_char ci c d"
| "accepts ci Any d = (\<not> is_eol d)"
| "accepts ci Digit d = is_digit d"
| "accepts ci (OneOf cs) d = list_ex (\<lambda>c. same_char ci c d) cs"
| "accepts ci _ d = False"

fun single :: "rx \<Rightarrow> bool" where
  "single (Lit _) = True"
| "single Any = True"
| "single Digit = True"
| "single (OneOf _) = True"
| "single _ = False"

fun one :: "bool \<Rightarrow> rx \<Rightarrow> spot \<Rightarrow> spot list" where
  "one ci r (b, []) = []"
| "one ci r (b, c # a) = (if accepts ci r c then [(c # b, a)] else [])"

text \<open>
  Greedy repetition: another round first, then none. A round that takes nothing is not tried, so there are at most as many
  rounds as characters are left.
\<close>

fun greedyRounds :: "('a \<Rightarrow> nat) \<Rightarrow> ('a \<Rightarrow> 'a list) \<Rightarrow> nat \<Rightarrow> 'a \<Rightarrow> 'a list" where
  "greedyRounds left f 0 x = [x]"
| "greedyRounds left f (Suc k) x = concat (map (greedyRounds left f k) (filter (\<lambda>y. left y < left x) (f x))) @ [x]"

definition repeats :: "('a \<Rightarrow> nat) \<Rightarrow> ('a \<Rightarrow> 'a list) \<Rightarrow> 'a \<Rightarrow> 'a list" where
  "repeats left f x = greedyRounds left f (left x) x"

definition spotLeft :: "spot \<Rightarrow> nat" where
  "spotLeft s = length (snd s)"

fun mAtom :: "bool \<Rightarrow> rx \<Rightarrow> spot \<Rightarrow> spot list"
  and mSeq :: "bool \<Rightarrow> rx list \<Rightarrow> spot \<Rightarrow> spot list"
  and mAlts :: "bool \<Rightarrow> rx list list \<Rightarrow> spot \<Rightarrow> spot list" where
  "mAtom ci Bol s = (if fst s = [] then [s] else [])"
| "mAtom ci Eol s = (if snd s = [] then [s] else [])"
| "mAtom ci (NotBehind cs) s = (if fst s \<noteq> [] \<and> accepts ci (OneOf cs) (hd (fst s)) then [] else [s])"
| "mAtom ci (NotAhead cs) s = (if snd s \<noteq> [] \<and> accepts ci (OneOf cs) (hd (snd s)) then [] else [s])"
| "mAtom ci (Many r) s = repeats spotLeft (mAtom ci r) s"
| "mAtom ci (Many1 r) s = concat (map (repeats spotLeft (mAtom ci r)) (mAtom ci r s))"
| "mAtom ci (Opt r) s = mAtom ci r s @ [s]"
| "mAtom ci (Group alts) s = mAlts ci alts s"
| "mAtom ci (Capture alts) s = mAlts ci alts s"
| "mAtom ci r s = one ci r s"
| "mSeq ci [] s = [s]"
| "mSeq ci (r # rs) s = concat (map (mSeq ci rs) (mAtom ci r s))"
| "mAlts ci [] s = []"
| "mAlts ci (rs # alts) s = mSeq ci rs s @ mAlts ci alts s"

definition rxTest :: "bool \<Rightarrow> rx list list \<Rightarrow> string \<Rightarrow> bool" where
  "rxTest ci alts s \<longleftrightarrow> list_ex (\<lambda>k. mAlts ci alts (rev (take k s), drop k s) \<noteq> []) [0..<Suc (length s)]"

section \<open>Capturing groups\<close>

text \<open>Groups are numbered by their opening parentheses; a spot carries what each group took.\<close>

fun rxCaps :: "rx \<Rightarrow> nat" and seqCaps :: "rx list \<Rightarrow> nat" and altsCaps :: "rx list list \<Rightarrow> nat" where
  "rxCaps (Many r) = rxCaps r"
| "rxCaps (Many1 r) = rxCaps r"
| "rxCaps (Opt r) = rxCaps r"
| "rxCaps (Group alts) = altsCaps alts"
| "rxCaps (Capture alts) = Suc (altsCaps alts)"
| "rxCaps _ = 0"
| "seqCaps [] = 0"
| "seqCaps (r # rs) = rxCaps r + seqCaps rs"
| "altsCaps [] = 0"
| "altsCaps (rs # alts) = seqCaps rs + altsCaps alts"

type_synonym captures = "nat \<Rightarrow> string option"
type_synonym cspot = "spot \<times> captures"

definition cspotLeft :: "cspot \<Rightarrow> nat" where
  "cspotLeft x = spotLeft (fst x)"

definition takenText :: "spot \<Rightarrow> spot \<Rightarrow> string" where
  "takenText s t = take (length (snd s) - length (snd t)) (snd s)"

text \<open>Each round of a repetition starts with its groups unsetGroups.\<close>

definition unsetGroups :: "nat \<Rightarrow> rx \<Rightarrow> cspot \<Rightarrow> cspot" where
  "unsetGroups n r x = (fst x, \<lambda>i. if n \<le> i \<and> i < n + rxCaps r then None else snd x i)"

fun cAtom :: "bool \<Rightarrow> nat \<Rightarrow> rx \<Rightarrow> cspot \<Rightarrow> cspot list"
  and cSeq :: "bool \<Rightarrow> nat \<Rightarrow> rx list \<Rightarrow> cspot \<Rightarrow> cspot list"
  and cAlts :: "bool \<Rightarrow> nat \<Rightarrow> rx list list \<Rightarrow> cspot \<Rightarrow> cspot list" where
  "cAtom ci n (Many r) x = repeats cspotLeft (\<lambda>y. cAtom ci n r (unsetGroups n r y)) x"
| "cAtom ci n (Many1 r) x =
     concat (map (repeats cspotLeft (\<lambda>y. cAtom ci n r (unsetGroups n r y))) (cAtom ci n r (unsetGroups n r x)))"
| "cAtom ci n (Opt r) x = cAtom ci n r x @ [x]"
| "cAtom ci n (Group alts) x = cAlts ci n alts x"
| "cAtom ci n (Capture alts) x = map (\<lambda>y. (fst y, (snd y)(n \<mapsto> takenText (fst x) (fst y)))) (cAlts ci (Suc n) alts x)"
| "cAtom ci n r x = map (\<lambda>t. (t, snd x)) (mAtom ci r (fst x))"
| "cSeq ci n [] x = [x]"
| "cSeq ci n (r # rs) x = concat (map (cSeq ci (n + rxCaps r) rs) (cAtom ci n r x))"
| "cAlts ci n [] x = []"
| "cAlts ci n (rs # alts) x = cSeq ci n rs x @ cAlts ci (n + seqCaps rs) alts x"

text \<open>The matches that start at a spot, and all matches of a text: where one starts, where it ends and its groups.\<close>

definition matchesAt :: "bool \<Rightarrow> rx list list \<Rightarrow> spot \<Rightarrow> cspot list" where
  "matchesAt ci alts s = cAlts ci 1 alts (s, Map.empty)"

definition rxMatches :: "bool \<Rightarrow> rx list list \<Rightarrow> string \<Rightarrow> (spot \<times> cspot) list" where
  "rxMatches ci alts s =
     concat (map (\<lambda>k. map (Pair (rev (take k s), drop k s)) (matchesAt ci alts (rev (take k s), drop k s))) [0..<Suc (length s)])"

definition groupText :: "captures \<Rightarrow> nat \<Rightarrow> string" where
  "groupText g i = (case g i of Some t \<Rightarrow> t | None \<Rightarrow> [])"

section \<open>Syntax\<close>

definition is_syntax :: "char \<Rightarrow> bool" where
  "is_syntax c \<longleftrightarrow> c \<in> set [CHR 0x5C, CHR ''^'', CHR ''$'', CHR ''.'', CHR ''|'', CHR ''?'', CHR ''*'', CHR ''+'',
     CHR ''('', CHR '')'', CHR ''['', CHR '']'', CHR ''{'', CHR ''}'']"

text \<open>The group being read: its finished alternatives, the sequence being read, and whether it captures.\<close>

type_synonym rx_frame = "rx list list \<times> rx list \<times> bool"

definition addRx :: "rx \<Rightarrow> rx_frame \<Rightarrow> rx_frame" where
  "addRx r f = (fst f, fst (snd f) @ [r], snd (snd f))"

fun quantifiable :: "rx \<Rightarrow> bool" where
  "quantifiable (Group _) = True"
| "quantifiable (Capture _) = True"
| "quantifiable r = single r"

text \<open>A quantifier applies to what stands before it: a character, a class or a group.\<close>

definition quantify :: "char \<Rightarrow> rx_frame \<Rightarrow> rx_frame option" where
  "quantify q f =
     (let cur = fst (snd f)
      in if cur = [] \<or> \<not> quantifiable (last cur) then None
         else Some (fst f, butlast cur @ [if q = CHR ''?'' then Opt (last cur) else if q = CHR ''*'' then Many (last cur)
                                          else Many1 (last cur)], snd (snd f)))"

text \<open>The members of a class, with its ranges; negated and escaped ones are not read.\<close>

fun classChars :: "string \<Rightarrow> char list option" where
  "classChars [] = Some []"
| "classChars (c # cs) =
     (if c \<in> set [CHR 0x5C, CHR ''^'', CHR ''[''] then None
      else (case cs of
              d # e # r \<Rightarrow>
                if d = CHR ''-'' then
                  (if e \<in> set [CHR 0x5C, CHR ''^'', CHR ''[''] \<or> of_char e < (of_char c :: nat) then None
                   else map_option (append (map char_of [(of_char c :: nat)..<Suc (of_char e)])) (classChars r))
                else map_option (Cons c) (classChars cs)
            | _ \<Rightarrow> map_option (Cons c) (classChars cs)))"

text \<open>
  The reader: the frames hold, for every open group from the innermost out, what was read of it. A look-around is read
  when it is a negative one of a class. Text outside the syntax read here gives nothing.
\<close>

function parseRx :: "string \<Rightarrow> rx_frame list \<Rightarrow> rx list list option" where
  "parseRx s [] = None"
| "parseRx [] (f # fs) = (if fs = [] then Some (fst f @ [fst (snd f)]) else None)"
| "parseRx (c # cs) (f # fs) =
     (if c = CHR 0x5C then
           (case cs of
              [] \<Rightarrow> None
            | d # ds \<Rightarrow>
                if d = CHR ''d'' then parseRx ds (addRx Digit f # fs)
                else if is_syntax d then parseRx ds (addRx (Lit d) f # fs) else None)
         else if c = CHR ''.'' then parseRx cs (addRx Any f # fs)
         else if c = CHR ''^'' then parseRx cs (addRx Bol f # fs)
         else if c = CHR ''$'' then parseRx cs (addRx Eol f # fs)
         else if c = CHR ''|'' then parseRx cs ((fst f @ [fst (snd f)], [], snd (snd f)) # fs)
         else if c = CHR ''('' then
           (if starts_with ''?:'' cs then parseRx (drop 2 cs) (([], [], False) # f # fs)
            else if starts_with ''?<!['' cs \<or> starts_with ''?!['' cs then
              (let behind = starts_with ''?<!['' cs;
                   body = drop (if behind then 4 else 3) cs;
                   members = takeWhile (\<lambda>d. d \<noteq> CHR '']'') body
               in case classChars members of
                    None \<Rightarrow> None
                  | Some chars \<Rightarrow>
                      if starts_with ''])'' (drop (length members) body)
                      then parseRx (drop (length members + 2) body) (addRx (if behind then NotBehind chars else NotAhead chars) f # fs)
                      else None)
            else parseRx cs (([], [], True) # f # fs))
         else if c = CHR '')'' then
           (case fs of
              [] \<Rightarrow> None
            | g # gs \<Rightarrow>
                parseRx cs (addRx (if snd (snd f) then Capture (fst f @ [fst (snd f)]) else Group (fst f @ [fst (snd f)])) g # gs))
         else if c = CHR ''['' then
           (let members = takeWhile (\<lambda>d. d \<noteq> CHR '']'') cs; rest = drop (length members) cs
            in if rest = [] then None
               else (case classChars members of None \<Rightarrow> None | Some chars \<Rightarrow> parseRx (tl rest) (addRx (OneOf chars) f # fs)))
         else if c = CHR ''*'' \<or> c = CHR ''+'' \<or> c = CHR ''?'' then
           (case quantify c f of None \<Rightarrow> None | Some g \<Rightarrow> parseRx cs (g # fs))
         else if is_syntax c then None
         else parseRx cs (addRx (Lit c) f # fs))"
  by pat_completeness auto
termination
  by (relation "measure (\<lambda>(s, _). length s)") auto

definition readRx :: "string \<Rightarrow> rx list list option" where
  "readRx s = parseRx s [([], [], False)]"

text \<open>\<open>new RegExp(text, flags).test(s)\<close>; text that does not parse throws.\<close>

definition regExpTest :: "string \<Rightarrow> bool \<Rightarrow> string \<Rightarrow> bool option" where
  "regExpTest source ci s = map_option (\<lambda>alts. rxTest ci alts s) (readRx source)"

text \<open>Go's syntax: a leading \<open>(?i)\<close> ignores case in all that follows.\<close>

definition goRegexTest :: "string \<Rightarrow> string \<Rightarrow> bool option" where
  "goRegexTest source s =
     (if starts_with ''(?i)'' source then regExpTest (drop 4 source) True s else regExpTest source False s)"

definition goRegexMatches :: "string \<Rightarrow> string \<Rightarrow> (spot \<times> cspot) list option" where
  "goRegexMatches source s =
     (if starts_with ''(?i)'' source then map_option (\<lambda>alts. rxMatches True alts s) (readRx (drop 4 source))
      else map_option (\<lambda>alts. rxMatches False alts s) (readRx source))"

section \<open>Replacing\<close>

text \<open>
  What a replacement text of \<open>String.replace\<close> stands for: \<open>m\<close> groups, their texts \<open>g\<close>, the match, and the text before
  and after it.
\<close>

fun jsExpand :: "nat \<Rightarrow> captures \<Rightarrow> string \<Rightarrow> string \<Rightarrow> string \<Rightarrow> string \<Rightarrow> string" where
  "jsExpand m g matched before after [] = []"
| "jsExpand m g matched before after (c # cs) =
     (if c \<noteq> CHR ''$'' then c # jsExpand m g matched before after cs
      else (case cs of
              [] \<Rightarrow> [c]
            | d # ds \<Rightarrow>
                if d = CHR ''$'' then d # jsExpand m g matched before after ds
                else if d = CHR ''&'' then matched @ jsExpand m g matched before after ds
                else if d = CHR 0x60 then before @ jsExpand m g matched before after ds
                else if d = CHR 39 then after @ jsExpand m g matched before after ds
                else if is_digit d then
                  (let i = digit_val d;
                       j = (case ds of e # _ \<Rightarrow> if is_digit e then 10 * i + digit_val e else 0 | [] \<Rightarrow> 0)
                   in if 1 \<le> j \<and> j \<le> m then groupText g j @ jsExpand m g matched before after (tl ds)
                      else if 1 \<le> i \<and> i \<le> m then groupText g i @ jsExpand m g matched before after ds
                      else c # jsExpand m g matched before after cs)
                else c # jsExpand m g matched before after cs))"

text \<open>\<open>value.replace(pattern, replacement)\<close> with the \<open>g\<close> flag, from a spot on.\<close>

function replaceRx :: "bool \<Rightarrow> rx list list \<Rightarrow> string \<Rightarrow> spot \<Rightarrow> string" where
  "replaceRx ci alts repl s =
     (let skip = (case snd s of [] \<Rightarrow> [] | c # cs \<Rightarrow> c # replaceRx ci alts repl (c # fst s, cs))
      in case matchesAt ci alts s of
           [] \<Rightarrow> skip
         | (t, g) # _ \<Rightarrow>
             jsExpand (altsCaps alts) g (takenText s t) (rev (fst s)) (snd t) repl @
             (if spotLeft t < spotLeft s then replaceRx ci alts repl t else skip))"
  by pat_completeness auto
termination
  by (relation "measure (\<lambda>(ci, alts, repl, s). spotLeft s)") (auto simp: spotLeft_def)

declare replaceRx.simps [simp del]

section \<open>Facts\<close>

lemma mAtom_single [simp]: "single r \<Longrightarrow> mAtom ci r s = one ci r s"
  by (cases r) auto

lemma set_mAlts: "set (mAlts ci alts s) = (\<Union>rs \<in> set alts. set (mSeq ci rs s))"
  by (induction alts) auto

lemma in_mSeq_Cons: "t \<in> set (mSeq ci (r # rs) s) \<longleftrightarrow> (\<exists>u \<in> set (mAtom ci r s). t \<in> set (mSeq ci rs u))"
  by auto

lemma in_mSeq_append: "t \<in> set (mSeq ci (rs @ qs) s) \<longleftrightarrow> (\<exists>u \<in> set (mSeq ci rs s). t \<in> set (mSeq ci qs u))"
  by (induction rs arbitrary: s) auto

lemma in_one: "t \<in> set (one ci r (b, a)) \<longleftrightarrow> (\<exists>c. accepts ci r c \<and> a = c # snd t \<and> fst t = c # b)"
  by (cases a) (auto simp: prod_eq_iff)

text \<open>A repeated one-character expression.\<close>

lemma in_many:
  assumes "single r"
  shows "t \<in> set (repeats spotLeft (mAtom ci r) (b, a)) \<longleftrightarrow> (\<exists>w. list_all (accepts ci r) w \<and> a = w @ snd t \<and> fst t = rev w @ b)"
proof (induction a arbitrary: b)
  case Nil
  show ?case by (auto simp: repeats_def spotLeft_def prod_eq_iff)
next
  case (Cons c a)
  have "t \<in> set (repeats spotLeft (mAtom ci r) (b, c # a)) \<longleftrightarrow>
      t = (b, c # a) \<or> accepts ci r c \<and> t \<in> set (repeats spotLeft (mAtom ci r) (c # b, a))"
    using assms by (auto simp: repeats_def spotLeft_def)
  also have "\<dots> \<longleftrightarrow> (\<exists>w. list_all (accepts ci r) w \<and> c # a = w @ snd t \<and> fst t = rev w @ b)"
    unfolding Cons.IH
  proof
    assume "t = (b, c # a) \<or> accepts ci r c \<and> (\<exists>w. list_all (accepts ci r) w \<and> a = w @ snd t \<and> fst t = rev w @ c # b)"
    then show "\<exists>w. list_all (accepts ci r) w \<and> c # a = w @ snd t \<and> fst t = rev w @ b"
    proof (elim disjE conjE exE)
      fix w assume "accepts ci r c" "list_all (accepts ci r) w" "a = w @ snd t" "fst t = rev w @ c # b"
      then show ?thesis by (intro exI[of _ "c # w"]) simp
    qed (intro exI[of _ "[]"], simp)
  next
    assume "\<exists>w. list_all (accepts ci r) w \<and> c # a = w @ snd t \<and> fst t = rev w @ b"
    then obtain w where w: "list_all (accepts ci r) w" "c # a = w @ snd t" "fst t = rev w @ b" by blast
    then show "t = (b, c # a) \<or> accepts ci r c \<and> (\<exists>w. list_all (accepts ci r) w \<and> a = w @ snd t \<and> fst t = rev w @ c # b)"
      by (cases w; cases t) auto
  qed
  finally show ?case .
qed

lemma in_many1:
  assumes "single r"
  shows "t \<in> set (mAtom ci (Many1 r) (b, a)) \<longleftrightarrow>
    (\<exists>w. w \<noteq> [] \<and> list_all (accepts ci r) w \<and> a = w @ snd t \<and> fst t = rev w @ b)"
proof (cases a)
  case Nil
  then show ?thesis using assms by auto
next
  case (Cons c a')
  have "t \<in> set (mAtom ci (Many1 r) (b, a)) \<longleftrightarrow> accepts ci r c \<and> t \<in> set (repeats spotLeft (mAtom ci r) (c # b, a'))"
    using assms Cons by simp
  also have "\<dots> \<longleftrightarrow> (\<exists>w. w \<noteq> [] \<and> list_all (accepts ci r) w \<and> a = w @ snd t \<and> fst t = rev w @ b)"
    unfolding in_many[OF assms] Cons
  proof
    assume "accepts ci r c \<and> (\<exists>w. list_all (accepts ci r) w \<and> a' = w @ snd t \<and> fst t = rev w @ c # b)"
    then obtain w where "accepts ci r c" "list_all (accepts ci r) w" "a' = w @ snd t" "fst t = rev w @ c # b" by blast
    then show "\<exists>w. w \<noteq> [] \<and> list_all (accepts ci r) w \<and> c # a' = w @ snd t \<and> fst t = rev w @ b"
      by (intro exI[of _ "c # w"]) simp
  next
    assume "\<exists>w. w \<noteq> [] \<and> list_all (accepts ci r) w \<and> c # a' = w @ snd t \<and> fst t = rev w @ b"
    then obtain w where w: "w \<noteq> []" "list_all (accepts ci r) w" "c # a' = w @ snd t" "fst t = rev w @ b" by blast
    then show "accepts ci r c \<and> (\<exists>w. list_all (accepts ci r) w \<and> a' = w @ snd t \<and> fst t = rev w @ c # b)"
      by (cases w) auto
  qed
  finally show ?thesis .
qed

lemma rxTest_iff: "rxTest ci alts s \<longleftrightarrow> (\<exists>b a. s = rev b @ a \<and> mAlts ci alts (b, a) \<noteq> [])"
proof
  assume "rxTest ci alts s"
  then obtain k where "mAlts ci alts (rev (take k s), drop k s) \<noteq> []"
    by (auto simp: rxTest_def list_ex_iff simp del: upt_Suc)
  then show "\<exists>b a. s = rev b @ a \<and> mAlts ci alts (b, a) \<noteq> []"
    by (intro exI[of _ "rev (take k s)"] exI[of _ "drop k s"]) simp
next
  assume "\<exists>b a. s = rev b @ a \<and> mAlts ci alts (b, a) \<noteq> []"
  then obtain b a where "s = rev b @ a" "mAlts ci alts (b, a) \<noteq> []" by blast
  then show "rxTest ci alts s" by (auto simp: rxTest_def list_ex_iff intro!: bexI[of _ "length b"])
qed

text \<open>Groups do not change what matches: without its groups a capturing match is a match, in the same order.\<close>

lemma greedyRounds_fst:
  assumes "\<And>y. map fst (f y) = h (fst y)"
  shows "map fst (greedyRounds cspotLeft f k x) = greedyRounds spotLeft h k (fst x)"
proof (induction k arbitrary: x)
  case (Suc k)
  have "map fst (filter (\<lambda>y. cspotLeft y < cspotLeft x) (f x)) = filter (\<lambda>t. spotLeft t < spotLeft (fst x)) (h (fst x))"
    unfolding assms[symmetric] filter_map by (simp add: cspotLeft_def comp_def)
  then have "map (greedyRounds spotLeft h k) (map fst (filter (\<lambda>y. cspotLeft y < cspotLeft x) (f x))) =
      map (greedyRounds spotLeft h k) (filter (\<lambda>t. spotLeft t < spotLeft (fst x)) (h (fst x)))"
    by simp
  then show ?case using Suc by (simp add: map_concat comp_def)
qed simp

lemma repeats_fst:
  assumes "\<And>y. map fst (f y) = h (fst y)"
  shows "map fst (repeats cspotLeft f x) = repeats spotLeft h (fst x)"
  using greedyRounds_fst[of f h, OF assms] by (simp add: repeats_def cspotLeft_def)

lemma fst_unsetGroups [simp]: "fst (unsetGroups n r x) = fst x"
  by (simp add: unsetGroups_def)

lemma map_fst_each:
  "(\<And>y. y \<in> set ys \<Longrightarrow> map fst (f y) = h (fst y)) \<Longrightarrow> map fst (concat (map f ys)) = concat (map h (map fst ys))"
  by (induction ys) auto

lemma captures_erase:
  "map fst (cAtom ci n r x) = mAtom ci r (fst x)"
  "map fst (cSeq ci n rs x) = mSeq ci rs (fst x)"
  "map fst (cAlts ci n alts x) = mAlts ci alts (fst x)"
proof (induction ci n r x and ci n rs x and ci n alts x rule: cAtom_cSeq_cAlts.induct)
  case (2 ci n r x)
  have one: "map fst (cAtom ci n r (unsetGroups n r x)) = mAtom ci r (fst x)" using 2(1) by simp
  have "map fst (concat (map (repeats cspotLeft (\<lambda>y. cAtom ci n r (unsetGroups n r y))) (cAtom ci n r (unsetGroups n r x)))) =
      concat (map (repeats spotLeft (mAtom ci r)) (map fst (cAtom ci n r (unsetGroups n r x))))"
  proof (rule map_fst_each)
    fix y assume "y \<in> set (cAtom ci n r (unsetGroups n r x))"
    then have "map fst (cAtom ci n r (unsetGroups n r z)) = mAtom ci r (fst z)" for z using 2(2) by simp
    then show "map fst (repeats cspotLeft (\<lambda>y. cAtom ci n r (unsetGroups n r y)) y) = repeats spotLeft (mAtom ci r) (fst y)"
      by (rule repeats_fst)
  qed
  then show ?case using one by simp
next
  case (8 ci n r rs x)
  then show ?case using map_fst_each[of "cAtom ci n r x" "cSeq ci (n + rxCaps r) rs" "mSeq ci rs"] by simp
qed (simp_all add: repeats_fst comp_def)

text \<open>An expression without groups leaves them as they were.\<close>

lemma greedyRounds_snd:
  assumes "\<And>y z. z \<in> set (f y) \<Longrightarrow> snd z = snd y"
  shows "y \<in> set (greedyRounds left f k x) \<Longrightarrow> snd y = snd x"
  by (induction k arbitrary: x) (use assms in fastforce)+

lemma repeats_snd:
  assumes "\<And>y z. z \<in> set (f y) \<Longrightarrow> snd z = snd y"
  shows "y \<in> set (repeats left f x) \<Longrightarrow> snd y = snd x"
  unfolding repeats_def by (rule greedyRounds_snd[of f, OF assms])

lemma unsetGroups_none: "rxCaps r = 0 \<Longrightarrow> unsetGroups n r x = x"
  by (auto simp: unsetGroups_def prod_eq_iff fun_eq_iff)

lemma captures_kept:
  "rxCaps r = 0 \<Longrightarrow> y \<in> set (cAtom ci n r x) \<Longrightarrow> snd y = snd x"
  "seqCaps rs = 0 \<Longrightarrow> y \<in> set (cSeq ci n rs x) \<Longrightarrow> snd y = snd x"
  "altsCaps alts = 0 \<Longrightarrow> y \<in> set (cAlts ci n alts x) \<Longrightarrow> snd y = snd x"
proof (induction ci n r x and ci n rs x and ci n alts x arbitrary: y and y and y rule: cAtom_cSeq_cAlts.induct)
  case (1 ci n r x)
  then have "snd z = snd w" if "z \<in> set (cAtom ci n r (unsetGroups n r w))" for w z
    using that by (simp add: unsetGroups_none)
  then show ?case using 1(3) repeats_snd by (metis (no_types, lifting) cAtom.simps(1))
next
  case (2 ci n r x)
  obtain u where u: "u \<in> set (cAtom ci n r (unsetGroups n r x))"
    "y \<in> set (repeats cspotLeft (\<lambda>y. cAtom ci n r (unsetGroups n r y)) u)" using 2(4) by auto
  have none: "rxCaps r = 0" using 2(3) by simp
  then have "snd z = snd w" if "z \<in> set (cAtom ci n r (unsetGroups n r w))" for w z
    using that 2(2)[OF u(1)] by (simp add: unsetGroups_none)
  then have "snd y = snd u" using u(2) repeats_snd by (metis (no_types, lifting))
  moreover have "snd u = snd x" using 2(1)[OF none u(1)] none by (simp add: unsetGroups_none)
  ultimately show ?case by simp
next
  case (8 ci n r rs x)
  obtain u where u: "u \<in> set (cAtom ci n r x)" "y \<in> set (cSeq ci (n + rxCaps r) rs u)" using 8(4) by auto
  have "snd y = snd u" using 8(2)[OF u(1) _ u(2)] 8(3) by simp
  also have "snd u = snd x" using 8(1)[OF _ u(1)] 8(3) by simp
  finally show ?case .
next
  case (10 ci n rs alts x)
  have z: "seqCaps rs = 0" "altsCaps alts = 0" using 10(3) by simp_all
  have "y \<in> set (cSeq ci n rs x) \<or> y \<in> set (cAlts ci (n + seqCaps rs) alts x)" using 10(4) by simp
  then show ?case using 10(1)[OF z(1)] 10(2)[OF z(2)] by blast
qed auto

lemma plain_captures:
  assumes "rxCaps r = 0"
  shows "(t, g) \<in> set (cAtom ci n r x) \<longleftrightarrow> t \<in> set (mAtom ci r (fst x)) \<and> g = snd x"
proof
  assume "(t, g) \<in> set (cAtom ci n r x)"
  moreover have "t \<in> fst ` set (cAtom ci n r x)" using calculation by force
  ultimately show "t \<in> set (mAtom ci r (fst x)) \<and> g = snd x"
    using captures_kept(1)[OF assms] captures_erase(1)[of ci n r x] by (metis list.set_map snd_conv)
next
  assume m: "t \<in> set (mAtom ci r (fst x)) \<and> g = snd x"
  then have "t \<in> fst ` set (cAtom ci n r x)" by (metis captures_erase(1) list.set_map)
  then obtain h where "(t, h) \<in> set (cAtom ci n r x)" by force
  then show "(t, g) \<in> set (cAtom ci n r x)" using m captures_kept(1)[OF assms] by (metis snd_conv)
qed

lemma plain_sequence:
  "seqCaps ss = 0 \<Longrightarrow> y \<in> set (cSeq ci n (ss @ rs) x) \<longleftrightarrow> (\<exists>u \<in> set (mSeq ci ss (fst x)). y \<in> set (cSeq ci n rs (u, snd x)))"
proof (induction ss arbitrary: x)
  case (Cons r ss)
  have c: "rxCaps r = 0" "seqCaps ss = 0" using Cons.prems by simp_all
  have "y \<in> set (cSeq ci n ((r # ss) @ rs) x) \<longleftrightarrow> (\<exists>t g. (t, g) \<in> set (cAtom ci n r x) \<and> y \<in> set (cSeq ci n (ss @ rs) (t, g)))"
    using c(1) by auto
  also have "\<dots> \<longleftrightarrow> (\<exists>t \<in> set (mAtom ci r (fst x)). \<exists>u \<in> set (mSeq ci ss t). y \<in> set (cSeq ci n rs (u, snd x)))"
    unfolding plain_captures[OF c(1)] using Cons.IH[OF c(2)] by auto
  also have "\<dots> \<longleftrightarrow> (\<exists>u \<in> set (mSeq ci (r # ss) (fst x)). y \<in> set (cSeq ci n rs (u, snd x)))" by auto
  finally show ?case .
qed simp

lemma matchesAt_fst: "map fst (matchesAt ci alts s) = mAlts ci alts s"
  by (simp add: matchesAt_def captures_erase(3))

lemma rxMatches_test: "rxMatches ci alts s \<noteq> [] \<longleftrightarrow> rxTest ci alts s"
proof -
  have "matchesAt ci alts x \<noteq> [] \<longleftrightarrow> mAlts ci alts x \<noteq> []" for x by (metis matchesAt_fst map_is_Nil_conv)
  then show ?thesis by (auto simp: rxMatches_def rxTest_def list_ex_iff simp del: upt_Suc)
qed

lemma in_rxMatches:
  "m \<in> set (rxMatches ci alts s) \<Longrightarrow> \<exists>b a. s = rev b @ a \<and> fst m = (b, a) \<and> snd m \<in> set (matchesAt ci alts (b, a))"
  by (auto simp: rxMatches_def simp del: upt_Suc)

lemma go_matches: "goRegexTest source s = Some b \<Longrightarrow> \<exists>ms. goRegexMatches source s = Some ms \<and> (ms \<noteq> [] \<longleftrightarrow> b)"
  unfolding goRegexTest_def goRegexMatches_def regExpTest_def
  by (cases "readRx (drop 4 source)"; cases "readRx source") (simp_all only: option.map rxMatches_test[symmetric] split: if_splits; blast)+

end
