(* ===== verification/Path_Patterns.thy ===== *)
theory Path_Patterns
  imports Regex
begin

text \<open>
  \<open>src/lib/path-patterns.ts\<close>, \<open>src/lib/release-channels.ts\<close>, \<open>src/lib/preview-branches.ts\<close>,
  \<open>src/lib/watch-paths.ts\<close> and \<open>src/lib/slug.ts\<close>: the patterns operators type for paths, tags, branches
  and files, and the slugs and environment names services get. A validation message is a constructor
  where it only wraps the input. Bun's glob matcher is the parameter \<open>globMatch\<close>; \<open>localeSort\<close> is a
  sort with \<open>localeCompare\<close>.
\<close>

section \<open>Slugs\<close>

definition MAX_SLUG_LENGTH :: nat where
  "MAX_SLUG_LENGTH = 63"

definition is_slug_char :: "char \<Rightarrow> bool" where
  "is_slug_char c \<longleftrightarrow> is_lower_ascii c \<or> is_digit c \<or> c = CHR ''-''"

text \<open>\<open>replace(/^-|-$/g, "")\<close>: one hyphen off each end.\<close>

definition strip_hyphens :: "string \<Rightarrow> string" where
  "strip_hyphens s =
     (let t = (if s \<noteq> [] \<and> hd s = CHR ''-'' then tl s else s)
      in if t \<noteq> [] \<and> last t = CHR ''-'' then butlast t else t)"

definition slugify :: "string \<Rightarrow> string" where
  "slugify v =
     take 63 (strip_hyphens (replace_runs (\<lambda>c. c = CHR ''-'') ''-''
       (replace_runs (\<lambda>c. \<not> is_slug_char c) ''-'' (trim (lower v)))))"

text \<open>\<open>s.slice(0, k)\<close>; a negative end counts from the back.\<close>

definition slice0 :: "int \<Rightarrow> string \<Rightarrow> string" where
  "slice0 k s = (if k < 0 then take (length s - nat (- k)) s else take (nat k) s)"

definition suffixedSlug :: "string \<Rightarrow> nat \<Rightarrow> string" where
  "suffixedSlug base attempt =
     (let suffix = ''-'' @ show_nat attempt;
          head = strip_trailing (CHR ''-'') (slice0 (int MAX_SLUG_LENGTH - int (length suffix)) base)
      in if head \<noteq> [] then head @ suffix else show_nat attempt)"

text \<open>The loop of \<open>uniqueSlug\<close>; not returning is \<open>None\<close>.\<close>

partial_function (option) uniqueLoop :: "string \<Rightarrow> (string \<Rightarrow> bool) \<Rightarrow> string \<Rightarrow> nat \<Rightarrow> string option" where
  "uniqueLoop base isTaken candidate attempt =
     (if isTaken candidate then uniqueLoop base isTaken (suffixedSlug base attempt) (attempt + 1)
      else Some candidate)"

definition uniqueSlug :: "string \<Rightarrow> (string \<Rightarrow> bool) \<Rightarrow> string option" where
  "uniqueSlug base isTaken = uniqueLoop base isTaken base 2"

definition stackScopedSlug :: "string option \<Rightarrow> string \<Rightarrow> string" where
  "stackScopedSlug stackSlug slug =
     (case stackSlug of
        None \<Rightarrow> slug
      | Some stack \<Rightarrow>
          if stack = [] \<or> slug = stack \<or> starts_with (stack @ ''-'') slug then slug
          else strip_trailing (CHR ''-'') (take MAX_SLUG_LENGTH (stack @ ''-'' @ slug)))"

definition childSlug :: "string \<Rightarrow> string \<Rightarrow> string" where
  "childSlug parentSlug suffix =
     (let tail = ''-'' @ suffix
      in strip_trailing (CHR ''-'') (slice0 (63 - int (length tail)) parentSlug) @ tail)"

section \<open>Globs\<close>

text \<open>The expression for one character of a pattern, the same in path and tag patterns.\<close>

definition globChar :: "char \<Rightarrow> string" where
  "globChar c =
     (if c = CHR ''*'' then ''.*''
      else if c = CHR ''?'' then ''.''
      else if c \<in> set [CHR 0x5C, CHR ''^'', CHR ''$'', CHR ''.'', CHR ''|'', CHR ''+'', CHR ''('', CHR '')'',
        CHR ''['', CHR '']'', CHR ''{'', CHR ''}''] then [CHR 0x5C, c]
      else [c])"

definition globSource :: "string \<Rightarrow> string" where
  "globSource pattern = concat (map globChar pattern)"

section \<open>Path patterns\<close>

datatype AuthPathsMode = AllPaths | OnlyPaths | ExceptPaths

definition MAX_PATH_PATTERNS :: nat where
  "MAX_PATH_PATTERNS = 100"

definition MAX_PATTERN_LENGTH :: nat where
  "MAX_PATTERN_LENGTH = 200"

record PathPatternPreset =
  pp_id :: string
  pp_label :: string
  pp_patterns :: "string list"

definition PATH_PATTERN_PRESETS :: "PathPatternPreset list" where
  "PATH_PATTERN_PRESETS = [
     \<lparr>pp_id = ''wordpress'', pp_label = ''WordPress probes'',
      pp_patterns = [''wp-admin'', ''wp-login.php'', ''wp-config.php*'', ''wp-content'', ''wp-includes'', ''wp-json'', ''xmlrpc.php'']\<rparr>,
     \<lparr>pp_id = ''sensitive'', pp_label = ''Sensitive files'',
      pp_patterns = [''.env'', ''.env.*'', ''.git'', ''.git-credentials'', ''.gitconfig'', ''.svn'', ''.hg'', ''.aws'', ''.ssh'',
        ''.htpasswd'', ''.htaccess'', ''.npmrc'', ''.DS_Store'', ''*.sql'', ''*.sql.gz'', ''*.bak'', ''*.swp'', ''id_rsa*'']\<rparr>,
     \<lparr>pp_id = ''admin'', pp_label = ''Admin tools'',
      pp_patterns = [''phpmyadmin'', ''phpinfo.php'', ''adminer.php'', ''server-status'', ''cgi-bin'']\<rparr>]"

definition parsePathPatterns :: "string \<Rightarrow> string list" where
  "parsePathPatterns typed = js_unique (filter (\<lambda>p. p \<noteq> []) (map trim (split_on (CHR 10) typed)))"

datatype patternProblem = TooLong string | BadCharacter string | MatchesEverything string | TooMany

definition is_control :: "char \<Rightarrow> bool" where
  "is_control c \<longleftrightarrow> of_char c < (32 :: nat) \<or> (127 \<le> (of_char c :: nat) \<and> of_char c \<le> (159 :: nat))"

definition pathPatternProblem :: "string \<Rightarrow> patternProblem option" where
  "pathPatternProblem pattern =
     (if length pattern > MAX_PATTERN_LENGTH then Some (TooLong pattern)
      else if list_ex (\<lambda>c. is_ws c \<or> c \<in> set [CHR 0x60, CHR 0x22, CHR 0x5C]) pattern \<or> list_ex is_control pattern
        then Some (BadCharacter pattern)
      else if \<not> list_ex (\<lambda>c. c \<notin> set [CHR ''*'', CHR ''?'', CHR ''/'']) pattern then Some (MatchesEverything pattern)
      else None)"

definition pathPatternsProblem :: "string list \<Rightarrow> patternProblem option" where
  "pathPatternsProblem patterns =
     (if length patterns > MAX_PATH_PATTERNS then Some TooMany
      else (case List.find (\<lambda>p. p \<noteq> None) (map pathPatternProblem patterns) of Some p \<Rightarrow> p | None \<Rightarrow> None))"

definition pathPatternRegex :: "string \<Rightarrow> string" where
  "pathPatternRegex pattern =
     (let anchored = starts_with ''/'' pattern; body = globSource (if anchored then tl pattern else pattern)
      in (if anchored then ''^/'' else ''(?:^|/)'') @ body @ ''(?:/|$)'')"

definition matchingPathPattern :: "string list \<Rightarrow> string option \<Rightarrow> string option" where
  "matchingPathPattern patterns path =
     (case map_option (\<lambda>p. hd (split_on (CHR ''?'') p)) path of
        None \<Rightarrow> None
      | Some pathname \<Rightarrow>
          if pathname = [] then None
          else List.find (\<lambda>pattern. regExpTest (pathPatternRegex pattern) True pathname = Some True) patterns)"

definition pathPatternsRegex :: "string list \<Rightarrow> string" where
  "pathPatternsRegex patterns = ''(?i)'' @ join ''|'' (map pathPatternRegex patterns)"

definition authPathsProblem :: "AuthPathsMode \<Rightarrow> string list \<Rightarrow> string option" where
  "authPathsProblem authPathsMode authPaths =
     (if authPathsMode \<noteq> AllPaths \<and> length authPaths = 0
      then Some ''Add at least one path pattern, or cover every path.'' else None)"

record PathFilters =
  pf_authPaths :: "string list"
  pf_authPathsMode :: AuthPathsMode
  pf_authRequired :: bool
  pf_blockedPaths :: "string list"

fun modeName :: "AuthPathsMode \<Rightarrow> string" where
  "modeName AllPaths = ''all''"
| "modeName OnlyPaths = ''only''"
| "modeName ExceptPaths = ''except''"

definition wallText :: "PathFilters \<Rightarrow> string" where
  "wallText filters =
     (if pf_authPathsMode filters \<noteq> AllPaths \<and> length (pf_authPaths filters) > 0
      then modeName (pf_authPathsMode filters) @ [CHR 10] @ join [CHR 10] (pf_authPaths filters) else ''all'')"

definition pathFiltersChanged :: "PathFilters \<Rightarrow> PathFilters \<Rightarrow> bool" where
  "pathFiltersChanged before after \<longleftrightarrow>
     join [CHR 10] (pf_blockedPaths before) \<noteq> join [CHR 10] (pf_blockedPaths after) \<or>
     (pf_authRequired after \<and> wallText before \<noteq> wallText after)"

section \<open>Release channels and environments\<close>

definition DEPLOY_ENVIRONMENTS :: "string list" where
  "DEPLOY_ENVIRONMENTS = [''production'', ''canary'', ''preview'']"

definition deployEnvironment :: "bool \<Rightarrow> string option \<Rightarrow> string option \<Rightarrow> string" where
  "deployEnvironment channelCanary environmentName previewParentId =
     (let truthy = (\<lambda>s. case s of Some x \<Rightarrow> x \<noteq> [] | None \<Rightarrow> False)
      in if channelCanary then ''canary''
         else if truthy previewParentId \<and> \<not> truthy environmentName then ''preview''
         else (case environmentName of Some n \<Rightarrow> n | None \<Rightarrow> ''production''))"

text \<open>\<open>[a-z0-9](?:[a-z0-9-]{0,30}[a-z0-9])?\<close>, the whole name.\<close>

definition ENVIRONMENT_NAME_PATTERN :: "string \<Rightarrow> bool" where
  "ENVIRONMENT_NAME_PATTERN s \<longleftrightarrow>
     s \<noteq> [] \<and> length s \<le> 32 \<and> list_all is_slug_char s \<and> hd s \<noteq> CHR ''-'' \<and> last s \<noteq> CHR ''-''"

definition environmentNameProblem :: "string \<Rightarrow> string option" where
  "environmentNameProblem name =
     (if name = [] \<or> name = ''production'' then None
      else if name = ''canary'' \<or> name = ''preview'' then
        Some (name @ '' is reserved for '' @ (if name = ''canary'' then ''release channel canaries'' else ''pull request previews'') @ ''.'')
      else if \<not> ENVIRONMENT_NAME_PATTERN name then
        Some ''Use up to 32 lowercase letters, digits and dashes, e.g. staging or eu-prod.''
      else None)"

definition normalizeEnvironmentName :: "string option \<Rightarrow> string option" where
  "normalizeEnvironmentName name =
     (let v = lower (trim (case name of Some n \<Rightarrow> n | None \<Rightarrow> []))
      in if v \<noteq> [] \<and> v \<noteq> ''production'' then Some v else None)"

definition deploymentEnvironments :: "(string list \<Rightarrow> string list) \<Rightarrow> string list \<Rightarrow> string list" where
  "deploymentEnvironments localeSort used =
     DEPLOY_ENVIRONMENTS @ localeSort (filter (\<lambda>name. name \<notin> set DEPLOY_ENVIRONMENTS) used)"

definition environmentLabel :: "string \<Rightarrow> string" where
  "environmentLabel environment =
     (case map_of [(''canary'', ''Canary''), (''preview'', ''Preview''), (''production'', ''Production'')] environment of
        Some l \<Rightarrow> l | None \<Rightarrow> environment)"

definition matchesTagPattern :: "string \<Rightarrow> string \<Rightarrow> bool" where
  "matchesTagPattern pattern tag \<longleftrightarrow> regExpTest (''^'' @ globSource pattern @ ''$'') False tag = Some True"

definition canarySlug :: "string \<Rightarrow> string" where
  "canarySlug parentSlug = childSlug parentSlug ''canary''"

definition tagPatternProblem :: "string \<Rightarrow> string option" where
  "tagPatternProblem pattern =
     (if trim pattern = [] then Some ''Enter a tag pattern, e.g. v*.''
      else if list_ex is_ws pattern then Some ''A tag pattern can't contain spaces.''
      else None)"

definition ENVIRONMENT_PRESETS :: "string list" where
  "ENVIRONMENT_PRESETS = [''prod'', ''staging'', ''canary'', ''test'', ''dev'', ''demo'']"

definition newEnvironmentProblem :: "string \<Rightarrow> bool \<Rightarrow> string list \<Rightarrow> string option" where
  "newEnvironmentProblem name channelsEnabled taken =
     (if name = [] then Some ''Give the environment a name.''
      else if starts_with ''pr-'' name \<and> drop 3 name \<noteq> [] \<and> list_all is_digit (drop 3 name) then
        Some (name @ '' is reserved for pull request previews.'')
      else if name = ''canary'' \<and> channelsEnabled then
        Some ''canary is this service's release channel canary while channels are on.''
      else if name \<in> set taken then Some (''This service already has a '' @ name @ '' environment.'')
      else if name = ''canary'' then None else environmentNameProblem name)"

section \<open>Preview branches and watch paths\<close>

definition parseBranchPatterns :: "string \<Rightarrow> string list" where
  "parseBranchPatterns typed =
     js_unique (filter (\<lambda>p. p \<noteq> []) (map trim (concat (map (split_on (CHR '','')) (split_on (CHR 10) typed)))))"

definition branchPatternProblem :: "string \<Rightarrow> patternProblem option" where
  "branchPatternProblem pattern =
     (if length pattern > 200 then Some (TooLong pattern)
      else if list_ex is_ws pattern then Some (BadCharacter pattern) else None)"

definition previewBranchAllowed :: "string option \<Rightarrow> string list \<Rightarrow> string list \<Rightarrow> bool" where
  "previewBranchAllowed branch include exclude =
     (case branch of
        None \<Rightarrow> length include = 0 \<and> length exclude = 0
      | Some b \<Rightarrow>
          if b = [] then length include = 0 \<and> length exclude = 0
          else if list_ex (\<lambda>pattern. matchesTagPattern pattern b) exclude then False
          else length include = 0 \<or> list_ex (\<lambda>pattern. matchesTagPattern pattern b) include)"

definition parseWatchPaths :: "string \<Rightarrow> string list" where
  "parseWatchPaths typed = js_unique (filter (\<lambda>p. p \<noteq> []) (map trim (split_on (CHR 10) typed)))"

definition matchesWatchPath :: "(string \<Rightarrow> string \<Rightarrow> bool) \<Rightarrow> string \<Rightarrow> string \<Rightarrow> bool" where
  "matchesWatchPath globMatch pattern file =
     (let folder = strip_trailing (CHR ''/'') pattern
      in globMatch pattern file \<or> globMatch (folder @ ''/**'') file \<or>
         (CHR ''/'' \<notin> set folder \<and> globMatch folder (last (split_on (CHR ''/'') file))))"

definition pushMatchesWatchPaths :: "(string \<Rightarrow> string \<Rightarrow> bool) \<Rightarrow> string list option \<Rightarrow> string list \<Rightarrow> string list \<Rightarrow> bool" where
  "pushMatchesWatchPaths globMatch files ignore watch =
     (case files of
        None \<Rightarrow> True
      | Some fs \<Rightarrow>
          if length watch = 0 \<and> length ignore = 0 then True
          else list_ex (\<lambda>file.
            (length watch = 0 \<or> list_ex (\<lambda>pattern. matchesWatchPath globMatch pattern file) watch) \<and>
            \<not> list_ex (\<lambda>pattern. matchesWatchPath globMatch pattern file) ignore) fs)"

end
