(* ===== verification/Pattern_Theorems.thy ===== *)
theory Pattern_Theorems
  imports Path_Patterns
begin

text \<open>
  The expressions written for path, tag and branch patterns match what the patterns say; the slugs handed
  out are free and short enough.
\<close>

section \<open>Globs\<close>

text \<open>What a pattern means: a star is any run without a line end, a question mark one such character.\<close>

fun globs :: "bool \<Rightarrow> string \<Rightarrow> string \<Rightarrow> bool" where
  "globs ci [] w \<longleftrightarrow> w = []"
| "globs ci (c # p) w \<longleftrightarrow>
     (if c = CHR ''*'' then
        list_ex (\<lambda>k. list_all (\<lambda>d. \<not> is_eol d) (take k w) \<and> globs ci p (drop k w)) [0..<Suc (length w)]
      else (case w of
              [] \<Rightarrow> False
            | d # v \<Rightarrow> (if c = CHR ''?'' then \<not> is_eol d else same_char ci c d) \<and> globs ci p v))"

lemma globs_star:
  "globs ci (CHR ''*'' # p) w \<longleftrightarrow> (\<exists>u v. w = u @ v \<and> list_all (\<lambda>d. \<not> is_eol d) u \<and> globs ci p v)"
proof
  assume "globs ci (CHR ''*'' # p) w"
  then obtain k where "list_all (\<lambda>d. \<not> is_eol d) (take k w)" "globs ci p (drop k w)"
    by (auto simp: list_ex_iff simp del: upt_Suc)
  then show "\<exists>u v. w = u @ v \<and> list_all (\<lambda>d. \<not> is_eol d) u \<and> globs ci p v"
    by (intro exI[of _ "take k w"] exI[of _ "drop k w"]) simp
next
  assume "\<exists>u v. w = u @ v \<and> list_all (\<lambda>d. \<not> is_eol d) u \<and> globs ci p v"
  then obtain u v where "w = u @ v" "list_all (\<lambda>d. \<not> is_eol d) u" "globs ci p v" by blast
  then show "globs ci (CHR ''*'' # p) w"
    by (auto simp: list_ex_iff simp del: upt_Suc intro!: bexI[of _ "length u"])
qed

definition globAtom :: "char \<Rightarrow> rx" where
  "globAtom c = (if c = CHR ''*'' then Many Any else if c = CHR ''?'' then Any else Lit c)"

lemma globs_one:
  assumes "c \<noteq> CHR ''*''"
  shows "globs ci (c # p) w \<longleftrightarrow> (\<exists>d v. w = d # v \<and> accepts ci (globAtom c) d \<and> globs ci p v)"
  using assms by (cases w) (auto simp: globAtom_def)

lemma parse_globChar:
  "parseRx (globChar c @ rest) ((alts, cur, cap) # fs) = parseRx rest ((alts, cur @ [globAtom c], cap) # fs)"
  by (cases "c \<in> set [CHR 0x5C, CHR ''^'', CHR ''$'', CHR ''.'', CHR ''|'', CHR ''+'', CHR ''('', CHR '')'', CHR ''['', CHR '']'', CHR ''{'', CHR ''}'']")
    (auto simp: globChar_def globAtom_def quantify_def addRx_def is_syntax_def Let_def)

lemma parse_glob:
  "parseRx (globSource p @ rest) ((alts, cur, cap) # fs) = parseRx rest ((alts, cur @ map globAtom p, cap) # fs)"
  by (induction p arbitrary: cur) (auto simp: globSource_def parse_globChar)

lemma accepts_Any [simp]: "accepts ci Any = (\<lambda>d. \<not> is_eol d)"
  by (rule ext) simp

lemma in_mSeq_glob:
  "t \<in> set (mSeq ci (map globAtom p) (b, a)) \<longleftrightarrow> (\<exists>w. globs ci p w \<and> a = w @ snd t \<and> fst t = rev w @ b)"
proof (induction p arbitrary: b a)
  case Nil
  show ?case by (auto simp: prod_eq_iff)
next
  case (Cons c p)
  have step: "t \<in> set (mSeq ci (map globAtom (c # p)) (b, a)) \<longleftrightarrow>
      (\<exists>u \<in> set (mAtom ci (globAtom c) (b, a)). \<exists>w. globs ci p w \<and> snd u = w @ snd t \<and> fst t = rev w @ fst u)"
    unfolding list.map in_mSeq_Cons using Cons.IH by (metis prod.collapse)
  show ?case
  proof (cases "c = CHR ''*''")
    case True
    have "t \<in> set (mSeq ci (map globAtom (c # p)) (b, a)) \<longleftrightarrow>
        (\<exists>u x w. list_all (\<lambda>d. \<not> is_eol d) u \<and> a = u @ x \<and> globs ci p w \<and> x = w @ snd t \<and> fst t = rev w @ rev u @ b)"
    proof -
      have "mAtom ci (globAtom c) (b, a) = repeats spotLeft (mAtom ci Any) (b, a)" by (simp add: globAtom_def True)
      then show ?thesis unfolding step by (simp only: Bex_def in_many[of Any, simplified single.simps, OF TrueI] accepts_Any) (metis fst_conv snd_conv)
    qed
    also have "\<dots> \<longleftrightarrow> (\<exists>w. globs ci (c # p) w \<and> a = w @ snd t \<and> fst t = rev w @ b)"
      unfolding True globs_star by (metis append.assoc rev_append)
    finally show ?thesis .
  next
    case False
    then have "mAtom ci (globAtom c) (b, a) = one ci (globAtom c) (b, a)" by (simp add: globAtom_def)
    then have "t \<in> set (mSeq ci (map globAtom (c # p)) (b, a)) \<longleftrightarrow>
        (\<exists>d x w. accepts ci (globAtom c) d \<and> a = d # x \<and> globs ci p w \<and> x = w @ snd t \<and> fst t = rev w @ d # b)"
      unfolding step by (simp only: Bex_def in_one) (metis fst_conv snd_conv)
    also have "\<dots> \<longleftrightarrow> (\<exists>w. globs ci (c # p) w \<and> a = w @ snd t \<and> fst t = rev w @ b)"
      (is "?L \<longleftrightarrow> ?R")
    proof
      assume ?L
      then obtain d x w where "accepts ci (globAtom c) d" "a = d # x" "globs ci p w" "x = w @ snd t" "fst t = rev w @ d # b"
        by blast
      then show ?R by (intro exI[of _ "d # w"]) (simp add: globs_one[OF False] del: globs.simps)
    next
      assume ?R
      then obtain d v where "accepts ci (globAtom c) d" "globs ci p v" "a = (d # v) @ snd t" "fst t = rev (d # v) @ b"
        unfolding globs_one[OF False] by blast
      then show ?L by (intro exI[of _ d] exI[of _ "v @ snd t"] exI[of _ v]) simp
    qed
    finally show ?thesis .
  qed
qed

lemma rxTest_one: "rxTest ci [rs] s \<longleftrightarrow> (\<exists>b a. s = rev b @ a \<and> (\<exists>t. t \<in> set (mSeq ci rs (b, a))))"
proof -
  have "xs \<noteq> [] \<longleftrightarrow> (\<exists>t. t \<in> set xs)" for xs :: "spot list" by (cases xs) auto
  then show ?thesis unfolding rxTest_iff by simp
qed

lemma in_Bol: "t \<in> set (mAtom ci Bol s) \<longleftrightarrow> fst s = [] \<and> t = s"
  by auto

lemma in_Eol: "t \<in> set (mAtom ci Eol s) \<longleftrightarrow> snd s = [] \<and> t = s"
  by auto

lemma in_Nil: "t \<in> set (mSeq ci [] s) \<longleftrightarrow> t = s"
  by simp

text \<open>A whole tag or branch.\<close>

lemma read_tag: "readRx (''^'' @ globSource p @ ''$'') = Some [Bol # map globAtom p @ [Eol]]"
  by (simp add: readRx_def parse_glob addRx_def)

lemma matchesTagPattern_globs: "matchesTagPattern p tag \<longleftrightarrow> globs False p tag"
proof -
  have "rxTest False [Bol # map globAtom p @ [Eol]] tag \<longleftrightarrow>
      (\<exists>u. u \<in> set (mSeq False (map globAtom p) ([], tag)) \<and> snd u = [])"
    unfolding rxTest_one in_mSeq_Cons in_mSeq_append in_Bol in_Eol in_Nil Bex_def by auto
  also have "\<dots> \<longleftrightarrow> globs False p tag" by (simp add: in_mSeq_glob)
  finally show ?thesis by (simp add: matchesTagPattern_def regExpTest_def read_tag[simplified])
qed

text \<open>What a path pattern covers: whole segments, from the root when it starts with a slash.\<close>

definition coversPath :: "string \<Rightarrow> string \<Rightarrow> bool" where
  "coversPath p s \<longleftrightarrow>
     (\<exists>pre w rest. s = pre @ w @ rest \<and>
        (if starts_with ''/'' p then pre = ''/'' \<and> globs True (tl p) w
         else (pre = [] \<or> last pre = CHR ''/'') \<and> globs True p w) \<and>
        (rest = [] \<or> hd rest = CHR ''/''))"

definition pathSeq :: "string \<Rightarrow> rx list" where
  "pathSeq p =
     (if starts_with ''/'' p then [Bol, Lit (CHR ''/'')] @ map globAtom (tl p)
      else [Group [[Bol], [Lit (CHR ''/'')]]] @ map globAtom p) @ [Group [[Lit (CHR ''/'')], [Eol]]]"

lemma parse_path: "parseRx (pathPatternRegex p @ rest) [(alts, [], False)] = parseRx rest [(alts, pathSeq p, False)]"
  by (simp add: pathPatternRegex_def pathSeq_def Let_def parse_glob addRx_def is_syntax_def)

lemma same_char_slash [simp]: "same_char ci (CHR ''/'') d \<longleftrightarrow> d = CHR ''/''"
proof -
  have "upper_char d = CHR ''/'' \<longleftrightarrow> d = CHR ''/''"
  proof
    assume u: "upper_char d = CHR ''/''"
    have "(of_char (upper_char d) :: nat) = 47" unfolding u by simp
    then have "(of_char d :: nat) = 47"
      by (auto simp: upper_char_def Let_def split: if_splits)
    then show "d = CHR ''/''" using of_char_eq_iff[of d "CHR ''/''", where 'a = nat] by simp
  qed (simp add: upper_char_def)
  then show ?thesis by (auto simp: same_char_def upper_char_def)
qed

lemma in_slash: "t \<in> set (mAtom ci (Lit (CHR ''/'')) (b, a)) \<longleftrightarrow> a = CHR ''/'' # snd t \<and> fst t = CHR ''/'' # b"
  using in_one[of t ci "Lit (CHR ''/'')" b a] by simp

lemma in_path_end:
  "(\<exists>t. t \<in> set (mSeq ci (rs @ [Group [[Lit (CHR ''/'')], [Eol]]]) s)) \<longleftrightarrow>
   (\<exists>u \<in> set (mSeq ci rs s). snd u = [] \<or> hd (snd u) = CHR ''/'')"
proof -
  have "(\<exists>t. t \<in> set (mSeq ci [Group [[Lit (CHR ''/'')], [Eol]]] u)) \<longleftrightarrow> snd u = [] \<or> hd (snd u) = CHR ''/''" for u
    by (cases u; cases "snd u") auto
  then show ?thesis unfolding in_mSeq_append by blast
qed

lemma in_path_start: "t \<in> set (mSeq ci (Group [[Bol], [Lit (CHR ''/'')]] # rs) (b, a)) \<longleftrightarrow>
    b = [] \<and> t \<in> set (mSeq ci rs ([], a)) \<or> (\<exists>x. a = CHR ''/'' # x \<and> t \<in> set (mSeq ci rs (CHR ''/'' # b, x)))"
  by (cases a) auto

lemma in_path_anchor: "t \<in> set (mSeq ci (Bol # Lit (CHR ''/'') # rs) (b, a)) \<longleftrightarrow>
    b = [] \<and> (\<exists>x. a = CHR ''/'' # x \<and> t \<in> set (mSeq ci rs (''/'', x)))"
  by (cases a) auto

lemma rxTest_path:
  assumes "pathSeq p = rs @ [Group [[Lit (CHR ''/'')], [Eol]]]"
  shows "rxTest True [pathSeq p] s \<longleftrightarrow>
    (\<exists>b a. s = rev b @ a \<and> (\<exists>u \<in> set (mSeq True rs (b, a)). snd u = [] \<or> hd (snd u) = CHR ''/''))"
  unfolding rxTest_one assms in_path_end ..

lemma pathSeq_anchor:
  "starts_with ''/'' p \<Longrightarrow>
   pathSeq p = (Bol # Lit (CHR ''/'') # map globAtom (tl p)) @ [Group [[Lit (CHR ''/'')], [Eol]]]"
  by (simp add: pathSeq_def)

lemma pathSeq_float:
  "\<not> starts_with ''/'' p \<Longrightarrow>
   pathSeq p = (Group [[Bol], [Lit (CHR ''/'')]] # map globAtom p) @ [Group [[Lit (CHR ''/'')], [Eol]]]"
  by (simp add: pathSeq_def)

lemma after_glob:
  "(\<exists>u \<in> set (mSeq ci (map globAtom p) (b, a)). snd u = [] \<or> hd (snd u) = CHR ''/'') \<longleftrightarrow>
   (\<exists>w rest. a = w @ rest \<and> globs ci p w \<and> (rest = [] \<or> hd rest = CHR ''/''))"
  unfolding Bex_def in_mSeq_glob split_paired_Ex fst_conv snd_conv by blast

lemma pathSeq_anchored:
  assumes "starts_with ''/'' p"
  shows "rxTest True [pathSeq p] s \<longleftrightarrow> coversPath p s"
proof -
  have "rxTest True [pathSeq p] s \<longleftrightarrow>
      (\<exists>a. s = CHR ''/'' # a \<and> (\<exists>u \<in> set (mSeq True (map globAtom (tl p)) (''/'', a)). snd u = [] \<or> hd (snd u) = CHR ''/''))"
    unfolding rxTest_path[OF pathSeq_anchor[OF assms]] Bex_def in_path_anchor
    by (metis (no_types, lifting) append_Nil rev.simps(1))
  also have "\<dots> \<longleftrightarrow> coversPath p s"
    unfolding coversPath_def if_P[OF assms] after_glob by auto
  finally show ?thesis .
qed

lemma pathSeq_floating:
  assumes "\<not> starts_with ''/'' p"
  shows "rxTest True [pathSeq p] s \<longleftrightarrow> coversPath p s"
proof -
  have "rxTest True [pathSeq p] s \<longleftrightarrow>
      (\<exists>b a. s = rev b @ a \<and> (b = [] \<or> hd b = CHR ''/'') \<and>
        (\<exists>u \<in> set (mSeq True (map globAtom p) (b, a)). snd u = [] \<or> hd (snd u) = CHR ''/''))"
  proof
    assume "rxTest True [pathSeq p] s"
    then have "\<exists>b a. s = rev b @ a \<and> (\<exists>u \<in> set (mSeq True (Group [[Bol], [Lit (CHR ''/'')]] # map globAtom p) (b, a)).
        snd u = [] \<or> hd (snd u) = CHR ''/'')"
      unfolding rxTest_path[OF pathSeq_float[OF assms]] .
    then obtain b a u where s: "s = rev b @ a" and u: "u \<in> set (mSeq True (Group [[Bol], [Lit (CHR ''/'')]] # map globAtom p) (b, a))"
      "snd u = [] \<or> hd (snd u) = CHR ''/''"
      by blast
    from u(1)[unfolded in_path_start] show "\<exists>b a. s = rev b @ a \<and> (b = [] \<or> hd b = CHR ''/'') \<and>
        (\<exists>u \<in> set (mSeq True (map globAtom p) (b, a)). snd u = [] \<or> hd (snd u) = CHR ''/'')"
    proof (elim disjE exE conjE)
      assume "b = []" "u \<in> set (mSeq True (map globAtom p) ([], a))"
      then show ?thesis using s u(2) by (intro exI[of _ "[]"] exI[of _ a]) auto
    next
      fix x assume "a = CHR ''/'' # x" "u \<in> set (mSeq True (map globAtom p) (CHR ''/'' # b, x))"
      then show ?thesis using s u(2) by (intro exI[of _ "CHR ''/'' # b"] exI[of _ x]) auto
    qed
  next
    assume "\<exists>b a. s = rev b @ a \<and> (b = [] \<or> hd b = CHR ''/'') \<and>
        (\<exists>u \<in> set (mSeq True (map globAtom p) (b, a)). snd u = [] \<or> hd (snd u) = CHR ''/'')"
    then obtain b a u where s: "s = rev b @ a" "b = [] \<or> hd b = CHR ''/''"
      and u: "u \<in> set (mSeq True (map globAtom p) (b, a))" "snd u = [] \<or> hd (snd u) = CHR ''/''" by blast
    have "\<exists>b' a'. s = rev b' @ a' \<and> u \<in> set (mSeq True (Group [[Bol], [Lit (CHR ''/'')]] # map globAtom p) (b', a'))"
    proof (cases b)
      case Nil
      then show ?thesis using s u(1) unfolding in_path_start by (intro exI[of _ "[]"] exI[of _ a]) auto
    next
      case (Cons c b')
      then show ?thesis using s u(1) unfolding in_path_start by (intro exI[of _ b'] exI[of _ "c # a"]) auto
    qed
    then show "rxTest True [pathSeq p] s"
      unfolding rxTest_path[OF pathSeq_float[OF assms]] using u(2) by blast
  qed
  also have "\<dots> \<longleftrightarrow> (\<exists>pre w rest. s = pre @ w @ rest \<and> (pre = [] \<or> last pre = CHR ''/'') \<and> globs True p w \<and>
      (rest = [] \<or> hd rest = CHR ''/''))"
    (is "?L \<longleftrightarrow> ?R")
  proof
    assume ?L
    then obtain b w rest where "s = rev b @ w @ rest" "b = [] \<or> hd b = CHR ''/''" "globs True p w" "rest = [] \<or> hd rest = CHR ''/''"
      unfolding after_glob by blast
    then show ?R by (intro exI[of _ "rev b"] exI[of _ w] exI[of _ rest]) (simp add: last_rev)
  next
    assume ?R
    then obtain pre w rest where "s = pre @ w @ rest" "pre = [] \<or> last pre = CHR ''/''" "globs True p w" "rest = [] \<or> hd rest = CHR ''/''"
      by blast
    then show ?L unfolding after_glob
      by (intro exI[of _ "rev pre"] exI[of _ "w @ rest"]) (auto simp: hd_rev)
  qed
  finally show ?thesis unfolding coversPath_def if_not_P[OF assms] by blast
qed

lemma pathSeq_covers: "rxTest True [pathSeq p] s \<longleftrightarrow> coversPath p s"
  using pathSeq_anchored pathSeq_floating by blast

lemma path_test: "regExpTest (pathPatternRegex p) True s = Some (coversPath p s)"
  using parse_path[of p "[]" "[]"] by (simp add: regExpTest_def readRx_def pathSeq_covers)

lemma parse_paths:
  "ps \<noteq> [] \<Longrightarrow> parseRx (join ''|'' (map pathPatternRegex ps)) [(alts, [], False)] = Some (alts @ map pathSeq ps)"
proof (induction ps arbitrary: alts rule: induct_list012)
  case (2 p)
  then show ?case using parse_path[of p "[]" alts] by simp
next
  case (3 p q ps)
  then show ?case using parse_path[of p "''|'' @ join ''|'' (map pathPatternRegex (q # ps))" alts]
    by (simp add: Let_def)
qed simp

lemma rxTest_alts: "rxTest ci alts s \<longleftrightarrow> (\<exists>rs \<in> set alts. rxTest ci [rs] s)"
proof -
  have "mAlts ci alts x \<noteq> [] \<longleftrightarrow> (\<exists>rs \<in> set alts. mAlts ci [rs] x \<noteq> [])" for x by (induction alts) auto
  then show ?thesis unfolding rxTest_iff by blast
qed

lemma paths_test:
  assumes "ps \<noteq> []"
  shows "goRegexTest (pathPatternsRegex ps) s = Some (\<exists>p \<in> set ps. coversPath p s)"
proof -
  have "readRx (join ''|'' (map pathPatternRegex ps)) = Some (map pathSeq ps)"
    using parse_paths[OF assms, of "[]"] by (simp add: readRx_def)
  then show ?thesis
    by (simp add: goRegexTest_def pathPatternsRegex_def regExpTest_def rxTest_alts[of _ "map pathSeq ps"] pathSeq_covers)
qed

section \<open>Theorems\<close>

text \<open>
  C25. A path pattern covers what its text says, in both places that read it: the tester that names
  the first pattern a request hits, and the one expression handed to Traefik for all of them. For a list of
  patterns and a path with no query, no line end and at least one character, the tester finds the first
  pattern that covers the path by whole segments, ignoring case, and Traefik's expression matches exactly
  when there is one.
\<close>

theorem path_patterns_agree:
  assumes "ps \<noteq> []" "path \<noteq> []" "CHR ''?'' \<notin> set path" "list_all (\<lambda>c. \<not> is_eol c) path"
  shows "matchingPathPattern ps (Some path) = List.find (\<lambda>p. coversPath p path) ps \<and>
    goRegexTest (pathPatternsRegex ps) path = Some (matchingPathPattern ps (Some path) \<noteq> None)"
proof -
  have first: "matchingPathPattern ps (Some path) = List.find (\<lambda>p. coversPath p path) ps"
    using assms(2,3) by (simp add: matchingPathPattern_def split_on_no_sep path_test)
  then show ?thesis
    using paths_test[OF assms(1), of path] by (auto simp: find_None_iff)
qed

theorem path_patterns_agree_witness:
  "goRegexTest (pathPatternsRegex [''/admin'', ''*.SQL'']) ''/dump/a.sql/x'' = Some True \<and>
   matchingPathPattern [''/admin'', ''*.SQL''] (Some ''/dump/a.sql/x'') = Some ''*.SQL''"
proof -
  have "matchingPathPattern [''/admin'', ''*.SQL''] (Some ''/dump/a.sql/x'') = Some ''*.SQL''" by code_simp
  then show ?thesis
    using path_patterns_agree[of "[''/admin'', ''*.SQL'']" "''/dump/a.sql/x''"] by (simp add: is_eol_def)
qed

text \<open>
  A branch gets previews exactly when none of the excluding patterns globs it and, where there are
  including patterns, one of them does; with no branch known, only where there are no patterns at all. A
  pattern without wildcards is the branch itself.
\<close>

lemma globs_plain: "CHR ''*'' \<notin> set p \<Longrightarrow> CHR ''?'' \<notin> set p \<Longrightarrow> globs False p w \<longleftrightarrow> w = p"
  by (induction p arbitrary: w) (auto simp: same_char_def split: list.splits)

theorem previewBranchAllowed_globs:
  "previewBranchAllowed (Some b) include exclude \<longleftrightarrow>
     (if b = [] then include = [] \<and> exclude = []
      else (\<nexists>p. p \<in> set exclude \<and> globs False p b) \<and> (include = [] \<or> (\<exists>p. p \<in> set include \<and> globs False p b)))"
  by (auto simp: previewBranchAllowed_def matchesTagPattern_globs list_ex_iff)

end
