(* ===== verification/Slug_Theorems.thy ===== *)
theory Slug_Theorems
  imports Path_Patterns
begin

text \<open>
  The slugs of \<open>src/lib/slug.ts\<close>: their shape, their length, and that a free one is found.
\<close>

section \<open>The shape of a slug\<close>

definition no_doubled :: "string \<Rightarrow> bool" where
  "no_doubled s \<longleftrightarrow> successively (\<lambda>a b. \<not> (a = CHR ''-'' \<and> b = CHR ''-'')) s"

definition slug_shape :: "string \<Rightarrow> bool" where
  "slug_shape s \<longleftrightarrow>
     length s \<le> 63 \<and> list_all is_slug_char s \<and> no_doubled s \<and> (s = [] \<or> hd s \<noteq> CHR ''-'')"

lemma no_doubled_append:
  "no_doubled (s @ t) \<longleftrightarrow>
   no_doubled s \<and> no_doubled t \<and> (s = [] \<or> t = [] \<or> last s \<noteq> CHR ''-'' \<or> hd t \<noteq> CHR ''-'')"
  by (auto simp: no_doubled_def successively_append_iff)

lemma no_doubled_none: "CHR ''-'' \<notin> set s \<Longrightarrow> no_doubled s"
  by (induction s rule: induct_list012) (auto simp: no_doubled_def)

lemma slug_shape_prefix: "slug_shape (s @ t) \<Longrightarrow> slug_shape s"
  unfolding slug_shape_def no_doubled_append by (cases "s = []") (auto simp: no_doubled_def)

lemma slug_shape_take: "slug_shape s \<Longrightarrow> slug_shape (take k s)"
  using slug_shape_prefix[of "take k s" "drop k s"] by simp

lemma slug_shape_strip: "slug_shape s \<Longrightarrow> slug_shape (strip_trailing c s)"
  using strip_trailing_append[of c s] slug_shape_prefix by metis

lemma slice0_prefix: "\<exists>t. s = slice0 k s @ t"
  unfolding slice0_def by (metis append_take_drop_id)

lemma slice0_length: "0 \<le> k \<Longrightarrow> int (length (slice0 k s)) \<le> k"
  by (simp add: slice0_def)

lemma slug_shape_slice: "slug_shape s \<Longrightarrow> slug_shape (slice0 k s)"
  using slice0_prefix[of s k] slug_shape_prefix by metis

lemma replace_hyphens_start:
  "s \<noteq> [] \<Longrightarrow> hd (replace_runs (\<lambda>c. c = CHR ''-'') ''-'' s) = hd s \<and> replace_runs (\<lambda>c. c = CHR ''-'') ''-'' s \<noteq> []"
  by (induction s) (auto split: list.splits)

lemma no_doubled_Cons: "no_doubled (c # s) \<longleftrightarrow> no_doubled s \<and> (s = [] \<or> c \<noteq> CHR ''-'' \<or> hd s \<noteq> CHR ''-'')"
  by (auto simp: no_doubled_def successively_Cons)

lemma no_doubled_Nil [simp]: "no_doubled []"
  by (simp add: no_doubled_def)

lemma no_doubled_replace: "no_doubled (replace_runs (\<lambda>c. c = CHR ''-'') ''-'' s)"
proof (induction s)
  case (Cons c s)
  show ?case
  proof (cases s)
    case Nil
    then show ?thesis by (simp add: no_doubled_Cons)
  next
    case s: (Cons d ds)
    define r where "r = replace_runs (\<lambda>c. c = CHR ''-'') ''-'' s"
    have r: "hd r = d" "no_doubled r" using replace_hyphens_start[of s] Cons.IH s by (simp_all add: r_def)
    have "replace_runs (\<lambda>c. c = CHR ''-'') ''-'' (c # s) =
        (if c = CHR ''-'' \<and> d = CHR ''-'' then r else c # r)"
      by (simp add: s r_def)
    then show ?thesis using r by (simp add: no_doubled_Cons)
  qed
qed simp

lemma set_replace_runs: "set (replace_runs P r s) \<subseteq> set r \<union> {c \<in> set s. \<not> P c}"
proof (induction s)
  case (Cons c s)
  note IH = Cons.IH
  show ?case
  proof (cases s)
    case (Cons d ds)
    have "set (replace_runs P r (c # s)) \<subseteq> set r \<union> {x. x = c \<and> \<not> P c} \<union> set (replace_runs P r s)"
      unfolding Cons replace_runs.simps(2)[of P r c] by (cases "P c"; cases "P d") (simp_all, blast+)
    then show ?thesis using IH by auto
  qed simp
qed simp

lemma strip_hyphens_sub: "\<exists>u v. s = u @ strip_hyphens s @ v"
proof -
  have butlast: "\<exists>v. t = butlast t @ v" for t :: string by (cases t rule: rev_cases) auto
  define t where "t = (if s \<noteq> [] \<and> hd s = CHR ''-'' then tl s else s)"
  have "s = (if s \<noteq> [] \<and> hd s = CHR ''-'' then [hd s] else []) @ t" by (cases s) (simp_all add: t_def)
  then obtain u where u: "s = u @ t" by blast
  have strip: "strip_hyphens s = (if t \<noteq> [] \<and> last t = CHR ''-'' then butlast t else t)"
    by (simp add: strip_hyphens_def Let_def t_def)
  have "\<exists>v. t = strip_hyphens s @ v"
    unfolding strip using butlast[of t] by (cases "t \<noteq> [] \<and> last t = CHR ''-''") simp_all
  then obtain v where "t = strip_hyphens s @ v" by blast
  then show ?thesis using u by blast
qed

lemma strip_hyphens_start:
  assumes "no_doubled s" "strip_hyphens s \<noteq> []"
  shows "hd (strip_hyphens s) \<noteq> CHR ''-''"
proof -
  define t where "t = (if s \<noteq> [] \<and> hd s = CHR ''-'' then tl s else s)"
  have t: "t \<noteq> [] \<Longrightarrow> hd t \<noteq> CHR ''-''"
    using assms(1) by (cases s) (auto simp: t_def no_doubled_def successively_Cons)
  have "strip_hyphens s = (if t \<noteq> [] \<and> last t = CHR ''-'' then butlast t else t)"
    by (simp add: strip_hyphens_def Let_def t_def[symmetric])
  with assms(2) t show ?thesis by (cases t) auto
qed

lemma slugify_shape: "slug_shape (slugify v)"
proof -
  define r where "r = replace_runs (\<lambda>c. c = CHR ''-'') ''-'' (replace_runs (\<lambda>c. \<not> is_slug_char c) ''-'' (trim (lower v)))"
  obtain u w where uw: "r = u @ strip_hyphens r @ w" using strip_hyphens_sub by metis
  have hyphen: "set ''-'' \<subseteq> Collect is_slug_char" by (simp add: is_slug_char_def)
  have "set r \<subseteq> Collect is_slug_char"
    using set_replace_runs[of "\<lambda>c. c = CHR ''-''" "''-''" "replace_runs (\<lambda>c. \<not> is_slug_char c) ''-'' (trim (lower v))"]
      set_replace_runs[of "\<lambda>c. \<not> is_slug_char c" "''-''" "trim (lower v)"]
    hyphen unfolding r_def by blast
  then have chars: "list_all is_slug_char (strip_hyphens r)" by (subst (asm) uw) (auto simp: list_all_iff)
  have dbl: "no_doubled r" unfolding r_def by (rule no_doubled_replace)
  then have nd: "no_doubled (strip_hyphens r)" by (subst (asm) uw) (simp add: no_doubled_append)
  have "strip_hyphens r = [] \<or> hd (strip_hyphens r) \<noteq> CHR ''-''" using strip_hyphens_start[OF dbl] by blast
  moreover have "no_doubled (take 63 (strip_hyphens r))"
    using nd no_doubled_append[of "take 63 (strip_hyphens r)" "drop 63 (strip_hyphens r)"] by simp
  moreover have "list_all is_slug_char (take 63 (strip_hyphens r))"
    using chars by (auto simp: list_all_iff dest: in_set_takeD)
  ultimately have "slug_shape (take 63 (strip_hyphens r))" by (auto simp: slug_shape_def)
  then show ?thesis by (simp add: slugify_def r_def)
qed

section \<open>Numbered slugs\<close>

lemma show_nat_slug: "list_all is_slug_char (show_nat n)"
  using show_nat_digits[of n] by (auto simp: list_all_iff is_slug_char_def)

lemma show_nat_no_hyphen [simp]: "CHR ''-'' \<notin> set (show_nat n)"
  by (rule show_nat_no_sep) (simp add: is_digit_def)

lemma hd_show_nat [simp]: "hd (show_nat n) \<noteq> CHR ''-''"
  by (metis hd_in_set show_nat_no_hyphen show_nat_nonempty)

lemma last_show_nat [simp]: "last (show_nat n) \<noteq> CHR ''-''"
  by (metis last_in_set show_nat_no_hyphen show_nat_nonempty)

lemma show_nat_length: "n < 10 ^ k \<Longrightarrow> 0 < k \<Longrightarrow> length (show_nat n) \<le> k"
proof (induction n arbitrary: k rule: show_nat.induct)
  case (1 n)
  show ?case
  proof (cases "n < 10")
    case False
    then obtain j where k: "k = Suc j" "0 < j" using "1.prems" by (cases k; cases "k - 1") auto
    then have "n div 10 < 10 ^ j" using "1.prems"(1) by (simp add: div_less_iff_less_mult mult.commute)
    then show ?thesis using "1.IH"[OF False _ k(2)] k False by (subst show_nat.simps) simp
  qed (use "1.prems" in \<open>subst show_nat.simps, simp\<close>)
qed

lemma join_slug:
  assumes "slug_shape h" "h \<noteq> []" "last h \<noteq> CHR ''-''" "slug_shape t" "t \<noteq> []" "length h + length t \<le> 62"
  shows "slug_shape (h @ ''-'' @ t)"
proof -
  have "no_doubled (h @ ''-'' @ t)"
    using assms unfolding slug_shape_def no_doubled_append by (auto simp: no_doubled_def)
  then show ?thesis using assms by (auto simp: slug_shape_def is_slug_char_def)
qed

lemma digits_shape: "n < 10 ^ 61 \<Longrightarrow> slug_shape (show_nat n)"
  using show_nat_length[of n 61] show_nat_slug[of n] by (auto simp: slug_shape_def no_doubled_none)

lemma suffixedSlug_shape:
  assumes "slug_shape base" "n < 10 ^ 61"
  shows "slug_shape (suffixedSlug base n) \<and> suffixedSlug base n \<noteq> [] \<and> last (suffixedSlug base n) \<noteq> CHR ''-''"
proof -
  let ?cut = "slice0 (62 - int (length (show_nat n))) base"
  define h where "h = strip_trailing (CHR ''-'') ?cut"
  have digits: "length (show_nat n) \<le> 61" using show_nat_length[of n 61] assms(2) by simp
  then have "length h + length (show_nat n) \<le> 62"
    using strip_trailing_length[of "CHR ''-''" ?cut] slice0_length[of "62 - int (length (show_nat n))" base]
    by (simp add: h_def)
  moreover have "slug_shape h" unfolding h_def by (intro slug_shape_strip slug_shape_slice assms(1))
  moreover have "h \<noteq> [] \<Longrightarrow> last h \<noteq> CHR ''-''" unfolding h_def by (rule strip_trailing_last)
  moreover have "suffixedSlug base n = (if h \<noteq> [] then h @ ''-'' @ show_nat n else show_nat n)"
    by (simp add: suffixedSlug_def h_def MAX_SLUG_LENGTH_def Let_def)
  ultimately show ?thesis using join_slug[OF _ _ _ digits_shape[OF assms(2)]] digits_shape[OF assms(2)] by auto
qed

lemma childSlug_shape:
  assumes "slug_shape parent" "parent \<noteq> []" "slug_shape suffix" "suffix \<noteq> []" "length suffix \<le> 61"
  shows "slug_shape (childSlug parent suffix)"
proof -
  let ?cut = "slice0 (62 - int (length suffix)) parent"
  define h where "h = strip_trailing (CHR ''-'') ?cut"
  have cut: "?cut = take (62 - length suffix) parent" using assms(5) by (simp add: slice0_def nat_diff_distrib)
  have "hd parent \<noteq> CHR ''-''" using assms(1,2) by (simp add: slug_shape_def)
  then have "hd ?cut \<noteq> CHR ''-''" "?cut \<noteq> []" using assms(2,5) unfolding cut by auto
  then have "h \<noteq> []" unfolding h_def strip_trailing_def
    by (simp only: rev_is_Nil_conv dropWhile_eq_Nil_conv set_rev) (use hd_in_set in blast)
  moreover have "length h + length suffix \<le> 62"
    using strip_trailing_length[of "CHR ''-''" ?cut] assms(5) unfolding h_def cut by (simp; linarith)
  moreover have "slug_shape h" unfolding h_def by (intro slug_shape_strip slug_shape_slice assms(1))
  moreover have "last h \<noteq> CHR ''-''" using \<open>h \<noteq> []\<close> unfolding h_def by (rule strip_trailing_last)
  moreover have "childSlug parent suffix = h @ ''-'' @ suffix"
    by (simp add: childSlug_def h_def Let_def)
  ultimately show ?thesis using join_slug assms(3,4) by metis
qed

section \<open>A free slug\<close>

text \<open>The digits after the last hyphen give the attempt back.\<close>

lemma suffixedSlug_attempt: "read_nat (rev (takeWhile (\<lambda>c. c \<noteq> CHR ''-'') (rev (suffixedSlug base n)))) = n"
proof -
  have all: "\<forall>c \<in> set (rev (show_nat n)). c \<noteq> CHR ''-''" using show_nat_no_hyphen by fastforce
  have "takeWhile (\<lambda>c. c \<noteq> CHR ''-'') (rev (show_nat n)) = rev (show_nat n)"
    using all by (simp only: takeWhile_eq_all_conv)
  moreover have "takeWhile (\<lambda>c. c \<noteq> CHR ''-'') (rev (show_nat n) @ CHR ''-'' # r) = rev (show_nat n)" for r
    using all takeWhile_append2[of "rev (show_nat n)" "\<lambda>c. c \<noteq> CHR ''-''" "CHR ''-'' # r"] by simp
  ultimately show ?thesis unfolding suffixedSlug_def Let_def by (simp del: takeWhile_eq_all_conv)
qed

lemma inj_suffixedSlug: "inj (suffixedSlug base)"
  by (rule inj_on_inverseI[where g = "\<lambda>s. read_nat (rev (takeWhile (\<lambda>c. c \<noteq> CHR ''-'') (rev s)))"])
    (rule suffixedSlug_attempt)

lemma free_attempt:
  assumes "finite {s. isTaken s}"
  shows "\<exists>k \<ge> n. \<not> isTaken (suffixedSlug base k)"
proof (rule ccontr)
  assume "\<not> ?thesis"
  then have "suffixedSlug base ` {n..} \<subseteq> {s. isTaken s}" by auto
  then have "finite (suffixedSlug base ` {n..})" using assms finite_subset by blast
  then have "finite {n..}" by (rule finite_imageD) (rule inj_on_subset[OF inj_suffixedSlug], simp)
  then show False using infinite_Ici by blast
qed

lemma uniqueLoop_finds:
  assumes "n \<le> k" "\<not> isTaken (suffixedSlug base k)" "\<forall>j. n \<le> j \<and> j < k \<longrightarrow> isTaken (suffixedSlug base j)" "isTaken candidate"
  shows "uniqueLoop base isTaken candidate n = Some (suffixedSlug base k)"
  using assms
proof (induction "k - n" arbitrary: n candidate)
  case 0
  then have "n = k" by simp
  then show ?case using 0 by (subst uniqueLoop.simps, subst uniqueLoop.simps) simp
next
  case (Suc d)
  then have taken: "isTaken (suffixedSlug base n)" by auto
  have "uniqueLoop base isTaken (suffixedSlug base n) (Suc n) = Some (suffixedSlug base k)"
    by (rule Suc.hyps(1)) (use Suc in auto)
  then show ?case using Suc.prems(4) by (subst uniqueLoop.simps) simp
qed

lemma uniqueSlug_cases:
  assumes "finite {s. isTaken s}"
  shows "if isTaken base
    then \<exists>k \<ge> 2. uniqueSlug base isTaken = Some (suffixedSlug base k) \<and> \<not> isTaken (suffixedSlug base k) \<and>
      (\<forall>j. 2 \<le> j \<and> j < k \<longrightarrow> isTaken (suffixedSlug base j))
    else uniqueSlug base isTaken = Some base"
proof (cases "isTaken base")
  case True
  define k where "k = (LEAST k. 2 \<le> k \<and> \<not> isTaken (suffixedSlug base k))"
  have k: "2 \<le> k \<and> \<not> isTaken (suffixedSlug base k)"
    unfolding k_def using free_attempt[OF assms, of 2 base] by (rule LeastI_ex[OF ex_forward]) auto
  moreover have least: "\<forall>j. 2 \<le> j \<and> j < k \<longrightarrow> isTaken (suffixedSlug base j)"
    unfolding k_def using not_less_Least by blast
  ultimately show ?thesis using True uniqueLoop_finds[of 2 k isTaken base base] by (auto simp: uniqueSlug_def)
next
  case False
  then show ?thesis by (simp add: uniqueSlug_def uniqueLoop.simps)
qed

section \<open>Theorems\<close>

text \<open>
  With finitely many slugs taken, the search for a free slug ends: it gives the base itself when that is
  free, and otherwise the first of the numbered slugs, from 2 up, that is free.
\<close>

theorem uniqueSlug_returns_first_free:
  assumes "finite {s. isTaken s}"
  shows "\<exists>s. uniqueSlug base isTaken = Some s \<and> \<not> isTaken s \<and>
    (s = base \<or> isTaken base \<and> (\<exists>k \<ge> 2. s = suffixedSlug base k \<and> (\<forall>j. 2 \<le> j \<and> j < k \<longrightarrow> isTaken (suffixedSlug base j))))"
  using uniqueSlug_cases[OF assms, of base] by (auto split: if_splits)

theorem uniqueSlug_returns_first_free_witness:
  "\<exists>s. uniqueSlug ''api'' (\<lambda>s. s \<in> set [''api'', ''api-2'']) = Some s \<and> s \<notin> set [''api'', ''api-2'']"
proof -
  have "finite {s. s \<in> set [''api'', ''api-2'']}" by simp
  from uniqueSlug_returns_first_free[OF this, of "''api''"] show ?thesis by blast
qed

text \<open>
  Every slug made from a name is at most 63 characters of lower case letters, digits and single hyphens and
  starts with none; so is every numbered one below ten to the sixty-first, which also ends in no hyphen, and
  the slug of a canary.
\<close>

theorem slugs_are_labels:
  assumes "n < 10 ^ 61"
  shows "slug_shape (slugify name) \<and>
    slug_shape (suffixedSlug (slugify name) n) \<and> suffixedSlug (slugify name) n \<noteq> [] \<and>
    last (suffixedSlug (slugify name) n) \<noteq> CHR ''-'' \<and>
    (slugify name \<noteq> [] \<longrightarrow> slug_shape (canarySlug (slugify name)))"
proof -
  have "slug_shape ''canary''" by code_simp
  then show ?thesis
    using slugify_shape[of name] suffixedSlug_shape[OF slugify_shape assms, of name] childSlug_shape[of "slugify name" "''canary''"]
    by (simp add: canarySlug_def)
qed

theorem slugs_are_labels_witness:
  "slug_shape (suffixedSlug (slugify '' My  Api!'') 2) \<and> slug_shape (canarySlug (slugify '' My  Api!'')) \<and>
   suffixedSlug (slugify '' My  Api!'') 2 = ''my-api-2''"
proof -
  have "slugify '' My  Api!'' = ''my-api''" by code_simp
  moreover have "suffixedSlug ''my-api'' 2 = ''my-api-2''" by code_simp
  moreover have "(2 :: nat) < 10 ^ 61" by simp
  ultimately show ?thesis using slugs_are_labels[of 2 "'' My  Api!''"] by simp
qed

text \<open>
  The cut to 63 characters comes after the hyphens are stripped, so a long name can give a slug that ends in
  a hyphen, which no DNS label may.
\<close>

theorem slugify_cut_ends_in_hyphen:
  "last (slugify (replicate 62 (CHR ''a'') @ ''-b'')) = CHR ''-''"
  by code_simp

end
