(* ===== verification/Notifications.thy ===== *)
theory Notifications
  imports Job_Queue
begin

text \<open>
  \<open>src/lib/notification-events.ts\<close>, \<open>src/lib/services/notification-grouping.ts\<close> and the dispatching half of
  \<open>src/lib/services/notification-channel.service.ts\<close>: which events there are, when a channel message is sent
  at once and when it is held and folded with others, and which channels get it.

  An event is its name. \<open>-Infinity\<close> is \<open>None\<close>. The characters above Latin-1 the texts use are their UTF-8
  bytes. The service's state holds the channels in the order \<open>listSubscribed\<close> reads them, the grouper and
  whether the ticker runs; what it sends, shows and queues is logged. Each public operation is one step: its
  awaits are reads that do not change this state. The network is the parameter \<open>deliver\<close>, the lookup of a
  service's stack the parameter \<open>stackNameOf\<close>.
\<close>

section \<open>Events\<close>

record NotificationEventInfo =
  ei_description :: string
  ei_event :: string
  ei_group :: string
  ei_label :: string

abbreviation eventInfo :: "string \<Rightarrow> string \<Rightarrow> string \<Rightarrow> string \<Rightarrow> NotificationEventInfo" where
  "eventInfo description event grp label \<equiv>
     \<lparr>ei_description = description, ei_event = event, ei_group = grp, ei_label = label\<rparr>"

definition NOTIFICATION_EVENTS :: "NotificationEventInfo list" where
  "NOTIFICATION_EVENTS = [
     eventInfo
       ''A service built from a git repository started building. Not sent for scheduled runs.''
       ''build.started'' ''Builds'' ''Build started'',
     eventInfo
       ''A service built from a git repository failed to build or start.''
       ''build.failed'' ''Builds'' ''Build failed'',
     eventInfo
       ''A service built from a git repository was built and is running.''
       ''build.succeeded'' ''Builds'' ''Build succeeded'',
     eventInfo
       ''A git build was stopped before cloning because a required status check failed or never finished.''
       ''build.checks_failed'' ''Builds'' ''Status checks failed'',
     eventInfo
       ''A scheduled redeploy couldn't pull the image or restart the container.''
       ''update.failed'' ''Updates'' ''Update failed'',
     eventInfo
       ''A scheduled redeploy pulled the image and restarted the container.''
       ''update.succeeded'' ''Updates'' ''Update succeeded'',
     eventInfo
       ''A service watching for updates has a newer image, with the outcome of its trial run when trials are on.''
       ''update.available'' ''Updates'' ''Update available'',
     eventInfo
       ''A deploy of an image, a rollback or a preview promote started. Not sent for scheduled runs.''
       ''deploy.started'' ''Deploys'' ''Deploy started'',
     eventInfo
       ''A manual deploy of an image failed.''
       ''deploy.failed'' ''Deploys'' ''Deploy failed'',
     eventInfo
       ''A manual deploy of an image is running.''
       ''deploy.succeeded'' ''Deploys'' ''Deploy succeeded'',
     eventInfo
       ''A new revision exited, restart-looped or failed its healthcheck, and auto-rollback is off.''
       ''deploy.unhealthy'' ''Deploys'' ''Revision unhealthy'',
     eventInfo
       ''A new revision was unhealthy, so the previous healthy revision was redeployed automatically.''
       ''deploy.rolled_back'' ''Deploys'' ''Rolled back'',
     eventInfo
       ''An image scan found at least one CRITICAL vulnerability in a service's image.''
       ''image.vulnerable'' ''Security'' ''Critical vulnerabilities'',
     eventInfo
       ''An uptime probe started failing.''
       ''service.down'' ''Uptime'' ''Service down'',
     eventInfo
       ''A failing uptime probe recovered.''
       ''service.up'' ''Uptime'' ''Service recovered'',
     eventInfo
       ''The server's CPU, memory, disk or GPU crossed its soft threshold.''
       ''resource.warning'' ''Server'' ''Resource warning'',
     eventInfo
       ''The server crossed a hard threshold: new services are refused until it drops back.''
       ''resource.critical'' ''Server'' ''Resource critical'',
     eventInfo
       ''Every resource that crossed a threshold is back under it.''
       ''resource.recovered'' ''Server'' ''Resources recovered'',
     eventInfo
       ''A service with error tracking on reported an error that doesn't match any existing issue.''
       ''error.issue.new'' ''Errors'' ''New error'',
     eventInfo
       ''An error issue marked resolved happened again.''
       ''error.issue.regressed'' ''Errors'' ''Error regressed'',
     eventInfo
       ''A volume backup failed, after its retry. Scheduled ones are grouped into one message per run.''
       ''backup.failed'' ''Scheduled tasks'' ''Backup failed'',
     eventInfo
       ''An SFTP, SMB or WebDAV backup destination is fuller than its alert threshold.''
       ''backup.storage_low'' ''Scheduled tasks'' ''Backup storage low'',
     eventInfo
       ''A volume was backed up to its destination.''
       ''backup.succeeded'' ''Scheduled tasks'' ''Backup succeeded'',
     eventInfo
       ''A cron job exited non-zero, timed out or couldn't start. Scheduled ones are grouped into one message per run.''
       ''cron_job.failed'' ''Scheduled tasks'' ''Cron job failed'',
     eventInfo
       ''A cron job exited 0.''
       ''cron_job.succeeded'' ''Scheduled tasks'' ''Cron job succeeded'',
     eventInfo
       ''An address was banned for requesting services' blocked paths too often.''
       ''security.ip_banned'' ''Security'' ''IP banned'']"

definition DEFAULT_NOTIFICATION_EVENTS :: "string list" where
  "DEFAULT_NOTIFICATION_EVENTS = [''build.failed'', ''build.checks_failed'', ''update.failed'', ''update.available'',
     ''deploy.unhealthy'', ''deploy.rolled_back'', ''resource.warning'', ''resource.critical'', ''error.issue.new'',
     ''error.issue.regressed'', ''backup.failed'', ''backup.storage_low'', ''cron_job.failed'']"

definition DEFAULT_BROWSER_EVENTS :: "string list" where
  "DEFAULT_BROWSER_EVENTS = DEFAULT_NOTIFICATION_EVENTS @ [''build.started'', ''build.succeeded'', ''deploy.failed'']"

definition isNotificationEvent :: "string \<Rightarrow> bool" where
  "isNotificationEvent v \<longleftrightarrow> v \<in> set (map ei_event NOTIFICATION_EVENTS)"

definition isFailureEvent :: "string \<Rightarrow> bool" where
  "isFailureEvent event \<longleftrightarrow>
     ends_with ''.failed'' event \<or> event = ''service.down'' \<or> event = ''build.checks_failed'' \<or>
     event = ''deploy.unhealthy'' \<or> event = ''deploy.rolled_back'' \<or> event = ''image.vulnerable'' \<or>
     event = ''resource.warning'' \<or> event = ''resource.critical'' \<or> event = ''security.ip_banned'' \<or>
     event = ''backup.storage_low'' \<or> starts_with ''error.issue.'' event"

definition deployEvent :: "string \<Rightarrow> string \<Rightarrow> bool \<Rightarrow> string" where
  "deployEvent buildSource trigger ok =
     (let outcome = (if ok then ''succeeded'' else ''failed'')
      in if buildSource = ''git'' \<and> trigger \<noteq> ''promote'' then ''build.'' @ outcome
         else if trigger = ''cron'' then ''update.'' @ outcome else ''deploy.'' @ outcome)"

definition deployStartedEvent :: "string \<Rightarrow> string \<Rightarrow> bool \<Rightarrow> string" where
  "deployStartedEvent buildSource trigger rollback =
     (if buildSource = ''git'' \<and> trigger \<noteq> ''promote'' \<and> \<not> rollback then ''build.started'' else ''deploy.started'')"

definition DEPLOY_TITLES :: "string js_map" where
  "DEPLOY_TITLES = [
     (''build.started'', ''is building''), (''deploy.started'', ''is deploying''),
     (''build.failed'', ''failed to build''), (''build.succeeded'', ''was built and deployed''),
     (''deploy.failed'', ''failed to deploy''), (''deploy.succeeded'', ''deployed successfully''),
     (''update.failed'', ''failed to update''), (''update.succeeded'', ''was updated'')]"

definition deployTitle :: "string \<Rightarrow> string \<Rightarrow> string" where
  "deployTitle event serviceName =
     serviceName @ '' '' @ (case map_of DEPLOY_TITLES event of Some title \<Rightarrow> title | None \<Rightarrow> event)"

section \<open>Messages\<close>

record MessageField =
  mf_inline :: "bool option"
  mf_name :: string
  mf_value :: string

record ChannelMessage =
  cm_detail :: "string option"
  cm_event :: string
  cm_fields :: "MessageField list"
  cm_link :: "string option"
  cm_serviceId :: "string option"
  cm_serviceName :: "string option"
  cm_timestamp :: string
  cm_title :: string

record NewNotificationInput =
  nn_detail :: "string option"
  nn_message :: string
  nn_serviceId :: "string option"
  nn_type :: string

text \<open>A single right-pointing angle quotation mark and a bullet.\<close>

definition angleQuote :: string where
  "angleQuote = [CHR 0xE2, CHR 0x80, CHR 0xBA]"

definition bullet :: string where
  "bullet = [CHR 0xE2, CHR 0x80, CHR 0xA2]"

text \<open>An empty string counts as missing, as \<open>!s\<close> and \<open>s || null\<close> read it.\<close>

definition hasText :: "string option \<Rightarrow> bool" where
  "hasText s = (case s of Some t \<Rightarrow> t \<noteq> [] | None \<Rightarrow> False)"

definition withStackTitle :: "ChannelMessage \<Rightarrow> string option \<Rightarrow> ChannelMessage" where
  "withStackTitle message stackName =
     (case stackName of
        None \<Rightarrow> message
      | Some n \<Rightarrow>
          if n = [] \<or> starts_with (n @ '' '' @ angleQuote @ '' '') (cm_title message) then message
          else message\<lparr>cm_title := n @ '' '' @ angleQuote @ '' '' @ cm_title message\<rparr>)"

definition dashboardLink :: "string option \<Rightarrow> string \<Rightarrow> string option" where
  "dashboardLink origin path =
     (case origin of
        None \<Rightarrow> None
      | Some url \<Rightarrow> if url = [] then None else Some ((if last url = CHR ''/'' then butlast url else url) @ path))"

section \<open>The grouper\<close>

definition GROUP_WINDOW_MS :: int where
  "GROUP_WINDOW_MS = 60000"

definition BURST_MAX_HOLD_MS :: int where
  "BURST_MAX_HOLD_MS = 5 * 60000"

definition SCHEDULED_MAX_HOLD_MS :: int where
  "SCHEDULED_MAX_HOLD_MS = 60 * 60000"

definition MAX_GROUP_ITEMS :: nat where
  "MAX_GROUP_ITEMS = 15"

definition DETAIL_TAIL_LINES :: nat where
  "DETAIL_TAIL_LINES = 10"

record Lane =
  ln_firstAt :: timestamp
  ln_lastAt :: "timestamp option"
  ln_messages :: "ChannelMessage list"

record MessageGroup =
  mg_messages :: "ChannelMessage list"
  mg_scheduled :: bool

definition emptyLane :: Lane where
  "emptyLane = \<lparr>ln_firstAt = 0, ln_lastAt = None, ln_messages = []\<rparr>"

record NotificationGrouper =
  ng_burst :: Lane
  ng_scheduled :: Lane

definition newGrouper :: NotificationGrouper where
  "newGrouper = \<lparr>ng_burst = emptyLane, ng_scheduled = emptyLane\<rparr>"

definition pending :: "NotificationGrouper \<Rightarrow> bool" where
  "pending g \<longleftrightarrow> length (ln_messages (ng_burst g)) > 0 \<or> length (ln_messages (ng_scheduled g)) > 0"

definition holdsScheduled :: "NotificationGrouper \<Rightarrow> bool" where
  "holdsScheduled g \<longleftrightarrow> length (ln_messages (ng_scheduled g)) > 0"

text \<open>\<open>now - lane.lastAt >= window\<close>, true for \<open>-Infinity\<close>.\<close>

definition sinceLast :: "timestamp \<Rightarrow> Lane \<Rightarrow> int \<Rightarrow> bool" where
  "sinceLast now lane window = (case ln_lastAt lane of None \<Rightarrow> True | Some t \<Rightarrow> now - t \<ge> window)"

definition laneAdd :: "ChannelMessage \<Rightarrow> bool \<Rightarrow> timestamp \<Rightarrow> Lane \<Rightarrow> ChannelMessage option \<times> Lane" where
  "laneAdd message scheduled now lane =
     (let quiet = sinceLast now lane GROUP_WINDOW_MS; lane = lane\<lparr>ln_lastAt := Some now\<rparr>
      in if \<not> scheduled \<and> quiet \<and> length (ln_messages lane) = 0 then (Some message, lane)
         else (let lane = (if length (ln_messages lane) = 0 then lane\<lparr>ln_firstAt := now\<rparr> else lane)
               in (None, lane\<lparr>ln_messages := ln_messages lane @ [message]\<rparr>)))"

definition groupAdd ::
  "ChannelMessage \<Rightarrow> bool \<Rightarrow> timestamp \<Rightarrow> NotificationGrouper \<Rightarrow> ChannelMessage option \<times> NotificationGrouper" where
  "groupAdd message scheduled now g =
     (if scheduled
      then (let (r, lane) = laneAdd message scheduled now (ng_scheduled g) in (r, g\<lparr>ng_scheduled := lane\<rparr>))
      else (let (r, lane) = laneAdd message scheduled now (ng_burst g) in (r, g\<lparr>ng_burst := lane\<rparr>)))"

definition burstDue :: "timestamp \<Rightarrow> Lane \<Rightarrow> bool" where
  "burstDue now lane \<longleftrightarrow>
     length (ln_messages lane) > 0 \<and>
     (sinceLast now lane GROUP_WINDOW_MS \<or> now - ln_firstAt lane \<ge> BURST_MAX_HOLD_MS)"

definition scheduledDue :: "timestamp \<Rightarrow> bool \<Rightarrow> Lane \<Rightarrow> bool" where
  "scheduledDue now scheduledActive lane \<longleftrightarrow>
     length (ln_messages lane) > 0 \<and>
     ((sinceLast now lane GROUP_WINDOW_MS \<and> \<not> scheduledActive) \<or> now - ln_firstAt lane \<ge> SCHEDULED_MAX_HOLD_MS)"

definition due :: "timestamp \<Rightarrow> bool \<Rightarrow> NotificationGrouper \<Rightarrow> MessageGroup list \<times> NotificationGrouper" where
  "due now scheduledActive g =
     (let (groups, g) =
            (if burstDue now (ng_burst g)
             then ([\<lparr>mg_messages = ln_messages (ng_burst g), mg_scheduled = False\<rparr>],
                   g\<lparr>ng_burst := (ng_burst g)\<lparr>ln_messages := []\<rparr>\<rparr>)
             else ([], g))
      in if scheduledDue now scheduledActive (ng_scheduled g)
         then (groups @ [\<lparr>mg_messages = ln_messages (ng_scheduled g), mg_scheduled = True\<rparr>],
               g\<lparr>ng_scheduled := (ng_scheduled g)\<lparr>ln_messages := []\<rparr>\<rparr>)
         else (groups, g))"

definition clear :: "NotificationGrouper \<Rightarrow> NotificationGrouper" where
  "clear g = g\<lparr>ng_burst := emptyLane, ng_scheduled := emptyLane\<rparr>"

section \<open>Folding messages\<close>

definition eventLabel :: "ChannelMessage \<Rightarrow> string" where
  "eventLabel message =
     (case List.find (\<lambda>info. ei_event info = cm_event message) NOTIFICATION_EVENTS of
        Some info \<Rightarrow> ei_label info | None \<Rightarrow> cm_event message)"

definition detailTail :: "string \<Rightarrow> string" where
  "detailTail detail =
     (let ls = split_on (CHR 10) detail in join [CHR 10] (drop (length ls - DETAIL_TAIL_LINES) ls))"

text \<open>\<open>Map.groupBy\<close>: the keys in the order they first occur.\<close>

definition groupBy :: "('a \<Rightarrow> 'k) \<Rightarrow> 'a list \<Rightarrow> ('k \<times> 'a list) list" where
  "groupBy key xs = map (\<lambda>k. (k, filter (\<lambda>x. key x = k) xs)) (js_unique (map key xs))"

definition summaryField :: "string \<Rightarrow> ChannelMessage list \<Rightarrow> MessageField" where
  "summaryField label grp =
     (let ls = map (\<lambda>m. bullet @ '' '' @ cm_title m) (take MAX_GROUP_ITEMS grp);
          ls = (if length grp > MAX_GROUP_ITEMS
                then ls @ [bullet @ '' and '' @ show_nat (length grp - MAX_GROUP_ITEMS) @ '' more''] else ls)
      in \<lparr>mf_inline = Some False, mf_name = label @ '' ('' @ show_nat (length grp) @ '')'', mf_value = join [CHR 10] ls\<rparr>)"

definition summaryGroups :: "ChannelMessage list \<Rightarrow> (string \<times> ChannelMessage list) list" where
  "summaryGroups messages =
     sort_key (\<lambda>(_, grp). if isFailureEvent (cm_event (hd grp)) then 0 else 1 :: nat) (groupBy eventLabel messages)"

definition summaryFields :: "ChannelMessage list \<Rightarrow> MessageField list" where
  "summaryFields messages = map (\<lambda>(label, grp). summaryField label grp) (summaryGroups messages)"

text \<open>With no message there is no first one, and reading its event throws.\<close>

definition groupedMessage :: "ChannelMessage list \<Rightarrow> bool \<Rightarrow> ChannelMessage option" where
  "groupedMessage messages scheduled =
     (let failed = filter (\<lambda>m. isFailureEvent (cm_event m)) messages;
          succeeded = length messages - length failed;
          counts = join '', ''
            ((if succeeded > 0 then [show_nat succeeded @ '' ok''] else []) @
             (if length failed > 0 then [show_nat (length failed) @ '' failed''] else []));
          details = join [CHR 10, CHR 10]
            (map (\<lambda>m. if hasText (cm_detail m) then cm_title m @ [CHR 10] @ detailTail (the (cm_detail m)) else cm_title m) failed)
      in if messages = [] then None
         else (let first = (if failed = [] then hd messages else hd failed)
               in Some \<lparr>cm_detail = (if details = [] then None else Some details),
                        cm_event = cm_event first,
                        cm_fields = summaryFields messages,
                        cm_link = cm_link first,
                        cm_serviceId = None,
                        cm_serviceName = None,
                        cm_timestamp = cm_timestamp (last messages),
                        cm_title = (if scheduled then ''Scheduled tasks''
                                    else show_nat (length messages) @ '' notifications'') @ '': '' @ counts\<rparr>))"

definition scheduledNotification :: "ChannelMessage list \<Rightarrow> NewNotificationInput option" where
  "scheduledNotification messages =
     (let ty = (if list_ex (\<lambda>m. isFailureEvent (cm_event m)) messages then ''scheduled_failure'' else ''scheduled_summary'')
      in case messages of
           [only] \<Rightarrow> Some \<lparr>nn_detail = cm_detail only, nn_message = cm_title only, nn_serviceId = cm_serviceId only, nn_type = ty\<rparr>
         | _ \<Rightarrow>
             (case groupedMessage messages True of
                None \<Rightarrow> None
              | Some grouped \<Rightarrow>
                  (let listing = join [CHR 10, CHR 10] (map (\<lambda>f. mf_name f @ [CHR 10] @ mf_value f) (cm_fields grouped))
                   in Some \<lparr>nn_detail = Some (if hasText (cm_detail grouped)
                                              then listing @ [CHR 10, CHR 10] @ the (cm_detail grouped) else listing),
                            nn_message = cm_title grouped, nn_serviceId = None, nn_type = ty\<rparr>)))"

section \<open>Channels\<close>

record NotificationChannel =
  nc_enabled :: bool
  nc_events :: "string list"
  nc_groupMessages :: bool
  nc_id :: string
  nc_lastError :: "string option"
  nc_name :: string
  nc_userId :: string

datatype delivery = Delivered | Gone string | Undelivered string

record service_state =
  ss_channels :: "NotificationChannel list"
  ss_grouper :: NotificationGrouper
  ss_ticker :: bool
  ss_sent :: "(string \<times> ChannelMessage) list"
  ss_inApp :: "NewNotificationInput list"
  ss_queued :: "NewJobInput list"

type_synonym network = "NotificationChannel \<Rightarrow> ChannelMessage \<Rightarrow> delivery"

definition listSubscribed :: "string \<Rightarrow> NotificationChannel list \<Rightarrow> NotificationChannel list" where
  "listSubscribed event rows = filter (\<lambda>row. event \<in> set (nc_events row)) (filter nc_enabled rows)"

definition getForDelivery :: "string \<Rightarrow> NotificationChannel list \<Rightarrow> NotificationChannel option" where
  "getForDelivery i rows = List.find (\<lambda>row. nc_id row = i) rows"

definition setLastError :: "string \<Rightarrow> string option \<Rightarrow> NotificationChannel list \<Rightarrow> NotificationChannel list" where
  "setLastError i err rows = map (\<lambda>row. if nc_id row = i then row\<lparr>nc_lastError := err\<rparr> else row) rows"

text \<open>A push subscription that is gone disables its channel.\<close>

definition setGone :: "string \<Rightarrow> string \<Rightarrow> NotificationChannel list \<Rightarrow> NotificationChannel list" where
  "setGone i reason rows =
     map (\<lambda>row. if nc_id row = i then row\<lparr>nc_enabled := False, nc_lastError := Some reason\<rparr> else row) rows"

definition fieldJson :: "MessageField \<Rightarrow> json" where
  "fieldJson f = JObj ((case mf_inline f of None \<Rightarrow> [] | Some b \<Rightarrow> [(''inline'', JBool b)]) @
     [(''name'', JStr (mf_name f)), (''value'', JStr (mf_value f))])"

definition messageJson :: "ChannelMessage \<Rightarrow> json" where
  "messageJson m =
     (let nullable = (\<lambda>s. case s of None \<Rightarrow> JNull | Some t \<Rightarrow> JStr t)
      in JObj [(''detail'', nullable (cm_detail m)), (''event'', JStr (cm_event m)),
           (''fields'', JArr (map fieldJson (cm_fields m))), (''link'', nullable (cm_link m)),
           (''serviceId'', nullable (cm_serviceId m)), (''serviceName'', nullable (cm_serviceName m)),
           (''timestamp'', JStr (cm_timestamp m)), (''title'', JStr (cm_title m))])"

definition DELIVERY_RETRY_ATTEMPTS :: int where
  "DELIVERY_RETRY_ATTEMPTS = 4"

definition DELIVERY_RETRY_DELAY_MS :: int where
  "DELIVERY_RETRY_DELAY_MS = 30000"

definition deliveryRetryJob :: "NotificationChannel \<Rightarrow> ChannelMessage \<Rightarrow> timestamp \<Rightarrow> NewJobInput" where
  "deliveryRetryJob channel message now =
     \<lparr>in_dedupeKey = None, in_dependsOnJobId = None, in_exclusive = None, in_lockKey = None,
      in_maxAttempts = Some DELIVERY_RETRY_ATTEMPTS,
      in_payload = [(''channelId'', JStr (nc_id channel)), (''message'', messageJson message)],
      in_priority = None, in_runAt = Some (now + DELIVERY_RETRY_DELAY_MS), in_serviceId = None,
      in_title = ''Deliver '' @ [CHR 0x22] @ cm_title message @ [CHR 0x22] @ '' to '' @ nc_name channel,
      in_type = NotificationDelivery, in_userId = nc_userId channel\<rparr>"

definition send :: "network \<Rightarrow> timestamp \<Rightarrow> NotificationChannel \<times> ChannelMessage \<Rightarrow> service_state \<Rightarrow> service_state" where
  "send deliver now to s =
     (case to of (channel, message) \<Rightarrow>
        let s = s\<lparr>ss_sent := ss_sent s @ [(nc_id channel, message)]\<rparr>
        in case deliver channel message of
             Delivered \<Rightarrow> s\<lparr>ss_channels := setLastError (nc_id channel) None (ss_channels s)\<rparr>
           | Gone reason \<Rightarrow> s\<lparr>ss_channels := setGone (nc_id channel) reason (ss_channels s)\<rparr>
           | Undelivered reason \<Rightarrow>
               s\<lparr>ss_channels := setLastError (nc_id channel) (Some reason) (ss_channels s),
                 ss_queued := ss_queued s @ [deliveryRetryJob channel message now]\<rparr>)"

definition stackTitled :: "(string \<Rightarrow> string option) \<Rightarrow> ChannelMessage \<Rightarrow> ChannelMessage" where
  "stackTitled stackNameOf message =
     withStackTitle message (if hasText (cm_serviceId message) then stackNameOf (the (cm_serviceId message)) else None)"

text \<open>The channels of a group: those of all its events, by id, that opted into grouping.\<close>

definition groupChannels :: "MessageGroup \<Rightarrow> NotificationChannel list \<Rightarrow> NotificationChannel list" where
  "groupChannels g rows =
     (let events = js_unique (map cm_event (mg_messages g));
          found = filter nc_groupMessages (concat (map (\<lambda>event. listSubscribed event rows) events))
      in map snd (fold (\<lambda>channel byId. AList.update (nc_id channel) channel byId) found []))"

definition groupDeliveries ::
  "ChannelMessage list \<Rightarrow> bool \<Rightarrow> NotificationChannel list \<Rightarrow> (NotificationChannel \<times> ChannelMessage) list" where
  "groupDeliveries titled scheduled channels =
     List.map_filter (\<lambda>channel.
       case filter (\<lambda>m. cm_event m \<in> set (nc_events channel)) titled of
         [] \<Rightarrow> None
       | [m] \<Rightarrow> Some (channel, m)
       | mine \<Rightarrow> map_option (Pair channel) (groupedMessage mine scheduled)) channels"

definition deliverGroup ::
  "network \<Rightarrow> (string \<Rightarrow> string option) \<Rightarrow> timestamp \<Rightarrow> MessageGroup \<Rightarrow> service_state \<Rightarrow> service_state" where
  "deliverGroup deliver stackNameOf now g s =
     (let channels = groupChannels g (ss_channels s)
      in if channels = [] \<and> \<not> mg_scheduled g then s
         else (let titled = map (stackTitled stackNameOf) (mg_messages g);
                   s = (if mg_scheduled g
                        then (case scheduledNotification titled of
                                Some n \<Rightarrow> s\<lparr>ss_inApp := ss_inApp s @ [n]\<rparr> | None \<Rightarrow> s)
                        else s)
               in fold (send deliver now) (groupDeliveries titled (mg_scheduled g) channels) s))"

definition dispatch ::
  "network \<Rightarrow> (string \<Rightarrow> string option) \<Rightarrow> timestamp \<Rightarrow> ChannelMessage \<Rightarrow> bool \<Rightarrow> service_state \<Rightarrow> service_state" where
  "dispatch deliver stackNameOf now message scheduled s =
     (let channels = listSubscribed (cm_event message) (ss_channels s);
          direct = filter (\<lambda>channel. \<not> nc_groupMessages channel) channels;
          s = (if length direct > 0
               then fold (send deliver now) (map (\<lambda>channel. (channel, stackTitled stackNameOf message)) direct) s else s)
      in if \<not> scheduled \<and> length direct = length channels then s
         else (let (immediate, g) = groupAdd message scheduled now (ss_grouper s); s = s\<lparr>ss_grouper := g\<rparr>
               in case immediate of
                    Some m \<Rightarrow> deliverGroup deliver stackNameOf now \<lparr>mg_messages = [m], mg_scheduled = False\<rparr> s
                  | None \<Rightarrow> s\<lparr>ss_ticker := True\<rparr>))"

definition discardPending :: "service_state \<Rightarrow> service_state" where
  "discardPending s = s\<lparr>ss_grouper := clear (ss_grouper s), ss_ticker := False\<rparr>"

definition flushDue ::
  "network \<Rightarrow> (string \<Rightarrow> string option) \<Rightarrow> timestamp \<Rightarrow> table \<Rightarrow> service_state \<Rightarrow> service_state" where
  "flushDue deliver stackNameOf now jobs s =
     (let scheduledActive = (if holdsScheduled (ss_grouper s) then hasActiveScheduledWork jobs else False);
          (groups, g) = due now scheduledActive (ss_grouper s);
          s = s\<lparr>ss_grouper := g, ss_ticker := ss_ticker s \<and> pending g\<rparr>
      in fold (deliverGroup deliver stackNameOf now) groups s)"

text \<open>A retry of a queued delivery: \<open>Inl\<close> is what it throws, after the channel's row has it.\<close>

definition retryDelivery :: "network \<Rightarrow> string \<Rightarrow> ChannelMessage \<Rightarrow> service_state \<Rightarrow> (string + bool) \<times> service_state" where
  "retryDelivery deliver channelId message s =
     (case getForDelivery channelId (ss_channels s) of
        None \<Rightarrow> (Inr False, s)
      | Some channel \<Rightarrow>
          if \<not> (nc_enabled channel \<and> cm_event message \<in> set (nc_events channel)) then (Inr False, s)
          else (let s = s\<lparr>ss_sent := ss_sent s @ [(nc_id channel, message)]\<rparr>
                in case deliver channel message of
                     Delivered \<Rightarrow> (Inr True, s\<lparr>ss_channels := setLastError (nc_id channel) None (ss_channels s)\<rparr>)
                   | Gone reason \<Rightarrow> (Inl reason, s\<lparr>ss_channels := setGone (nc_id channel) reason (ss_channels s)\<rparr>)
                   | Undelivered reason \<Rightarrow>
                       (Inl reason, s\<lparr>ss_channels := setLastError (nc_id channel) (Some reason) (ss_channels s)\<rparr>)))"

end
