(* ===== verification/Notification_Theorems.thy ===== *)
theory Notification_Theorems
  imports Notifications
begin

text \<open>
  No message given to the grouper is lost, doubled or sent out of turn, none is held past its bound, and a
  dispatched message reaches the channels it is for.
\<close>

section \<open>Runs of the grouper\<close>

datatype group_op = OpAdd ChannelMessage bool timestamp | OpDue timestamp bool

fun opTime :: "group_op \<Rightarrow> timestamp" where
  "opTime (OpAdd _ _ t) = t"
| "opTime (OpDue t _) = t"

text \<open>What a step sends, each message with the lane it came through.\<close>

fun groupStep :: "group_op \<Rightarrow> NotificationGrouper \<Rightarrow> (bool \<times> ChannelMessage) list \<times> NotificationGrouper" where
  "groupStep (OpAdd m scheduled now) g =
     (case groupAdd m scheduled now g of (r, g') \<Rightarrow> (case r of Some m' \<Rightarrow> [(scheduled, m')] | None \<Rightarrow> [], g'))"
| "groupStep (OpDue now active) g =
     (case due now active g of (groups, g') \<Rightarrow>
        (concat (map (\<lambda>grp. map (Pair (mg_scheduled grp)) (mg_messages grp)) groups), g'))"

definition groupRun :: "group_op list \<Rightarrow> (bool \<times> ChannelMessage) list \<times> NotificationGrouper" where
  "groupRun ops =
     foldl (\<lambda>(sent, g) op. case groupStep op g of (out, g') \<Rightarrow> (sent @ out, g')) ([], newGrouper) ops"

definition lane :: "bool \<Rightarrow> NotificationGrouper \<Rightarrow> Lane" where
  "lane b g = (if b then ng_scheduled g else ng_burst g)"

definition sentVia :: "bool \<Rightarrow> (bool \<times> ChannelMessage) list \<Rightarrow> ChannelMessage list" where
  "sentVia b sent = map snd (filter (\<lambda>x. fst x = b) sent)"

definition addedVia :: "bool \<Rightarrow> group_op list \<Rightarrow> (timestamp \<times> ChannelMessage) list" where
  "addedVia b ops = concat (map (\<lambda>op. case op of OpAdd m c t \<Rightarrow> if c = b then [(t, m)] else [] | _ \<Rightarrow> []) ops)"

definition maxHold :: "bool \<Rightarrow> int" where
  "maxHold b = (if b then SCHEDULED_MAX_HOLD_MS else BURST_MAX_HOLD_MS)"

lemma groupRun_snoc:
  "groupRun (ops @ [op]) = (case groupRun ops of (sent, g) \<Rightarrow> case groupStep op g of (out, g') \<Rightarrow> (sent @ out, g'))"
  by (simp add: groupRun_def split: prod.splits)

lemma sentVia_append [simp]: "sentVia b (s @ t) = sentVia b s @ sentVia b t"
  by (simp add: sentVia_def)

lemma sentVia_Pair [simp]: "sentVia b (map (Pair c) ms) = (if b = c then ms else [])"
  by (auto simp: sentVia_def filter_map o_def)

lemma sentVia_simps [simp]: "sentVia b [] = []" "sentVia b [(c, m)] = (if b = c then [m] else [])"
  by (auto simp: sentVia_def)

lemma addedVia_snoc:
  "addedVia b (ops @ [op]) = addedVia b ops @ (case op of OpAdd m c t \<Rightarrow> if c = b then [(t, m)] else [] | _ \<Rightarrow> [])"
  by (simp add: addedVia_def)

text \<open>A step keeps each lane's messages in order.\<close>

lemma groupStep_keeps:
  assumes "groupStep op g = (out, g')"
  shows "sentVia b out @ ln_messages (lane b g') =
    ln_messages (lane b g) @ map snd (case op of OpAdd m c t \<Rightarrow> if c = b then [(t, m)] else [] | _ \<Rightarrow> [])"
proof (cases op)
  case (OpAdd m c t)
  then show ?thesis
    using assms by (auto simp: groupAdd_def laneAdd_def lane_def Let_def split: if_splits prod.splits)
next
  case (OpDue t act)
  then show ?thesis
    using assms by (auto simp: due_def lane_def Let_def split: if_splits prod.splits)
qed

lemma groupRun_keeps:
  "case groupRun ops of (sent, g) \<Rightarrow> sentVia b sent @ ln_messages (lane b g) = map snd (addedVia b ops)"
proof (induction ops rule: rev_induct)
  case Nil
  show ?case by (simp add: groupRun_def newGrouper_def emptyLane_def lane_def addedVia_def)
next
  case (snoc op ops)
  obtain sent g where r: "groupRun ops = (sent, g)" by force
  obtain out g' where s: "groupStep op g = (out, g')" by force
  show ?case using snoc.IH groupStep_keeps[OF s, of b] by (simp add: r s groupRun_snoc addedVia_snoc)
qed

text \<open>What a lane holds is the end of what came in, none of it before the lane's first time.\<close>

definition laneOk :: "(timestamp \<times> ChannelMessage) list \<Rightarrow> Lane \<Rightarrow> bool" where
  "laneOk added l \<longleftrightarrow>
     (\<exists>earlier recent. added = earlier @ recent \<and> ln_messages l = map snd recent \<and> (\<forall>(t, m) \<in> set recent. ln_firstAt l \<le> t))"

lemma laneOk_empty: "ln_messages l = [] \<Longrightarrow> laneOk added l"
  unfolding laneOk_def by (intro exI[of _ added] exI[of _ "[]"]) simp

lemma laneOk_add:
  assumes "laneOk added l" "\<forall>(t, m) \<in> set added. t \<le> now"
  shows "laneOk (added @ [(now, m)]) (snd (laneAdd m scheduled now l))"
proof (cases "ln_messages l = []")
  case True
  show ?thesis
  proof (cases "\<not> scheduled \<and> sinceLast now l GROUP_WINDOW_MS")
    case sent: True
    show ?thesis by (rule laneOk_empty) (use True sent in \<open>simp add: laneAdd_def Let_def\<close>)
  next
    case False
    then have "ln_messages (snd (laneAdd m scheduled now l)) = [m]" "ln_firstAt (snd (laneAdd m scheduled now l)) = now"
      using True by (auto simp: laneAdd_def Let_def)
    then show ?thesis unfolding laneOk_def by (intro exI[of _ added] exI[of _ "[(now, m)]"]) simp
  qed
next
  case False
  from assms(1) obtain earlier recent where e: "added = earlier @ recent" "ln_messages l = map snd recent"
    "\<forall>(t, m) \<in> set recent. ln_firstAt l \<le> t" by (auto simp: laneOk_def)
  then obtain t m' where "(t, m') \<in> set recent" using False by (cases recent) auto
  then have "ln_firstAt l \<le> t" "t \<le> now" using e(1,3) assms(2) by auto
  then have "ln_firstAt l \<le> now" by simp
  moreover have "ln_messages (snd (laneAdd m scheduled now l)) = ln_messages l @ [m]"
    "ln_firstAt (snd (laneAdd m scheduled now l)) = ln_firstAt l"
    using False by (auto simp: laneAdd_def Let_def)
  ultimately show ?thesis unfolding laneOk_def
    by (intro exI[of _ earlier] exI[of _ "recent @ [(now, m)]"]) (use e in auto)
qed

lemma addedVia_times: "(t, m) \<in> set (addedVia b ops) \<Longrightarrow> t \<in> set (map opTime ops)"
  by (induction ops) (auto simp: addedVia_def split: group_op.splits if_splits)

lemma sorted_snoc_le: "sorted (xs @ [x]) \<Longrightarrow> y \<in> set xs \<Longrightarrow> y \<le> x"
  by (auto simp: sorted_append)

lemma groupRun_lanes: "sorted (map opTime ops) \<Longrightarrow> laneOk (addedVia b ops) (lane b (snd (groupRun ops)))"
proof (induction ops rule: rev_induct)
  case Nil
  show ?case by (rule laneOk_empty) (simp add: groupRun_def newGrouper_def emptyLane_def lane_def)
next
  case (snoc op ops)
  obtain sent g where r: "groupRun ops = (sent, g)" by force
  have ok: "laneOk (addedVia b ops) (lane b g)" using snoc by (auto simp: r sorted_append)
  have times: "\<forall>(t, m) \<in> set (addedVia b ops). t \<le> opTime op"
    using snoc.prems addedVia_times[of _ _ b ops] sorted_snoc_le[of "map opTime ops" "opTime op"] by auto
  show ?case
  proof (cases op)
    case (OpAdd m c t)
    then have "lane b (snd (groupRun (ops @ [op]))) = (if c = b then snd (laneAdd m c t (lane b g)) else lane b g)"
      by (auto simp: groupRun_snoc r groupAdd_def lane_def Let_def split: prod.splits)
    then show ?thesis using ok laneOk_add[OF ok, of t m c] times OpAdd by (cases "c = b") (simp_all add: addedVia_snoc)
  next
    case (OpDue t act)
    then have "lane b (snd (groupRun (ops @ [op]))) = lane b g \<or> ln_messages (lane b (snd (groupRun (ops @ [op])))) = []"
      by (auto simp: groupRun_snoc r due_def lane_def Let_def split: prod.splits if_splits)
    then show ?thesis using ok laneOk_empty OpDue by (auto simp: addedVia_snoc)
  qed
qed

lemma due_leaves_recent:
  assumes "due now active g = (groups, g')" "ln_messages (lane b g') \<noteq> []"
  shows "now - ln_firstAt (lane b g') < maxHold b \<and>
    (b \<and> active \<or> (\<exists>t. ln_lastAt (lane b g') = Some t \<and> now - t < GROUP_WINDOW_MS))"
  using assms
  by (auto simp: due_def lane_def maxHold_def burstDue_def scheduledDue_def sinceLast_def Let_def not_le
      split: if_splits prod.splits option.splits)

section \<open>Theorems on grouping\<close>

text \<open>
  C23. Whatever is added and whenever the due groups are taken, each lane's messages leave in the order they came:
  what was sent through a lane followed by what it still holds is what was added to it, so no message is
  lost, none is sent twice and none overtakes another of its lane.
\<close>

theorem grouper_conserves:
  "case groupRun ops of (sent, g) \<Rightarrow>
     sentVia False sent @ ln_messages (ng_burst g) = map snd (addedVia False ops) \<and>
     sentVia True sent @ ln_messages (ng_scheduled g) = map snd (addedVia True ops)"
  using groupRun_keeps[of False ops] groupRun_keeps[of True ops] by (simp add: lane_def split: prod.splits)

text \<open>
  C24. With a clock that does not run backwards, once the due groups are taken at \<open>now\<close> the messages still held
  are the latest ones added, each added less than five minutes ago, an hour for scheduled outcomes.
\<close>

theorem grouper_holds_briefly:
  assumes "sorted (map opTime (ops @ [OpDue now active]))" "groupRun (ops @ [OpDue now active]) = (sent, g)"
  shows "\<exists>earlier recent. addedVia b ops = earlier @ recent \<and> ln_messages (lane b g) = map snd recent \<and>
    (\<forall>(t, m) \<in> set recent. now - t < maxHold b)"
proof (cases "ln_messages (lane b g) = []")
  case True
  then show ?thesis by (intro exI[of _ "addedVia b ops"] exI[of _ "[]"]) simp
next
  case False
  obtain sent0 g0 where r: "groupRun ops = (sent0, g0)" by force
  then obtain groups where d: "due now active g0 = (groups, g)"
    using assms(2) by (auto simp: groupRun_snoc split: prod.splits)
  have "laneOk (addedVia b ops) (lane b g)"
    using groupRun_lanes[OF assms(1), of b] assms(2) by (simp add: addedVia_snoc)
  then obtain earlier recent where "addedVia b ops = earlier @ recent" "ln_messages (lane b g) = map snd recent"
    "\<forall>(t, m) \<in> set recent. ln_firstAt (lane b g) \<le> t"
    by (auto simp: laneOk_def)
  moreover have "now - ln_firstAt (lane b g) < maxHold b" using due_leaves_recent[OF d False] by simp
  ultimately show ?thesis by (intro exI[of _ earlier] exI[of _ recent]) fastforce
qed

definition sampleMessage :: "string \<Rightarrow> string \<Rightarrow> ChannelMessage" where
  "sampleMessage event title =
     \<lparr>cm_detail = None, cm_event = event, cm_fields = [], cm_link = None, cm_serviceId = None, cm_serviceName = None,
      cm_timestamp = ''t'', cm_title = title\<rparr>"

theorem grouper_holds_briefly_witness:
  "\<exists>earlier recent. addedVia False [OpAdd (sampleMessage ''build.failed'' ''a'') False 0, OpAdd (sampleMessage ''build.failed'' ''b'') False 10] =
     earlier @ recent \<and> [sampleMessage ''build.failed'' ''b''] = map snd recent \<and> (\<forall>(t, m) \<in> set recent. 20 - t < maxHold False)"
proof -
  let ?ops = "[OpAdd (sampleMessage ''build.failed'' ''a'') False 0, OpAdd (sampleMessage ''build.failed'' ''b'') False 10]"
  obtain sent g where r: "groupRun (?ops @ [OpDue 20 False]) = (sent, g)" by force
  have "ln_messages (lane False (snd (groupRun (?ops @ [OpDue 20 False])))) = [sampleMessage ''build.failed'' ''b'']" by code_simp
  then have "ln_messages (lane False g) = [sampleMessage ''build.failed'' ''b'']" by (simp only: r snd_conv)
  then show ?thesis using grouper_holds_briefly[OF _ r, of False] by simp
qed

section \<open>Reaching the channels\<close>

lemma sent_send [simp]: "ss_sent (send deliver now to s) = ss_sent s @ [(nc_id (fst to), snd to)]"
  by (cases to) (simp add: send_def Let_def split: delivery.splits)

lemma sent_fold: "ss_sent (fold (send deliver now) ds s) = ss_sent s @ map (\<lambda>(c, m). (nc_id c, m)) ds"
  by (induction ds arbitrary: s) auto

lemma grouper_send [simp]: "ss_grouper (send deliver now to s) = ss_grouper s"
  by (cases to) (simp add: send_def Let_def split: delivery.splits)

lemma grouper_fold [simp]: "ss_grouper (fold (send deliver now) ds s) = ss_grouper s"
  by (induction ds arbitrary: s) auto

text \<open>Sending only touches the rows of the channels sent to.\<close>

lemma channels_send:
  "\<exists>f. ss_channels (send deliver now to s) =
       map (\<lambda>row. if nc_id row = nc_id (fst to) then f row else row) (ss_channels s) \<and>
     (\<forall>row. nc_id (f row) = nc_id row \<and> nc_groupMessages (f row) = nc_groupMessages row)"
proof (cases "deliver (fst to) (snd to)")
  case Delivered
  then show ?thesis
    by (cases to) (auto simp: send_def setLastError_def Let_def intro!: exI[of _ "\<lambda>row. row\<lparr>nc_lastError := None\<rparr>"])
next
  case (Gone reason)
  then show ?thesis
    by (cases to) (auto simp: send_def setGone_def Let_def
        intro!: exI[of _ "\<lambda>row. row\<lparr>nc_enabled := False, nc_lastError := Some reason\<rparr>"])
next
  case (Undelivered reason)
  then show ?thesis
    by (cases to) (auto simp: send_def setLastError_def Let_def intro!: exI[of _ "\<lambda>row. row\<lparr>nc_lastError := Some reason\<rparr>"])
qed

lemma filter_group_send:
  assumes "\<forall>row \<in> set (ss_channels s). nc_id row = nc_id (fst to) \<longrightarrow> \<not> nc_groupMessages row"
  shows "filter nc_groupMessages (ss_channels (send deliver now to s)) = filter nc_groupMessages (ss_channels s)"
    and "map (\<lambda>row. (nc_id row, nc_groupMessages row)) (ss_channels (send deliver now to s)) =
      map (\<lambda>row. (nc_id row, nc_groupMessages row)) (ss_channels s)"
proof -
  obtain f where f: "ss_channels (send deliver now to s) =
       map (\<lambda>row. if nc_id row = nc_id (fst to) then f row else row) (ss_channels s)"
    "\<And>row. nc_id (f row) = nc_id row" "\<And>row. nc_groupMessages (f row) = nc_groupMessages row"
    using channels_send[of deliver now to s] by blast
  show "map (\<lambda>row. (nc_id row, nc_groupMessages row)) (ss_channels (send deliver now to s)) =
      map (\<lambda>row. (nc_id row, nc_groupMessages row)) (ss_channels s)"
    by (simp add: f)
  have "filter nc_groupMessages (map (\<lambda>row. if nc_id row = nc_id (fst to) then f row else row) rows) = filter nc_groupMessages rows"
    if "\<forall>row \<in> set rows. nc_id row = nc_id (fst to) \<longrightarrow> \<not> nc_groupMessages row" for rows
    using that by (induction rows) (auto simp: f)
  then show "filter nc_groupMessages (ss_channels (send deliver now to s)) = filter nc_groupMessages (ss_channels s)"
    using assms by (simp add: f(1))
qed

definition onlyDirect :: "(NotificationChannel \<times> ChannelMessage) list \<Rightarrow> (string \<times> bool) list \<Rightarrow> bool" where
  "onlyDirect ds rows \<longleftrightarrow> (\<forall>to \<in> set ds. (nc_id (fst to), True) \<notin> set rows)"

lemma filter_group_fold:
  assumes "onlyDirect ds (map (\<lambda>row. (nc_id row, nc_groupMessages row)) (ss_channels s))"
  shows "filter nc_groupMessages (ss_channels (fold (send deliver now) ds s)) = filter nc_groupMessages (ss_channels s)"
  using assms
proof (induction ds arbitrary: s)
  case (Cons to ds)
  have here: "\<forall>row \<in> set (ss_channels s). nc_id row = nc_id (fst to) \<longrightarrow> \<not> nc_groupMessages row"
    using Cons.prems unfolding onlyDirect_def by (metis (mono_tags, lifting) image_eqI list.set_intros(1) list.set_map)
  have "onlyDirect ds (map (\<lambda>row. (nc_id row, nc_groupMessages row)) (ss_channels (send deliver now to s)))"
    unfolding filter_group_send(2)[OF here] using Cons.prems by (simp add: onlyDirect_def)
  then show ?case using Cons.IH filter_group_send(1)[OF here] by simp
qed simp

lemma listSubscribed_group:
  "filter nc_groupMessages (listSubscribed event rows) = listSubscribed event (filter nc_groupMessages rows)"
  by (simp add: listSubscribed_def conj_commute conj_left_commute)

lemma map_of_by_id:
  assumes "inj_on nc_id (set cs)"
  shows "map_of (fold (\<lambda>c byId. AList.update (nc_id c) c byId) cs []) i = Some c \<longleftrightarrow> c \<in> set cs \<and> nc_id c = i"
  using assms
proof (induction cs rule: rev_induct)
  case (snoc d cs)
  then have "d \<in> set cs \<or> d \<notin> set cs \<and> nc_id d \<notin> nc_id ` set cs" by (auto simp: inj_on_def)
  then show ?case using snoc by (auto simp: inj_on_def split: if_splits)
qed simp

lemma distinct_by_id: "distinct (map fst (fold (\<lambda>c byId. AList.update (nc_id c) c byId) cs []))"
  by (induction cs rule: rev_induct) (simp_all add: distinct_update)

lemma groupChannels_set:
  assumes "distinct (map nc_id rows)"
  shows "set (groupChannels g rows) =
      {c \<in> set rows. nc_enabled c \<and> nc_groupMessages c \<and> (\<exists>m \<in> set (mg_messages g). cm_event m \<in> set (nc_events c))} \<and>
    distinct (map nc_id (groupChannels g rows))"
proof -
  define found where "found = filter nc_groupMessages (concat (map (\<lambda>event. listSubscribed event rows) (js_unique (map cm_event (mg_messages g)))))"
  let ?byId = "fold (\<lambda>c byId. AList.update (nc_id c) c byId) found []"
  have found: "set found = {c \<in> set rows. nc_enabled c \<and> nc_groupMessages c \<and> (\<exists>m \<in> set (mg_messages g). cm_event m \<in> set (nc_events c))}"
    by (auto simp: found_def listSubscribed_def)
  have "inj_on nc_id (set found)"
    using assms found by (auto simp: distinct_map intro: inj_on_subset)
  then have members: "(i, c) \<in> set ?byId \<longleftrightarrow> c \<in> set found \<and> nc_id c = i" for i c
    using map_of_by_id[of found i c] map_of_eq_Some_iff[OF distinct_by_id, of found i c] by simp
  define F where "F = ?byId"
  have "nc_id (snd x) = fst x" if "x \<in> set F" for x using that members[folded F_def, of "fst x" "snd x"] by simp
  then have ids: "map nc_id (map snd F) = map fst F" by simp
  have "set (map snd F) = {c. \<exists>i. (i, c) \<in> set F}" by (force simp: image_iff)
  then have "set (map snd F) = set found" using members[folded F_def] by simp
  moreover have "distinct (map nc_id (map snd F))" unfolding ids unfolding F_def by (rule distinct_by_id)
  moreover have "groupChannels g rows = map snd F" by (simp add: groupChannels_def found_def F_def)
  ultimately show ?thesis unfolding found by simp
qed

lemma titled_event [simp]: "cm_event (stackTitled f m) = cm_event m"
  by (simp add: stackTitled_def withStackTitle_def split: option.splits)

lemma single_deliveries:
  assumes "\<forall>c \<in> set channels. cm_event m \<in> set (nc_events c)"
  shows "groupDeliveries [m] scheduled channels = map (\<lambda>c. (c, m)) channels"
  using assms by (induction channels) (simp_all add: groupDeliveries_def List.map_filter_simps)

lemma deliver_one:
  assumes "distinct (map nc_id (filter nc_groupMessages (ss_channels s)))"
  shows "ss_sent (deliverGroup deliver f now \<lparr>mg_messages = [m], mg_scheduled = False\<rparr> s) =
      ss_sent s @ map (\<lambda>c. (nc_id c, stackTitled f m)) (groupChannels \<lparr>mg_messages = [m], mg_scheduled = False\<rparr> (filter nc_groupMessages (ss_channels s)))"
proof -
  let ?g = "\<lparr>mg_messages = [m], mg_scheduled = False\<rparr>"
  have same: "groupChannels ?g (ss_channels s) = groupChannels ?g (filter nc_groupMessages (ss_channels s))"
    by (simp add: groupChannels_def listSubscribed_def js_unique_def conj_ac)
  have "\<forall>c \<in> set (groupChannels ?g (ss_channels s)). cm_event (stackTitled f m) \<in> set (nc_events c)"
    unfolding same using groupChannels_set[OF assms, of ?g] by auto
  then show ?thesis
    unfolding deliverGroup_def Let_def
    by (simp add: single_deliveries sent_fold same o_def split_beta)
qed

section \<open>Theorem on dispatching\<close>

definition isDirect :: "string \<Rightarrow> NotificationChannel \<Rightarrow> bool" where
  "isDirect event c \<longleftrightarrow> nc_enabled c \<and> event \<in> set (nc_events c) \<and> \<not> nc_groupMessages c"

definition isGrouping :: "string \<Rightarrow> NotificationChannel \<Rightarrow> bool" where
  "isGrouping event c \<longleftrightarrow> nc_enabled c \<and> event \<in> set (nc_events c) \<and> nc_groupMessages c"

definition goesAtOnce :: "bool \<Rightarrow> timestamp \<Rightarrow> NotificationGrouper \<Rightarrow> bool" where
  "goesAtOnce scheduled now g \<longleftrightarrow> \<not> scheduled \<and> sinceLast now (ng_burst g) GROUP_WINDOW_MS \<and> ln_messages (ng_burst g) = []"

lemma directs: "filter (\<lambda>c. \<not> nc_groupMessages c) (listSubscribed event rows) = filter (isDirect event) rows"
  by (auto simp: listSubscribed_def isDirect_def intro!: filter_cong)

lemma no_grouping:
  "length (filter (isDirect event) rows) = length (listSubscribed event rows) \<longleftrightarrow> filter (isGrouping event) rows = []"
proof -
  have "length (listSubscribed event rows) = length (filter (isDirect event) rows) + length (filter (isGrouping event) rows)"
    by (induction rows) (auto simp: listSubscribed_def isDirect_def isGrouping_def)
  then show ?thesis by auto
qed

lemma groupAdd_cases:
  "groupAdd m scheduled now g =
     (if goesAtOnce scheduled now g then (Some m, snd (groupAdd m scheduled now g)) else (None, snd (groupAdd m scheduled now g)))"
  "\<not> goesAtOnce scheduled now g \<Longrightarrow>
     ln_messages (lane scheduled (snd (groupAdd m scheduled now g))) = ln_messages (lane scheduled g) @ [m]"
  by (auto simp: groupAdd_def laneAdd_def goesAtOnce_def lane_def Let_def split: prod.splits)

text \<open>The state once the direct channels have it.\<close>

definition afterDirect :: "network \<Rightarrow> (string \<Rightarrow> string option) \<Rightarrow> timestamp \<Rightarrow> ChannelMessage \<Rightarrow> service_state \<Rightarrow> service_state" where
  "afterDirect deliver f now message s =
     fold (send deliver now) (map (\<lambda>c. (c, stackTitled f message)) (filter (isDirect (cm_event message)) (ss_channels s))) s"

lemma dispatch_cases:
  "dispatch deliver f now message scheduled s =
     (let s1 = afterDirect deliver f now message s; s2 = s1\<lparr>ss_grouper := snd (groupAdd message scheduled now (ss_grouper s))\<rparr>
      in if \<not> scheduled \<and> filter (isGrouping (cm_event message)) (ss_channels s) = [] then s1
         else if goesAtOnce scheduled now (ss_grouper s)
         then deliverGroup deliver f now \<lparr>mg_messages = [message], mg_scheduled = False\<rparr> s2
         else s2\<lparr>ss_ticker := True\<rparr>)"
  unfolding dispatch_def directs Let_def no_grouping
  using groupAdd_cases(1)[of message scheduled now "ss_grouper s"]
  by (auto simp: afterDirect_def split: prod.splits option.splits if_splits)

lemma afterDirect_facts:
  assumes "distinct (map nc_id (ss_channels s))"
  shows "ss_sent (afterDirect deliver f now message s) =
      ss_sent s @ map (\<lambda>c. (nc_id c, stackTitled f message)) (filter (isDirect (cm_event message)) (ss_channels s))"
    and "filter nc_groupMessages (ss_channels (afterDirect deliver f now message s)) = filter nc_groupMessages (ss_channels s)"
proof -
  show "ss_sent (afterDirect deliver f now message s) =
      ss_sent s @ map (\<lambda>c. (nc_id c, stackTitled f message)) (filter (isDirect (cm_event message)) (ss_channels s))"
    by (simp add: afterDirect_def sent_fold o_def)
  have "nc_id c = nc_id d \<Longrightarrow> c = d" if "c \<in> set (ss_channels s)" "d \<in> set (ss_channels s)" for c d
    using assms that by (simp add: distinct_map inj_on_def)
  then show "filter nc_groupMessages (ss_channels (afterDirect deliver f now message s)) = filter nc_groupMessages (ss_channels s)"
    unfolding afterDirect_def by (intro filter_group_fold) (fastforce simp: onlyDirect_def isDirect_def)
qed

text \<open>
  A dispatched message reaches every enabled channel subscribed to its event: the ones without grouping at
  once, and the grouping ones at once too when it is not a scheduled outcome, nothing went out for a minute
  and nothing is held. Each of them is sent it exactly once, with the stack in its title, and no other channel
  is sent anything. When a grouping channel or a scheduled run waits for it and it does not go at once, it is
  held and the ticker runs.
\<close>

theorem dispatch_reaches:
  assumes "distinct (map nc_id (ss_channels s))"
  shows "\<exists>sent. ss_sent (dispatch deliver f now message scheduled s) = ss_sent s @ sent \<and> distinct (map fst sent) \<and>
    set sent = {(nc_id c, stackTitled f message) | c. c \<in> set (ss_channels s) \<and>
      (isDirect (cm_event message) c \<or> isGrouping (cm_event message) c \<and> goesAtOnce scheduled now (ss_grouper s))} \<and>
    ((scheduled \<or> (\<exists>c \<in> set (ss_channels s). isGrouping (cm_event message) c)) \<and> \<not> goesAtOnce scheduled now (ss_grouper s) \<longrightarrow>
      ss_ticker (dispatch deliver f now message scheduled s) \<and>
      ln_messages (lane scheduled (ss_grouper (dispatch deliver f now message scheduled s))) =
        ln_messages (lane scheduled (ss_grouper s)) @ [message])"
proof -
  let ?e = "cm_event message" and ?s1 = "afterDirect deliver f now message s" and ?m = "stackTitled f message"
  let ?direct = "map (\<lambda>c. (nc_id c, ?m)) (filter (isDirect ?e) (ss_channels s))"
  let ?G = "groupChannels \<lparr>mg_messages = [message], mg_scheduled = False\<rparr> (filter nc_groupMessages (ss_channels s))"
  have rows: "distinct (map nc_id (filter nc_groupMessages (ss_channels s)))"
    using assms distinct_map_filter by blast
  have G: "set ?G = {c \<in> set (ss_channels s). isGrouping ?e c}" "distinct (map nc_id ?G)"
    using groupChannels_set[OF rows, of "\<lparr>mg_messages = [message], mg_scheduled = False\<rparr>"] by (auto simp: isGrouping_def)
  have inj: "nc_id c = nc_id d \<Longrightarrow> c = d" if "c \<in> set (ss_channels s)" "d \<in> set (ss_channels s)" for c d
    using assms that by (simp add: distinct_map inj_on_def)
  have dd: "distinct (map fst ?direct)" using assms distinct_map_filter by (simp add: o_def) blast
  have dg: "distinct (map fst (?direct @ map (\<lambda>c. (nc_id c, ?m)) ?G))"
    using dd G inj by (auto simp: o_def isDirect_def isGrouping_def) 
  note facts = afterDirect_facts[OF assms, of deliver f now message] dispatch_cases[of deliver f now message scheduled s] Let_def
  show ?thesis
  proof (cases "(scheduled \<or> filter (isGrouping ?e) (ss_channels s) \<noteq> []) \<and> goesAtOnce scheduled now (ss_grouper s)")
    case True
    then show ?thesis
      using deliver_one[of "?s1\<lparr>ss_grouper := snd (groupAdd message scheduled now (ss_grouper s))\<rparr>" deliver f now message] rows dg G(1)
      by (intro exI[of _ "?direct @ map (\<lambda>c. (nc_id c, ?m)) ?G"]) (auto simp: facts)
  next
    case False
    then show ?thesis using dd groupAdd_cases(2)[of scheduled now "ss_grouper s" message]
      by (intro exI[of _ ?direct]) (auto simp: facts filter_empty_conv)
  qed
qed

definition sampleChannel :: "string \<Rightarrow> bool \<Rightarrow> NotificationChannel" where
  "sampleChannel i grouping =
     \<lparr>nc_enabled = True, nc_events = [''build.failed''], nc_groupMessages = grouping, nc_id = i, nc_lastError = None,
      nc_name = i, nc_userId = ''u''\<rparr>"

definition notifyService :: service_state where
  "notifyService =
     \<lparr>ss_channels = [sampleChannel ''direct'' False, sampleChannel ''grouped'' True], ss_grouper = newGrouper,
      ss_ticker = False, ss_sent = [], ss_inApp = [], ss_queued = []\<rparr>"

theorem dispatch_reaches_witness:
  "\<exists>sent. ss_sent (dispatch (\<lambda>_ _. Delivered) (\<lambda>_. None) 0 (sampleMessage ''build.failed'' ''a'') False notifyService) = sent \<and>
    distinct (map fst sent) \<and>
    (''direct'', sampleMessage ''build.failed'' ''a'') \<in> set sent \<and> (''grouped'', sampleMessage ''build.failed'' ''a'') \<in> set sent"
proof -
  have "distinct (map nc_id (ss_channels notifyService))" by code_simp
  then obtain sent where sent:
    "ss_sent (dispatch (\<lambda>_ _. Delivered) (\<lambda>_. None) 0 (sampleMessage ''build.failed'' ''a'') False notifyService) = ss_sent notifyService @ sent"
    "distinct (map fst sent)"
    "set sent = {(nc_id c, stackTitled (\<lambda>_. None) (sampleMessage ''build.failed'' ''a'')) | c. c \<in> set (ss_channels notifyService) \<and>
      (isDirect (cm_event (sampleMessage ''build.failed'' ''a'')) c \<or>
       isGrouping (cm_event (sampleMessage ''build.failed'' ''a'')) c \<and> goesAtOnce False 0 (ss_grouper notifyService))}"
    using dispatch_reaches[of notifyService "\<lambda>_ _. Delivered" "\<lambda>_. None" 0 "sampleMessage ''build.failed'' ''a''" False] by blast
  have once: "goesAtOnce False 0 (ss_grouper notifyService)" by code_simp
  have titled: "stackTitled (\<lambda>_. None) (sampleMessage ''build.failed'' ''a'') = sampleMessage ''build.failed'' ''a''" by code_simp
  have direct: "isDirect (cm_event (sampleMessage ''build.failed'' ''a'')) (sampleChannel ''direct'' False)" by code_simp
  have grouping: "isGrouping (cm_event (sampleMessage ''build.failed'' ''a'')) (sampleChannel ''grouped'' True)" by code_simp
  have rows: "sampleChannel ''direct'' False \<in> set (ss_channels notifyService)" "sampleChannel ''grouped'' True \<in> set (ss_channels notifyService)"
    by (simp_all add: notifyService_def)
  have ids: "nc_id (sampleChannel i b) = i" for i b by (simp add: sampleChannel_def)
  have "(nc_id (sampleChannel ''direct'' False), sampleMessage ''build.failed'' ''a'') \<in> set sent"
    "(nc_id (sampleChannel ''grouped'' True), sampleMessage ''build.failed'' ''a'') \<in> set sent"
    unfolding sent(3) titled using once direct grouping rows by blast+
  then have "(''direct'', sampleMessage ''build.failed'' ''a'') \<in> set sent \<and> (''grouped'', sampleMessage ''build.failed'' ''a'') \<in> set sent"
    unfolding ids by blast
  then show ?thesis using sent(1,2) by (intro exI[of _ sent]) (simp add: notifyService_def)
qed

end
