(* ===== verification/Js_Numbers.thy ===== *)
theory Js_Numbers
  imports Prelude Complex_Main
begin

text \<open>
  JavaScript numbers where the code reads them from text or rounds them: exact rationals instead of doubles.
  \<open>None\<close> is \<open>NaN\<close> or an infinity, which no integer test accepts.
\<close>

definition is_hex :: "char \<Rightarrow> bool" where
  "is_hex c \<longleftrightarrow> is_digit c \<or> (let n = (of_char (lower_char c) :: nat) in 97 \<le> n \<and> n \<le> 102)"

definition hex_val :: "char \<Rightarrow> nat" where
  "hex_val c = (if is_digit c then digit_val c else of_char (lower_char c) - 87)"

text \<open>Digits of a base up to sixteen, read as a number; nothing for any other character or no digit.\<close>

definition read_base :: "nat \<Rightarrow> string \<Rightarrow> nat option" where
  "read_base b s =
     (if s \<noteq> [] \<and> list_all (\<lambda>c. is_hex c \<and> hex_val c < b) s
      then Some (foldl (\<lambda>acc c. acc * b + hex_val c) 0 s) else None)"

definition read_exponent :: "string \<Rightarrow> int option" where
  "read_exponent s =
     (case s of
        [] \<Rightarrow> Some 0
      | e # r \<Rightarrow>
          if e \<noteq> CHR ''e'' \<and> e \<noteq> CHR ''E'' then None
          else (let neg = (r \<noteq> [] \<and> hd r = CHR ''-''); ds = (if r \<noteq> [] \<and> hd r \<in> set ''+-'' then tl r else r)
                in if ds \<noteq> [] \<and> list_all is_digit ds
                   then Some (if neg then - int (read_nat ds) else int (read_nat ds)) else None))"

definition ten_power :: "int \<Rightarrow> rat" where
  "ten_power e = (if 0 \<le> e then 10 ^ nat e else 1 / 10 ^ nat (- e))"

definition read_decimal :: "string \<Rightarrow> rat option" where
  "read_decimal s =
     (let whole = takeWhile is_digit s; r = dropWhile is_digit s;
          dot = (r \<noteq> [] \<and> hd r = CHR ''.'');
          frac = (if dot then takeWhile is_digit (tl r) else []);
          r = (if dot then dropWhile is_digit (tl r) else r)
      in if whole = [] \<and> frac = [] then None
         else map_option (\<lambda>e. of_nat (read_nat (whole @ frac)) * ten_power (e - int (length frac))) (read_exponent r))"

text \<open>\<open>Number(s)\<close> of a string.\<close>

definition js_number :: "string \<Rightarrow> rat option" where
  "js_number s =
     (let t = trim s; pre = lower (take 2 t)
      in if t = [] then Some 0
         else if pre = ''0x'' then map_option of_nat (read_base 16 (drop 2 t))
         else if pre = ''0o'' then map_option of_nat (read_base 8 (drop 2 t))
         else if pre = ''0b'' then map_option of_nat (read_base 2 (drop 2 t))
         else if hd t = CHR ''-'' then map_option uminus (read_decimal (tl t))
         else if hd t = CHR ''+'' then read_decimal (tl t)
         else read_decimal t)"

text \<open>\<open>Number.isInteger(n)\<close>, with the integer.\<close>

definition as_integer :: "rat option \<Rightarrow> int option" where
  "as_integer n = (case n of None \<Rightarrow> None | Some r \<Rightarrow> if of_int \<lfloor>r\<rfloor> = r then Some \<lfloor>r\<rfloor> else None)"

definition math_round :: "rat \<Rightarrow> int" where
  "math_round r = \<lfloor>r + 1 / 2\<rfloor>"

lemma show_nat_not_prefixed: "take 2 (show_nat n) \<noteq> ''0x'' \<and> take 2 (show_nat n) \<noteq> ''0o'' \<and> take 2 (show_nat n) \<noteq> ''0b''"
proof -
  have "list_all is_digit (take 2 (show_nat n))"
    using show_nat_digits[of n] by (auto simp: list_all_iff dest: in_set_takeD)
  then show ?thesis by (auto simp: is_digit_def)
qed

lemma lower_digits: "list_all is_digit s \<Longrightarrow> lower s = s"
  by (induction s) (auto simp: lower_def lower_char_def is_digit_def Let_def)

lemma js_number_show [simp]: "js_number (show_nat n) = Some (of_nat n)"
proof -
  have digits: "\<forall>c \<in> set (show_nat n). is_digit c" using show_nat_digits[of n] by (simp add: list_all_iff)
  then have ends: "is_digit (hd (show_nat n))" "is_digit (last (show_nat n))" by simp_all
  then have t: "trim (show_nat n) = show_nat n" by (intro trim_id) auto
  have low: "lower (take 2 (show_nat n)) = take 2 (show_nat n)"
    using digits by (intro lower_digits) (auto simp: list_all_iff dest: in_set_takeD)
  have whole: "takeWhile is_digit (show_nat n) = show_nat n" "dropWhile is_digit (show_nat n) = []"
    using digits by auto
  have "read_decimal (show_nat n) = Some (of_nat n)"
    unfolding read_decimal_def Let_def whole by (simp add: read_exponent_def ten_power_def)
  moreover have "hd (show_nat n) \<noteq> CHR ''-''" "hd (show_nat n) \<noteq> CHR ''+''" using ends(1) by (auto simp: is_digit_def)
  ultimately show ?thesis
    using show_nat_not_prefixed[of n] by (simp add: js_number_def Let_def t low)
qed

lemma as_integer_of_int [simp]: "as_integer (Some (of_int i)) = Some i"
  by (simp add: as_integer_def)

lemma as_integer_of_nat [simp]: "as_integer (Some (of_nat n)) = Some (int n)"
  by (simp add: as_integer_def)

end
