(* ===== verification/Resource_Incidents.thy ===== *)
theory Resource_Incidents
  imports Notifications Cron_Expression Js_Numbers
begin

text \<open>
  \<open>src/lib/resource-thresholds.ts\<close>, \<open>src/lib/resource-incidents.ts\<close>, \<open>src/lib/dto/resource-incident-dto.ts\<close> with
  its table, and \<open>src/lib/services/capacity.service.ts\<close>: the host's usage against its limits, the incidents
  that opens, and the alerts and refusals that follow.

  The tracker's incident objects are shared: its \<open>#open\<close> map, the events it returns and the service that
  explains and records them all hold the same object, and writes through one are seen by the others. They live
  in the tracker's heap, and a reference is an index into it. A JavaScript \<open>Map\<close> is an association list in
  insertion order. Usage figures are rationals. The ids drawn for rows are the parameter \<open>fresh\<close>, the reading
  of a resource's biggest consumers the parameter \<open>causesOf\<close>; database calls succeed.
\<close>

section \<open>Thresholds\<close>

datatype ResourceKind = Cpu | Memory | Disk | Gpu

datatype ResourceLevel = LevelOk | LevelSoft | LevelHard

record Threshold =
  th_hard :: int
  th_soft :: int

type_synonym ResourceThresholds = "ResourceKind \<Rightarrow> Threshold"

definition RESOURCE_KINDS :: "ResourceKind list" where
  "RESOURCE_KINDS = [Cpu, Memory, Disk, Gpu]"

fun resourceName :: "ResourceKind \<Rightarrow> string" where
  "resourceName Cpu = ''cpu''"
| "resourceName Memory = ''memory''"
| "resourceName Disk = ''disk''"
| "resourceName Gpu = ''gpu''"

definition RESOURCE_THRESHOLD_FIELDS :: "string list" where
  "RESOURCE_THRESHOLD_FIELDS =
     concat (map (\<lambda>kind. [resourceName kind @ ''SoftThreshold'', resourceName kind @ ''HardThreshold'']) RESOURCE_KINDS)"

fun RESOURCE_LABELS :: "ResourceKind \<Rightarrow> string" where
  "RESOURCE_LABELS Cpu = ''CPU''"
| "RESOURCE_LABELS Disk = ''Disk''"
| "RESOURCE_LABELS Gpu = ''GPU''"
| "RESOURCE_LABELS Memory = ''Memory''"

definition DEFAULT_THRESHOLDS :: ResourceThresholds where
  "DEFAULT_THRESHOLDS = (\<lambda>_. \<lparr>th_hard = 95, th_soft = 85\<rparr>)"

record GpuUsage =
  gu_memTotalMb :: rat
  gu_memUsedMb :: rat
  gu_utilizationPercent :: rat

record HostUsageInput =
  hu_cpuPercent :: rat
  hu_diskTotalGb :: "rat option"
  hu_diskUsedGb :: "rat option"
  hu_gpu :: "GpuUsage option"
  hu_memTotalMb :: rat
  hu_memUsedMb :: rat

record ResourceReading =
  rr_kind :: ResourceKind
  rr_level :: ResourceLevel
  rr_percent :: int
  rr_threshold :: Threshold

definition percentOf :: "rat option \<Rightarrow> rat option \<Rightarrow> int option" where
  "percentOf used all =
     (case (used, all) of
        (Some u, Some t) \<Rightarrow> if t \<noteq> 0 then Some (math_round (u / t * 100)) else None
      | _ \<Rightarrow> None)"

text \<open>What is stored: per resource, each limit or nothing.\<close>

definition withDefaults :: "(ResourceKind \<Rightarrow> int option \<times> int option) option \<Rightarrow> ResourceThresholds" where
  "withDefaults stored =
     (\<lambda>kind. case stored of
        None \<Rightarrow> DEFAULT_THRESHOLDS kind
      | Some st \<Rightarrow>
          (case st kind of (hard, soft) \<Rightarrow>
             \<lparr>th_hard = (case hard of Some h \<Rightarrow> h | None \<Rightarrow> th_hard (DEFAULT_THRESHOLDS kind)),
              th_soft = (case soft of Some s \<Rightarrow> s | None \<Rightarrow> th_soft (DEFAULT_THRESHOLDS kind))\<rparr>))"

definition levelFor :: "int \<Rightarrow> Threshold \<Rightarrow> ResourceLevel" where
  "levelFor percent threshold =
     (if percent \<ge> th_hard threshold then LevelHard else if percent \<ge> th_soft threshold then LevelSoft else LevelOk)"

definition percents :: "HostUsageInput \<Rightarrow> (ResourceKind \<times> int option) list" where
  "percents host =
     [(Cpu, Some (math_round (hu_cpuPercent host))),
      (Memory, percentOf (Some (hu_memUsedMb host)) (Some (hu_memTotalMb host))),
      (Disk, percentOf (hu_diskUsedGb host) (hu_diskTotalGb host)),
      (Gpu, map_option (\<lambda>gpu. max (math_round (gu_utilizationPercent gpu))
              (case percentOf (Some (gu_memUsedMb gpu)) (Some (gu_memTotalMb gpu)) of Some p \<Rightarrow> p | None \<Rightarrow> 0)) (hu_gpu host))]"

definition readResources :: "HostUsageInput \<Rightarrow> ResourceThresholds \<Rightarrow> ResourceReading list" where
  "readResources host thresholds =
     List.map_filter (\<lambda>(kind, percent). map_option (\<lambda>p.
       \<lparr>rr_kind = kind, rr_level = levelFor p (thresholds kind), rr_percent = p, rr_threshold = thresholds kind\<rparr>) percent)
       (percents host)"

definition describeReading :: "ResourceReading \<Rightarrow> string" where
  "describeReading reading =
     (let limit = (if rr_level reading = LevelHard then ''hard limit '' @ show_int (th_hard (rr_threshold reading)) @ ''%''
                   else ''soft limit '' @ show_int (th_soft (rr_threshold reading)) @ ''%'')
      in RESOURCE_LABELS (rr_kind reading) @ '' at '' @ show_int (rr_percent reading) @ ''% ('' @ limit @ '')'')"

text \<open>A form field; \<open>Number(null)\<close> is 0.\<close>

definition formNumber :: "(string \<Rightarrow> string option) \<Rightarrow> string \<Rightarrow> int option" where
  "formNumber get name = (case get name of None \<Rightarrow> Some 0 | Some v \<Rightarrow> as_integer (js_number v))"

datatype thresholdProblem = NotWholePercent ResourceKind | SoftAboveHard ResourceKind

fun parseThresholdsFrom ::
  "ResourceKind list \<Rightarrow> (string \<Rightarrow> string option) \<Rightarrow> ResourceThresholds \<Rightarrow> thresholdProblem + ResourceThresholds" where
  "parseThresholdsFrom [] get parsed = Inr parsed"
| "parseThresholdsFrom (kind # kinds) get parsed =
     (case (formNumber get (resourceName kind @ ''Soft''), formNumber get (resourceName kind @ ''Hard'')) of
        (Some soft, Some hard) \<Rightarrow>
          if \<not> (1 \<le> soft \<and> soft \<le> 100 \<and> 1 \<le> hard \<and> hard \<le> 100) then Inl (NotWholePercent kind)
          else if soft > hard then Inl (SoftAboveHard kind)
          else parseThresholdsFrom kinds get (parsed(kind := \<lparr>th_hard = hard, th_soft = soft\<rparr>))
      | _ \<Rightarrow> Inl (NotWholePercent kind))"

definition parseThresholds :: "(string \<Rightarrow> string option) \<Rightarrow> thresholdProblem + ResourceThresholds" where
  "parseThresholds get = parseThresholdsFrom RESOURCE_KINDS get DEFAULT_THRESHOLDS"

fun thresholdMessage :: "thresholdProblem \<Rightarrow> string" where
  "thresholdMessage (NotWholePercent kind) = RESOURCE_LABELS kind @ '' thresholds must be whole percentages from 1 to 100.''"
| "thresholdMessage (SoftAboveHard kind) = RESOURCE_LABELS kind @ [CHR 39] @ ''s soft threshold can't be above its hard one.''"

section \<open>Incidents\<close>

definition DEFAULT_SUSTAIN_SECONDS :: int where
  "DEFAULT_SUSTAIN_SECONDS = 60"

definition DEFAULT_REMINDER_MINUTES :: int where
  "DEFAULT_REMINDER_MINUTES = 30"

record ResourceCause =
  rc_amount :: string
  rc_label :: string

text \<open>A middle dot between spaces.\<close>

definition describeCauses :: "ResourceCause list \<Rightarrow> string" where
  "describeCauses causes = join ('' '' @ [CHR 0xB7] @ '' '') (map (\<lambda>cause. rc_label cause @ '' '' @ rc_amount cause) causes)"

record ResourceIncidentState =
  ri_causes :: "ResourceCause list"
  ri_id :: "string option"
  ri_kind :: ResourceKind
  ri_lastNotifiedAt :: timestamp
  ri_level :: ResourceLevel
  ri_peak :: int
  ri_startedAt :: timestamp

datatype IncidentEventType = EvOpen | EvEscalate | EvRemind | EvRecover

type_synonym incident_ref = nat

record IncidentEvent =
  ie_incident :: incident_ref
  ie_reading :: ResourceReading
  ie_type :: IncidentEventType

record IncidentTiming =
  it_reminderMs :: int
  it_sustainMs :: int

record ResourceIncidentTracker =
  tk_breachSince :: "(ResourceKind \<times> timestamp) list"
  tk_open :: "(ResourceKind \<times> incident_ref) list"
  tk_heap :: "ResourceIncidentState list"

definition newTracker :: ResourceIncidentTracker where
  "newTracker = \<lparr>tk_breachSince = [], tk_open = [], tk_heap = []\<rparr>"

text \<open>A new object, under the next free reference.\<close>

definition allocate :: "ResourceIncidentState \<Rightarrow> ResourceIncidentTracker \<Rightarrow> incident_ref \<times> ResourceIncidentTracker" where
  "allocate incident t = (length (tk_heap t), t\<lparr>tk_heap := tk_heap t @ [incident]\<rparr>)"

definition writeRef ::
  "incident_ref \<Rightarrow> (ResourceIncidentState \<Rightarrow> ResourceIncidentState) \<Rightarrow> ResourceIncidentTracker \<Rightarrow> ResourceIncidentTracker" where
  "writeRef r f t = t\<lparr>tk_heap := (tk_heap t)[r := f (tk_heap t ! r)]\<rparr>"

definition restore :: "ResourceIncidentState list \<Rightarrow> ResourceIncidentTracker \<Rightarrow> ResourceIncidentTracker" where
  "restore incidents t =
     fold (\<lambda>incident t. case allocate incident t of (r, t') \<Rightarrow> t'\<lparr>tk_open := AList.update (ri_kind incident) r (tk_open t')\<rparr>)
       incidents t"

definition openIncidents :: "ResourceIncidentTracker \<Rightarrow> incident_ref list" where
  "openIncidents t = map snd (tk_open t)"

definition trackOk :: "ResourceReading \<Rightarrow> ResourceIncidentTracker \<Rightarrow> IncidentEvent list \<times> ResourceIncidentTracker" where
  "trackOk reading t =
     (let kind = rr_kind reading; opened = map_of (tk_open t) kind;
          t = t\<lparr>tk_breachSince := AList.delete kind (tk_breachSince t)\<rparr>
      in case opened of
           None \<Rightarrow> ([], t)
         | Some r \<Rightarrow> ([\<lparr>ie_incident = r, ie_reading = reading, ie_type = EvRecover\<rparr>],
                     t\<lparr>tk_open := AList.delete kind (tk_open t)\<rparr>))"

definition trackOpen ::
  "incident_ref \<Rightarrow> ResourceReading \<Rightarrow> timestamp \<Rightarrow> IncidentTiming \<Rightarrow> ResourceIncidentTracker
   \<Rightarrow> IncidentEvent list \<times> ResourceIncidentTracker" where
  "trackOpen r reading now timing t =
     (let t = writeRef r (\<lambda>i. i\<lparr>ri_peak := max (ri_peak i) (rr_percent reading)\<rparr>) t;
          opened = tk_heap t ! r
      in if rr_level reading = LevelHard \<and> ri_level opened = LevelSoft
         then ([\<lparr>ie_incident = r, ie_reading = reading, ie_type = EvEscalate\<rparr>],
               writeRef r (\<lambda>i. i\<lparr>ri_level := LevelHard, ri_lastNotifiedAt := now\<rparr>) t)
         else if it_reminderMs timing > 0 \<and> now - ri_lastNotifiedAt opened \<ge> it_reminderMs timing
         then ([\<lparr>ie_incident = r, ie_reading = reading, ie_type = EvRemind\<rparr>],
               writeRef r (\<lambda>i. i\<lparr>ri_lastNotifiedAt := now\<rparr>) t)
         else ([], t))"

definition trackBreach ::
  "ResourceReading \<Rightarrow> timestamp \<Rightarrow> IncidentTiming \<Rightarrow> ResourceIncidentTracker \<Rightarrow> IncidentEvent list \<times> ResourceIncidentTracker" where
  "trackBreach reading now timing t =
     (let kind = rr_kind reading;
          since = (case map_of (tk_breachSince t) kind of Some s \<Rightarrow> s | None \<Rightarrow> now);
          t = t\<lparr>tk_breachSince := AList.update kind since (tk_breachSince t)\<rparr>
      in if kind = Disk \<or> now - since \<ge> it_sustainMs timing
         then (let t = t\<lparr>tk_breachSince := AList.delete kind (tk_breachSince t)\<rparr>;
                   (r, t) = allocate \<lparr>ri_causes = [], ri_id = None, ri_kind = kind, ri_lastNotifiedAt = now,
                     ri_level = rr_level reading, ri_peak = rr_percent reading, ri_startedAt = since\<rparr> t
               in ([\<lparr>ie_incident = r, ie_reading = reading, ie_type = EvOpen\<rparr>],
                   t\<lparr>tk_open := AList.update kind r (tk_open t)\<rparr>))
         else ([], t))"

definition trackReading ::
  "timestamp \<Rightarrow> IncidentTiming \<Rightarrow> ResourceReading \<Rightarrow> ResourceIncidentTracker \<Rightarrow> IncidentEvent list \<times> ResourceIncidentTracker" where
  "trackReading now timing reading t =
     (if rr_level reading = LevelOk then trackOk reading t
      else case map_of (tk_open t) (rr_kind reading) of
             Some r \<Rightarrow> trackOpen r reading now timing t
           | None \<Rightarrow> trackBreach reading now timing t)"

fun trackNext ::
  "ResourceReading list \<Rightarrow> timestamp \<Rightarrow> IncidentTiming \<Rightarrow> ResourceIncidentTracker \<Rightarrow> IncidentEvent list \<times> ResourceIncidentTracker" where
  "trackNext [] now timing t = ([], t)"
| "trackNext (reading # readings) now timing t =
     (let (events, t) = trackReading now timing reading t; (more, t) = trackNext readings now timing t
      in (events @ more, t))"

definition formatDuration :: "int \<Rightarrow> string" where
  "formatDuration ms =
     (let minutes = ms div 60000; hours = minutes div 60; rest = minutes mod 60
      in if minutes < 1 then show_int (max 0 ((ms + 500) div 1000)) @ ''s''
         else if minutes < 60 then show_int minutes @ '' min''
         else if hours \<ge> 24 then
           (let days = hours div 24
            in if hours mod 24 \<noteq> 0 then show_int days @ '' d '' @ show_int (hours mod 24) @ '' h'' else show_int days @ '' d'')
         else if rest \<noteq> 0 then show_int hours @ '' h '' @ show_int rest @ '' min'' else show_int hours @ '' h'')"

definition describeIncidentEvent :: "ResourceIncidentTracker \<Rightarrow> IncidentEvent \<Rightarrow> timestamp \<Rightarrow> string" where
  "describeIncidentEvent t event now =
     (let incident = tk_heap t ! ie_incident event; reading = ie_reading event;
          label = RESOURCE_LABELS (rr_kind reading);
          lasted = formatDuration (now - ri_startedAt incident);
          figures = show_int (rr_percent reading) @ ''%''; peak = '' (peak '' @ show_int (ri_peak incident) @ ''%)''
      in case ie_type event of
           EvRecover \<Rightarrow> label @ '' back to '' @ figures @ '' after '' @ lasted @ peak
         | EvRemind \<Rightarrow> label @ '' still at '' @ figures @ '' for '' @ lasted @ peak
         | _ \<Rightarrow> if rr_kind reading = Disk then describeReading reading
                else describeReading reading @ '' for '' @ lasted)"

definition parseAlertTiming :: "(string \<Rightarrow> string option) \<Rightarrow> string + (int \<times> int)" where
  "parseAlertTiming get =
     (case formNumber get ''sustainSeconds'' of
        None \<Rightarrow> Inl ''Alert after has to be a whole number of seconds from 0 to 3600.''
      | Some sustain \<Rightarrow>
          if sustain < 0 \<or> sustain > 3600 then Inl ''Alert after has to be a whole number of seconds from 0 to 3600.''
          else (case formNumber get ''reminderMinutes'' of
                  None \<Rightarrow> Inl ''Remind every has to be a whole number of minutes from 0 to 1440.''
                | Some reminder \<Rightarrow>
                    if reminder < 0 \<or> reminder > 1440 then Inl ''Remind every has to be a whole number of minutes from 0 to 1440.''
                    else Inr (reminder, sustain)))"

section \<open>Rows\<close>

record ResourceIncidentRow =
  rw_causes :: "ResourceCause list"
  rw_id :: string
  rw_kind :: ResourceKind
  rw_lastNotifiedAt :: timestamp
  rw_level :: ResourceLevel
  rw_notifications :: int
  rw_peakPercent :: int
  rw_resolvedAt :: "timestamp option"
  rw_startedAt :: timestamp

definition listOpen :: "ResourceIncidentRow list \<Rightarrow> ResourceIncidentState list" where
  "listOpen rows =
     map (\<lambda>row. \<lparr>ri_causes = rw_causes row, ri_id = Some (rw_id row), ri_kind = rw_kind row,
         ri_lastNotifiedAt = rw_lastNotifiedAt row, ri_level = rw_level row, ri_peak = rw_peakPercent row,
         ri_startedAt = rw_startedAt row\<rparr>)
       (filter (\<lambda>row. rw_resolvedAt row = None) rows)"

definition openRow :: "string \<Rightarrow> ResourceIncidentState \<Rightarrow> ResourceIncidentRow list \<Rightarrow> ResourceIncidentRow list" where
  "openRow i incident rows =
     rows @ [\<lparr>rw_causes = ri_causes incident, rw_id = i, rw_kind = ri_kind incident,
       rw_lastNotifiedAt = ri_lastNotifiedAt incident, rw_level = ri_level incident, rw_notifications = 1,
       rw_peakPercent = ri_peak incident, rw_resolvedAt = None, rw_startedAt = ri_startedAt incident\<rparr>]"

definition notified ::
  "ResourceIncidentState \<Rightarrow> int \<Rightarrow> timestamp option \<Rightarrow> ResourceIncidentRow list \<Rightarrow> ResourceIncidentRow list" where
  "notified incident notifications resolvedAt rows =
     (case ri_id incident of
        None \<Rightarrow> rows
      | Some i \<Rightarrow>
          if i = [] then rows
          else map (\<lambda>row. if rw_id row = i
                 then row\<lparr>rw_causes := ri_causes incident, rw_lastNotifiedAt := ri_lastNotifiedAt incident,
                       rw_level := ri_level incident, rw_notifications := notifications,
                       rw_peakPercent := ri_peak incident, rw_resolvedAt := resolvedAt\<rparr>
                 else row) rows)"

definition notificationCount :: "string \<Rightarrow> ResourceIncidentRow list \<Rightarrow> int" where
  "notificationCount i rows =
     (case List.find (\<lambda>row. rw_id row = i) rows of Some row \<Rightarrow> rw_notifications row | None \<Rightarrow> 0)"

section \<open>The service\<close>

definition FRESH_MS :: int where
  "FRESH_MS = 3 * 60 * 1000"

datatype InsightResource = InsightCpu | InsightDisk | InsightMemory

fun INSIGHT_KINDS :: "ResourceKind \<Rightarrow> InsightResource option" where
  "INSIGHT_KINDS Cpu = Some InsightCpu"
| "INSIGHT_KINDS Disk = Some InsightDisk"
| "INSIGHT_KINDS Gpu = None"
| "INSIGHT_KINDS Memory = Some InsightMemory"

record ResourceAlert =
  ra_event :: string
  ra_events :: "IncidentEvent list"
  ra_reminder :: bool

definition alertIndex :: "ResourceIncidentTracker \<Rightarrow> IncidentEvent \<Rightarrow> nat" where
  "alertIndex t event =
     (if ie_type event = EvRecover then 4
      else (if ie_type event = EvRemind then 2 else 0) +
           (if ri_level (tk_heap t ! ie_incident event) = LevelHard then 0 else 1))"

definition groupIncidentEvents :: "ResourceIncidentTracker \<Rightarrow> IncidentEvent list \<Rightarrow> ResourceAlert list" where
  "groupIncidentEvents t events =
     (let groups = [\<lparr>ra_event = ''resource.critical'', ra_events = [], ra_reminder = False\<rparr>,
            \<lparr>ra_event = ''resource.warning'', ra_events = [], ra_reminder = False\<rparr>,
            \<lparr>ra_event = ''resource.critical'', ra_events = [], ra_reminder = True\<rparr>,
            \<lparr>ra_event = ''resource.warning'', ra_events = [], ra_reminder = True\<rparr>,
            \<lparr>ra_event = ''resource.recovered'', ra_events = [], ra_reminder = False\<rparr>];
          groups = fold (\<lambda>event gs. gs[alertIndex t event := (gs ! alertIndex t event)\<lparr>
            ra_events := ra_events (gs ! alertIndex t event) @ [event]\<rparr>]) events groups
      in filter (\<lambda>g. length (ra_events g) > 0) groups)"

definition TITLES :: "string \<Rightarrow> bool \<Rightarrow> string" where
  "TITLES event reminder =
     (if event = ''resource.critical'' then
        (if reminder then ''Server still past a hard resource limit'' else ''Server past a hard resource limit'')
      else if event = ''resource.warning'' then
        (if reminder then ''Server resources still running high'' else ''Server resources running high'')
      else ''Server resources back to normal'')"

definition resourceAlertMessage ::
  "ResourceIncidentTracker \<Rightarrow> ResourceAlert \<Rightarrow> string option \<Rightarrow> string \<Rightarrow> timestamp \<Rightarrow> ChannelMessage" where
  "resourceAlertMessage t alert origin stamp now =
     \<lparr>cm_detail = (if ra_event alert = ''resource.critical''
        then Some ''New services are refused until usage drops back under the hard limit.'' else None),
      cm_event = ra_event alert,
      cm_fields = concat (map (\<lambda>event.
        let causes = ri_causes (tk_heap t ! ie_incident event); label = RESOURCE_LABELS (rr_kind (ie_reading event));
            field = \<lparr>mf_inline = None, mf_name = label, mf_value = describeIncidentEvent t event now\<rparr>
        in if ie_type event = EvRecover \<or> length causes = 0 then [field]
           else [field, \<lparr>mf_inline = None, mf_name = label @ '': biggest users'', mf_value = describeCauses causes\<rparr>])
        (ra_events alert)),
      cm_link = (case origin of None \<Rightarrow> None | Some url \<Rightarrow> if url = [] then None else Some (strip_trailing (CHR ''/'') url @ ''/'')),
      cm_serviceId = None, cm_serviceName = None, cm_timestamp = stamp,
      cm_title = TITLES (ra_event alert) (ra_reminder alert)\<rparr>"

record capacity_settings =
  st_thresholds :: ResourceThresholds
  st_reminderMinutes :: int
  st_sustainSeconds :: int
  st_origin :: "string option"

record capacity_world =
  cw_tracker :: ResourceIncidentTracker
  cw_restored :: bool
  cw_latest :: "(timestamp \<times> ResourceReading list) option"
  cw_rows :: "ResourceIncidentRow list"
  cw_draws :: nat
  cw_inApp :: "NewNotificationInput list"
  cw_messages :: "ChannelMessage list"

definition explain ::
  "(InsightResource \<Rightarrow> ResourceCause list) \<Rightarrow> IncidentEvent list \<Rightarrow> ResourceIncidentTracker \<Rightarrow> ResourceIncidentTracker" where
  "explain causesOf events t =
     fold (\<lambda>event. writeRef (ie_incident event) (\<lambda>i. i\<lparr>ri_causes :=
         (case INSIGHT_KINDS (rr_kind (ie_reading event)) of None \<Rightarrow> [] | Some resource \<Rightarrow> causesOf resource)\<rparr>))
       (filter (\<lambda>event. ie_type event \<noteq> EvRecover) events) t"

definition recordEvent :: "(nat \<Rightarrow> string) \<Rightarrow> timestamp \<Rightarrow> IncidentEvent \<Rightarrow> capacity_world \<Rightarrow> capacity_world" where
  "recordEvent fresh now event w =
     (let incident = tk_heap (cw_tracker w) ! ie_incident event
      in if ie_type event = EvOpen then
           (let i = fresh (cw_draws w)
            in w\<lparr>cw_draws := Suc (cw_draws w), cw_rows := openRow i incident (cw_rows w),
                 cw_tracker := writeRef (ie_incident event) (\<lambda>x. x\<lparr>ri_id := Some i\<rparr>) (cw_tracker w)\<rparr>)
         else case ri_id incident of
                None \<Rightarrow> w
              | Some i \<Rightarrow>
                  if i = [] then w
                  else w\<lparr>cw_rows := notified incident (notificationCount i (cw_rows w) + 1)
                         (if ie_type event = EvRecover then Some now else None) (cw_rows w)\<rparr>)"

definition recordEvents :: "(nat \<Rightarrow> string) \<Rightarrow> timestamp \<Rightarrow> IncidentEvent list \<Rightarrow> capacity_world \<Rightarrow> capacity_world" where
  "recordEvents fresh now events w = fold (recordEvent fresh now) events w"

definition alertText :: "ResourceIncidentTracker \<Rightarrow> timestamp \<Rightarrow> IncidentEvent \<Rightarrow> string" where
  "alertText t now event =
     (let causes = ri_causes (tk_heap t ! ie_incident event)
      in if ie_type event = EvRecover \<or> length causes = 0 then describeIncidentEvent t event now
         else describeIncidentEvent t event now @ '' (biggest users: '' @ describeCauses causes @ '')'')"

definition sendAlert :: "capacity_settings \<Rightarrow> timestamp \<Rightarrow> ResourceAlert \<Rightarrow> capacity_world \<Rightarrow> capacity_world" where
  "sendAlert settings now alert w =
     (let message = resourceAlertMessage (cw_tracker w) alert (st_origin settings) (toISOString now) now
      in w\<lparr>cw_inApp := cw_inApp w @ [\<lparr>nn_detail = None,
             nn_message = cm_title message @ '': '' @ join '', '' (map (alertText (cw_tracker w) now) (ra_events alert)),
             nn_serviceId = None, nn_type = ''resource_alert''\<rparr>],
           cw_messages := cw_messages w @ [message]\<rparr>)"

definition timingOf :: "capacity_settings \<Rightarrow> IncidentTiming" where
  "timingOf settings = \<lparr>it_reminderMs = st_reminderMinutes settings * 60000, it_sustainMs = st_sustainSeconds settings * 1000\<rparr>"

definition ensureRestored :: "capacity_world \<Rightarrow> capacity_world" where
  "ensureRestored w =
     (if cw_restored w then w
      else w\<lparr>cw_tracker := restore (listOpen (cw_rows w)) (cw_tracker w), cw_restored := True\<rparr>)"

definition evaluate ::
  "(InsightResource \<Rightarrow> ResourceCause list) \<Rightarrow> (nat \<Rightarrow> string) \<Rightarrow> capacity_settings \<Rightarrow> HostUsageInput \<Rightarrow> timestamp
   \<Rightarrow> capacity_world \<Rightarrow> capacity_world" where
  "evaluate causesOf fresh settings host now w =
     (let readings = readResources host (st_thresholds settings);
          w = ensureRestored (w\<lparr>cw_latest := Some (now, readings)\<rparr>);
          (events, t) = trackNext readings now (timingOf settings) (cw_tracker w);
          w = recordEvents fresh now events (w\<lparr>cw_tracker := explain causesOf events t\<rparr>)
      in fold (sendAlert settings now) (groupIncidentEvents (cw_tracker w) events) w)"

text \<open>\<open>getStats\<close> is the fresh reading of the host, which may fail.\<close>

definition hardBreaches ::
  "HostUsageInput option \<Rightarrow> capacity_settings \<Rightarrow> timestamp \<Rightarrow> capacity_world \<Rightarrow> ResourceReading list \<times> capacity_world" where
  "hardBreaches getStats settings now w =
     (let hard = filter (\<lambda>reading. rr_level reading = LevelHard);
          stale = (case cw_latest w of None \<Rightarrow> True | Some (taken, _) \<Rightarrow> now - taken > FRESH_MS)
      in if stale then
           (case getStats of
              None \<Rightarrow> ([], w)
            | Some host \<Rightarrow>
                (let readings = readResources host (st_thresholds settings)
                 in (hard readings, w\<lparr>cw_latest := Some (now, readings)\<rparr>)))
         else (case cw_latest w of None \<Rightarrow> ([], w) | Some (_, readings) \<Rightarrow> (hard readings, w)))"

definition refusal ::
  "HostUsageInput option \<Rightarrow> capacity_settings \<Rightarrow> timestamp \<Rightarrow> capacity_world \<Rightarrow> string option \<times> capacity_world" where
  "refusal getStats settings now w =
     (case hardBreaches getStats settings now w of (breaches, w') \<Rightarrow>
        (if length breaches > 0
         then Some (''The server is past its hard resource limit ('' @ join '', '' (map describeReading breaches) @
           ''): free some up, or raise the limit in Settings, before adding a service.'')
         else None, w'))"

datatype capacity_error = CapacityError string

definition assertRoomForNewService ::
  "HostUsageInput option \<Rightarrow> capacity_settings \<Rightarrow> timestamp \<Rightarrow> capacity_world \<Rightarrow> (capacity_error + unit) \<times> capacity_world" where
  "assertRoomForNewService getStats settings now w =
     (case refusal getStats settings now w of (r, w') \<Rightarrow>
        (case r of Some message \<Rightarrow> Inl (CapacityError message) | None \<Rightarrow> Inr (), w'))"

end
