(* ===== verification/Incident_Theorems.thy ===== *)
theory Incident_Theorems
  imports Resource_Incidents
begin

text \<open>
  The incident tracker implements one small automaton per resource; incidents open only after their limit
  stayed crossed; the table of incidents carries them over a restart.
\<close>

section \<open>The automaton of one resource\<close>

datatype watch =
    Calm
  | Breaching timestamp
  | Alarmed ResourceLevel timestamp timestamp int

definition startWatch :: "IncidentTiming \<Rightarrow> timestamp \<Rightarrow> ResourceReading \<Rightarrow> timestamp \<Rightarrow> IncidentEventType option \<times> watch" where
  "startWatch timing now r since =
     (if rr_kind r = Disk \<or> now - since \<ge> it_sustainMs timing
      then (Some EvOpen, Alarmed (rr_level r) since now (rr_percent r)) else (None, Breaching since))"

text \<open>\<open>Alarmed level startedAt lastNotifiedAt peak\<close>.\<close>

fun stepWatch :: "IncidentTiming \<Rightarrow> timestamp \<Rightarrow> ResourceReading \<Rightarrow> watch \<Rightarrow> IncidentEventType option \<times> watch" where
  "stepWatch timing now r Calm = (if rr_level r = LevelOk then (None, Calm) else startWatch timing now r now)"
| "stepWatch timing now r (Breaching since) = (if rr_level r = LevelOk then (None, Calm) else startWatch timing now r since)"
| "stepWatch timing now r (Alarmed level started notifiedAt peak) =
     (if rr_level r = LevelOk then (Some EvRecover, Calm)
      else if rr_level r = LevelHard \<and> level = LevelSoft then (Some EvEscalate, Alarmed LevelHard started now (max peak (rr_percent r)))
      else if it_reminderMs timing > 0 \<and> now - notifiedAt \<ge> it_reminderMs timing
      then (Some EvRemind, Alarmed level started now (max peak (rr_percent r)))
      else (None, Alarmed level started notifiedAt (max peak (rr_percent r))))"

definition incidentWatch :: "ResourceIncidentState \<Rightarrow> watch" where
  "incidentWatch i = Alarmed (ri_level i) (ri_startedAt i) (ri_lastNotifiedAt i) (ri_peak i)"

definition view :: "ResourceIncidentTracker \<Rightarrow> ResourceKind \<Rightarrow> watch" where
  "view t k =
     (case map_of (tk_open t) k of
        Some r \<Rightarrow> incidentWatch (tk_heap t ! r)
      | None \<Rightarrow> (case map_of (tk_breachSince t) k of Some s \<Rightarrow> Breaching s | None \<Rightarrow> Calm))"

definition wfTracker :: "ResourceIncidentTracker \<Rightarrow> bool" where
  "wfTracker t \<longleftrightarrow>
     (\<forall>k r. map_of (tk_open t) k = Some r \<longrightarrow>
        r < length (tk_heap t) \<and> ri_kind (tk_heap t ! r) = k \<and> ri_level (tk_heap t ! r) \<noteq> LevelOk \<and>
        map_of (tk_breachSince t) k = None)"

definition eventSummary :: "IncidentEvent \<Rightarrow> ResourceKind \<times> IncidentEventType" where
  "eventSummary e = (rr_kind (ie_reading e), ie_type e)"

lemma wfD:
  assumes "wfTracker t" "map_of (tk_open t) k = Some r"
  shows "r < length (tk_heap t)" "ri_kind (tk_heap t ! r) = k" "ri_level (tk_heap t ! r) \<noteq> LevelOk" "map_of (tk_breachSince t) k = None"
  using assms by (auto simp: wfTracker_def)

lemma map_of_delete [simp]: "map_of (AList.delete k al) = (map_of al)(k := None)"
  by (rule ext) (simp add: delete_conv)

lemma wf_new [simp]: "wfTracker newTracker"
  by (simp add: wfTracker_def newTracker_def)

text \<open>A write through the reference of an open incident shows at its own resource only.\<close>

lemma view_writeRef:
  assumes "wfTracker t" "map_of (tk_open t) k = Some r" "\<And>i. ri_kind (f i) = ri_kind i" "ri_level (f (tk_heap t ! r)) \<noteq> LevelOk"
  shows "wfTracker (writeRef r f t)" "view (writeRef r f t) = (view t)(k := incidentWatch (f (tk_heap t ! r)))"
proof -
  have other: "r' \<noteq> r" if "map_of (tk_open t) k' = Some r'" "k' \<noteq> k" for k' r'
    using wfD(2)[OF assms(1) that(1)] wfD(2)[OF assms(1,2)] that(2) by auto
  note r = wfD[OF assms(1,2)]
  show "wfTracker (writeRef r f t)"
    using assms(1) r assms(3,4) by (auto simp: wfTracker_def writeRef_def nth_list_update)
  show "view (writeRef r f t) = (view t)(k := incidentWatch (f (tk_heap t ! r)))"
  proof
    fix k'
    show "view (writeRef r f t) k' = ((view t)(k := incidentWatch (f (tk_heap t ! r)))) k'"
      using other[of k'] r assms(2) by (cases "k' = k") (auto simp: view_def writeRef_def split: option.splits)
  qed
qed

lemma trackOk_refines:
  assumes "wfTracker t" "rr_level reading = LevelOk" "trackOk reading t = (events, t')"
  shows "wfTracker t' \<and> view t' = (view t)(rr_kind reading := snd (stepWatch timing now reading (view t (rr_kind reading)))) \<and>
    map eventSummary events = map (Pair (rr_kind reading)) (case fst (stepWatch timing now reading (view t (rr_kind reading))) of None \<Rightarrow> [] | Some e \<Rightarrow> [e])"
proof -
  let ?k = "rr_kind reading"
  have wf: "wfTracker t'"
    using assms by (auto simp: trackOk_def wfTracker_def Let_def split: option.splits if_splits)
  have v: "view t' = (view t)(?k := Calm)"
    using assms(3) by (auto simp: trackOk_def view_def Let_def fun_eq_iff split: option.splits if_splits)
  show ?thesis
  proof (cases "map_of (tk_open t) ?k")
    case None
    then show ?thesis using assms(2,3) wf v
      by (auto simp: trackOk_def view_def eventSummary_def Let_def split: option.splits)
  next
    case (Some r)
    then show ?thesis using assms(2,3) wf v
      by (auto simp: trackOk_def view_def incidentWatch_def eventSummary_def Let_def)
  qed
qed

lemma trackOpen_refines:
  assumes "wfTracker t" "rr_level reading \<noteq> LevelOk" "map_of (tk_open t) (rr_kind reading) = Some r"
    "trackOpen r reading now timing t = (events, t')"
  shows "wfTracker t' \<and> view t' = (view t)(rr_kind reading := snd (stepWatch timing now reading (view t (rr_kind reading)))) \<and>
    map eventSummary events = map (Pair (rr_kind reading)) (case fst (stepWatch timing now reading (view t (rr_kind reading))) of None \<Rightarrow> [] | Some e \<Rightarrow> [e])"
proof -
  let ?k = "rr_kind reading" and ?i = "tk_heap t ! r"
  define t1 where "t1 = writeRef r (\<lambda>i. i\<lparr>ri_peak := max (ri_peak i) (rr_percent reading)\<rparr>) t"
  have r: "r < length (tk_heap t)" "ri_level ?i \<noteq> LevelOk" using wfD[OF assms(1,3)] by auto
  have i1: "tk_heap t1 ! r = ?i\<lparr>ri_peak := max (ri_peak ?i) (rr_percent reading)\<rparr>" "map_of (tk_open t1) ?k = Some r"
    using r assms(3) by (simp_all add: t1_def writeRef_def)
  have t1: "wfTracker t1" "view t1 = (view t)(?k := incidentWatch (tk_heap t1 ! r))"
    unfolding i1(1) unfolding t1_def using view_writeRef[OF assms(1,3)] r(2) by simp_all
  have v: "view t ?k = incidentWatch ?i" using assms(3) by (simp add: view_def)
  consider
      (escalate) "rr_level reading = LevelHard \<and> ri_level ?i = LevelSoft"
        "events = [\<lparr>ie_incident = r, ie_reading = reading, ie_type = EvEscalate\<rparr>]"
        "t' = writeRef r (\<lambda>i. i\<lparr>ri_level := LevelHard, ri_lastNotifiedAt := now\<rparr>) t1"
    | (remind) "\<not> (rr_level reading = LevelHard \<and> ri_level ?i = LevelSoft)"
        "it_reminderMs timing > 0 \<and> now - ri_lastNotifiedAt ?i \<ge> it_reminderMs timing"
        "events = [\<lparr>ie_incident = r, ie_reading = reading, ie_type = EvRemind\<rparr>]"
        "t' = writeRef r (\<lambda>i. i\<lparr>ri_lastNotifiedAt := now\<rparr>) t1"
    | (quiet) "\<not> (rr_level reading = LevelHard \<and> ri_level ?i = LevelSoft)"
        "\<not> (it_reminderMs timing > 0 \<and> now - ri_lastNotifiedAt ?i \<ge> it_reminderMs timing)" "events = []" "t' = t1"
    using assms(4) i1 by (auto simp: trackOpen_def t1_def[symmetric] Let_def split: if_splits)
  then show ?thesis
  proof cases
    case escalate
    then show ?thesis using view_writeRef[OF t1(1) i1(2), of "\<lambda>i. i\<lparr>ri_level := LevelHard, ri_lastNotifiedAt := now\<rparr>"] t1(2) i1(1) v assms(2)
      by (simp add: incidentWatch_def eventSummary_def)
  next
    case remind
    then show ?thesis using view_writeRef[OF t1(1) i1(2), of "\<lambda>i. i\<lparr>ri_lastNotifiedAt := now\<rparr>"] t1(2) i1(1) v assms(2) r(2)
      by (auto simp: incidentWatch_def eventSummary_def)
  next
    case quiet
    then show ?thesis using t1 i1(1) v assms(2) by (auto simp: incidentWatch_def)
  qed
qed

lemma trackBreach_refines:
  assumes "wfTracker t" "rr_level reading \<noteq> LevelOk" "map_of (tk_open t) (rr_kind reading) = None"
    "trackBreach reading now timing t = (events, t')"
  shows "wfTracker t' \<and> view t' = (view t)(rr_kind reading := snd (stepWatch timing now reading (view t (rr_kind reading)))) \<and>
    map eventSummary events = map (Pair (rr_kind reading)) (case fst (stepWatch timing now reading (view t (rr_kind reading))) of None \<Rightarrow> [] | Some e \<Rightarrow> [e])"
proof -
  let ?k = "rr_kind reading"
  define since where "since = (case map_of (tk_breachSince t) ?k of Some s \<Rightarrow> s | None \<Rightarrow> now)"
  have step: "stepWatch timing now reading (view t ?k) = startWatch timing now reading since"
    using assms(2,3) by (simp add: view_def since_def split: option.splits)
  show ?thesis
  proof (cases "?k = Disk \<or> now - since \<ge> it_sustainMs timing")
    case True
    define i where "i = \<lparr>ri_causes = [], ri_id = None, ri_kind = ?k, ri_lastNotifiedAt = now,
      ri_level = rr_level reading, ri_peak = rr_percent reading, ri_startedAt = since\<rparr>"
    have e: "events = [\<lparr>ie_incident = length (tk_heap t), ie_reading = reading, ie_type = EvOpen\<rparr>]"
      and opens: "map_of (tk_open t') = (map_of (tk_open t))(?k \<mapsto> length (tk_heap t))"
      and breaches: "map_of (tk_breachSince t') = (map_of (tk_breachSince t))(?k := None)"
      and heap: "tk_heap t' = tk_heap t @ [i]"
      using assms(4) True by (auto simp: trackBreach_def allocate_def Let_def since_def[symmetric] i_def)
    have old: "r < length (tk_heap t)" "ri_kind (tk_heap t ! r) = k'" "ri_level (tk_heap t ! r) \<noteq> LevelOk"
      "map_of (tk_breachSince t) k' = None" if "map_of (tk_open t) k' = Some r" for k' r
      using wfD[OF assms(1) that] by auto
    have "wfTracker t'"
      unfolding wfTracker_def opens breaches heap using old assms(2) by (auto simp: nth_append i_def intro: less_SucI)
    moreover have "view t' k' = ((view t)(?k := incidentWatch i)) k'" for k'
      unfolding view_def opens breaches heap using old(1)[of k'] by (auto simp: nth_append split: option.splits)
    ultimately show ?thesis
      using True by (auto simp: step e startWatch_def incidentWatch_def eventSummary_def i_def)
  next
    case False
    then have e: "events = []" "t' = t\<lparr>tk_breachSince := AList.update ?k since (tk_breachSince t)\<rparr>"
      using assms(4) by (auto simp: trackBreach_def Let_def since_def[symmetric])
    have "view t' = (view t)(?k := Breaching since)"
      using assms(3) by (auto simp: e view_def fun_eq_iff split: option.splits)
    moreover have "wfTracker t'" using assms(1,3) by (auto simp: e wfTracker_def)
    ultimately show ?thesis using False by (simp add: step e(1) startWatch_def)
  qed
qed

lemma trackReading_refines:
  assumes "wfTracker t" "trackReading now timing reading t = (events, t')"
  shows "wfTracker t' \<and> view t' = (view t)(rr_kind reading := snd (stepWatch timing now reading (view t (rr_kind reading)))) \<and>
    map eventSummary events = map (Pair (rr_kind reading)) (case fst (stepWatch timing now reading (view t (rr_kind reading))) of None \<Rightarrow> [] | Some e \<Rightarrow> [e])"
proof (cases "rr_level reading = LevelOk")
  case True
  then show ?thesis using assms trackOk_refines[OF assms(1) True] by (simp add: trackReading_def)
next
  case False
  show ?thesis
  proof (cases "map_of (tk_open t) (rr_kind reading)")
    case None
    then show ?thesis using assms(2) False by (intro trackBreach_refines[OF assms(1) False None]) (simp add: trackReading_def)
  next
    case (Some r)
    then show ?thesis using assms(2) False by (intro trackOpen_refines[OF assms(1) False Some]) (simp add: trackReading_def)
  qed
qed

section \<open>Rounds of readings\<close>

definition readingOf :: "ResourceReading list \<Rightarrow> ResourceKind \<Rightarrow> ResourceReading option" where
  "readingOf readings k = List.find (\<lambda>r. rr_kind r = k) readings"

definition roundWatch :: "IncidentTiming \<Rightarrow> timestamp \<Rightarrow> ResourceReading list \<Rightarrow> (ResourceKind \<Rightarrow> watch) \<Rightarrow> ResourceKind \<Rightarrow> watch" where
  "roundWatch timing now readings v k =
     (case readingOf readings k of None \<Rightarrow> v k | Some r \<Rightarrow> snd (stepWatch timing now r (v k)))"

definition roundEvents ::
  "IncidentTiming \<Rightarrow> timestamp \<Rightarrow> ResourceReading list \<Rightarrow> (ResourceKind \<Rightarrow> watch) \<Rightarrow> (ResourceKind \<times> IncidentEventType) list" where
  "roundEvents timing now readings v =
     List.map_filter (\<lambda>r. map_option (Pair (rr_kind r)) (fst (stepWatch timing now r (v (rr_kind r))))) readings"

lemma readingOf_none: "readingOf readings k = None \<longleftrightarrow> k \<notin> rr_kind ` set readings"
  by (auto simp: readingOf_def find_None_iff)

lemma roundEvents_cong:
  "(\<And>r. r \<in> set readings \<Longrightarrow> v (rr_kind r) = v' (rr_kind r)) \<Longrightarrow> roundEvents timing now readings v = roundEvents timing now readings v'"
  by (induction readings) (auto simp: roundEvents_def List.map_filter_simps split: option.splits)

lemma trackNext_refines:
  assumes "wfTracker t" "distinct (map rr_kind readings)" "trackNext readings now timing t = (events, t')"
  shows "wfTracker t' \<and> view t' = roundWatch timing now readings (view t) \<and>
    map eventSummary events = roundEvents timing now readings (view t)"
  using assms
proof (induction readings arbitrary: t events)
  case Nil
  then show ?case by (auto simp: roundWatch_def readingOf_def roundEvents_def List.map_filter_simps fun_eq_iff)
next
  case (Cons r readings)
  let ?k = "rr_kind r"
  obtain e1 t1 where one: "trackReading now timing r t = (e1, t1)" by force
  obtain e2 where rest: "trackNext readings now timing t1 = (e2, t')" and events: "events = e1 @ e2"
    using Cons.prems(3) one by (auto simp: Let_def split: prod.splits)
  have t1: "wfTracker t1" "view t1 = (view t)(?k := snd (stepWatch timing now r (view t ?k)))"
    "map eventSummary e1 = map (Pair ?k) (case fst (stepWatch timing now r (view t ?k)) of None \<Rightarrow> [] | Some e \<Rightarrow> [e])"
    using trackReading_refines[OF Cons.prems(1) one] by auto
  have fresh: "?k \<notin> rr_kind ` set readings" using Cons.prems(2) by auto
  have ih: "wfTracker t'" "view t' = roundWatch timing now readings (view t1)"
    "map eventSummary e2 = roundEvents timing now readings (view t1)"
    using Cons.IH[OF t1(1) _ rest] Cons.prems(2) by auto
  have "roundWatch timing now readings (view t1) k' = roundWatch timing now (r # readings) (view t) k'" for k'
    using fresh readingOf_none[of readings ?k] t1(2)
    by (cases "k' = ?k") (auto simp: roundWatch_def readingOf_def split: option.splits)
  moreover have "roundEvents timing now readings (view t1) = roundEvents timing now readings (view t)"
  proof (rule roundEvents_cong)
    fix q assume "q \<in> set readings"
    then have "rr_kind q \<noteq> ?k" using fresh by (metis image_eqI)
    then show "view t1 (rr_kind q) = view t (rr_kind q)" by (simp add: t1(2))
  qed
  ultimately show ?case
    using ih t1(3) events by (auto simp: fun_eq_iff roundEvents_def List.map_filter_simps split: option.splits)
qed

lemma readResources_kinds: "distinct (map rr_kind (readResources host thresholds))"
  by (simp add: readResources_def percents_def List.map_filter_simps split: option.splits)

section \<open>Runs\<close>

type_synonym sample_round = "timestamp \<times> ResourceReading list"

fun trackRounds :: "IncidentTiming \<Rightarrow> sample_round list \<Rightarrow> ResourceIncidentTracker \<Rightarrow> ResourceIncidentTracker" where
  "trackRounds timing [] t = t"
| "trackRounds timing ((now, readings) # rest) t = trackRounds timing rest (snd (trackNext readings now timing t))"

text \<open>Since \<open>s\<close> the resource was read past its limit and never under it.\<close>

definition pastSince :: "sample_round list \<Rightarrow> ResourceKind \<Rightarrow> timestamp \<Rightarrow> bool" where
  "pastSince h k s \<longleftrightarrow>
     (\<exists>earlier first later. h = earlier @ first # later \<and> fst first = s \<and> readingOf (snd first) k \<noteq> None \<and>
        (\<forall>x \<in> set (first # later). \<forall>r. readingOf (snd x) k = Some r \<longrightarrow> rr_level r \<noteq> LevelOk))"

lemma trackRounds_snoc:
  "trackRounds timing (h @ [(now, readings)]) t = snd (trackNext readings now timing (trackRounds timing h t))"
  by (induction timing h t rule: trackRounds.induct) auto

lemma pastSince_later:
  assumes "pastSince h k s" "\<forall>r. readingOf (snd x) k = Some r \<longrightarrow> rr_level r \<noteq> LevelOk"
  shows "pastSince (h @ [x]) k s"
proof -
  from assms(1) obtain earlier first later where p: "h = earlier @ first # later" "fst first = s" "readingOf (snd first) k \<noteq> None"
    "\<forall>x \<in> set (first # later). \<forall>r. readingOf (snd x) k = Some r \<longrightarrow> rr_level r \<noteq> LevelOk"
    by (auto simp: pastSince_def)
  then show ?thesis unfolding pastSince_def
    by (intro exI[of _ earlier] exI[of _ first] exI[of _ "later @ [x]"]) (use assms(2) in auto)
qed

lemma pastSince_now:
  assumes "readingOf readings k = Some r" "rr_level r \<noteq> LevelOk"
  shows "pastSince (h @ [(now, readings)]) k now"
  unfolding pastSince_def using assms by (intro exI[of _ h] exI[of _ "(now, readings)"] exI[of _ "[]"]) auto

lemma readingOf_kind: "readingOf readings k = Some r \<Longrightarrow> rr_kind r = k"
  by (auto simp: readingOf_def find_Some_iff)

lemma rounds_wf: "\<forall>(now, readings) \<in> set h. distinct (map rr_kind readings) \<Longrightarrow> wfTracker (trackRounds timing h newTracker)"
proof (induction h rule: rev_induct)
  case (snoc x h)
  obtain now readings where x: "x = (now, readings)" by force
  obtain events t' where n: "trackNext readings now timing (trackRounds timing h newTracker) = (events, t')" by force
  show ?case using trackNext_refines[OF _ _ n] snoc by (simp add: x trackRounds_snoc n)
qed simp

lemma step_breaching:
  "snd (stepWatch timing now r v) = Breaching s \<Longrightarrow> rr_level r \<noteq> LevelOk \<and> (s = now \<or> v = Breaching s)"
  by (cases v) (auto simp: startWatch_def split: if_splits)

lemma step_opens:
  "fst (stepWatch timing now r v) = Some EvOpen \<Longrightarrow>
   rr_level r \<noteq> LevelOk \<and> (\<exists>s. (s = now \<or> v = Breaching s) \<and> (rr_kind r = Disk \<or> now - s \<ge> it_sustainMs timing) \<and>
     snd (stepWatch timing now r v) = Alarmed (rr_level r) s now (rr_percent r))"
  by (cases v) (auto simp: startWatch_def split: if_splits)

lemma rounds_breaching:
  assumes "\<forall>(now, readings) \<in> set h. distinct (map rr_kind readings)" "view (trackRounds timing h newTracker) k = Breaching s"
  shows "pastSince h k s"
  using assms
proof (induction h arbitrary: s rule: rev_induct)
  case Nil
  then show ?case by (simp add: view_def newTracker_def)
next
  case (snoc x h)
  obtain now readings where x: "x = (now, readings)" by force
  define t where "t = trackRounds timing h newTracker"
  obtain events t' where n: "trackNext readings now timing t = (events, t')" by force
  have t: "wfTracker t" unfolding t_def by (rule rounds_wf) (use snoc.prems in auto)
  have v: "view t' k = roundWatch timing now readings (view t) k"
    using trackNext_refines[OF t _ n] snoc.prems(1) by (simp add: x)
  have b: "view t' k = Breaching s" using snoc.prems(2) by (simp add: x trackRounds_snoc t_def[symmetric] n)
  have ih: "view t k = Breaching s \<Longrightarrow> pastSince h k s"
    using snoc.IH[of s] snoc.prems(1) by (simp add: t_def)
  show ?case
  proof (cases "readingOf readings k")
    case None
    then have "view t k = Breaching s" using v b by (simp add: roundWatch_def)
    then show ?thesis using ih pastSince_later[of h k s x] None by (simp add: x)
  next
    case (Some r)
    then have r: "rr_level r \<noteq> LevelOk \<and> (s = now \<or> view t k = Breaching s)"
      using v b step_breaching[of timing now r "view t k" s] by (simp add: roundWatch_def)
    then show ?thesis using pastSince_now[OF Some, of h now] ih pastSince_later[of h k s x] Some by (auto simp: x)
  qed
qed

lemma pastSince_snoc:
  "pastSince (h @ [x]) k s \<longleftrightarrow>
   (\<forall>r. readingOf (snd x) k = Some r \<longrightarrow> rr_level r \<noteq> LevelOk) \<and> (fst x = s \<and> readingOf (snd x) k \<noteq> None \<or> pastSince h k s)"
proof
  assume "pastSince (h @ [x]) k s"
  then obtain earlier first later where p: "h @ [x] = earlier @ first # later" "fst first = s" "readingOf (snd first) k \<noteq> None"
    "\<forall>x \<in> set (first # later). \<forall>r. readingOf (snd x) k = Some r \<longrightarrow> rr_level r \<noteq> LevelOk"
    by (auto simp: pastSince_def)
  then show "(\<forall>r. readingOf (snd x) k = Some r \<longrightarrow> rr_level r \<noteq> LevelOk) \<and> (fst x = s \<and> readingOf (snd x) k \<noteq> None \<or> pastSince h k s)"
  proof (cases later rule: rev_cases)
    case (snoc later' y)
    then have "h = earlier @ first # later'" "y = x" using p(1) by (simp_all flip: append_Cons append_assoc)
    moreover have "pastSince h k s"
      unfolding pastSince_def using calculation p snoc by (intro exI[of _ earlier] exI[of _ first] exI[of _ later']) auto
    ultimately show ?thesis using p(4) snoc by auto
  qed auto
next
  assume "(\<forall>r. readingOf (snd x) k = Some r \<longrightarrow> rr_level r \<noteq> LevelOk) \<and> (fst x = s \<and> readingOf (snd x) k \<noteq> None \<or> pastSince h k s)"
  then have past: "\<forall>r. readingOf (snd x) k = Some r \<longrightarrow> rr_level r \<noteq> LevelOk"
    and began: "fst x = s \<and> readingOf (snd x) k \<noteq> None \<or> pastSince h k s" by blast+
  from began show "pastSince (h @ [x]) k s"
  proof
    assume x: "fst x = s \<and> readingOf (snd x) k \<noteq> None"
    then obtain r where "readingOf (snd x) k = Some r" by auto
    then show ?thesis using pastSince_now[of "snd x" k r h s] past x by (metis prod.collapse)
  qed (rule pastSince_later[OF _ past])
qed

lemma pastSince_time: "pastSince h k s \<Longrightarrow> s \<in> set (map fst h)"
  by (auto simp: pastSince_def)

lemma step_past:
  assumes "rr_level r \<noteq> LevelOk"
  shows "(\<exists>l a b p. snd (stepWatch timing now r v) = Alarmed l a b p) \<or>
     (v = Calm \<and> snd (stepWatch timing now r v) = Breaching now) \<or> (\<exists>s. v = Breaching s \<and> snd (stepWatch timing now r v) = Breaching s)"
  using assms by (cases v) (auto simp: startWatch_def)

lemma step_alarmed:
  "rr_level r \<noteq> LevelOk \<Longrightarrow> \<exists>l a b p. snd (stepWatch timing now r (Alarmed l0 a0 b0 p0)) = Alarmed l a b p"
  by auto

text \<open>A resource past its limit since some round is tracked as breaching since then or before, or has its incident.\<close>

lemma past_view:
  assumes "\<forall>(now, readings) \<in> set h. distinct (map rr_kind readings)" "sorted (map fst h)" "pastSince h k s"
  shows "(\<exists>l a b p. view (trackRounds timing h newTracker) k = Alarmed l a b p) \<or>
     (\<exists>s0 \<le> s. view (trackRounds timing h newTracker) k = Breaching s0)"
  using assms
proof (induction h rule: rev_induct)
  case (snoc x h)
  obtain now readings where x: "x = (now, readings)" by force
  let ?t = "trackRounds timing h newTracker"
  obtain events t' where n: "trackNext readings now timing ?t = (events, t')" by force
  have h: "\<forall>(now, readings) \<in> set h. distinct (map rr_kind readings)" "sorted (map fst h)" "\<forall>y \<in> set (map fst h). y \<le> now"
    using snoc.prems(1,2) x by (auto simp: sorted_append)
  have t: "wfTracker ?t" by (rule rounds_wf[OF h(1)])
  have v: "view (trackRounds timing (h @ [x]) newTracker) k = roundWatch timing now readings (view ?t) k"
    using trackNext_refines[OF t _ n] snoc.prems(1) by (simp add: x trackRounds_snoc n)
  have past: "\<forall>r. readingOf readings k = Some r \<longrightarrow> rr_level r \<noteq> LevelOk"
    "now = s \<and> readingOf readings k \<noteq> None \<or> pastSince h k s"
    using snoc.prems(3) unfolding pastSince_snoc by (simp_all add: x)
  have began: "s0 \<le> now" if "view ?t k = Breaching s0" for s0
    using pastSince_time[OF rounds_breaching[OF h(1) that]] h(3) by blast
  show ?case
  proof (cases "readingOf readings k")
    case None
    then have "pastSince h k s" using past(2) by blast
    then show ?thesis using snoc.IH[OF h(1,2)] None v by (simp add: roundWatch_def)
  next
    case (Some r)
    then have step: "view (trackRounds timing (h @ [x]) newTracker) k = snd (stepWatch timing now r (view ?t k))"
      using v by (simp add: roundWatch_def)
    have r: "rr_level r \<noteq> LevelOk" using past(1) Some by blast
    from past(2) show ?thesis
    proof
      assume "now = s \<and> readingOf readings k \<noteq> None"
      then show ?thesis unfolding step using step_past[OF r, of timing now "view ?t k"] began by auto
    next
      assume "pastSince h k s"
      from snoc.IH[OF h(1,2) this] show ?thesis
        unfolding step using step_past[OF r, of timing now "view ?t k"] step_alarmed[OF r, of timing now] by (elim disjE exE) auto
    qed
  qed
qed (simp add: pastSince_def)

lemma step_opens_when:
  assumes "rr_level r \<noteq> LevelOk" "v = Calm \<and> s = now \<or> v = Breaching s" "rr_kind r = Disk \<or> now - s \<ge> it_sustainMs timing"
  shows "fst (stepWatch timing now r v) = Some EvOpen"
  using assms by (auto simp: startWatch_def)

lemma sustained_opens:
  assumes wf: "\<forall>(taken, rs) \<in> set (h @ [(now, readings)]). distinct (map rr_kind rs)" "sorted (map fst (h @ [(now, readings)]))"
    and n: "trackNext readings now timing (trackRounds timing h newTracker) = (events, t')"
    and r: "r \<in> set readings" "rr_level r \<noteq> LevelOk" "map_of (tk_open (trackRounds timing h newTracker)) (rr_kind r) = None"
    and due: "rr_kind r = Disk \<or> (\<exists>s. pastSince (h @ [(now, readings)]) (rr_kind r) s \<and> now - s \<ge> it_sustainMs timing)"
  shows "\<exists>e \<in> set events. ie_type e = EvOpen \<and> rr_kind (ie_reading e) = rr_kind r"
proof -
  let ?t = "trackRounds timing h newTracker" and ?k = "rr_kind r"
  have h: "\<forall>(now, readings) \<in> set h. distinct (map rr_kind readings)" "sorted (map fst h)" "\<forall>y \<in> set (map fst h). y \<le> now"
    using wf by (auto simp: sorted_append)
  have quiet: "view ?t ?k \<noteq> Alarmed l a b p" for l a b p using r(3) by (auto simp: view_def split: option.splits)
  have "fst (stepWatch timing now r (view ?t ?k)) = Some EvOpen"
  proof (cases "view ?t ?k")
    case Calm
    have "\<not> pastSince h ?k s" for s using past_view[OF h(1,2), of ?k s timing] Calm by auto
    then have "?k = Disk \<or> now - now \<ge> it_sustainMs timing" using due unfolding pastSince_snoc by auto
    then show ?thesis using step_opens_when[OF r(2), of "view ?t ?k" now now timing] Calm by simp
  next
    case (Breaching s0)
    have early: "s0 \<le> now" using pastSince_time[OF rounds_breaching[OF h(1) Breaching]] h(3) by blast
    have "s0 \<le> s" if "pastSince h ?k s" for s using past_view[OF h(1,2) that, of timing] Breaching by auto
    then have "?k = Disk \<or> now - s0 \<ge> it_sustainMs timing" using due early unfolding pastSince_snoc by fastforce
    then show ?thesis using step_opens_when[OF r(2), of "view ?t ?k" s0 now timing] Breaching by simp
  qed (use quiet in blast)
  then have "(?k, EvOpen) \<in> set (roundEvents timing now readings (view ?t))"
    using r(1) by (force simp: roundEvents_def List.map_filter_def)
  then have "(?k, EvOpen) \<in> eventSummary ` set events"
    using trackNext_refines[OF rounds_wf[OF h(1)] _ n] wf(1) by (metis (no_types, lifting) case_prodD in_set_conv_decomp list.set_map)
  then obtain e where "e \<in> set events" "eventSummary e = (?k, EvOpen)" by auto
  then show ?thesis by (intro bexI[of _ e]) (simp_all add: eventSummary_def)
qed

lemma opened_sustained:
  assumes "\<forall>(taken, rs) \<in> set (h @ [(now, readings)]). distinct (map rr_kind rs)"
    and "trackNext readings now timing (trackRounds timing h newTracker) = (events, t')"
    and "e \<in> set events" "ie_type e = EvOpen"
  shows "\<exists>s l p. pastSince (h @ [(now, readings)]) (rr_kind (ie_reading e)) s \<and>
    (rr_kind (ie_reading e) = Disk \<or> now - s \<ge> it_sustainMs timing) \<and>
    view t' (rr_kind (ie_reading e)) = Alarmed l s now p"
proof -
  let ?t = "trackRounds timing h newTracker" and ?k = "rr_kind (ie_reading e)"
  have wf: "wfTracker ?t" by (rule rounds_wf) (use assms(1) in auto)
  have dist: "distinct (map rr_kind readings)" using assms(1) by auto
  note ref = trackNext_refines[OF wf dist assms(2)]
  have "(?k, EvOpen) \<in> set (roundEvents timing now readings (view ?t))"
    using ref assms(3,4) by (metis eventSummary_def image_eqI list.set_map)
  then obtain r where r: "r \<in> set readings" "rr_kind r = ?k" "fst (stepWatch timing now r (view ?t ?k)) = Some EvOpen"
    by (auto simp: roundEvents_def List.map_filter_def)
  have find: "readingOf readings ?k = Some r"
  proof -
    obtain r' where r': "readingOf readings ?k = Some r'" using r(1,2) readingOf_none[of readings ?k] by (metis image_eqI not_None_eq)
    then have "r' \<in> set readings" "rr_kind r' = ?k" by (auto simp: readingOf_def find_Some_iff)
    then have "r' = r" using r(1,2) dist by (metis distinct_map inj_onD)
    then show ?thesis using r' by simp
  qed
  obtain s where s: "rr_level r \<noteq> LevelOk" "s = now \<or> view ?t ?k = Breaching s" "rr_kind r = Disk \<or> now - s \<ge> it_sustainMs timing"
    "snd (stepWatch timing now r (view ?t ?k)) = Alarmed (rr_level r) s now (rr_percent r)"
    using step_opens[OF r(3)] by auto
  have "pastSince (h @ [(now, readings)]) ?k s"
    using s(1,2) pastSince_now[OF find s(1)] rounds_breaching[of h timing ?k s] pastSince_later[of h ?k s "(now, readings)"] find assms(1)
    by auto
  moreover have "view t' ?k = Alarmed (rr_level r) s now (rr_percent r)"
    using ref find s(4) by (simp add: roundWatch_def)
  ultimately show ?thesis using s(3) r(2) by auto
qed

section \<open>Theorems\<close>

text \<open>
  C20. The tracker implements one automaton per resource. From a well-formed tracker and one reading per
  resource at most, each resource's state afterwards is its automaton's next state on its own reading, or
  unchanged without one, the events are the automatons' outputs in the order of the readings, and the tracker
  stays well formed: at most one incident per resource, under its own kind, at a level past a limit.
\<close>

theorem tracker_refines_automaton:
  assumes "wfTracker t" "distinct (map rr_kind readings)" "trackNext readings now timing t = (events, t')"
  shows "wfTracker t' \<and> view t' = roundWatch timing now readings (view t) \<and>
    map eventSummary events = roundEvents timing now readings (view t)"
  by (rule trackNext_refines[OF assms])

definition hotReading :: "ResourceKind \<Rightarrow> ResourceReading" where
  "hotReading k = \<lparr>rr_kind = k, rr_level = LevelHard, rr_percent = 97, rr_threshold = DEFAULT_THRESHOLDS k\<rparr>"

theorem tracker_refines_automaton_witness:
  "map eventSummary (fst (trackNext [hotReading Cpu, hotReading Disk] 5 \<lparr>it_reminderMs = 0, it_sustainMs = 60\<rparr> newTracker)) = [(Disk, EvOpen)]"
proof -
  obtain events t' where n: "trackNext [hotReading Cpu, hotReading Disk] 5 \<lparr>it_reminderMs = 0, it_sustainMs = 60\<rparr> newTracker = (events, t')"
    by force
  have "distinct (map rr_kind [hotReading Cpu, hotReading Disk])" by code_simp
  moreover have "roundEvents \<lparr>it_reminderMs = 0, it_sustainMs = 60\<rparr> 5 [hotReading Cpu, hotReading Disk] (view newTracker) = [(Disk, EvOpen)]"
    by (simp add: roundEvents_def List.map_filter_simps view_def newTracker_def hotReading_def startWatch_def)
  ultimately show ?thesis using tracker_refines_automaton[OF wf_new _ n] unfolding n fst_conv by simp
qed

text \<open>
  C21. Whatever the rounds of readings before, with at most one reading per resource in each: a resource other than the disk
  opens an incident only when it has been read past its limit, and never under it, for the whole sustain window, and the
  incident starts at the round the breach began. Conversely, with the clock never going back, a resource without an incident
  that is read past its limit opens one in that very round when it is the disk, or when it has been past its limit and
  never under it for the whole window.
\<close>

theorem incident_opens_only_when_sustained:
  assumes "\<forall>(taken, rs) \<in> set (h @ [(now, readings)]). distinct (map rr_kind rs)"
    and "trackNext readings now timing (trackRounds timing h newTracker) = (events, t')"
  shows "(\<forall>e \<in> set events. ie_type e = EvOpen \<longrightarrow>
       (\<exists>s l p. pastSince (h @ [(now, readings)]) (rr_kind (ie_reading e)) s \<and>
          (rr_kind (ie_reading e) = Disk \<or> now - s \<ge> it_sustainMs timing) \<and>
          view t' (rr_kind (ie_reading e)) = Alarmed l s now p)) \<and>
    (sorted (map fst (h @ [(now, readings)])) \<longrightarrow>
       (\<forall>r \<in> set readings. rr_level r \<noteq> LevelOk \<longrightarrow> map_of (tk_open (trackRounds timing h newTracker)) (rr_kind r) = None \<longrightarrow>
          rr_kind r = Disk \<or> (\<exists>s. pastSince (h @ [(now, readings)]) (rr_kind r) s \<and> now - s \<ge> it_sustainMs timing) \<longrightarrow>
          (\<exists>e \<in> set events. ie_type e = EvOpen \<and> rr_kind (ie_reading e) = rr_kind r)))"
  using opened_sustained[OF assms] sustained_opens[OF assms(1) _ assms(2)] by blast

theorem incident_opens_only_when_sustained_witness:
  "(\<exists>s l p. pastSince [(0, [hotReading Cpu]), (60, [hotReading Cpu])] Cpu s \<and> 60 - s \<ge> 60 \<and>
     view (snd (trackNext [hotReading Cpu] 60 \<lparr>it_reminderMs = 0, it_sustainMs = 60\<rparr>
       (trackRounds \<lparr>it_reminderMs = 0, it_sustainMs = 60\<rparr> [(0, [hotReading Cpu])] newTracker))) Cpu = Alarmed l s 60 p) \<and>
   (\<exists>e \<in> set (fst (trackNext [hotReading Disk] 5 \<lparr>it_reminderMs = 0, it_sustainMs = 60\<rparr> newTracker)). ie_type e = EvOpen)"
proof -
  let ?m = "\<lparr>it_reminderMs = 0, it_sustainMs = 60\<rparr>"
  let ?n = "trackNext [hotReading Cpu] 60 ?m (trackRounds ?m [(0, [hotReading Cpu])] newTracker)"
  have e: "fst ?n = [\<lparr>ie_incident = 0, ie_reading = hotReading Cpu, ie_type = EvOpen\<rparr>]" by code_simp
  have n: "?n = (fst ?n, snd ?n)" by simp
  have one: "\<exists>s l p. pastSince [(0, [hotReading Cpu]), (60, [hotReading Cpu])] Cpu s \<and> 60 - s \<ge> 60 \<and> view (snd ?n) Cpu = Alarmed l s 60 p"
    using incident_opens_only_when_sustained[OF _ n] unfolding e by (simp add: hotReading_def)
  let ?d = "trackNext [hotReading Disk] 5 ?m (trackRounds ?m [] newTracker)"
  have d: "?d = (fst ?d, snd ?d)" by simp
  have "\<exists>e \<in> set (fst ?d). ie_type e = EvOpen"
    using incident_opens_only_when_sustained[OF _ d, THEN conjunct2] by (auto simp: hotReading_def newTracker_def simp del: trackNext.simps)
  then show ?thesis using one by simp
qed

text \<open>
  The alert that resources recovered goes out as soon as one of them has, while another is still past its
  limit.
\<close>

theorem recovered_while_another_open:
  "let (events, t) = trackNext
        [hotReading Cpu, (hotReading Disk)\<lparr>rr_level := LevelOk, rr_percent := 10\<rparr>] 5 \<lparr>it_reminderMs = 0, it_sustainMs = 0\<rparr>
        (snd (trackNext [hotReading Cpu, hotReading Disk] 0 \<lparr>it_reminderMs = 0, it_sustainMs = 0\<rparr> newTracker))
   in map ra_event (groupIncidentEvents t events) = [''resource.recovered''] \<and>
      map (\<lambda>r. ri_kind (tk_heap t ! r)) (openIncidents t) = [Cpu]"
  by code_simp

end
