(* ===== verification/Incident_Rows.thy ===== *)
theory Incident_Rows
  imports Incident_Theorems
begin

text \<open>
  The rows of the incident table match the tracker's open incidents after every evaluation, so a restart
  takes them up where they were.
\<close>

section \<open>Rows and incidents\<close>

definition openRowsOf :: "ResourceIncidentRow list \<Rightarrow> ResourceKind \<Rightarrow> ResourceIncidentRow list" where
  "openRowsOf rows k = filter (\<lambda>row. rw_resolvedAt row = None \<and> rw_kind row = k) rows"

definition rowMatches :: "ResourceIncidentRow \<Rightarrow> ResourceIncidentState \<Rightarrow> bool" where
  "rowMatches row i \<longleftrightarrow>
     ri_id i = Some (rw_id row) \<and> ri_causes i = rw_causes row \<and> ri_lastNotifiedAt i = rw_lastNotifiedAt row \<and>
     ri_level i = rw_level row \<and> ri_startedAt i = rw_startedAt row \<and> rw_peakPercent row \<le> ri_peak i"

definition matchKind :: "ResourceIncidentTracker \<Rightarrow> ResourceIncidentRow list \<Rightarrow> ResourceKind \<Rightarrow> bool" where
  "matchKind t rows k =
     (case map_of (tk_open t) k of
        None \<Rightarrow> openRowsOf rows k = []
      | Some r \<Rightarrow> (\<exists>row. openRowsOf rows k = [row] \<and> rowMatches row (tk_heap t ! r)))"

definition rowsSane :: "(nat \<Rightarrow> string) \<Rightarrow> nat \<Rightarrow> ResourceIncidentRow list \<Rightarrow> bool" where
  "rowsSane fresh draws rows \<longleftrightarrow>
     distinct (map rw_id rows) \<and> [] \<notin> set (map rw_id rows) \<and> (\<forall>n \<ge> draws. fresh n \<notin> set (map rw_id rows)) \<and>
     (\<forall>row \<in> set rows. rw_level row \<noteq> LevelOk)"

text \<open>An event whose row is still to be written.\<close>

definition kindOf :: "IncidentEvent \<Rightarrow> ResourceKind" where
  "kindOf e = rr_kind (ie_reading e)"

definition pendingOk :: "ResourceIncidentTracker \<Rightarrow> ResourceIncidentRow list \<Rightarrow> IncidentEvent \<Rightarrow> bool" where
  "pendingOk t rows e \<longleftrightarrow>
     ie_incident e < length (tk_heap t) \<and> ri_kind (tk_heap t ! ie_incident e) = kindOf e \<and>
     ri_level (tk_heap t ! ie_incident e) \<noteq> LevelOk \<and>
     (if ie_type e = EvOpen then map_of (tk_open t) (kindOf e) = Some (ie_incident e) \<and> openRowsOf rows (kindOf e) = []
      else map_of (tk_open t) (kindOf e) = (if ie_type e = EvRecover then None else Some (ie_incident e)) \<and>
        (\<exists>row. openRowsOf rows (kindOf e) = [row] \<and> ri_id (tk_heap t ! ie_incident e) = Some (rw_id row) \<and>
           ri_startedAt (tk_heap t ! ie_incident e) = rw_startedAt row))"

text \<open>What a step at one resource leaves alone.\<close>

definition frame :: "ResourceKind \<Rightarrow> ResourceIncidentTracker \<Rightarrow> ResourceIncidentTracker \<Rightarrow> bool" where
  "frame k t t' \<longleftrightarrow>
     (\<forall>k'. k' \<noteq> k \<longrightarrow> map_of (tk_open t') k' = map_of (tk_open t) k') \<and> length (tk_heap t) \<le> length (tk_heap t') \<and>
     (\<forall>r < length (tk_heap t). ri_kind (tk_heap t ! r) \<noteq> k \<longrightarrow> tk_heap t' ! r = tk_heap t ! r)"

lemma matchKind_frame:
  assumes "wfTracker t" "frame k t t'" "k' \<noteq> k" "openRowsOf rows' k' = openRowsOf rows k'" "matchKind t rows k'"
  shows "matchKind t' rows' k'"
proof -
  have "tk_heap t' ! r = tk_heap t ! r" if "map_of (tk_open t) k' = Some r" for r
    using assms(2,3) wfD[OF assms(1) that] by (auto simp: frame_def)
  then show ?thesis using assms(2-5) by (auto simp: matchKind_def frame_def split: option.splits)
qed

lemma pendingOk_frame:
  assumes "frame k t t'" "kindOf e \<noteq> k" "openRowsOf rows' (kindOf e) = openRowsOf rows (kindOf e)" "pendingOk t rows e"
  shows "pendingOk t' rows' e"
proof -
  have h: "tk_heap t' ! ie_incident e = tk_heap t ! ie_incident e" "ie_incident e < length (tk_heap t')"
    using assms(1,2,4) by (auto simp: frame_def pendingOk_def)
  have o: "map_of (tk_open t') (kindOf e) = map_of (tk_open t) (kindOf e)" using assms(1,2) by (simp add: frame_def)
  show ?thesis using assms(3,4) unfolding pendingOk_def h(1) o by (simp add: h(2))
qed

lemma frame_refl [simp]: "frame k t t"
  by (simp add: frame_def)

lemma frame_writeRef:
  "ri_kind (tk_heap t ! r) = k \<Longrightarrow> frame k t (writeRef r f t)"
  by (auto simp: frame_def writeRef_def) (metis nth_list_update_neq)

lemma frame_trans: "wfTracker t \<Longrightarrow> frame k t t' \<Longrightarrow> frame k t' t'' \<Longrightarrow> frame k t t''"
  by (auto simp: frame_def)

section \<open>One reading\<close>

text \<open>A reading leaves its resource matched, or its event still to be written.\<close>

lemma trackOk_pending:
  assumes "wfTracker t" "matchKind t rows (rr_kind reading)" "trackOk reading t = (events, t')"
  shows "frame (rr_kind reading) t t' \<and> (\<forall>e \<in> set events. kindOf e = rr_kind reading \<and> pendingOk t' rows e) \<and>
    (events = [] \<longrightarrow> matchKind t' rows (rr_kind reading))"
proof (cases "map_of (tk_open t) (rr_kind reading)")
  case None
  then show ?thesis using assms by (auto simp: trackOk_def frame_def matchKind_def Let_def)
next
  case (Some r)
  then show ?thesis using assms wfD[OF assms(1) Some]
    by (auto simp: trackOk_def frame_def matchKind_def pendingOk_def kindOf_def rowMatches_def Let_def)
qed

lemma trackOpen_pending:
  assumes "wfTracker t" "matchKind t rows (rr_kind reading)" "map_of (tk_open t) (rr_kind reading) = Some r"
    "trackOpen r reading now timing t = (events, t')"
  shows "frame (rr_kind reading) t t' \<and> (\<forall>e \<in> set events. kindOf e = rr_kind reading \<and> pendingOk t' rows e) \<and>
    (events = [] \<longrightarrow> matchKind t' rows (rr_kind reading))"
proof -
  note r = wfD[OF assms(1,3)]
  obtain row where row: "openRowsOf rows (rr_kind reading) = [row]" "rowMatches row (tk_heap t ! r)"
    using assms(2,3) by (auto simp: matchKind_def)
  have "\<exists>i. tk_heap t' = (tk_heap t)[r := i] \<and> tk_open t' = tk_open t \<and> ri_kind i = ri_kind (tk_heap t ! r) \<and>
      ri_level i \<noteq> LevelOk \<and> ri_id i = ri_id (tk_heap t ! r) \<and> ri_startedAt i = ri_startedAt (tk_heap t ! r) \<and>
      (events = [] \<and> rowMatches row i \<or>
       (\<exists>ty. events = [\<lparr>ie_incident = r, ie_reading = reading, ie_type = ty\<rparr>] \<and> ty \<noteq> EvOpen \<and> ty \<noteq> EvRecover))"
    using assms(4) r row(2)
    by (auto simp: trackOpen_def writeRef_def rowMatches_def Let_def split: if_splits)
  then obtain i where i: "tk_heap t' = (tk_heap t)[r := i]" "tk_open t' = tk_open t" "ri_kind i = rr_kind reading"
    "ri_level i \<noteq> LevelOk" "ri_id i = ri_id (tk_heap t ! r)" "ri_startedAt i = ri_startedAt (tk_heap t ! r)"
    "events = [] \<and> rowMatches row i \<or>
       (\<exists>ty. events = [\<lparr>ie_incident = r, ie_reading = reading, ie_type = ty\<rparr>] \<and> ty \<noteq> EvOpen \<and> ty \<noteq> EvRecover)"
    using r(2) by auto
  have "frame (rr_kind reading) t t'" using i(1,2) r(2) by (auto simp: frame_def) (metis nth_list_update_neq)
  then show ?thesis
    using i r(1) assms(3) row by (auto simp: pendingOk_def kindOf_def matchKind_def rowMatches_def)
qed

lemma trackBreach_pending:
  assumes "wfTracker t" "matchKind t rows (rr_kind reading)" "map_of (tk_open t) (rr_kind reading) = None"
    "rr_level reading \<noteq> LevelOk" "trackBreach reading now timing t = (events, t')"
  shows "frame (rr_kind reading) t t' \<and> (\<forall>e \<in> set events. kindOf e = rr_kind reading \<and> pendingOk t' rows e) \<and>
    (events = [] \<longrightarrow> matchKind t' rows (rr_kind reading))"
proof -
  have none: "openRowsOf rows (rr_kind reading) = []" using assms(2,3) by (simp add: matchKind_def)
  define since where "since = (case map_of (tk_breachSince t) (rr_kind reading) of Some s \<Rightarrow> s | None \<Rightarrow> now)"
  show ?thesis
  proof (cases "rr_kind reading = Disk \<or> now - since \<ge> it_sustainMs timing")
    case True
    then show ?thesis using assms(4,5) none
      by (auto simp: trackBreach_def allocate_def frame_def pendingOk_def kindOf_def nth_append since_def[symmetric] Let_def)
  next
    case False
    then show ?thesis using assms(3,5) none
      by (auto simp: trackBreach_def frame_def matchKind_def since_def[symmetric] Let_def)
  qed
qed

lemma trackReading_pending:
  assumes "wfTracker t" "matchKind t rows (rr_kind reading)" "trackReading now timing reading t = (events, t')"
  shows "frame (rr_kind reading) t t' \<and> (\<forall>e \<in> set events. kindOf e = rr_kind reading \<and> pendingOk t' rows e) \<and>
    (events = [] \<longrightarrow> matchKind t' rows (rr_kind reading)) \<and> length events \<le> 1"
proof -
  have len: "length events \<le> 1"
    using trackReading_refines[OF assms(1,3)] by (metis (no_types, lifting) length_map le_numeral_extra(4) list.size(3) list.size(4) option.case_eq_if zero_le One_nat_def add.right_neutral add_Suc_right le_SucI)
  show ?thesis
  proof (cases "rr_level reading = LevelOk")
    case True
    then show ?thesis using len trackOk_pending[OF assms(1,2)] assms(3) by (simp add: trackReading_def)
  next
    case level: False
    show ?thesis
    proof (cases "map_of (tk_open t) (rr_kind reading)")
      case None
      then show ?thesis using len level trackBreach_pending[OF assms(1,2) None level] assms(3) by (simp add: trackReading_def)
    next
      case (Some r)
      then show ?thesis using len level trackOpen_pending[OF assms(1,2) Some] assms(3) by (simp add: trackReading_def)
    qed
  qed
qed

section \<open>A round, explained and recorded\<close>

definition inPhase :: "ResourceIncidentTracker \<Rightarrow> ResourceIncidentRow list \<Rightarrow> IncidentEvent list \<Rightarrow> bool" where
  "inPhase t rows events \<longleftrightarrow>
     distinct (map kindOf events) \<and> (\<forall>e \<in> set events. pendingOk t rows e) \<and>
     (\<forall>k. k \<notin> kindOf ` set events \<longrightarrow> matchKind t rows k)"

lemma track_phase:
  assumes "wfTracker t" "inPhase t rows earlier" "distinct (map rr_kind readings)" "rr_kind ` set readings \<inter> kindOf ` set earlier = {}"
    "trackNext readings now timing t = (events, t')"
  shows "inPhase t' rows (earlier @ events)"
  using assms
proof (induction readings arbitrary: t earlier events)
  case Nil
  then show ?case by simp
next
  case (Cons r readings)
  let ?k = "rr_kind r"
  obtain e1 t1 where one: "trackReading now timing r t = (e1, t1)" by force
  obtain e2 where rest: "trackNext readings now timing t1 = (e2, t')" and events: "events = e1 @ e2"
    using Cons.prems(5) one by (auto simp: Let_def split: prod.splits)
  have k: "?k \<notin> kindOf ` set earlier" using Cons.prems(4) by auto
  then have "matchKind t rows ?k" using Cons.prems(2) by (simp add: inPhase_def)
  note p = trackReading_pending[OF Cons.prems(1) this one]
  have wf1: "wfTracker t1" using trackReading_refines[OF Cons.prems(1) one] by simp
  have old: "\<forall>e \<in> set earlier. pendingOk t1 rows e"
  proof
    fix e assume e: "e \<in> set earlier"
    then have "kindOf e \<noteq> ?k" using k by (metis image_eqI)
    then show "pendingOk t1 rows e" using pendingOk_frame[of ?k t t1 e rows rows] p Cons.prems(2) e by (simp add: inPhase_def)
  qed
  have others: "matchKind t1 rows k'" if "k' \<noteq> ?k" "k' \<notin> kindOf ` set earlier" for k'
    using matchKind_frame[OF Cons.prems(1), of ?k t1 k' rows rows] p that Cons.prems(2) by (simp add: inPhase_def)
  consider "e1 = []" "matchKind t1 rows ?k" | d where "e1 = [d]" "kindOf d = ?k" "pendingOk t1 rows d"
    using p by (cases e1) auto
  then have "inPhase t1 rows (earlier @ e1)"
  proof cases
    case 1
    have "matchKind t1 rows k'" if "k' \<notin> kindOf ` set earlier" for k'
      using others[OF _ that] 1(2) by (cases "k' = ?k") simp_all
    then show ?thesis using Cons.prems(2) old 1(1) by (simp add: inPhase_def)
  next
    case (2 d)
    have "distinct (map kindOf (earlier @ [d]))" using Cons.prems(2) k 2(2) by (simp add: inPhase_def)
    moreover have "\<forall>e \<in> set (earlier @ [d]). pendingOk t1 rows e" using old 2(3) by simp
    moreover have "matchKind t1 rows k'" if "k' \<notin> kindOf ` set (earlier @ [d])" for k'
      by (rule others) (use that 2(2) in simp_all)
    ultimately show ?thesis unfolding inPhase_def 2(1) by blast
  qed
  moreover have "rr_kind ` set readings \<inter> kindOf ` set (earlier @ e1) = {}"
  proof -
    define R where "R = rr_kind ` set readings"
    define L where "L = kindOf ` set earlier"
    define M where "M = kindOf ` set (earlier @ e1)"
    have "M \<subseteq> insert ?k L" unfolding M_def set_append image_Un L_def using p by blast
    moreover have "insert ?k R \<inter> L = {}" using Cons.prems(4) by (simp add: R_def L_def)
    moreover have "?k \<notin> R" using Cons.prems(3) by (simp add: R_def)
    ultimately have "R \<inter> M = {}" by blast
    then show ?thesis by (simp only: R_def M_def)
  qed
  ultimately show ?case using Cons.IH[OF wf1 _ _ _ rest, of "earlier @ e1"] Cons.prems(3) by (simp add: events)
qed

lemma write_phase:
  assumes "wfTracker t" "inPhase t rows events" "e \<in> set events" "ie_type e \<noteq> EvRecover"
  shows "wfTracker (writeRef (ie_incident e) (\<lambda>i. i\<lparr>ri_causes := c\<rparr>) t) \<and>
    inPhase (writeRef (ie_incident e) (\<lambda>i. i\<lparr>ri_causes := c\<rparr>) t) rows events"
proof -
  let ?t = "writeRef (ie_incident e) (\<lambda>i. i\<lparr>ri_causes := c\<rparr>) t"
  have p: "pendingOk t rows e" using assms(2,3) by (simp add: inPhase_def)
  have f: "frame (kindOf e) t ?t" by (rule frame_writeRef) (use p in \<open>simp add: pendingOk_def\<close>)
  have op: "map_of (tk_open t) (kindOf e) = Some (ie_incident e)"
    using p assms(4) by (auto simp: pendingOk_def split: if_splits)
  have wf: "wfTracker ?t" by (rule view_writeRef(1)[OF assms(1) op]) (use p in \<open>auto simp: pendingOk_def\<close>)
  have own: "pendingOk ?t rows e" using p by (auto simp: pendingOk_def writeRef_def)
  have "pendingOk ?t rows d" if "d \<in> set events" for d
  proof (cases "d = e")
    case False
    then have "kindOf d \<noteq> kindOf e" using assms(2,3) that by (auto simp: inPhase_def distinct_map inj_on_def)
    then show ?thesis using pendingOk_frame[OF f] assms(2) that by (simp add: inPhase_def)
  qed (use own in simp)
  moreover have "matchKind ?t rows k" if "k \<notin> kindOf ` set events" for k
    using matchKind_frame[OF assms(1) f, of k rows rows] assms(2,3) that by (auto simp: inPhase_def)
  ultimately show ?thesis using wf assms(2) by (simp add: inPhase_def)
qed

lemma explain_phase:
  assumes "wfTracker t" "inPhase t rows events"
  shows "wfTracker (explain causesOf events t) \<and> inPhase (explain causesOf events t) rows events"
proof -
  have "wfTracker (fold (\<lambda>event. writeRef (ie_incident event) (\<lambda>i. i\<lparr>ri_causes := c event\<rparr>)) es t) \<and>
      inPhase (fold (\<lambda>event. writeRef (ie_incident event) (\<lambda>i. i\<lparr>ri_causes := c event\<rparr>)) es t) rows events"
    if "set es \<subseteq> {e \<in> set events. ie_type e \<noteq> EvRecover}" for es and c :: "IncidentEvent \<Rightarrow> ResourceCause list"
    using that assms
  proof (induction es arbitrary: t)
    case (Cons e es)
    then show ?case using write_phase[of t rows events e "c e"] by simp
  qed simp
  then show ?thesis unfolding explain_def by simp
qed

lemma openRows_openRow:
  "openRowsOf (openRow i incident rows) k = openRowsOf rows k @
     (if ri_kind incident = k then openRowsOf (openRow i incident []) k else [])"
  by (simp add: openRowsOf_def openRow_def)

lemma openRows_notified:
  assumes "distinct (map rw_id rows)" "ri_id incident = Some (rw_id row)" "rw_id row \<noteq> []" "openRowsOf rows (rw_kind row) = [row]"
  shows "k \<noteq> rw_kind row \<Longrightarrow> openRowsOf (notified incident n res rows) k = openRowsOf rows k"
    and "openRowsOf (notified incident n res rows) (rw_kind row) =
      (if res = None then [row\<lparr>rw_causes := ri_causes incident, rw_lastNotifiedAt := ri_lastNotifiedAt incident,
         rw_level := ri_level incident, rw_notifications := n, rw_peakPercent := ri_peak incident, rw_resolvedAt := None\<rparr>] else [])"
proof -
  define g where "g = (\<lambda>x :: ResourceIncidentRow. if rw_id x = rw_id row
    then x\<lparr>rw_causes := ri_causes incident, rw_lastNotifiedAt := ri_lastNotifiedAt incident,
      rw_level := ri_level incident, rw_notifications := n, rw_peakPercent := ri_peak incident, rw_resolvedAt := res\<rparr> else x)"
  have n: "notified incident n res rows = map g rows" using assms(2,3) by (simp add: notified_def g_def)
  have mem: "row \<in> set rows" "rw_resolvedAt row = None" using assms(4) by (auto simp: openRowsOf_def filter_eq_Cons_iff)
  have uniq: "x = row" if "x \<in> set rows" "rw_id x = rw_id row" for x
    using assms(1) mem(1) that by (auto simp: distinct_map inj_on_def)
  have open_iff: "openRowsOf (map g rows) k = map g (filter (\<lambda>x. rw_resolvedAt (g x) = None \<and> rw_kind (g x) = k) rows)" for k
    by (simp add: openRowsOf_def filter_map o_def)
  have id: "x \<noteq> row \<Longrightarrow> x \<in> set rows \<Longrightarrow> g x = x" for x using uniq by (auto simp: g_def)
  show "openRowsOf (notified incident n res rows) k = openRowsOf rows k" if "k \<noteq> rw_kind row"
  proof -
    have "filter (\<lambda>x. rw_resolvedAt (g x) = None \<and> rw_kind (g x) = k) rows = openRowsOf rows k"
      unfolding openRowsOf_def
    proof (rule filter_cong)
      fix x assume "x \<in> set rows"
      then show "(rw_resolvedAt (g x) = None \<and> rw_kind (g x) = k) = (rw_resolvedAt x = None \<and> rw_kind x = k)"
        using id[of x] that by (cases "x = row") (auto simp: g_def)
    qed simp
    moreover have "map g (openRowsOf rows k) = openRowsOf rows k"
    proof (rule map_idI)
      fix x assume "x \<in> set (openRowsOf rows k)"
      then have "x \<in> set rows" "x \<noteq> row" using that by (auto simp: openRowsOf_def)
      then show "g x = x" using id by blast
    qed
    ultimately show ?thesis by (simp add: n open_iff)
  qed
  have "filter (\<lambda>x. rw_resolvedAt (g x) = None \<and> rw_kind (g x) = rw_kind row) rows = filter (\<lambda>x. res = None \<or> x \<noteq> row) (openRowsOf rows (rw_kind row))"
    unfolding openRowsOf_def filter_filter
  proof (rule filter_cong)
    fix x assume "x \<in> set rows"
    then show "(rw_resolvedAt (g x) = None \<and> rw_kind (g x) = rw_kind row) =
        ((rw_resolvedAt x = None \<and> rw_kind x = rw_kind row) \<and> (res = None \<or> x \<noteq> row))"
      using id[of x] mem(2) by (cases "x = row") (auto simp: g_def)
  qed simp
  note kept = this
  show "openRowsOf (notified incident n res rows) (rw_kind row) =
      (if res = None then [row\<lparr>rw_causes := ri_causes incident, rw_lastNotifiedAt := ri_lastNotifiedAt incident,
         rw_level := ri_level incident, rw_notifications := n, rw_peakPercent := ri_peak incident, rw_resolvedAt := None\<rparr>] else [])"
    unfolding n open_iff kept assms(4) by (cases "res = None") (simp_all add: g_def)
qed

lemma rowsSane_notified:
  "rowsSane fresh draws rows \<Longrightarrow> ri_level incident \<noteq> LevelOk \<Longrightarrow> rowsSane fresh draws (notified incident n res rows)"
proof -
  assume a: "rowsSane fresh draws rows" "ri_level incident \<noteq> LevelOk"
  have "map rw_id (notified incident n res rows) = map rw_id rows"
    by (auto simp: notified_def split: option.splits)
  then show ?thesis using a by (auto simp: rowsSane_def notified_def split: option.splits)
qed

lemma phase_tail:
  assumes "wfTracker t" "inPhase t rows (e # events)" "frame (kindOf e) t t'"
    and "\<And>k. k \<noteq> kindOf e \<Longrightarrow> openRowsOf rows' k = openRowsOf rows k" "matchKind t' rows' (kindOf e)"
  shows "inPhase t' rows' events"
proof -
  have "pendingOk t' rows' d" if "d \<in> set events" for d
  proof -
    have "kindOf e \<notin> kindOf ` set events" using assms(2) by (simp add: inPhase_def)
    then have "kindOf d \<noteq> kindOf e" using that by (metis image_eqI)
    then show ?thesis using pendingOk_frame[OF assms(3)] assms(2,4) that by (simp add: inPhase_def)
  qed
  moreover have "matchKind t' rows' k" if "k \<notin> kindOf ` set events" for k
    using matchKind_frame[OF assms(1,3), of k rows' rows] assms(2,4,5) that by (cases "k = kindOf e") (auto simp: inPhase_def)
  ultimately show ?thesis using assms(2) by (simp add: inPhase_def)
qed

lemma record_open_phase:
  assumes "wfTracker (cw_tracker w)" "inPhase (cw_tracker w) (cw_rows w) (e # events)" "rowsSane fresh (cw_draws w) (cw_rows w)"
    "inj fresh" "\<forall>n. fresh n \<noteq> []" "ie_type e = EvOpen"
  shows "wfTracker (cw_tracker (recordEvent fresh now e w)) \<and>
    inPhase (cw_tracker (recordEvent fresh now e w)) (cw_rows (recordEvent fresh now e w)) events \<and>
    rowsSane fresh (cw_draws (recordEvent fresh now e w)) (cw_rows (recordEvent fresh now e w))"
proof -
  let ?t = "cw_tracker w" and ?rows = "cw_rows w" and ?r = "ie_incident e" and ?i = "fresh (cw_draws w)"
  let ?inc = "tk_heap ?t ! ?r" and ?t' = "writeRef ?r (\<lambda>x. x\<lparr>ri_id := Some ?i\<rparr>) ?t"
  have p: "pendingOk ?t ?rows e" using assms(2) by (simp add: inPhase_def)
  then have h: "?r < length (tk_heap ?t)" "ri_kind ?inc = kindOf e" "ri_level ?inc \<noteq> LevelOk"
    "map_of (tk_open ?t) (kindOf e) = Some ?r" "openRowsOf ?rows (kindOf e) = []"
    using assms(6) by (auto simp: pendingOk_def)
  have eq: "cw_tracker (recordEvent fresh now e w) = ?t'" "cw_rows (recordEvent fresh now e w) = openRow ?i ?inc ?rows"
    "cw_draws (recordEvent fresh now e w) = Suc (cw_draws w)"
    using assms(6) by (simp_all add: recordEvent_def Let_def)
  have wf: "wfTracker ?t'" by (rule view_writeRef(1)[OF assms(1) h(4)]) (use h in auto)
  have "inPhase ?t' (openRow ?i ?inc ?rows) events"
  proof (rule phase_tail[OF assms(1,2)])
    show "frame (kindOf e) ?t ?t'" using h(2) by (rule frame_writeRef)
    show "openRowsOf (openRow ?i ?inc ?rows) k = openRowsOf ?rows k" if "k \<noteq> kindOf e" for k
      using that h(2) openRows_openRow[of ?i ?inc ?rows k] by simp
    show "matchKind ?t' (openRow ?i ?inc ?rows) (kindOf e)"
      using h openRows_openRow[of ?i ?inc ?rows "kindOf e"]
      by (simp add: matchKind_def writeRef_def openRowsOf_def openRow_def rowMatches_def)
  qed
  moreover have "rowsSane fresh (Suc (cw_draws w)) (openRow ?i ?inc ?rows)"
  proof -
    have "fresh n \<noteq> ?i" if "n \<ge> Suc (cw_draws w)" for n using injD[OF assms(4), of n "cw_draws w"] that by auto
    moreover have "?i \<notin> set (map rw_id ?rows)" "[] \<noteq> ?i" using assms(3,5) by (simp_all add: rowsSane_def) (metis assms(5))
    ultimately show ?thesis using assms(3) h(3) by (auto simp: rowsSane_def openRow_def)
  qed
  ultimately show ?thesis using wf by (simp add: eq)
qed

lemma record_alert_phase:
  assumes "wfTracker (cw_tracker w)" "inPhase (cw_tracker w) (cw_rows w) (e # events)" "rowsSane fresh (cw_draws w) (cw_rows w)"
    "ie_type e \<noteq> EvOpen"
  shows "wfTracker (cw_tracker (recordEvent fresh now e w)) \<and>
    inPhase (cw_tracker (recordEvent fresh now e w)) (cw_rows (recordEvent fresh now e w)) events \<and>
    rowsSane fresh (cw_draws (recordEvent fresh now e w)) (cw_rows (recordEvent fresh now e w))"
proof -
  let ?t = "cw_tracker w" and ?rows = "cw_rows w" and ?r = "ie_incident e"
  let ?inc = "tk_heap ?t ! ?r" and ?res = "if ie_type e = EvRecover then Some now else None"
  have p: "pendingOk ?t ?rows e" using assms(2) by (simp add: inPhase_def)
  then obtain row where h: "ri_kind ?inc = kindOf e" "ri_level ?inc \<noteq> LevelOk"
    "map_of (tk_open ?t) (kindOf e) = (if ie_type e = EvRecover then None else Some ?r)"
    "openRowsOf ?rows (kindOf e) = [row]" "ri_id ?inc = Some (rw_id row)" "ri_startedAt ?inc = rw_startedAt row"
    using assms(4) by (auto simp: pendingOk_def)
  then have row: "row \<in> set ?rows" "rw_kind row = kindOf e" by (auto simp: openRowsOf_def filter_eq_Cons_iff)
  then have id: "rw_id row \<noteq> []" using assms(3) by (force simp: rowsSane_def)
  define n where "n = notificationCount (rw_id row) ?rows + 1"
  have eq: "cw_tracker (recordEvent fresh now e w) = ?t" "cw_rows (recordEvent fresh now e w) = notified ?inc n ?res ?rows"
    "cw_draws (recordEvent fresh now e w) = cw_draws w"
    using assms(4) h(5) id by (simp_all add: recordEvent_def Let_def n_def)
  have dist: "distinct (map rw_id ?rows)" using assms(3) by (simp add: rowsSane_def)
  note nr = openRows_notified[OF dist h(5) id, unfolded row(2), OF h(4)]
  have "inPhase ?t (notified ?inc n ?res ?rows) events"
  proof (rule phase_tail[OF assms(1,2) frame_refl])
    show "openRowsOf (notified ?inc n ?res ?rows) k = openRowsOf ?rows k" if "k \<noteq> kindOf e" for k
      by (rule nr(1)[OF that])
    show "matchKind ?t (notified ?inc n ?res ?rows) (kindOf e)"
      unfolding matchKind_def nr(2) using h by (cases "ie_type e = EvRecover") (auto simp: rowMatches_def)
  qed
  then show ?thesis using assms(1) rowsSane_notified[OF assms(3) h(2)] by (simp add: eq)
qed

lemma records_phase:
  assumes "wfTracker (cw_tracker w)" "inPhase (cw_tracker w) (cw_rows w) events" "rowsSane fresh (cw_draws w) (cw_rows w)"
    "inj fresh" "\<forall>n. fresh n \<noteq> []"
  shows "wfTracker (cw_tracker (recordEvents fresh now events w)) \<and>
    inPhase (cw_tracker (recordEvents fresh now events w)) (cw_rows (recordEvents fresh now events w)) [] \<and>
    rowsSane fresh (cw_draws (recordEvents fresh now events w)) (cw_rows (recordEvents fresh now events w))"
  using assms(1-3)
proof (induction events arbitrary: w)
  case Nil
  then show ?case by (simp add: recordEvents_def)
next
  case (Cons e events)
  then show ?case
    using record_open_phase[OF Cons.prems assms(4,5)] record_alert_phase[OF Cons.prems] Cons.IH[of "recordEvent fresh now e w"]
    by (cases "ie_type e = EvOpen") (simp_all add: recordEvents_def)
qed

section \<open>Evaluations and restarts\<close>

definition sound :: "(nat \<Rightarrow> string) \<Rightarrow> capacity_world \<Rightarrow> bool" where
  "sound fresh w \<longleftrightarrow>
     rowsSane fresh (cw_draws w) (cw_rows w) \<and>
     (if cw_restored w then wfTracker (cw_tracker w) \<and> inPhase (cw_tracker w) (cw_rows w) []
      else cw_tracker w = newTracker \<and> (\<forall>k. length (openRowsOf (cw_rows w) k) \<le> 1))"

definition emptyWorld :: capacity_world where
  "emptyWorld = \<lparr>cw_tracker = newTracker, cw_restored = False, cw_latest = None, cw_rows = [], cw_draws = 0,
     cw_inApp = [], cw_messages = []\<rparr>"

definition restart :: "capacity_world \<Rightarrow> capacity_world" where
  "restart w = w\<lparr>cw_tracker := newTracker, cw_restored := False, cw_latest := None\<rparr>"

definition openOf :: "ResourceIncidentState list \<Rightarrow> ResourceKind \<Rightarrow> ResourceIncidentState list" where
  "openOf is k = filter (\<lambda>i. ri_kind i = k) is"

definition restoreOne :: "ResourceIncidentState \<Rightarrow> ResourceIncidentTracker \<Rightarrow> ResourceIncidentTracker" where
  "restoreOne incident t =
     (case allocate incident t of (r, t') \<Rightarrow> t'\<lparr>tk_open := AList.update (ri_kind incident) r (tk_open t')\<rparr>)"

lemma restore_fold: "restore is t = fold restoreOne is t"
  by (simp add: restore_def restoreOne_def[abs_def])

lemma restore_view:
  assumes "\<forall>i \<in> set is. ri_level i \<noteq> LevelOk" "\<forall>k. length (openOf is k) \<le> 1"
  shows "wfTracker (restore is newTracker) \<and> tk_breachSince (restore is newTracker) = [] \<and>
    (\<forall>k. case openOf is k of
        [] \<Rightarrow> map_of (tk_open (restore is newTracker)) k = None
      | i # _ \<Rightarrow> \<exists>r. map_of (tk_open (restore is newTracker)) k = Some r \<and> tk_heap (restore is newTracker) ! r = i)"
  using assms
proof (induction "is" rule: rev_induct)
  case Nil
  then show ?case by (simp add: restore_def newTracker_def wfTracker_def openOf_def)
next
  case (snoc i js)
  have few: "\<forall>k. length (openOf js k) \<le> 1"
  proof
    fix k show "length (openOf js k) \<le> 1" using snoc.prems(2)[rule_format, of k] by (simp add: openOf_def split: if_splits)
  qed
  let ?t = "restore js newTracker"
  let ?u = "restore (js @ [i]) newTracker"
  have ih: "wfTracker ?t" "tk_breachSince ?t = []"
    "\<And>k. case openOf js k of [] \<Rightarrow> map_of (tk_open ?t) k = None | i # _ \<Rightarrow> \<exists>r. map_of (tk_open ?t) k = Some r \<and> tk_heap ?t ! r = i"
    using snoc.IH few snoc.prems(1) by auto
  have u: "map_of (tk_open ?u) = (map_of (tk_open ?t))(ri_kind i \<mapsto> length (tk_heap ?t))"
    "tk_heap ?u = tk_heap ?t @ [i]" "tk_breachSince ?u = []"
    using ih(2) by (simp_all add: restore_fold restoreOne_def allocate_def)
  have empty: "openOf js (ri_kind i) = []" using snoc.prems(2)[rule_format, of "ri_kind i"] by (simp add: openOf_def)
  have old: "r < length (tk_heap ?t)" if "map_of (tk_open ?t) k = Some r" for k r using wfD(1)[OF ih(1) that] .
  have "wfTracker ?u"
    unfolding wfTracker_def u using wfD[OF ih(1)] snoc.prems(1) by (auto simp: nth_append intro: less_SucI)
  moreover have "case openOf (js @ [i]) k of [] \<Rightarrow> map_of (tk_open ?u) k = None
      | j # _ \<Rightarrow> \<exists>r. map_of (tk_open ?u) k = Some r \<and> tk_heap ?u ! r = j" for k
  proof (cases "k = ri_kind i")
    case True
    then show ?thesis unfolding u using empty by (simp add: openOf_def)
  next
    case False
    then have "openOf (js @ [i]) k = openOf js k" by (simp add: openOf_def)
    then show ?thesis using ih(3)[of k] False old[of k] unfolding u by (auto simp: nth_append split: list.splits)
  qed
  ultimately show ?case using u(3) by simp
qed

lemma openOf_listOpen:
  "openOf (listOpen rows) k = map (\<lambda>row. \<lparr>ri_causes = rw_causes row, ri_id = Some (rw_id row), ri_kind = rw_kind row,
         ri_lastNotifiedAt = rw_lastNotifiedAt row, ri_level = rw_level row, ri_peak = rw_peakPercent row,
         ri_startedAt = rw_startedAt row\<rparr>) (openRowsOf rows k)"
proof -
  have "filter (\<lambda>row. rw_kind row = k) (filter (\<lambda>row. rw_resolvedAt row = None) rows) = openRowsOf rows k"
    unfolding filter_filter openRowsOf_def by (rule filter_cong) auto
  then show ?thesis by (simp add: openOf_def listOpen_def filter_map o_def)
qed

lemma restore_matches:
  assumes "rowsSane fresh draws rows" "\<forall>k. length (openRowsOf rows k) \<le> 1"
  shows "wfTracker (restore (listOpen rows) newTracker) \<and> tk_breachSince (restore (listOpen rows) newTracker) = [] \<and>
    inPhase (restore (listOpen rows) newTracker) rows []"
proof -
  let ?t = "restore (listOpen rows) newTracker"
  have "\<forall>i \<in> set (listOpen rows). ri_level i \<noteq> LevelOk" using assms(1) by (auto simp: rowsSane_def listOpen_def)
  then have r: "wfTracker ?t" "tk_breachSince ?t = []"
    "\<And>k. case openOf (listOpen rows) k of [] \<Rightarrow> map_of (tk_open ?t) k = None
      | i # _ \<Rightarrow> \<exists>r. map_of (tk_open ?t) k = Some r \<and> tk_heap ?t ! r = i"
    using restore_view[of "listOpen rows"] assms(2) by (auto simp: openOf_listOpen)
  have "matchKind ?t rows k" for k
  proof (cases "openRowsOf rows k")
    case Nil
    then show ?thesis using r(3)[of k] by (simp add: openOf_listOpen matchKind_def)
  next
    case (Cons row more)
    then have "more = []" using assms(2)[rule_format, of k] by simp
    then show ?thesis using r(3)[of k] Cons by (auto simp: openOf_listOpen matchKind_def rowMatches_def)
  qed
  then show ?thesis using r(1,2) by (simp add: inPhase_def)
qed

lemma matchKind_few: "matchKind t rows k \<Longrightarrow> length (openRowsOf rows k) \<le> 1"
  by (auto simp: matchKind_def split: option.splits)

lemma inPhase_few: "inPhase t rows [] \<Longrightarrow> length (openRowsOf rows k) \<le> 1"
  by (rule matchKind_few[of t]) (simp add: inPhase_def)

lemma sound_restored:
  assumes "sound fresh w"
  shows "sound fresh (ensureRestored w) \<and> cw_restored (ensureRestored w)"
proof (cases "cw_restored w")
  case True
  then show ?thesis using assms by (simp add: ensureRestored_def)
next
  case False
  then have "rowsSane fresh (cw_draws w) (cw_rows w)" "cw_tracker w = newTracker" "\<forall>k. length (openRowsOf (cw_rows w) k) \<le> 1"
    using assms by (simp_all add: sound_def)
  then show ?thesis using restore_matches[of fresh "cw_draws w" "cw_rows w"] False by (simp add: sound_def ensureRestored_def)
qed

lemma sound_restart:
  assumes "sound fresh w"
  shows "sound fresh (restart w)"
proof -
  have "\<forall>k. length (openRowsOf (cw_rows w) k) \<le> 1"
    using assms inPhase_few[of "cw_tracker w" "cw_rows w"] unfolding sound_def by presburger
  then show ?thesis using assms by (simp add: sound_def restart_def)
qed

lemma alerts_keep [simp]:
  "cw_tracker (fold (sendAlert settings now) alerts w) = cw_tracker w"
  "cw_rows (fold (sendAlert settings now) alerts w) = cw_rows w"
  "cw_draws (fold (sendAlert settings now) alerts w) = cw_draws w"
  "cw_restored (fold (sendAlert settings now) alerts w) = cw_restored w"
  by (induction alerts arbitrary: w) (simp_all add: sendAlert_def Let_def)

lemma recordEvents_restored [simp]: "cw_restored (recordEvents fresh now events w) = cw_restored w"
proof -
  have "cw_restored (recordEvent fresh now e w) = cw_restored w" for e w
    by (simp add: recordEvent_def Let_def split: option.splits)
  then show ?thesis by (induction events arbitrary: w) (simp_all add: recordEvents_def)
qed

lemma evaluate_sound:
  assumes "sound fresh w" "inj fresh" "\<forall>n. fresh n \<noteq> []"
  shows "sound fresh (evaluate causesOf fresh settings host now w) \<and> cw_restored (evaluate causesOf fresh settings host now w)"
proof -
  let ?readings = "readResources host (st_thresholds settings)"
  define w1 where "w1 = ensureRestored (w\<lparr>cw_latest := Some (now, ?readings)\<rparr>)"
  have "sound fresh (w\<lparr>cw_latest := Some (now, ?readings)\<rparr>)" using assms(1) by (cases "cw_restored w") (simp_all add: sound_def)
  then have w1: "sound fresh w1" "cw_restored w1" using sound_restored by (auto simp: w1_def)
  then have s: "wfTracker (cw_tracker w1)" "inPhase (cw_tracker w1) (cw_rows w1) []" "rowsSane fresh (cw_draws w1) (cw_rows w1)"
    by (simp_all add: sound_def)
  obtain events t where n: "trackNext ?readings now (timingOf settings) (cw_tracker w1) = (events, t)" by force
  have t: "wfTracker t" using trackNext_refines[OF s(1) readResources_kinds n] by simp
  have p: "inPhase t (cw_rows w1) events" using track_phase[OF s(1,2) readResources_kinds _ n] by simp
  define w2 where "w2 = recordEvents fresh now events (w1\<lparr>cw_tracker := explain causesOf events t\<rparr>)"
  have "wfTracker (cw_tracker w2) \<and> inPhase (cw_tracker w2) (cw_rows w2) [] \<and> rowsSane fresh (cw_draws w2) (cw_rows w2)"
    unfolding w2_def by (rule records_phase[OF _ _ _ assms(2,3)]) (use explain_phase[OF t p, of causesOf] s(3) in auto)
  moreover have "evaluate causesOf fresh settings host now w = fold (sendAlert settings now) (groupIncidentEvents (cw_tracker w2) events) w2"
    by (simp add: evaluate_def Let_def w1_def[symmetric] n w2_def)
  ultimately show ?thesis using w1(2) by (simp add: sound_def w2_def)
qed

datatype capacity_op =
    Evaluate "InsightResource \<Rightarrow> ResourceCause list" capacity_settings HostUsageInput timestamp
  | Restart

fun capacityStep :: "(nat \<Rightarrow> string) \<Rightarrow> capacity_op \<Rightarrow> capacity_world \<Rightarrow> capacity_world" where
  "capacityStep fresh (Evaluate causesOf settings host now) w = evaluate causesOf fresh settings host now w"
| "capacityStep fresh Restart w = restart w"

lemma steps_sound:
  assumes "inj fresh" "\<forall>n. fresh n \<noteq> []"
  shows "sound fresh (fold (capacityStep fresh) ops emptyWorld)"
proof -
  have "sound fresh w \<Longrightarrow> sound fresh (fold (capacityStep fresh) ops w)" for w
  proof (induction ops arbitrary: w)
    case (Cons op ops)
    then show ?case using evaluate_sound[OF Cons.prems assms] sound_restart[OF Cons.prems] by (cases op) auto
  qed simp
  moreover have "sound fresh emptyWorld" by (simp add: sound_def emptyWorld_def rowsSane_def openRowsOf_def)
  ultimately show ?thesis by blast
qed

section \<open>Theorems\<close>

definition idleHost :: "rat \<Rightarrow> HostUsageInput" where
  "idleHost cpu = \<lparr>hu_cpuPercent = cpu, hu_diskTotalGb = None, hu_diskUsedGb = None, hu_gpu = None, hu_memTotalMb = 0, hu_memUsedMb = 0\<rparr>"

definition sampleSettings :: capacity_settings where
  "sampleSettings = \<lparr>st_thresholds = DEFAULT_THRESHOLDS, st_reminderMinutes = 30, st_sustainSeconds = 0, st_origin = None\<rparr>"

lemma inj_show_nat: "inj show_nat"
  by (simp add: inj_on_def)

text \<open>One evaluation with the CPU at 99 percent.\<close>

definition busyWorld :: capacity_world where
  "busyWorld = fold (capacityStep show_nat) ([] @ [Evaluate (\<lambda>_. []) sampleSettings (idleHost 99) 0]) emptyWorld"



text \<open>The automaton of an incident does not look at its peak.\<close>

lemma step_peak: "fst (stepWatch timing now r (Alarmed l s n p)) = fst (stepWatch timing now r (Alarmed l s n q))"
  by simp

lemma roundEvents_filter:
  assumes "\<And>r. r \<in> set readings \<Longrightarrow> P (rr_kind r) \<Longrightarrow>
    fst (stepWatch timing now r (v (rr_kind r))) = fst (stepWatch timing now r (v' (rr_kind r)))"
  shows "filter (\<lambda>x. P (fst x)) (roundEvents timing now readings v) = filter (\<lambda>x. P (fst x)) (roundEvents timing now readings v')"
  using assms by (induction readings) (auto simp: roundEvents_def List.map_filter_simps split: option.splits)

lemma summary_filter:
  "map eventSummary (filter (\<lambda>e. P (kindOf e)) events) = filter (\<lambda>x. P (fst x)) (map eventSummary events)"
  by (simp add: filter_map o_def eventSummary_def kindOf_def)

lemma restart_views:
  assumes "sound fresh w" "cw_restored w"
  shows "wfTracker (cw_tracker (ensureRestored (restart w)))"
    and "map_of (tk_open (cw_tracker (ensureRestored (restart w)))) k = None \<longleftrightarrow> map_of (tk_open (cw_tracker w)) k = None"
    and "map_of (tk_open (cw_tracker w)) k \<noteq> None \<Longrightarrow>
      \<exists>l s n p q. view (cw_tracker w) k = Alarmed l s n p \<and> view (cw_tracker (ensureRestored (restart w))) k = Alarmed l s n q \<and> q \<le> p"
proof -
  let ?t = "cw_tracker w" and ?t' = "cw_tracker (ensureRestored (restart w))"
  have s: "wfTracker ?t" "inPhase ?t (cw_rows w) []" "rowsSane fresh (cw_draws w) (cw_rows w)"
    using assms by (auto simp: sound_def)
  have t': "?t' = restore (listOpen (cw_rows w)) newTracker" by (simp add: ensureRestored_def restart_def)
  have r: "wfTracker ?t'" "inPhase ?t' (cw_rows w) []"
    unfolding t' using restore_matches[OF s(3)] inPhase_few[OF s(2)] by auto
  then show "wfTracker ?t'" by simp
  have m: "matchKind ?t (cw_rows w) k" "matchKind ?t' (cw_rows w) k" using s(2) r(2) by (simp_all add: inPhase_def)
  then show "map_of (tk_open ?t') k = None \<longleftrightarrow> map_of (tk_open ?t) k = None"
    by (auto simp: matchKind_def split: option.splits)
  show "\<exists>l s n p q. view ?t k = Alarmed l s n p \<and> view ?t' k = Alarmed l s n q \<and> q \<le> p"
    if opened: "map_of (tk_open ?t) k \<noteq> None"
  proof -
    obtain a row where a: "map_of (tk_open ?t) k = Some a" "openRowsOf (cw_rows w) k = [row]" "rowMatches row (tk_heap ?t ! a)"
      using m(1) opened unfolding matchKind_def by (cases "map_of (tk_open ?t) k") auto
    obtain b where b: "map_of (tk_open ?t') k = Some b" "rowMatches row (tk_heap ?t' ! b)"
      using m(2) a(2) by (auto simp: matchKind_def split: option.splits)
    have "tk_heap ?t' ! b = last (openOf (listOpen (cw_rows w)) k)"
    proof -
      have "\<forall>i \<in> set (listOpen (cw_rows w)). ri_level i \<noteq> LevelOk" using s(3) by (auto simp: rowsSane_def listOpen_def)
      moreover have "\<forall>k. length (openOf (listOpen (cw_rows w)) k) \<le> 1"
        using inPhase_few[OF s(2)] by (simp add: openOf_listOpen)
      ultimately show ?thesis
        using restore_view[of "listOpen (cw_rows w)"] a(2) b(1) unfolding t' by (auto simp: openOf_listOpen dest!: spec[of _ k])
    qed
    then have "ri_peak (tk_heap ?t' ! b) = rw_peakPercent row" using a(2) by (simp add: openOf_listOpen)
    then show ?thesis using a b by (simp add: view_def incidentWatch_def rowMatches_def)
  qed
qed

text \<open>
  A restart neither repeats an alert nor loses a recovery: whatever the next readings are, the service that
  restarted before them holds incidents of the same resources, and takes the same events for them, as the one
  that did not. (A limit crossed without an incident yet starts its window again.)
\<close>

theorem restart_keeps_incidents:
  assumes "inj fresh" "\<forall>n. fresh n \<noteq> []" "distinct (map rr_kind readings)"
    and "w = fold (capacityStep fresh) (ops @ [Evaluate causesOf settings host taken]) emptyWorld"
    and "trackNext readings now timing (cw_tracker w) = (events, t)"
    and "trackNext readings now timing (cw_tracker (ensureRestored (restart w))) = (events', t')"
  shows "(map_of (tk_open (cw_tracker (ensureRestored (restart w)))) k = None \<longleftrightarrow> map_of (tk_open (cw_tracker w)) k = None) \<and>
    map eventSummary (filter (\<lambda>e. map_of (tk_open (cw_tracker w)) (kindOf e) \<noteq> None) events') =
    map eventSummary (filter (\<lambda>e. map_of (tk_open (cw_tracker w)) (kindOf e) \<noteq> None) events)"
proof -
  have s: "sound fresh w" "cw_restored w"
    unfolding assms(4) using evaluate_sound[OF steps_sound[OF assms(1,2)] assms(1,2)] by auto
  then have wf: "wfTracker (cw_tracker w)" by (simp add: sound_def)
  note views = restart_views[OF s]
  let ?P = "\<lambda>k. map_of (tk_open (cw_tracker w)) k \<noteq> None"
  have "filter (\<lambda>x. ?P (fst x)) (map eventSummary events') = filter (\<lambda>x. ?P (fst x)) (map eventSummary events)"
    using trackNext_refines[OF wf assms(3,5)] trackNext_refines[OF views(1) assms(3,6)]
      roundEvents_filter[of readings ?P timing now "view (cw_tracker (ensureRestored (restart w)))" "view (cw_tracker w)"]
      views(3) step_peak by metis
  then show ?thesis using views(2)[of k] unfolding summary_filter[of ?P] by blast
qed

theorem restart_keeps_incidents_witness:
  "map eventSummary (filter (\<lambda>e. map_of (tk_open (cw_tracker busyWorld)) (kindOf e) \<noteq> None)
     (fst (trackNext [hotReading Cpu] 1800000 (timingOf sampleSettings) (cw_tracker (ensureRestored (restart busyWorld)))))) = [(Cpu, EvRemind)]"
proof -
  obtain events t where n: "trackNext [hotReading Cpu] 1800000 (timingOf sampleSettings) (cw_tracker busyWorld) = (events, t)" by force
  obtain events' t' where n': "trackNext [hotReading Cpu] 1800000 (timingOf sampleSettings) (cw_tracker (ensureRestored (restart busyWorld))) = (events', t')"
    by force
  have "distinct (map rr_kind [hotReading Cpu])" by simp
  from restart_keeps_incidents[OF inj_show_nat _ this busyWorld_def n n']
  have "map eventSummary (filter (\<lambda>e. map_of (tk_open (cw_tracker busyWorld)) (kindOf e) \<noteq> None) events') =
      map eventSummary (filter (\<lambda>e. map_of (tk_open (cw_tracker busyWorld)) (kindOf e) \<noteq> None) events)" by simp
  moreover have "map eventSummary (filter (\<lambda>e. map_of (tk_open (cw_tracker busyWorld)) (kindOf e) \<noteq> None)
      (fst (trackNext [hotReading Cpu] 1800000 (timingOf sampleSettings) (cw_tracker busyWorld)))) = [(Cpu, EvRemind)]"
    by code_simp
  ultimately show ?thesis unfolding n n' fst_conv by simp
qed

end
