(* ===== verification/Ip_Address.thy ===== *)
theory Ip_Address
  imports Js_Numbers "HOL-Library.Word"
begin

unbundle bit_operations_syntax

text \<open>
  IP addresses as \<open>lib/ip-bans.ts\<close> reads them: IPv4 octets, the 128-bit value of an IPv6 address, address ranges
  and which address may be banned. \<open>URL.canParse\<close> is the platform's; its IPv6 host parser is written out from the
  URL standard (\<open>url6\<close>). A \<open>RangeError\<close> (a negative array length, a \<open>BigInt\<close> of a number that is not an integer)
  is the left of a sum.
\<close>

section \<open>IPv4\<close>

text \<open>\<open>IPV4_RE\<close>: four runs of one to three digits between dots.\<close>

definition ipv4Octets :: "string \<Rightarrow> nat list option" where
  "ipv4Octets ip =
     (let match = split_on (CHR ''.'') ip
      in if length match = 4 \<and> list_all (\<lambda>p. 1 \<le> length p \<and> length p \<le> 3 \<and> list_all is_digit p) match
         then (let octets = map read_nat match in if list_all (\<lambda>octet. octet \<le> 255) octets then Some octets else None)
         else None)"

section \<open>The platform's IPv6 parser\<close>

text \<open>The IPv4 address at the end of an IPv6 address: four numbers up to 255 without leading zeros.\<close>

definition url_ipv4 :: "string \<Rightarrow> nat list option" where
  "url_ipv4 s =
     (let ps = split_on (CHR ''.'') s
      in if length ps = 4 \<and> list_all (\<lambda>p. p \<noteq> [] \<and> list_all is_digit p \<and> (length p = 1 \<or> hd p \<noteq> CHR ''0'') \<and> read_nat p \<le> 255) ps
         then Some (map read_nat ps) else None)"

definition hex_run :: "string \<Rightarrow> string" where
  "hex_run s = take 4 (takeWhile is_hex s)"

definition hex_number :: "string \<Rightarrow> nat" where
  "hex_number s = foldl (\<lambda>acc c. acc * 16 + hex_val c) 0 s"

text \<open>The loop: the pieces set so far, where the run of zeros stands, and what is left to read.\<close>

function url6 :: "nat list \<Rightarrow> nat option \<Rightarrow> string \<Rightarrow> (nat list \<times> nat option) option" where
  "url6 pieces compress s =
     (if s = [] then Some (pieces, compress)
      else if length pieces = 8 then None
      else if hd s = CHR '':'' then
        (if compress = None then url6 (pieces @ [0]) (Some (length pieces + 1)) (tl s) else None)
      else
        (let ds = hex_run s; rest = drop (length ds) s
         in if rest = [] then Some (pieces @ [hex_number ds], compress)
            else if hd rest = CHR ''.'' then
              (if ds = [] \<or> length pieces > 6 then None
               else case url_ipv4 s of
                      Some [a, b, c, d] \<Rightarrow> Some (pieces @ [a * 256 + b, c * 256 + d], compress)
                    | _ \<Rightarrow> None)
            else if hd rest = CHR '':'' then
              (if tl rest = [] then None else url6 (pieces @ [hex_number ds]) compress (tl rest))
            else None))"
  by pat_completeness auto
termination
proof (relation "measure (\<lambda>(pieces, compress, s). length s)", goal_cases)
  case (3 pieces compress s ds rest)
  then have "length rest \<le> length s" "rest \<noteq> []" by auto
  then show ?case by (cases rest) auto
qed auto

declare url6.simps [simp del]

definition url6_finish :: "nat list \<times> nat option \<Rightarrow> nat list option" where
  "url6_finish = (\<lambda>(pieces, compress).
     case compress of
       None \<Rightarrow> if length pieces = 8 then Some pieces else None
     | Some c \<Rightarrow> Some (take c pieces @ replicate (8 - length pieces) 0 @ drop c pieces))"

definition url_ipv6 :: "string \<Rightarrow> nat list option" where
  "url_ipv6 s =
     (if s \<noteq> [] \<and> hd s = CHR '':'' then
        (if starts_with ''::'' s then Option.bind (url6 [0] (Some 1) (drop 2 s)) url6_finish else None)
      else Option.bind (url6 [] None s) url6_finish)"

section \<open>IPv6\<close>

text \<open>\<open>/^[0-9a-f:.]+$/i\<close>, and \<open>URL.canParse\<close> of the address between brackets.\<close>

definition isIpv6 :: "string \<Rightarrow> bool" where
  "isIpv6 ip \<longleftrightarrow>
     CHR '':'' \<in> set ip \<and> list_all (\<lambda>c. is_hex c \<or> c = CHR '':'' \<or> c = CHR ''.'') ip \<and> url_ipv6 ip \<noteq> None"

definition normalizeIp :: "string option \<Rightarrow> string option" where
  "normalizeIp ip =
     (let value = lower (trim (case ip of None \<Rightarrow> [] | Some s \<Rightarrow> s));
          value = (if starts_with ''::ffff:'' value then drop 7 value else value)
      in if ipv4Octets value \<noteq> None then Some value
         else if isIpv6 value then Some value else None)"

text \<open>\<open>/(\d+\.\d+\.\d+\.\d+)$/\<close>: the first suffix of that shape.\<close>

definition isDotted :: "string \<Rightarrow> bool" where
  "isDotted s \<longleftrightarrow>
     (let ps = split_on (CHR ''.'') s in length ps = 4 \<and> list_all (\<lambda>p. p \<noteq> [] \<and> list_all is_digit p) ps)"

fun js_suffixes :: "string \<Rightarrow> string list" where
  "js_suffixes [] = [[]]"
| "js_suffixes (c # cs) = (c # cs) # js_suffixes cs"

definition dottedTail :: "string \<Rightarrow> string option" where
  "dottedTail s = List.find isDotted (js_suffixes s)"

text \<open>\<open>text.split("::")\<close>.\<close>

fun split_colons :: "string \<Rightarrow> string list" where
  "split_colons [] = [[]]"
| "split_colons [c] = [[c]]"
| "split_colons (c # d # s) =
     (if c = CHR '':'' \<and> d = CHR '':'' then [] # split_colons s
      else (case split_colons (d # s) of [] \<Rightarrow> [[c]] | w # ws \<Rightarrow> (c # w) # ws))"

text \<open>\<open>n.toString(16)\<close>, and \<open>Number.parseInt(group, 16)\<close> of a group without blanks, sign or \<open>x\<close>.\<close>

definition hexDigit :: "nat \<Rightarrow> char" where
  "hexDigit n = (if n < 10 then digit_char n else char_of (87 + n))"

fun toString16 :: "nat \<Rightarrow> string" where
  "toString16 n = (if n < 16 then [hexDigit n] else toString16 (n div 16) @ [hexDigit (n mod 16)])"

declare toString16.simps [simp del]

definition parseInt16 :: "string \<Rightarrow> nat option" where
  "parseInt16 s = (let ds = takeWhile is_hex s in if ds = [] then None else Some (hex_number ds))"

datatype range_error = RangeError

definition splitPart :: "string \<Rightarrow> string list" where
  "splitPart part = (if part \<noteq> [] then split_on (CHR '':'') part else [])"

definition ipv6Groups :: "string \<Rightarrow> range_error + string list" where
  "ipv6Groups text =
     (case split_colons text of
        [] \<Rightarrow> Inr []
      | [head] \<Rightarrow> Inr (splitPart head)
      | head # rest # _ \<Rightarrow>
          if length (splitPart head) + length (splitPart rest) > 8 then Inl RangeError
          else Inr (splitPart head @ replicate (8 - length (splitPart head) - length (splitPart rest)) ''0'' @ splitPart rest))"

fun reduceGroups :: "int \<Rightarrow> string list \<Rightarrow> range_error + int" where
  "reduceGroups value [] = Inr value"
| "reduceGroups value (g # gs) =
     (case parseInt16 g of
        None \<Rightarrow> Inl RangeError
      | Some n \<Rightarrow> reduceGroups (push_bit 16 value OR int n) gs)"

definition ipv6TextValue :: "string \<Rightarrow> range_error + int option" where
  "ipv6TextValue text =
     (case ipv6Groups text of
        Inl e \<Rightarrow> Inl e
      | Inr groups \<Rightarrow>
          if length groups \<noteq> 8 then Inr None
          else (case reduceGroups 0 groups of Inl e \<Rightarrow> Inl e | Inr value \<Rightarrow> Inr (Some value)))"

text \<open>The text with an embedded IPv4 tail rewritten as two groups; nothing when the tail is no IPv4 address.\<close>

definition replaceTail :: "string \<Rightarrow> string option" where
  "replaceTail ip =
     (case dottedTail ip of
        None \<Rightarrow> Some ip
      | Some tail \<Rightarrow>
          (case ipv4Octets tail of
             None \<Rightarrow> None
           | Some octets \<Rightarrow>
               Some (take (length ip - length tail) ip
                 @ toString16 (push_bit 8 (octets ! 0) OR (octets ! 1)) @ '':''
                 @ toString16 (push_bit 8 (octets ! 2) OR (octets ! 3)))))"

definition ipv6Value :: "string \<Rightarrow> range_error + int option" where
  "ipv6Value ip =
     (if \<not> isIpv6 ip then Inr None
      else case replaceTail ip of None \<Rightarrow> Inr None | Some text \<Rightarrow> ipv6TextValue text)"

section \<open>Ranges\<close>

text \<open>The width and the value of an address.\<close>

definition addressValue :: "string \<Rightarrow> range_error + (nat \<times> int) option" where
  "addressValue ip =
     (case ipv4Octets ip of
        Some octets \<Rightarrow> Inr (Some (32, foldl (\<lambda>value octet. push_bit 8 value OR int octet) 0 octets))
      | None \<Rightarrow>
          (case ipv6Value ip of
             Inl e \<Rightarrow> Inl e
           | Inr None \<Rightarrow> Inr None
           | Inr (Some value) \<Rightarrow> Inr (Some (128, value))))"

text \<open>\<open>value >> shift\<close> on \<open>BigInt\<close>: a negative shift goes to the left.\<close>

definition shift_right :: "int \<Rightarrow> int \<Rightarrow> int" where
  "shift_right value shift = (if shift \<ge> 0 then drop_bit (nat shift) value else push_bit (nat (- shift)) value)"

definition ipInCidr :: "string \<Rightarrow> string \<Rightarrow> range_error + bool" where
  "ipInCidr ip cidr =
     (let parts = split_on (CHR ''/'') cidr
      in case addressValue (case normalizeIp (Some ip) of None \<Rightarrow> [] | Some v \<Rightarrow> v) of
           Inl e \<Rightarrow> Inl e
         | Inr address \<Rightarrow>
             (case addressValue (hd parts) of
                Inl e \<Rightarrow> Inl e
              | Inr rng \<Rightarrow>
                  (case as_integer (if length parts > 1 then js_number (parts ! 1) else None) of
                     None \<Rightarrow> Inl RangeError
                   | Some len \<Rightarrow>
                       (case (address, rng) of
                          (Some (bits, value), Some (rbits, rvalue)) \<Rightarrow>
                            if bits \<noteq> rbits then Inr False
                            else Inr (shift_right value (int bits - len) = shift_right rvalue (int bits - len))
                        | _ \<Rightarrow> Inr False))))"

definition CLOUDFLARE_RANGES :: "string list" where
  "CLOUDFLARE_RANGES =
     [''173.245.48.0/20'', ''103.21.244.0/22'', ''103.22.200.0/22'', ''103.31.4.0/22'', ''141.101.64.0/18'',
      ''108.162.192.0/18'', ''190.93.240.0/20'', ''188.114.96.0/20'', ''197.234.240.0/22'', ''198.41.128.0/17'',
      ''162.158.0.0/15'', ''104.16.0.0/13'', ''104.24.0.0/14'', ''172.64.0.0/13'', ''131.0.72.0/22'',
      ''2400:cb00::/32'', ''2606:4700::/32'', ''2803:f800::/32'', ''2405:b500::/32'', ''2405:8100::/32'',
      ''2a06:98c0::/29'', ''2c0f:f248::/32'']"

definition NEVER_BANNED_RANGES :: "string list" where
  "NEVER_BANNED_RANGES =
     [''0.0.0.0/8'', ''10.0.0.0/8'', ''100.64.0.0/10'', ''127.0.0.0/8'', ''169.254.0.0/16'', ''172.16.0.0/12'',
      ''192.168.0.0/16'', ''224.0.0.0/3'', ''::/128'', ''::1/128'', ''fc00::/7'', ''fe80::/10'', ''ff00::/8'']"

text \<open>\<open>Array.prototype.some\<close> with a test that may throw.\<close>

fun some_range :: "string \<Rightarrow> string list \<Rightarrow> range_error + bool" where
  "some_range ip [] = Inr False"
| "some_range ip (cidr # cidrs) =
     (case ipInCidr ip cidr of
        Inl e \<Rightarrow> Inl e
      | Inr True \<Rightarrow> Inr True
      | Inr False \<Rightarrow> some_range ip cidrs)"

definition bannableIp :: "string option \<Rightarrow> range_error + bool" where
  "bannableIp ip =
     (case normalizeIp ip of
        None \<Rightarrow> Inr False
      | Some value \<Rightarrow> map_sum id Not (some_range value (NEVER_BANNED_RANGES @ CLOUDFLARE_RANGES)))"

end
