(* ===== verification/Service_Domains.thy ===== *)
theory Service_Domains
  imports Path_Patterns
begin

text \<open>
  \<open>src/lib/service-domains.ts\<close> and \<open>services/service-for-host.ts\<close>: the domains a service answers on, the hostname a
  preview gets from its parent's template, and the environment of a preview with its parent's hostnames replaced.
\<close>

section \<open>Labels, domains and paths\<close>

definition label_edge :: "char \<Rightarrow> bool" where
  "label_edge c \<longleftrightarrow> is_lower_ascii c \<or> is_digit c"

text \<open>\<open>DNS_LABEL_RE\<close>.\<close>

definition isDnsLabel :: "string \<Rightarrow> bool" where
  "isDnsLabel label \<longleftrightarrow>
     label \<noteq> [] \<and> length label \<le> 63 \<and> label_edge (hd label) \<and> label_edge (last label) \<and> list_all is_slug_char label"

text \<open>\<open>DOMAIN_RE\<close>: labels each followed by a dot, then two to 63 letters; 253 characters at most.\<close>

definition isDomainName :: "string \<Rightarrow> bool" where
  "isDomainName s \<longleftrightarrow>
     (let labels = split_on (CHR ''.'') s
      in length s \<le> 253 \<and> length labels \<ge> 2 \<and> list_all isDnsLabel (butlast labels) \<and>
         list_all is_lower_ascii (last labels) \<and> 2 \<le> length (last labels) \<and> length (last labels) \<le> 63)"

definition path_char :: "char \<Rightarrow> bool" where
  "path_char c \<longleftrightarrow> is_lower_ascii c \<or> is_digit c \<or> c \<in> set ''._~%!$&()*+,;=:@-'' \<or> c = CHR 0x27"

text \<open>\<open>DOMAIN_PATH_RE\<close>: one or more segments, each after a slash.\<close>

definition isDomainPath :: "string \<Rightarrow> bool" where
  "isDomainPath path \<longleftrightarrow>
     path \<noteq> [] \<and> hd path = CHR ''/'' \<and> list_all (\<lambda>seg. seg \<noteq> [] \<and> list_all path_char seg) (split_on (CHR ''/'') (tl path))"

definition splitDomain :: "string \<Rightarrow> string \<times> string" where
  "splitDomain entry = (takeWhile (\<lambda>c. c \<noteq> CHR ''/'') entry, dropWhile (\<lambda>c. c \<noteq> CHR ''/'') entry)"

definition isDomainEntry :: "string \<Rightarrow> bool" where
  "isDomainEntry entry \<longleftrightarrow>
     (let (host, path) = splitDomain entry in isDomainName host \<and> (path = [] \<or> isDomainPath path))"

definition domainHosts :: "string list \<Rightarrow> string list" where
  "domainHosts entries = js_unique (map (\<lambda>entry. fst (splitDomain entry)) entries)"

section \<open>The hostnames of a service\<close>

record ServiceDomainFields =
  sd_defaultDomainEnabled :: bool
  sd_domains :: "string list"
  sd_primaryDomain :: "string option"
  sd_slug :: string

definition defaultHostname :: "string \<Rightarrow> string option \<Rightarrow> string \<Rightarrow> string" where
  "defaultHostname slug stackSlug baseDomain = stackScopedSlug stackSlug slug @ ''.'' @ baseDomain"

definition serviceHostnames :: "ServiceDomainFields \<Rightarrow> string option \<Rightarrow> string \<Rightarrow> string list" where
  "serviceHostnames svc stackSlug baseDomain =
     (if sd_defaultDomainEnabled svc then [defaultHostname (sd_slug svc) stackSlug baseDomain] else []) @ sd_domains svc"

definition primaryHostname :: "ServiceDomainFields \<Rightarrow> string option \<Rightarrow> string \<Rightarrow> string option" where
  "primaryHostname svc stackSlug baseDomain =
     (let hostnames = serviceHostnames svc stackSlug baseDomain;
          first = (case hostnames of [] \<Rightarrow> None | h # _ \<Rightarrow> Some h)
      in case sd_primaryDomain svc of
           None \<Rightarrow> first
         | Some primary \<Rightarrow> if primary \<noteq> [] \<and> primary \<in> set hostnames then Some primary else first)"

definition isUnderDomain :: "string \<Rightarrow> string \<Rightarrow> bool" where
  "isUnderDomain hostname baseDomain \<longleftrightarrow> hostname = baseDomain \<or> ends_with (''.'' @ baseDomain) hostname"

definition normalizeDomain :: "string \<Rightarrow> string" where
  "normalizeDomain raw = strip_trailing (CHR ''/'') (lower (trim raw))"

definition normalizeDomains :: "string list \<Rightarrow> string list" where
  "normalizeDomains raw = js_unique (filter (\<lambda>d. d \<noteq> []) (map normalizeDomain raw))"

text \<open>The service that routes a host: services with their id, their stack and their domains.\<close>

record routedService = ServiceDomainFields +
  sd_id :: string
  sd_stackId :: "string option"
  sd_blockedPaths :: "string list"

definition serviceForHost ::
  "routedService list \<Rightarrow> string js_map \<Rightarrow> string \<Rightarrow> string \<Rightarrow> routedService option" where
  "serviceForHost services stackSlugs baseDomain host =
     List.find (\<lambda>entry.
        host \<in> set (domainHosts (serviceHostnames (ServiceDomainFields.truncate entry)
          (case sd_stackId entry of None \<Rightarrow> None | Some i \<Rightarrow> if i = [] then None else map_of stackSlugs i) baseDomain)))
       services"

section \<open>Preview domains\<close>

definition lower_alnum :: "char \<Rightarrow> bool" where
  "lower_alnum c \<longleftrightarrow> is_lower_ascii c \<or> is_digit c"

definition branchLabel :: "string \<Rightarrow> string" where
  "branchLabel branch =
     (let s = replace_runs (\<lambda>c. \<not> lower_alnum c) ''-'' (lower branch);
          s = strip_trailing (CHR ''-'') (dropWhile (\<lambda>c. c = CHR ''-'') s);
          s = strip_trailing (CHR ''-'') (take 63 s)
      in if s \<noteq> [] then s else ''branch'')"

text \<open>\<open>s.replaceAll(needle, r)\<close> for a needle that is not empty and an \<open>r\<close> without dollars.\<close>

function replaceAll :: "string \<Rightarrow> string \<Rightarrow> string \<Rightarrow> string" where
  "replaceAll needle r [] = []"
| "replaceAll needle r (c # cs) =
     (if needle \<noteq> [] \<and> starts_with needle (c # cs) then r @ replaceAll needle r (drop (length needle) (c # cs))
      else c # replaceAll needle r cs)"
  by pat_completeness auto
termination by (relation "measure (\<lambda>(needle, r, s). length s)") (auto simp: Suc_le_eq)

definition renderPreviewDomain :: "string option \<Rightarrow> string option \<Rightarrow> nat \<Rightarrow> string \<Rightarrow> string option" where
  "renderPreviewDomain template branch pr slug =
     (let trimmed = (case template of None \<Rightarrow> [] | Some t \<Rightarrow> lower (trim t))
      in if trimmed = [] then None
         else Some (replaceAll ''{slug}'' slug
                (replaceAll ''{branch}'' (branchLabel (case branch of Some b \<Rightarrow> b | None \<Rightarrow> ''pr-'' @ show_nat pr))
                   (replaceAll ''{pr}'' (show_nat pr) trimmed))))"

datatype template_problem = NeedsPrOrBranch | NotADomain string "string option"

definition previewDomainTemplateProblem :: "string \<Rightarrow> template_problem option" where
  "previewDomainTemplateProblem template =
     (let trimmed = lower (trim template)
      in if \<not> (contains_str ''{pr}'' trimmed \<or> contains_str ''{branch}'' trimmed) then Some NeedsPrOrBranch
         else (let sample = renderPreviewDomain (Some trimmed) (Some ''feature-branch'') 123 ''app''
               in case sample of
                    None \<Rightarrow> Some (NotADomain (trim template) sample)
                  | Some s \<Rightarrow> if s \<noteq> [] \<and> isDomainName s then None else Some (NotADomain (trim template) sample)))"

section \<open>Hostnames in a preview's environment\<close>

text \<open>The text of the pattern: the hosts with their dots escaped, not next to another character of a hostname.\<close>

definition hostnamePattern :: "string list \<Rightarrow> string" where
  "hostnamePattern hosts =
     ''(?<![a-z0-9.-])(?:'' @ join ''|'' (map (replaceAll ''.'' [CHR 0x5C, CHR ''.'']) hosts) @ '')(?![a-z0-9.-])''"

text \<open>\<open>None\<close> when \<open>new RegExp\<close> throws on the pattern.\<close>

definition rewriteHostnames :: "string js_map \<Rightarrow> string list \<Rightarrow> string option \<Rightarrow> string js_map option" where
  "rewriteHostnames env from_hosts to_host =
     (let hosts = filter (\<lambda>host. host \<noteq> [] \<and> Some host \<noteq> to_host) from_hosts
      in case to_host of
           None \<Rightarrow> Some env
         | Some repl \<Rightarrow>
             if repl = [] \<or> hosts = [] then Some env
             else map_option (\<lambda>alts. map (\<lambda>(key, v). (key, replaceRx True alts repl ([], v))) env)
                    (readRx (hostnamePattern hosts)))"

end
