(* ===== verification/Ip_Bans.thy ===== *)
theory Ip_Bans
  imports Ip_Address Service_Domains Notifications Cron_Expression
begin

text \<open>
  Banning client addresses: the settings and decisions of \<open>lib/ip-bans.ts\<close>, what \<open>lib/ip-intel.ts\<close> reads from its
  sources, the \<open>ip_ban\<close> and \<open>blocked_hit\<close> tables (\<open>dto/ip-ban-dto.ts\<close>, \<open>dto/blocked-hit-dto.ts\<close>) and the service
  that ties them (\<open>services/ip-ban.service.ts\<close>). The proof token is an HMAC of the platform and a field of the
  configuration; the bans file holds the JSON value it is printed from; what the service hands to CrowdSec, SMTP and
  the notification channels is a list of effects.
\<close>

section \<open>Settings\<close>

record IpBanSettings =
  is_autoReportAbuse :: bool
  is_disrespectMode :: bool
  is_durationHours :: int
  is_enabled :: bool
  is_meanMode :: bool
  is_threshold :: int
  is_windowMinutes :: int

definition DEFAULT_IP_BAN_SETTINGS :: IpBanSettings where
  "DEFAULT_IP_BAN_SETTINGS =
     \<lparr>is_autoReportAbuse = False, is_disrespectMode = False, is_durationHours = 0, is_enabled = True, is_meanMode = False,
      is_threshold = 10, is_windowMinutes = 10\<rparr>"

definition MAX_BAN_WINDOW_MINUTES :: int where
  "MAX_BAN_WINDOW_MINUTES = 1440"

definition BLOCKED_HIT_RETENTION_MS :: int where
  "BLOCKED_HIT_RETENTION_MS = 7 * 86400000"

text \<open>Stored settings; a number that is missing, no number or not finite is \<open>None\<close>.\<close>

record storedIpBans =
  sb_autoReportAbuse :: "bool option"
  sb_disrespectMode :: "bool option"
  sb_durationHours :: "rat option"
  sb_enabled :: "bool option"
  sb_meanMode :: "bool option"
  sb_threshold :: "rat option"
  sb_windowMinutes :: "rat option"

definition whole :: "rat option \<Rightarrow> int \<Rightarrow> int \<Rightarrow> int option" where
  "whole v lo hi =
     (case as_integer v of None \<Rightarrow> None | Some i \<Rightarrow> if i \<ge> lo \<and> i \<le> hi then Some i else None)"

definition withDefault :: "'a option \<Rightarrow> 'a \<Rightarrow> 'a" where
  "withDefault v d = (case v of None \<Rightarrow> d | Some x \<Rightarrow> x)"

definition withIpBanDefaults :: "storedIpBans option \<Rightarrow> IpBanSettings" where
  "withIpBanDefaults stored =
     (let d = DEFAULT_IP_BAN_SETTINGS
      in \<lparr>is_autoReportAbuse = withDefault (Option.bind stored sb_autoReportAbuse) (is_autoReportAbuse d),
          is_disrespectMode = withDefault (Option.bind stored sb_disrespectMode) (is_disrespectMode d),
          is_durationHours = withDefault (whole (Option.bind stored sb_durationHours) 0 8760) (is_durationHours d),
          is_enabled = withDefault (Option.bind stored sb_enabled) (is_enabled d),
          is_meanMode = withDefault (Option.bind stored sb_meanMode) (is_meanMode d),
          is_threshold = withDefault (whole (Option.bind stored sb_threshold) 1 1000) (is_threshold d),
          is_windowMinutes =
            withDefault (whole (Option.bind stored sb_windowMinutes) 1 MAX_BAN_WINDOW_MINUTES) (is_windowMinutes d)\<rparr>)"

section \<open>Decisions\<close>

type_synonym headers = "string \<Rightarrow> string option"

definition clientIpFrom :: "headers \<Rightarrow> string option" where
  "clientIpFrom hs =
     (let forwarded = filter (\<lambda>hop. hop \<noteq> [])
            (map trim (split_on (CHR '','') (case hs ''x-forwarded-for'' of None \<Rightarrow> [] | Some v \<Rightarrow> v)))
      in normalizeIp (case hs ''x-real-ip'' of
           Some v \<Rightarrow> Some v
         | None \<Rightarrow> if forwarded = [] then None else Some (last forwarded)))"

definition banExpiry :: "IpBanSettings \<Rightarrow> timestamp \<Rightarrow> timestamp option" where
  "banExpiry settings now =
     (if is_durationHours settings = 0 then None else Some (now + is_durationHours settings * 3600000))"

definition shouldBan :: "int \<Rightarrow> string \<Rightarrow> IpBanSettings \<Rightarrow> range_error + bool" where
  "shouldBan hits ip settings =
     (if \<not> is_enabled settings then Inr False
      else map_sum id (\<lambda>b. b \<and> hits \<ge> is_threshold settings) (bannableIp (Some ip)))"

text \<open>\<open>bansConfig\<close>, the value the file's JSON is printed from.\<close>

definition banClients :: "string list \<Rightarrow> string" where
  "banClients ips =
     join '' || '' (map (\<lambda>ip. ''ClientIP(`'' @ ip @ ''`) || Header(`X-Real-Ip`, `'' @ ip @ ''`)'') ips)"

definition bansConfig :: "string list \<Rightarrow> string option \<Rightarrow> string \<Rightarrow> json option" where
  "bansConfig ips dashboardHost entrypoint =
     (if ips = [] then None
      else
        (let clients = banClients ips;
             rule = (case dashboardHost of
                       Some host \<Rightarrow> if host = [] then clients else ''('' @ clients @ '') && !Host(`'' @ host @ ''`)''
                     | None \<Rightarrow> clients)
         in Some (JObj [(''http'', JObj
              [(''middlewares'', JObj [(''homerun-banned'', JObj
                  [(''ipAllowList'', JObj [(''sourceRange'', JArr [JStr ''127.0.0.1/32''])])])]),
               (''routers'', JObj [(''homerun-banned'', JObj
                  [(''entryPoints'', JArr [JStr entrypoint]), (''middlewares'', JArr [JStr ''homerun-banned'']),
                   (''priority'', JNum 2000000000), (''rule'', JStr rule), (''service'', JStr ''noop@internal''),
                   (''tls'', JObj [])])])])])))"

section \<open>What is known of an address\<close>

record IpIntel =
  ii_abuseEmail :: "string option"
  ii_asName :: "string option"
  ii_asn :: "int option"
  ii_country :: "string option"
  ii_hostname :: "string option"
  ii_lookedUpAt :: string
  ii_network :: "string option"
  ii_networkName :: "string option"
  ii_org :: "string option"
  ii_registry :: "string option"

definition hex32 :: "int \<Rightarrow> string" where
  "hex32 n = (let s = toString16 (nat n) in replicate (32 - length s) (CHR ''0'') @ s)"

definition cymruOriginName :: "string \<Rightarrow> string option" where
  "cymruOriginName ip =
     (case normalizeIp (Some ip) of
        None \<Rightarrow> None
      | Some v \<Rightarrow>
          if CHR '':'' \<notin> set v then Some (join ''.'' (rev (split_on (CHR ''.'') v)) @ ''.origin.asn.cymru.com'')
          else (case ipv6Value v of
                  Inr (Some bits) \<Rightarrow> Some (join ''.'' (map (\<lambda>c. [c]) (rev (hex32 bits))) @ ''.origin6.asn.cymru.com'')
                | _ \<Rightarrow> None))"

definition cymruFields :: "string option \<Rightarrow> string list" where
  "cymruFields txt_record = map trim (split_on (CHR ''|'') (case txt_record of None \<Rightarrow> [] | Some t \<Rightarrow> t))"

text \<open>\<open>list[i] || null\<close> of strings, and \<open>Number.parseInt(s, 10)\<close>.\<close>

definition fieldAt :: "string list \<Rightarrow> nat \<Rightarrow> string option" where
  "fieldAt fs i = (if i < length fs \<and> fs ! i \<noteq> [] then Some (fs ! i) else None)"

definition parseInt10 :: "string \<Rightarrow> int option" where
  "parseInt10 s =
     (let t = dropWhile is_ws s; neg = (t \<noteq> [] \<and> hd t = CHR ''-'');
          ds = takeWhile is_digit (if t \<noteq> [] \<and> hd t \<in> set ''+-'' then tl t else t)
      in if ds = [] then None else Some (if neg then - int (read_nat ds) else int (read_nat ds)))"

definition parseCymruOrigin :: "string option \<Rightarrow> int option \<times> string option \<times> string option \<times> string option" where
  "parseCymruOrigin txt_record =
     (let fs = cymruFields txt_record
      in (parseInt10 (hd (split_on (CHR '' '') (hd fs))), fieldAt fs 2, fieldAt fs 1, fieldAt fs 3))"

definition parseCymruAsName :: "string option \<Rightarrow> string option" where
  "parseCymruAsName txt_record = fieldAt (cymruFields txt_record) 4"

text \<open>RDAP entities: the nested entities, the roles and the vCard entries as names with their fourth element.\<close>

datatype RdapEntity = RdapEntity (re_entities: "RdapEntity list") (re_roles: "string list") (re_vcard: "(string \<times> json) list")

definition vcardValue :: "string \<Rightarrow> RdapEntity \<Rightarrow> string option" where
  "vcardValue key e =
     (case map_of (re_vcard e) key of
        Some (JStr v) \<Rightarrow> if trim v \<noteq> [] then Some (trim v) else None
      | _ \<Rightarrow> None)"

fun flattenEntities :: "RdapEntity list \<Rightarrow> RdapEntity list" and flattenEntity :: "RdapEntity \<Rightarrow> RdapEntity list" where
  "flattenEntities [] = []"
| "flattenEntities (e # es) = flattenEntity e @ flattenEntities es"
| "flattenEntity (RdapEntity es roles vcard) = RdapEntity es roles vcard # flattenEntities es"

definition withRole :: "RdapEntity list \<Rightarrow> string \<Rightarrow> RdapEntity list" where
  "withRole entities role = filter (\<lambda>e. role \<in> set (re_roles e)) entities"

definition firstValue :: "string \<Rightarrow> RdapEntity list \<Rightarrow> string option" where
  "firstValue key es = (case List.map_filter (vcardValue key) es of [] \<Rightarrow> None | v # _ \<Rightarrow> Some v)"

record RdapNetwork =
  rn_entities :: "RdapEntity list"
  rn_country :: "string option"
  rn_name :: "string option"

definition trimmedOrNull :: "string option \<Rightarrow> string option" where
  "trimmedOrNull s = (case s of None \<Rightarrow> None | Some v \<Rightarrow> if trim v = [] then None else Some (trim v))"

text \<open>The abuse contact, the country, the network's name and its owner; a body that is no object is \<open>None\<close>.\<close>

definition parseRdap :: "RdapNetwork option \<Rightarrow> string option \<times> string option \<times> string option \<times> string option" where
  "parseRdap body =
     (case body of
        None \<Rightarrow> (None, None, None, None)
      | Some network \<Rightarrow>
          (let entities = flattenEntities (rn_entities network);
               owner = firstValue ''fn'' (withRole entities ''registrant'' @ withRole entities ''administrative'')
           in (firstValue ''email'' (withRole entities ''abuse''), trimmedOrNull (rn_country network),
               trimmedOrNull (rn_name network), owner)))"

definition middot :: string where
  "middot = [CHR '' '', CHR 0xB7, CHR '' '']"

definition intelSummary :: "IpIntel option \<Rightarrow> string option" where
  "intelSummary intel =
     (case intel of
        None \<Rightarrow> None
      | Some i \<Rightarrow>
          (let asPart = (case ii_asn i of
                 Some n \<Rightarrow> if n = 0 then None
                   else Some (''AS'' @ show_int n @ (case ii_asName i of Some a \<Rightarrow> if a = [] then [] else '' '' @ a | None \<Rightarrow> []))
               | None \<Rightarrow> None);
               orgPart = (case ii_org i of
                 Some org \<Rightarrow> (case ii_asName i of Some a \<Rightarrow> if contains_str org a then None else Some org | None \<Rightarrow> Some org)
               | None \<Rightarrow> None);
               parts = filter (\<lambda>p. p \<noteq> []) (List.map_filter (\<lambda>p. p) [asPart, orgPart, ii_country i, ii_hostname i])
           in if parts = [] then None else Some (join middot parts)))"

section \<open>The tables\<close>

record IpBan =
  ib_abuseReportedAt :: "timestamp option"
  ib_createdAt :: timestamp
  ib_expiresAt :: "timestamp option"
  ib_host :: "string option"
  ib_intel :: "IpIntel option"
  ib_ip :: string
  ib_reason :: string
  ib_userAgent :: "string option"

record BlockedHit =
  bh_baitBytes :: int
  bh_createdAt :: timestamp
  bh_host :: "string option"
  bh_ip :: string
  bh_path :: "string option"
  bh_pattern :: "string option"
  bh_serviceId :: "string option"
  bh_userAgent :: "string option"

text \<open>\<open>or(isNull(expiresAt), gt(expiresAt, now))\<close>, and its complement.\<close>

definition inForce :: "timestamp \<Rightarrow> IpBan \<Rightarrow> bool" where
  "inForce now ban \<longleftrightarrow> (case ib_expiresAt ban of None \<Rightarrow> True | Some e \<Rightarrow> e > now)"

definition expired :: "timestamp \<Rightarrow> IpBan \<Rightarrow> bool" where
  "expired now ban \<longleftrightarrow> (case ib_expiresAt ban of None \<Rightarrow> False | Some e \<Rightarrow> e \<le> now)"

definition activeBans :: "timestamp \<Rightarrow> IpBan list \<Rightarrow> IpBan list" where
  "activeBans now bans = sort_key (\<lambda>b. - ib_createdAt b) (filter (inForce now) bans)"

definition countActive :: "timestamp \<Rightarrow> IpBan list \<Rightarrow> nat" where
  "countActive now bans = length (filter (inForce now) bans)"

definition getBan :: "string \<Rightarrow> IpBan list \<Rightarrow> IpBan option" where
  "getBan ip bans = List.find (\<lambda>b. ib_ip b = ip) bans"

definition markAbuseReported :: "string \<Rightarrow> timestamp \<Rightarrow> IpBan list \<Rightarrow> IpBan list" where
  "markAbuseReported ip at_time bans = map (\<lambda>b. if ib_ip b = ip then b\<lparr>ib_abuseReportedAt := Some at_time\<rparr> else b) bans"

definition activeIps :: "timestamp \<Rightarrow> IpBan list \<Rightarrow> string list" where
  "activeIps now bans = map ib_ip (sort_key ib_createdAt (filter (inForce now) bans))"

definition isBanned :: "string \<Rightarrow> timestamp \<Rightarrow> IpBan list \<Rightarrow> bool" where
  "isBanned ip now bans \<longleftrightarrow> list_ex (\<lambda>b. ib_ip b = ip \<and> inForce now b) bans"

record banInput =
  bi_expiresAt :: "timestamp option"
  bi_host :: "string option"
  bi_ip :: string
  bi_reason :: string
  bi_userAgent :: "string option"

text \<open>The insert with \<open>onConflictDoUpdate\<close>: a row for the address is rewritten only when it has expired, and keeps its
  other columns.\<close>

definition overwriteBan :: "timestamp \<Rightarrow> banInput \<Rightarrow> IpBan \<Rightarrow> IpBan" where
  "overwriteBan now inp b =
     b\<lparr>ib_createdAt := now, ib_expiresAt := bi_expiresAt inp, ib_host := bi_host inp, ib_ip := bi_ip inp,
       ib_reason := bi_reason inp, ib_userAgent := bi_userAgent inp\<rparr>"

definition writeBan :: "timestamp \<Rightarrow> banInput \<Rightarrow> IpBan list \<Rightarrow> bool \<times> IpBan list" where
  "writeBan now inp bans =
     (case getBan (bi_ip inp) bans of
        None \<Rightarrow>
          (True, bans @ [\<lparr>ib_abuseReportedAt = None, ib_createdAt = now, ib_expiresAt = bi_expiresAt inp,
             ib_host = bi_host inp, ib_intel = None, ib_ip = bi_ip inp, ib_reason = bi_reason inp,
             ib_userAgent = bi_userAgent inp\<rparr>])
      | Some b \<Rightarrow>
          if expired now b then (True, map (\<lambda>x. if ib_ip x = bi_ip inp then overwriteBan now inp x else x) bans)
          else (False, bans))"

definition setIntel :: "string \<Rightarrow> IpIntel \<Rightarrow> IpBan list \<Rightarrow> IpBan list" where
  "setIntel ip intel bans = map (\<lambda>b. if ib_ip b = ip then b\<lparr>ib_intel := Some intel\<rparr> else b) bans"

definition unidentifiedIps :: "nat \<Rightarrow> timestamp \<Rightarrow> IpBan list \<Rightarrow> string list" where
  "unidentifiedIps limit now bans =
     map ib_ip (take limit (sort_key ib_createdAt (filter (\<lambda>b. ib_intel b = None \<and> inForce now b) bans)))"

definition deleteBan :: "string \<Rightarrow> IpBan list \<Rightarrow> bool \<times> IpBan list" where
  "deleteBan ip bans = (list_ex (\<lambda>b. ib_ip b = ip) bans, filter (\<lambda>b. ib_ip b \<noteq> ip) bans)"

definition deleteExpired :: "timestamp \<Rightarrow> IpBan list \<Rightarrow> nat \<times> IpBan list" where
  "deleteExpired now bans = (length (filter (expired now) bans), filter (\<lambda>b. \<not> expired now b) bans)"

definition countSince :: "string \<Rightarrow> timestamp \<Rightarrow> BlockedHit list \<Rightarrow> nat" where
  "countSince ip since hits = length (filter (\<lambda>h. bh_ip h = ip \<and> bh_createdAt h \<ge> since) hits)"

definition deleteBefore :: "timestamp \<Rightarrow> BlockedHit list \<Rightarrow> BlockedHit list" where
  "deleteBefore before hits = filter (\<lambda>h. \<not> bh_createdAt h < before) hits"

section \<open>The service\<close>

text \<open>
  What the service reads of its configuration and of the other tables: the proof Traefik sends, whether there is a
  directory for the file, the dashboard's host and origin, the entry point, the settings, and the services by host.
\<close>

record ban_config =
  bc_proof :: string
  bc_hasDir :: bool
  bc_dashboardHost :: "string option"
  bc_origin :: "string option"
  bc_entrypoint :: string
  bc_settings :: IpBanSettings
  bc_services :: "routedService list"
  bc_stackSlugs :: "string js_map"
  bc_baseDomain :: string

datatype ban_effect =
    CrowdsecBan string int string
  | CrowdsecUnban string
  | Identify string
  | Notified ChannelMessage
  | EmailSent string string string

record ban_world =
  bw_bans :: "IpBan list"
  bw_hits :: "BlockedHit list"
  bw_file :: "json option"
  bw_effects :: "ban_effect list"

definition perform :: "ban_effect \<Rightarrow> ban_world \<Rightarrow> ban_world" where
  "perform e w = w\<lparr>bw_effects := bw_effects w @ [e]\<rparr>"

definition validBlockedProof :: "string option \<Rightarrow> string \<Rightarrow> bool" where
  "validBlockedProof v expected \<longleftrightarrow> (case v of None \<Rightarrow> [] | Some s \<Rightarrow> s) = expected"

text \<open>\<open>sync\<close>: without a directory nothing; else the file is rewritten, or removed when nothing is banned.\<close>

definition syncBans :: "ban_config \<Rightarrow> timestamp \<Rightarrow> ban_world \<Rightarrow> ban_world" where
  "syncBans cfg now w =
     (if \<not> bc_hasDir cfg then w
      else w\<lparr>bw_file := bansConfig (activeIps now (bw_bans w)) (bc_dashboardHost cfg) (bc_entrypoint cfg)\<rparr>)"

text \<open>\<open>recordBlockedHit\<close> up to the insert of the hit; nothing when it returns before.\<close>

definition admitHit ::
  "ban_config \<Rightarrow> headers \<Rightarrow> string option \<Rightarrow> int \<Rightarrow> timestamp \<Rightarrow> timestamp \<Rightarrow> ban_world \<Rightarrow> BlockedHit option \<times> ban_world" where
  "admitHit cfg hs host baitBytes asked now w =
     (if \<not> validBlockedProof (hs ''x-homerun-blocked'') (bc_proof cfg) then (None, w)
      else case clientIpFrom hs of
             None \<Rightarrow> (None, w)
           | Some ip \<Rightarrow>
               if ip = [] \<or> isBanned ip asked (bw_bans w) then (None, w)
               else
                 (let path = map_option (take 500) (hs ''x-replaced-path'');
                      userAgent = (case hs ''user-agent'' of None \<Rightarrow> None
                        | Some u \<Rightarrow> if take 500 u = [] then None else Some (take 500 u));
                      svc = (case host of None \<Rightarrow> None | Some h \<Rightarrow> if h = [] then None
                        else serviceForHost (bc_services cfg) (bc_stackSlugs cfg) (bc_baseDomain cfg) h);
                      hit = \<lparr>bh_baitBytes = baitBytes, bh_createdAt = now, bh_host = host, bh_ip = ip, bh_path = path,
                        bh_pattern = matchingPathPattern (case svc of None \<Rightarrow> [] | Some s \<Rightarrow> sd_blockedPaths s) path,
                        bh_serviceId = map_option sd_id svc, bh_userAgent = userAgent\<rparr>
                  in (Some hit, w\<lparr>bw_hits := bw_hits w @ [hit]\<rparr>)))"

definition banReason :: "int \<Rightarrow> IpBanSettings \<Rightarrow> string option \<Rightarrow> string" where
  "banReason hits settings path =
     show_int hits @ '' blocked requests in '' @ show_int (is_windowMinutes settings) @ '' min'' @
     (case path of None \<Rightarrow> [] | Some p \<Rightarrow> if p = [] then [] else '', last '' @ p)"

text \<open>The rest of it: count, decide, ban, publish and hand over. \<open>now\<close> is when it counts, \<open>later\<close> when the row is written.\<close>

definition decideBan ::
  "ban_config \<Rightarrow> BlockedHit \<Rightarrow> timestamp \<Rightarrow> timestamp \<Rightarrow> ban_world \<Rightarrow> ban_world" where
  "decideBan cfg hit now later w =
     (let settings = bc_settings cfg; ip = bh_ip hit
      in if \<not> (is_enabled settings \<and> bannableIp (Some ip) = Inr True) then w
         else
           (let hits = int (countSince ip (now - is_windowMinutes settings * 60000) (bw_hits w))
            in if shouldBan hits ip settings \<noteq> Inr True then w
               else
                 (let reason = banReason hits settings (bh_path hit);
                      (banned, bans) = writeBan later \<lparr>bi_expiresAt = banExpiry settings now, bi_host = bh_host hit,
                        bi_ip = ip, bi_reason = reason, bi_userAgent = bh_userAgent hit\<rparr> (bw_bans w);
                      w = w\<lparr>bw_bans := bans\<rparr>
                  in if \<not> banned then w
                     else perform (Identify ip)
                       (perform (CrowdsecBan ip (is_durationHours settings) reason) (syncBans cfg later w)))))"

definition recordBlockedHit ::
  "ban_config \<Rightarrow> headers \<Rightarrow> string option \<Rightarrow> int \<Rightarrow> timestamp \<Rightarrow> ban_world \<Rightarrow> ban_world" where
  "recordBlockedHit cfg hs host baitBytes now w =
     (case admitHit cfg hs host baitBytes now now w of
        (None, w) \<Rightarrow> w
      | (Some hit, w) \<Rightarrow> decideBan cfg hit now now w)"

definition abuseNetwork :: "IpIntel option \<Rightarrow> string option" where
  "abuseNetwork intel =
     (case Option.bind intel ii_networkName of
        Some name \<Rightarrow>
          if name \<noteq> []
          then Some (name @ (case Option.bind intel ii_network of Some n \<Rightarrow> if n = [] then [] else '' ('' @ n @ '')'' | None \<Rightarrow> []))
          else Option.bind intel ii_network
      | None \<Rightarrow> Option.bind intel ii_network)"

definition whenSet :: "string option \<Rightarrow> (string \<Rightarrow> 'a list) \<Rightarrow> 'a list" where
  "whenSet v f = (case v of None \<Rightarrow> [] | Some s \<Rightarrow> if s = [] then [] else f s)"

text \<open>The content and the subject of the report.\<close>

definition abuseReportEmail :: "IpBan \<Rightarrow> string \<times> string" where
  "abuseReportEmail ban =
     (join [CHR 10]
        ([''Hello,'', [],
          ''The address '' @ ib_ip ban @ whenSet (abuseNetwork (ib_intel ban)) (\<lambda>n. '', on your network '' @ n @ '','') @
          '' repeatedly requested paths that only vulnerability scanners and credential harvesters ask for, and has been blocked.'',
          [], ''Address: '' @ ib_ip ban, ''Banned at: '' @ toISOString (ib_createdAt ban)] @
         whenSet (ib_host ban) (\<lambda>h. [''Target host: '' @ h]) @ [''What it did: '' @ ib_reason ban] @
         whenSet (ib_userAgent ban) (\<lambda>u. [''User agent: '' @ u]) @
         [[], ''Please look into the host behind this address. Timestamps are UTC.'', [],
          ''This report was sent automatically by a self-hosted Homerun instance.'']),
      ''Abuse report: '' @ ib_ip ban @ '' scanning for vulnerabilities'')"

datatype report_error = NotBanned | AlreadyReported string | NoAbuseContact string | SmtpRefused

text \<open>\<open>reportAbuse\<close>; \<open>smtpOk\<close> says whether the mail server takes the message.\<close>

definition reportAbuse :: "bool \<Rightarrow> string \<Rightarrow> timestamp \<Rightarrow> ban_world \<Rightarrow> (report_error + string) \<times> ban_world" where
  "reportAbuse smtpOk ip now w =
     (case getBan ip (bw_bans w) of
        None \<Rightarrow> (Inl NotBanned, w)
      | Some ban \<Rightarrow>
          if ib_abuseReportedAt ban \<noteq> None then (Inl (AlreadyReported ip), w)
          else (case Option.bind (ib_intel ban) ii_abuseEmail of
                  None \<Rightarrow> (Inl (NoAbuseContact ip), w)
                | Some to_address \<Rightarrow>
                    if to_address = [] then (Inl (NoAbuseContact ip), w)
                    else if \<not> smtpOk then (Inl SmtpRefused, w)
                    else (let (content, subject) = abuseReportEmail ban;
                              w = perform (EmailSent to_address subject content) w
                          in (Inr to_address, w\<lparr>bw_bans := markAbuseReported ip now (bw_bans w)\<rparr>))))"

definition plainField :: "string \<Rightarrow> string \<Rightarrow> MessageField" where
  "plainField name v = \<lparr>mf_inline = None, mf_name = name, mf_value = v\<rparr>"

definition ipBanMessage ::
  "timestamp option \<Rightarrow> string option \<Rightarrow> IpIntel option \<Rightarrow> string \<Rightarrow> string option \<Rightarrow> string \<Rightarrow> string option \<Rightarrow> string \<Rightarrow> ChannelMessage" where
  "ipBanMessage expiresAt host intel ip origin reason userAgent stamp =
     \<lparr>cm_detail = Some reason, cm_event = ''security.ip_banned'',
      cm_fields =
        [plainField ''Address'' ip,
         plainField ''Until'' (case expiresAt of Some e \<Rightarrow> toISOString e | None \<Rightarrow> ''Lifted by hand'')] @
        whenSet host (\<lambda>h. [plainField ''Host'' h]) @
        whenSet (intelSummary intel) (\<lambda>n. [plainField ''Network'' n]) @
        whenSet (Option.bind intel ii_abuseEmail) (\<lambda>a. [plainField ''Abuse contact'' a]) @
        whenSet userAgent (\<lambda>u. [plainField ''User agent'' u]),
      cm_link = dashboardLink origin ''/monitoring/blocked'', cm_serviceId = None, cm_serviceName = None,
      cm_timestamp = stamp, cm_title = ip @ '' banned''\<rparr>"

text \<open>
  What follows once the address is looked up: the lookup is stored, the network reported when that is on and a contact
  is known (a report that fails is logged), and the channels are told.
\<close>

definition identified ::
  "ban_config \<Rightarrow> bool \<Rightarrow> string \<Rightarrow> IpIntel \<Rightarrow> banInput \<Rightarrow> timestamp \<Rightarrow> timestamp \<Rightarrow> ban_world \<Rightarrow> ban_world" where
  "identified cfg smtpOk ip intel inp now later w =
     (let w = w\<lparr>bw_bans := setIntel ip intel (bw_bans w)\<rparr>;
          w = (if is_autoReportAbuse (bc_settings cfg) \<and> ii_abuseEmail intel \<noteq> None \<and> ii_abuseEmail intel \<noteq> Some []
               then snd (reportAbuse smtpOk ip later w) else w)
      in perform (Notified (ipBanMessage (bi_expiresAt inp) (bi_host inp) (Some intel) ip (bc_origin cfg)
           (bi_reason inp) (bi_userAgent inp) (toISOString now))) w)"

definition unbanIp :: "ban_config \<Rightarrow> string \<Rightarrow> timestamp \<Rightarrow> ban_world \<Rightarrow> bool \<times> ban_world" where
  "unbanIp cfg ip now w =
     (let (removed, bans) = deleteBan ip (bw_bans w); w = w\<lparr>bw_bans := bans\<rparr>
      in if removed then (True, perform (CrowdsecUnban ip) (syncBans cfg now w)) else (False, w))"

text \<open>\<open>prune\<close>; \<open>lookup\<close> is what \<open>identify\<close> finds of an address.\<close>

definition pruneBans :: "ban_config \<Rightarrow> (string \<Rightarrow> IpIntel) \<Rightarrow> timestamp \<Rightarrow> timestamp \<Rightarrow> ban_world \<Rightarrow> ban_world" where
  "pruneBans cfg lookup now later w =
     (let w = w\<lparr>bw_bans := fold (\<lambda>ip. setIntel ip (lookup ip)) (unidentifiedIps 5 now (bw_bans w)) (bw_bans w)\<rparr>;
          w = w\<lparr>bw_hits := deleteBefore (now - BLOCKED_HIT_RETENTION_MS) (bw_hits w)\<rparr>;
          (n, bans) = deleteExpired now (bw_bans w); w = w\<lparr>bw_bans := bans\<rparr>
      in if n > 0 then syncBans cfg later w else w)"

text \<open>Everything the process does to the bans, in any order; requests overlap between the hit and the decision.\<close>

inductive ban_step :: "ban_config \<Rightarrow> ban_world \<Rightarrow> ban_world \<Rightarrow> bool" for cfg where
  hit: "ban_step cfg w (snd (admitHit cfg hs host bait asked now w))"
| decide: "now \<le> later \<Longrightarrow> ban_step cfg w (decideBan cfg h now later w)"
| report: "ban_step cfg w (snd (reportAbuse ok ip now w))"
| lookup: "ban_step cfg w (identified cfg ok ip intel inp now later w)"
| unban: "ban_step cfg w (snd (unbanIp cfg ip now w))"
| prune: "ban_step cfg w (pruneBans cfg found now later w)"
| sync: "ban_step cfg w (syncBans cfg now w)"

inductive ban_reachable :: "ban_config \<Rightarrow> ban_world \<Rightarrow> bool" for cfg where
  start: "ban_reachable cfg \<lparr>bw_bans = [], bw_hits = [], bw_file = None, bw_effects = []\<rparr>"
| step: "ban_reachable cfg w \<Longrightarrow> ban_step cfg w w' \<Longrightarrow> ban_reachable cfg w'"

end
