(* ===== verification/Ip_Laws.thy ===== *)
theory Ip_Laws
  imports Ip_Address
begin

text \<open>
  How \<open>ipv6Value\<close>'s textual expansion follows the URL parser: splitting of joined groups, the dotted tail, the
  hexadecimal numerals, and the parser's loop read as a list of groups.
\<close>

section \<open>Groups joined by colons\<close>

definition hexWord :: "string \<Rightarrow> bool" where
  "hexWord w \<longleftrightarrow> w \<noteq> [] \<and> (\<forall>c \<in> set w. is_hex c)"

lemma not_hex_marks [simp]: "\<not> is_hex (CHR '':'')" "\<not> is_hex (CHR ''.'')"
  by (simp_all add: is_hex_def is_digit_def lower_char_def Let_def)

lemma is_hex_digit: "is_digit c \<Longrightarrow> is_hex c"
  by (simp add: is_hex_def)

lemma hexWord_no_marks: "hexWord w \<Longrightarrow> CHR '':'' \<notin> set w \<and> CHR ''.'' \<notin> set w"
  by (metis hexWord_def not_hex_marks)

lemma join_eq_Nil: "\<forall>w \<in> set ws. hexWord w \<Longrightarrow> join sep ws = [] \<longleftrightarrow> ws = []"
  by (cases "(sep, ws)" rule: join.cases) (auto simp: hexWord_def)

lemma hd_join: "\<forall>w \<in> set ws. hexWord w \<Longrightarrow> ws \<noteq> [] \<Longrightarrow> is_hex (hd (join sep ws))"
  by (cases "(sep, ws)" rule: join.cases) (auto simp: hexWord_def)

lemma splitPart_join: "\<forall>w \<in> set ws. hexWord w \<Longrightarrow> splitPart (join '':'' ws) = ws"
  using hexWord_no_marks by (cases "ws = []") (auto simp: splitPart_def join_eq_Nil split_on_join)

lemma split_colons_nonempty [simp]: "split_colons s \<noteq> []"
  by (induction s rule: split_colons.induct) (auto split: list.splits)

lemma split_colons_word:
  "CHR '':'' \<notin> set w \<Longrightarrow> split_colons (w @ s) = (w @ hd (split_colons s)) # tl (split_colons s)"
proof (induction w)
  case (Cons c w)
  have step: "c \<noteq> CHR '':'' \<Longrightarrow> split_colons (c # r) = (c # hd (split_colons r)) # tl (split_colons r)" for r
    by (cases r) (auto split: list.splits)
  have "c \<noteq> CHR '':''" using Cons(2) by auto
  then show ?case using Cons step[of "w @ s"] by simp
qed simp

lemma split_colons_colon:
  "s \<noteq> [] \<Longrightarrow> hd s \<noteq> CHR '':'' \<Longrightarrow> split_colons (CHR '':'' # s) = (CHR '':'' # hd (split_colons s)) # tl (split_colons s)"
  by (cases s) (auto split: list.splits)

lemma split_colons_join:
  "\<forall>w \<in> set ws. hexWord w \<Longrightarrow> split_colons (join '':'' ws) = [join '':'' ws]"
proof (induction "'':''" ws rule: join.induct)
  case (2 w)
  then show ?case using split_colons_word[of w "[]"] hexWord_no_marks[of w] by simp
next
  case (3 w v ws)
  let ?r = "join '':'' (v # ws)"
  have ne: "?r \<noteq> []" using 3(2) join_eq_Nil[of "v # ws"] by simp
  have hd: "hd ?r \<noteq> CHR '':''" using 3(2) hd_join[of "v # ws" "'':''"] by auto
  show ?case
    using split_colons_word[of w "CHR '':'' # ?r"] split_colons_colon[OF ne hd] 3 hexWord_no_marks[of w] by simp
qed simp

lemma split_colons_double:
  "\<forall>w \<in> set ws. hexWord w \<Longrightarrow> ws \<noteq> [] \<Longrightarrow>
   split_colons (join '':'' ws @ ''::'' @ s) = join '':'' ws # split_colons s"
proof (induction "'':''" ws rule: join.induct)
  case (2 w)
  then show ?case using split_colons_word[of w "CHR '':'' # CHR '':'' # s"] hexWord_no_marks[of w] by simp
next
  case (3 w v ws)
  let ?r = "join '':'' (v # ws) @ ''::'' @ s"
  have ne: "join '':'' (v # ws) \<noteq> []" using 3(2) join_eq_Nil[of "v # ws"] by simp
  then have hd: "hd ?r \<noteq> CHR '':''" using 3(2) hd_join[of "v # ws" "'':''"] by auto
  show ?case
    using split_colons_word[of w "CHR '':'' # ?r"] split_colons_colon[OF _ hd] ne 3 hexWord_no_marks[of w] by simp
qed simp

section \<open>The dotted tail\<close>

lemma isDotted_chars: "isDotted s \<Longrightarrow> c \<in> set s \<Longrightarrow> is_digit c \<or> c = CHR ''.''"
proof -
  assume d: "isDotted s" and c: "c \<in> set s"
  have "c = CHR ''.'' \<or> (\<exists>w \<in> set (split_on (CHR ''.'') s). c \<in> set w)" using c by (rule split_on_covers)
  then show ?thesis using d by (auto simp: isDotted_def Let_def list_all_iff)
qed

lemma find_suffixes_mark:
  "\<not> P (CHR '':'' # s) \<Longrightarrow> (\<And>w. P w \<Longrightarrow> CHR '':'' \<notin> set w) \<Longrightarrow>
   List.find P (js_suffixes (w @ CHR '':'' # s)) = List.find P (js_suffixes s)"
proof (induction w)
  case (Cons a w)
  have "\<not> P (a # w @ CHR '':'' # s)" using Cons(3)[of "a # w @ CHR '':'' # s"] by auto
  then show ?case using Cons by simp
qed simp

lemma dottedTail_colon: "dottedTail (w @ CHR '':'' # s) = dottedTail s"
proof -
  have "\<not> isDotted w" if "CHR '':'' \<in> set w" for w
    using isDotted_chars[OF _ that] by (auto simp: is_digit_def)
  then show ?thesis unfolding dottedTail_def by (intro find_suffixes_mark) auto
qed

lemma isDotted_dot: "isDotted s \<Longrightarrow> CHR ''.'' \<in> set s"
  by (rule ccontr) (auto simp: isDotted_def Let_def split_on_no_sep)

lemma dottedTail_none: "CHR ''.'' \<notin> set s \<Longrightarrow> dottedTail s = None"
proof -
  assume "CHR ''.'' \<notin> set s"
  then have "\<forall>w \<in> set (js_suffixes s). CHR ''.'' \<notin> set w" by (induction s) auto
  then show ?thesis using isDotted_dot by (auto simp: dottedTail_def find_None_iff)
qed

lemma dottedTail_suffix: "dottedTail s = Some t \<Longrightarrow> \<exists>w. s = w @ t"
proof -
  have "t \<in> set (js_suffixes s) \<Longrightarrow> \<exists>w. s = w @ t"
    by (induction s) (auto intro: exI[of _ "[]"] exI[of _ "_ # _"])
  moreover assume "dottedTail s = Some t"
  ultimately show ?thesis by (auto simp: dottedTail_def dest: find_Some_iff_first)
qed

lemma replaceTail_colon:
  "replaceTail (w @ CHR '':'' # s) = map_option (\<lambda>t. w @ CHR '':'' # t) (replaceTail s)"
proof (cases "dottedTail s")
  case (Some t)
  then obtain v where "s = v @ t" using dottedTail_suffix by blast
  then show ?thesis using Some by (auto simp: replaceTail_def dottedTail_colon split: option.splits)
qed (simp add: replaceTail_def dottedTail_colon)

section \<open>Hexadecimal numerals\<close>

lemma hex_digit_facts: "n < 16 \<Longrightarrow> is_hex (hexDigit n) \<and> hex_val (hexDigit n) = n"
proof (cases "n < 10")
  case True
  then show ?thesis by (simp add: hexDigit_def is_hex_def hex_val_def)
next
  case False
  moreover assume "n < 16"
  ultimately show ?thesis
    by (simp add: hexDigit_def is_hex_def hex_val_def is_digit_def lower_char_def)
qed

lemma hex_number_snoc: "hex_number (s @ [c]) = hex_number s * 16 + hex_val c"
  by (simp add: hex_number_def)

lemma toString16_hex: "hexWord (toString16 n) \<and> hex_number (toString16 n) = n"
proof (induction n rule: toString16.induct)
  case (1 n)
  show ?case
  proof (cases "n < 16")
    case True
    then show ?thesis using hex_digit_facts[OF True]
      by (subst (1 2) toString16.simps) (simp add: hexWord_def hex_number_def)
  next
    case False
    have "n mod 16 < 16" by simp
    then show ?thesis using 1[OF False] False hex_digit_facts[of "n mod 16"]
      by (subst (1 2) toString16.simps) (auto simp: hexWord_def hex_number_snoc)
  qed
qed

lemma parseInt16_word: "hexWord w \<Longrightarrow> parseInt16 w = Some (hex_number w)"
proof -
  assume w: "hexWord w"
  then have all: "takeWhile is_hex w = w" by (simp add: hexWord_def takeWhile_eq_all_conv)
  show ?thesis unfolding parseInt16_def all Let_def using w by (simp add: hexWord_def)
qed

lemma hex_val_less: "is_hex c \<Longrightarrow> hex_val c < 16"
  by (auto simp: is_hex_def hex_val_def digit_val_def is_digit_def Let_def)

lemma hex_number_less: "\<forall>c \<in> set w. is_hex c \<Longrightarrow> hex_number w < 16 ^ length w"
proof (induction w rule: rev_induct)
  case (snoc c w)
  then have "hex_number w + 1 \<le> 16 ^ length w" "hex_val c < 16" using hex_val_less by auto
  then show ?case by (simp add: hex_number_snoc)
qed (simp add: hex_number_def)

lemma or_push: "0 \<le> b \<Longrightarrow> b < 2 ^ n \<Longrightarrow> push_bit n a OR b = a * 2 ^ n + (b :: int)"
proof -
  assume b: "0 \<le> b" "b < 2 ^ n"
  have "take_bit n b = b" using b by (simp add: take_bit_int_eq_self)
  then have "\<not> bit (push_bit n a) m \<or> \<not> bit b m" for m
    by (metis bit_push_bit_iff bit_take_bit_iff linorder_not_less)
  then have "push_bit n a + b = push_bit n a OR b" by (rule disjunctive_add)
  then show ?thesis by (simp add: push_bit_eq_mult)
qed

lemma or_push_nat: "b < 2 ^ n \<Longrightarrow> push_bit n a OR b = a * 2 ^ n + (b :: nat)"
proof -
  assume "b < 2 ^ n"
  then have "push_bit n (int a) OR int b = int a * 2 ^ n + int b" by (intro or_push) (simp_all flip: of_nat_less_iff)
  then have "int (push_bit n a OR b) = int (a * 2 ^ n + b)" by (simp add: of_nat_or_eq of_nat_push_bit)
  then show ?thesis using of_nat_eq_iff by blast
qed

section \<open>The IPv4 address at the end\<close>

lemma read_nat_lower: "s \<noteq> [] \<Longrightarrow> digit_val (hd s) * 10 ^ (length s - 1) \<le> read_nat s"
proof (induction s rule: rev_induct)
  case (snoc c s)
  show ?case
  proof (cases "s = []")
    case True
    then show ?thesis by (simp add: read_nat_def)
  next
    case False
    then have "digit_val (hd s) * 10 ^ (length s - 1) \<le> read_nat s" using snoc.IH by simp
    moreover have "10 ^ length s = 10 * (10 :: nat) ^ (length s - 1)" using False by (cases s) auto
    ultimately show ?thesis using False by (simp add: read_nat_snoc)
  qed
qed simp

lemma short_number:
  assumes "p \<noteq> []" "list_all is_digit p" "length p = 1 \<or> hd p \<noteq> CHR ''0''" "read_nat p \<le> 255"
  shows "length p \<le> 3"
proof (rule ccontr)
  assume long: "\<not> length p \<le> 3"
  then have "hd p \<noteq> CHR ''0''" using assms(3) by auto
  moreover have "is_digit (hd p)" using assms(1,2) by (cases p) auto
  moreover have "of_char (hd p) = (of_char (CHR ''0'') :: nat) \<longleftrightarrow> hd p = CHR ''0''" by (rule of_char_eq_iff)
  ultimately have "of_char (hd p) \<noteq> (48 :: nat)" "48 \<le> (of_char (hd p) :: nat)"
    by (simp, simp add: is_digit_def)
  then have "1 \<le> digit_val (hd p)" by (simp add: digit_val_def)
  moreover have "(10 :: nat) ^ 3 \<le> 10 ^ (length p - 1)" using long by (intro power_increasing) auto
  ultimately have "10 ^ 3 \<le> digit_val (hd p) * 10 ^ (length p - 1)"
    by (metis mult_le_mono nat_mult_1)
  then show False using read_nat_lower[OF assms(1)] assms(4) by simp
qed

lemma url_ipv4_octets:
  assumes "url_ipv4 s = Some os"
  shows "isDotted s" "ipv4Octets s = Some os" "length os = 4" "\<forall>n \<in> set os. n \<le> 255"
proof -
  let ?ps = "split_on (CHR ''.'') s"
  have l: "length ?ps = 4" and os: "os = map read_nat ?ps"
    and ok: "\<forall>p \<in> set ?ps. p \<noteq> [] \<and> list_all is_digit p \<and> (length p = 1 \<or> hd p \<noteq> CHR ''0'') \<and> read_nat p \<le> 255"
    using assms by (auto simp: url_ipv4_def Let_def list_all_iff split: if_splits)
  then have "\<forall>p \<in> set ?ps. 1 \<le> length p \<and> length p \<le> 3"
    using short_number by (metis One_nat_def Suc_leI length_greater_0_conv)
  then show "ipv4Octets s = Some os" using l ok os by (auto simp: ipv4Octets_def Let_def list_all_iff)
  show "isDotted s" using l ok by (simp add: isDotted_def list_all_iff)
  show "length os = 4" "\<forall>n \<in> set os. n \<le> 255" using l ok os by auto
qed

lemma replaceTail_dotted:
  assumes "url_ipv4 s = Some [a, b, c, d]"
  shows "replaceTail s = Some (join '':'' [toString16 (a * 256 + b), toString16 (c * 256 + d)])"
    "a * 256 + b < 65536" "c * 256 + d < 65536"
proof -
  note v4 = url_ipv4_octets[OF assms]
  have "dottedTail s = Some s" using v4(1) by (cases s) (auto simp: dottedTail_def)
  moreover have "push_bit 8 a OR b = a * 256 + b" "push_bit 8 c OR d = c * 256 + d"
    using v4(4) or_push_nat[of b 8 a] or_push_nat[of d 8 c] by auto
  ultimately show "replaceTail s = Some (join '':'' [toString16 (a * 256 + b), toString16 (c * 256 + d)])"
    using v4(2) by (simp add: replaceTail_def)
  show "a * 256 + b < 65536" "c * 256 + d < 65536" using v4(4) by auto
qed

section \<open>The parser's loop\<close>

definition groupList :: "string list \<Rightarrow> bool" where
  "groupList ws \<longleftrightarrow> (\<forall>w \<in> set ws. hexWord w \<and> hex_number w < 65536)"

text \<open>The groups a string without \<open>::\<close> stands for.\<close>

definition plainText :: "string \<Rightarrow> string list \<Rightarrow> bool" where
  "plainText s ws \<longleftrightarrow> groupList ws \<and> replaceTail s = Some (join '':'' ws) \<and> (ws = [] \<longleftrightarrow> s = [])"

lemma hex_run_split:
  obtains rest where "s = hex_run s @ rest" "drop (length (hex_run s)) s = rest"
proof -
  have "hex_run s = take (length (hex_run s)) s"
    by (metis hex_run_def append_eq_conv_conj append_take_drop_id length_take min.absorb_iff2 take_append take_take takeWhile_dropWhile_id)
  then show ?thesis using that by (metis append_take_drop_id)
qed

lemma hex_run_word: "hex_run s \<noteq> [] \<Longrightarrow> hexWord (hex_run s) \<and> hex_number (hex_run s) < 65536"
proof -
  assume ne: "hex_run s \<noteq> []"
  have h: "\<forall>c \<in> set (hex_run s). is_hex c" by (auto simp: hex_run_def dest: in_set_takeD set_takeWhileD)
  have "length (hex_run s) \<le> 4" by (simp add: hex_run_def)
  then have "(16 :: nat) ^ length (hex_run s) \<le> 16 ^ 4" by (intro power_increasing) auto
  then show ?thesis using hex_number_less[OF h] h ne by (simp add: hexWord_def)
qed

lemma plainText_word: "hexWord w \<Longrightarrow> hex_number w < 65536 \<Longrightarrow> plainText w [w]"
  using hexWord_no_marks[of w] dottedTail_none[of w]
  by (auto simp: plainText_def groupList_def replaceTail_def hexWord_def)

lemma plainText_Cons:
  "hexWord w \<Longrightarrow> hex_number w < 65536 \<Longrightarrow> plainText s ws \<Longrightarrow> s \<noteq> [] \<Longrightarrow> plainText (w @ CHR '':'' # s) (w # ws)"
  by (cases ws) (auto simp: plainText_def groupList_def replaceTail_colon)

lemma plainText_Nil: "plainText [] []"
  by (simp add: plainText_def groupList_def replaceTail_def dottedTail_def isDotted_def)

lemma plainText_dotted:
  "url_ipv4 s = Some [a, b, c, d] \<Longrightarrow>
   plainText s [toString16 (a * 256 + b), toString16 (c * 256 + d)] \<and>
   map hex_number [toString16 (a * 256 + b), toString16 (c * 256 + d)] = [a * 256 + b, c * 256 + d]"
  using replaceTail_dotted[of s a b c d] toString16_hex url_ipv4_octets(1)[of s] isDotted_dot[of s]
  by (auto simp: plainText_def groupList_def)

lemma url6_after_zeros:
  "url6 pieces compress s = Some (ps, c) \<Longrightarrow> compress \<noteq> None \<Longrightarrow> length pieces \<le> 8 \<Longrightarrow>
   c = compress \<and> length ps \<le> 8 \<and> (\<exists>ws. plainText s ws \<and> ps = pieces @ map hex_number ws)"
proof (induction pieces compress s rule: url6.induct)
  case (1 pieces compress s)
  show ?case
  proof (cases "s = []")
    case True
    then show ?thesis using 1(3,5) plainText_Nil by (auto simp: url6.simps[of _ _ "[]"] intro!: exI[of _ "[]"])
  next
    case s: False
    obtain rest where split: "s = hex_run s @ rest" "drop (length (hex_run s)) s = rest" by (rule hex_run_split)
    have eq: "url6 pieces compress s = Some (ps, c)" by fact
    have start: "length pieces \<noteq> 8" "hd s \<noteq> CHR '':''"
      using eq s 1(4) by (auto simp: url6.simps[of pieces compress s] split: if_splits)
    note step = eq[unfolded url6.simps[of pieces compress s] Let_def split(2)]
    consider (all) "rest = []" | (dot) "rest \<noteq> []" "hd rest = CHR ''.''" | (colon) r where "rest = CHR '':'' # r"
      using step s start by (cases rest) (auto split: if_splits)
    then show ?thesis
    proof cases
      case all
      then have "hexWord s \<and> hex_number s < 65536" "hex_run s = s" using hex_run_word[of s] s split by auto
      then show ?thesis using step all s start 1(4,5) plainText_word[of s] by (auto intro!: exI[of _ "[s]"])
    next
      case dot
      then obtain a b cc d where v: "url_ipv4 s = Some [a, b, cc, d]" "length pieces \<le> 6"
          "ps = pieces @ [a * 256 + b, cc * 256 + d]" "c = compress"
        using step s start by (auto split: if_splits option.splits list.splits)
      then show ?thesis using plainText_dotted[OF v(1)]
        by (auto intro!: exI[of _ "[toString16 (a * 256 + b), toString16 (cc * 256 + d)]"])
    next
      case colon
      have ne: "hex_run s \<noteq> []" using colon start split(1) by (metis append_Nil list.sel(1))
      have r: "r \<noteq> []" "url6 (pieces @ [hex_number (hex_run s)]) compress r = Some (ps, c)"
        using step s start colon by (auto split: if_splits)
      have le: "length (pieces @ [hex_number (hex_run s)]) \<le> 8" using start(1) 1(5) by simp
      have "c = compress \<and> length ps \<le> 8 \<and>
          (\<exists>ws. plainText r ws \<and> ps = (pieces @ [hex_number (hex_run s)]) @ map hex_number ws)"
        using 1(2)[OF s start refl refl _ _ _ _ _ 1(4) le, simplified split(2)] colon r by simp
      then obtain ws where ws: "plainText r ws" "ps = (pieces @ [hex_number (hex_run s)]) @ map hex_number ws"
          "c = compress" "length ps \<le> 8" by blast
      have "plainText s (hex_run s # ws)"
        using plainText_Cons[OF _ _ ws(1) r(1), of "hex_run s"] hex_run_word[OF ne] split(1) colon by metis
      then show ?thesis using ws by (auto intro!: exI[of _ "hex_run s # ws"])
    qed
  qed
qed

definition beforeZeros :: "nat list \<Rightarrow> string \<Rightarrow> nat list \<Rightarrow> nat option \<Rightarrow> bool" where
  "beforeZeros pieces s ps c \<longleftrightarrow>
     length ps \<le> 8 \<and>
     ((c = None \<and> (\<exists>ws. plainText s ws \<and> ps = pieces @ map hex_number ws)) \<or>
      (\<exists>us r ws. groupList us \<and> plainText r ws \<and> c = Some (length pieces + length us + 1) \<and>
         ps = pieces @ map hex_number us @ [0] @ map hex_number ws \<and>
         (if us = [] then s = CHR '':'' # r else s = join '':'' us @ ''::'' @ r)))"

lemma before_plainI:
  "length ps \<le> 8 \<Longrightarrow> c = None \<Longrightarrow> plainText s ws \<Longrightarrow> ps = pieces @ map hex_number ws \<Longrightarrow> beforeZeros pieces s ps c"
  by (auto simp: beforeZeros_def)

lemma before_zerosI:
  assumes "length ps \<le> 8" "groupList us" "plainText r ws" "c = Some (length pieces + length us + 1)"
    "ps = pieces @ map hex_number us @ [0] @ map hex_number ws"
    "if us = [] then s = CHR '':'' # r else s = join '':'' us @ ''::'' @ r"
  shows "beforeZeros pieces s ps c"
  unfolding beforeZeros_def using assms by blast

lemma url6_before_zeros:
  "url6 pieces None s = Some (ps, c) \<Longrightarrow> length pieces \<le> 8 \<Longrightarrow>
   beforeZeros pieces s ps c"
proof (induction pieces "None :: nat option" s rule: url6.induct)
  case (1 pieces s)
  show ?case
  proof (cases "s = []")
    case True
    then show ?thesis using 1(2,3) by (intro before_plainI[OF _ _ plainText_Nil[folded True]]) (auto simp: url6.simps[of _ _ "[]"])
  next
    case s: False
    have eq: "url6 pieces None s = Some (ps, c)" by fact
    show ?thesis
    proof (cases "hd s = CHR '':''")
      case True
      then have p: "length pieces \<noteq> 8" and e: "url6 (pieces @ [0]) (Some (length pieces + 1)) (tl s) = Some (ps, c)"
        using eq s by (auto simp: url6.simps[of pieces None s] split: if_splits)
      have "length (pieces @ [0]) \<le> 8" using p 1(3) by simp
      from url6_after_zeros[OF e _ this] obtain ws where
        "c = Some (length pieces + 1)" "length ps \<le> 8" "plainText (tl s) ws" "ps = (pieces @ [0]) @ map hex_number ws"
        by auto
      moreover have "s = CHR '':'' # tl s" using True s by (cases s) auto
      ultimately show ?thesis
        by (intro before_zerosI[where us = "[]" and r = "tl s" and ws = ws]) (auto simp: groupList_def)
    next
      case start: False
      obtain rest where split: "s = hex_run s @ rest" "drop (length (hex_run s)) s = rest" by (rule hex_run_split)
      have p: "length pieces \<noteq> 8"
        using eq s by (auto simp: url6.simps[of pieces None s] split: if_splits)
      note step = eq[unfolded url6.simps[of pieces None s] Let_def split(2)]
      consider (all) "rest = []" | (dot) "rest \<noteq> []" "hd rest = CHR ''.''" | (colon) r where "rest = CHR '':'' # r"
        using step s start p by (cases rest) (auto split: if_splits)
      then show ?thesis
      proof cases
        case all
        then have "hexWord s \<and> hex_number s < 65536" "hex_run s = s" using hex_run_word[of s] s split by auto
        then show ?thesis using step all s start p 1(3) by (intro before_plainI[OF _ _ plainText_word]) auto
      next
        case dot
        then obtain a b cc d where v: "url_ipv4 s = Some [a, b, cc, d]" "length pieces \<le> 6"
            "ps = pieces @ [a * 256 + b, cc * 256 + d]" "c = None"
          using step s start p by (auto split: if_splits option.splits list.splits)
        then show ?thesis using plainText_dotted[OF v(1)] by (intro before_plainI) auto
      next
        case colon
        let ?w = "hex_run s"
        have ne: "?w \<noteq> []" using colon start split(1) by (metis append_Nil list.sel(1))
        have r: "r \<noteq> []" "url6 (pieces @ [hex_number ?w]) None r = Some (ps, c)"
          using step s start p colon by (auto split: if_splits)
        have le: "length (pieces @ [hex_number ?w]) \<le> 8" using p 1(3) by simp
        note IH = 1(1)[OF s p start refl refl _ _ _ _ _ le, simplified split(2)]
        have "beforeZeros (pieces @ [hex_number ?w]) r ps c" using IH r colon by simp
        then consider
            (plain) ws where "length ps \<le> 8" "c = None" "plainText r ws" "ps = (pieces @ [hex_number ?w]) @ map hex_number ws"
          | (zeros) us q ws where "length ps \<le> 8" "groupList us" "plainText q ws"
              "c = Some (length (pieces @ [hex_number ?w]) + length us + 1)"
              "ps = (pieces @ [hex_number ?w]) @ map hex_number us @ [0] @ map hex_number ws"
              "if us = [] then r = CHR '':'' # q else r = join '':'' us @ ''::'' @ q"
          unfolding beforeZeros_def by blast
        then show ?thesis
        proof cases
          case plain
          have "plainText s (?w # ws)"
            using plainText_Cons[OF _ _ plain(3) r(1), of ?w] hex_run_word[OF ne] split(1) colon by metis
          then show ?thesis using plain by (intro before_plainI) auto
        next
          case zeros
          have "s = join '':'' (?w # us) @ ''::'' @ q"
            using zeros(6) split(1) colon by (cases us) auto
          moreover have "groupList (?w # us)" using zeros(2) hex_run_word[OF ne] by (simp add: groupList_def)
          ultimately show ?thesis using zeros(1,3,4,5)
            by (intro before_zerosI[where us = "?w # us" and r = q and ws = ws]) auto
        qed
      qed
    qed
  qed
qed

section \<open>The value of the groups\<close>

text \<open>The number the parser's eight pieces stand for.\<close>

definition pieces_value :: "nat list \<Rightarrow> int" where
  "pieces_value ps = foldl (\<lambda>v p. v * 65536 + int p) 0 ps"

lemma reduceGroups_value:
  "groupList ws \<Longrightarrow> reduceGroups v ws = Inr (foldl (\<lambda>v p. v * 65536 + int p) v (map hex_number ws))"
proof (induction ws arbitrary: v)
  case (Cons w ws)
  then have "parseInt16 w = Some (hex_number w)" "int (hex_number w) < 2 ^ 16" "groupList ws"
    by (auto simp: groupList_def parseInt16_word)
  then show ?case using Cons.IH or_push[of "int (hex_number w)" 16 v] by simp
qed simp

lemma ipv6TextValue_plain:
  "groupList ws \<Longrightarrow> length ws = 8 \<Longrightarrow> ipv6TextValue (join '':'' ws) = Inr (Some (pieces_value (map hex_number ws)))"
  using split_colons_join[of ws] splitPart_join[of ws] reduceGroups_value[of ws 0]
  by (simp add: ipv6TextValue_def ipv6Groups_def groupList_def pieces_value_def)

lemma ipv6TextValue_zeros:
  assumes "groupList us" "groupList ws" "length us + length ws \<le> 7"
  shows "ipv6TextValue (join '':'' us @ ''::'' @ join '':'' ws) =
     Inr (Some (pieces_value (map hex_number us @ replicate (8 - length us - length ws) 0 @ map hex_number ws)))"
proof -
  let ?gs = "us @ replicate (8 - length us - length ws) ''0'' @ ws"
  have z: "hex_number ''0'' = 0" "hexWord ''0''" by (simp_all add: hex_number_def hexWord_def is_hex_def hex_val_def is_digit_def digit_val_def)
  have words: "\<forall>w \<in> set us. hexWord w" "\<forall>w \<in> set ws. hexWord w" using assms by (auto simp: groupList_def)
  have "split_colons (join '':'' us @ ''::'' @ join '':'' ws) = [join '':'' us, join '':'' ws]"
    using split_colons_double[OF words(1)] split_colons_join[OF words(2)] by (cases "us = []") auto
  then have "ipv6Groups (join '':'' us @ ''::'' @ join '':'' ws) = Inr ?gs"
    using splitPart_join[OF words(1)] splitPart_join[OF words(2)] assms(3) by (simp add: ipv6Groups_def)
  moreover have "groupList ?gs" using assms(1,2) z by (auto simp: groupList_def)
  ultimately show ?thesis using reduceGroups_value[of ?gs 0] assms(3) z
    by (simp add: ipv6TextValue_def pieces_value_def)
qed

text \<open>For every text the URL parser takes, the expansion gives the parser's number.\<close>

lemma ipv6Text_agrees:
  assumes "url_ipv6 ip = Some ps"
  obtains full where "replaceTail ip = Some full" "ipv6TextValue full = Inr (Some (pieces_value ps))" "length ps = 8"
    "\<forall>p \<in> set ps. p < 65536"
proof (cases "ip \<noteq> [] \<and> hd ip = CHR '':''")
  case True
  then obtain r where ip: "ip = ''::'' @ r" and e: "Option.bind (url6 [0] (Some 1) r) url6_finish = Some ps"
    using assms by (auto simp: url_ipv6_def starts_with_iff split: if_splits)
  then obtain qs c where q: "url6 [0] (Some 1) r = Some (qs, c)" "url6_finish (qs, c) = Some ps"
    by (auto simp: bind_eq_Some_conv)
  from url6_after_zeros[OF q(1)] obtain ws where
    ws: "plainText r ws" "qs = [0] @ map hex_number ws" "c = Some 1" "length ws \<le> 7" by auto
  have full: "replaceTail ip = Some (join '':'' [] @ ''::'' @ join '':'' ws)"
    using replaceTail_colon[of "[]" "CHR '':'' # r"] replaceTail_colon[of "[]" r] ws(1) ip by (simp add: plainText_def)
  have ps: "ps = map hex_number [] @ replicate (8 - length ([] :: string list) - length ws) 0 @ map hex_number ws"
    using q(2) ws by (auto simp: url6_finish_def Suc_diff_le simp flip: replicate_Suc)
  show ?thesis
  proof (rule that[OF full])
    show "ipv6TextValue (join '':'' [] @ ''::'' @ join '':'' ws) = Inr (Some (pieces_value ps))"
      unfolding ps by (rule ipv6TextValue_zeros) (use ws in \<open>auto simp: plainText_def groupList_def\<close>)
    show "length ps = 8" "\<forall>p \<in> set ps. p < 65536" using ps ws by (auto simp: plainText_def groupList_def)
  qed
next
  case False
  then have "Option.bind (url6 [] None ip) url6_finish = Some ps" using assms by (auto simp: url_ipv6_def)
  then obtain qs c where q: "url6 [] None ip = Some (qs, c)" "url6_finish (qs, c) = Some ps"
    by (auto simp: bind_eq_Some_conv)
  have b: "beforeZeros [] ip qs c" using url6_before_zeros[OF q(1)] by simp
  then consider (plain) ws where "c = None" "plainText ip ws" "qs = map hex_number ws"
    | (zeros) us r ws where "groupList us" "plainText r ws" "c = Some (length us + 1)"
        "qs = map hex_number us @ [0] @ map hex_number ws" "ip = join '':'' us @ ''::'' @ r" "length qs \<le> 8"
    unfolding beforeZeros_def using False by (auto split: if_splits)
  then show ?thesis
  proof cases
    case plain
    then have "length ws = 8" "ps = map hex_number ws" using q(2) by (auto simp: url6_finish_def split: if_splits)
    then show ?thesis using plain ipv6TextValue_plain[of ws] by (intro that) (auto simp: plainText_def groupList_def)
  next
    case zeros
    have full: "replaceTail ip = Some (join '':'' us @ ''::'' @ join '':'' ws)"
      using replaceTail_colon[of "join '':'' us" "CHR '':'' # r"] replaceTail_colon[of "[]" r] zeros(2,5)
      by (simp add: plainText_def)
    have ps: "ps = map hex_number us @ replicate (8 - length us - length ws) 0 @ map hex_number ws"
      using q(2) zeros(3,4,6) by (auto simp: url6_finish_def Suc_diff_le simp flip: replicate_Suc)
    show ?thesis
    proof (rule that[OF full])
      show "ipv6TextValue (join '':'' us @ ''::'' @ join '':'' ws) = Inr (Some (pieces_value ps))"
        unfolding ps by (rule ipv6TextValue_zeros) (use zeros in \<open>auto simp: plainText_def\<close>)
      show "length ps = 8" "\<forall>p \<in> set ps. p < 65536" using ps zeros by (auto simp: plainText_def groupList_def)
    qed
  qed
qed

end
