(* ===== verification/Ip_Theorems.thy ===== *)
theory Ip_Theorems
  imports Ip_Laws
begin

text \<open>
  What \<open>lib/ip-bans.ts\<close> shows of addresses: its IPv6 expansion is the URL parser's number, a range is the
  addresses that share the network's leading bits, and an address may be banned exactly when it lies outside the
  private and Cloudflare ranges.
\<close>

section \<open>Values of addresses\<close>

lemma ipv6Value_number:
  "ipv6Value ip = Inr (if isIpv6 ip then Some (pieces_value (the (url_ipv6 ip))) else None)"
proof (cases "isIpv6 ip")
  case True
  then obtain ps where ps: "url_ipv6 ip = Some ps" by (auto simp: isIpv6_def)
  show ?thesis by (rule ipv6Text_agrees[OF ps]) (use True ps in \<open>simp add: ipv6Value_def\<close>)
qed (simp add: ipv6Value_def)

text \<open>
  The expansion of an address is total: it is the number the URL standard's parser reads the text as, and none exactly
  when the text is not an IPv6 address.
\<close>

theorem ipv6Value_is_url_address:
  "ipv6Value ip = Inr (if isIpv6 ip then Some (pieces_value (the (url_ipv6 ip))) else None)"
  by (rule ipv6Value_number)

lemma ipv4Octets_no_colon: "CHR '':'' \<in> set ip \<Longrightarrow> ipv4Octets ip = None"
proof -
  assume c: "CHR '':'' \<in> set ip"
  have "\<exists>w \<in> set (split_on (CHR ''.'') ip). CHR '':'' \<in> set w" using split_on_covers[OF c, of "CHR ''.''"] by simp
  moreover have "\<not> is_digit (CHR '':'')" by (simp add: is_digit_def)
  ultimately have "\<exists>w \<in> set (split_on (CHR ''.'') ip). \<not> list_all is_digit w" by (auto simp: list_all_iff)
  then show ?thesis by (auto simp: ipv4Octets_def Let_def list_all_iff)
qed

lemma addressValue_v6: "isIpv6 ip \<Longrightarrow> url_ipv6 ip = Some ps \<Longrightarrow> addressValue ip = Inr (Some (128, pieces_value ps))"
  by (simp add: addressValue_def ipv4Octets_no_colon isIpv6_def ipv6Value_number)

definition octets_value :: "nat list \<Rightarrow> int" where
  "octets_value os = foldl (\<lambda>v p. v * 256 + int p) 0 os"

lemma fold_octets:
  "\<forall>n \<in> set os. n \<le> 255 \<Longrightarrow>
   foldl (\<lambda>value octet. push_bit 8 value OR int octet) v os = foldl (\<lambda>v p. v * 256 + int p) v os"
  by (induction os arbitrary: v) (auto simp: or_push)

lemma ipv4Octets_range: "ipv4Octets ip = Some os \<Longrightarrow> length os = 4 \<and> (\<forall>n \<in> set os. n \<le> 255)"
  by (auto simp: ipv4Octets_def Let_def list_all_iff split: if_splits)

lemma addressValue_v4: "ipv4Octets ip = Some os \<Longrightarrow> addressValue ip = Inr (Some (32, octets_value os))"
  using fold_octets[of os 0] ipv4Octets_range[of ip os] by (simp add: addressValue_def octets_value_def)

lemma foldl_bound:
  "0 \<le> v \<Longrightarrow> \<forall>n \<in> set os. int n < B \<Longrightarrow> v < M \<Longrightarrow> 0 < B \<Longrightarrow>
   0 \<le> foldl (\<lambda>v p. v * B + int p) v os \<and> foldl (\<lambda>v p. v * B + int p) v os < M * B ^ length os"
proof (induction os arbitrary: v M)
  case (Cons p os)
  have "v * B + int p < (v + 1) * B" using Cons.prems by (simp add: algebra_simps)
  also have "\<dots> \<le> M * B" using Cons.prems by (intro mult_right_mono) auto
  finally show ?case
    using Cons.IH[of "v * B + int p" "M * B"] Cons.prems by (simp add: mult.assoc)
qed simp

section \<open>Ranges\<close>

lemma ipInCidr_bits:
  assumes "normalizeIp (Some ip) = Some v" "addressValue v = Inr (Some (n, a))"
    and "split_on (CHR ''/'') cidr = [base, l]" "js_number l = Some (of_nat len)" "len \<le> n"
    and "addressValue base = Inr (Some (m, r))"
  shows "ipInCidr ip cidr = Inr (n = m \<and> a div 2 ^ (n - len) = r div 2 ^ (n - len))"
  using assms by (auto simp: ipInCidr_def shift_right_def drop_bit_eq_div nat_diff_distrib simp flip: of_nat_diff)

lemma div_block: "0 < (m :: int) \<Longrightarrow> a div m = r div m \<longleftrightarrow> r - r mod m \<le> a \<and> a < r - r mod m + m"
proof -
  assume m: "0 < m"
  have "m * (a div m) \<le> a \<and> a < m * (a div m) + m"
    using m pos_mod_bound[of m a] pos_mod_sign[of m a] mult_div_mod_eq[of m a] by linarith
  then have "a div m = q \<longleftrightarrow> m * q \<le> a \<and> a < m * q + m" for q
    using int_div_pos_eq[of a m q "a - m * q"] by auto
  then show ?thesis by (simp add: minus_mod_eq_mult_div)
qed

theorem cidr_is_address_block:
  assumes "normalizeIp (Some ip) = Some v" "addressValue v = Inr (Some (n, a))"
    and "CHR ''/'' \<notin> set base" "addressValue base = Inr (Some (m, r))" "len \<le> n"
  shows "ipInCidr ip (base @ ''/'' @ show_nat len) =
     Inr (n = m \<and> r - r mod 2 ^ (n - len) \<le> a \<and> a < r - r mod 2 ^ (n - len) + 2 ^ (n - len))"
proof -
  have "CHR ''/'' \<notin> set (show_nat len)" by (rule show_nat_no_sep) (simp add: is_digit_def)
  then have "split_on (CHR ''/'') (base @ ''/'' @ show_nat len) = [base, show_nat len]"
    using assms(3) by (simp add: split_on_append split_on_no_sep)
  then show ?thesis
    using ipInCidr_bits[OF assms(1,2) _ js_number_show assms(5,4)] div_block[of "2 ^ (n - len)" a r] by simp
qed

theorem cidr_is_address_block_witness:
  "ipInCidr ''192.168.3.4'' (''192.168.0.0'' @ ''/'' @ show_nat 16) = Inr True"
proof -
  have v: "ipv4Octets ''192.168.3.4'' = Some [192, 168, 3, 4]" "ipv4Octets ''192.168.0.0'' = Some [192, 168, 0, 0]"
    by code_simp+
  have "normalizeIp (Some ''192.168.3.4'') = Some ''192.168.3.4''" by code_simp
  from cidr_is_address_block[OF this addressValue_v4[OF v(1)] _ addressValue_v4[OF v(2)], of 16] show ?thesis
    by (simp add: octets_value_def)
qed

section \<open>The ranges of the code\<close>

text \<open>Leading bits of a number written in digits of \<open>k\<close> bits: whole digits, then leading bits of one digit.\<close>

fun digits_value :: "nat \<Rightarrow> nat list \<Rightarrow> nat" where
  "digits_value k [] = 0"
| "digits_value k (x # xs) = x * 2 ^ (k * length xs) + digits_value k xs"

fun samePrefix :: "nat \<Rightarrow> nat \<Rightarrow> nat list \<Rightarrow> nat list \<Rightarrow> bool" where
  "samePrefix k len (x # xs) (y # ys) \<longleftrightarrow>
     (if len < k then x div 2 ^ (k - len) = y div 2 ^ (k - len) else x = y \<and> samePrefix k (len - k) xs ys)"
| "samePrefix k len xs ys \<longleftrightarrow> True"

lemma digits_value_less: "\<forall>x \<in> set xs. x < 2 ^ k \<Longrightarrow> digits_value k xs < 2 ^ (k * length xs)"
proof (induction xs)
  case (Cons x xs)
  then have "x + 1 \<le> 2 ^ k" "digits_value k xs < 2 ^ (k * length xs)" by auto
  then have "(x + 1) * 2 ^ (k * length xs) \<le> 2 ^ k * 2 ^ (k * length xs)" by (intro mult_right_mono) auto
  with \<open>digits_value k xs < _\<close> show ?case by (simp add: power_add)
qed simp

lemma foldl_digits: "foldl (\<lambda>v p. v * 2 ^ k + int p) v xs = v * 2 ^ (k * length xs) + int (digits_value k xs)"
  by (induction xs arbitrary: v) (auto simp: power_add algebra_simps)

lemma digits_div_high: "V < (2 :: nat) ^ n \<Longrightarrow> (x * 2 ^ n + V) div 2 ^ (n + j) = x div 2 ^ j"
  by (simp add: power_add div_mult2_eq)

lemma digits_div_low:
  assumes "V < (2 :: nat) ^ n" "W < 2 ^ n" "s \<le> n"
  shows "(x * 2 ^ n + V) div 2 ^ s = (y * 2 ^ n + W) div 2 ^ s \<longleftrightarrow> x = y \<and> V div 2 ^ s = W div 2 ^ s"
proof -
  define m where "m = n - s"
  have n: "(2 :: nat) ^ n = 2 ^ m * 2 ^ s" using assms(3) by (simp add: m_def flip: power_add)
  have d: "(z * 2 ^ n + U) div 2 ^ s = z * 2 ^ m + U div 2 ^ s" for z U :: nat
  proof -
    have "z * 2 ^ n + U = U + (z * 2 ^ m) * 2 ^ s" by (simp add: n)
    moreover have "(U + (z * 2 ^ m) * 2 ^ s) div 2 ^ s = z * 2 ^ m + U div 2 ^ s" by simp
    ultimately show ?thesis by metis
  qed
  have "V div 2 ^ s < 2 ^ m" "W div 2 ^ s < 2 ^ m" using assms(1,2) n by (simp_all add: less_mult_imp_div_less)
  then have "(x * 2 ^ m + V div 2 ^ s) div 2 ^ m = x" "(y * 2 ^ m + W div 2 ^ s) div 2 ^ m = y" by simp_all
  then show ?thesis unfolding d by (metis add_left_cancel)
qed

lemma samePrefix_value:
  "length xs = length ys \<Longrightarrow> \<forall>x \<in> set xs. x < 2 ^ k \<Longrightarrow> \<forall>y \<in> set ys. y < 2 ^ k \<Longrightarrow> len \<le> k * length xs \<Longrightarrow>
   digits_value k xs div 2 ^ (k * length xs - len) = digits_value k ys div 2 ^ (k * length xs - len)
     \<longleftrightarrow> samePrefix k len xs ys"
proof (induction k len xs ys rule: samePrefix.induct)
  case (1 k len x xs y ys)
  note b = digits_value_less[of xs k] digits_value_less[of ys k]
  show ?case
  proof (cases "len < k")
    case True
    then have "k * length (x # xs) - len = k * length xs + (k - len)" by simp
    then show ?thesis
      using True 1(2,3,4) b digits_div_high[of "digits_value k xs" "k * length xs" x "k - len"]
        digits_div_high[of "digits_value k ys" "k * length xs" y "k - len"] by simp
  next
    case False
    then have "k * length (x # xs) - len = k * length xs - (len - k)" by simp
    then show ?thesis
      using False 1 b digits_div_low[of "digits_value k xs" "k * length xs" "digits_value k ys" "k * length xs - (len - k)" x y]
      by simp
  qed
qed auto

lemma octets_value_digits: "octets_value os = int (digits_value 8 os)"
  using foldl_digits[of 8 0 os] by (simp add: octets_value_def)

lemma pieces_value_digits: "pieces_value ps = int (digits_value 16 ps)"
  using foldl_digits[of 16 0 ps] by (simp add: pieces_value_def)

lemma normalize_address:
  "normalizeIp ip = Some v \<Longrightarrow> (\<exists>os. ipv4Octets v = Some os) \<or> (isIpv6 v \<and> (\<exists>ps. url_ipv6 v = Some ps))"
  by (auto simp: normalizeIp_def Let_def isIpv6_def split: if_splits)

text \<open>An address as its digits: four of eight bits or eight of sixteen.\<close>

definition digitsOf :: "string \<Rightarrow> nat \<Rightarrow> nat list \<Rightarrow> bool" where
  "digitsOf v k ds \<longleftrightarrow> (if k = 8 then ipv4Octets v = Some ds else k = 16 \<and> isIpv6 v \<and> url_ipv6 v = Some ds)"

lemma digitsOf_facts:
  assumes "digitsOf v k ds"
  shows "addressValue v = Inr (Some (k * length ds, int (digits_value k ds)))" "k * length ds = (if k = 8 then 32 else 128)"
    "\<forall>x \<in> set ds. x < 2 ^ k" "k = 8 \<or> k = 16"
proof -
  consider "k = 8" "ipv4Octets v = Some ds" | "k = 16" "isIpv6 v" "url_ipv6 v = Some ds"
    using assms by (cases "k = 8") (simp_all add: digitsOf_def)
  then have "addressValue v = Inr (Some (k * length ds, int (digits_value k ds))) \<and>
      k * length ds = (if k = 8 then 32 else 128) \<and> (\<forall>x \<in> set ds. x < 2 ^ k) \<and> (k = 8 \<or> k = 16)"
  proof cases
    case 1
    then show ?thesis using ipv4Octets_range[OF 1(2)] addressValue_v4[OF 1(2)] by (auto simp: octets_value_digits)
  next
    case 2
    obtain full where "length ds = 8" "\<forall>p \<in> set ds. p < 65536" by (rule ipv6Text_agrees[OF 2(3)])
    then show ?thesis using 2 addressValue_v6[OF 2(2,3)] by (auto simp: pieces_value_digits)
  qed
  then show "addressValue v = Inr (Some (k * length ds, int (digits_value k ds)))" "k * length ds = (if k = 8 then 32 else 128)"
    "\<forall>x \<in> set ds. x < 2 ^ k" "k = 8 \<or> k = 16" by auto
qed

lemma ipInCidr_digits:
  assumes "normalizeIp (Some ip) = Some v" "digitsOf v k ds" "CHR ''/'' \<notin> set base" "digitsOf base k' ns"
    "len \<le> k' * length ns"
  shows "ipInCidr ip (base @ ''/'' @ show_nat len) = Inr (k = k' \<and> samePrefix k len ds ns)"
proof -
  note f = digitsOf_facts[OF assms(2)] digitsOf_facts[OF assms(4)]
  have "CHR ''/'' \<notin> set (show_nat len)" by (rule show_nat_no_sep) (simp add: is_digit_def)
  then have sp: "split_on (CHR ''/'') (base @ ''/'' @ show_nat len) = [base, show_nat len]"
    using assms(3) by (simp add: split_on_append split_on_no_sep)
  show ?thesis
  proof (cases "k = k'")
    case True
    then have l: "length ds = length ns" using f(2,4,6) by (auto split: if_splits)
    have "int (digits_value k ds) div 2 ^ (k * length ds - len) = int (digits_value k ns) div 2 ^ (k * length ds - len)
        \<longleftrightarrow> digits_value k ds div 2 ^ (k * length ds - len) = digits_value k ns div 2 ^ (k * length ds - len)"
      by (metis of_nat_eq_iff of_nat_numeral of_nat_power zdiv_int)
    also have "\<dots> \<longleftrightarrow> samePrefix k len ds ns"
      using samePrefix_value[OF l, of k len] f True assms(5) l by auto
    finally show ?thesis
      using ipInCidr_bits[OF assms(1) f(1) sp js_number_show _ f(5)] assms(5) True l by simp
  next
    case False
    have "len \<le> 128" using assms(5) f(6) by (auto split: if_splits)
    then show ?thesis
      using assms(1) f False sp by (auto simp: ipInCidr_def split: if_splits)
  qed
qed

text \<open>The ranges of the two lists, each as its base, its digits and its length.\<close>

type_synonym range_row = "string \<times> nat \<times> nat list \<times> nat"

definition neverRows :: "range_row list" where
  "neverRows =
     [(''0.0.0.0'', 8, [0, 0, 0, 0], 8),
      (''10.0.0.0'', 8, [10, 0, 0, 0], 8),
      (''100.64.0.0'', 8, [100, 64, 0, 0], 10),
      (''127.0.0.0'', 8, [127, 0, 0, 0], 8),
      (''169.254.0.0'', 8, [169, 254, 0, 0], 16),
      (''172.16.0.0'', 8, [172, 16, 0, 0], 12),
      (''192.168.0.0'', 8, [192, 168, 0, 0], 16),
      (''224.0.0.0'', 8, [224, 0, 0, 0], 3),
      (''::'', 16, [0, 0, 0, 0, 0, 0, 0, 0], 128),
      (''::1'', 16, [0, 0, 0, 0, 0, 0, 0, 1], 128),
      (''fc00::'', 16, [64512, 0, 0, 0, 0, 0, 0, 0], 7),
      (''fe80::'', 16, [65152, 0, 0, 0, 0, 0, 0, 0], 10),
      (''ff00::'', 16, [65280, 0, 0, 0, 0, 0, 0, 0], 8)]"

definition cloudflareRows :: "range_row list" where
  "cloudflareRows =
     [(''173.245.48.0'', 8, [173, 245, 48, 0], 20),
      (''103.21.244.0'', 8, [103, 21, 244, 0], 22),
      (''103.22.200.0'', 8, [103, 22, 200, 0], 22),
      (''103.31.4.0'', 8, [103, 31, 4, 0], 22),
      (''141.101.64.0'', 8, [141, 101, 64, 0], 18),
      (''108.162.192.0'', 8, [108, 162, 192, 0], 18),
      (''190.93.240.0'', 8, [190, 93, 240, 0], 20),
      (''188.114.96.0'', 8, [188, 114, 96, 0], 20),
      (''197.234.240.0'', 8, [197, 234, 240, 0], 22),
      (''198.41.128.0'', 8, [198, 41, 128, 0], 17),
      (''162.158.0.0'', 8, [162, 158, 0, 0], 15),
      (''104.16.0.0'', 8, [104, 16, 0, 0], 13),
      (''104.24.0.0'', 8, [104, 24, 0, 0], 14),
      (''172.64.0.0'', 8, [172, 64, 0, 0], 13),
      (''131.0.72.0'', 8, [131, 0, 72, 0], 22),
      (''2400:cb00::'', 16, [9216, 51968, 0, 0, 0, 0, 0, 0], 32),
      (''2606:4700::'', 16, [9734, 18176, 0, 0, 0, 0, 0, 0], 32),
      (''2803:f800::'', 16, [10243, 63488, 0, 0, 0, 0, 0, 0], 32),
      (''2405:b500::'', 16, [9221, 46336, 0, 0, 0, 0, 0, 0], 32),
      (''2405:8100::'', 16, [9221, 33024, 0, 0, 0, 0, 0, 0], 32),
      (''2a06:98c0::'', 16, [10758, 39104, 0, 0, 0, 0, 0, 0], 29),
      (''2c0f:f248::'', 16, [11279, 62024, 0, 0, 0, 0, 0, 0], 32)]"

definition rowText :: "range_row \<Rightarrow> string" where
  "rowText = (\<lambda>(base, k, ns, len). base @ ''/'' @ show_nat len)"

definition rowOk :: "range_row \<Rightarrow> bool" where
  "rowOk = (\<lambda>(base, k, ns, len). CHR ''/'' \<notin> set base \<and> digitsOf base k ns \<and> len \<le> k * length ns)"

definition inRow :: "nat \<Rightarrow> nat list \<Rightarrow> range_row \<Rightarrow> bool" where
  "inRow k ds = (\<lambda>(base, k', ns, len). k = k' \<and> samePrefix k len ds ns)"

lemma rows_are_ranges:
  "map rowText neverRows = NEVER_BANNED_RANGES" "map rowText cloudflareRows = CLOUDFLARE_RANGES"
  by (simp_all add: rowText_def neverRows_def cloudflareRows_def NEVER_BANNED_RANGES_def CLOUDFLARE_RANGES_def
      show_nat_small digit_chars)

lemma rowOk_v4: "ipv4Octets base = Some ns \<Longrightarrow> CHR ''/'' \<notin> set base \<Longrightarrow> len \<le> 32 \<Longrightarrow> rowOk (base, 8, ns, len)"
  using ipv4Octets_range[of base ns] by (simp add: rowOk_def digitsOf_def)

lemma rowOk_v6:
  "url_ipv6 base = Some ns \<Longrightarrow> CHR '':'' \<in> set base \<Longrightarrow> list_all (\<lambda>c. is_hex c \<or> c = CHR '':'' \<or> c = CHR ''.'') base \<Longrightarrow>
   len \<le> 128 \<Longrightarrow> rowOk (base, 16, ns, len)"
proof -
  assume a: "url_ipv6 base = Some ns" "CHR '':'' \<in> set base"
    "list_all (\<lambda>c. is_hex c \<or> c = CHR '':'' \<or> c = CHR ''.'') base" "len \<le> 128"
  have "CHR ''/'' \<notin> set base"
    using a(3) by (auto simp: list_all_iff is_hex_def is_digit_def lower_char_def Let_def)
  moreover have "length ns = 8" by (rule ipv6Text_agrees[OF a(1)])
  ultimately show ?thesis using a by (simp add: rowOk_def digitsOf_def isIpv6_def)
qed

lemma replicate_small:
  "replicate 1 x = [x]" "replicate 2 x = [x, x]" "replicate 3 x = [x, x, x]" "replicate 4 x = [x, x, x, x]"
  "replicate 5 x = [x, x, x, x, x]" "replicate 6 x = [x, x, x, x, x, x]" "replicate 7 x = [x, x, x, x, x, x, x]"
  by (simp_all add: numeral_eq_Suc)

lemmas v4_eval = ipv4Octets_def Let_def is_digit_def read_nat_def digit_val_def
lemmas v6_eval = url_ipv6_def url6.simps hex_run_def hex_number_def is_hex_def is_digit_def hex_val_def digit_val_def
  lower_char_def Let_def url6_finish_def starts_with_def replicate_small

lemma neverRows_ok: "\<forall>row \<in> set neverRows. rowOk row"
  unfolding neverRows_def list.set ball_simps
  by (intro conjI rowOk_v4 rowOk_v6 TrueI) (simp_all add: v4_eval v6_eval)

lemma cloudflareRows_ok: "\<forall>row \<in> set cloudflareRows. rowOk row"
  unfolding cloudflareRows_def list.set ball_simps
  by (intro conjI rowOk_v4 rowOk_v6 TrueI) (simp_all add: v4_eval v6_eval)

lemma bannable_digits:
  assumes "normalizeIp ip = Some w" "normalizeIp (Some w) = Some v" "digitsOf v k ds"
  shows "bannableIp ip = Inr (\<not> list_ex (inRow k ds) neverRows \<and> \<not> list_ex (inRow k ds) cloudflareRows)"
proof -
  have row: "ipInCidr w (rowText row) = Inr (inRow k ds row)" if ok: "rowOk row" for row
  proof -
    obtain base k' ns len where r: "row = (base, k', ns, len)" by (cases row)
    have "ipInCidr w (base @ ''/'' @ show_nat len) = Inr (k = k' \<and> samePrefix k len ds ns)"
      by (rule ipInCidr_digits[OF assms(2,3)]) (use ok in \<open>simp_all add: rowOk_def r\<close>)
    then show ?thesis by (simp add: rowText_def inRow_def r)
  qed
  have "\<forall>row \<in> set rows. rowOk row \<Longrightarrow> some_range w (map rowText rows) = Inr (list_ex (inRow k ds) rows)" for rows
    by (induction rows) (simp_all add: row split: bool.split)
  then have "some_range w (map rowText (neverRows @ cloudflareRows)) = Inr (list_ex (inRow k ds) (neverRows @ cloudflareRows))"
    using neverRows_ok cloudflareRows_ok by (metis Un_iff set_append)
  then show ?thesis using assms(1) by (simp add: bannableIp_def rows_are_ranges)
qed

text \<open>The private, loopback, link-local, carrier-grade, multicast and unspecified IPv4 addresses, and Cloudflare's.\<close>

definition reservedV4 :: "nat \<Rightarrow> nat \<Rightarrow> bool" where
  "reservedV4 a b \<longleftrightarrow>
     a = 0 \<or> a = 10 \<or> a = 127 \<or> 224 \<le> a \<or> (a = 100 \<and> 64 \<le> b \<and> b < 128) \<or> (a = 169 \<and> b = 254) \<or>
     (a = 172 \<and> 16 \<le> b \<and> b < 32) \<or> (a = 192 \<and> b = 168)"

definition cloudflareV4 :: "nat \<Rightarrow> nat \<Rightarrow> nat \<Rightarrow> bool" where
  "cloudflareV4 a b c \<longleftrightarrow>
     (a = 173 \<and> b = 245 \<and> 48 \<le> c \<and> c < 64) \<or> (a = 103 \<and> b = 21 \<and> 244 \<le> c \<and> c < 248) \<or>
     (a = 103 \<and> b = 22 \<and> 200 \<le> c \<and> c < 204) \<or> (a = 103 \<and> b = 31 \<and> 4 \<le> c \<and> c < 8) \<or>
     (a = 141 \<and> b = 101 \<and> 64 \<le> c \<and> c < 128) \<or> (a = 108 \<and> b = 162 \<and> 192 \<le> c) \<or>
     (a = 190 \<and> b = 93 \<and> 240 \<le> c) \<or> (a = 188 \<and> b = 114 \<and> 96 \<le> c \<and> c < 112) \<or>
     (a = 197 \<and> b = 234 \<and> 240 \<le> c \<and> c < 244) \<or> (a = 198 \<and> b = 41 \<and> 128 \<le> c) \<or>
     (a = 162 \<and> 158 \<le> b \<and> b < 160) \<or> (a = 104 \<and> 16 \<le> b \<and> b < 24) \<or> (a = 104 \<and> 24 \<le> b \<and> b < 28) \<or>
     (a = 172 \<and> 64 \<le> b \<and> b < 72) \<or> (a = 131 \<and> b = 0 \<and> 72 \<le> c \<and> c < 76)"

lemma normalize_dotted:
  assumes "a \<le> 255" "b \<le> 255" "c \<le> 255" "d \<le> 255"
  defines "ip \<equiv> join ''.'' (map show_nat [a, b, c, d])"
  shows "ipv4Octets ip = Some [a, b, c, d]" "normalizeIp (Some ip) = Some ip"
proof -
  have digits: "\<forall>x \<in> set (show_nat n). is_digit x" for n using show_nat_digits[of n] by (simp add: list_all_iff)
  have dot: "\<not> is_digit (CHR ''.'')" by (simp add: is_digit_def)
  have "split_on (CHR ''.'') ip = map show_nat [a, b, c, d]"
    unfolding ip_def by (rule split_on_join) (use dot digits in auto)
  moreover have "length (show_nat n) \<le> 3" if le: "n \<le> 255" for n
  proof -
    consider "n < 10" | "10 \<le> n" "n < 100" | "100 \<le> n" "n < 1000" using le by linarith
    then show ?thesis by cases (simp_all add: show_nat_small)
  qed
  moreover have "Suc 0 \<le> length (show_nat n)" for n using show_nat_nonempty[of n] by (cases "show_nat n") auto
  ultimately show o: "ipv4Octets ip = Some [a, b, c, d]"
    using assms(1,2,3,4) digits by (simp add: ipv4Octets_def Let_def list_all_iff)
  have chars: "\<forall>x \<in> set ip. is_digit x \<or> x = CHR ''.''" using digits by (auto simp: ip_def)
  have "is_digit (hd (show_nat n))" "is_digit (last (show_nat n))" for n using digits[of n] by simp_all
  then have ne: "ip \<noteq> []" "is_digit (hd ip)" "is_digit (last ip)" by (simp_all add: ip_def)
  have "trim ip = ip" by (intro trim_id ne is_digit_not_ws)
  moreover have "lower ip = ip"
    unfolding lower_def by (rule map_idI) (use chars in \<open>auto simp: lower_char_def is_digit_def Let_def\<close>)
  moreover have "\<not> starts_with ''::ffff:'' ip" using ne by (cases ip) (auto simp: is_digit_def)
  ultimately show "normalizeIp (Some ip) = Some ip" using o by (simp add: normalizeIp_def)
qed

lemma div_range: "(m :: nat) div k = q \<longleftrightarrow> q * k \<le> m \<and> m < q * k + k" if "0 < k"
  using that by (metis add.commute div_nat_eqI div_times_less_eq_dividend dividend_less_times_div mult.commute mult_Suc)

lemma bannableIp_dotted:
  assumes "a \<le> 255" "b \<le> 255" "c \<le> 255" "d \<le> 255"
  shows "bannableIp (Some (join ''.'' (map show_nat [a, b, c, d]))) = Inr (\<not> reservedV4 a b \<and> \<not> cloudflareV4 a b c)"
proof -
  have small: "a < 256" "b < 256" "c < 256" using assms by simp_all
  have "list_ex (inRow 8 [a, b, c, d]) neverRows \<longleftrightarrow> reservedV4 a b"
    by (simp add: neverRows_def inRow_def reservedV4_def div_range small) blast
  moreover have "list_ex (inRow 8 [a, b, c, d]) cloudflareRows \<longleftrightarrow> cloudflareV4 a b c"
    by (simp add: cloudflareRows_def inRow_def cloudflareV4_def div_range small)
  ultimately show ?thesis
    using bannable_digits[OF normalize_dotted(2)[OF assms] normalize_dotted(2)[OF assms], of 8 "[a, b, c, d]"]
      normalize_dotted(1)[OF assms] by (simp add: digitsOf_def)
qed

theorem bannable_ipv4:
  assumes "a \<le> 255" "b \<le> 255" "c \<le> 255" "d \<le> 255"
  shows "bannableIp (Some (join ''.'' (map show_nat [a, b, c, d]))) = Inr (\<not> reservedV4 a b \<and> \<not> cloudflareV4 a b c)"
  using bannableIp_dotted[OF assms] .

theorem bannable_ipv4_witness:
  "bannableIp (Some ''172.31.0.9'') = Inr False \<and> bannableIp (Some ''172.32.0.9'') = Inr True"
  using bannable_ipv4[of 172 31 0 9] bannable_ipv4[of 172 32 0 9]
  by (simp add: show_nat_small digit_chars reservedV4_def cloudflareV4_def)

text \<open>The same for IPv6, over the eight pieces of the address.\<close>

definition reservedV6 :: "nat list \<Rightarrow> bool" where
  "reservedV6 ps \<longleftrightarrow>
     ps = [0, 0, 0, 0, 0, 0, 0, 0] \<or> ps = [0, 0, 0, 0, 0, 0, 0, 1] \<or> (0xFC00 \<le> ps ! 0 \<and> ps ! 0 < 0xFE00) \<or>
     (0xFE80 \<le> ps ! 0 \<and> ps ! 0 < 0xFEC0) \<or> 0xFF00 \<le> ps ! 0"

definition cloudflareV6 :: "nat list \<Rightarrow> bool" where
  "cloudflareV6 ps \<longleftrightarrow>
     (ps ! 0 = 0x2400 \<and> ps ! 1 = 0xCB00) \<or> (ps ! 0 = 0x2606 \<and> ps ! 1 = 0x4700) \<or>
     (ps ! 0 = 0x2803 \<and> ps ! 1 = 0xF800) \<or> (ps ! 0 = 0x2405 \<and> ps ! 1 = 0xB500) \<or>
     (ps ! 0 = 0x2405 \<and> ps ! 1 = 0x8100) \<or> (ps ! 0 = 0x2A06 \<and> 0x98C0 \<le> ps ! 1 \<and> ps ! 1 < 0x98C8) \<or>
     (ps ! 0 = 0x2C0F \<and> ps ! 1 = 0xF248)"

lemma list8:
  assumes "length ps = 8"
  obtains a b c d e f g h where "ps = [a, b, c, d, e, f, g, h]"
  using assms by (auto simp: numeral_eq_Suc length_Suc_conv)

theorem bannable_ipv6:
  assumes "normalizeIp ip = Some v" "normalizeIp (Some v) = Some v" "isIpv6 v" "url_ipv6 v = Some ps"
  shows "bannableIp ip = Inr (\<not> reservedV6 ps \<and> \<not> cloudflareV6 ps)"
proof -
  have d: "digitsOf v 16 ps" using assms(3,4) by (simp add: digitsOf_def)
  have "length ps = 8" using digitsOf_facts(2)[OF d] by simp
  then obtain a b c e f g h i where ps: "ps = [a, b, c, e, f, g, h, i]" by (rule list8)
  have small: "a < 65536" "b < 65536" "c < 65536" using digitsOf_facts(3)[OF d] ps by simp_all
  have "list_ex (inRow 16 ps) neverRows \<longleftrightarrow> reservedV6 ps"
    by (simp add: neverRows_def inRow_def reservedV6_def div_range small ps)
  moreover have "list_ex (inRow 16 ps) cloudflareRows \<longleftrightarrow> cloudflareV6 ps"
    by (simp add: cloudflareRows_def inRow_def cloudflareV6_def div_range small ps)
  ultimately show ?thesis using bannable_digits[OF assms(1,2) d] by simp
qed

theorem bannable_ipv6_witness:
  "bannableIp (Some ''fe80::7'') = Inr False \<and> bannableIp (Some ''2a01::7'') = Inr True"
proof -
  have v: "isIpv6 ''fe80::7''" "isIpv6 ''2a01::7''" and p: "url_ipv6 ''fe80::7'' = Some [0xFE80, 0, 0, 0, 0, 0, 0, 7]"
    "url_ipv6 ''2a01::7'' = Some [0x2A01, 0, 0, 0, 0, 0, 0, 7]"
    by (simp_all add: isIpv6_def v6_eval)
  have n: "normalizeIp (Some ''fe80::7'') = Some ''fe80::7''" "normalizeIp (Some ''2a01::7'') = Some ''2a01::7''"
    using v by (simp_all add: normalizeIp_def trim_def is_ws_def lower_def lower_char_def starts_with_def Let_def ipv4Octets_no_colon)
  show ?thesis
    using bannable_ipv6[OF n(1) n(1) v(1) p(1)] bannable_ipv6[OF n(2) n(2) v(2) p(2)]
    by (simp add: reservedV6_def cloudflareV6_def)
qed

text \<open>A test never throws: whatever the header says, the answer is a truth value.\<close>

lemma normalize_digits:
  assumes "normalizeIp ip = Some w"
  obtains k ds where "digitsOf w k ds"
proof -
  have "(\<exists>os. digitsOf w 8 os) \<or> (\<exists>ps. digitsOf w 16 ps)"
    using normalize_address[OF assms] by (simp add: digitsOf_def)
  then show ?thesis using that by blast
qed

lemma ipInCidr_total: "rowOk row \<Longrightarrow> \<exists>b. ipInCidr w (rowText row) = Inr b"
proof -
  assume ok: "rowOk row"
  obtain base k' ns len where r: "row = (base, k', ns, len)" by (cases row)
  show ?thesis
  proof (cases "normalizeIp (Some w)")
    case None
    have "CHR ''/'' \<notin> set (show_nat len)" by (rule show_nat_no_sep) (simp add: is_digit_def)
    then have "split_on (CHR ''/'') (base @ ''/'' @ show_nat len) = [base, show_nat len]"
      using ok by (simp add: rowOk_def r split_on_append split_on_no_sep)
    moreover have "addressValue [] = Inr None" by (simp add: addressValue_def ipv4Octets_def ipv6Value_def isIpv6_def)
    moreover have "addressValue base = Inr (Some (k' * length ns, int (digits_value k' ns)))"
      using ok digitsOf_facts(1)[of base k' ns] by (simp add: rowOk_def r)
    ultimately show ?thesis by (simp add: ipInCidr_def rowText_def r None exI[of _ False])
  next
    case (Some v)
    obtain k ds where "digitsOf v k ds" by (rule normalize_digits[OF Some])
    from ipInCidr_digits[OF Some this, of base k' ns len] show ?thesis
      using ok by (auto simp: rowText_def rowOk_def r)
  qed
qed

theorem bannable_total: "\<exists>b. bannableIp ip = Inr b"
proof (cases "normalizeIp ip")
  case (Some w)
  have "\<forall>row \<in> set rows. rowOk row \<Longrightarrow> \<exists>b. some_range w (map rowText rows) = Inr b" for rows
  proof (induction rows)
    case (Cons row rows)
    then show ?case using ipInCidr_total[of row w] by (auto split: bool.split)
  qed (simp add: exI[of _ False])
  then have "\<exists>b. some_range w (map rowText (neverRows @ cloudflareRows)) = Inr b"
    using neverRows_ok cloudflareRows_ok by (metis Un_iff set_append)
  then show ?thesis using Some by (auto simp: bannableIp_def rows_are_ranges)
qed (simp add: bannableIp_def exI[of _ False])

text \<open>
  An IPv4-mapped address in hexadecimal is an address for the URL parser, and \<open>normalizeIp\<close> says it is none: the
  prefix is dropped and what is left is no address.
\<close>

theorem mapped_hex_is_refused: "isIpv6 ''::ffff:102:304'' \<and> normalizeIp (Some ''::ffff:102:304'') = None"
  by (simp add: isIpv6_def v6_eval normalizeIp_def v4_eval trim_def is_ws_def lower_def)

end
