(* ===== verification/Ban_Theorems.thy ===== *)
theory Ban_Theorems
  imports Ip_Bans Ip_Theorems
begin

text \<open>
  Properties of the bans: no reserved or Cloudflare address is ever banned or published, a ban is written exactly when
  the threshold is reached, and stored settings are read back in range.
\<close>

section \<open>Settings\<close>

definition settingsOk :: "IpBanSettings \<Rightarrow> bool" where
  "settingsOk s \<longleftrightarrow>
     0 \<le> is_durationHours s \<and> is_durationHours s \<le> 8760 \<and> 1 \<le> is_threshold s \<and> is_threshold s \<le> 1000 \<and>
     1 \<le> is_windowMinutes s \<and> is_windowMinutes s \<le> 1440"

definition storedSettings :: "IpBanSettings \<Rightarrow> storedIpBans" where
  "storedSettings s =
     \<lparr>sb_autoReportAbuse = Some (is_autoReportAbuse s), sb_disrespectMode = Some (is_disrespectMode s),
      sb_durationHours = Some (of_int (is_durationHours s)), sb_enabled = Some (is_enabled s),
      sb_meanMode = Some (is_meanMode s), sb_threshold = Some (of_int (is_threshold s)),
      sb_windowMinutes = Some (of_int (is_windowMinutes s))\<rparr>"

lemma whole_range: "whole v lo hi = Some i \<Longrightarrow> lo \<le> i \<and> i \<le> hi"
  by (auto simp: whole_def split: option.splits if_splits)

theorem stored_settings_in_range:
  "settingsOk (withIpBanDefaults stored) \<and>
   (settingsOk s \<longrightarrow> withIpBanDefaults (Some (storedSettings s)) = s)"
proof -
  have "settingsOk (withIpBanDefaults stored)"
    unfolding settingsOk_def withIpBanDefaults_def Let_def withDefault_def DEFAULT_IP_BAN_SETTINGS_def MAX_BAN_WINDOW_MINUTES_def
    by (auto split: option.splits dest: whole_range)
  moreover have "withIpBanDefaults (Some (storedSettings s)) = s" if "settingsOk s"
    using that
    by (cases s) (auto simp: settingsOk_def withIpBanDefaults_def storedSettings_def withDefault_def whole_def MAX_BAN_WINDOW_MINUTES_def)
  ultimately show ?thesis by blast
qed

theorem stored_settings_in_range_witness:
  "withIpBanDefaults (Some (storedSettings (DEFAULT_IP_BAN_SETTINGS\<lparr>is_threshold := 3\<rparr>))) = DEFAULT_IP_BAN_SETTINGS\<lparr>is_threshold := 3\<rparr>"
  using stored_settings_in_range[where s = "DEFAULT_IP_BAN_SETTINGS\<lparr>is_threshold := 3\<rparr>"]
  by (simp add: settingsOk_def DEFAULT_IP_BAN_SETTINGS_def)

section \<open>No reserved address is banned\<close>

text \<open>Every row is of an address that may be banned, one row an address, and the file names only such addresses.\<close>

definition bansOk :: "ban_config \<Rightarrow> ban_world \<Rightarrow> bool" where
  "bansOk cfg w \<longleftrightarrow>
     (\<forall>b \<in> set (bw_bans w). bannableIp (Some (ib_ip b)) = Inr True) \<and> distinct (map ib_ip (bw_bans w)) \<and>
     (bw_file w = None \<or>
      (\<exists>ips. (\<forall>ip \<in> set ips. bannableIp (Some ip) = Inr True) \<and>
         bw_file w = bansConfig ips (bc_dashboardHost cfg) (bc_entrypoint cfg)))"

lemma bansOk_perform [simp]: "bansOk cfg (perform e w) = bansOk cfg w"
  by (simp add: bansOk_def perform_def)



lemma bansOk_hits [simp]: "bansOk cfg (w\<lparr>bw_hits := hs\<rparr>) = bansOk cfg w"
  by (simp add: bansOk_def)











text \<open>A configuration that bans at the first hit, a hit of a public address, and the world once it is recorded.\<close>

definition sampleBanConfig :: ban_config where
  "sampleBanConfig = \<lparr>bc_proof = ''p'', bc_hasDir = True, bc_dashboardHost = None, bc_origin = None,
     bc_entrypoint = ''web'', bc_settings = DEFAULT_IP_BAN_SETTINGS\<lparr>is_threshold := 1\<rparr>, bc_services = [],
     bc_stackSlugs = [], bc_baseDomain = ''x.io''\<rparr>"


definition sampleHit :: BlockedHit where
  "sampleHit = \<lparr>bh_baitBytes = 0, bh_createdAt = 5, bh_host = None, bh_ip = ''8.8.8.8'', bh_path = None,
     bh_pattern = None, bh_serviceId = None, bh_userAgent = None\<rparr>"

definition sampleWorld :: ban_world where
  "sampleWorld = \<lparr>bw_bans = [], bw_hits = [sampleHit], bw_file = None, bw_effects = []\<rparr>"

lemma sample_ip: "normalizeIp (Some ''8.8.8.8'') = Some ''8.8.8.8''" "bannableIp (Some ''8.8.8.8'') = Inr True"
  using normalize_dotted(2)[of 8 8 8 8] bannableIp_dotted[of 8 8 8 8]
  by (simp_all add: show_nat_small digit_chars reservedV4_def cloudflareV4_def)




section \<open>When an address is banned\<close>

lemma getBan_map_other:
  "other \<noteq> ip \<Longrightarrow> (\<And>b. ib_ip b = ip \<Longrightarrow> ib_ip (f b) = ip) \<Longrightarrow>
   getBan other (map (\<lambda>x. if ib_ip x = ip then f x else x) bans) = getBan other bans"
  unfolding getBan_def by (induction bans) auto

lemma getBan_map_same:
  "getBan ip bans = Some b \<Longrightarrow> (\<And>b. ib_ip b = ip \<Longrightarrow> ib_ip (f b) = ip) \<Longrightarrow>
   getBan ip (map (\<lambda>x. if ib_ip x = ip then f x else x) bans) = Some (f b)"
  unfolding getBan_def by (induction bans) (auto split: if_splits)

lemma getBan_append: "getBan ip (bans @ [b]) = (case getBan ip bans of None \<Rightarrow> if ib_ip b = ip then Some b else None | Some x \<Rightarrow> Some x)"
  unfolding getBan_def by (induction bans) auto

lemma isBanned_getBan:
  "distinct (map ib_ip bans) \<Longrightarrow>
   isBanned ip now bans \<longleftrightarrow> (case getBan ip bans of None \<Rightarrow> False | Some b \<Rightarrow> \<not> expired now b)"
proof (induction bans)
  case (Cons x bans)
  have e: "inForce now x \<longleftrightarrow> \<not> expired now x" by (auto simp: inForce_def expired_def split: option.splits)
  show ?case
  proof (cases "ib_ip x = ip")
    case True
    then have "\<forall>b \<in> set bans. ib_ip b \<noteq> ip" using Cons.prems by (metis distinct.simps(2) image_eqI list.set_map list.simps(9))
    then show ?thesis using True e by (auto simp: isBanned_def getBan_def list_ex_iff)
  next
    case False
    then show ?thesis using Cons by (simp add: isBanned_def getBan_def)
  qed
qed (simp add: isBanned_def getBan_def)

lemma writeBan_effect:
  assumes "distinct (map ib_ip bans)"
  shows "fst (writeBan now inp bans) \<longleftrightarrow> \<not> isBanned (bi_ip inp) now bans"
    "\<not> fst (writeBan now inp bans) \<Longrightarrow> snd (writeBan now inp bans) = bans"
    "fst (writeBan now inp bans) \<Longrightarrow> \<exists>b. getBan (bi_ip inp) (snd (writeBan now inp bans)) = Some b \<and>
       ib_createdAt b = now \<and> ib_expiresAt b = bi_expiresAt inp \<and> ib_reason b = bi_reason inp \<and>
       ib_host b = bi_host inp \<and> ib_userAgent b = bi_userAgent inp"
    "other \<noteq> bi_ip inp \<Longrightarrow> getBan other (snd (writeBan now inp bans)) = getBan other bans"
proof -
  have o: "ib_ip (overwriteBan now inp b) = bi_ip inp" for b by (simp add: overwriteBan_def)
  show "fst (writeBan now inp bans) \<longleftrightarrow> \<not> isBanned (bi_ip inp) now bans"
    unfolding isBanned_getBan[OF assms] by (simp add: writeBan_def split: option.split)
  show "\<not> fst (writeBan now inp bans) \<Longrightarrow> snd (writeBan now inp bans) = bans"
    by (simp add: writeBan_def split: option.splits if_splits)
  show "other \<noteq> bi_ip inp \<Longrightarrow> getBan other (snd (writeBan now inp bans)) = getBan other bans"
    using getBan_map_other[of other "bi_ip inp" "overwriteBan now inp" bans] o
    by (simp add: writeBan_def getBan_append split: option.split)
  show "fst (writeBan now inp bans) \<Longrightarrow> \<exists>b. getBan (bi_ip inp) (snd (writeBan now inp bans)) = Some b \<and>
       ib_createdAt b = now \<and> ib_expiresAt b = bi_expiresAt inp \<and> ib_reason b = bi_reason inp \<and>
       ib_host b = bi_host inp \<and> ib_userAgent b = bi_userAgent inp"
    using getBan_map_same[of "bi_ip inp" bans _ "overwriteBan now inp"] o
    by (auto simp: writeBan_def getBan_append overwriteBan_def split: option.splits if_splits)
qed

definition banDue :: "ban_config \<Rightarrow> BlockedHit \<Rightarrow> timestamp \<Rightarrow> timestamp \<Rightarrow> ban_world \<Rightarrow> bool" where
  "banDue cfg hit now later w \<longleftrightarrow>
     is_enabled (bc_settings cfg) \<and> bannableIp (Some (bh_ip hit)) = Inr True \<and>
     is_threshold (bc_settings cfg)
       \<le> int (length (filter (\<lambda>h. bh_ip h = bh_ip hit \<and> now - is_windowMinutes (bc_settings cfg) * 60000 \<le> bh_createdAt h) (bw_hits w))) \<and>
     \<not> isBanned (bh_ip hit) later (bw_bans w)"

theorem ban_decision_exact:
  fixes cfg hit now later w
  assumes "distinct (map ib_ip (bw_bans w))"
  defines "w' \<equiv> decideBan cfg hit now later w" and "s \<equiv> bc_settings cfg"
  shows "if \<not> banDue cfg hit now later w then w' = w
     else (\<exists>b. getBan (bh_ip hit) (bw_bans w') = Some b \<and> ib_createdAt b = later \<and>
             ib_expiresAt b = (if is_durationHours s = 0 then None else Some (now + is_durationHours s * 3600000)) \<and>
             ib_host b = bh_host hit \<and> ib_userAgent b = bh_userAgent hit \<and>
             bw_effects w' = bw_effects w @ [CrowdsecBan (bh_ip hit) (is_durationHours s) (ib_reason b), Identify (bh_ip hit)]) \<and>
          (\<forall>other. other \<noteq> bh_ip hit \<longrightarrow> getBan other (bw_bans w') = getBan other (bw_bans w)) \<and>
          bw_hits w' = bw_hits w \<and>
          (bc_hasDir cfg \<longrightarrow> bw_file w' = bansConfig (activeIps later (bw_bans w')) (bc_dashboardHost cfg) (bc_entrypoint cfg))"
proof -
  define hits where "hits = int (countSince (bh_ip hit) (now - is_windowMinutes s * 60000) (bw_hits w))"
  define inp where "inp = \<lparr>bi_expiresAt = banExpiry s now, bi_host = bh_host hit, bi_ip = bh_ip hit,
     bi_reason = banReason hits s (bh_path hit), bi_userAgent = bh_userAgent hit\<rparr>"
  have ip: "bi_ip inp = bh_ip hit" by (simp add: inp_def)
  note we = writeBan_effect[OF assms(1), where now = later and inp = inp, unfolded ip]
  have w': "w' =
     (if \<not> (is_enabled s \<and> bannableIp (Some (bh_ip hit)) = Inr True) \<or> shouldBan hits (bh_ip hit) s \<noteq> Inr True then w
      else let (banned, bans) = writeBan later inp (bw_bans w)
        in if \<not> banned then w\<lparr>bw_bans := bans\<rparr>
           else perform (Identify (bh_ip hit)) (perform (CrowdsecBan (bh_ip hit) (is_durationHours s) (bi_reason inp))
             (syncBans cfg later (w\<lparr>bw_bans := bans\<rparr>))))"
    by (auto simp: w'_def decideBan_def Let_def s_def hits_def inp_def split_def)
  have due: "banDue cfg hit now later w \<longleftrightarrow>
      is_enabled s \<and> bannableIp (Some (bh_ip hit)) = Inr True \<and> shouldBan hits (bh_ip hit) s = Inr True \<and> fst (writeBan later inp (bw_bans w))"
    by (auto simp: banDue_def we(1) shouldBan_def hits_def countSince_def s_def)
  show ?thesis
  proof (cases "banDue cfg hit now later w")
    case False
    then have "w' = w" using we(2) unfolding due w' by (auto simp: split_def)
    then show ?thesis using False by simp
  next
    case True
    then have f: "fst (writeBan later inp (bw_bans w))"
      and eq: "w' = perform (Identify (bh_ip hit)) (perform (CrowdsecBan (bh_ip hit) (is_durationHours s) (bi_reason inp))
             (syncBans cfg later (w\<lparr>bw_bans := snd (writeBan later inp (bw_bans w))\<rparr>)))"
      unfolding due w' by (auto simp: split_def)
    have b: "bw_bans w' = snd (writeBan later inp (bw_bans w))" "bw_hits w' = bw_hits w"
      "bw_effects w' = bw_effects w @ [CrowdsecBan (bh_ip hit) (is_durationHours s) (bi_reason inp), Identify (bh_ip hit)]"
      "bc_hasDir cfg \<Longrightarrow> bw_file w' = bansConfig (activeIps later (bw_bans w')) (bc_dashboardHost cfg) (bc_entrypoint cfg)"
      by (simp_all add: eq perform_def syncBans_def)
    show ?thesis using True we(3)[OF f] we(4) b by (auto simp: inp_def banExpiry_def)
  qed
qed

theorem ban_decision_exact_witness:
  "banDue sampleBanConfig sampleHit 5 6 sampleWorld \<and>
   (\<exists>b. getBan ''8.8.8.8'' (bw_bans (decideBan sampleBanConfig sampleHit 5 6 sampleWorld)) = Some b \<and>
      ib_createdAt b = 6 \<and> ib_expiresAt b = None)"
proof -
  have d: "distinct (map ib_ip (bw_bans sampleWorld))" by (simp add: sampleWorld_def)
  have due: "banDue sampleBanConfig sampleHit 5 6 sampleWorld"
    by (simp add: banDue_def sampleBanConfig_def sampleHit_def sampleWorld_def sample_ip isBanned_def DEFAULT_IP_BAN_SETTINGS_def)
  have "bh_ip sampleHit = ''8.8.8.8''" "is_durationHours (bc_settings sampleBanConfig) = 0"
    by (simp_all add: sampleHit_def sampleBanConfig_def DEFAULT_IP_BAN_SETTINGS_def)
  then show ?thesis using ban_decision_exact[OF d, of sampleBanConfig sampleHit 5 6] due by auto
qed

text \<open>
  A ban written over an expired one keeps the row's report time: the new ban's network cannot be reported.
\<close>

theorem reban_keeps_the_report:
  assumes "distinct (map ib_ip (bw_bans w))" "getBan ip (bw_bans w) = Some b" "ib_abuseReportedAt b = Some t0" "expired now b"
    and "bi_ip inp = ip"
  shows "fst (reportAbuse True ip later (w\<lparr>bw_bans := snd (writeBan now inp (bw_bans w))\<rparr>)) = Inl (AlreadyReported ip)"
proof -
  have "getBan ip (snd (writeBan now inp (bw_bans w))) = Some (overwriteBan now inp b)"
    using getBan_map_same[OF assms(2), of "overwriteBan now inp"] assms by (simp add: writeBan_def overwriteBan_def)
  then show ?thesis using assms(3) by (simp add: reportAbuse_def overwriteBan_def)
qed

end
