(* ===== verification/Domain_Theorems.thy ===== *)
theory Domain_Theorems
  imports Service_Domains
begin

text \<open>
  Properties of \<open>src/lib/service-domains.ts\<close>: a branch is always one DNS label, a preview's environment keeps every
  hostname but its parent's, the shown hostname is a routed one, and an accepted preview template can still render
  to a name that is no domain.
\<close>

section \<open>Branch labels\<close>

lemma strip_trailing_subset: "set (strip_trailing c s) \<subseteq> set s"
  unfolding strip_trailing_def by (metis set_dropWhileD set_rev subsetI)

lemma strip_trailing_hd: "strip_trailing c s \<noteq> [] \<Longrightarrow> hd (strip_trailing c s) = hd s"
  using strip_trailing_append[of c s] by (metis hd_append2)

text \<open>
  C29. Whatever the branch is called, its label is a DNS label.
\<close>

theorem branchLabel_is_label: "isDnsLabel (branchLabel branch)"
proof -
  define s0 where "s0 = replace_runs (\<lambda>c. \<not> lower_alnum c) ''-'' (lower branch)"
  define D where "D = dropWhile (\<lambda>c. c = CHR ''-'') s0"
  define s1 where "s1 = strip_trailing (CHR ''-'') D"
  define s2 where "s2 = strip_trailing (CHR ''-'') (take 63 s1)"
  have b: "branchLabel branch = (if s2 \<noteq> [] then s2 else ''branch'')"
    by (simp add: branchLabel_def s0_def D_def s1_def s2_def Let_def)
  have c0: "\<forall>c \<in> set s0. is_slug_char c \<and> (c = CHR ''-'' \<or> label_edge c)"
    unfolding s0_def by (auto dest!: replace_runs_chars simp: lower_alnum_def is_slug_char_def label_edge_def)
  have "set s2 \<subseteq> set (take 63 s1)" unfolding s2_def by (rule strip_trailing_subset)
  also have "\<dots> \<subseteq> set s1" by (rule set_take_subset)
  also have "\<dots> \<subseteq> set D" unfolding s1_def by (rule strip_trailing_subset)
  also have "\<dots> \<subseteq> set s0" unfolding D_def by (auto dest: set_dropWhileD)
  finally have sub: "set s2 \<subseteq> set s0" .
  have c2: "\<forall>c \<in> set s2. is_slug_char c \<and> (c = CHR ''-'' \<or> label_edge c)"
    using c0 subsetD[OF sub] by simp
  have "isDnsLabel s2" if ne: "s2 \<noteq> []"
  proof -
    have "take 63 s1 \<noteq> []" using ne strip_trailing_length[of "CHR ''-''" "take 63 s1"] unfolding s2_def by (cases "take 63 s1") auto
    then have t: "take 63 s1 \<noteq> []" "s1 \<noteq> []" by auto
    have "hd s2 = hd (take 63 s1)" using ne strip_trailing_hd by (simp add: s2_def)
    also have "\<dots> = hd s1" using t by (cases s1) auto
    also have "\<dots> = hd D" using t strip_trailing_hd by (simp add: s1_def)
    finally have h: "hd s2 = hd D" .
    have "D \<noteq> []" using t(2) strip_trailing_length[of "CHR ''-''" D] unfolding s1_def by (cases D) auto
    then have "hd s2 \<noteq> CHR ''-''" using hd_dropWhile[of "\<lambda>c. c = CHR ''-''" s0] h by (simp add: D_def)
    moreover have "last s2 \<noteq> CHR ''-''" using ne strip_trailing_last by (simp add: s2_def)
    moreover have "length s2 \<le> 63"
      using strip_trailing_length[of "CHR ''-''" "take 63 s1"] by (simp add: s2_def)
    ultimately show ?thesis using c2 ne bspec[OF c2 hd_in_set[OF ne]] bspec[OF c2 last_in_set[OF ne]]
      by (simp add: isDnsLabel_def list_all_iff)
  qed
  moreover have "isDnsLabel ''branch''"
    by (simp add: isDnsLabel_def label_edge_def is_slug_char_def is_lower_ascii_def is_digit_def)
  ultimately show ?thesis by (simp add: b)
qed

section \<open>Hostnames in an environment\<close>

text \<open>\<open>[a-z0-9.-]\<close> with the \<open>i\<close> flag, and a host at the start of a text, not followed by another character of a hostname.\<close>

definition host_char :: "char \<Rightarrow> bool" where
  "host_char c \<longleftrightarrow> is_lower_ascii c \<or> is_upper_ascii c \<or> is_digit c \<or> c = CHR ''.'' \<or> c = CHR ''-''"

definition hostAt :: "string \<Rightarrow> string \<Rightarrow> bool" where
  "hostAt s host \<longleftrightarrow>
     length host \<le> length s \<and> lower (take (length host) s) = lower host \<and>
     (drop (length host) s = [] \<or> \<not> host_char (hd (drop (length host) s)))"

text \<open>What the replacement does, without expressions; \<open>prev\<close> says whether the character before is one of a hostname.\<close>

function rewriteValue :: "string list \<Rightarrow> string \<Rightarrow> bool \<Rightarrow> string \<Rightarrow> string" where
  "rewriteValue hosts repl prev [] = []"
| "rewriteValue hosts repl prev (c # cs) =
     (case (if prev then None else List.find (\<lambda>h. h \<noteq> [] \<and> hostAt (c # cs) h) hosts) of
        Some h \<Rightarrow> repl @ rewriteValue hosts repl (host_char (last h)) (drop (length h) (c # cs))
      | None \<Rightarrow> c # rewriteValue hosts repl (host_char c) cs)"
  by pat_completeness auto
termination
  by (relation "measure (\<lambda>(hosts, repl, prev, s). length s)")
     (auto simp: find_Some_iff Suc_le_eq split: if_splits)

text \<open>
  The value cut into runs: each run of hostname characters is one token, every other character is a token of its own.
  Rewriting replaces exactly the tokens that are one of the hosts, whatever their case.
\<close>

function host_tokens :: "string \<Rightarrow> string list" where
  "host_tokens [] = []"
| "host_tokens (c # cs) =
     (if host_char c then (c # takeWhile host_char cs) # host_tokens (dropWhile host_char cs) else [c] # host_tokens cs)"
  by pat_completeness auto
termination by (relation "measure length") (auto simp: le_imp_less_Suc length_dropWhile_le)

definition rewriteToken :: "string list \<Rightarrow> string \<Rightarrow> string \<Rightarrow> string" where
  "rewriteToken hosts repl tok = (if lower tok \<in> lower ` set hosts then repl else tok)"

lemma lower_host_char: "host_char (lower_char c) \<longleftrightarrow> host_char c"
proof -
  have code: "host_char d \<longleftrightarrow> (let n = (of_char d :: nat) in
      (97 \<le> n \<and> n \<le> 122) \<or> (65 \<le> n \<and> n \<le> 90) \<or> (48 \<le> n \<and> n \<le> 57) \<or> n = 46 \<or> n = 45)" for d
    using of_char_eq_iff[of d "CHR ''.''", where ?'a = nat] of_char_eq_iff[of d "CHR ''-''", where ?'a = nat]
    by (simp add: host_char_def is_lower_ascii_def is_upper_ascii_def is_digit_def Let_def)
  have "(of_char (lower_char c) :: nat) =
      (let n = (of_char c :: nat)
       in if (65 \<le> n \<and> n \<le> 90) \<or> (192 \<le> n \<and> n \<le> 222 \<and> n \<noteq> 215) then n + 32 else n)"
    by (simp add: lower_char_def Let_def)
  then show ?thesis unfolding code Let_def by (simp split: if_splits)
qed

lemma hostAt_run:
  assumes "\<forall>c \<in> set h. host_char c" "h \<noteq> []" "host_char c"
  shows "hostAt (c # cs) h \<longleftrightarrow> lower h = lower (c # takeWhile host_char cs)"
proof -
  let ?run = "c # takeWhile host_char cs"
  have s: "c # cs = ?run @ dropWhile host_char cs" by simp
  show ?thesis
  proof
    assume "lower h = lower ?run"
    then have l: "length h = length ?run" by (metis length_map lower_def)
    have "take (length ?run) (c # cs) = ?run" "drop (length ?run) (c # cs) = dropWhile host_char cs"
      by (metis s append_eq_conv_conj)+
    moreover have "length ?run \<le> length (c # cs)" by (simp add: length_takeWhile_le)
    ultimately show "hostAt (c # cs) h"
      using \<open>lower h = lower ?run\<close> l hd_dropWhile[of host_char cs] unfolding hostAt_def by auto
  next
    assume at: "hostAt (c # cs) h"
    let ?t = "take (length h) (c # cs)"
    have "\<forall>x \<in> set ?t. host_char x"
      using at assms(1) lower_host_char unfolding hostAt_def lower_def
      by (metis (no_types, lifting) imageE image_eqI list.set_map)
    moreover have "drop (length h) (c # cs) = [] \<or> \<not> host_char (hd (drop (length h) (c # cs)))"
      using at by (simp add: hostAt_def)
    ultimately have "takeWhile host_char (?t @ drop (length h) (c # cs)) = ?t"
      by (cases "drop (length h) (c # cs)") (auto simp: takeWhile_append)
    then have "takeWhile host_char (c # cs) = ?t" by (simp only: append_take_drop_id)
    then have "?run = ?t" using assms(3) by simp
    then show "lower h = lower ?run" using at by (simp add: hostAt_def)
  qed
qed

lemma hostAt_find:
  assumes "\<forall>h \<in> set hosts. h \<noteq> [] \<and> (\<forall>c \<in> set h. host_char c)" "host_char c"
  shows "case List.find (\<lambda>h. h \<noteq> [] \<and> hostAt (c # cs) h) hosts of
      None \<Rightarrow> lower (c # takeWhile host_char cs) \<notin> lower ` set hosts
    | Some h \<Rightarrow> lower (c # takeWhile host_char cs) \<in> lower ` set hosts \<and>
        length h = length (c # takeWhile host_char cs) \<and> host_char (last h)"
proof (cases "List.find (\<lambda>h. h \<noteq> [] \<and> hostAt (c # cs) h) hosts")
  case None
  then have "\<forall>h \<in> set hosts. lower h \<noteq> lower (c # takeWhile host_char cs)"
    using assms hostAt_run[of _ c cs] by (auto simp: find_None_iff)
  then have "lower (c # takeWhile host_char cs) \<notin> lower ` set hosts" by (metis imageE)
  with None show ?thesis by simp
next
  case (Some h)
  then have h: "h \<in> set hosts" "hostAt (c # cs) h" "h \<noteq> []" using find_Some_iff_first[OF Some] by auto
  then have l: "lower h = lower (c # takeWhile host_char cs)" using assms hostAt_run[of h c cs] by auto
  then have "length h = length (c # takeWhile host_char cs)" by (metis length_map lower_def)
  moreover have "host_char (last h)" using assms(1) h by auto
  moreover have "lower (c # takeWhile host_char cs) \<in> lower ` set hosts" using h(1) l by (metis image_eqI)
  ultimately show ?thesis using Some by simp
qed

lemma hostAt_other:
  assumes "\<forall>h \<in> set hosts. h \<noteq> [] \<and> (\<forall>c \<in> set h. host_char c)" "\<not> host_char c"
  shows "List.find (\<lambda>h. h \<noteq> [] \<and> hostAt (c # cs) h) hosts = None"
proof -
  have "\<not> hostAt (c # cs) h" if "h \<in> set hosts" for h
  proof
    assume at: "hostAt (c # cs) h"
    obtain x xs where h: "h = x # xs" "host_char x" using assms(1) \<open>h \<in> set hosts\<close> by (cases h) auto
    then have "lower_char c = lower_char x" using at by (simp add: hostAt_def lower_def)
    then show False using h(2) assms(2) lower_host_char by metis
  qed
  then show ?thesis by (auto simp: find_None_iff)
qed

lemma rewriteValue_in_run:
  assumes "\<forall>h \<in> set hosts. h \<noteq> [] \<and> (\<forall>c \<in> set h. host_char c)"
  shows "rewriteValue hosts repl True s = takeWhile host_char s @ rewriteValue hosts repl False (dropWhile host_char s)"
proof (induction s)
  case (Cons c s)
  then show ?case using hostAt_other[OF assms, of c s] by (cases "host_char c") simp_all
qed simp

lemma rewriteValue_tokens:
  assumes "\<forall>h \<in> set hosts. h \<noteq> [] \<and> (\<forall>c \<in> set h. host_char c)"
  shows "rewriteValue hosts repl False s = concat (map (rewriteToken hosts repl) (host_tokens s))"
proof (induction s rule: host_tokens.induct)
  case (2 c cs)
  show ?case
  proof (cases "host_char c")
    case True
    let ?run = "c # takeWhile host_char cs"
    have drop_run: "drop (length ?run) (c # cs) = dropWhile host_char cs"
      by (metis append_eq_conv_conj append_Cons takeWhile_dropWhile_id)
    have rest: "rewriteValue hosts repl True (dropWhile host_char cs) = rewriteValue hosts repl False (dropWhile host_char cs)"
    proof (cases "dropWhile host_char cs")
      case (Cons d ds)
      then have "\<not> host_char d" using hd_dropWhile[of host_char cs] by (metis list.distinct(1) list.sel(1))
      then show ?thesis using rewriteValue_in_run[OF assms, of repl "d # ds"] Cons by simp
    next
      case Nil
      show ?thesis by (simp only: Nil rewriteValue.simps)
    qed
    show ?thesis
      using hostAt_find[OF assms True, of cs] rewriteValue_in_run[OF assms, of repl cs] drop_run rest 2(1)[OF True] True
      by (auto simp: rewriteToken_def split: option.splits)
  next
    case False
    have "lower [c] \<notin> lower ` set hosts"
    proof
      assume "lower [c] \<in> lower ` set hosts"
      then obtain h where h: "h \<in> set hosts" "lower h = lower [c]" by (metis imageE)
      then obtain x where "h = [x]" "lower_char x = lower_char c" by (auto simp: lower_def)
      then show False using assms h(1) False lower_host_char by (metis list.set_intros(1))
    qed
    then show ?thesis using hostAt_other[OF assms False, of cs] 2(2)[OF False] False by (simp add: rewriteToken_def)
  qed
qed simp

lemma host_tokens_concat: "concat (host_tokens s) = s"
  by (induction s rule: host_tokens.induct) auto

lemma host_tokens_shape:
  "tok \<in> set (host_tokens s) \<Longrightarrow> tok \<noteq> [] \<and> ((\<forall>c \<in> set tok. host_char c) \<or> (\<exists>c. tok = [c] \<and> \<not> host_char c))"
  by (induction s rule: host_tokens.induct) (auto dest: set_takeWhileD split: if_splits)

section \<open>The pattern of the hostnames\<close>

definition hostClass :: "char list" where
  "hostClass = map char_of [97::nat..<123] @ map char_of [48::nat..<58] @ ''.-''"

lemma class_chars: "classChars ''a-z0-9.-'' = Some hostClass"
  by code_simp

lemma lower_of_upper: "lower_char (upper_char c) = lower_char c" and upper_of_lower: "upper_char (lower_char c) = upper_char c"
proof -
  let ?n = "of_char c :: nat"
  let ?up = "\<lambda>n :: nat. if (97 \<le> n \<and> n \<le> 122) \<or> (224 \<le> n \<and> n \<le> 254 \<and> n \<noteq> 247) then n - 32 else n"
  let ?low = "\<lambda>n :: nat. if (65 \<le> n \<and> n \<le> 90) \<or> (192 \<le> n \<and> n \<le> 222 \<and> n \<noteq> 215) then n + 32 else n"
  have up: "of_char (upper_char x) = ?up (of_char x)" and low: "of_char (lower_char x) = ?low (of_char x)" for x
    by (auto simp: upper_char_def lower_char_def Let_def)
  have lu: "?low (?up ?n) = ?low ?n" by (simp split: if_split) arith
  have ul: "?up (?low ?n) = ?up ?n" by (simp split: if_split)
  have "(of_char (lower_char (upper_char c)) :: nat) = of_char (lower_char c)" unfolding low up by (rule lu)
  then show "lower_char (upper_char c) = lower_char c" by simp
  have "(of_char (upper_char (lower_char c)) :: nat) = of_char (upper_char c)" unfolding low up by (rule ul)
  then show "upper_char (lower_char c) = upper_char c" by simp
qed

lemma upper_lower: "upper_char c = upper_char d \<longleftrightarrow> lower_char c = lower_char d"
  by (metis lower_of_upper upper_of_lower)

lemma char_range: "m \<le> 256 \<Longrightarrow> c \<in> set (map char_of [k..<m]) \<longleftrightarrow> k \<le> of_char c \<and> of_char c < (m :: nat)"
proof
  assume "m \<le> 256" "c \<in> set (map char_of [k..<m])"
  then obtain n where "n \<in> {k..<m}" "c = char_of n" by auto
  then show "k \<le> of_char c \<and> of_char c < m" using \<open>m \<le> 256\<close> by simp
next
  assume "k \<le> of_char c \<and> of_char c < m"
  then have "of_char c \<in> set [k..<m]" by simp
  then have "char_of (of_char c :: nat) \<in> char_of ` set [k..<m]" by (rule imageI)
  then show "c \<in> set (map char_of [k..<m])" by simp
qed

lemma in_hostClass: "c \<in> set hostClass \<longleftrightarrow> is_lower_ascii c \<or> is_digit c \<or> c = CHR ''.'' \<or> c = CHR ''-''"
  using char_range[of 123 c 97] char_range[of 58 c 48] unfolding hostClass_def is_lower_ascii_def is_digit_def
  by (auto simp del: upt_rec_numeral)

lemma class_lower: "c \<in> set hostClass \<Longrightarrow> lower_char c = c"
  unfolding in_hostClass by (auto simp: lower_char_def is_lower_ascii_def is_digit_def)

lemma lower_class: "lower_char d \<in> set hostClass \<longleftrightarrow> host_char d"
proof -
  have "\<not> is_upper_ascii (lower_char d)" by (auto simp: lower_char_def is_upper_ascii_def Let_def)
  then show ?thesis unfolding in_hostClass using lower_host_char[of d] by (auto simp: host_char_def)
qed

lemma class_accepts: "accepts True (OneOf hostClass) d = host_char d"
proof -
  have "accepts True (OneOf hostClass) d \<longleftrightarrow> (\<exists>c \<in> set hostClass. lower_char c = lower_char d)"
    by (simp add: list_ex_iff same_char_def upper_lower)
  also have "\<dots> \<longleftrightarrow> lower_char d \<in> set hostClass" using class_lower by metis
  finally show ?thesis unfolding lower_class .
qed

lemma escape_dots: "replaceAll ''.'' [CHR 0x5C, CHR ''.''] (c # w) =
    (if c = CHR ''.'' then [CHR 0x5C, CHR ''.''] else [c]) @ replaceAll ''.'' [CHR 0x5C, CHR ''.''] w"
  by simp

lemma host_syntax: "host_char c \<Longrightarrow> is_syntax c \<longleftrightarrow> c = CHR ''.''"
  by (auto simp: is_syntax_def host_char_def is_lower_ascii_def is_upper_ascii_def is_digit_def)

lemma parse_host:
  assumes "\<forall>c \<in> set w. host_char c"
  shows "parseRx (replaceAll ''.'' [CHR 0x5C, CHR ''.''] w @ rest) ((alts, cur, cap) # fs) =
     parseRx rest ((alts, cur @ map Lit w, cap) # fs)"
  using assms
proof (induction w arbitrary: cur)
  case (Cons c w)
  show ?case
  proof (cases "c = CHR ''.''")
    case True
    then show ?thesis using Cons by (simp add: escape_dots addRx_def is_syntax_def del: replaceAll.simps)
  next
    case False
    then have "\<not> is_syntax c" using Cons.prems host_syntax by simp
    then have "c \<notin> set [CHR 0x5C, CHR ''^'', CHR ''$'', CHR ''.'', CHR ''|'', CHR ''?'', CHR ''*'', CHR ''+'',
       CHR ''('', CHR '')'', CHR ''['', CHR '']'', CHR ''{'', CHR ''}'']" unfolding is_syntax_def .
    then show ?thesis using Cons \<open>\<not> is_syntax c\<close> by (simp add: escape_dots addRx_def del: replaceAll.simps)
  qed
qed simp

lemma parse_hosts:
  assumes "hosts \<noteq> []" "\<forall>h \<in> set hosts. \<forall>c \<in> set h. host_char c"
  shows "parseRx (join ''|'' (map (replaceAll ''.'' [CHR 0x5C, CHR ''.'']) hosts) @ rest) ((alts, [], cap) # fs) =
     parseRx rest ((alts @ map (map Lit) (butlast hosts), map Lit (last hosts), cap) # fs)"
  using assms
proof (induction hosts arbitrary: alts rule: induct_list012)
  case (2 h)
  then show ?case by (simp add: parse_host)
next
  case (3 h h' hs)
  then show ?case by (simp add: parse_host)
qed simp

lemma read_hosts:
  assumes "hosts \<noteq> []" "\<forall>h \<in> set hosts. \<forall>c \<in> set h. host_char c"
  shows "readRx (hostnamePattern hosts) = Some [[NotBehind hostClass, Group (map (map Lit) hosts), NotAhead hostClass]]"
proof -
  have parts: "map (map Lit) (butlast hosts) @ [map Lit (last hosts)] = map (map Lit) hosts"
    using assms(1) by (metis append_butlast_last_id list.simps(8,9) map_append)
  show ?thesis
    unfolding readRx_def hostnamePattern_def
    by (simp add: addRx_def class_chars parse_hosts[OF assms] parts del: classChars.simps)
qed

lemma match_host:
  "mSeq True (map Lit h) (b, a) =
     (if length h \<le> length a \<and> lower (take (length h) a) = lower h then [(rev (take (length h) a) @ b, drop (length h) a)] else [])"
proof (induction h arbitrary: a b)
  case (Cons c h)
  show ?case using Cons upper_lower by (cases a) (auto simp: same_char_def lower_def)
qed simp

lemma match_hosts:
  "mAlts True [[NotBehind hostClass, Group (map (map Lit) hosts), NotAhead hostClass]] (b, a) =
     (if b \<noteq> [] \<and> host_char (hd b) then []
      else map (\<lambda>h. (rev (take (length h) a) @ b, drop (length h) a)) (filter (hostAt a) hosts))"
proof -
  have group: "concat (map (mSeq True [NotAhead hostClass]) (mAlts True (map (map Lit) hosts) (b, a))) =
      map (\<lambda>h. (rev (take (length h) a) @ b, drop (length h) a)) (filter (hostAt a) hosts)" for b
    by (induction hosts) (auto simp: match_host class_accepts hostAt_def simp del: accepts.simps)
  show ?thesis
  proof (cases "b \<noteq> [] \<and> host_char (hd b)")
    case False
    then have "mAtom True (NotBehind hostClass) (b, a) = [(b, a)]" by (auto simp: class_accepts simp del: accepts.simps)
    then have "mAlts True [[NotBehind hostClass, Group (map (map Lit) hosts), NotAhead hostClass]] (b, a) =
        concat (map (mSeq True [NotAhead hostClass]) (mAlts True (map (map Lit) hosts) (b, a)))"
      by (simp del: mAtom.simps(4))
    then show ?thesis unfolding group if_not_P[OF False] .
  qed (simp add: class_accepts del: accepts.simps)
qed

lemma jsExpand_plain: "CHR ''$'' \<notin> set repl \<Longrightarrow> jsExpand m g matched before after repl = repl"
  by (induction repl) auto

lemma find_filter: "List.find P xs = (case filter P xs of [] \<Rightarrow> None | x # _ \<Rightarrow> Some x)"
  by (induction xs) auto

lemma replace_hosts:
  assumes "\<forall>h \<in> set hosts. h \<noteq> []" "CHR ''$'' \<notin> set repl"
  shows "replaceRx True [[NotBehind hostClass, Group (map (map Lit) hosts), NotAhead hostClass]] repl (b, a) =
     rewriteValue hosts repl (b \<noteq> [] \<and> host_char (hd b)) a"
proof (induction "length a" arbitrary: a b rule: less_induct)
  case less
  let ?alts = "[[NotBehind hostClass, Group (map (map Lit) hosts), NotAhead hostClass]]"
  let ?hits = "filter (hostAt a) hosts"
  have nonempty: "hostAt a h \<Longrightarrow> h \<in> set hosts \<Longrightarrow> a \<noteq> []" for h using assms(1) by (auto simp: hostAt_def)
  have same: "filter (\<lambda>h. h \<noteq> [] \<and> hostAt a h) hosts = ?hits" by (rule filter_cong) (use assms(1) in auto)
  have none: "replaceRx True ?alts repl (b, a) = rewriteValue hosts repl (b \<noteq> [] \<and> host_char (hd b)) a"
    if "(b \<noteq> [] \<and> host_char (hd b)) \<or> ?hits = []"
  proof -
    have "map fst (matchesAt True ?alts (b, a)) = []" unfolding matchesAt_fst match_hosts using that by auto
    then have "matchesAt True ?alts (b, a) = []" by simp
    then have "replaceRx True ?alts repl (b, a) = (case a of [] \<Rightarrow> [] | c # cs \<Rightarrow> c # replaceRx True ?alts repl (c # b, cs))"
      by (cases a) (simp_all add: replaceRx.simps[of True ?alts repl "(b, _)"] Let_def)
    then show ?thesis using less that same by (cases a) (auto simp: find_filter)
  qed
  show ?case
  proof (cases "(b \<noteq> [] \<and> host_char (hd b)) \<or> ?hits = []")
    case False
    then obtain h hs where h: "?hits = h # hs" by (cases ?hits) auto
    then have at: "h \<in> set hosts" "hostAt a h" using filter_eq_ConsD[OF h] by auto
    then obtain c cs where a: "a = c # cs" using nonempty by (cases a) auto
    let ?t = "(rev (take (length h) a) @ b, drop (length h) a)"
    have "map fst (matchesAt True ?alts (b, a)) = ?t # map (\<lambda>h. (rev (take (length h) a) @ b, drop (length h) a)) hs"
      unfolding matchesAt_fst match_hosts using False h by simp
    then obtain g ms where m: "matchesAt True ?alts (b, a) = (?t, g) # ms" by (auto simp: map_eq_Cons_conv)
    have pos: "0 < length h" "length h \<le> length a" using assms(1) at by (auto simp: hostAt_def)
    then have shorter: "length (drop (length h) a) < length a" unfolding length_drop by linarith
    have last_h: "host_char (last (take (length h) a)) \<longleftrightarrow> host_char (last h)"
    proof -
      have "lower_char (last (take (length h) a)) = lower_char (last h)"
        using at(2) pos by (metis hostAt_def last_map lower_def length_greater_0_conv list.map_disc_iff)
      then show ?thesis using lower_host_char by metis
    qed
    have "replaceRx True ?alts repl (b, a) = repl @ replaceRx True ?alts repl ?t"
      using m shorter jsExpand_plain[OF assms(2)] by (simp add: replaceRx.simps[of True ?alts repl "(b, a)"] spotLeft_def Let_def)
    also have "\<dots> = repl @ rewriteValue hosts repl (host_char (last h)) (drop (length h) a)"
      using less[OF shorter] last_h pos by (simp add: hd_append hd_rev)
    also have "\<dots> = rewriteValue hosts repl (b \<noteq> [] \<and> host_char (hd b)) a"
      using False h same unfolding a by (auto simp: find_filter)
    finally show ?thesis .
  qed (rule none)
qed

text \<open>
  C28. Rewriting the env values of a preview whose parent's entries are hostnames (letters, digits, dots and dashes, so without
  a path) keeps the keys and their order, and replaces exactly the maximal runs of such characters that are one of the
  parent's hosts, in any case: a host inside a longer one is left alone. The pattern is then one \<open>RegExp\<close> accepts.
\<close>

theorem rewriteHostnames_whole:
  assumes "\<forall>h \<in> set parents. \<forall>c \<in> set h. host_char c" "host \<noteq> []" "CHR ''$'' \<notin> set host"
  shows "\<exists>env'. rewriteHostnames env parents (Some host) = Some env' \<and> map fst env' = map fst env \<and>
     map snd env' =
       map (\<lambda>(k, v). concat (map (rewriteToken (filter (\<lambda>h. h \<noteq> [] \<and> h \<noteq> host) parents) host) (host_tokens v))) env \<and>
     (\<forall>v. concat (host_tokens v) = v)"
proof -
  define hosts where "hosts = filter (\<lambda>h. h \<noteq> [] \<and> h \<noteq> host) parents"
  have ok: "\<forall>h \<in> set hosts. h \<noteq> [] \<and> (\<forall>c \<in> set h. host_char c)" using assms(1) by (auto simp: hosts_def)
  have f: "filter (\<lambda>h. h \<noteq> [] \<and> Some h \<noteq> Some host) parents = hosts" by (simp add: hosts_def)
  show ?thesis
  proof (cases "hosts = []")
    case True
    have "rewriteToken [] host = id" by (simp add: rewriteToken_def fun_eq_iff)
    then show ?thesis
      using True host_tokens_concat unfolding hosts_def[symmetric] rewriteHostnames_def Let_def f by (simp add: split_def)
  next
    case False
    have "rewriteHostnames env parents (Some host) = Some (map (\<lambda>(key, v). (key, rewriteValue hosts host False v)) env)"
      using False assms(2) ok replace_hosts[OF _ assms(3), of hosts "[]"] read_hosts[OF False]
      unfolding rewriteHostnames_def Let_def f by simp
    then show ?thesis
      using rewriteValue_tokens[OF ok] host_tokens_concat unfolding hosts_def[symmetric] by (auto simp: split_def)
  qed
qed

theorem rewriteHostnames_whole_witness:
  "map_option (map snd) (rewriteHostnames [(''U'', ''http://a.io/a.io.x'')] [''A.io''] (Some ''b.io'')) = Some [''http://b.io/a.io.x'']"
proof -
  have a: "char_of (97 :: nat) = CHR ''a''" by code_simp
  show ?thesis
    using rewriteHostnames_whole[where parents = "[''A.io'']" and host = "''b.io''" and env = "[(''U'', ''http://a.io/a.io.x'')]"]
    by (auto simp: host_char_def is_lower_ascii_def is_upper_ascii_def is_digit_def rewriteToken_def lower_def lower_char_def a)
qed

text \<open>
  The entries of a service may carry a path, and the caller passes them as they are. Such an entry is replaced with its
  path only, so a value with the bare host keeps naming the parent; and a path may hold marks of an expression: one that
  \<open>isDomainEntry\<close> accepts makes \<open>new RegExp\<close> throw, and no preview of that service gets an environment.
\<close>

theorem path_entry_keeps_host:
  "rewriteHostnames [(''ORIGIN'', ''a.io''), (''API'', ''a.io/v'')] [''a.io/v''] (Some ''p.io'')
   = Some [(''ORIGIN'', ''a.io''), (''API'', ''p.io'')]"
  by code_simp

theorem path_entry_throws:
  "isDomainEntry ''a.io/c++'' \<and> rewriteHostnames [(''ORIGIN'', ''https://a.io'')] [''a.io/c++''] (Some ''p.io'') = None"
  by code_simp

section \<open>Hostnames and templates\<close>

theorem primaryHostname_routed:
  "primaryHostname svc stackSlug baseDomain = Some h \<Longrightarrow> h \<in> set (serviceHostnames svc stackSlug baseDomain)"
  by (auto simp: primaryHostname_def Let_def split: option.splits list.splits if_splits)

theorem serviceForHost_routes:
  assumes "serviceForHost services slugs baseDomain host = Some svc"
  shows "svc \<in> set services \<and>
     (\<exists>stackSlug. \<exists>entry \<in> set (serviceHostnames (ServiceDomainFields.truncate svc) stackSlug baseDomain). fst (splitDomain entry) = host)"
  using find_Some_iff_first[OF assms[unfolded serviceForHost_def]] by (auto simp: domainHosts_def)

text \<open>
  A template is tried on one sample branch only: \<open>preview-{branch}\<close> is accepted, and a branch of 63 characters renders
  to a label of 71, which is no domain.
\<close>

theorem template_overflows:
  "previewDomainTemplateProblem ''preview-{branch}.example.com'' = None \<and>
   (case renderPreviewDomain (Some ''preview-{branch}.example.com'') (Some (replicate 63 (CHR ''a''))) 1 ''app'' of
      None \<Rightarrow> False | Some s \<Rightarrow> \<not> isDomainName s)"
  by code_simp

end
