(* ===== verification/Js_Sort.thy ===== *)
theory Js_Sort
  imports Prelude
begin

text \<open>
  Sorting with a comparator, as \<open>Array.prototype.sort\<close> does it: stable, and with the comparators the program
  builds (differences of keys, \<open>f || g\<close>, exchanged or mapped arguments) sorted.
\<close>

section \<open>Sorting with a comparator\<close>

text \<open>\<open>Array.prototype.sort\<close>: stable.\<close>

fun js_insert :: "('a \<Rightarrow> 'a \<Rightarrow> int) \<Rightarrow> 'a \<Rightarrow> 'a list \<Rightarrow> 'a list" where
  "js_insert cmp x [] = [x]"
| "js_insert cmp x (y # ys) = (if cmp x y \<le> 0 then x # y # ys else y # js_insert cmp x ys)"

definition js_sort :: "('a \<Rightarrow> 'a \<Rightarrow> int) \<Rightarrow> 'a list \<Rightarrow> 'a list" where
  "js_sort cmp xs = foldr (js_insert cmp) xs []"

section \<open>What sorting keeps\<close>

lemma mset_js_insert [simp]: "mset (js_insert cmp x xs) = add_mset x (mset xs)"
  by (induction xs) auto

lemma mset_js_sort [simp]: "mset (js_sort cmp xs) = mset xs"
  by (induction xs) (simp_all add: js_sort_def)

lemma set_js_sort [simp]: "set (js_sort cmp xs) = set xs"
  by (metis mset_js_sort set_mset_mset)

text \<open>A comparator: antisymmetric in sign, and transitive.\<close>

definition comparator :: "('a \<Rightarrow> 'a \<Rightarrow> int) \<Rightarrow> bool" where
  "comparator cmp \<longleftrightarrow> (\<forall>a b. sgn (cmp b a) = - sgn (cmp a b)) \<and> (\<forall>a b c. cmp a b \<le> 0 \<longrightarrow> cmp b c \<le> 0 \<longrightarrow> cmp a c \<le> 0)"

lemma comparator_flip: "comparator cmp \<Longrightarrow> \<not> cmp a b \<le> 0 \<Longrightarrow> cmp b a \<le> 0"
proof -
  assume c: "comparator cmp" "\<not> cmp a b \<le> 0"
  then have "sgn (cmp b a) = - sgn (cmp a b)" unfolding comparator_def by blast
  then show ?thesis using c(2) by (simp add: sgn_if split: if_splits)
qed

lemma comparator_zero: "comparator cmp \<Longrightarrow> cmp a b = 0 \<longleftrightarrow> cmp b a = 0"
  unfolding comparator_def by (metis neg_equal_0_iff_equal sgn_eq_0_iff)

lemma comparator_ge: "comparator cmp \<Longrightarrow> cmp a b \<le> 0 \<Longrightarrow> cmp b a \<le> 0 \<Longrightarrow> cmp a b = 0"
proof -
  assume c: "comparator cmp" "cmp a b \<le> 0" "cmp b a \<le> 0"
  then have "sgn (cmp b a) = - sgn (cmp a b)" unfolding comparator_def by blast
  then show ?thesis using c(2,3) by (simp add: sgn_if split: if_splits)
qed

lemma comparator_trans: "comparator cmp \<Longrightarrow> cmp a b \<le> 0 \<Longrightarrow> cmp b c \<le> 0 \<Longrightarrow> cmp a c \<le> 0"
  unfolding comparator_def by blast

text \<open>\<open>f(a, b) || g(a, b)\<close>, and a comparator with its arguments exchanged or mapped.\<close>

lemma comparator_lex:
  assumes f: "comparator f" and g: "comparator g"
  shows "comparator (\<lambda>a b. if f a b \<noteq> 0 then f a b else g a b)"
  unfolding comparator_def
proof (intro conjI allI impI)
  fix a b c
  have "sgn (f b a) = - sgn (f a b)" "sgn (g b a) = - sgn (g a b)" using f g unfolding comparator_def by blast+
  then show "sgn (if f b a \<noteq> 0 then f b a else g b a) = - sgn (if f a b \<noteq> 0 then f a b else g a b)"
    using comparator_zero[OF f, of a b] by simp
  assume ab: "(if f a b \<noteq> 0 then f a b else g a b) \<le> 0" and bc: "(if f b c \<noteq> 0 then f b c else g b c) \<le> 0"
  then have le: "f a b \<le> 0" "f b c \<le> 0" by (auto split: if_splits)
  show "(if f a c \<noteq> 0 then f a c else g a c) \<le> 0"
  proof (cases "f a c = 0")
    case True
    then have ca: "f c a \<le> 0" using comparator_zero[OF f, of a c] by simp
    have "f a b = 0" using comparator_ge[OF f le(1)] comparator_trans[OF f le(2) ca] by blast
    moreover have "f b c = 0" using comparator_ge[OF f le(2)] comparator_trans[OF f ca le(1)] by blast
    ultimately show ?thesis using ab bc True comparator_trans[OF g, of a b c] by simp
  next
    case False
    then show ?thesis using comparator_trans[OF f le] by simp
  qed
qed

lemma comparator_swap: "comparator f \<Longrightarrow> comparator (\<lambda>a b. f b a)"
  unfolding comparator_def by (metis minus_minus)

lemma comparator_map: "comparator f \<Longrightarrow> comparator (\<lambda>a b. f (h a) (h b))"
  unfolding comparator_def by blast

lemma comparator_diff: "comparator (\<lambda>a b. k a - k b)"
  by (auto simp: comparator_def sgn_if)

lemma sorted_js_insert:
  "comparator cmp \<Longrightarrow> sorted_wrt (\<lambda>a b. cmp a b \<le> 0) xs \<Longrightarrow> sorted_wrt (\<lambda>a b. cmp a b \<le> 0) (js_insert cmp x xs)"
proof (induction xs)
  case (Cons y ys)
  note s = Cons.prems(2)
  show ?case
  proof (cases "cmp x y \<le> 0")
    case True
    then have "\<forall>z \<in> set ys. cmp x z \<le> 0" using s Cons.prems(1) unfolding comparator_def by (metis sorted_wrt.simps(2))
    then show ?thesis using True s by simp
  next
    case False
    have "set (js_insert cmp x ys) = insert x (set ys)"
      by (metis mset_js_insert set_mset_add_mset_insert set_mset_mset)
    then show ?thesis using False Cons comparator_flip[OF Cons.prems(1) False] by simp
  qed
qed simp

lemma sorted_js_sort: "comparator cmp \<Longrightarrow> sorted_wrt (\<lambda>a b. cmp a b \<le> 0) (js_sort cmp xs)"
  by (induction xs) (simp_all add: js_sort_def sorted_js_insert)

lemma js_sort_append: "js_sort cmp (x # xs) = js_insert cmp x (js_sort cmp xs)"
  by (simp add: js_sort_def)

lemma length_js_sort [simp]: "length (js_sort cmp xs) = length xs"
  by (metis mset_js_sort size_mset)

lemma distinct_js_sort_map [simp]: "distinct (map f (js_sort cmp xs)) = distinct (map f xs)"
  by (metis mset_js_sort mset_eq_imp_distinct_iff mset_map)

text \<open>An already sorted list is left as it is, and sorting twice changes nothing.\<close>

lemma js_insert_id: "sorted_wrt (\<lambda>a b. cmp a b \<le> 0) (x # xs) \<Longrightarrow> js_insert cmp x xs = x # xs"
  by (cases xs) auto

lemma js_sort_id: "sorted_wrt (\<lambda>a b. cmp a b \<le> 0) xs \<Longrightarrow> js_sort cmp xs = xs"
  by (induction xs) (simp_all add: js_sort_def js_insert_id)

text \<open>Stability: what a sorted list keeps of a filter, it keeps in order.\<close>

lemma filter_js_insert:
  "comparator cmp \<Longrightarrow> sorted_wrt (\<lambda>a b. cmp a b \<le> 0) xs \<Longrightarrow>
   filter P (js_insert cmp x xs) = (if P x then js_insert cmp x (filter P xs) else filter P xs)"
proof (induction xs)
  case (Cons y ys)
  show ?case
  proof (cases "cmp x y \<le> 0")
    case True
    have le: "\<forall>z \<in> set (filter P (y # ys)). cmp x z \<le> 0"
      using True Cons.prems comparator_trans[OF Cons.prems(1) True] by auto
    have "sorted_wrt (\<lambda>a b. cmp a b \<le> 0) (filter P (y # ys))"
      using Cons.prems(2) by (rule sorted_wrt_filter)
    then have "js_insert cmp x (filter P (y # ys)) = x # filter P (y # ys)"
      using le by (intro js_insert_id) simp
    then show ?thesis using True by simp
  next
    case False
    then show ?thesis using Cons by simp
  qed
qed simp

lemma filter_js_sort: "comparator cmp \<Longrightarrow> filter P (js_sort cmp xs) = js_sort cmp (filter P xs)"
proof (induction xs)
  case (Cons x xs)
  show ?case
    unfolding js_sort_append filter_js_insert[OF Cons.prems sorted_js_sort[OF Cons.prems]] Cons.IH[OF Cons.prems]
    by (simp add: js_sort_append)
qed (simp add: js_sort_def)

end
