(* ===== verification/Image_Versions.thy ===== *)
theory Image_Versions
  imports Js_Numbers Cron_Expression Js_Sort
begin

text \<open>
  \<open>src/lib/image-versions.ts\<close>: tags shaped like versions, their order, the newest release a tag may move to, tags
  made into valid ones, and the families and the order of a picker. \<open>localeCompare\<close> depends on the host's locale and
  is the parameter \<open>collate\<close>; a number of a tag is exact.
\<close>

section \<open>Version tags\<close>

record VersionTag =
  vt_numbers :: "nat list"
  vt_prerelease :: bool
  vt_suffix :: "string option"
  vt_tag :: string

definition PRERELEASE_WORDS :: "string list" where
  "PRERELEASE_WORDS = [''nightly'', ''dev'', ''rc'', ''beta'', ''alpha'', ''pre'', ''preview'', ''snapshot'', ''edge'',
     ''canary'', ''next'', ''unstable'', ''main'', ''master'']"

definition isPrerelease :: "string \<Rightarrow> bool" where
  "isPrerelease suffix \<longleftrightarrow> list_ex (\<lambda>word. starts_with word (lower suffix)) PRERELEASE_WORDS"

definition dottedNumbers :: "string \<Rightarrow> bool" where
  "dottedNumbers s \<longleftrightarrow> list_all (\<lambda>p. p \<noteq> [] \<and> list_all is_digit p) (split_on (CHR ''.'') s)"

definition versionRest :: "string \<Rightarrow> bool" where
  "versionRest r \<longleftrightarrow>
     r = [] \<or> (hd r \<in> set ''-_.+'' \<and> tl r \<noteq> [] \<and> CHR 10 \<notin> set (tl r) \<and> CHR 13 \<notin> set (tl r))"

text \<open>
  \<open>VERSION_TAG_RE\<close>: an optional \<open>v\<close>, numbers between dots as many as fit, and a separator with a suffix; the
  numbers give back characters until the rest matches.
\<close>

definition versionSplit :: "string \<Rightarrow> nat option" where
  "versionSplit t = List.find (\<lambda>n. dottedNumbers (take n t) \<and> versionRest (drop n t)) (rev [1..<Suc (length t)])"

definition parseVersionTag :: "string \<Rightarrow> VersionTag option" where
  "parseVersionTag tag =
     (let t = (if tag \<noteq> [] \<and> hd tag \<in> set ''vV'' then tl tag else tag)
      in case versionSplit t of
           None \<Rightarrow> None
         | Some n \<Rightarrow>
             (let suffix = (if drop n t = [] then None else Some (tl (drop n t)))
              in Some \<lparr>vt_numbers = map read_nat (split_on (CHR ''.'') (take n t)),
                       vt_prerelease = (case suffix of None \<Rightarrow> False | Some s \<Rightarrow> isPrerelease s),
                       vt_suffix = suffix, vt_tag = tag\<rparr>))"

definition numberAt :: "VersionTag \<Rightarrow> nat \<Rightarrow> int" where
  "numberAt v i = (if i < length (vt_numbers v) then int (vt_numbers v ! i) else 0)"

text \<open>The loop of \<open>compareVersions\<close>: the first difference that is not zero.\<close>

fun firstDiff :: "VersionTag \<Rightarrow> VersionTag \<Rightarrow> nat list \<Rightarrow> int option" where
  "firstDiff a b [] = None"
| "firstDiff a b (i # is) =
     (let diff = numberAt a i - numberAt b i in if diff \<noteq> 0 then Some diff else firstDiff a b is)"

definition compareVersions :: "VersionTag \<Rightarrow> VersionTag \<Rightarrow> int" where
  "compareVersions a b =
     (case firstDiff a b [0..<max (length (vt_numbers a)) (length (vt_numbers b))] of
        Some diff \<Rightarrow> diff
      | None \<Rightarrow>
          if vt_prerelease a \<noteq> vt_prerelease b then (if vt_prerelease a then - 1 else 1)
          else int (length (vt_numbers a)) - int (length (vt_numbers b)))"

definition sameTrack :: "VersionTag \<Rightarrow> VersionTag \<Rightarrow> bool" where
  "sameTrack current candidate =
     (if vt_prerelease candidate then False
      else if length (vt_numbers candidate) < length (vt_numbers current) then False
      else if vt_prerelease current then vt_suffix candidate = None
      else (case vt_suffix candidate of None \<Rightarrow> [] | Some s \<Rightarrow> s) = (case vt_suffix current of None \<Rightarrow> [] | Some s \<Rightarrow> s))"

datatype UpdateScope = ScopeMajor | ScopeMinor | ScopePatch

definition parseUpdateScope :: "string option \<Rightarrow> UpdateScope option" where
  "parseUpdateScope v =
     (if v = Some ''major'' then Some ScopeMajor
      else if v = Some ''minor'' then Some ScopeMinor
      else if v = Some ''patch'' then Some ScopePatch else None)"

definition withinScope :: "VersionTag \<Rightarrow> VersionTag \<Rightarrow> UpdateScope \<Rightarrow> bool" where
  "withinScope current candidate scope =
     (let fixed = (if scope = ScopePatch then 2 else if scope = ScopeMinor then 1 else 0)
      in list_all (\<lambda>i. numberAt candidate i = int (vt_numbers current ! i)) [0..<min fixed (length (vt_numbers current))])"

text \<open>One turn of the loop of \<open>newerVersionTag\<close>, and the loop.\<close>

definition newerStep :: "VersionTag \<Rightarrow> UpdateScope \<Rightarrow> string \<Rightarrow> VersionTag option \<Rightarrow> VersionTag option" where
  "newerStep parsed scope tag best =
     (case parseVersionTag tag of
        None \<Rightarrow> best
      | Some candidate \<Rightarrow>
          if sameTrack parsed candidate \<and> withinScope parsed candidate scope \<and> compareVersions candidate parsed > 0 \<and>
             (case best of None \<Rightarrow> True | Some b \<Rightarrow> compareVersions candidate b > 0)
          then Some candidate else best)"

definition newerVersionTag :: "string \<Rightarrow> string list \<Rightarrow> UpdateScope \<Rightarrow> string option" where
  "newerVersionTag current tags scope =
     (case parseVersionTag current of
        None \<Rightarrow> None
      | Some parsed \<Rightarrow> map_option vt_tag (fold (newerStep parsed scope) tags None))"

section \<open>Tags of a digest, valid tags\<close>

record RegistryTag =
  rt_digest :: "string option"
  rt_name :: string

definition tagRank :: "string \<Rightarrow> int" where
  "tagRank name =
     (case parseVersionTag name of
        None \<Rightarrow> 0
      | Some parsed \<Rightarrow> (if vt_prerelease parsed then 10 else 100) + int (length (vt_numbers parsed)))"

definition tagsMatchingDigest ::
  "(string \<Rightarrow> string \<Rightarrow> int) \<Rightarrow> RegistryTag list \<Rightarrow> string \<Rightarrow> string \<Rightarrow> string list" where
  "tagsMatchingDigest collate tags digest current =
     js_sort (\<lambda>a b. if tagRank b - tagRank a \<noteq> 0 then tagRank b - tagRank a else collate b a)
       (map rt_name (filter (\<lambda>tag. rt_digest tag = Some digest \<and> rt_name tag \<noteq> current) tags))"

definition isPinnableTag :: "string \<Rightarrow> bool" where
  "isPinnableTag tag = (case parseVersionTag tag of None \<Rightarrow> False | Some parsed \<Rightarrow> \<not> vt_prerelease parsed)"

definition tag_char :: "char \<Rightarrow> bool" where
  "tag_char c \<longleftrightarrow> is_word c \<or> c = CHR ''.'' \<or> c = CHR ''-''"

definition sanitizeTag :: "string \<Rightarrow> string" where
  "sanitizeTag v =
     take 128 (dropWhile (\<lambda>c. c = CHR ''.'' \<or> c = CHR ''-'') (replace_runs (\<lambda>c. \<not> tag_char c) ''-'' (trim v)))"

definition isValidTag :: "string \<Rightarrow> bool" where
  "isValidTag v \<longleftrightarrow> length v > 0 \<and> sanitizeTag v = v"

definition suggestLocalTag :: "string \<Rightarrow> string option \<Rightarrow> timestamp \<Rightarrow> string" where
  "suggestLocalTag currentTag versionLabel now =
     (let fromLabel = (case versionLabel of None \<Rightarrow> [] | Some l \<Rightarrow> if l = [] then [] else sanitizeTag l)
      in if fromLabel \<noteq> [] \<and> fromLabel \<noteq> currentTag then fromLabel
         else sanitizeTag (currentTag @ ''-'' @ filter (\<lambda>c. c \<noteq> CHR ''-'') (take 10 (toISOString now))))"

section \<open>Pickers\<close>

definition sortTagsForPicker :: "(string \<Rightarrow> string \<Rightarrow> int) \<Rightarrow> string list \<Rightarrow> string list" where
  "sortTagsForPicker collate names =
     filter (\<lambda>name. parseVersionTag name = None) names @
     map vt_tag (js_sort (\<lambda>a b. if compareVersions b a \<noteq> 0 then compareVersions b a else collate (vt_tag a) (vt_tag b))
       (List.map_filter parseVersionTag names))"

definition ascii_letter :: "char \<Rightarrow> bool" where
  "ascii_letter c \<longleftrightarrow> is_lower_ascii c \<or> is_upper_ascii c"

text \<open>
  The commit hashes: a run of seven to forty hexadecimal digits with no letter before and no letter or digit after;
  \<open>prev\<close> says whether the character before is a letter.
\<close>

function starHashes :: "bool \<Rightarrow> string \<Rightarrow> string" where
  "starHashes prev [] = []"
| "starHashes prev (c # cs) =
     (let run = takeWhile is_hex (c # cs); rest = dropWhile is_hex (c # cs)
      in if \<not> prev \<and> 7 \<le> length run \<and> length run \<le> 40 \<and> (rest = [] \<or> \<not> (ascii_letter (hd rest) \<or> is_digit (hd rest)))
         then CHR ''*'' # starHashes (ascii_letter (last run)) rest
         else c # starHashes (ascii_letter c) cs)"
  by pat_completeness auto
termination
proof (relation "measure (\<lambda>(prev, s). length s)", goal_cases)
  case (2 prev c cs run rest)
  then have "is_hex c" by (auto split: if_splits)
  then show ?case using 2 length_dropWhile_le[of is_hex cs] by simp
qed auto

text \<open>\<open>\d+(?:\.\d+)*\<close>: the longest dotted numbers from here.\<close>

definition numbersRun :: "string \<Rightarrow> nat option" where
  "numbersRun t = List.find (\<lambda>n. dottedNumbers (take n t)) (rev [1..<Suc (length t)])"

lemma numbersRun_pos: "numbersRun t = Some n \<Longrightarrow> 1 \<le> n"
  using find_Some_iff_first[of _ _ n] unfolding numbersRun_def by fastforce

function starNumbers :: "string \<Rightarrow> string" where
  "starNumbers [] = []"
| "starNumbers (c # cs) =
     (case numbersRun (c # cs) of
        Some n \<Rightarrow> CHR ''*'' # starNumbers (drop n (c # cs))
      | None \<Rightarrow> c # starNumbers cs)"
  by pat_completeness auto
termination
  by (relation "measure length") (auto dest!: numbersRun_pos)

definition tagPattern :: "string \<Rightarrow> string" where
  "tagPattern v = starNumbers (starHashes False v)"

definition tagFamily :: "string \<Rightarrow> string" where
  "tagFamily tag =
     (case parseVersionTag tag of
        Some parsed \<Rightarrow>
          if vt_prerelease parsed then ''Prereleases''
          else (case vt_suffix parsed of
                  None \<Rightarrow> ''Releases''
                | Some s \<Rightarrow> if s = [] then ''Releases'' else ''*-'' @ tagPattern s)
      | None \<Rightarrow> if CHR ''*'' \<in> set (tagPattern tag) then tagPattern tag else ''Named'')"

definition countFamily :: "string \<Rightarrow> nat js_map \<Rightarrow> nat js_map" where
  "countFamily tag counts =
     AList.update (tagFamily tag) ((case map_of counts (tagFamily tag) of None \<Rightarrow> 0 | Some n \<Rightarrow> n) + 1) counts"

definition tagFamilies :: "(string \<Rightarrow> string \<Rightarrow> int) \<Rightarrow> string list \<Rightarrow> nat js_map" where
  "tagFamilies collate tags =
     js_sort (\<lambda>a b. if snd b \<noteq> snd a then int (snd b) - int (snd a) else collate (fst a) (fst b)) (fold countFamily tags [])"

end
