(* ===== verification/Image_Updates.thy ===== *)
theory Image_Updates
  imports Image_Versions
begin

text \<open>
  \<open>services/image-version.service.ts\<close>: pinning a service's tag, checking the registry for an update, trying it in a
  throwaway container with retries, telling about it once and moving the service onto it. What the registry, the
  worker and a trial answer are parameters. A check is in two steps, between which the other operations may run: it
  asks and records, then it tries and tells, with the service as it was read when it began.
\<close>

section \<open>State\<close>

record ImageUpdateAvailable =
  iu_digest :: "string option"
  iu_foundAt :: timestamp
  iu_tag :: string

datatype UpdateTrialStatus = TrialRunning | TrialPassed | TrialFailed

record ImageUpdateTrial =
  tr_at :: timestamp
  tr_attempts :: "nat option"
  tr_log :: "string list"
  tr_message :: "string option"
  tr_status :: UpdateTrialStatus
  tr_tag :: string

record ImageUpdateState =
  us_available :: "ImageUpdateAvailable option"
  us_checkedAt :: timestamp
  us_error :: "string option"
  us_notifiedKey :: "string option"
  us_trial :: "ImageUpdateTrial option"

datatype PullPolicy = PullAlways | PullMissing | PullNever

text \<open>The columns of a service that this part reads and writes.\<close>

record imageService =
  sv_id :: string
  sv_name :: string
  sv_image :: string
  sv_tag :: string
  sv_fromImage :: bool
  sv_previewParentId :: "string option"
  sv_pinnedFromTag :: "string option"
  sv_pinnedLocally :: bool
  sv_pullPolicy :: PullPolicy
  sv_updateCheck :: "ImageUpdateState option"
  sv_checkEnabled :: bool
  sv_scope :: UpdateScope
  sv_trialEnabled :: bool

definition trialAttempts :: "nat option \<Rightarrow> string" where
  "trialAttempts attempts =
     (case attempts of
        None \<Rightarrow> ''1 attempt''
      | Some n \<Rightarrow> if n = 0 \<or> n = 1 then ''1 attempt'' else show_nat n @ '' attempts'')"

definition updateKey :: "ImageUpdateAvailable \<Rightarrow> string" where
  "updateKey update = iu_tag update @ ''@'' @ (case iu_digest update of None \<Rightarrow> [] | Some d \<Rightarrow> d)"

datatype unsupported = NotFromImage | SetOnTheParent

definition unsupportedReason :: "imageService \<Rightarrow> unsupported option" where
  "unsupportedReason svc =
     (if \<not> sv_fromImage svc then Some NotFromImage
      else case sv_previewParentId svc of
             Some p \<Rightarrow> if p \<noteq> [] then Some SetOnTheParent else None
           | None \<Rightarrow> None)"

section \<open>Pinning\<close>

text \<open>
  The running image: of the newest running deployment that recorded one (status, digest, image id, newest first), else
  the local image behind the tag.
\<close>

record RunningImage =
  ru_digest :: "string option"
  ru_imageId :: "string option"

definition nonEmpty :: "string option \<Rightarrow> string option" where
  "nonEmpty s = (if s = Some [] then None else s)"

definition runningImage :: "(string \<times> string option \<times> string option) list \<Rightarrow> RunningImage option \<Rightarrow> RunningImage" where
  "runningImage revisions local_image =
     (case List.find (\<lambda>(status, digest, img). status = ''running'' \<and> (nonEmpty digest \<noteq> None \<or> nonEmpty img \<noteq> None))
        (take 20 revisions) of
        Some (_, digest, img) \<Rightarrow> \<lparr>ru_digest = digest, ru_imageId = img\<rparr>
      | None \<Rightarrow>
          (case local_image of
             None \<Rightarrow> \<lparr>ru_digest = None, ru_imageId = None\<rparr>
           | Some i \<Rightarrow> \<lparr>ru_digest = nonEmpty (ru_digest i), ru_imageId = ru_imageId i\<rparr>))"

definition versionLabel :: "string js_map option \<Rightarrow> string option" where
  "versionLabel labels =
     (case List.map_filter (\<lambda>key. nonEmpty (case labels of None \<Rightarrow> None | Some ls \<Rightarrow> map_of ls key))
        [''org.opencontainers.image.version'', ''org.label-schema.version''] of
        [] \<Rightarrow> None | v # _ \<Rightarrow> Some v)"

record PinCandidates =
  pc_digest :: "string option"
  pc_matches :: "string list"
  pc_suggestion :: string

text \<open>\<open>tags\<close> is what the registry lists, or \<open>None\<close> when it cannot be listed.\<close>

definition findPinCandidates ::
  "(string \<Rightarrow> string \<Rightarrow> int) \<Rightarrow> imageService \<Rightarrow> RunningImage \<Rightarrow> string option \<Rightarrow> RegistryTag list option \<Rightarrow> timestamp
   \<Rightarrow> PinCandidates option" where
  "findPinCandidates collate svc running label tags now =
     (if \<not> sv_fromImage svc then None
      else
        (let suggestion = suggestLocalTag (sv_tag svc) label now
         in case nonEmpty (ru_digest running) of
              None \<Rightarrow> Some \<lparr>pc_digest = None, pc_matches = [], pc_suggestion = suggestion\<rparr>
            | Some digest \<Rightarrow>
                Some \<lparr>pc_digest = Some digest,
                  pc_matches = tagsMatchingDigest collate (case tags of None \<Rightarrow> [] | Some ts \<Rightarrow> ts) digest (sv_tag svc),
                  pc_suggestion = suggestion\<rparr>))"

datatype pin_error = InvalidTag | RunningImageGone | WorkerError string

text \<open>\<open>tagged\<close> is what the worker answers to tagging the running image: its error, if any.\<close>

definition pinService :: "string \<Rightarrow> bool \<Rightarrow> pin_error option \<Rightarrow> imageService \<Rightarrow> pin_error option \<times> imageService" where
  "pinService tag is_local tagged svc =
     (if \<not> isValidTag tag then (Some InvalidTag, svc)
      else if is_local \<and> tagged \<noteq> None then (tagged, svc)
      else
        (None, svc\<lparr>sv_pinnedFromTag := Some (case sv_pinnedFromTag svc of Some f \<Rightarrow> f | None \<Rightarrow> sv_tag svc),
           sv_pinnedLocally := is_local, sv_pullPolicy := (if is_local then PullMissing else sv_pullPolicy svc),
           sv_tag := tag, sv_updateCheck := None\<rparr>))"

definition unpinService :: "imageService \<Rightarrow> imageService" where
  "unpinService svc =
     (case nonEmpty (sv_pinnedFromTag svc) of
        None \<Rightarrow> svc
      | Some tag \<Rightarrow>
          svc\<lparr>sv_pinnedFromTag := None, sv_pinnedLocally := False,
            sv_pullPolicy := (if sv_pinnedLocally svc then PullAlways else sv_pullPolicy svc),
            sv_tag := tag, sv_updateCheck := None\<rparr>)"

section \<open>Looking for an update\<close>

text \<open>What the registry answers: its tags, and the digest behind a tag; the left is an error's message.\<close>

record registry =
  rg_tags :: "string + RegistryTag list"
  rg_digest :: "string \<Rightarrow> string + string option"

definition findUpdate ::
  "registry \<Rightarrow> RunningImage \<Rightarrow> timestamp \<Rightarrow> imageService \<Rightarrow> string + ImageUpdateAvailable option" where
  "findUpdate reg running now svc =
     (if parseVersionTag (sv_tag svc) \<noteq> None then
        (case rg_tags reg of
           Inl e \<Rightarrow> Inl e
         | Inr tags \<Rightarrow>
             (case newerVersionTag (sv_tag svc) (map rt_name tags) (sv_scope svc) of
                None \<Rightarrow> Inr None
              | Some newer \<Rightarrow>
                  (case Option.bind (List.find (\<lambda>t. rt_name t = newer) tags) rt_digest of
                     Some d \<Rightarrow> Inr (Some \<lparr>iu_digest = Some d, iu_foundAt = now, iu_tag = newer\<rparr>)
                   | None \<Rightarrow>
                       (case rg_digest reg newer of
                          Inl e \<Rightarrow> Inl e
                        | Inr d \<Rightarrow> Inr (Some \<lparr>iu_digest = d, iu_foundAt = now, iu_tag = newer\<rparr>)))))
      else if sv_pinnedLocally svc then Inr None
      else
        (case rg_digest reg (sv_tag svc) of
           Inl e \<Rightarrow> Inl e
         | Inr remote \<Rightarrow>
             if nonEmpty remote = None \<or> nonEmpty (ru_digest running) = None \<or> remote = ru_digest running then Inr None
             else Inr (Some \<lparr>iu_digest = remote, iu_foundAt = now, iu_tag = sv_tag svc\<rparr>)))"

text \<open>\<open>#lookUp\<close>: what the check records, from what was found and the check before.\<close>

definition lookUp :: "string + ImageUpdateAvailable option \<Rightarrow> timestamp \<Rightarrow> imageService \<Rightarrow> ImageUpdateState" where
  "lookUp found_update now svc =
     (let previous = sv_updateCheck svc; key = Option.bind previous us_notifiedKey
      in case found_update of
           Inl message \<Rightarrow>
             \<lparr>us_available = Option.bind previous us_available, us_checkedAt = now, us_error = Some message,
              us_notifiedKey = key, us_trial = Option.bind previous us_trial\<rparr>
         | Inr available \<Rightarrow>
             (case (available, Option.bind previous us_available) of
                (Some a, Some p) \<Rightarrow>
                  if updateKey p = updateKey a
                  then \<lparr>us_available = Some p, us_checkedAt = now, us_error = None, us_notifiedKey = key,
                        us_trial = (case Option.bind previous us_trial of
                           Some t \<Rightarrow> if tr_status t = TrialRunning then None else Some t
                         | None \<Rightarrow> None)\<rparr>
                  else \<lparr>us_available = Some a, us_checkedAt = now, us_error = None, us_notifiedKey = key, us_trial = None\<rparr>
              | _ \<Rightarrow> \<lparr>us_available = available, us_checkedAt = now, us_error = None, us_notifiedKey = key, us_trial = None\<rparr>))"

section \<open>Trials\<close>

definition MAX_TRIAL_RETRIES :: nat where
  "MAX_TRIAL_RETRIES = 3"

definition addLines :: "string list \<Rightarrow> string list \<Rightarrow> string list" where
  "addLines log_lines more_lines = (let all = log_lines @ more_lines in drop (length all - 300) all)"

text \<open>
  \<open>#attempt\<close>: \<open>runs n\<close> is what the \<open>n\<close>-th run reports (its progress, and its error or its message). The result is the
  number of attempts, the message, the status and the log.
\<close>

function trialAttempt ::
  "(nat \<Rightarrow> string list list \<times> (string + string option)) \<Rightarrow> nat \<Rightarrow> string list
   \<Rightarrow> nat \<times> string option \<times> UpdateTrialStatus \<times> string list" where
  "trialAttempt runs attempt log_lines =
     (let (progress, outcome) = runs attempt; log_lines = foldl addLines log_lines progress
      in case outcome of
           Inr message \<Rightarrow> (attempt, message, TrialPassed, log_lines)
         | Inl message \<Rightarrow>
             if attempt > MAX_TRIAL_RETRIES then
               (attempt,
                Some (take 4000 (if attempt > 1 then ''Failed all '' @ show_nat attempt @ '' attempts. '' @ message else message)),
                TrialFailed, log_lines)
             else
               trialAttempt runs (attempt + 1)
                 [''Attempt '' @ show_nat attempt @ '' failed: '' @ hd (split_on (CHR 10) message),
                  ''Retry '' @ show_nat attempt @ '' of '' @ show_nat MAX_TRIAL_RETRIES])"
  by pat_completeness auto
termination by (relation "measure (\<lambda>(runs, attempt, log). MAX_TRIAL_RETRIES + 1 - attempt)") auto

declare trialAttempt.simps [simp del]

definition runTrial ::
  "(nat \<Rightarrow> string list list \<times> (string + string option)) \<Rightarrow> timestamp \<Rightarrow> ImageUpdateAvailable \<Rightarrow> ImageUpdateTrial" where
  "runTrial runs later update =
     (let (attempts, message, status, log_lines) = trialAttempt runs 1 []
      in \<lparr>tr_at = later, tr_attempts = Some attempts, tr_log = log_lines, tr_message = message, tr_status = status,
          tr_tag = iu_tag update\<rparr>)"

section \<open>The service\<close>

record notice =
  no_key :: string
  no_tag :: string
  no_detail :: "string option"
  no_message :: string

definition updateNotice :: "imageService \<Rightarrow> ImageUpdateAvailable \<Rightarrow> ImageUpdateTrial option \<Rightarrow> notice" where
  "updateNotice svc update trial =
     (let target = (if iu_tag update = sv_tag svc then ''a newer '' @ iu_tag update @ '' image'' else iu_tag update);
          outcome = (case trial of
             None \<Rightarrow> []
           | Some t \<Rightarrow>
               if tr_status t = TrialPassed then '' Its trial run started cleanly.''
               else '' Its trial run never got healthy ('' @ trialAttempts (tr_attempts t) @
                 ''), so it isn't offered: retry the trial from the service's Version panel once it's fixed.'')
      in \<lparr>no_key = updateKey update, no_tag = iu_tag update,
          no_detail = (case trial of Some t \<Rightarrow> if tr_status t = TrialFailed then tr_message t else None | None \<Rightarrow> None),
          no_message = [CHR 0x22] @ sv_name svc @ [CHR 0x22] @ '' can update to '' @ target @ ''.'' @ outcome\<rparr>)"

text \<open>
  The service's row, the check in flight (the service as read, the state of the check, whether a trial is forced), what
  was told and the deploys enqueued.
\<close>

record update_world =
  uw_svc :: imageService
  uw_inFlight :: "(imageService \<times> ImageUpdateState \<times> bool) option"
  uw_told :: "notice list"
  uw_deploys :: "string list"

definition saveCheck :: "ImageUpdateState option \<Rightarrow> update_world \<Rightarrow> update_world" where
  "saveCheck state w = w\<lparr>uw_svc := (uw_svc w)\<lparr>sv_updateCheck := state\<rparr>\<rparr>"

text \<open>\<open>check\<close> up to the registry's answer; with a check in flight it only returns the recorded one.\<close>

definition startCheck :: "registry \<Rightarrow> RunningImage \<Rightarrow> timestamp \<Rightarrow> update_world \<Rightarrow> ImageUpdateState option \<times> update_world" where
  "startCheck reg running now w =
     (if uw_inFlight w \<noteq> None then (sv_updateCheck (uw_svc w), w)
      else (let svc = uw_svc w; state = lookUp (findUpdate reg running now svc) now svc
            in (Some state, saveCheck (Some state) (w\<lparr>uw_inFlight := Some (svc, state, False)\<rparr>))))"

text \<open>\<open>#tryAndNotify\<close>, and the check taken out of flight.\<close>

definition finishCheck ::
  "(nat \<Rightarrow> string list list \<times> (string + string option)) \<Rightarrow> timestamp \<Rightarrow> update_world \<Rightarrow> update_world" where
  "finishCheck runs later w =
     (case uw_inFlight w of
        None \<Rightarrow> w
      | Some (svc, state, force) \<Rightarrow>
          (let w = w\<lparr>uw_inFlight := None\<rparr>
           in case us_available state of
                None \<Rightarrow> w
              | Some available \<Rightarrow>
                  if us_error state \<noteq> None then w
                  else
                    (let tried = (force \<or> sv_trialEnabled svc) \<and> us_trial state = None;
                         state = (if tried then state\<lparr>us_trial := Some (runTrial runs later available)\<rparr> else state);
                         w = (if tried then saveCheck (Some state) w else w)
                     in if us_notifiedKey state = Some (updateKey available) then w
                        else (let w = w\<lparr>uw_told := uw_told w @ [updateNotice svc available (us_trial state)]\<rparr>
                              in saveCheck (Some (state\<lparr>us_notifiedKey := Some (updateKey available)\<rparr>)) w))))"

definition checkUpdate ::
  "registry \<Rightarrow> RunningImage \<Rightarrow> timestamp \<Rightarrow> (nat \<Rightarrow> string list list \<times> (string + string option)) \<Rightarrow> timestamp
   \<Rightarrow> update_world \<Rightarrow> update_world" where
  "checkUpdate reg running now runs later w =
     (if uw_inFlight w \<noteq> None then w else finishCheck runs later (snd (startCheck reg running now w)))"

datatype retry_error = NothingToTry | AlreadyRunning

definition retryTrial :: "update_world \<Rightarrow> retry_error option \<times> update_world" where
  "retryTrial w =
     (case sv_updateCheck (uw_svc w) of
        None \<Rightarrow> (Some NothingToTry, w)
      | Some check \<Rightarrow>
          if us_available check = None then (Some NothingToTry, w)
          else if uw_inFlight w \<noteq> None then (Some AlreadyRunning, w)
          else (let state = check\<lparr>us_notifiedKey := None, us_trial := None\<rparr>
                in (None, saveCheck (Some state) (w\<lparr>uw_inFlight := Some (uw_svc w, state, True)\<rparr>))))"

text \<open>\<open>setWatch\<close>: whether it starts a first check is the first result.\<close>

definition setWatch :: "bool option \<Rightarrow> UpdateScope option \<Rightarrow> bool option \<Rightarrow> update_world \<Rightarrow> bool \<times> update_world" where
  "setWatch enabled scope trial w =
     (let svc = uw_svc w;
          on = (case enabled of None \<Rightarrow> sv_checkEnabled svc | Some b \<Rightarrow> b);
          scopeChanged = (scope \<noteq> None \<and> scope \<noteq> Some (sv_scope svc));
          svc = svc\<lparr>sv_checkEnabled := on,
            sv_scope := (case scope of None \<Rightarrow> sv_scope svc | Some s \<Rightarrow> s),
            sv_trialEnabled := (case trial of None \<Rightarrow> sv_trialEnabled svc | Some b \<Rightarrow> b),
            sv_updateCheck := (if on \<and> \<not> scopeChanged then sv_updateCheck svc else None)\<rparr>
      in (on \<and> sv_updateCheck svc = None, w\<lparr>uw_svc := svc\<rparr>))"

definition applyUpdate :: "update_world \<Rightarrow> bool \<times> update_world" where
  "applyUpdate w =
     (case Option.bind (sv_updateCheck (uw_svc w)) us_available of
        None \<Rightarrow> (False, w)
      | Some available \<Rightarrow>
          (let svc = uw_svc w
           in (True, w\<lparr>uw_svc := svc\<lparr>sv_pinnedLocally := False,
                  sv_pullPolicy := (if sv_pinnedLocally svc then PullAlways else sv_pullPolicy svc),
                  sv_tag := iu_tag available, sv_updateCheck := None\<rparr>,
                uw_deploys := uw_deploys w @ [''Updating to '' @ sv_image svc @ '':'' @ iu_tag available]\<rparr>)))"

end
