(* ===== verification/Image_Theorems.thy ===== *)
theory Image_Theorems
  imports Image_Versions
begin

text \<open>
  Properties of \<open>src/lib/image-versions.ts\<close>: versions are ordered, the newest release on the track is found, sanitized
  tags are Docker tags, and a picker loses no tag.
\<close>

section \<open>The order of versions\<close>

text \<open>
  What \<open>compareVersions\<close> orders by: the numbers, missing ones zero, then releases above prereleases, then how many
  numbers there are. The numbers are compared as padded lists of any common length.
\<close>

definition padded :: "nat \<Rightarrow> VersionTag \<Rightarrow> int list" where
  "padded n v = map (numberAt v) [0..<n]"

lemma firstDiff_None: "firstDiff a b is = None \<longleftrightarrow> (\<forall>i \<in> set is. numberAt a i = numberAt b i)"
  by (induction "is") (auto simp: Let_def)

lemma firstDiff_flip: "firstDiff b a is = map_option uminus (firstDiff a b is)"
  by (induction "is") (auto simp: Let_def)

lemma firstDiff_nonzero: "firstDiff a b is = Some d \<Longrightarrow> d \<noteq> 0"
  by (induction "is") (auto simp: Let_def split: if_splits)

lemma firstDiff_append:
  "firstDiff a b (is @ js) = (case firstDiff a b is of None \<Rightarrow> firstDiff a b js | Some d \<Rightarrow> Some d)"
  by (induction "is") (auto simp: Let_def)

lemma numberAt_beyond: "length (vt_numbers v) \<le> i \<Longrightarrow> numberAt v i = 0"
  by (simp add: numberAt_def)

text \<open>Looking further than the longer version changes nothing.\<close>

lemma firstDiff_extend:
  assumes "max (length (vt_numbers a)) (length (vt_numbers b)) \<le> n"
  shows "firstDiff a b [0..<n] = firstDiff a b [0..<max (length (vt_numbers a)) (length (vt_numbers b))]"
proof -
  let ?m = "max (length (vt_numbers a)) (length (vt_numbers b))"
  have "firstDiff a b [?m..<n] = None" by (auto simp: firstDiff_None numberAt_beyond)
  moreover have "[0..<n] = [0..<?m] @ [?m..<n]" using assms by (metis le_add_diff_inverse upt_add_eq_append zero_le)
  ultimately show ?thesis by (simp add: firstDiff_append split: option.split)
qed

lemma firstDiff_trans:
  "(case firstDiff a b is of None \<Rightarrow> True | Some d \<Rightarrow> d < 0) \<Longrightarrow>
   (case firstDiff b c is of None \<Rightarrow> True | Some d \<Rightarrow> d < 0) \<Longrightarrow>
   (case firstDiff a c is of
      None \<Rightarrow> firstDiff a b is = None \<and> firstDiff b c is = None
    | Some d \<Rightarrow> d < 0)"
proof (induction "is")
  case (Cons i js)
  then show ?case
    by (cases "numberAt a i = numberAt b i"; cases "numberAt b i = numberAt c i") (auto simp: Let_def split: option.splits)
qed simp

definition versionKey :: "VersionTag \<Rightarrow> VersionTag \<Rightarrow> bool" where
  "versionKey a b \<longleftrightarrow> compareVersions a b \<le> 0"

lemma compare_flip: "compareVersions b a = - compareVersions a b"
  by (auto simp: compareVersions_def firstDiff_flip[of b a] max.commute split: option.split)

lemma compare_cases:
  assumes "length (vt_numbers a) \<le> n" "length (vt_numbers b) \<le> n"
  shows "compareVersions a b =
     (case firstDiff a b [0..<n] of
        Some diff \<Rightarrow> diff
      | None \<Rightarrow> if vt_prerelease a \<noteq> vt_prerelease b then (if vt_prerelease a then - 1 else 1)
          else int (length (vt_numbers a)) - int (length (vt_numbers b)))"
  using firstDiff_extend[of a b n] assms by (simp add: compareVersions_def)

lemma compare_trans: "compareVersions a b \<le> 0 \<Longrightarrow> compareVersions b c \<le> 0 \<Longrightarrow> compareVersions a c \<le> 0"
proof -
  assume ab: "compareVersions a b \<le> 0" and bc: "compareVersions b c \<le> 0"
  define n where "n = max (length (vt_numbers a)) (max (length (vt_numbers b)) (length (vt_numbers c)))"
  have n: "length (vt_numbers a) \<le> n" "length (vt_numbers b) \<le> n" "length (vt_numbers c) \<le> n" by (auto simp: n_def)
  have "case firstDiff a b [0..<n] of None \<Rightarrow> True | Some d \<Rightarrow> d < 0" "case firstDiff b c [0..<n] of None \<Rightarrow> True | Some d \<Rightarrow> d < 0"
    using ab bc firstDiff_nonzero[of a b "[0..<n]"] firstDiff_nonzero[of b c "[0..<n]"]
    by (auto simp: compare_cases[OF n(1,2)] compare_cases[OF n(2,3)] split: option.splits)
  from firstDiff_trans[OF this] show ?thesis
    using ab bc
    by (auto simp: compare_cases[OF n(1,2)] compare_cases[OF n(2,3)] compare_cases[OF n(1,3)] split: option.splits if_splits)
qed

lemma compareVersions_comparator: "comparator compareVersions"
proof -
  have "sgn (compareVersions b a) = - sgn (compareVersions a b)" for a b by (simp add: compare_flip[of b a])
  then show ?thesis unfolding comparator_def using compare_trans by blast
qed

lemma compare_self: "compareVersions a a = 0"
  using compare_flip[of a a] by simp

text \<open>The same order in words.\<close>

definition versionBelow :: "VersionTag \<Rightarrow> VersionTag \<Rightarrow> bool" where
  "versionBelow a b \<longleftrightarrow>
     (\<exists>i. numberAt a i < numberAt b i \<and> (\<forall>j < i. numberAt a j = numberAt b j)) \<or>
     ((\<forall>i. numberAt a i = numberAt b i) \<and>
        ((vt_prerelease a \<and> \<not> vt_prerelease b) \<or>
         (vt_prerelease a = vt_prerelease b \<and> length (vt_numbers a) < length (vt_numbers b))))"

lemma firstDiff_Some:
  "firstDiff a b [0..<n] = Some d \<longleftrightarrow>
   (\<exists>i < n. d = numberAt a i - numberAt b i \<and> d \<noteq> 0 \<and> (\<forall>j < i. numberAt a j = numberAt b j))"
proof (induction n arbitrary: d)
  case (Suc n)
  show ?case
  proof (cases "firstDiff a b [0..<n]")
    case None
    then have "\<forall>j < n. numberAt a j = numberAt b j" by (simp add: firstDiff_None)
    then show ?thesis using None by (auto simp: firstDiff_append Let_def less_Suc_eq)
  next
    case (Some e)
    then obtain k where k: "k < n" "e = numberAt a k - numberAt b k" "e \<noteq> 0" "\<forall>j < k. numberAt a j = numberAt b j"
      using Suc[of e] by auto
    have "firstDiff a b [0..<Suc n] = Some e" using Some by (simp add: firstDiff_append)
    moreover have "e = d" if d: "i < Suc n" "d = numberAt a i - numberAt b i" "d \<noteq> 0" "\<forall>j < i. numberAt a j = numberAt b j" for i
    proof -
      have "\<not> i < k" using d(2,3) k(4) by (metis right_minus_eq)
      moreover have "\<not> k < i" using d(4) k(2,3) by (metis right_minus_eq)
      ultimately show ?thesis using d(2) k(2) by (metis linorder_neqE_nat)
    qed
    moreover have "k < Suc n" using k(1) by simp
    ultimately show ?thesis using k(2,3,4) by (metis option.inject)
  qed
qed simp

lemma compare_below: "compareVersions a b < 0 \<longleftrightarrow> versionBelow a b"
proof -
  define n where "n = max (length (vt_numbers a)) (length (vt_numbers b))"
  have eq: "compareVersions a b =
     (case firstDiff a b [0..<n] of
        Some diff \<Rightarrow> diff
      | None \<Rightarrow> if vt_prerelease a \<noteq> vt_prerelease b then (if vt_prerelease a then - 1 else 1)
          else int (length (vt_numbers a)) - int (length (vt_numbers b)))"
    by (simp add: compareVersions_def n_def)
  have beyond: "numberAt a i = numberAt b i" if "n \<le> i" for i using that by (simp add: numberAt_beyond n_def)
  show ?thesis
  proof (cases "firstDiff a b [0..<n]")
    case None
    then have "numberAt a i = numberAt b i" for i using beyond[of i] by (cases "i < n") (auto simp: firstDiff_None)
    then show ?thesis using None by (auto simp: eq versionBelow_def)
  next
    case (Some d)
    then obtain k where k: "k < n" "d = numberAt a k - numberAt b k" "d \<noteq> 0" "\<forall>j < k. numberAt a j = numberAt b j"
      by (auto simp: firstDiff_Some)
    have "i = k" if "numberAt a i < numberAt b i" "\<forall>j < i. numberAt a j = numberAt b j" for i
      using that k by (metis less_irrefl linorder_neqE_nat right_minus_eq)
    moreover have "\<not> (\<forall>i. numberAt a i = numberAt b i)" using k by auto
    ultimately show ?thesis using Some k by (auto simp: eq versionBelow_def)
  qed
qed

section \<open>The newest release\<close>

text \<open>What an update may be: newer, stable, at least as specific, of the same flavour and within the scope.\<close>

definition eligible :: "VersionTag \<Rightarrow> UpdateScope \<Rightarrow> VersionTag \<Rightarrow> bool" where
  "eligible p scope c \<longleftrightarrow>
     versionBelow p c \<and> \<not> vt_prerelease c \<and> length (vt_numbers p) \<le> length (vt_numbers c) \<and>
     (if vt_prerelease p then vt_suffix c = None
      else (vt_suffix c = vt_suffix p \<or> (vt_suffix c \<in> {None, Some []} \<and> vt_suffix p \<in> {None, Some []}))) \<and>
     (scope \<in> {ScopeMinor, ScopePatch} \<longrightarrow> vt_numbers p \<noteq> [] \<longrightarrow> numberAt c 0 = numberAt p 0) \<and>
     (scope = ScopePatch \<longrightarrow> length (vt_numbers p) \<ge> 2 \<longrightarrow> numberAt c 1 = numberAt p 1)"

lemma withinScope_iff:
  "withinScope p c scope \<longleftrightarrow>
     (scope \<in> {ScopeMinor, ScopePatch} \<longrightarrow> vt_numbers p \<noteq> [] \<longrightarrow> numberAt c 0 = numberAt p 0) \<and>
     (scope = ScopePatch \<longrightarrow> length (vt_numbers p) \<ge> 2 \<longrightarrow> numberAt c 1 = numberAt p 1)"
proof -
  have "[0..<min 2 (length (vt_numbers p))] =
      (if vt_numbers p = [] then [] else if length (vt_numbers p) = 1 then [0] else [0, 1])"
    by (cases "vt_numbers p"; cases "tl (vt_numbers p)") (auto simp: upt_rec)
  moreover have "[0..<min 1 (length (vt_numbers p))] = (if vt_numbers p = [] then [] else [0])"
    by (cases "vt_numbers p") (auto simp: upt_rec)
  moreover have "numberAt p 0 = int (vt_numbers p ! 0)" if "vt_numbers p \<noteq> []" using that by (simp add: numberAt_def)
  moreover have "numberAt p 1 = int (vt_numbers p ! 1)" if "length (vt_numbers p) \<ge> 2" using that by (simp add: numberAt_def)
  ultimately show ?thesis
    by (cases scope; cases "vt_numbers p"; cases "tl (vt_numbers p)") (auto simp: withinScope_def Let_def)
qed

lemma eligible_iff:
  "eligible p scope c \<longleftrightarrow> sameTrack p c \<and> withinScope p c scope \<and> compareVersions c p > 0"
  using compare_below[of p c] compare_flip[of p c]
  by (auto simp: eligible_def sameTrack_def withinScope_iff split: option.splits)

definition bestSoFar :: "VersionTag \<Rightarrow> UpdateScope \<Rightarrow> string set \<Rightarrow> VersionTag option \<Rightarrow> bool" where
  "bestSoFar p scope seen best \<longleftrightarrow>
     (case best of
        None \<Rightarrow> \<forall>tag \<in> seen. \<forall>c. parseVersionTag tag = Some c \<longrightarrow> \<not> eligible p scope c
      | Some b \<Rightarrow> (\<exists>tag \<in> seen. parseVersionTag tag = Some b) \<and> eligible p scope b \<and>
          (\<forall>tag \<in> seen. \<forall>c. parseVersionTag tag = Some c \<longrightarrow> eligible p scope c \<longrightarrow> \<not> versionBelow b c))"

lemma newerStep_best: "bestSoFar p scope seen best \<Longrightarrow> bestSoFar p scope (insert tag seen) (newerStep p scope tag best)"
proof -
  assume b: "bestSoFar p scope seen best"
  have trans: "versionBelow x z" if "versionBelow x y" "\<not> versionBelow z y" for x y z
  proof (rule ccontr)
    assume "\<not> versionBelow x z"
    then have "compareVersions z x \<le> 0" "compareVersions y z \<le> 0"
      using that(2) compare_flip[of x z] compare_flip[of y z] by (auto simp flip: compare_below)
    then have "compareVersions y x \<le> 0" using compare_trans by blast
    then show False using that(1) compare_flip[of x y] by (simp flip: compare_below)
  qed
  have irrefl: "\<not> versionBelow x x" for x by (simp add: compare_self flip: compare_below)
  have asym: "\<not> versionBelow y x" if "versionBelow x y" for x y
    using that compare_flip[of x y] by (simp flip: compare_below)
  show ?thesis
  proof (cases "parseVersionTag tag")
    case None
    then show ?thesis using b by (auto simp: newerStep_def bestSoFar_def split: option.splits)
  next
    case (Some c)
    have above: "compareVersions c x > 0 \<longleftrightarrow> versionBelow x c" for x
      using compare_below[of x c] compare_flip[of x c] by auto
    have step: "newerStep p scope tag best =
        (if eligible p scope c \<and> (case best of None \<Rightarrow> True | Some x \<Rightarrow> versionBelow x c) then Some c else best)"
      using Some above by (auto simp: newerStep_def eligible_iff split: option.splits)
    show ?thesis
    proof (cases best)
      case None
      show ?thesis using b Some irrefl unfolding None step[unfolded None]
        by (auto simp: bestSoFar_def)
    next
      case (Some x)
      note x = this
      show ?thesis
      proof (cases "eligible p scope c \<and> versionBelow x c")
        case True
        then have "\<not> versionBelow c d" if "\<not> versionBelow x d" for d using that trans asym by blast
        then show ?thesis using b True \<open>parseVersionTag tag = Some c\<close> irrefl unfolding x step[unfolded x]
          by (auto simp: bestSoFar_def)
      next
        case False
        then show ?thesis using b \<open>parseVersionTag tag = Some c\<close> unfolding x step[unfolded x]
          by (auto simp: bestSoFar_def)
      qed
    qed
  qed
qed

lemma parse_tag: "parseVersionTag tag = Some v \<Longrightarrow> vt_tag v = tag"
  by (auto simp: parseVersionTag_def Let_def split: option.splits)

lemma newerVersionTag_best:
  "case parseVersionTag current of
     None \<Rightarrow> newerVersionTag current tags scope = None
   | Some p \<Rightarrow>
       (case newerVersionTag current tags scope of
          None \<Rightarrow> \<forall>tag \<in> set tags. \<forall>c. parseVersionTag tag = Some c \<longrightarrow> \<not> eligible p scope c
        | Some t \<Rightarrow> t \<in> set tags \<and> (\<exists>v. parseVersionTag t = Some v \<and> eligible p scope v \<and>
            (\<forall>tag \<in> set tags. \<forall>c. parseVersionTag tag = Some c \<longrightarrow> eligible p scope c \<longrightarrow> \<not> versionBelow v c)))"
proof (cases "parseVersionTag current")
  case (Some p)
  have "bestSoFar p scope (set tags) (fold (newerStep p scope) tags None)"
  proof (induction tags rule: rev_induct)
    case (snoc tag tags)
    then show ?case using newerStep_best[OF snoc, of tag] by simp
  qed (simp add: bestSoFar_def)
  then show ?thesis using Some
    by (auto simp: newerVersionTag_def bestSoFar_def parse_tag split: option.splits)
qed (simp add: newerVersionTag_def)

text \<open>
  C27. The tag offered for a version tag is one of the given ones, in the allowed scope and on the same track, above the
  current one, and no other such tag is above it; no tag is offered exactly when there is no such tag.
\<close>

theorem newerVersionTag_newest:
  "case parseVersionTag current of
     None \<Rightarrow> newerVersionTag current tags scope = None
   | Some p \<Rightarrow>
       (case newerVersionTag current tags scope of
          None \<Rightarrow> \<forall>tag \<in> set tags. \<forall>c. parseVersionTag tag = Some c \<longrightarrow> \<not> eligible p scope c
        | Some t \<Rightarrow> t \<in> set tags \<and> (\<exists>v. parseVersionTag t = Some v \<and> eligible p scope v \<and>
            (\<forall>tag \<in> set tags. \<forall>c. parseVersionTag tag = Some c \<longrightarrow> eligible p scope c \<longrightarrow> \<not> versionBelow v c)))"
  by (rule newerVersionTag_best)

theorem newerVersionTag_newest_witness:
  "newerVersionTag ''1.24.3'' [''1.25.0-rc1'', ''1.24.4'', ''2.0.0'', ''1.25.1'', ''1.25.1-alpine''] ScopeMinor = Some ''1.25.1'' \<and>
   (\<exists>p v. parseVersionTag ''1.24.3'' = Some p \<and> parseVersionTag ''1.25.1'' = Some v \<and> versionBelow p v \<and> numberAt v 0 = numberAt p 0)"
proof -
  have e: "newerVersionTag ''1.24.3'' [''1.25.0-rc1'', ''1.24.4'', ''2.0.0'', ''1.25.1'', ''1.25.1-alpine''] ScopeMinor = Some ''1.25.1''"
    by code_simp
  have "parseVersionTag ''1.24.3'' \<noteq> None \<and> vt_numbers (the (parseVersionTag ''1.24.3'')) \<noteq> []" by code_simp
  then obtain p where p: "parseVersionTag ''1.24.3'' = Some p" "vt_numbers p \<noteq> []" by auto
  from newerVersionTag_newest[of "''1.24.3''" "[''1.25.0-rc1'', ''1.24.4'', ''2.0.0'', ''1.25.1'', ''1.25.1-alpine'']" ScopeMinor]
  show ?thesis unfolding e p(1) using e p by (auto simp: eligible_def)
qed

section \<open>Valid tags\<close>

lemma take_dropWhile_subset: "c \<in> set (take n (dropWhile P s)) \<Longrightarrow> c \<in> set s"
  by (meson in_set_takeD set_dropWhileD)

lemma sanitizeTag_shape:
  assumes "sanitizeTag v \<noteq> []"
  shows "length (sanitizeTag v) \<le> 128 \<and> is_word (hd (sanitizeTag v)) \<and> list_all tag_char (sanitizeTag v)"
proof -
  let ?r = "replace_runs (\<lambda>c. \<not> tag_char c) ''-'' (trim v)"
  let ?d = "dropWhile (\<lambda>c. c = CHR ''.'' \<or> c = CHR ''-'') ?r"
  have chars: "\<forall>c \<in> set ?r. tag_char c" by (auto dest!: replace_runs_chars simp: tag_char_def)
  have s: "sanitizeTag v = take 128 ?d" by (simp add: sanitizeTag_def)
  have ne: "?d \<noteq> []" using assms s by auto
  have "hd (sanitizeTag v) = hd ?d" using ne s by (cases ?d) auto
  moreover have "hd ?d \<noteq> CHR ''.'' \<and> hd ?d \<noteq> CHR ''-''" using hd_dropWhile[OF ne] by auto
  moreover have "tag_char (hd ?d)" using chars ne by (meson hd_in_set set_dropWhileD)
  moreover have "list_all tag_char (sanitizeTag v)"
    using chars unfolding s list_all_iff by (meson take_dropWhile_subset)
  ultimately show ?thesis by (auto simp: s tag_char_def)
qed

lemma tag_char_not_ws: "tag_char c \<Longrightarrow> \<not> is_ws c"
  by (auto simp: tag_char_def is_word_def is_ws_def is_lower_ascii_def is_upper_ascii_def is_digit_def)

lemma sanitizeTag_word:
  assumes "v \<noteq> []" "is_word (hd v)" "list_all tag_char v"
  shows "sanitizeTag v = take 128 v"
proof -
  have "tag_char (hd v)" "tag_char (last v)" using assms(1,3) by (auto simp: list_all_iff)
  then have "trim v = v" using assms(1) by (intro trim_id tag_char_not_ws)
  moreover have "replace_runs (\<lambda>c. \<not> tag_char c) ''-'' v = v"
    by (rule replace_runs_none) (use assms(3) in \<open>simp add: list_all_iff\<close>)
  moreover have "\<not> is_word (CHR ''.'')" "\<not> is_word (CHR ''-'')"
    by (simp_all add: is_word_def is_lower_ascii_def is_upper_ascii_def is_digit_def)
  then have "dropWhile (\<lambda>c. c = CHR ''.'' \<or> c = CHR ''-'') v = v" using assms(2) by (intro dropWhile_id) auto
  ultimately show ?thesis by (simp add: sanitizeTag_def)
qed

theorem valid_tags_are_docker_tags:
  "(isValidTag v \<longleftrightarrow> v \<noteq> [] \<and> length v \<le> 128 \<and> is_word (hd v) \<and> list_all tag_char v) \<and>
   (sanitizeTag v = [] \<or> isValidTag (sanitizeTag v))"
proof -
  have "isValidTag u \<longleftrightarrow> u \<noteq> [] \<and> length u \<le> 128 \<and> is_word (hd u) \<and> list_all tag_char u" for u
    using sanitizeTag_shape[of u] sanitizeTag_word[of u] by (auto simp: isValidTag_def)
  then show ?thesis using sanitizeTag_shape[of v] by blast
qed

text \<open>
  A tag of 128 characters has no room for the date: the suggestion to pin it under another name is its own name.
\<close>

theorem suggestion_of_a_long_tag:
  "isValidTag (replicate 128 (CHR ''a'')) \<and> suggestLocalTag (replicate 128 (CHR ''a'')) None 0 = replicate 128 (CHR ''a'')"
proof -
  let ?a = "replicate 128 (CHR ''a'')" and ?d = "''-19700101''"
  have w: "is_word (CHR ''a'')" by (simp add: is_word_def is_lower_ascii_def)
  have d: "list_all tag_char ?d" by code_simp
  have "sanitizeTag ?a = ?a"
    by (subst sanitizeTag_word) (use w in \<open>simp_all add: list_all_iff tag_char_def\<close>)
  moreover have "sanitizeTag (?a @ ?d) = ?a"
    by (subst sanitizeTag_word) (use w d in \<open>simp_all add: list_all_iff tag_char_def\<close>)
  moreover have "filter (\<lambda>c. c \<noteq> CHR ''-'') (take 10 (toISOString 0)) = ''19700101''" by code_simp
  ultimately show ?thesis by (simp add: isValidTag_def suggestLocalTag_def)
qed

section \<open>Pickers\<close>

lemma picker_partition:
  "mset (filter (\<lambda>name. parseVersionTag name = None) names) + mset (map vt_tag (List.map_filter parseVersionTag names)) = mset names"
  by (induction names) (auto simp: List.map_filter_simps parse_tag split: option.splits)

theorem picker_keeps_tags:
  assumes "comparator collate"
  shows "mset (sortTagsForPicker collate names) = mset names \<and>
     (\<exists>floating versions. sortTagsForPicker collate names = floating @ map vt_tag versions \<and>
        floating = filter (\<lambda>n. parseVersionTag n = None) names \<and>
        (\<forall>v \<in> set versions. parseVersionTag (vt_tag v) = Some v) \<and>
        sorted_wrt (\<lambda>a b. \<not> versionBelow a b) versions)"
proof -
  let ?cmp = "\<lambda>a b. if compareVersions b a \<noteq> 0 then compareVersions b a else collate (vt_tag a) (vt_tag b)"
  let ?floating = "filter (\<lambda>n. parseVersionTag n = None) names"
  let ?vs = "js_sort ?cmp (List.map_filter parseVersionTag names)"
  have "comparator ?cmp"
    by (rule comparator_lex[OF comparator_swap[OF compareVersions_comparator] comparator_map[OF assms]])
  then have "sorted_wrt (\<lambda>a b. ?cmp a b \<le> 0) ?vs" by (rule sorted_js_sort)
  moreover have "\<not> versionBelow a b" if "?cmp a b \<le> 0" for a b
    using that compare_below[of a b] compare_flip[of a b] by (auto split: if_splits)
  ultimately have s: "sorted_wrt (\<lambda>a b. \<not> versionBelow a b) ?vs" by (rule sorted_wrt_mono_rel[rotated])
  have "\<forall>v \<in> set ?vs. parseVersionTag (vt_tag v) = Some v"
    by (auto simp: List.map_filter_def parse_tag)
  moreover have "sortTagsForPicker collate names = ?floating @ map vt_tag ?vs" by (simp add: sortTagsForPicker_def)
  moreover have "mset (?floating @ map vt_tag ?vs) = mset names"
    using picker_partition[of names] by simp
  ultimately show ?thesis using s by (intro conjI exI[of _ ?floating] exI[of _ ?vs]) auto
qed

theorem picker_keeps_tags_witness:
  "mset (sortTagsForPicker (\<lambda>a b. int (length a) - int (length b)) [''1.2'', ''latest'', ''1.10'']) = mset [''1.2'', ''latest'', ''1.10'']"
  using picker_keeps_tags[OF comparator_diff[of "\<lambda>s :: string. int (length s)"], of "[''1.2'', ''latest'', ''1.10'']"] by blast

text \<open>The families of a picker count every tag once.\<close>

lemma countFamily_sum: "distinct (map fst counts) \<Longrightarrow> sum_list (map snd (countFamily tag counts)) = sum_list (map snd counts) + 1"
proof -
  have "distinct (map fst m) \<Longrightarrow>
      sum_list (map snd (AList.update k ((case map_of m k of None \<Rightarrow> 0 | Some n \<Rightarrow> n) + 1) m)) = sum_list (map snd m) + (1 :: nat)" for m k
    by (induction m) auto
  then show "distinct (map fst counts) \<Longrightarrow> ?thesis" by (simp add: countFamily_def)
qed

lemma countFamily_distinct: "distinct (map fst counts) \<Longrightarrow> distinct (map fst (countFamily tag counts))"
  by (simp add: countFamily_def distinct_update)

theorem families_count_tags:
  "sum_list (map snd (tagFamilies collate tags)) = length tags \<and> distinct (map fst (tagFamilies collate tags))"
proof -
  have "distinct (map fst (fold countFamily tags [])) \<and> sum_list (map snd (fold countFamily tags [])) = length tags"
  proof (induction tags rule: rev_induct)
    case (snoc tag tags)
    let ?m = "fold countFamily tags []"
    have "distinct (map fst (countFamily tag ?m))" using snoc by (intro countFamily_distinct) simp
    then show ?case using snoc countFamily_sum[of ?m tag] by simp
  qed simp
  moreover have m: "mset (tagFamilies collate tags) = mset (fold countFamily tags [])" by (simp add: tagFamilies_def)
  then have "mset (map snd (tagFamilies collate tags)) = mset (map snd (fold countFamily tags []))"
    "mset (map fst (tagFamilies collate tags)) = mset (map fst (fold countFamily tags []))" unfolding mset_map by simp_all
  ultimately show ?thesis by (metis mset_eq_imp_distinct_iff sum_mset_sum_list)
qed

end
