(* ===== verification/Update_Theorems.thy ===== *)
theory Update_Theorems
  imports Image_Updates Image_Theorems
begin

text \<open>
  Properties of the update checks: a trial makes at most four attempts and passes exactly when one of them does,
  repeated checks tell of an update once, an update found for a version is a newer release on its track, and unpinning
  undoes any series of pins.
\<close>

section \<open>Trials\<close>

lemma trialAttempt_result:
  "1 \<le> attempt \<Longrightarrow> attempt \<le> 4 \<Longrightarrow>
   (case trialAttempt runs attempt log_lines of (n, message, status, _) \<Rightarrow>
      if \<exists>k. attempt \<le> k \<and> k \<le> 4 \<and> isl (snd (runs k)) = False
      then status = TrialPassed \<and> attempt \<le> n \<and> n \<le> 4 \<and> snd (runs n) = Inr message \<and>
        (\<forall>k. attempt \<le> k \<longrightarrow> k < n \<longrightarrow> isl (snd (runs k)))
      else status = TrialFailed \<and> n = 4 \<and>
        message = Some (take 4000 (''Failed all 4 attempts. '' @ projl (snd (runs 4)))))"
proof (induction runs attempt log_lines rule: trialAttempt.induct)
  case (1 runs attempt log_lines)
  obtain progress outcome where r: "runs attempt = (progress, outcome)" by (cases "runs attempt")
  show ?case
  proof (cases outcome)
    case (Inr message)
    then have "\<exists>k. attempt \<le> k \<and> k \<le> 4 \<and> isl (snd (runs k)) = False" using r 1 by (intro exI[of _ attempt]) simp
    then show ?thesis using 1 Inr r by (simp add: trialAttempt.simps[of runs attempt])
  next
    case (Inl message)
    show ?thesis
    proof (cases "attempt > MAX_TRIAL_RETRIES")
      case True
      then have a: "attempt = 4" using 1 by (simp add: MAX_TRIAL_RETRIES_def)
      have no: "\<not> (\<exists>k. attempt \<le> k \<and> k \<le> 4 \<and> isl (snd (runs k)) = False)"
      proof
        assume "\<exists>k. attempt \<le> k \<and> k \<le> 4 \<and> isl (snd (runs k)) = False"
        then obtain k where "attempt \<le> k" "k \<le> 4" "\<not> isl (snd (runs k))" by auto
        then show False using r Inl a by (metis isl_def le_antisym snd_conv)
      qed
      have "runs 4 = (progress, Inl message)" using r Inl a by simp
      then have "trialAttempt runs 4 log_lines =
          (4, Some (take 4000 (''Failed all 4 attempts. '' @ message)), TrialFailed, foldl addLines log_lines progress)"
        by (simp add: trialAttempt.simps[of runs 4] MAX_TRIAL_RETRIES_def show_nat_small digit_chars)
      then show ?thesis using no r Inl a by simp
    next
      case False
      then have le: "1 \<le> attempt + 1" "attempt + 1 \<le> 4" by (simp_all add: MAX_TRIAL_RETRIES_def)
      have split: "attempt \<le> k \<longleftrightarrow> k = attempt \<or> attempt + 1 \<le> k" for k by auto
      have "isl (snd (runs attempt))" using r Inl by simp
      then have ex: "(\<exists>k. attempt \<le> k \<and> k \<le> 4 \<and> isl (snd (runs k)) = False) \<longleftrightarrow>
          (\<exists>k. attempt + 1 \<le> k \<and> k \<le> 4 \<and> isl (snd (runs k)) = False)"
        using split by metis
      have all: "(\<forall>k. attempt \<le> k \<longrightarrow> k < n \<longrightarrow> isl (snd (runs k))) \<longleftrightarrow>
          (\<forall>k. attempt + 1 \<le> k \<longrightarrow> k < n \<longrightarrow> isl (snd (runs k)))" for n
        using split \<open>isl (snd (runs attempt))\<close> by metis
      note IH = 1(1)[OF refl r[symmetric] refl Inl False le]
      have step: "trialAttempt runs attempt log_lines = trialAttempt runs (attempt + 1)
         [''Attempt '' @ show_nat attempt @ '' failed: '' @ hd (split_on (CHR 10) message),
          ''Retry '' @ show_nat attempt @ '' of '' @ show_nat MAX_TRIAL_RETRIES]"
        using r Inl False by (simp add: trialAttempt.simps[of runs attempt])
      define E where "E \<longleftrightarrow> (\<exists>k. attempt + 1 \<le> k \<and> k \<le> 4 \<and> isl (snd (runs k)) = False)"
      obtain n m st lg where R: "trialAttempt runs (attempt + 1)
         [''Attempt '' @ show_nat attempt @ '' failed: '' @ hd (split_on (CHR 10) message),
          ''Retry '' @ show_nat attempt @ '' of '' @ show_nat MAX_TRIAL_RETRIES] = (n, m, st, lg)" by (rule prod_cases4)
      have "if E then st = TrialPassed \<and> attempt + 1 \<le> n \<and> n \<le> 4 \<and> snd (runs n) = Inr m \<and>
          (\<forall>k. attempt \<le> k \<longrightarrow> k < n \<longrightarrow> isl (snd (runs k)))
        else st = TrialFailed \<and> n = 4 \<and> m = Some (take 4000 (''Failed all 4 attempts. '' @ projl (snd (runs 4))))"
        using IH unfolding R prod.case all E_def .
      then show ?thesis unfolding step ex R prod.case E_def[symmetric] by (cases E) simp_all
    qed
  qed
qed

theorem trial_passes_iff_an_attempt_does:
  "case runTrial runs later update of t \<Rightarrow>
     \<exists>n. tr_attempts t = Some n \<and> 1 \<le> n \<and> n \<le> 4 \<and> tr_tag t = iu_tag update \<and>
       (if list_ex (\<lambda>k. \<not> isl (snd (runs k))) [1, 2, 3, 4]
        then tr_status t = TrialPassed \<and> snd (runs n) = Inr (tr_message t) \<and> list_all (\<lambda>k. isl (snd (runs k))) [1..<n]
        else tr_status t = TrialFailed \<and> n = 4)"
proof -
  obtain n message status lg where r: "trialAttempt runs 1 [] = (n, message, status, lg)" by (cases "trialAttempt runs 1 []") auto
  have ex: "(\<exists>k. 1 \<le> k \<and> k \<le> 4 \<and> isl (snd (runs k)) = False) \<longleftrightarrow> list_ex (\<lambda>k. \<not> isl (snd (runs k))) [1, 2, 3, 4]"
  proof -
    have s: "set [1, 2, 3, 4 :: nat] = {k. 1 \<le> k \<and> k \<le> 4}" by auto
    show ?thesis unfolding list_ex_iff s by auto
  qed
  have l: "list_all (\<lambda>k. isl (snd (runs k))) [1..<n] \<longleftrightarrow> (\<forall>k. 1 \<le> k \<longrightarrow> k < n \<longrightarrow> isl (snd (runs k)))"
    by (auto simp: list_all_iff)
  have t: "tr_attempts (runTrial runs later update) = Some n" "tr_tag (runTrial runs later update) = iu_tag update"
    "tr_status (runTrial runs later update) = status" "tr_message (runTrial runs later update) = message"
    unfolding runTrial_def Let_def r by simp_all
  have res: "if list_ex (\<lambda>k. \<not> isl (snd (runs k))) [1, 2, 3, 4]
      then status = TrialPassed \<and> 1 \<le> n \<and> n \<le> 4 \<and> snd (runs n) = Inr message \<and> list_all (\<lambda>k. isl (snd (runs k))) [1..<n]
      else status = TrialFailed \<and> n = 4 \<and> message = Some (take 4000 (''Failed all 4 attempts. '' @ projl (snd (runs 4))))"
    using trialAttempt_result[of 1 runs "[]"] unfolding r ex l by simp
  show ?thesis
  proof (cases "list_ex (\<lambda>k. \<not> isl (snd (runs k))) [1, 2, 3, 4]")
    case True
    then show ?thesis using res t by simp
  next
    case False
    then show ?thesis using res t by simp
  qed
qed

section \<open>An update is told once\<close>

text \<open>Checks in a row, each with what the registry and the trial answer.\<close>

type_synonym check_round =
  "registry \<times> RunningImage \<times> timestamp \<times> (nat \<Rightarrow> string list list \<times> (string + string option)) \<times> timestamp"

definition checkRounds :: "check_round list \<Rightarrow> update_world \<Rightarrow> update_world" where
  "checkRounds rounds w = fold (\<lambda>(reg, running, now, runs, later). checkUpdate reg running now runs later) rounds w"

definition toldKeys :: "update_world \<Rightarrow> string list" where
  "toldKeys w = map no_key (uw_told w)"

text \<open>The recorded key is the last one told, once anything was told.\<close>

definition keyRecorded :: "update_world \<Rightarrow> bool" where
  "keyRecorded w \<longleftrightarrow>
     uw_inFlight w = None \<and> distinct_adj (toldKeys w) \<and>
     (toldKeys w \<noteq> [] \<longrightarrow> Option.bind (sv_updateCheck (uw_svc w)) us_notifiedKey = Some (last (toldKeys w)))"

lemma lookUp_key: "us_notifiedKey (lookUp f now svc) = Option.bind (sv_updateCheck svc) us_notifiedKey"
  by (auto simp: lookUp_def Let_def split: sum.split option.split)

lemma keyRecorded_check:
  assumes "keyRecorded w"
  shows "keyRecorded (checkUpdate reg running now runs later w)"
proof -
  define state where "state = lookUp (findUpdate reg running now (uw_svc w)) now (uw_svc w)"
  define key where "key = Option.bind (sv_updateCheck (uw_svc w)) us_notifiedKey"
  have k: "us_notifiedKey state = key" by (simp add: state_def key_def lookUp_key)
  have start: "checkUpdate reg running now runs later w =
      finishCheck runs later (saveCheck (Some state) (w\<lparr>uw_inFlight := Some (uw_svc w, state, False)\<rparr>))"
    using assms by (simp add: checkUpdate_def startCheck_def keyRecorded_def state_def Let_def)
  have inv: "uw_inFlight w = None" "distinct_adj (toldKeys w)" "toldKeys w \<noteq> [] \<Longrightarrow> key = Some (last (toldKeys w))"
    using assms by (auto simp: keyRecorded_def key_def)
  show ?thesis
  proof (cases "us_available state")
    case None
    then show ?thesis using inv k by (simp add: start finishCheck_def keyRecorded_def saveCheck_def toldKeys_def)
  next
    case (Some available)
    show ?thesis
    proof (cases "us_error state = None \<and> key \<noteq> Some (updateKey available)")
      case True
      then have "toldKeys w = [] \<or> last (toldKeys w) \<noteq> updateKey available" using inv(3) by auto
      then have "distinct_adj (toldKeys w @ [updateKey available])"
        using inv(2) by (auto simp: distinct_adj_append_iff)
      then show ?thesis
        using Some True k by (simp add: start finishCheck_def keyRecorded_def saveCheck_def toldKeys_def Let_def updateNotice_def)
    next
      case False
      then show ?thesis using Some inv k
        by (auto simp: start finishCheck_def keyRecorded_def saveCheck_def toldKeys_def Let_def)
    qed
  qed
qed

lemma keyRecorded_rounds: "keyRecorded w \<Longrightarrow> keyRecorded (checkRounds rounds w)"
proof (induction rounds arbitrary: w)
  case (Cons r rounds)
  then show ?case using keyRecorded_check by (cases r) (simp add: checkRounds_def)
qed (simp add: checkRounds_def)

text \<open>
  However many checks run, whatever the registry and the trials answer in each, two notices in a row are never about the
  same update of the service.
\<close>

theorem update_told_once:
  assumes "uw_inFlight w = None" "uw_told w = []"
  shows "distinct_adj (map no_key (uw_told (checkRounds rounds w)))"
  using keyRecorded_rounds[of w rounds] assms by (simp add: keyRecorded_def toldKeys_def)

text \<open>A service on a floating tag, and a registry whose image behind it is another one.\<close>

definition sampleImageService :: "string \<Rightarrow> imageService" where
  "sampleImageService tag = \<lparr>sv_id = ''s'', sv_name = ''app'', sv_image = ''nginx'', sv_tag = tag, sv_fromImage = True,
     sv_previewParentId = None, sv_pinnedFromTag = None, sv_pinnedLocally = False, sv_pullPolicy = PullAlways,
     sv_updateCheck = None, sv_checkEnabled = True, sv_scope = ScopeMinor, sv_trialEnabled = False\<rparr>"

definition sampleRegistry :: registry where
  "sampleRegistry = \<lparr>rg_tags = Inr [\<lparr>rt_digest = Some ''d3'', rt_name = ''1.25.1''\<rparr>, \<lparr>rt_digest = None, rt_name = ''2.0.0''\<rparr>],
     rg_digest = (\<lambda>tag. Inr (Some ''d2''))\<rparr>"

definition sampleUpdates :: "string \<Rightarrow> update_world" where
  "sampleUpdates tag = \<lparr>uw_svc = sampleImageService tag, uw_inFlight = None, uw_told = [], uw_deploys = []\<rparr>"

definition sampleRound :: check_round where
  "sampleRound = (sampleRegistry, \<lparr>ru_digest = Some ''d1'', ru_imageId = None\<rparr>, 5, \<lambda>n. ([], Inr None), 6)"

theorem update_told_once_witness:
  "map no_key (uw_told (checkRounds [sampleRound, sampleRound] (sampleUpdates ''latest''))) = [''latest@d2''] \<and>
   distinct_adj (map no_key (uw_told (checkRounds [sampleRound, sampleRound] (sampleUpdates ''latest''))))"
proof
  show "map no_key (uw_told (checkRounds [sampleRound, sampleRound] (sampleUpdates ''latest''))) = [''latest@d2'']"
    by code_simp
  show "distinct_adj (map no_key (uw_told (checkRounds [sampleRound, sampleRound] (sampleUpdates ''latest''))))"
    by (rule update_told_once) (simp_all add: sampleUpdates_def)
qed

section \<open>What is found\<close>

theorem found_update_is_newer:
  assumes "findUpdate reg running now svc = Inr (Some update)"
  shows "case parseVersionTag (sv_tag svc) of
       Some p \<Rightarrow> (\<exists>v. parseVersionTag (iu_tag update) = Some v \<and> eligible p (sv_scope svc) v) \<and>
         (\<exists>tags. rg_tags reg = Inr tags \<and> iu_tag update \<in> set (map rt_name tags))
     | None \<Rightarrow> iu_tag update = sv_tag svc \<and> \<not> sv_pinnedLocally svc \<and> iu_digest update \<noteq> ru_digest running"
proof (cases "parseVersionTag (sv_tag svc)")
  case None
  then show ?thesis using assms by (auto simp: findUpdate_def split: if_splits sum.splits)
next
  case (Some p)
  from assms Some obtain tags newer where t: "rg_tags reg = Inr tags"
      "newerVersionTag (sv_tag svc) (map rt_name tags) (sv_scope svc) = Some newer" "iu_tag update = newer"
    by (auto simp: findUpdate_def split: sum.splits option.splits)
  then show ?thesis using newerVersionTag_best[of "sv_tag svc" "map rt_name tags" "sv_scope svc"] Some by auto
qed

theorem found_update_is_newer_witness:
  "\<exists>p v. parseVersionTag ''1.24.3'' = Some p \<and> parseVersionTag ''1.25.1'' = Some v \<and> eligible p ScopeMinor v"
proof -
  have f: "findUpdate sampleRegistry r 5 (sampleImageService ''1.24.3'') =
      Inr (Some \<lparr>iu_digest = Some ''d3'', iu_foundAt = 5, iu_tag = ''1.25.1''\<rparr>)" for r
    by code_simp
  have "parseVersionTag ''1.24.3'' \<noteq> None" by code_simp
  then show ?thesis using found_update_is_newer[OF f] by (auto simp: sampleImageService_def)
qed

section \<open>Pins\<close>

definition pinAll :: "(string \<times> bool \<times> pin_error option) list \<Rightarrow> imageService \<Rightarrow> imageService" where
  "pinAll pins svc = fold (\<lambda>(tag, is_local, tagged) s. snd (pinService tag is_local tagged s)) pins svc"

lemma pinAll_pinned:
  "sv_pinnedFromTag svc = Some f \<Longrightarrow> sv_pinnedFromTag (pinAll pins svc) = Some f"
  by (induction pins arbitrary: svc) (auto simp: pinAll_def pinService_def)

lemma pinAll_unpinned:
  "sv_pinnedFromTag svc = None \<Longrightarrow>
   pinAll pins svc = svc \<or> sv_pinnedFromTag (pinAll pins svc) = Some (sv_tag svc)"
proof (induction pins arbitrary: svc)
  case (Cons pin pins)
  obtain tag is_local tagged where p: "pin = (tag, is_local, tagged)" by (cases pin)
  let ?s = "snd (pinService tag is_local tagged svc)"
  have all: "pinAll (pin # pins) svc = pinAll pins ?s" by (simp add: pinAll_def p)
  consider "?s = svc" | "sv_pinnedFromTag ?s = Some (sv_tag svc)" using Cons.prems
    by (cases "isValidTag tag"; cases "is_local \<and> tagged \<noteq> None") (auto simp: pinService_def)
  then show ?case
  proof cases
    case 1
    then show ?thesis using Cons.IH[OF Cons.prems] by (simp add: all)
  next
    case 2
    then show ?thesis using pinAll_pinned[OF 2] by (simp add: all)
  qed
qed (simp add: pinAll_def)

theorem unpin_undoes_pins:
  assumes "sv_pinnedFromTag svc = None" "sv_tag svc \<noteq> []" "\<not> sv_pinnedLocally svc"
  shows "sv_tag (unpinService (pinAll pins svc)) = sv_tag svc \<and> sv_pinnedFromTag (unpinService (pinAll pins svc)) = None \<and>
     \<not> sv_pinnedLocally (unpinService (pinAll pins svc))"
  using pinAll_unpinned[OF assms(1), of pins] assms
  by (auto simp: unpinService_def nonEmpty_def)

theorem unpin_undoes_pins_witness:
  "sv_tag (unpinService (pinAll [(''1.2'', True, None), (''1.3'', False, None)] (sampleImageService ''latest''))) = ''latest''"
  using unpin_undoes_pins[of "sampleImageService ''latest''" "[(''1.2'', True, None), (''1.3'', False, None)]"]
  by (simp add: sampleImageService_def)

text \<open>
  The pull policy is not undone: pinning locally and then to a registry tag leaves the policy of the local pin, also
  after unpinning, and a floating tag is not pulled again.
\<close>

theorem repin_keeps_missing:
  assumes "sv_pinnedFromTag svc = None" "sv_tag svc \<noteq> []" "isValidTag a" "isValidTag b" "sv_pullPolicy svc = PullAlways"
  shows "sv_pullPolicy (unpinService (pinAll [(a, True, None), (b, False, None)] svc)) = PullMissing"
  using assms by (simp add: pinAll_def pinService_def unpinService_def nonEmpty_def)

end
