(* ===== verification/Revision_Config.thy ===== *)
theory Revision_Config
  imports Js_Sort
begin

text \<open>
  \<open>src/lib/revision-config.ts\<close>, \<open>runtimeOptionsFrom\<close> of \<open>src/lib/service-runtime.ts\<close>: the configuration a
  deploy records on its row and a rollback puts back. A key an object lacks is \<open>None\<close>; a field that may
  be null is an option inside that. \<open>structuredClone\<close> copies a value, which is the value.
  \<open>comparable\<close> returns the value whose JSON text the code compares: \<open>JSON.stringify\<close> writes two values
  alike exactly when they have the same entries in the same order.
\<close>

datatype NetworkMode = NetBridge | NetHost
datatype PortProtocol = PortTcp | PortUdp | PortBoth

record ExposedPort =
  ep_port :: int
  ep_protocol :: PortProtocol

record PublishedPort =
  pp_containerPort :: int
  pp_hostPort :: int
  pp_protocol :: PortProtocol

record VolumeMountSnapshot =
  vm_containerPath :: string
  vm_readOnly :: bool
  vm_volumeId :: string

record ServiceRuntimeOptions =
  ro_capAdd :: "string list"
  ro_command :: "string list option"
  ro_devices :: "string list"
  ro_entrypoint :: "string list option"
  ro_envFiles :: "string list"
  ro_labels :: "string js_map"
  ro_privileged :: bool
  ro_runAsUser :: "string option"

text \<open>\<open>Partial<ServiceRuntimeOptions>\<close>: the same keys, each possibly absent.\<close>

record PartialRuntimeOptions =
  po_capAdd :: "string list option"
  po_command :: "string list option option"
  po_devices :: "string list option"
  po_entrypoint :: "string list option option"
  po_envFiles :: "string list option"
  po_labels :: "string js_map option"
  po_privileged :: "bool option"
  po_runAsUser :: "string option option"

record RevisionConfig =
  rc_runtime :: PartialRuntimeOptions
  rc_containerPort :: int
  rc_cpuLimit :: "string option"
  rc_dnsResolvable :: bool
  rc_envVars :: "string js_map"
  rc_memoryLimitMb :: "int option"
  rc_networkMode :: NetworkMode
  rc_portProtocol :: PortProtocol
  rc_exposedPorts :: "ExposedPort list option"
  rc_publishedPorts :: "PublishedPort list option"
  rc_replicas :: int
  rc_volumeMounts :: "VolumeMountSnapshot list option"

record RevisionConfigSource =
  cs_runtime :: ServiceRuntimeOptions
  cs_containerPort :: int
  cs_cpuLimit :: "string option"
  cs_dnsResolvable :: bool
  cs_envVars :: "string js_map option"
  cs_memoryLimitMb :: "int option"
  cs_networkMode :: NetworkMode
  cs_portProtocol :: PortProtocol
  cs_exposedPorts :: "ExposedPort list"
  cs_publishedPorts :: "PublishedPort list"
  cs_replicas :: int

section \<open>Recording\<close>

definition or_else :: "'a option \<Rightarrow> 'a \<Rightarrow> 'a" where
  "or_else v d = (case v of Some x \<Rightarrow> x | None \<Rightarrow> d)"

definition runtimeOptionsFrom :: "PartialRuntimeOptions option \<Rightarrow> ServiceRuntimeOptions" where
  "runtimeOptionsFrom source =
     \<lparr> ro_capAdd = or_else (Option.bind source po_capAdd) [],
       ro_command = or_else (Option.bind source po_command) None,
       ro_devices = or_else (Option.bind source po_devices) [],
       ro_entrypoint = or_else (Option.bind source po_entrypoint) None,
       ro_envFiles = or_else (Option.bind source po_envFiles) [],
       ro_labels = or_else (Option.bind source po_labels) [],
       ro_privileged = or_else (Option.bind source po_privileged) False,
       ro_runAsUser = or_else (Option.bind source po_runAsUser) None \<rparr>"

definition every_option :: "ServiceRuntimeOptions \<Rightarrow> PartialRuntimeOptions" where
  "every_option r =
     \<lparr> po_capAdd = Some (ro_capAdd r), po_command = Some (ro_command r), po_devices = Some (ro_devices r),
       po_entrypoint = Some (ro_entrypoint r), po_envFiles = Some (ro_envFiles r),
       po_labels = Some (ro_labels r), po_privileged = Some (ro_privileged r),
       po_runAsUser = Some (ro_runAsUser r) \<rparr>"

definition snapshotRevisionConfig :: "RevisionConfigSource \<Rightarrow> RevisionConfig" where
  "snapshotRevisionConfig svc =
     \<lparr> rc_runtime = every_option (runtimeOptionsFrom (Some (every_option (cs_runtime svc)))),
       rc_containerPort = cs_containerPort svc,
       rc_cpuLimit = cs_cpuLimit svc,
       rc_dnsResolvable = (if cs_networkMode svc = NetHost then False else cs_dnsResolvable svc),
       rc_envVars = or_else (cs_envVars svc) [],
       rc_memoryLimitMb = cs_memoryLimitMb svc,
       rc_networkMode = cs_networkMode svc,
       rc_portProtocol = cs_portProtocol svc,
       rc_exposedPorts = Some (cs_exposedPorts svc),
       rc_publishedPorts = Some (cs_publishedPorts svc),
       rc_replicas = cs_replicas svc,
       rc_volumeMounts = None \<rparr>"

section \<open>Comparing\<close>

definition js_array :: "('a \<Rightarrow> json) \<Rightarrow> 'a list \<Rightarrow> json" where
  "js_array f xs = JArr (map f xs)"

definition js_nullable :: "('a \<Rightarrow> json) \<Rightarrow> 'a option \<Rightarrow> json" where
  "js_nullable f v = (case v of Some x \<Rightarrow> f x | None \<Rightarrow> JNull)"

definition js_record :: "string js_map \<Rightarrow> json" where
  "js_record m = JObj (map (\<lambda>(k, v). (k, JStr v)) m)"

definition network_text :: "NetworkMode \<Rightarrow> string" where
  "network_text m = (case m of NetBridge \<Rightarrow> ''bridge'' | NetHost \<Rightarrow> ''host'')"

definition protocol_text :: "PortProtocol \<Rightarrow> string" where
  "protocol_text p = (case p of PortTcp \<Rightarrow> ''tcp'' | PortUdp \<Rightarrow> ''udp'' | PortBoth \<Rightarrow> ''both'')"

definition js_exposed :: "ExposedPort \<Rightarrow> json" where
  "js_exposed p = JObj [(''port'', JNum (ep_port p)), (''protocol'', JStr (protocol_text (ep_protocol p)))]"

definition js_published :: "PublishedPort \<Rightarrow> json" where
  "js_published p =
     JObj [(''containerPort'', JNum (pp_containerPort p)), (''hostPort'', JNum (pp_hostPort p)),
           (''protocol'', JStr (protocol_text (pp_protocol p)))]"

definition js_mount :: "VolumeMountSnapshot \<Rightarrow> json" where
  "js_mount m =
     JObj [(''containerPath'', JStr (vm_containerPath m)), (''readOnly'', JBool (vm_readOnly m)),
           (''volumeId'', JStr (vm_volumeId m))]"

text \<open>The keys of a configuration with their values, and those it has.\<close>

definition config_slots :: "RevisionConfig \<Rightarrow> (string \<times> json option) list" where
  "config_slots c =
       [(''capAdd'', map_option (js_array JStr) (po_capAdd (rc_runtime c))),
        (''command'', map_option (js_nullable (js_array JStr)) (po_command (rc_runtime c))),
        (''devices'', map_option (js_array JStr) (po_devices (rc_runtime c))),
        (''entrypoint'', map_option (js_nullable (js_array JStr)) (po_entrypoint (rc_runtime c))),
        (''envFiles'', map_option (js_array JStr) (po_envFiles (rc_runtime c))),
        (''labels'', map_option js_record (po_labels (rc_runtime c))),
        (''privileged'', map_option JBool (po_privileged (rc_runtime c))),
        (''runAsUser'', map_option (js_nullable JStr) (po_runAsUser (rc_runtime c))),
        (''containerPort'', Some (JNum (rc_containerPort c))),
        (''cpuLimit'', Some (js_nullable JStr (rc_cpuLimit c))),
        (''dnsResolvable'', Some (JBool (rc_dnsResolvable c))),
        (''envVars'', Some (js_record (rc_envVars c))),
        (''memoryLimitMb'', Some (js_nullable JNum (rc_memoryLimitMb c))),
        (''networkMode'', Some (JStr (network_text (rc_networkMode c)))),
        (''portProtocol'', Some (JStr (protocol_text (rc_portProtocol c)))),
        (''exposedPorts'', map_option (js_array js_exposed) (rc_exposedPorts c)),
        (''publishedPorts'', map_option (js_array js_published) (rc_publishedPorts c)),
        (''replicas'', Some (JNum (rc_replicas c))),
        (''volumeMounts'', map_option (js_array js_mount) (rc_volumeMounts c))]"

definition config_entries :: "RevisionConfig \<Rightarrow> (string \<times> json) list" where
  "config_entries c = List.map_filter (\<lambda>(k, v). map_option (Pair k) v) (config_slots c)"

definition config_field :: "RevisionConfig \<Rightarrow> string \<Rightarrow> json option" where
  "config_field c k = map_of (config_entries c) k"

text \<open>\<open>collate\<close> is \<open>localeCompare\<close>.\<close>

definition object_entries :: "json \<Rightarrow> (string \<times> json) list option" where
  "object_entries v =
     (case v of
        JObj kvs \<Rightarrow> Some kvs
      | JArr xs \<Rightarrow> Some (zip (map show_nat [0..<length xs]) xs)
      | _ \<Rightarrow> None)"

definition comparable :: "(string \<Rightarrow> string \<Rightarrow> int) \<Rightarrow> json option \<Rightarrow> json option" where
  "comparable collate v =
     (case v of
        None \<Rightarrow> None
      | Some x \<Rightarrow>
          (case object_entries x of
             Some kvs \<Rightarrow>
               Some (JArr (map (\<lambda>(k, w). JArr [JStr k, w])
                 (js_sort (\<lambda>a b. collate (fst a) (fst b)) kvs)))
           | None \<Rightarrow> Some x))"

definition sortedMounts :: "(string \<Rightarrow> string \<Rightarrow> int) \<Rightarrow> VolumeMountSnapshot list \<Rightarrow> VolumeMountSnapshot list" where
  "sortedMounts collate mounts =
     js_sort (\<lambda>a b. collate (vm_containerPath a) (vm_containerPath b)) mounts"

definition changedRevisionConfigFields ::
  "(string \<Rightarrow> string \<Rightarrow> int) \<Rightarrow> RevisionConfigSource \<Rightarrow> RevisionConfig \<Rightarrow> VolumeMountSnapshot list \<Rightarrow> string list" where
  "changedRevisionConfigFields collate current snapshot currentMounts =
     (let now = (snapshotRevisionConfig current)\<lparr>rc_volumeMounts := Some (sortedMounts collate currentMounts)\<rparr>;
          recorded =
            (case rc_volumeMounts snapshot of
               Some ms \<Rightarrow> snapshot\<lparr>rc_volumeMounts := Some (sortedMounts collate ms)\<rparr>
             | None \<Rightarrow> snapshot)
      in js_sort collate
           (filter (\<lambda>field. comparable collate (config_field now field) \<noteq> comparable collate (config_field recorded field))
              (map fst (config_entries snapshot))))"

section \<open>Restoring\<close>

definition restorableRuntimeOptions :: "RevisionConfig \<Rightarrow> PartialRuntimeOptions" where
  "restorableRuntimeOptions snapshot = rc_runtime snapshot"

text \<open>\<open>{...options, ...given}\<close>: the keys given replace the service's.\<close>

definition spread_options :: "ServiceRuntimeOptions \<Rightarrow> PartialRuntimeOptions \<Rightarrow> ServiceRuntimeOptions" where
  "spread_options r p =
     \<lparr> ro_capAdd = or_else (po_capAdd p) (ro_capAdd r),
       ro_command = or_else (po_command p) (ro_command r),
       ro_devices = or_else (po_devices p) (ro_devices r),
       ro_entrypoint = or_else (po_entrypoint p) (ro_entrypoint r),
       ro_envFiles = or_else (po_envFiles p) (ro_envFiles r),
       ro_labels = or_else (po_labels p) (ro_labels r),
       ro_privileged = or_else (po_privileged p) (ro_privileged r),
       ro_runAsUser = or_else (po_runAsUser p) (ro_runAsUser r) \<rparr>"

text \<open>What \<open>restoreRevisionConfig\<close> (\<open>src/lib/services/deploy/revision-step.ts\<close>) updates on the service.\<close>

definition restoredService :: "RevisionConfig \<Rightarrow> RevisionConfigSource \<Rightarrow> RevisionConfigSource" where
  "restoredService snapshot svc =
     \<lparr> cs_runtime = spread_options (cs_runtime svc) (restorableRuntimeOptions snapshot),
       cs_containerPort = rc_containerPort snapshot,
       cs_cpuLimit = rc_cpuLimit snapshot,
       cs_dnsResolvable = rc_dnsResolvable snapshot,
       cs_envVars = Some (rc_envVars snapshot),
       cs_memoryLimitMb = rc_memoryLimitMb snapshot,
       cs_networkMode = rc_networkMode snapshot,
       cs_portProtocol = rc_portProtocol snapshot,
       cs_exposedPorts = or_else (rc_exposedPorts snapshot) (cs_exposedPorts svc),
       cs_publishedPorts = or_else (rc_publishedPorts snapshot) (cs_publishedPorts svc),
       cs_replicas = rc_replicas snapshot \<rparr>"

end
