(* ===== verification/Revisions.thy ===== *)
theory Revisions
  imports Js_Sort Job_Worker Revision_Config
begin

text \<open>
  \<open>src/lib/revisions.ts\<close>, \<open>src/lib/deploy-trigger.ts\<close>, \<open>src/lib/image-ref.ts\<close>: which deployments are revisions,
  which one a rollback goes back to, how redeploys fold into the revision they redeployed, which images are kept, and
  the verdict on a fresh deployment's health. A row is a row of the \<open>deployment\<close> table
  (\<open>src/lib/server/db/schema.ts\<close>) without its user and container columns' uses; a JS date is its milliseconds. The
  text of a \<open>Date\<close> constructed from a string is the parameter \<open>parseDate\<close>, \<open>None\<close> for an invalid date, which
  compares false.
\<close>

datatype RevisionHealth = Watching | Healthy | Unhealthy | RolledBack
datatype BuildSource = SourceImage | SourceGit
datatype DeployTrigger = TManual | TCron | TPush | TPromote

record deploymentRow =
  rv_buildSource :: "BuildSource option"
  rv_configSnapshot :: "RevisionConfig option"
  rv_containerId :: "string option"
  rv_createdAt :: timestamp
  rv_environment :: string
  rv_errorMessage :: "string option"
  rv_finishedAt :: "timestamp option"
  rv_gitCommit :: "string option"
  rv_gitRef :: "string option"
  rv_health :: "RevisionHealth option"
  rv_healthReason :: "string option"
  rv_id :: string
  rv_imageDigest :: "string option"
  rv_imageId :: "string option"
  rv_imageRef :: "string option"
  rv_log :: "string option"
  rv_restoreConfig :: bool
  rv_rollbackOf :: "string option"
  rv_serviceId :: string
  rv_startedAt :: "timestamp option"
  rv_status :: DeploymentStatus
  rv_trigger :: "DeployTrigger option"
  rv_userId :: string

text \<open>A string or null as a condition.\<close>

definition given :: "string option \<Rightarrow> bool" where
  "given s \<longleftrightarrow> (case s of Some x \<Rightarrow> x \<noteq> [] | None \<Rightarrow> False)"

definition coalesce :: "'a option \<Rightarrow> 'a option \<Rightarrow> 'a option" where
  "coalesce a b = (case a of Some x \<Rightarrow> Some x | None \<Rightarrow> b)"

section \<open>Image references\<close>

text \<open>\<open>lastIndexOf\<close>, -1 when absent.\<close>

definition lastIndexOf :: "char \<Rightarrow> string \<Rightarrow> int" where
  "lastIndexOf c s =
     (if c \<in> set s then int (length s) - 1 - int (length (takeWhile (\<lambda>x. x \<noteq> c) (rev s))) else - 1)"

definition splitImageRef :: "string \<Rightarrow> string \<times> string" where
  "splitImageRef ref =
     (let bare = takeWhile (\<lambda>c. c \<noteq> CHR ''@'') ref;
          colon = lastIndexOf (CHR '':'') bare
      in if colon \<le> lastIndexOf (CHR ''/'') bare then (bare, ''latest'')
         else (let tag = drop (nat colon + 1) bare
               in (take (nat colon) bare, if tag = [] then ''latest'' else tag)))"

section \<open>Triggers\<close>

definition isRollback :: "string option \<Rightarrow> DeployTrigger option \<Rightarrow> bool" where
  "isRollback rollbackOf trigger \<longleftrightarrow> given rollbackOf \<and> trigger \<noteq> Some TPromote"

datatype HistoryTrigger = HRollback | HTrigger DeployTrigger

definition historyTrigger :: "string option \<Rightarrow> DeployTrigger option \<Rightarrow> HistoryTrigger option" where
  "historyTrigger rollbackOf trigger =
     (if isRollback rollbackOf trigger then Some HRollback else map_option HTrigger trigger)"

definition deployTriggerLabel :: "DeployTrigger \<Rightarrow> string" where
  "deployTriggerLabel t =
     (case t of TCron \<Rightarrow> ''Scheduled'' | TManual \<Rightarrow> ''Manual'' | TPromote \<Rightarrow> ''Promote'' | TPush \<Rightarrow> ''Git push'')"

definition historyTriggerLabel :: "HistoryTrigger option \<Rightarrow> string" where
  "historyTriggerLabel t =
     (case t of Some HRollback \<Rightarrow> ''Rollback'' | Some (HTrigger d) \<Rightarrow> deployTriggerLabel d | None \<Rightarrow> ''Deploy'')"

section \<open>Revisions\<close>

definition RETAINED_REVISIONS :: int where "RETAINED_REVISIONS = 5"
definition MIN_RETAINED_IMAGES :: int where "MIN_RETAINED_IMAGES = 1"
definition MAX_RETAINED_IMAGES :: int where "MAX_RETAINED_IMAGES = 50"

definition isRevision :: "deploymentRow \<Rightarrow> bool" where
  "isRevision row \<longleftrightarrow> given (rv_imageRef row) \<and> rv_status row \<in> {DRunning, DStopped}"

definition revisionImageKey :: "deploymentRow \<Rightarrow> string" where
  "revisionImageKey row =
     (case coalesce (rv_imageId row) (coalesce (rv_imageDigest row) (rv_imageRef row)) of
        Some k \<Rightarrow> k | None \<Rightarrow> rv_id row)"

definition newestFirst :: "deploymentRow list \<Rightarrow> deploymentRow list" where
  "newestFirst rows = js_sort (\<lambda>a b. rv_createdAt b - rv_createdAt a) rows"

definition isUnhealthy :: "deploymentRow \<Rightarrow> bool" where
  "isUnhealthy row \<longleftrightarrow> rv_health row = Some Unhealthy \<or> rv_health row = Some RolledBack"

definition rollsBackFrom :: "deploymentRow \<Rightarrow> deploymentRow \<Rightarrow> bool" where
  "rollsBackFrom current row \<longleftrightarrow>
     rv_createdAt row < rv_createdAt current \<and> revisionImageKey row \<noteq> revisionImageKey current \<and> \<not> isUnhealthy row"

definition previousRevision :: "deploymentRow list \<Rightarrow> string option \<Rightarrow> deploymentRow option" where
  "previousRevision rows currentId =
     (let revisions = filter isRevision (newestFirst rows);
          current =
            (if given currentId then List.find (\<lambda>row. rv_id row = the currentId) revisions
             else (case revisions of [] \<Rightarrow> None | r # _ \<Rightarrow> Some r))
      in case current of
           None \<Rightarrow> None
         | Some cur \<Rightarrow> List.find (rollsBackFrom cur) revisions)"

definition supersededHealth :: "RevisionHealth option \<Rightarrow> RevisionHealth option" where
  "supersededHealth health = (if health = Some Healthy \<or> health = Some Watching then None else health)"

section \<open>Folding redeploys\<close>

text \<open>\<open>new Map(rows.map((row) => [row.id, row]))\<close>: a later row replaces an earlier one.\<close>

definition byId :: "deploymentRow list \<Rightarrow> string \<Rightarrow> deploymentRow option" where
  "byId rows i = List.find (\<lambda>row. rv_id row = i) (rev rows)"

lemma byId_in: "byId rows i = Some r \<Longrightarrow> r \<in> set rows \<and> rv_id r = i"
  unfolding byId_def using find_Some_iff_first by fastforce

text \<open>The loop of \<open>revisionRoot\<close>, with the ids it has seen.\<close>

function rootFrom :: "deploymentRow list \<Rightarrow> string list \<Rightarrow> deploymentRow \<Rightarrow> deploymentRow" where
  "rootFrom rows seen root =
     (if given (rv_rollbackOf root) then
        (case byId rows (the (rv_rollbackOf root)) of
           None \<Rightarrow> root
         | Some parent \<Rightarrow>
             if rv_id parent \<in> set seen then root else rootFrom rows (rv_id parent # seen) parent)
      else root)"
  by pat_completeness auto
termination
proof (relation "measure (\<lambda>(rows, seen, root). length (filter (\<lambda>row. rv_id row \<notin> set seen) rows))")
  fix rows :: "deploymentRow list" and seen and root parent :: deploymentRow
  assume a: "byId rows (the (rv_rollbackOf root)) = Some parent" "rv_id parent \<notin> set seen"
  have "length (filter (\<lambda>row. rv_id row \<notin> set (rv_id parent # seen)) rows)
        < length (filter (\<lambda>row. rv_id row \<notin> set seen) rows)"
  proof (intro length_filter_less ballI impI)
    show "\<exists>x\<in>set rows. rv_id x \<notin> set seen \<and> \<not> rv_id x \<notin> set (rv_id parent # seen)"
      using byId_in[OF a(1)] a(2) by (intro bexI[of _ parent]) simp_all
  qed simp
  then show "((rows, rv_id parent # seen, parent), rows, seen, root)
             \<in> measure (\<lambda>(rows, seen, root). length (filter (\<lambda>row. rv_id row \<notin> set seen) rows))"
    by simp
qed simp

declare rootFrom.simps [simp del]

definition revisionRoot :: "deploymentRow list \<Rightarrow> deploymentRow \<Rightarrow> deploymentRow" where
  "revisionRoot rows row = rootFrom rows [rv_id row] row"

text \<open>\<open>groups\<close>: by the root's id, in the order first met; a group is its root and its runs, newest first.\<close>

type_synonym revisionGroup = "deploymentRow \<times> deploymentRow list"

definition addRun :: "deploymentRow list \<Rightarrow> deploymentRow \<Rightarrow> revisionGroup js_map \<Rightarrow> revisionGroup js_map" where
  "addRun ordered row groups =
     (let root = revisionRoot ordered row;
          g = (case map_of groups (rv_id root) of Some x \<Rightarrow> x | None \<Rightarrow> (root, []))
      in AList.update (rv_id root) (fst g, snd g @ [row]) groups)"

definition revisionGroups :: "deploymentRow list \<Rightarrow> revisionGroup js_map" where
  "revisionGroups ordered = fold (addRun ordered) ordered []"

record RevisionEntry =
  re_current :: bool
  re_health :: "RevisionHealth option"
  re_lastDeployed :: "deploymentRow option"
  re_latest :: deploymentRow
  re_previous :: bool
  re_redeployCount :: nat
  re_retained :: bool
  re_revision :: deploymentRow

text \<open>
  \<open>retainedRevisions\<close>: \<open>kept\<close> is what has been kept so far; the keys of a service in \<open>perService\<close> are the image keys of
  its kept rows.
\<close>

fun retainLoop :: "int \<Rightarrow> string list js_map \<Rightarrow> deploymentRow list \<Rightarrow> deploymentRow list" where
  "retainLoop limit perService [] = []"
| "retainLoop limit perService (row # rows) =
     (if \<not> isRevision row then retainLoop limit perService rows
      else
        (let keys = (case map_of perService (rv_serviceId row) of Some ks \<Rightarrow> ks | None \<Rightarrow> []);
             key = revisionImageKey row
         in if key \<in> set keys then retainLoop limit perService rows
            else if int (length keys) \<ge> limit then retainLoop limit perService rows
            else row # retainLoop limit (AList.update (rv_serviceId row) (keys @ [key]) perService) rows))"

definition retainedRevisions :: "deploymentRow list \<Rightarrow> int \<Rightarrow> deploymentRow list" where
  "retainedRevisions rows limit = retainLoop limit [] (newestFirst rows)"

definition revisionEntry ::
  "string list \<Rightarrow> deploymentRow option \<Rightarrow> deploymentRow option \<Rightarrow> revisionGroup \<Rightarrow> RevisionEntry" where
  "revisionEntry retainedKeys currentRoot previousRoot grp =
     (let root = fst grp;
          runs = snd grp;
          lastDeployed = List.find isRevision runs;
          current = (Some (rv_id root) = map_option rv_id currentRoot);
          health = Option.bind lastDeployed rv_health
      in \<lparr> re_current = current,
           re_health = (if current then health else supersededHealth health),
           re_lastDeployed = lastDeployed,
           re_latest = (case runs of r # _ \<Rightarrow> r | [] \<Rightarrow> root),
           re_previous =
             (Some (rv_id root) = map_option rv_id previousRoot
              \<and> map_option rv_id previousRoot \<noteq> map_option rv_id currentRoot),
           re_redeployCount = length (filter (\<lambda>run. rv_id run \<noteq> rv_id root) runs),
           re_retained =
             (case lastDeployed of Some r \<Rightarrow> revisionImageKey r \<in> set retainedKeys | None \<Rightarrow> False),
           re_revision = root \<rparr>)"

definition revisionEntries :: "deploymentRow list \<Rightarrow> bool \<Rightarrow> int \<Rightarrow> RevisionEntry list" where
  "revisionEntries rows deployed retainedLimit =
     (let ordered = newestFirst rows;
          groups = map snd (revisionGroups ordered);
          revisions = filter isRevision ordered;
          currentRow = (if deployed then (case revisions of r # _ \<Rightarrow> Some r | [] \<Rightarrow> None) else None);
          currentRoot = map_option (revisionRoot ordered) currentRow;
          previousRow = Option.bind currentRow (\<lambda>c. previousRevision revisions (Some (rv_id c)));
          previousRoot = map_option (revisionRoot ordered) previousRow;
          retainedKeys = map revisionImageKey (retainedRevisions revisions retainedLimit)
      in map (revisionEntry retainedKeys currentRoot previousRoot)
           (js_sort (\<lambda>a b. rv_createdAt (fst b) - rv_createdAt (fst a)) groups))"

definition revisionImageRefs :: "deploymentRow \<Rightarrow> string list" where
  "revisionImageRefs row =
     (let ids = (if given (rv_imageId row) then [the (rv_imageId row)] else [])
      in if \<not> given (rv_imageRef row) then ids
         else
           (case splitImageRef (the (rv_imageRef row)) of
              (repo, tag) \<Rightarrow>
                ids @ (if given (rv_imageDigest row) then [repo @ ''@'' @ the (rv_imageDigest row)] else [])
                    @ (if rv_buildSource row = Some SourceGit \<or> \<not> given (rv_imageDigest row)
                       then [repo @ '':'' @ tag] else [])))"

section \<open>Health of a fresh deployment\<close>

datatype ContainerHealth = HNone | HStarting | HHealthy | HUnhealthy
datatype ContainerState = CRunning | CRestarting | CExited | CCreated | CMissing

record containerSample =
  sa_exitCode :: "int option"
  sa_health :: ContainerHealth
  sa_healthOutput :: "string option"
  sa_restartCount :: int
  sa_state :: ContainerState

record swarmSample =
  sw_desired :: int
  sw_failed :: int
  sw_lastError :: "string option"
  sw_running :: int

datatype WorkloadHealthSample = OfContainer containerSample | OfSwarm swarmSample

record SwarmTaskLike =
  tk_CreatedAt :: "string option"
  tk_DesiredState :: "string option"
  tk_Err :: "string option"
  tk_State :: "string option"

definition failedTask :: "(string \<Rightarrow> timestamp option) \<Rightarrow> timestamp \<Rightarrow> SwarmTaskLike \<Rightarrow> bool" where
  "failedTask parseDate since task \<longleftrightarrow>
     (case (case tk_CreatedAt task of Some s \<Rightarrow> parseDate s | None \<Rightarrow> Some 0) of
        Some created \<Rightarrow> since \<le> created | None \<Rightarrow> False)
     \<and> (tk_State task = Some ''failed'' \<or> tk_State task = Some ''rejected'')"

definition swarmSampleFromTasks ::
  "(string \<Rightarrow> timestamp option) \<Rightarrow> SwarmTaskLike list \<Rightarrow> int \<Rightarrow> timestamp \<Rightarrow> swarmSample" where
  "swarmSampleFromTasks parseDate tasks desired since =
     (let failed = filter (failedTask parseDate since) tasks
      in \<lparr> sw_desired = desired,
           sw_failed = int (length failed),
           sw_lastError = (case rev failed of task # _ \<Rightarrow> tk_Err task | [] \<Rightarrow> None),
           sw_running = int (length (filter (\<lambda>task. tk_DesiredState task = Some ''running''
                                                     \<and> tk_State task = Some ''running'') tasks)) \<rparr>)"

text \<open>\<open>containerSampleFromInspect\<close> (\<open>src/lib/services/docker/rollout.ts\<close>) of \<open>docker inspect\<close>'s answer.\<close>

record inspectInfo =
  ii_RestartCount :: "int option"
  ii_ExitCode :: "int option"
  ii_HealthLog :: "string option list option"
  ii_HealthStatus :: "string option"
  ii_Status :: "string option"

definition containerState :: "string \<Rightarrow> ContainerState" where
  "containerState s =
     (if s = ''running'' then CRunning else if s = ''restarting'' then CRestarting
      else if s = ''created'' then CCreated else CExited)"

definition containerHealth :: "string \<Rightarrow> ContainerHealth" where
  "containerHealth s =
     (if s = ''starting'' then HStarting else if s = ''healthy'' then HHealthy
      else if s = ''unhealthy'' then HUnhealthy else HNone)"

definition lastOutput :: "inspectInfo \<Rightarrow> string option" where
  "lastOutput i =
     (case ii_HealthLog i of
        Some entries \<Rightarrow> (case rev entries of Some out # _ \<Rightarrow> (if trim out = [] then None else Some (trim out)) | _ \<Rightarrow> None)
      | None \<Rightarrow> None)"

definition containerSampleFromInspect :: "inspectInfo option \<Rightarrow> containerSample" where
  "containerSampleFromInspect info =
     (case info of
        None \<Rightarrow> \<lparr> sa_exitCode = None, sa_health = HNone, sa_healthOutput = None, sa_restartCount = 0, sa_state = CMissing \<rparr>
      | Some i \<Rightarrow>
          \<lparr> sa_exitCode = ii_ExitCode i,
            sa_health = (case ii_HealthStatus i of Some s \<Rightarrow> containerHealth s | None \<Rightarrow> HNone),
            sa_healthOutput = lastOutput i,
            sa_restartCount = (case ii_RestartCount i of Some n \<Rightarrow> n | None \<Rightarrow> 0),
            sa_state = (case ii_Status i of Some s \<Rightarrow> containerState s | None \<Rightarrow> CExited) \<rparr>)"

record HealthWindow =
  hw_maxWaitMs :: int
  hw_windowMs :: int

definition HEALTH_WINDOW :: HealthWindow where
  "HEALTH_WINDOW = \<lparr> hw_maxWaitMs = 5 * 60 * 1000, hw_windowMs = 90 * 1000 \<rparr>"

definition RESTART_LOOP_THRESHOLD :: int where "RESTART_LOOP_THRESHOLD = 2"
definition SWARM_FAILED_TASK_THRESHOLD :: int where "SWARM_FAILED_TASK_THRESHOLD = 2"

datatype HealthVerdict = VUnhealthy string | VHealthy | VPending

definition containerVerdict :: "containerSample \<Rightarrow> containerSample \<Rightarrow> int \<Rightarrow> HealthWindow \<Rightarrow> HealthVerdict" where
  "containerVerdict baseline sample elapsedMs window =
     (let restarts = sa_restartCount sample - sa_restartCount baseline
      in if sa_state sample = CMissing then VUnhealthy ''The container disappeared.''
         else if restarts \<ge> RESTART_LOOP_THRESHOLD then
           VUnhealthy (''The container restarted '' @ show_int restarts @ '' times (restart loop).'')
         else if sa_state sample = CExited then
           VUnhealthy (''The container exited with code '' @
             (case sa_exitCode sample of Some c \<Rightarrow> show_int c | None \<Rightarrow> ''unknown'') @ ''.'')
         else if sa_health sample = HUnhealthy then
           VUnhealthy (''The healthcheck is failing'' @
             (if given (sa_healthOutput sample) then '': '' @ the (sa_healthOutput sample) else ''.''))
         else if elapsedMs < hw_windowMs window then VPending
         else if sa_health sample = HStarting \<or> sa_state sample = CRestarting then
           (if elapsedMs < hw_maxWaitMs window then VPending else VUnhealthy ''The healthcheck never passed.'')
         else VHealthy)"

definition swarmVerdict :: "swarmSample \<Rightarrow> int \<Rightarrow> HealthWindow \<Rightarrow> HealthVerdict" where
  "swarmVerdict sample elapsedMs window =
     (if sw_failed sample \<ge> SWARM_FAILED_TASK_THRESHOLD then
        VUnhealthy (show_int (sw_failed sample) @ '' swarm tasks failed'' @
          (if given (sw_lastError sample) then '': '' @ the (sw_lastError sample) else ''.''))
      else if elapsedMs < hw_windowMs window then VPending
      else if sw_running sample \<ge> sw_desired sample then VHealthy
      else if elapsedMs < hw_maxWaitMs window then VPending
      else VUnhealthy (''Only '' @ show_int (sw_running sample) @ '' of '' @ show_int (sw_desired sample) @
             '' swarm tasks are running.''))"

record ReadinessSample =
  rs_detail :: string
  rs_ok :: bool

definition withReadiness :: "HealthVerdict \<Rightarrow> ReadinessSample option \<Rightarrow> int \<Rightarrow> HealthWindow \<Rightarrow> HealthVerdict" where
  "withReadiness verdict readiness elapsedMs window =
     (case readiness of
        None \<Rightarrow> verdict
      | Some r \<Rightarrow>
          if verdict \<noteq> VHealthy \<or> rs_ok r then verdict
          else if elapsedMs < hw_maxWaitMs window then VPending
          else VUnhealthy (''It never became ready: '' @ rs_detail r @ '' on its own port.''))"

definition healthVerdict ::
  "WorkloadHealthSample \<Rightarrow> WorkloadHealthSample \<Rightarrow> int \<Rightarrow> HealthWindow \<Rightarrow> HealthVerdict" where
  "healthVerdict baseline sample elapsedMs window =
     (case sample of
        OfSwarm s \<Rightarrow> swarmVerdict s elapsedMs window
      | OfContainer c \<Rightarrow>
          containerVerdict (case baseline of OfContainer b \<Rightarrow> b | OfSwarm _ \<Rightarrow> c) c elapsedMs window)"

end
