(* ===== verification/Revision_Health.thy ===== *)
theory Revision_Health
  imports Revisions Notifications
begin

text \<open>
  The rows a revision lives in and what watches them: the statements of \<open>src/lib/dto/deployment-dto.ts\<close>,
  \<open>src/lib/services/revision.service.ts\<close>, \<open>src/lib/services/revision-health.service.ts\<close>,
  \<open>revisionHealthMessage\<close> of \<open>src/lib/services/notification-messages.ts\<close> and \<open>recordSuccess\<close> of
  \<open>src/lib/services/deploy.service.ts\<close> as far as it writes deployments. A table is a list of rows. A \<open>DeploymentDTO\<close> is
  its own copy of its row, which a statement by another instance does not refresh. What the watch reads at a poll
  (the tables as they are then, the sample, the answer of the probe, the clock) is the poll's argument, so any other
  writer may come in between; server logging is left out. Docker's answers are arguments.
\<close>

type_synonym deployments = "deploymentRow list"

section \<open>Statements\<close>

definition getDeployment :: "string \<Rightarrow> deployments \<Rightarrow> deploymentRow option" where
  "getDeployment i t = List.find (\<lambda>r. rv_id r = i) t"

definition getForService :: "string \<Rightarrow> string \<Rightarrow> deployments \<Rightarrow> deploymentRow option" where
  "getForService s i t = List.find (\<lambda>r. rv_id r = i \<and> rv_serviceId r = s) t"

definition listDeployments :: "string \<Rightarrow> nat \<Rightarrow> deployments \<Rightarrow> deploymentRow list" where
  "listDeployments s limit t = take limit (newestFirst (filter (\<lambda>r. rv_serviceId r = s) t))"

text \<open>\<open>isNotNull(imageRef)\<close>: an empty reference counts, unlike in \<open>isRevision\<close>.\<close>

definition succeededRow :: "deploymentRow \<Rightarrow> bool" where
  "succeededRow r \<longleftrightarrow> rv_imageRef r \<noteq> None \<and> rv_status r \<in> {DRunning, DStopped}"

definition listRevisions :: "string \<Rightarrow> deployments \<Rightarrow> deploymentRow list" where
  "listRevisions s t = take 50 (newestFirst (filter (\<lambda>r. rv_serviceId r = s \<and> succeededRow r) t))"

definition listByIdsForService :: "string \<Rightarrow> string list \<Rightarrow> deployments \<Rightarrow> deploymentRow list" where
  "listByIdsForService s ids t = filter (\<lambda>r. rv_serviceId r = s \<and> rv_id r \<in> set ids) t"

definition listWatching :: "deployments \<Rightarrow> deploymentRow list" where
  "listWatching t = filter (\<lambda>r. rv_health r = Some Watching) t"

definition listRetainedRevisions :: "int \<Rightarrow> deployments \<Rightarrow> deploymentRow list" where
  "listRetainedRevisions retainedImagesPerService t =
     retainedRevisions (newestFirst (filter succeededRow t)) retainedImagesPerService"

definition updateRow :: "string \<Rightarrow> (deploymentRow \<Rightarrow> deploymentRow) \<Rightarrow> deployments \<Rightarrow> deployments" where
  "updateRow i f t = map (\<lambda>r. if rv_id r = i then f r else r) t"

definition isLive :: "deploymentRow \<Rightarrow> bool" where
  "isLive r \<longleftrightarrow> rv_health r = Some Healthy \<or> rv_health r = Some Watching"

definition clearSupersededHealth :: "string \<Rightarrow> string \<Rightarrow> deployments \<Rightarrow> deployments" where
  "clearSupersededHealth s current t =
     map (\<lambda>r. if rv_serviceId r = s \<and> rv_id r \<noteq> current \<and> isLive r then r\<lparr>rv_health := None\<rparr> else r) t"

text \<open>\<open>selectDistinctOn\<close>: a service's newest running or stopped row, if it has a health.\<close>

definition currentHealth :: "string \<Rightarrow> deployments \<Rightarrow> (RevisionHealth \<times> string option) option" where
  "currentHealth s t =
     (case newestFirst (filter (\<lambda>r. rv_serviceId r = s \<and> rv_status r \<in> {DRunning, DStopped}) t) of
        r # _ \<Rightarrow> map_option (\<lambda>h. (h, rv_healthReason r)) (rv_health r)
      | [] \<Rightarrow> None)"

text \<open>\<open>settleHealth\<close> of an instance: whether the row was still being watched, the instance and the table.\<close>

definition settleHealth ::
  "deploymentRow \<Rightarrow> RevisionHealth option \<Rightarrow> string option \<Rightarrow> deployments \<Rightarrow> bool \<times> deploymentRow \<times> deployments" where
  "settleHealth dep health reason t =
     (let match = (\<lambda>r. rv_id r = rv_id dep \<and> rv_health r = Some Watching)
      in if filter match t = [] then (False, dep, t)
         else (True, dep\<lparr>rv_health := health, rv_healthReason := reason\<rparr>,
               map (\<lambda>r. if match r then r\<lparr>rv_health := health, rv_healthReason := reason\<rparr> else r) t))"

definition appendRowLog :: "string \<Rightarrow> deploymentRow \<times> deployments \<Rightarrow> deploymentRow \<times> deployments" where
  "appendRowLog line dt =
     (let next = (case rv_log (fst dt) of Some l \<Rightarrow> l | None \<Rightarrow> []) @ line @ [CHR 10]
      in ((fst dt)\<lparr>rv_log := Some next\<rparr>, updateRow (rv_id (fst dt)) (\<lambda>r. r\<lparr>rv_log := Some next\<rparr>) (snd dt)))"

record ResolvedImage =
  ri_digest :: "string option"
  ri_image :: string
  ri_imageId :: "string option"
  ri_tag :: string

text \<open>
  The two writes of \<open>recordSuccess\<close>: the deployment's row, then the other rows of its service. \<open>resolved.tag\<close> may carry a
  digest after an \<open>@\<close>.
\<close>

definition publishRow ::
  "timestamp \<Rightarrow> BuildSource \<Rightarrow> string option \<Rightarrow> string option \<Rightarrow> ResolvedImage \<Rightarrow> deploymentRow \<Rightarrow> deploymentRow" where
  "publishRow now buildSource containerId swarmServiceId resolved r =
     (let pieces = split_on (CHR ''@'') (ri_tag resolved);
          plainTag = hd pieces;
          pinnedDigest = (case tl pieces of d # _ \<Rightarrow> Some d | [] \<Rightarrow> None)
      in r\<lparr> rv_buildSource := Some buildSource,
            rv_containerId := coalesce (coalesce containerId swarmServiceId) (rv_containerId r),
            rv_finishedAt := Some now,
            rv_health := Some Watching,
            rv_imageDigest := (if given (ri_digest resolved) then ri_digest resolved
                               else if given pinnedDigest then pinnedDigest else None),
            rv_imageId := ri_imageId resolved,
            rv_imageRef := Some (ri_image resolved @ '':'' @ plainTag),
            rv_status := DRunning \<rparr>)"

definition recordSuccess ::
  "timestamp \<Rightarrow> BuildSource \<Rightarrow> string option \<Rightarrow> string option \<Rightarrow> ResolvedImage \<Rightarrow> deploymentRow \<Rightarrow> deployments \<Rightarrow>
   deployments" where
  "recordSuccess now src containerId swarmServiceId resolved dep t =
     clearSupersededHealth (rv_serviceId dep) (rv_id dep)
       (updateRow (rv_id dep)
         (publishRow now (case rv_buildSource dep of Some b \<Rightarrow> b | None \<Rightarrow> src) containerId swarmServiceId resolved) t)"

section \<open>The revisions of a service\<close>

definition MAX_ROOT_DEPTH :: nat where "MAX_ROOT_DEPTH = 10"

text \<open>\<open>withRoots\<close>, with the levels left.\<close>

fun withRoots :: "nat \<Rightarrow> string \<Rightarrow> deployments \<Rightarrow> deploymentRow list \<Rightarrow> deploymentRow list" where
  "withRoots 0 s t rows = rows"
| "withRoots (Suc left) s t rows =
     (let missing = js_unique (map (\<lambda>r. the (rv_rollbackOf r))
            (filter (\<lambda>r. given (rv_rollbackOf r) \<and> the (rv_rollbackOf r) \<notin> rv_id ` set rows) rows));
          loaded = listByIdsForService s missing t
      in if missing = [] \<or> loaded = [] then rows else withRoots left s t (rows @ loaded))"

record RevisionView =
  vw_buildSource :: "BuildSource option"
  vw_createdAt :: timestamp
  vw_current :: bool
  vw_deployable :: bool
  vw_environment :: string
  vw_errorMessage :: "string option"
  vw_finishedAt :: "timestamp option"
  vw_gitCommit :: "string option"
  vw_gitRef :: "string option"
  vw_hasConfigSnapshot :: bool
  vw_health :: "RevisionHealth option"
  vw_healthReason :: "string option"
  vw_id :: string
  vw_imageDigest :: "string option"
  vw_imageId :: "string option"
  vw_imageRef :: "string option"
  vw_lastDeployedAt :: "timestamp option"
  vw_latestDeploymentId :: string
  vw_log :: string
  vw_previous :: bool
  vw_redeployCount :: nat
  vw_retained :: bool
  vw_startedAt :: "timestamp option"
  vw_status :: DeploymentStatus

definition viewEntry :: "RevisionEntry \<Rightarrow> RevisionView" where
  "viewEntry entry =
     (let lastDeployed = re_lastDeployed entry; latest = re_latest entry; revision = re_revision entry
      in \<lparr> vw_buildSource = rv_buildSource revision,
           vw_createdAt = rv_createdAt revision,
           vw_current = re_current entry,
           vw_deployable = isRevision revision,
           vw_environment = rv_environment revision,
           vw_errorMessage = rv_errorMessage latest,
           vw_finishedAt = rv_finishedAt latest,
           vw_gitCommit = rv_gitCommit revision,
           vw_gitRef = rv_gitRef revision,
           vw_hasConfigSnapshot = (rv_configSnapshot revision \<noteq> None),
           vw_health = re_health entry,
           vw_healthReason =
             (if re_health entry = Some Unhealthy \<or> re_health entry = Some RolledBack
              then Option.bind lastDeployed rv_healthReason else None),
           vw_id = rv_id revision,
           vw_imageDigest = rv_imageDigest revision,
           vw_imageId = rv_imageId revision,
           vw_imageRef = rv_imageRef revision,
           vw_lastDeployedAt =
             map_option (\<lambda>r. case rv_finishedAt r of Some f \<Rightarrow> f | None \<Rightarrow> rv_createdAt r) lastDeployed,
           vw_latestDeploymentId = rv_id latest,
           vw_log = (case rv_log latest of Some l \<Rightarrow> l | None \<Rightarrow> []),
           vw_previous = re_previous entry,
           vw_redeployCount = re_redeployCount entry,
           vw_retained = re_retained entry,
           vw_startedAt = rv_startedAt latest,
           vw_status = rv_status latest \<rparr>)"

record ServiceWorkload =
  wl_id :: string
  wl_containerId :: "string option"
  wl_swarmServiceId :: "string option"

definition annotate :: "ServiceWorkload \<Rightarrow> deploymentRow list \<Rightarrow> int \<Rightarrow> RevisionView list" where
  "annotate svc rows retainedLimit =
     map viewEntry (revisionEntries rows (given (wl_containerId svc) \<or> given (wl_swarmServiceId svc)) retainedLimit)"

definition viewRevisions :: "int \<Rightarrow> deployments \<Rightarrow> ServiceWorkload \<Rightarrow> deploymentRow list \<Rightarrow> RevisionView list" where
  "viewRevisions retained t svc rows = annotate svc (withRoots MAX_ROOT_DEPTH (wl_id svc) t rows) retained"

definition listView :: "int \<Rightarrow> deployments \<Rightarrow> ServiceWorkload \<Rightarrow> RevisionView list" where
  "listView retained t svc = viewRevisions retained t svc (listRevisions (wl_id svc) t)"

definition historyView :: "int \<Rightarrow> nat \<Rightarrow> deployments \<Rightarrow> ServiceWorkload \<Rightarrow> RevisionView list" where
  "historyView retained limit t svc = viewRevisions retained t svc (listDeployments (wl_id svc) limit t)"

definition retainedImageIds :: "(string \<Rightarrow> string option) \<Rightarrow> int \<Rightarrow> deployments \<Rightarrow> string list" where
  "retainedImageIds localImageId retained t =
     js_unique (filter (\<lambda>i. i \<noteq> [])
       (List.map_filter localImageId (concat (map revisionImageRefs (listRetainedRevisions retained t)))))"

text \<open>\<open>root\<close>, with the levels left.\<close>

fun rootWalk :: "nat \<Rightarrow> string \<Rightarrow> deployments \<Rightarrow> deploymentRow \<Rightarrow> deploymentRow" where
  "rootWalk 0 s t r = r"
| "rootWalk (Suc left) s t r =
     (if given (rv_rollbackOf r) then
        (case getForService s (the (rv_rollbackOf r)) t of
           Some parent \<Rightarrow> rootWalk left s t parent
         | None \<Rightarrow> r)
      else r)"

datatype RevisionError = RevisionError string int

definition resolveTarget :: "int \<Rightarrow> deployments \<Rightarrow> ServiceWorkload \<Rightarrow> string option \<Rightarrow> RevisionError + deploymentRow" where
  "resolveTarget retained t svc revisionId =
     (if given revisionId then
        (case map_option (rootWalk MAX_ROOT_DEPTH (wl_id svc) t) (getForService (wl_id svc) (the revisionId) t) of
           Some revision \<Rightarrow>
             if isRevision revision then Inr revision
             else Inl (RevisionError ''That revision wasn't found, or never ran successfully.'' 404)
         | None \<Rightarrow> Inl (RevisionError ''That revision wasn't found, or never ran successfully.'' 404))
      else
        (case List.find vw_previous (listView retained t svc) of
           None \<Rightarrow> Inl (RevisionError ''There's no previous revision with a different image to roll back to.'' 400)
         | Some previous \<Rightarrow>
             (case getForService (wl_id svc) (vw_id previous) t of
                Some revision \<Rightarrow> Inr revision
              | None \<Rightarrow> Inl (RevisionError ''That revision wasn't found.'' 404))))"

section \<open>The health watch\<close>

record watchedService =
  ws_id :: string
  ws_name :: string
  ws_containerId :: "string option"
  ws_swarmServiceId :: "string option"
  ws_autoRollback :: bool
  ws_desiredStopped :: bool
  ws_healthcheckDisabled :: bool
  ws_dnsResolvable :: bool
  ws_networkMode :: NetworkMode

record probeResult =
  pr_detail :: "string option"
  pr_ok :: bool
  pr_target :: "string option"

text \<open>\<open>readiness\<close>: the probe's answer, \<open>None\<close> when it threw.\<close>

definition readiness :: "watchedService \<Rightarrow> probeResult option \<Rightarrow> ReadinessSample option" where
  "readiness svc probe =
     (if ws_healthcheckDisabled svc \<or> \<not> ws_dnsResolvable svc \<or> ws_networkMode svc = NetHost then None
      else (case probe of
              None \<Rightarrow> None
            | Some r \<Rightarrow>
                (case pr_target r of
                   Some target \<Rightarrow>
                     if starts_with ''http://'' target
                     then Some \<lparr> rs_detail = (case pr_detail r of Some d \<Rightarrow> d | None \<Rightarrow> ''no answer''), rs_ok = pr_ok r \<rparr>
                     else None
                 | None \<Rightarrow> None)))"

record poll =
  po_deployments :: deployments
  po_service :: "watchedService option"
  po_sample :: WorkloadHealthSample
  po_probe :: "probeResult option"
  po_now :: timestamp

record RevisionWatch =
  wa_deploymentId :: string
  wa_serviceId :: string
  wa_userId :: string
  wa_startedAt :: timestamp
  wa_containerId :: "string option"
  wa_swarmServiceId :: "string option"
  wa_baseline :: WorkloadHealthSample

definition stillCurrent :: "RevisionWatch \<Rightarrow> poll \<Rightarrow> watchedService option" where
  "stillCurrent input p =
     (case po_service p of
        None \<Rightarrow> None
      | Some svc \<Rightarrow>
          if map_option rv_id (case listDeployments (wa_serviceId input) 1 (po_deployments p) of r # _ \<Rightarrow> Some r | [] \<Rightarrow> None)
               \<noteq> Some (wa_deploymentId input)
             \<or> ws_containerId svc \<noteq> wa_containerId input \<or> ws_swarmServiceId svc \<noteq> wa_swarmServiceId input
             \<or> ws_desiredStopped svc then None
          else Some svc)"

datatype watchEnd =
    NotCurrent
  | FoundHealthy
  | FoundUnhealthy watchedService string

definition pollVerdict :: "RevisionWatch \<Rightarrow> watchedService \<Rightarrow> poll \<Rightarrow> HealthVerdict" where
  "pollVerdict input svc p =
     (let elapsedMs = po_now p - wa_startedAt input;
          verdict = healthVerdict (wa_baseline input) (po_sample p) elapsedMs HEALTH_WINDOW
      in if verdict = VHealthy then withReadiness verdict (readiness svc (po_probe p)) elapsedMs HEALTH_WINDOW
         else verdict)"

text \<open>The loop of \<open>run\<close> over what each poll reads; \<open>None\<close> while it goes on.\<close>

fun watchLoop :: "RevisionWatch \<Rightarrow> poll list \<Rightarrow> (watchEnd \<times> poll list) option" where
  "watchLoop input [] = None"
| "watchLoop input (p # ps) =
     (case stillCurrent input p of
        None \<Rightarrow> Some (NotCurrent, ps)
      | Some svc \<Rightarrow>
          (case pollVerdict input svc p of
             VPending \<Rightarrow> watchLoop input ps
           | VHealthy \<Rightarrow> Some (FoundHealthy, ps)
           | VUnhealthy reason \<Rightarrow> Some (FoundUnhealthy svc reason, ps)))"

definition rollbackTarget :: "watchedService \<Rightarrow> deploymentRow \<Rightarrow> deployments \<Rightarrow> string option \<times> deploymentRow option" where
  "rollbackTarget svc dep t =
     (if \<not> ws_autoRollback svc then
        (Some ''Auto-rollback is off for this service, so it was left running.'', None)
      else if isRollback (rv_rollbackOf dep) (rv_trigger dep) then
        (Some ''This revision was itself a rollback, so it isn't rolled back again.'', None)
      else
        (let revisions = listRevisions (ws_id svc) t;
             target = map_option (revisionRoot revisions) (previousRevision revisions (Some (rv_id dep)))
         in (if target \<noteq> None then None
             else Some ''Auto-rollback is on, but there's no previous healthy revision to roll back to.'', target)))"

definition revisionLabel :: "deploymentRow \<Rightarrow> string" where
  "revisionLabel r =
     (case rv_imageRef r of Some i \<Rightarrow> i | None \<Rightarrow> take 8 (rv_id r)) @
     (if given (rv_gitCommit r) then '' @ '' @ take 7 (the (rv_gitCommit r)) else [])"

definition revisionHealthMessage ::
  "string option \<Rightarrow> string \<Rightarrow> deploymentRow \<Rightarrow> deploymentRow option \<Rightarrow> watchedService \<Rightarrow> string option \<Rightarrow> string \<Rightarrow> ChannelMessage" where
  "revisionHealthMessage origin reason revision rolledBackTo svc skipReason time =
     \<lparr> cm_detail = Some (join [CHR 10, CHR 10] (filter (\<lambda>s. s \<noteq> []) (reason # (case skipReason of Some s \<Rightarrow> [s] | None \<Rightarrow> [])))),
       cm_event = (if rolledBackTo \<noteq> None then ''deploy.rolled_back'' else ''deploy.unhealthy''),
       cm_fields =
         \<lparr> mf_inline = None, mf_name = ''Unhealthy revision'', mf_value = revisionLabel revision \<rparr> #
         (case rolledBackTo of
            Some r \<Rightarrow> [\<lparr> mf_inline = None, mf_name = ''Rolled back to'', mf_value = revisionLabel r \<rparr>] | None \<Rightarrow> []),
       cm_link = dashboardLink origin (''/services/'' @ ws_id svc @ ''/environments/revisions''),
       cm_serviceId = Some (ws_id svc),
       cm_serviceName = Some (ws_name svc),
       cm_timestamp = time,
       cm_title =
         (if rolledBackTo \<noteq> None then ws_name svc @ '' was rolled back: the new revision is unhealthy''
          else ws_name svc @ [CHR 39] @ ''s new revision is unhealthy'') \<rparr>"

datatype watchEffect =
    EnqueueRollback string string
  | NotifyInApp NewNotificationInput
  | NotifyChannels ChannelMessage

text \<open>
  \<open>unhealthy\<close>: \<open>before\<close> is the table the rollback target is read from, \<open>t\<close> the one the outcome is written to. The effects
  come after the writes, in order.
\<close>

definition finishUnhealthy ::
  "string option \<Rightarrow> string \<Rightarrow> RevisionWatch \<Rightarrow> watchedService \<Rightarrow> string \<Rightarrow> deployments \<Rightarrow> deploymentRow \<Rightarrow> deployments \<Rightarrow>
   watchEffect list \<times> deployments" where
  "finishUnhealthy origin time input svc reason before dep t =
     (case rollbackTarget svc dep before of
        (skipReason, target) \<Rightarrow>
          (case settleHealth dep (Some (if target \<noteq> None then RolledBack else Unhealthy)) (Some reason) t of
             (False, _, _) \<Rightarrow> ([], t)
           | (True, dep1, t1) \<Rightarrow>
               (let dt = appendRowLog (''Revision unhealthy: '' @ reason) (dep1, t1);
                    dt' = (case target of
                             Some r \<Rightarrow> appendRowLog (''Auto-rollback: redeploying revision '' @ take 8 (rv_id r) @ '' ('' @
                                          (case rv_imageRef r of Some i \<Rightarrow> i | None \<Rightarrow> ''null'') @ '').'') dt
                           | None \<Rightarrow> if given skipReason then appendRowLog (the skipReason) dt else dt)
                in ((case target of Some r \<Rightarrow> [EnqueueRollback (rv_id r) (wa_userId input)] | None \<Rightarrow> []) @
                    [NotifyInApp \<lparr> nn_detail = None,
                       nn_message = (case target of
                          Some r \<Rightarrow> [CHR 34] @ ws_name svc @ [CHR 34] @ '' was rolled back to '' @
                                    (case rv_imageRef r of Some i \<Rightarrow> i | None \<Rightarrow> ''null'') @ '': '' @ reason
                        | None \<Rightarrow> [CHR 34] @ ws_name svc @ [CHR 34] @ [CHR 39] @ ''s new revision is unhealthy: '' @ reason),
                       nn_serviceId = Some (ws_id svc),
                       nn_type = (if target \<noteq> None then ''deploy_rolled_back'' else ''deploy_unhealthy'') \<rparr>,
                     NotifyChannels (revisionHealthMessage origin reason (fst dt') target svc skipReason time)],
                    snd dt'))))"

text \<open>\<open>run\<close> once its loop has ended; \<open>finished\<close> is the clock's reading for the log line.\<close>

definition finishWatch ::
  "string option \<Rightarrow> string \<Rightarrow> timestamp \<Rightarrow> RevisionWatch \<Rightarrow> watchEnd \<Rightarrow> deployments \<Rightarrow> deploymentRow \<Rightarrow> deployments \<Rightarrow>
   watchEffect list \<times> deployments" where
  "finishWatch origin time finished input ended before dep t =
     (case ended of
        NotCurrent \<Rightarrow> ([], snd (snd (settleHealth dep None None t)))
      | FoundHealthy \<Rightarrow>
          (case settleHealth dep (Some Healthy) None t of
             (False, _, _) \<Rightarrow> ([], t)
           | (True, dt) \<Rightarrow>
               ([], snd (appendRowLog (''Revision healthy after '' @
                      show_int ((finished - wa_startedAt input + 500) div 1000) @ ''s.'') dt)))
      | FoundUnhealthy svc reason \<Rightarrow> finishUnhealthy origin time input svc reason before dep t)"

section \<open>Starting watches\<close>

text \<open>\<open>watch\<close>: the watched ids of the process, and whether a watch starts.\<close>

definition beginWatch :: "string \<Rightarrow> string list \<Rightarrow> bool \<times> string list" where
  "beginWatch i watches = (if i \<in> set watches then (False, watches) else (True, watches @ [i]))"

text \<open>\<open>resume\<close>: the deployments watched after a boot and since when, and the ids watched then.\<close>

definition resumeWatches :: "deployments \<Rightarrow> string list \<Rightarrow> (string \<times> timestamp) list \<times> string list" where
  "resumeWatches t watches =
     fold (\<lambda>row (started, ws).
             (case beginWatch (rv_id row) ws of
                (True, ws') \<Rightarrow> (started @ [(rv_id row, case rv_finishedAt row of Some f \<Rightarrow> f | None \<Rightarrow> rv_createdAt row)], ws')
              | (False, ws') \<Rightarrow> (started, ws')))
       (listWatching t) ([], watches)"

end
