(* ===== verification/Revision_Theorems.thy ===== *)
theory Revision_Theorems
  imports Revisions
begin

text \<open>
  Properties of \<open>src/lib/revisions.ts\<close> and \<open>src/lib/revision-config.ts\<close>: the rollback target is the newest candidate,
  redeploys fold into one entry each, the images kept are the newest distinct ones of each service, what a revision
  recorded is put back exactly, and the verdict on a workload's health.
\<close>

section \<open>The order of rows\<close>

lemma newest_comparator: "comparator (\<lambda>a b. rv_createdAt b - rv_createdAt a)"
  using comparator_swap[OF comparator_diff[of rv_createdAt]] by simp

lemma set_newestFirst [simp]: "set (newestFirst rows) = set rows"
  by (simp add: newestFirst_def)

lemma mset_newestFirst [simp]: "mset (newestFirst rows) = mset rows"
  by (simp add: newestFirst_def)

lemma distinct_newestFirst [simp]: "distinct (map rv_id (newestFirst rows)) = distinct (map rv_id rows)"
  by (simp add: newestFirst_def)

lemma sorted_newestFirst: "sorted_wrt (\<lambda>a b. rv_createdAt b \<le> rv_createdAt a) (newestFirst rows)"
  using sorted_js_sort[OF newest_comparator, of rows] by (simp add: newestFirst_def)

lemma newestFirst_filter: "newestFirst (filter P rows) = filter P (newestFirst rows)"
  by (simp add: newestFirst_def filter_js_sort[OF newest_comparator])

lemma newestFirst_idem [simp]: "newestFirst (newestFirst rows) = newestFirst rows"
  using js_sort_id[OF sorted_js_sort[OF newest_comparator]] by (simp add: newestFirst_def)

lemma find_sorted:
  assumes "sorted_wrt (\<lambda>a b. rv_createdAt b \<le> rv_createdAt a) rows" "List.find P rows = Some r"
  shows "r \<in> set rows \<and> P r \<and> (\<forall>x \<in> set rows. P x \<longrightarrow> rv_createdAt x \<le> rv_createdAt r)"
  using assms by (induction rows) (auto split: if_splits)

lemma same_id: "distinct (map rv_id rows) \<Longrightarrow> a \<in> set rows \<Longrightarrow> b \<in> set rows \<Longrightarrow> rv_id a = rv_id b \<Longrightarrow> a = b"
  by (metis distinct_map inj_onD)

section \<open>The rollback target\<close>

lemma previousRevision_spec:
  assumes d: "distinct (map rv_id rows)" and cur: "cur \<in> set rows" "isRevision cur" "rv_id cur \<noteq> []"
  shows "previousRevision rows (Some (rv_id cur)) = List.find (rollsBackFrom cur) (filter isRevision (newestFirst rows))"
proof -
  let ?revs = "filter isRevision (newestFirst rows)"
  obtain c where c: "List.find (\<lambda>row. rv_id row = rv_id cur) ?revs = Some c"
    using cur by (cases "List.find (\<lambda>row. rv_id row = rv_id cur) ?revs") (auto simp: find_None_iff)
  then have "c \<in> set rows" "rv_id c = rv_id cur" using find_Some_iff_first[OF c] by auto
  then have "c = cur" using same_id[OF d] cur(1) by blast
  then show ?thesis using c cur(3) by (simp add: previousRevision_def given_def Let_def)
qed

text \<open>
  C30. The rollback target of a deployment is a revision created before it, with another image, not marked unhealthy or
  rolled back, and no newer such revision exists; there is no target exactly when there is no such revision.
\<close>

theorem previousRevision_exact:
  assumes "distinct (map rv_id rows)" "cur \<in> set rows" "isRevision cur" "rv_id cur \<noteq> []"
  shows "case previousRevision rows (Some (rv_id cur)) of
           Some r \<Rightarrow>
             r \<in> set rows \<and> isRevision r \<and> rv_createdAt r < rv_createdAt cur
             \<and> revisionImageKey r \<noteq> revisionImageKey cur \<and> rv_health r \<notin> {Some Unhealthy, Some RolledBack}
             \<and> (\<forall>r' \<in> set rows. isRevision r' \<longrightarrow> rollsBackFrom cur r' \<longrightarrow> rv_createdAt r' \<le> rv_createdAt r)
         | None \<Rightarrow> \<forall>r' \<in> set rows. isRevision r' \<longrightarrow> \<not> rollsBackFrom cur r'"
proof (cases "previousRevision rows (Some (rv_id cur))")
  case None
  then have "List.find (rollsBackFrom cur) (filter isRevision (newestFirst rows)) = None"
    using previousRevision_spec[OF assms] by simp
  then show ?thesis using None by (auto simp: find_None_iff)
next
  case (Some r)
  then have f: "List.find (rollsBackFrom cur) (filter isRevision (newestFirst rows)) = Some r"
    using previousRevision_spec[OF assms] by simp
  show ?thesis
    using find_sorted[OF sorted_wrt_filter[OF sorted_newestFirst] f] Some
    by (auto simp: rollsBackFrom_def isUnhealthy_def)
qed

section \<open>Roots\<close>

text \<open>Every row points at a row created before it.\<close>

definition older_parents :: "deploymentRow list \<Rightarrow> bool" where
  "older_parents rows \<longleftrightarrow>
     (\<forall>r \<in> set rows. \<forall>p \<in> set rows. rv_rollbackOf r = Some (rv_id p) \<longrightarrow> rv_createdAt p < rv_createdAt r)"

definition is_root :: "deploymentRow list \<Rightarrow> deploymentRow \<Rightarrow> bool" where
  "is_root rows r \<longleftrightarrow> (\<forall>p \<in> set rows. rv_id p \<noteq> [] \<longrightarrow> rv_rollbackOf r \<noteq> Some (rv_id p))"

lemma byId_None: "byId rows i = None \<longleftrightarrow> (\<forall>r \<in> set rows. rv_id r \<noteq> i)"
  by (auto simp: byId_def find_None_iff)

lemma byId_member: "distinct (map rv_id rows) \<Longrightarrow> r \<in> set rows \<Longrightarrow> byId rows (rv_id r) = Some r"
  by (metis byId_None byId_in not_None_eq same_id)

lemma rootFrom_in: "root \<in> set rows \<Longrightarrow> rootFrom rows seen root \<in> set rows"
proof (induction rows seen root rule: rootFrom.induct)
  case (1 rows seen root)
  then show ?case
    using byId_in by (subst rootFrom.simps) (auto split: option.splits)
qed

lemma rootFrom_is_root:
  assumes d: "distinct (map rv_id rows)" and o: "older_parents rows"
  shows "root \<in> set rows \<Longrightarrow> \<forall>r \<in> set rows. rv_id r \<in> set seen \<longrightarrow> rv_createdAt root \<le> rv_createdAt r \<Longrightarrow>
         is_root rows (rootFrom rows seen root)"
  using d o
proof (induction rows seen root rule: rootFrom.induct)
  case (1 rows seen root)
  show ?case
  proof (cases "given (rv_rollbackOf root)")
    case False
    then show ?thesis by (subst rootFrom.simps) (auto simp: is_root_def given_def)
  next
    case g: True
    then obtain i where i: "rv_rollbackOf root = Some i" by (auto simp: given_def split: option.splits)
    show ?thesis
    proof (cases "byId rows i")
      case None
      then have "is_root rows root" using i by (auto simp: is_root_def byId_None)
      moreover have "rootFrom rows seen root = root" using None i by (subst rootFrom.simps) simp
      ultimately show ?thesis by simp
    next
      case (Some p)
      then have p: "p \<in> set rows" "rv_id p = i" using byId_in by auto
      have older: "rv_createdAt p < rv_createdAt root"
        using "1.prems"(1,4) p i by (simp add: older_parents_def)
      then have new: "rv_id p \<notin> set seen" using "1.prems"(2) p by fastforce
      have "\<forall>r \<in> set rows. rv_id r \<in> set (rv_id p # seen) \<longrightarrow> rv_createdAt p \<le> rv_createdAt r"
        using "1.prems"(2) older p same_id[OF "1.prems"(3)] by fastforce
      then have "is_root rows (rootFrom rows (rv_id p # seen) p)"
        using "1.IH"[OF g, of p] Some i new p(1) "1.prems"(3,4) by simp
      moreover have "rootFrom rows seen root = rootFrom rows (rv_id p # seen) p"
        using g Some i new by (subst rootFrom.simps) simp
      ultimately show ?thesis by simp
    qed
  qed
qed

lemma revisionRoot_in: "row \<in> set rows \<Longrightarrow> revisionRoot rows row \<in> set rows"
  by (simp add: revisionRoot_def rootFrom_in)

lemma revisionRoot_is_root:
  assumes "distinct (map rv_id rows)" "older_parents rows" "row \<in> set rows"
  shows "is_root rows (revisionRoot rows row)"
  unfolding revisionRoot_def
  by (rule rootFrom_is_root[OF assms]) (use same_id[OF assms(1)] assms(3) in auto)

lemma root_is_its_root:
  assumes "distinct (map rv_id rows)" "is_root rows row" "\<forall>r \<in> set rows. rv_id r \<noteq> []"
  shows "revisionRoot rows row = row"
proof -
  have "byId rows (the (rv_rollbackOf row)) = None" if "given (rv_rollbackOf row)"
    using assms that by (fastforce simp: byId_None is_root_def given_def split: option.splits)
  then show ?thesis unfolding revisionRoot_def by (subst rootFrom.simps) simp
qed

section \<open>The groups\<close>

lemma map_of_addRun:
  "map_of (addRun ordered row groups) =
   (map_of groups)(rv_id (revisionRoot ordered row) \<mapsto>
      (case map_of groups (rv_id (revisionRoot ordered row)) of
         Some g \<Rightarrow> (fst g, snd g @ [row]) | None \<Rightarrow> (revisionRoot ordered row, [row])))"
  by (auto simp: addRun_def Let_def split: option.splits)

lemma keys_addRun: "fst ` set (addRun ordered row groups) = insert (rv_id (revisionRoot ordered row)) (fst ` set groups)"
  by (auto simp: addRun_def Let_def dom_update)

lemma distinct_addRun: "distinct (map fst groups) \<Longrightarrow> distinct (map fst (addRun ordered row groups))"
  by (simp add: addRun_def Let_def distinct_update)

lemma groups_of_prefix:
  "map_of (fold (addRun ordered) xs []) i =
   (case filter (\<lambda>r. rv_id (revisionRoot ordered r) = i) xs of
      [] \<Rightarrow> None
    | r # rs \<Rightarrow> Some (revisionRoot ordered r, r # rs))"
proof (induction xs rule: rev_induct)
  case (snoc x xs)
  then show ?case by (auto simp: map_of_addRun split: list.splits)
qed simp

lemma distinct_groups: "distinct (map fst (fold (addRun ordered) xs []))"
  by (induction xs rule: rev_induct) (simp_all add: distinct_addRun)

lemma keys_groups: "fst ` set (fold (addRun ordered) xs []) = (\<lambda>r. rv_id (revisionRoot ordered r)) ` set xs"
  by (induction xs rule: rev_induct) (simp_all add: keys_addRun)

lemma group_member:
  assumes "(i, root, runs) \<in> set (revisionGroups ordered)"
  shows "runs = filter (\<lambda>r. rv_id (revisionRoot ordered r) = i) ordered" "runs \<noteq> []"
    "root = revisionRoot ordered (hd runs)" "rv_id root = i"
proof -
  let ?fs = "filter (\<lambda>r. rv_id (revisionRoot ordered r) = i) ordered"
  have m: "map_of (revisionGroups ordered) i = Some (root, runs)"
    using assms by (simp add: revisionGroups_def distinct_groups)
  then obtain r rs where fs: "?fs = r # rs" "root = revisionRoot ordered r" "runs = r # rs"
    unfolding revisionGroups_def groups_of_prefix by (cases ?fs) auto
  then show "runs = ?fs" "runs \<noteq> []" "root = revisionRoot ordered (hd runs)" by simp_all
  have "r \<in> set ?fs" using fs(1) by (metis list.set_intros(1))
  then show "rv_id root = i" using fs(2) by simp
qed

lemma partition_length:
  "distinct ks \<Longrightarrow> \<forall>x \<in> set xs. f x \<in> set ks \<Longrightarrow>
   sum_list (map (\<lambda>k. length (filter (\<lambda>x. f x = k) xs)) ks) = length xs"
proof (induction xs)
  case (Cons x xs)
  have "sum_list (map (\<lambda>k. length (filter (\<lambda>y. f y = k) (x # xs))) ks)
        = sum_list (map (\<lambda>k. if f x = k then 1 else 0) ks) + sum_list (map (\<lambda>k. length (filter (\<lambda>y. f y = k) xs)) ks)"
    unfolding sum_list_addf[symmetric] by (rule arg_cong[of _ _ sum_list]) auto
  moreover have "sum_list (map (\<lambda>k. if f x = k then 1 else 0 :: nat) ks) = 1"
    using Cons.prems by (subst sum_list_distinct_conv_sum_set) (auto simp: sum.delta')
  ultimately show ?case using Cons by simp
qed simp

text \<open>Rows as they are recorded: their ids are distinct and not empty, and each points at an older row.\<close>

definition well_recorded :: "deploymentRow list \<Rightarrow> bool" where
  "well_recorded rows \<longleftrightarrow>
     distinct (map rv_id rows) \<and> (\<forall>r \<in> set rows. rv_id r \<noteq> []) \<and> older_parents rows"

lemma ordered_laws:
  assumes "well_recorded rows"
  shows "distinct (map rv_id (newestFirst rows))" "older_parents (newestFirst rows)"
    "is_root (newestFirst rows) r \<longleftrightarrow> is_root rows r"
  using assms by (simp_all add: well_recorded_def older_parents_def is_root_def)

lemma well_recorded_same:
  "well_recorded rows \<Longrightarrow> a \<in> set rows \<Longrightarrow> b \<in> set rows \<Longrightarrow> rv_id a = rv_id b \<Longrightarrow> a = b"
  unfolding well_recorded_def using same_id by blast

lemma root_laws:
  assumes "well_recorded rows" "row \<in> set rows"
  shows "revisionRoot (newestFirst rows) row \<in> set rows" "is_root rows (revisionRoot (newestFirst rows) row)"
  using revisionRoot_in[of row "newestFirst rows"] revisionRoot_is_root[of "newestFirst rows" row] assms ordered_laws[OF assms(1)]
  by auto

lemma root_idem:
  assumes w: "well_recorded rows" and r: "r \<in> set rows" "is_root rows r"
  shows "revisionRoot (newestFirst rows) r = r"
  using root_is_its_root[of "newestFirst rows" r] ordered_laws[OF w] w r by (simp add: well_recorded_def)

lemma group_laws:
  assumes w: "well_recorded rows" and g: "(i, root, runs) \<in> set (revisionGroups (newestFirst rows))"
  shows "root \<in> set rows" "is_root rows root" "root \<in> set runs" "rv_id root = i"
    "runs = filter (\<lambda>r. revisionRoot (newestFirst rows) r = root) (newestFirst rows)"
    "length (filter (\<lambda>run. rv_id run \<noteq> rv_id root) runs) + 1 = length runs"
proof -
  note g = group_member[OF g]
  have "hd runs \<in> set runs" using g(2) by (rule hd_in_set)
  then have hd: "hd runs \<in> set rows" unfolding g(1) by simp
  show r: "root \<in> set rows" "is_root rows root" using g(3) root_laws[OF w hd] by simp_all
  show i: "rv_id root = i" by (rule g(4))
  show runs: "runs = filter (\<lambda>r. revisionRoot (newestFirst rows) r = root) (newestFirst rows)"
    unfolding g(1)
  proof (rule filter_cong[OF refl])
    fix x assume "x \<in> set (newestFirst rows)"
    then have x: "revisionRoot (newestFirst rows) x \<in> set rows" using root_laws(1)[OF w] by simp
    show "(rv_id (revisionRoot (newestFirst rows) x) = i) = (revisionRoot (newestFirst rows) x = root)"
      unfolding i[symmetric] using well_recorded_same[OF w x r(1)] by (intro iffI) simp_all
  qed
  have "root \<in> set (filter (\<lambda>r. revisionRoot (newestFirst rows) r = root) (newestFirst rows))"
    unfolding set_filter set_newestFirst mem_Collect_eq by (intro conjI r(1) root_idem[OF w r])
  then show m: "root \<in> set runs" unfolding runs .
  have d: "distinct (map rv_id runs)" unfolding runs using ordered_laws(1)[OF w] by (rule distinct_map_filter)
  have "filter (\<lambda>run. rv_id run = rv_id root) xs = [root]" if "root \<in> set xs" "distinct (map rv_id xs)" for xs
    using that by (induction xs) (auto simp: filter_empty_conv image_iff)
  from this[OF m d] show "length (filter (\<lambda>run. rv_id run \<noteq> rv_id root) runs) + 1 = length runs"
    using sum_length_filter_compl[of "\<lambda>run. rv_id run = rv_id root" runs] by simp
qed

lemma roots_are_keys:
  assumes w: "well_recorded rows"
  shows "fst ` set (revisionGroups (newestFirst rows)) = rv_id ` {r \<in> set rows. is_root rows r}"
proof -
  have "revisionRoot (newestFirst rows) ` set rows = {r \<in> set rows. is_root rows r}"
  proof (intro subset_antisym subsetI)
    fix r assume "r \<in> {r \<in> set rows. is_root rows r}"
    then show "r \<in> revisionRoot (newestFirst rows) ` set rows"
      using root_idem[OF w, of r] by (intro image_eqI[of _ _ r]) simp_all
  qed (use root_laws[OF w] in auto)
  then have "rv_id ` {r \<in> set rows. is_root rows r} = rv_id ` revisionRoot (newestFirst rows) ` set rows" by simp
  then show ?thesis unfolding revisionGroups_def keys_groups by (simp add: image_image)
qed

lemma roots_listed:
  assumes w: "well_recorded rows"
  shows "set (map (\<lambda>g. fst (snd g)) (revisionGroups (newestFirst rows))) = {r \<in> set rows. is_root rows r}"
proof (intro subset_antisym subsetI)
  fix r assume r: "r \<in> {r \<in> set rows. is_root rows r}"
  then have "rv_id r \<in> fst ` set (revisionGroups (newestFirst rows))" unfolding roots_are_keys[OF w] by blast
  then obtain root runs where g: "(rv_id r, root, runs) \<in> set (revisionGroups (newestFirst rows))" by auto
  then have "root = r" using group_laws(1,4)[OF w g] r well_recorded_same[OF w] by blast
  then show "r \<in> set (map (\<lambda>g. fst (snd g)) (revisionGroups (newestFirst rows)))" using g by force
next
  fix r assume "r \<in> set (map (\<lambda>g. fst (snd g)) (revisionGroups (newestFirst rows)))"
  then obtain i runs where g: "(i, r, runs) \<in> set (revisionGroups (newestFirst rows))" by auto
  show "r \<in> {r \<in> set rows. is_root rows r}" using group_laws(1,2)[OF w g] by simp
qed

lemma distinct_roots:
  assumes w: "well_recorded rows"
  shows "distinct (map (\<lambda>g. rv_id (fst (snd g))) (revisionGroups (newestFirst rows)))"
proof -
  have "map (\<lambda>g. rv_id (fst (snd g))) (revisionGroups (newestFirst rows)) = map fst (revisionGroups (newestFirst rows))"
    using group_laws(4)[OF w] by (intro map_cong[OF refl]) (metis prod.collapse)
  moreover have "distinct (map fst (revisionGroups (newestFirst rows)))"
    unfolding revisionGroups_def by (rule distinct_groups)
  ultimately show ?thesis by (simp only:)
qed

lemma runs_cover: "sum_list (map (\<lambda>g. length (snd (snd g))) (revisionGroups (newestFirst rows))) = length rows"
proof -
  let ?gs = "revisionGroups (newestFirst rows)"
  let ?f = "\<lambda>r. rv_id (revisionRoot (newestFirst rows) r)"
  have eq: "map (\<lambda>g. length (snd (snd g))) ?gs = map (\<lambda>k. length (filter (\<lambda>r. ?f r = k) (newestFirst rows))) (map fst ?gs)"
    unfolding map_map comp_def using group_member(1) by (intro map_cong[OF refl]) (metis prod.collapse)
  have "\<forall>r \<in> set (newestFirst rows). ?f r \<in> set (map fst ?gs)"
    unfolding revisionGroups_def using keys_groups[of "newestFirst rows" "newestFirst rows"] by auto
  moreover have "distinct (map fst ?gs)" unfolding revisionGroups_def by (rule distinct_groups)
  ultimately show ?thesis
    unfolding eq by (subst partition_length) (simp_all only: newestFirst_def length_js_sort)
qed

text \<open>The entries are the groups, newest root first.\<close>

definition sorted_groups :: "deploymentRow list \<Rightarrow> revisionGroup list" where
  "sorted_groups rows =
     js_sort (\<lambda>a b. rv_createdAt (fst b) - rv_createdAt (fst a)) (map snd (revisionGroups (newestFirst rows)))"

lemma entries_are_groups:
  "\<exists>keys cur prev. revisionEntries rows deployed limit = map (revisionEntry keys cur prev) (sorted_groups rows)"
  unfolding revisionEntries_def sorted_groups_def Let_def by blast

lemma sorted_groups_mset: "mset (sorted_groups rows) = mset (map snd (revisionGroups (newestFirst rows)))"
  by (simp add: sorted_groups_def)

lemma sorted_group_laws:
  assumes w: "well_recorded rows" and g: "g \<in> set (sorted_groups rows)"
  shows "fst g \<in> set rows" "is_root rows (fst g)" "fst g \<in> set (snd g)"
    "snd g = filter (\<lambda>r. revisionRoot (newestFirst rows) r = fst g) (newestFirst rows)"
    "length (filter (\<lambda>run. rv_id run \<noteq> rv_id (fst g)) (snd g)) + 1 = length (snd g)"
proof -
  have "g \<in> snd ` set (revisionGroups (newestFirst rows))"
    using g by (simp add: sorted_groups_def)
  then obtain i where "(i, fst g, snd g) \<in> set (revisionGroups (newestFirst rows))" by force
  note l = group_laws[OF w this]
  show "fst g \<in> set rows" "is_root rows (fst g)" "fst g \<in> set (snd g)"
    "snd g = filter (\<lambda>r. revisionRoot (newestFirst rows) r = fst g) (newestFirst rows)"
    "length (filter (\<lambda>run. rv_id run \<noteq> rv_id (fst g)) (snd g)) + 1 = length (snd g)"
    by (rule l)+
qed

lemma sorted_groups_roots:
  assumes w: "well_recorded rows"
  shows "distinct (map (\<lambda>g. rv_id (fst g)) (sorted_groups rows))"
    "fst ` set (sorted_groups rows) = {r \<in> set rows. is_root rows r}"
    "sum_list (map (\<lambda>g. length (snd g)) (sorted_groups rows)) = length rows"
proof -
  show "distinct (map (\<lambda>g. rv_id (fst g)) (sorted_groups rows))"
    using distinct_roots[OF w] by (simp add: sorted_groups_def comp_def)
  show "fst ` set (sorted_groups rows) = {r \<in> set rows. is_root rows r}"
    using roots_listed[OF w] by (simp add: sorted_groups_def image_image)
  have "sum_mset (mset (map (\<lambda>g. length (snd g)) (sorted_groups rows)))
        = sum_mset (mset (map (\<lambda>g. length (snd (snd g))) (revisionGroups (newestFirst rows))))"
    unfolding mset_map[of _ "sorted_groups rows"] sorted_groups_mset
    by (simp add: mset_map[symmetric] comp_def del: mset_map)
  then show "sum_list (map (\<lambda>g. length (snd g)) (sorted_groups rows)) = length rows"
    unfolding sum_mset_sum_list runs_cover .
qed

lemma revisionEntry_fields [simp]:
  "re_revision (revisionEntry keys cur prev g) = fst g"
  "re_latest (revisionEntry keys cur prev g) = (case snd g of r # _ \<Rightarrow> r | [] \<Rightarrow> fst g)"
  "re_redeployCount (revisionEntry keys cur prev g) = length (filter (\<lambda>run. rv_id run \<noteq> rv_id (fst g)) (snd g))"
  "re_lastDeployed (revisionEntry keys cur prev g) = List.find isRevision (snd g)"
  "re_current (revisionEntry keys cur prev g) \<longleftrightarrow> Some (rv_id (fst g)) = map_option rv_id cur"
  "re_previous (revisionEntry keys cur prev g) \<longleftrightarrow>
     Some (rv_id (fst g)) = map_option rv_id prev \<and> map_option rv_id prev \<noteq> map_option rv_id cur"
  by (simp_all add: revisionEntry_def Let_def)

lemma sorted_hd_newest:
  "sorted_wrt (\<lambda>a b. rv_createdAt b \<le> rv_createdAt a) (r # rs) \<Longrightarrow> x \<in> set (r # rs) \<Longrightarrow> rv_createdAt x \<le> rv_createdAt r"
  by auto

lemma group_latest:
  assumes w: "well_recorded rows" and g: "g \<in> set (sorted_groups rows)"
  shows "(case snd g of r # _ \<Rightarrow> r | [] \<Rightarrow> fst g) \<in> set rows
         \<and> revisionRoot (newestFirst rows) (case snd g of r # _ \<Rightarrow> r | [] \<Rightarrow> fst g) = fst g
         \<and> (\<forall>x \<in> set rows. revisionRoot (newestFirst rows) x = fst g \<longrightarrow>
              rv_createdAt x \<le> rv_createdAt (case snd g of r # _ \<Rightarrow> r | [] \<Rightarrow> fst g))"
proof -
  note l = sorted_group_laws[OF w g]
  obtain r rs where rs: "snd g = r # rs" using l(3) by (cases "snd g") auto
  have s: "sorted_wrt (\<lambda>a b. rv_createdAt b \<le> rv_createdAt a) (r # rs)"
    using sorted_wrt_filter[OF sorted_newestFirst] unfolding rs[symmetric] l(4) .
  have m: "x \<in> set (r # rs) \<longleftrightarrow> x \<in> set rows \<and> revisionRoot (newestFirst rows) x = fst g" for x
    unfolding rs[symmetric] by (subst l(4)) auto
  show ?thesis unfolding rs list.case using m[of r] m sorted_hd_newest[OF s] by (metis list.set_intros(1))
qed

lemma sum_list_plus_one: "sum_list (map (\<lambda>x. f x + 1) xs) = sum_list (map f xs) + length xs" for f :: "'a \<Rightarrow> nat"
  by (induction xs) simp_all

text \<open>
  Of rows as they are recorded, the revision list has one entry for each original deployment, newest first; the entries
  with their redeploys count every row exactly once, and each shows its newest attempt.
\<close>

theorem revision_list_folds:
  assumes "well_recorded rows"
  shows "let es = revisionEntries rows deployed limit in
           distinct (map (\<lambda>e. rv_id (re_revision e)) es)
         \<and> re_revision ` set es = {r \<in> set rows. is_root rows r}
         \<and> sorted_wrt (\<lambda>e f. rv_createdAt (re_revision f) \<le> rv_createdAt (re_revision e)) es
         \<and> sum_list (map re_redeployCount es) + length es = length rows
         \<and> (\<forall>e \<in> set es. re_latest e \<in> set rows \<and> revisionRoot (newestFirst rows) (re_latest e) = re_revision e
              \<and> (\<forall>x \<in> set rows. revisionRoot (newestFirst rows) x = re_revision e \<longrightarrow>
                   rv_createdAt x \<le> rv_createdAt (re_latest e)))"
proof -
  let ?gs = "sorted_groups rows"
  obtain keys cur prev where es: "revisionEntries rows deployed limit = map (revisionEntry keys cur prev) ?gs"
    using entries_are_groups by metis
  note roots = sorted_groups_roots[OF assms]
  have "sorted_wrt (\<lambda>g h. rv_createdAt (fst h) - rv_createdAt (fst g) \<le> 0) ?gs"
    unfolding sorted_groups_def
    by (rule sorted_js_sort) (rule comparator_map[OF newest_comparator, of fst])
  then have sorted: "sorted_wrt (\<lambda>g h. rv_createdAt (fst h) \<le> rv_createdAt (fst g)) ?gs" by simp
  have "map (\<lambda>g. length (filter (\<lambda>run. rv_id run \<noteq> rv_id (fst g)) (snd g)) + 1) ?gs = map (\<lambda>g. length (snd g)) ?gs"
    using sorted_group_laws(5)[OF assms] by (intro map_cong[OF refl])
  then have "sum_list (map (\<lambda>g. length (filter (\<lambda>run. rv_id run \<noteq> rv_id (fst g)) (snd g)) + 1) ?gs) = length rows"
    using roots(3) by (simp only:)
  then have sum: "sum_list (map (\<lambda>g. length (filter (\<lambda>run. rv_id run \<noteq> rv_id (fst g)) (snd g))) ?gs) + length ?gs = length rows"
    unfolding sum_list_plus_one .
  show ?thesis
    unfolding es Let_def
    using roots(1,2) sorted sum group_latest[OF assms]
    by (simp add: comp_def image_image sorted_wrt_map)
qed

section \<open>The marks\<close>

lemma previousRevision_revisions: "previousRevision (filter isRevision (newestFirst rows)) i = previousRevision rows i"
  by (simp add: previousRevision_def newestFirst_filter)

definition newest_revision :: "deploymentRow list \<Rightarrow> deploymentRow option" where
  "newest_revision rows = (case filter isRevision (newestFirst rows) of r # _ \<Rightarrow> Some r | [] \<Rightarrow> None)"

lemma newest_revision_None: "newest_revision rows = None \<longleftrightarrow> (\<forall>r \<in> set rows. \<not> isRevision r)"
  by (auto simp: newest_revision_def filter_empty_conv split: list.splits)
     (metis filter_empty_conv list.distinct(1) set_newestFirst)

lemma newest_revision_Some:
  assumes "newest_revision rows = Some r"
  shows "r \<in> set rows" "isRevision r" "\<forall>x \<in> set rows. isRevision x \<longrightarrow> rv_createdAt x \<le> rv_createdAt r"
proof -
  obtain rs where rs: "filter isRevision (newestFirst rows) = r # rs"
    using assms by (auto simp: newest_revision_def split: list.splits)
  have m: "x \<in> set (r # rs) \<longleftrightarrow> x \<in> set rows \<and> isRevision x" for x unfolding rs[symmetric] by auto
  have s: "sorted_wrt (\<lambda>a b. rv_createdAt b \<le> rv_createdAt a) (r # rs)"
    unfolding rs[symmetric] by (rule sorted_wrt_filter[OF sorted_newestFirst])
  show "r \<in> set rows" "isRevision r" using m[of r] by simp_all
  show "\<forall>x \<in> set rows. isRevision x \<longrightarrow> rv_createdAt x \<le> rv_createdAt r"
    using m sorted_hd_newest[OF s] by blast
qed

lemma entries_marks:
  "\<exists>keys. revisionEntries rows deployed limit =
     map (revisionEntry keys
            (if deployed then map_option (revisionRoot (newestFirst rows)) (newest_revision rows) else None)
            (if deployed then
               map_option (revisionRoot (newestFirst rows))
                 (Option.bind (newest_revision rows) (\<lambda>c. previousRevision rows (Some (rv_id c))))
             else None))
       (sorted_groups rows)"
  unfolding revisionEntries_def sorted_groups_def Let_def previousRevision_revisions newest_revision_def
  by (cases deployed) auto

lemma group_of_root:
  assumes w: "well_recorded rows" and r: "r \<in> set rows"
  shows "\<exists>g \<in> set (sorted_groups rows). fst g = revisionRoot (newestFirst rows) r"
  using sorted_groups_roots(2)[OF w] root_laws[OF w r] by (metis (mono_tags, lifting) imageE mem_Collect_eq)

lemma superseded_not_live: "supersededHealth h \<noteq> Some Healthy \<and> supersededHealth h \<noteq> Some Watching"
  by (simp add: supersededHealth_def)

theorem revision_list_marks:
  assumes "well_recorded rows"
  shows "let es = revisionEntries rows deployed limit in
           ((\<exists>e \<in> set es. re_current e) \<longleftrightarrow> deployed \<and> (\<exists>r \<in> set rows. isRevision r))
         \<and> (\<forall>e \<in> set es. re_current e \<longrightarrow>
              (\<exists>r. newest_revision rows = Some r \<and> re_revision e = revisionRoot (newestFirst rows) r))
         \<and> (\<forall>e \<in> set es. re_previous e \<longrightarrow> \<not> re_current e \<and>
              (\<exists>c r. newest_revision rows = Some c \<and> previousRevision rows (Some (rv_id c)) = Some r
                     \<and> re_revision e = revisionRoot (newestFirst rows) r))
         \<and> (\<forall>e \<in> set es. \<not> re_current e \<longrightarrow> re_health e \<noteq> Some Healthy \<and> re_health e \<noteq> Some Watching)"
proof -
  let ?root = "revisionRoot (newestFirst rows)"
  let ?cur = "if deployed then map_option ?root (newest_revision rows) else None"
  let ?prev = "if deployed then map_option ?root (Option.bind (newest_revision rows) (\<lambda>c. previousRevision rows (Some (rv_id c)))) else None"
  obtain keys where es: "revisionEntries rows deployed limit = map (revisionEntry keys ?cur ?prev) (sorted_groups rows)"
    using entries_marks by blast
  have is_member: "fst g = ?root r" if "g \<in> set (sorted_groups rows)" "r \<in> set rows" "rv_id (fst g) = rv_id (?root r)" for g r
    using well_recorded_same[OF assms] sorted_group_laws(1)[OF assms that(1)] root_laws(1)[OF assms that(2)] that(3) by blast
  have prev_in: "r \<in> set rows" if "previousRevision rows i = Some r" for i r
    using that find_Some_iff_first by (fastforce simp: previousRevision_def Let_def split: option.splits)
  have "(\<exists>g \<in> set (sorted_groups rows). Some (rv_id (fst g)) = map_option rv_id ?cur) \<longleftrightarrow> deployed \<and> (\<exists>r \<in> set rows. isRevision r)"
  proof (cases "newest_revision rows")
    case None
    then show ?thesis using newest_revision_None[of rows] by simp
  next
    case (Some r)
    then have r: "r \<in> set rows" "isRevision r" using newest_revision_Some by blast+
    obtain g where "g \<in> set (sorted_groups rows)" "fst g = ?root r" using group_of_root[OF assms r(1)] by blast
    then show ?thesis using Some r by (cases deployed) (auto intro!: bexI[of _ g])
  qed
  moreover have "\<exists>r. newest_revision rows = Some r \<and> fst g = ?root r"
    if g: "g \<in> set (sorted_groups rows)" and m: "Some (rv_id (fst g)) = map_option rv_id ?cur" for g
  proof -
    obtain r where r: "newest_revision rows = Some r" "rv_id (fst g) = rv_id (?root r)"
      using m by (cases deployed; cases "newest_revision rows") auto
    then show ?thesis using is_member[OF g newest_revision_Some(1)[OF r(1)]] by blast
  qed
  moreover have "\<exists>c r. newest_revision rows = Some c \<and> previousRevision rows (Some (rv_id c)) = Some r \<and> fst g = ?root r"
    if g: "g \<in> set (sorted_groups rows)" and m: "Some (rv_id (fst g)) = map_option rv_id ?prev" for g
  proof -
    obtain c r where r: "newest_revision rows = Some c" "previousRevision rows (Some (rv_id c)) = Some r" "rv_id (fst g) = rv_id (?root r)"
      using m by (cases deployed; cases "Option.bind (newest_revision rows) (\<lambda>c. previousRevision rows (Some (rv_id c)))")
        (auto simp: bind_eq_Some_conv)
    then show ?thesis using is_member[OF g prev_in[OF r(2)]] by blast
  qed
  ultimately show ?thesis
    unfolding es Let_def using superseded_not_live
    by (simp add: revisionEntry_def Let_def)
qed

section \<open>Examples\<close>

definition sampleDeployment :: "string \<Rightarrow> timestamp \<Rightarrow> string option \<Rightarrow> RevisionHealth option \<Rightarrow> deploymentRow" where
  "sampleDeployment i created rollbackOf health =
     \<lparr> rv_buildSource = Some SourceImage, rv_configSnapshot = None, rv_containerId = None, rv_createdAt = created,
       rv_environment = ''production'', rv_errorMessage = None, rv_finishedAt = None, rv_gitCommit = None, rv_gitRef = None,
       rv_health = health, rv_healthReason = None, rv_id = i, rv_imageDigest = None, rv_imageId = None,
       rv_imageRef = Some (case rollbackOf of Some j \<Rightarrow> j | None \<Rightarrow> i), rv_log = None, rv_restoreConfig = False,
       rv_rollbackOf = rollbackOf, rv_serviceId = ''s'', rv_startedAt = None, rv_status = DRunning,
       rv_trigger = Some TManual, rv_userId = ''u'' \<rparr>"

definition sampleHistory :: "deploymentRow list" where
  "sampleHistory =
     [sampleDeployment ''a'' 1 None None, sampleDeployment ''b'' 2 None (Some RolledBack),
      sampleDeployment ''c'' 3 (Some ''a'') (Some Healthy)]"

lemma sampleHistory_recorded: "well_recorded sampleHistory"
  by (simp add: well_recorded_def older_parents_def sampleHistory_def sampleDeployment_def)

theorem previousRevision_exact_witness:
  "previousRevision sampleHistory (Some ''b'') = Some (sampleDeployment ''a'' 1 None None)
   \<and> rv_createdAt (sampleDeployment ''a'' 1 None None) < rv_createdAt (sampleDeployment ''b'' 2 None (Some RolledBack))"
proof -
  let ?b = "sampleDeployment ''b'' 2 None (Some RolledBack)"
  have p: "previousRevision sampleHistory (Some (rv_id ?b)) = Some (sampleDeployment ''a'' 1 None None)" by code_simp
  have "distinct (map rv_id sampleHistory)" "?b \<in> set sampleHistory" "isRevision ?b" "rv_id ?b \<noteq> []" by code_simp+
  from previousRevision_exact[OF this] p show ?thesis by (simp add: sampleDeployment_def)
qed

theorem revision_list_folds_witness:
  "sum_list (map re_redeployCount (revisionEntries sampleHistory True 5)) + length (revisionEntries sampleHistory True 5) = 3"
  using revision_list_folds[OF sampleHistory_recorded, of True 5] by (simp add: Let_def sampleHistory_def)

theorem revision_list_marks_witness: "\<exists>e \<in> set (revisionEntries sampleHistory True 5). re_current e"
proof -
  have "\<exists>r \<in> set sampleHistory. isRevision r" by code_simp
  then show ?thesis using revision_list_marks[OF sampleHistory_recorded, of True 5] by (simp add: Let_def)
qed

end
