(* ===== verification/Retention_Theorems.thy ===== *)
theory Retention_Theorems
  imports Revision_Theorems
begin

text \<open>
  Which images \<open>retainedRevisions\<close> keeps, what \<open>splitImageRef\<close> reads, what a configuration snapshot restores, and
  when a health verdict is given (\<open>src/lib/revisions.ts\<close>, \<open>src/lib/image-ref.ts\<close>, \<open>src/lib/revision-config.ts\<close>).
\<close>

section \<open>Retained images\<close>

text \<open>The distinct elements of a list in the order they first appear.\<close>

fun firsts :: "'a list \<Rightarrow> 'a list" where
  "firsts [] = []"
| "firsts (x # xs) = x # filter (\<lambda>y. y \<noteq> x) (firsts xs)"

lemma set_firsts [simp]: "set (firsts xs) = set xs"
  by (induction xs) auto

lemma distinct_firsts [simp]: "distinct (firsts xs)"
  by (induction xs) auto

lemma firsts_filter: "firsts (filter P xs) = filter P (firsts xs)"
  by (induction xs) (auto simp: filter_filter intro: filter_cong)

text \<open>The image keys of a service's revisions, and those not among \<open>keys\<close>.\<close>

definition service_keys :: "string \<Rightarrow> deploymentRow list \<Rightarrow> string list" where
  "service_keys s rows = map revisionImageKey (filter (\<lambda>r. isRevision r \<and> rv_serviceId r = s) rows)"

definition kept_keys :: "string list js_map \<Rightarrow> string \<Rightarrow> string list" where
  "kept_keys m s = (case map_of m s of Some ks \<Rightarrow> ks | None \<Rightarrow> [])"

lemma kept_keys_update [simp]:
  "kept_keys (AList.update s ks m) t = (if t = s then ks else kept_keys m t)"
  by (simp add: kept_keys_def)

lemma filter_full: "\<forall>x \<in> set xs. P x \<Longrightarrow> filter P xs = xs"
  by (induction xs) auto

lemma retain_step:
  "retainLoop limit m (row # rows) =
   (if \<not> isRevision row \<or> revisionImageKey row \<in> set (kept_keys m (rv_serviceId row))
       \<or> limit \<le> int (length (kept_keys m (rv_serviceId row))) then retainLoop limit m rows
    else row # retainLoop limit
                 (AList.update (rv_serviceId row) (kept_keys m (rv_serviceId row) @ [revisionImageKey row]) m) rows)"
  unfolding retainLoop.simps(2) Let_def kept_keys_def[symmetric] by simp

lemma service_keys_Cons:
  "service_keys s (row # rows) =
   (if isRevision row \<and> rv_serviceId row = s then revisionImageKey row # service_keys s rows else service_keys s rows)"
  by (simp add: service_keys_def)

lemma new_keys_Cons:
  "filter (\<lambda>k. k \<notin> set ks) (firsts (x # xs)) =
   (if x \<in> set ks then filter (\<lambda>k. k \<notin> set ks) (firsts xs)
    else x # filter (\<lambda>k. k \<notin> set (ks @ [x])) (firsts xs))"
  by (auto simp: filter_filter intro!: filter_cong)

lemma retainLoop_keys:
  "map revisionImageKey (filter (\<lambda>r. rv_serviceId r = s) (retainLoop limit m rows)) =
   take (nat limit - length (kept_keys m s)) (filter (\<lambda>k. k \<notin> set (kept_keys m s)) (firsts (service_keys s rows)))"
proof (induction rows arbitrary: m)
  case (Cons row rows)
  let ?ks = "kept_keys m (rv_serviceId row)"
  let ?key = "revisionImageKey row"
  consider "\<not> isRevision row \<or> rv_serviceId row \<noteq> s" | "isRevision row" "rv_serviceId row = s" "?key \<in> set ?ks"
    | "isRevision row" "rv_serviceId row = s" "?key \<notin> set ?ks" "limit \<le> int (length ?ks)"
    | "isRevision row" "rv_serviceId row = s" "?key \<notin> set ?ks" "\<not> limit \<le> int (length ?ks)" by blast
  then show ?case
  proof cases
    case 4
    then have "nat limit - length ?ks = Suc (nat limit - length (?ks @ [?key]))" by auto
    then show ?thesis
      unfolding retain_step service_keys_Cons using 4 Cons.IH by (simp add: new_keys_Cons del: firsts.simps)
  qed (use Cons.IH in \<open>auto simp: retain_step service_keys_Cons new_keys_Cons simp del: retainLoop.simps firsts.simps\<close>)
qed (simp add: service_keys_def)

lemma retainLoop_members: "set (retainLoop limit m rows) \<subseteq> {r \<in> set rows. isRevision r}"
proof (induction rows arbitrary: m)
  case (Cons row rows)
  show ?case unfolding retain_step using Cons.IH by (auto dest: subsetD)
qed simp

text \<open>
  C31. Per service, the images kept are the first \<open>limit\<close> of the distinct images its revisions ran, newest first.
\<close>

theorem retained_newest_images:
  "map revisionImageKey (filter (\<lambda>r. rv_serviceId r = s) (retainedRevisions rows limit)) =
     take (nat limit) (firsts (service_keys s (newestFirst rows)))
   \<and> set (retainedRevisions rows limit) \<subseteq> {r \<in> set rows. isRevision r}"
proof (rule conjI)
  show "map revisionImageKey (filter (\<lambda>r. rv_serviceId r = s) (retainedRevisions rows limit)) =
         take (nat limit) (firsts (service_keys s (newestFirst rows)))"
    unfolding retainedRevisions_def retainLoop_keys by (simp add: kept_keys_def filter_full)
  show "set (retainedRevisions rows limit) \<subseteq> {r \<in> set rows. isRevision r}"
    using retainLoop_members[of limit "[]" "newestFirst rows"] by (simp add: retainedRevisions_def)
qed

section \<open>Image references\<close>

lemma lastIndexOf_less: "c \<in> set s \<Longrightarrow> lastIndexOf c s < int (length s)"
  by (simp add: lastIndexOf_def)

lemma takeWhile_rev_length: "c \<notin> set b \<Longrightarrow> length (takeWhile (\<lambda>x. x \<noteq> c) (rev (a @ c # b))) = length b"
proof -
  assume "c \<notin> set b"
  then have "takeWhile (\<lambda>x. x \<noteq> c) (rev b @ c # rev a) = rev b" by (subst takeWhile_append2) auto
  then show ?thesis by simp
qed

lemma lastIndexOf_split: "c \<notin> set b \<Longrightarrow> lastIndexOf c (a @ c # b) = int (length a)"
  unfolding lastIndexOf_def takeWhile_rev_length by simp

lemma lastIndexOf_absent: "c \<notin> set s \<Longrightarrow> lastIndexOf c s = - 1"
  by (simp add: lastIndexOf_def)

lemma lastIndexOf_prefix: "c \<notin> set b \<Longrightarrow> lastIndexOf c (a @ b) \<le> int (length a) - 1"
proof (induction b rule: rev_induct)
  case Nil
  then show ?case by (cases "c \<in> set a") (auto simp: lastIndexOf_def)
next
  case (snoc x b)
  then show ?case
    by (cases "c \<in> set a") (auto simp: lastIndexOf_def takeWhile_append2)
qed

text \<open>An image reference is read back: the repository, then the tag; without a tag it is \<open>latest\<close>, and a digest is dropped.\<close>

theorem splitImageRef_reads:
  assumes "CHR ''@'' \<notin> set repo" "CHR ''@'' \<notin> set tag" "CHR '':'' \<notin> set tag" "CHR ''/'' \<notin> set tag"
  shows "splitImageRef (repo @ '':'' @ tag) = (repo, if tag = [] then ''latest'' else tag)
         \<and> splitImageRef (repo @ '':'' @ tag @ ''@'' @ digest) = (repo, if tag = [] then ''latest'' else tag)"
proof -
  let ?bare = "repo @ CHR '':'' # tag"
  have colon: "lastIndexOf (CHR '':'') ?bare = int (length repo)" using assms by (intro lastIndexOf_split)
  have "lastIndexOf (CHR ''/'') (repo @ (CHR '':'' # tag)) \<le> int (length repo) - 1"
    using assms by (intro lastIndexOf_prefix) auto
  then have slash: "\<not> int (length repo) \<le> lastIndexOf (CHR ''/'') ?bare" by simp
  have bare: "takeWhile (\<lambda>c. c \<noteq> CHR ''@'') ?bare = ?bare"
    using assms by (auto simp: takeWhile_eq_all_conv)
  have digest: "takeWhile (\<lambda>c. c \<noteq> CHR ''@'') (?bare @ CHR ''@'' # digest) = ?bare"
    using assms by (subst takeWhile_append2) auto
  have drop: "drop (nat (int (length repo)) + 1) ?bare = tag" "take (nat (int (length repo))) ?bare = repo" by simp_all
  have r: "splitImageRef ref = (repo, if tag = [] then ''latest'' else tag)"
    if "takeWhile (\<lambda>c. c \<noteq> CHR ''@'') ref = ?bare" for ref
    unfolding splitImageRef_def that Let_def colon using slash drop by simp
  show ?thesis
    using r[of "repo @ '':'' @ tag"] bare r[of "repo @ '':'' @ tag @ ''@'' @ digest"] digest by simp
qed

section \<open>Health\<close>

text \<open>
  Within the observation window nothing is called healthy; from the longest wait on nothing is pending.
\<close>

lemma verdict_bounds:
  "elapsed < hw_windowMs w \<Longrightarrow> healthVerdict b s elapsed w \<noteq> VHealthy"
  "hw_windowMs w \<le> elapsed \<Longrightarrow> hw_maxWaitMs w \<le> elapsed \<Longrightarrow> healthVerdict b s elapsed w \<noteq> VPending"
  by (auto simp: healthVerdict_def swarmVerdict_def containerVerdict_def Let_def split: WorkloadHealthSample.splits)

section \<open>Configuration snapshots\<close>

lemma or_else_Some [simp]: "or_else (Some x) d = x"
  by (simp add: or_else_def)

lemma runtime_every [simp]: "runtimeOptionsFrom (Some (every_option r)) = r"
  by (simp add: runtimeOptionsFrom_def every_option_def)

lemma spread_every [simp]: "spread_options r (every_option q) = q"
  by (simp add: spread_options_def every_option_def)

text \<open>A service restored from a snapshot deploys with the recorded configuration, whatever it had in the meantime.\<close>

theorem restore_puts_back:
  "snapshotRevisionConfig (restoredService (snapshotRevisionConfig recorded) svc) = snapshotRevisionConfig recorded"
  by (simp add: snapshotRevisionConfig_def restoredService_def restorableRuntimeOptions_def)

text \<open>Restoring any snapshot, older ones without some of the keys too, leaves no recorded field changed.\<close>

definition part_of :: "'a option \<Rightarrow> 'a option \<Rightarrow> bool" where
  "part_of a b \<longleftrightarrow> (case a of None \<Rightarrow> True | Some x \<Rightarrow> b = Some x)"

lemma part_of_or_else [simp]: "part_of a (Some (or_else a d))"
  by (simp add: part_of_def or_else_def split: option.splits)

lemma map_of_slots:
  "distinct (map fst kvs) \<Longrightarrow>
   map_of (List.map_filter (\<lambda>(k, v). map_option (Pair k) v) kvs) k = Some v \<longleftrightarrow> map_of kvs k = Some (Some v)"
proof (induction kvs)
  case (Cons kv kvs)
  obtain k' w where kv: "kv = (k', w)" by (cases kv)
  have none: "k = k' \<Longrightarrow> map_of kvs k = None" using Cons.prems kv by (auto simp: map_of_eq_None_iff)
  show ?case using Cons kv none by (cases w) (auto simp: map_filter_simps)
qed (simp add: map_filter_simps)

lemma slots_keys_distinct: "distinct (map fst (config_slots c))"
  by (simp add: config_slots_def)

lemma config_field_slot: "config_field c k = Some v \<longleftrightarrow> map_of (config_slots c) k = Some (Some v)"
  unfolding config_field_def config_entries_def by (rule map_of_slots[OF slots_keys_distinct])

lemma key_has_field: "k \<in> set (map fst (config_entries c)) \<longleftrightarrow> (\<exists>v. config_field c k = Some v)"
  unfolding config_field_def by (metis map_of_eq_None_iff not_None_eq set_map)

lemma slot_part:
  "list_all2 (\<lambda>a b. fst a = fst b \<and> part_of (snd a) (snd b)) xs ys \<Longrightarrow>
   map_of xs k = Some (Some v) \<Longrightarrow> map_of ys k = Some (Some v)"
proof (induction rule: list_all2_induct)
  case (Cons x xs y ys)
  then show ?case by (cases x; cases y) (auto simp: part_of_def split: if_splits)
qed simp

lemma slot_presence:
  "list_all2 (\<lambda>a b. fst a = fst b \<and> (snd a = None \<longleftrightarrow> snd b = None)) xs ys \<Longrightarrow>
   map_of xs k = Some (Some v) \<Longrightarrow> \<exists>w. map_of ys k = Some (Some w)"
proof (induction rule: list_all2_induct)
  case (Cons x xs y ys)
  then show ?case by (cases x; cases y) (auto split: if_splits)
qed simp

lemma part_of_map [simp]: "part_of (map_option f a) (Some (f (or_else a d)))"
  by (cases a) (simp_all add: part_of_def or_else_def)

lemma part_of_refl [simp]: "part_of a a" "part_of None b"
  by (auto simp: part_of_def split: option.splits)

theorem restored_config_unchanged:
  assumes "rc_networkMode snapshot = NetHost \<longrightarrow> \<not> rc_dnsResolvable snapshot"
    and "\<forall>ms. rc_volumeMounts snapshot = Some ms \<longrightarrow> mounts = ms"
  shows "changedRevisionConfigFields collate (restoredService snapshot svc) snapshot mounts = []"
proof -
  define now where "now = (snapshotRevisionConfig (restoredService snapshot svc))\<lparr>rc_volumeMounts := Some (sortedMounts collate mounts)\<rparr>"
  define recorded where "recorded = (case rc_volumeMounts snapshot of
      Some ms \<Rightarrow> snapshot\<lparr>rc_volumeMounts := Some (sortedMounts collate ms)\<rparr> | None \<Rightarrow> snapshot)"
  have same: "config_field now k = config_field recorded k" if k: "k \<in> set (map fst (config_entries snapshot))" for k
  proof -
    have present: "list_all2 (\<lambda>a b. fst a = fst b \<and> (snd a = None \<longleftrightarrow> snd b = None)) (config_slots snapshot) (config_slots recorded)"
      by (cases "rc_volumeMounts snapshot") (simp_all add: recorded_def config_slots_def)
    obtain v where v: "map_of (config_slots snapshot) k = Some (Some v)"
      using k unfolding key_has_field config_field_slot by blast
    obtain w where w: "map_of (config_slots recorded) k = Some (Some w)" using slot_presence[OF present v] ..
    have "list_all2 (\<lambda>a b. fst a = fst b \<and> part_of (snd a) (snd b)) (config_slots recorded) (config_slots now)"
      using assms
      by (cases "rc_volumeMounts snapshot")
         (simp_all add: recorded_def now_def config_slots_def snapshotRevisionConfig_def restoredService_def
            restorableRuntimeOptions_def spread_options_def every_option_def runtimeOptionsFrom_def)
    from slot_part[OF this w] w show ?thesis unfolding config_field_slot[symmetric] by simp
  qed
  then show ?thesis
    unfolding changedRevisionConfigFields_def now_def[symmetric] recorded_def[symmetric] Let_def
    by (simp add: filter_empty_conv js_sort_def)
qed

definition sampleConfig :: RevisionConfig where
  "sampleConfig =
     \<lparr> rc_runtime = \<lparr> po_capAdd = None, po_command = Some None, po_devices = None, po_entrypoint = None, po_envFiles = None,
                       po_labels = Some [(''a'', ''1'')], po_privileged = None, po_runAsUser = None \<rparr>,
       rc_containerPort = 80, rc_cpuLimit = None, rc_dnsResolvable = True, rc_envVars = [(''A'', ''1'')],
       rc_memoryLimitMb = None, rc_networkMode = NetBridge, rc_portProtocol = PortTcp, rc_exposedPorts = None,
       rc_publishedPorts = None, rc_replicas = 1, rc_volumeMounts = None \<rparr>"

definition sampleSource :: RevisionConfigSource where
  "sampleSource =
     \<lparr> cs_runtime = \<lparr> ro_capAdd = [], ro_command = Some [''sh''], ro_devices = [], ro_entrypoint = None, ro_envFiles = [],
                       ro_labels = [], ro_privileged = False, ro_runAsUser = None \<rparr>,
       cs_containerPort = 8080, cs_cpuLimit = None, cs_dnsResolvable = False, cs_envVars = None, cs_memoryLimitMb = None,
       cs_networkMode = NetHost, cs_portProtocol = PortUdp, cs_exposedPorts = [], cs_publishedPorts = [], cs_replicas = 2 \<rparr>"

theorem restored_config_unchanged_witness:
  "changedRevisionConfigFields (\<lambda>a b. 0) sampleSource sampleConfig [] \<noteq> []
   \<and> changedRevisionConfigFields (\<lambda>a b. 0) (restoredService sampleConfig sampleSource) sampleConfig [] = []"
proof (rule conjI)
  show "changedRevisionConfigFields (\<lambda>a b. 0) sampleSource sampleConfig [] \<noteq> []" by code_simp
  show "changedRevisionConfigFields (\<lambda>a b. 0) (restoredService sampleConfig sampleSource) sampleConfig [] = []"
    by (rule restored_config_unchanged) (simp_all add: sampleConfig_def)
qed

theorem splitImageRef_reads_witness:
  "splitImageRef ''r.io:5000/a/b:1.2@sha256:ff'' = (''r.io:5000/a/b'', ''1.2'')"
  using splitImageRef_reads[of "''r.io:5000/a/b''" "''1.2''" "''sha256:ff''"] by simp

end
