(* ===== verification/Rollback_Theorems.thy ===== *)
theory Rollback_Theorems
  imports Revision_Health Retention_Theorems
begin

text \<open>
  Properties of the health watch and of rollbacks: a watch ends, at most one deployment of a service is live, what a
  newer deploy superseded stays silent, an automatic rollback is never rolled back, and the two ways to the original
  of a redeploy agree.
\<close>

section \<open>The watch ends\<close>

lemma HEALTH_WINDOW_fields [simp]: "hw_maxWaitMs HEALTH_WINDOW = 300000" "hw_windowMs HEALTH_WINDOW = 90000"
  by (simp_all add: HEALTH_WINDOW_def)

lemma pollVerdict_bounds:
  "po_now p - wa_startedAt input < 90000 \<Longrightarrow> pollVerdict input svc p \<noteq> VHealthy"
  "300000 \<le> po_now p - wa_startedAt input \<Longrightarrow> pollVerdict input svc p \<noteq> VPending"
  using verdict_bounds(1)[of "po_now p - wa_startedAt input" HEALTH_WINDOW "wa_baseline input" "po_sample p"]
    verdict_bounds(2)[of HEALTH_WINDOW "po_now p - wa_startedAt input" "wa_baseline input" "po_sample p"]
  by (auto simp: pollVerdict_def Let_def withReadiness_def split: option.splits if_splits)

text \<open>A healthy verdict at a poll: the service answered, and the workload ran.\<close>

definition ready :: "watchedService \<Rightarrow> poll \<Rightarrow> bool" where
  "ready svc p \<longleftrightarrow> (case readiness svc (po_probe p) of None \<Rightarrow> True | Some r \<Rightarrow> rs_ok r)"

lemma pollVerdict_healthy:
  assumes "pollVerdict input svc p = VHealthy"
  shows "90000 \<le> po_now p - wa_startedAt input" "ready svc p"
    "healthVerdict (wa_baseline input) (po_sample p) (po_now p - wa_startedAt input) HEALTH_WINDOW = VHealthy"
proof -
  show "90000 \<le> po_now p - wa_startedAt input" using pollVerdict_bounds(1) assms by force
  show "ready svc p" "healthVerdict (wa_baseline input) (po_sample p) (po_now p - wa_startedAt input) HEALTH_WINDOW = VHealthy"
    using assms
    by (auto simp: pollVerdict_def Let_def withReadiness_def ready_def split: option.splits if_splits)
qed

lemma watchLoop_ends:
  "p \<in> set ps \<Longrightarrow> 300000 \<le> po_now p - wa_startedAt input \<Longrightarrow> watchLoop input ps \<noteq> None"
proof (induction ps)
  case (Cons q ps)
  show ?case
  proof (cases "stillCurrent input q")
    case (Some svc)
    show ?thesis
    proof (cases "p = q")
      case True
      then show ?thesis using Some Cons.prems pollVerdict_bounds(2)[of q input svc] by (auto split: HealthVerdict.splits)
    next
      case False
      then have "watchLoop input ps \<noteq> None" using Cons by simp
      then show ?thesis using Some by (auto split: HealthVerdict.splits)
    qed
  qed simp
qed simp

text \<open>What the poll the watch ended at read.\<close>

definition ends_at :: "RevisionWatch \<Rightarrow> watchEnd \<Rightarrow> poll \<Rightarrow> bool" where
  "ends_at input ended p \<longleftrightarrow>
     (case ended of
        NotCurrent \<Rightarrow> stillCurrent input p = None
      | FoundHealthy \<Rightarrow>
          (case stillCurrent input p of
             Some svc \<Rightarrow> 90 * 1000 \<le> po_now p - wa_startedAt input \<and> ready svc p | None \<Rightarrow> False)
      | FoundUnhealthy svc reason \<Rightarrow> stillCurrent input p = Some svc \<and> pollVerdict input svc p = VUnhealthy reason)"

lemma watchLoop_outcome: "watchLoop input ps = Some (ended, rest) \<Longrightarrow> \<exists>p \<in> set ps. ends_at input ended p"
proof (induction ps)
  case (Cons p ps)
  show ?case
  proof (cases "stillCurrent input p")
    case None
    then show ?thesis using Cons.prems by (auto simp: ends_at_def)
  next
    case (Some svc)
    show ?thesis
    proof (cases "pollVerdict input svc p")
      case VPending
      then have "watchLoop input ps = Some (ended, rest)" using Cons.prems Some by simp
      from Cons.IH[OF this] show ?thesis by auto
    next
      case VHealthy
      then have "ends_at input ended p"
        using Cons.prems Some pollVerdict_healthy[OF VHealthy] by (auto simp: ends_at_def)
      then show ?thesis by simp
    next
      case (VUnhealthy reason)
      then have "ends_at input ended p" using Cons.prems Some by (auto simp: ends_at_def)
      then show ?thesis by simp
    qed
  qed
qed simp

text \<open>
  C32. A health watch ends by the first poll that is five minutes past the start, and each way it ends is what some poll read:
  superseded, healthy only of a current workload that answers and at least ninety seconds old, unhealthy for the verdict's
  reason.
\<close>

theorem watch_ends:
  assumes "p \<in> set polls" "5 * 60 * 1000 \<le> po_now p - wa_startedAt input"
  shows "\<exists>ended rest. watchLoop input polls = Some (ended, rest) \<and> (\<exists>q \<in> set polls. ends_at input ended q)"
proof -
  obtain ended rest where w: "watchLoop input polls = Some (ended, rest)"
    using watchLoop_ends[of p polls input] assms by auto
  from watchLoop_outcome[OF w] w show ?thesis by blast
qed

section \<open>At most one live deployment\<close>

text \<open>
  The writes that touch a deployment's health, with the deployments between the two writes of \<open>recordSuccess\<close>. Every
  other statement leaves ids, services and healths alone or inserts or deletes rows.
\<close>

definition same_health :: "deployments \<Rightarrow> deployments \<Rightarrow> bool" where
  "same_health t t' \<longleftrightarrow> map (\<lambda>r. (rv_id r, rv_serviceId r, rv_health r)) t' = map (\<lambda>r. (rv_id r, rv_serviceId r, rv_health r)) t"

inductive health_step :: "(string \<times> string) list \<times> deployments \<Rightarrow> (string \<times> string) list \<times> deployments \<Rightarrow> bool" where
  created: "rv_health r = None \<Longrightarrow> rv_id r \<notin> rv_id ` set t \<Longrightarrow> health_step (pend, t) (pend, t @ [r])"
| deleted: "health_step (pend, t) (pend, filter P t)"
| published: "dep \<in> set t \<Longrightarrow> health_step (pend, t)
     ((rv_serviceId dep, rv_id dep) # pend, updateRow (rv_id dep) (publishRow now src cid sid resolved) t)"
| cleared: "(s, i) \<in> set pend \<Longrightarrow> health_step (pend, t) (remove1 (s, i) pend, clearSupersededHealth s i t)"
| settled: "h \<noteq> Some Watching \<Longrightarrow> health_step (pend, t) (pend, snd (snd (settleHealth dep h reason t)))"
| other: "same_health t t' \<Longrightarrow> health_step (pend, t) (pend, t')"

text \<open>The live rows that are not being published: at most one of each service.\<close>

definition live_ids :: "(string \<times> string) list \<times> deployments \<Rightarrow> (string \<times> string) set" where
  "live_ids st = (\<lambda>r. (rv_serviceId r, rv_id r)) ` {r \<in> set (snd st). isLive r} - set (fst st)"

definition one_live :: "(string \<times> string) list \<times> deployments \<Rightarrow> bool" where
  "one_live st \<longleftrightarrow> (\<forall>s i i'. (s, i) \<in> live_ids st \<longrightarrow> (s, i') \<in> live_ids st \<longrightarrow> i = i')"

lemma one_live_subset: "one_live st \<Longrightarrow> live_ids st' \<subseteq> live_ids st \<Longrightarrow> one_live st'"
  unfolding one_live_def by blast

lemma live_member: "(s, i) \<in> live_ids st \<longleftrightarrow> (s, i) \<notin> set (fst st) \<and> (\<exists>r \<in> set (snd st). isLive r \<and> rv_serviceId r = s \<and> rv_id r = i)"
  by (auto simp: live_ids_def)

lemma live_publish: "isLive (publishRow now src cid sid resolved r)"
  by (simp add: isLive_def publishRow_def Let_def)

lemma publish_ids [simp]:
  "rv_id (publishRow now src cid sid resolved r) = rv_id r"
  "rv_serviceId (publishRow now src cid sid resolved r) = rv_serviceId r"
  by (simp_all add: publishRow_def Let_def)

lemma map_rv_id_publish: "map rv_id (updateRow i (publishRow now src cid sid resolved) t) = map rv_id t"
  by (simp add: updateRow_def)

lemma settle_table:
  "snd (snd (settleHealth dep h reason t)) =
   map (\<lambda>r. if rv_id r = rv_id dep \<and> rv_health r = Some Watching then r\<lparr>rv_health := h, rv_healthReason := reason\<rparr> else r) t"
proof (cases "filter (\<lambda>r. rv_id r = rv_id dep \<and> rv_health r = Some Watching) t = []")
  case True
  then have "map (\<lambda>r. if rv_id r = rv_id dep \<and> rv_health r = Some Watching then r\<lparr>rv_health := h, rv_healthReason := reason\<rparr> else r) t = t"
    by (intro map_idI) (auto simp: filter_empty_conv)
  then show ?thesis using True by (simp add: settleHealth_def Let_def)
qed (simp add: settleHealth_def Let_def)

definition health_inv :: "(string \<times> string) list \<times> deployments \<Rightarrow> bool" where
  "health_inv st \<longleftrightarrow> distinct (map rv_id (snd st)) \<and> one_live st"

lemma health_inv_shrinks:
  "health_inv st \<Longrightarrow> distinct (map rv_id (snd st')) \<Longrightarrow> live_ids st' \<subseteq> live_ids st \<Longrightarrow> health_inv st'"
  unfolding health_inv_def using one_live_subset by blast

lemma live_ids_map:
  "(\<And>r. r \<in> set t \<Longrightarrow> rv_id (f r) = rv_id r \<and> rv_serviceId (f r) = rv_serviceId r \<and> (isLive (f r) \<longrightarrow> isLive r)) \<Longrightarrow>
   live_ids (pend, map f t) \<subseteq> live_ids (pend, t)"
  unfolding live_ids_def by force

lemma published_inv:
  assumes dep: "dep \<in> set t" and inv: "health_inv (pend, t)"
  shows "health_inv ((rv_serviceId dep, rv_id dep) # pend, updateRow (rv_id dep) (publishRow now src cid sid resolved) t)"
proof (rule health_inv_shrinks[OF inv])
  have d: "distinct (map rv_id t)" using inv by (simp add: health_inv_def)
  then show "distinct (map rv_id (snd ((rv_serviceId dep, rv_id dep) # pend, updateRow (rv_id dep) (publishRow now src cid sid resolved) t)))"
    by (simp add: map_rv_id_publish)
  show "live_ids ((rv_serviceId dep, rv_id dep) # pend, updateRow (rv_id dep) (publishRow now src cid sid resolved) t) \<subseteq> live_ids (pend, t)"
  proof (rule subrelI)
    fix s i
    assume m: "(s, i) \<in> live_ids ((rv_serviceId dep, rv_id dep) # pend, updateRow (rv_id dep) (publishRow now src cid sid resolved) t)"
    then obtain r where r: "r \<in> set t" "isLive (if rv_id r = rv_id dep then publishRow now src cid sid resolved r else r)"
      "rv_serviceId r = s" "rv_id r = i" "(s, i) \<notin> set pend" "(s, i) \<noteq> (rv_serviceId dep, rv_id dep)"
      unfolding live_member updateRow_def by (auto split: if_splits)
    then have "rv_id r \<noteq> rv_id dep" using same_id[OF d r(1) dep] by auto
    then show "(s, i) \<in> live_ids (pend, t)" using r unfolding live_member by auto
  qed
qed

lemma cleared_live:
  assumes "r \<in> set (clearSupersededHealth s i t)" "isLive r"
  shows "r \<in> set t" "rv_serviceId r = s \<Longrightarrow> rv_id r = i"
proof -
  obtain x where x: "x \<in> set t" "r = (if rv_serviceId x = s \<and> rv_id x \<noteq> i \<and> isLive x then x\<lparr>rv_health := None\<rparr> else x)"
    using assms(1) unfolding clearSupersededHealth_def by auto
  have "\<not> (rv_serviceId x = s \<and> rv_id x \<noteq> i \<and> isLive x)" using x(2) assms(2) by (auto simp: isLive_def)
  then have "r = x" unfolding x(2) by (rule if_not_P)
  then show "r \<in> set t" "rv_serviceId r = s \<Longrightarrow> rv_id r = i"
    using x assms(2) \<open>\<not> (rv_serviceId x = s \<and> rv_id x \<noteq> i \<and> isLive x)\<close> by simp_all
qed

lemma cleared_inv:
  assumes inv: "health_inv (pend, t)"
  shows "health_inv (remove1 (s, i) pend, clearSupersededHealth s i t)"
proof -
  have rows: "map rv_id (clearSupersededHealth s i t) = map rv_id t" by (simp add: clearSupersededHealth_def)
  have same: "(s, j) \<in> live_ids (remove1 (s, i) pend, clearSupersededHealth s i t) \<Longrightarrow> j = i" for j
    unfolding live_member snd_conv using cleared_live(2) by blast
  have others: "(s', j) \<in> live_ids (pend, t)"
    if "(s', j) \<in> live_ids (remove1 (s, i) pend, clearSupersededHealth s i t)" "s' \<noteq> s" for s' j
  proof -
    have "(s', j) \<notin> set pend" using that by (auto simp: live_member in_set_remove1)
    then show ?thesis using that(1) unfolding live_member fst_conv snd_conv using cleared_live(1) by blast
  qed
  have "one_live (remove1 (s, i) pend, clearSupersededHealth s i t)"
    unfolding one_live_def
  proof (intro allI impI)
    fix s' j j'
    assume l: "(s', j) \<in> live_ids (remove1 (s, i) pend, clearSupersededHealth s i t)"
      "(s', j') \<in> live_ids (remove1 (s, i) pend, clearSupersededHealth s i t)"
    show "j = j'"
    proof (cases "s' = s")
      case True
      then show ?thesis using same[of j] same[of j'] l by simp
    next
      case False
      then have "(s', j) \<in> live_ids (pend, t)" "(s', j') \<in> live_ids (pend, t)" using others l by blast+
      then show ?thesis using inv unfolding health_inv_def one_live_def by blast
    qed
  qed
  then show ?thesis using inv rows by (simp add: health_inv_def)
qed

lemma other_inv:
  assumes "same_health t t'" "health_inv (pend, t)"
  shows "health_inv (pend, t')"
proof -
  let ?h = "\<lambda>r. (rv_id r, rv_serviceId r, rv_health r)"
  have m: "map ?h t' = map ?h t" using assms(1) by (simp add: same_health_def)
  then have ids: "map (fst \<circ> ?h) t' = map (fst \<circ> ?h) t" unfolding map_map[symmetric] by (rule arg_cong)
  have "set (map ?h t') = set (map ?h t)" using m by (rule arg_cong)
  then have sub: "live_ids (pend, t') \<subseteq> live_ids (pend, t)"
    unfolding live_ids_def by (auto simp: isLive_def image_iff set_eq_iff) metis+
  then show ?thesis using health_inv_shrinks[OF assms(2), of "(pend, t')"] assms(2) ids
    by (simp add: health_inv_def comp_def)
qed

lemma health_step_inv: "health_step st st' \<Longrightarrow> health_inv st \<Longrightarrow> health_inv st'"
proof (induction rule: health_step.induct)
  case (created r t pend)
  have "live_ids (pend, t @ [r]) \<subseteq> live_ids (pend, t)" using created(1) by (auto simp: live_ids_def isLive_def)
  then show ?case using created by (intro health_inv_shrinks[OF created(3)]) (simp_all add: health_inv_def)
next
  case (deleted pend t P)
  have "live_ids (pend, filter P t) \<subseteq> live_ids (pend, t)" by (auto simp: live_ids_def)
  then show ?case using deleted by (intro health_inv_shrinks[OF deleted]) (simp_all add: health_inv_def distinct_map_filter)
next
  case (settled h pend t dep reason)
  let ?f = "\<lambda>r. if rv_id r = rv_id dep \<and> rv_health r = Some Watching then r\<lparr>rv_health := h, rv_healthReason := reason\<rparr> else r"
  have "map rv_id (map ?f t) = map rv_id t" by simp
  moreover have "live_ids (pend, map ?f t) \<subseteq> live_ids (pend, t)" by (rule live_ids_map) (simp add: isLive_def)
  ultimately show ?case unfolding settle_table
    using settled(2) by (intro health_inv_shrinks[OF settled(2)]) (simp_all only: health_inv_def snd_conv)
qed (rule published_inv cleared_inv other_inv; assumption)+

lemma health_reachable_inv: "health_step\<^sup>*\<^sup>* st st' \<Longrightarrow> health_inv st \<Longrightarrow> health_inv st'"
  by (induction rule: rtranclp_induct) (auto intro: health_step_inv)

text \<open>
  C33. In every state any interleaving of deploys, watches, creations and deletions reaches, a service none of whose deploys is
  between its two writes has at most one deployment marked healthy or watching.
\<close>

theorem one_live_revision:
  assumes "health_step\<^sup>*\<^sup>* ([], []) (pend, t)" "\<forall>i. (s, i) \<notin> set pend"
    and "r \<in> set t" "r' \<in> set t" "rv_serviceId r = s" "rv_serviceId r' = s"
    and "rv_health r \<in> {Some Healthy, Some Watching}" "rv_health r' \<in> {Some Healthy, Some Watching}"
  shows "r = r'"
proof -
  have "health_inv ([], [])" by (simp add: health_inv_def one_live_def live_ids_def)
  then have "health_inv (pend, t)" by (rule health_reachable_inv[OF assms(1)])
  then have d: "distinct (map rv_id t)" and o: "one_live (pend, t)" by (simp_all add: health_inv_def)
  have "(s, rv_id r) \<in> live_ids (pend, t)" "(s, rv_id r') \<in> live_ids (pend, t)"
    unfolding live_member using assms(2-) by (auto simp: isLive_def)
  then have "rv_id r = rv_id r'" using o unfolding one_live_def by blast
  then show ?thesis using same_id[OF d assms(3,4)] by blast
qed

section \<open>Superseded and rolled back\<close>

lemma settle_dropped:
  "\<forall>r \<in> set t. rv_id r = rv_id dep \<longrightarrow> rv_health r \<noteq> Some Watching \<Longrightarrow> settleHealth dep h reason t = (False, dep, t)"
  by (auto simp: settleHealth_def Let_def filter_empty_conv)

text \<open>Whatever a watch found, it does nothing once a newer deploy cleared its row.\<close>

theorem superseded_watch_is_silent:
  assumes "rv_serviceId dep = rv_serviceId newer" "rv_id newer \<noteq> rv_id dep"
    and "\<forall>r \<in> set t. rv_id r = rv_id dep \<longrightarrow> rv_serviceId r = rv_serviceId dep"
  shows "finishWatch origin time finished input ended before dep (recordSuccess now src cid sid resolved newer t)
         = ([], recordSuccess now src cid sid resolved newer t)"
proof -
  let ?t = "recordSuccess now src cid sid resolved newer t"
  have "\<forall>r \<in> set ?t. rv_id r = rv_id dep \<longrightarrow> rv_health r \<noteq> Some Watching"
  proof (intro ballI impI notI)
    fix r assume r: "r \<in> set ?t" "rv_id r = rv_id dep" "rv_health r = Some Watching"
    then have live: "isLive r" by (simp add: isLive_def)
    note c = cleared_live[OF r(1)[unfolded recordSuccess_def] live]
    obtain x where "x \<in> set t" "rv_id r = rv_id x" "rv_serviceId r = rv_serviceId x"
      using c(1) by (auto simp: updateRow_def)
    then have "rv_serviceId r = rv_serviceId newer" using assms(1,3) r(2) by simp
    then show False using c(2) r(2) assms(2) by simp
  qed
  then have d: "settleHealth dep h reason ?t = (False, dep, ?t)" for h reason by (rule settle_dropped)
  show ?thesis
    by (cases ended) (simp_all add: finishWatch_def finishUnhealthy_def d split: prod.splits)
qed

lemma listRevisions_members: "r \<in> set (listRevisions s t) \<Longrightarrow> r \<in> set t \<and> rv_serviceId r = s \<and> succeededRow r"
  unfolding listRevisions_def by (auto dest: in_set_takeD)

lemma previousRevision_in: "previousRevision rows i = Some r \<Longrightarrow> r \<in> set rows \<and> isRevision r"
  using find_Some_iff_first by (fastforce simp: previousRevision_def Let_def split: option.splits)

lemma rollbackTarget_Some:
  assumes "rollbackTarget svc dep t = (skip, Some r)"
  shows "ws_autoRollback svc" "\<not> isRollback (rv_rollbackOf dep) (rv_trigger dep)"
    "\<exists>p. previousRevision (listRevisions (ws_id svc) t) (Some (rv_id dep)) = Some p \<and> r = revisionRoot (listRevisions (ws_id svc) t) p"
    "r \<in> set t" "rv_serviceId r = ws_id svc" "succeededRow r"
proof -
  show "ws_autoRollback svc" "\<not> isRollback (rv_rollbackOf dep) (rv_trigger dep)"
    using assms by (auto simp: rollbackTarget_def split: if_splits)
  then obtain p where p: "previousRevision (listRevisions (ws_id svc) t) (Some (rv_id dep)) = Some p"
    "r = revisionRoot (listRevisions (ws_id svc) t) p"
    using assms by (auto simp: rollbackTarget_def Let_def)
  then show "\<exists>p. previousRevision (listRevisions (ws_id svc) t) (Some (rv_id dep)) = Some p \<and> r = revisionRoot (listRevisions (ws_id svc) t) p"
    by blast
  have "r \<in> set (listRevisions (ws_id svc) t)" using revisionRoot_in previousRevision_in p by blast
  then show "r \<in> set t" "rv_serviceId r = ws_id svc" "succeededRow r" using listRevisions_members by blast+
qed

lemma unhealthy_enqueues:
  assumes "EnqueueRollback i u \<in> set (fst (finishUnhealthy origin time input svc reason before dep t))"
  shows "\<exists>skip r. rollbackTarget svc dep before = (skip, Some r) \<and> i = rv_id r \<and> u = wa_userId input \<and>
           (\<exists>x \<in> set t. rv_id x = rv_id dep \<and> rv_health x = Some Watching)"
proof -
  obtain skip target where rt: "rollbackTarget svc dep before = (skip, target)" by (cases "rollbackTarget svc dep before")
  show ?thesis
  proof (cases "\<forall>x \<in> set t. rv_id x = rv_id dep \<longrightarrow> rv_health x \<noteq> Some Watching")
    case True
    from settle_dropped[OF this] show ?thesis using assms rt by (simp add: finishUnhealthy_def)
  next
    case False
    then show ?thesis using assms rt
      by (auto simp: finishUnhealthy_def Let_def split: prod.splits bool.splits option.splits)
  qed
qed

lemma watch_enqueues:
  assumes "EnqueueRollback i u \<in> set (fst (finishWatch origin time finished input ended before dep t))"
  obtains svc reason skip r where "ended = FoundUnhealthy svc reason" "rollbackTarget svc dep before = (skip, Some r)"
    "i = rv_id r" "u = wa_userId input" "\<exists>x \<in> set t. rv_id x = rv_id dep \<and> rv_health x = Some Watching"
proof -
  obtain svc reason where e: "ended = FoundUnhealthy svc reason"
    and m: "EnqueueRollback i u \<in> set (fst (finishUnhealthy origin time input svc reason before dep t))"
    using assms by (cases ended) (auto simp: finishWatch_def split: prod.splits bool.splits)
  show ?thesis using unhealthy_enqueues[OF m] that[OF e] by blast
qed

text \<open>
  C34. An automatic rollback is enqueued only by a watch that found its service unhealthy, for the user of the watch, with
  auto-rollback on for that service, while the deployment is still being watched and is not itself a rollback; it goes to the
  original of the previous revision of that same service, a deployment of it that succeeded. The deployment it creates, a
  manual one that names its original, never sets off another, whatever is found of it.
\<close>

theorem auto_rollback_once:
  assumes "EnqueueRollback i u \<in> set (fst (finishWatch origin time finished input ended before dep t))"
  shows "\<not> isRollback (rv_rollbackOf dep) (rv_trigger dep) \<and> u = wa_userId input
       \<and> (\<exists>svc reason. ended = FoundUnhealthy svc reason \<and> ws_autoRollback svc \<and>
            (\<exists>prev r. previousRevision (listRevisions (ws_id svc) before) (Some (rv_id dep)) = Some prev \<and>
               r = revisionRoot (listRevisions (ws_id svc) before) prev \<and> rv_id r = i \<and>
               r \<in> set before \<and> rv_serviceId r = ws_id svc \<and> succeededRow r))
       \<and> (\<exists>x \<in> set t. rv_id x = rv_id dep \<and> rv_health x = Some Watching)
       \<and> (i \<noteq> [] \<longrightarrow> rv_rollbackOf dep' = Some i \<longrightarrow> rv_trigger dep' = Some TManual \<longrightarrow>
            EnqueueRollback j v \<notin> set (fst (finishWatch origin' time' finished' input' ended' before' dep' t')))"
proof -
  obtain svc reason skip r where e: "ended = FoundUnhealthy svc reason" and r: "rollbackTarget svc dep before = (skip, Some r)"
    and i: "i = rv_id r" and u: "u = wa_userId input"
    and w: "\<exists>x \<in> set t. rv_id x = rv_id dep \<and> rv_health x = Some Watching"
    using watch_enqueues[OF assms] by blast
  note rt = rollbackTarget_Some[OF r]
  have never: "EnqueueRollback j v \<notin> set (fst (finishWatch origin' time' finished' input' ended' before' dep' t'))"
    if "i \<noteq> []" "rv_rollbackOf dep' = Some i" "rv_trigger dep' = Some TManual"
  proof
    assume "EnqueueRollback j v \<in> set (fst (finishWatch origin' time' finished' input' ended' before' dep' t'))"
    then obtain svc' skip' r' where "rollbackTarget svc' dep' before' = (skip', Some r')" by (rule watch_enqueues) blast
    from rollbackTarget_Some(2)[OF this] show False using that by (simp add: isRollback_def given_def)
  qed
  obtain prev where "previousRevision (listRevisions (ws_id svc) before) (Some (rv_id dep)) = Some prev"
    "r = revisionRoot (listRevisions (ws_id svc) before) prev" using rt(3) by blast
  then have "\<exists>prev r. previousRevision (listRevisions (ws_id svc) before) (Some (rv_id dep)) = Some prev \<and>
      r = revisionRoot (listRevisions (ws_id svc) before) prev \<and> rv_id r = i \<and> r \<in> set before \<and> rv_serviceId r = ws_id svc \<and> succeededRow r"
    using i rt(4-6) by (intro exI[of _ prev] exI[of _ r]) simp
  then show ?thesis using e u w rt(1,2) never by simp
qed

section \<open>Two ways to the original\<close>

lemma getForService_member:
  assumes "distinct (map rv_id t)" "r \<in> set t" "rv_serviceId r = s"
  shows "getForService s (rv_id r) t = Some r"
proof -
  obtain x where x: "getForService s (rv_id r) t = Some x"
    using assms(2,3) by (cases "getForService s (rv_id r) t") (auto simp: getForService_def find_None_iff)
  then have "x \<in> set t" "rv_id x = rv_id r" unfolding getForService_def using find_Some_iff_first by fastforce+
  then show ?thesis using x same_id[OF assms(1) _ assms(2)] by simp
qed

lemma getForService_in: "getForService s i t = Some r \<Longrightarrow> r \<in> set t \<and> rv_id r = i \<and> rv_serviceId r = s"
  unfolding getForService_def using find_Some_iff_first by fastforce

text \<open>\<open>#root\<close> walks through the database at most ten levels; where it arrives at a root, it is the one \<open>revisionRoot\<close> finds.\<close>

lemma rootWalk_rootFrom:
  assumes d: "distinct (map rv_id t)" and o: "older_parents t" and s: "\<forall>r \<in> set t. rv_serviceId r = s"
    and named: "\<forall>r \<in> set t. rv_id r \<noteq> []"
  shows "r \<in> set t \<Longrightarrow> \<forall>x \<in> set t. rv_id x \<in> set seen \<longrightarrow> rv_createdAt r \<le> rv_createdAt x \<Longrightarrow>
         is_root t (rootWalk left s t r) \<Longrightarrow> rootWalk left s t r = rootFrom t seen r"
proof (induction left arbitrary: r seen)
  case 0
  have "byId t i = None" if "rv_rollbackOf r = Some i" for i
  proof (cases "byId t i")
    case (Some p)
    then have "p \<in> set t" "rv_id p = i" using byId_in by auto
    then show ?thesis using 0(3) that named by (auto simp: is_root_def)
  qed
  then show ?case by (subst rootFrom.simps) (auto simp: given_def split: option.splits)
next
  case (Suc left)
  show ?case
  proof (cases "given (rv_rollbackOf r)")
    case False
    then show ?thesis by (subst rootFrom.simps) simp
  next
    case g: True
    then obtain i where i: "rv_rollbackOf r = Some i" by (auto simp: given_def split: option.splits)
    show ?thesis
    proof (cases "byId t i")
      case None
      then have "getForService s i t = None" using getForService_in byId_None by (metis not_None_eq)
      then show ?thesis using None i g by (subst rootFrom.simps) simp
    next
      case (Some p)
      then have p: "p \<in> set t" "rv_id p = i" using byId_in by auto
      then have get: "getForService s i t = Some p" using getForService_member[OF d] s by blast
      have older: "rv_createdAt p < rv_createdAt r" using o Suc.prems(1) p i by (simp add: older_parents_def)
      then have new: "rv_id p \<notin> set seen" using Suc.prems(2) p by fastforce
      have seen: "\<forall>x \<in> set t. rv_id x \<in> set (rv_id p # seen) \<longrightarrow> rv_createdAt p \<le> rv_createdAt x"
        using Suc.prems(2) older p same_id[OF d] by fastforce
      have step: "rootWalk (Suc left) s t r = rootWalk left s t p" using g i get by simp
      have "rootWalk left s t p = rootFrom t (rv_id p # seen) p"
        using Suc.IH[OF p(1) seen] Suc.prems(3) unfolding step by blast
      moreover have "rootFrom t seen r = rootFrom t (rv_id p # seen) p"
        using g Some i new by (subst rootFrom.simps) simp
      ultimately show ?thesis using step by simp
    qed
  qed
qed

theorem explicit_rollback_target:
  assumes "well_recorded t" "\<forall>r \<in> set t. rv_serviceId r = wl_id svc" "r \<in> set t"
    and "is_root t (rootWalk MAX_ROOT_DEPTH (wl_id svc) t r)"
  shows "resolveTarget retained t svc (Some (rv_id r)) =
         (if isRevision (revisionRoot t r) then Inr (revisionRoot t r)
          else Inl (RevisionError ''That revision wasn't found, or never ran successfully.'' 404))"
proof -
  have d: "distinct (map rv_id t)" "older_parents t" "\<forall>r \<in> set t. rv_id r \<noteq> []"
    using assms(1) by (simp_all add: well_recorded_def)
  have g: "given (Some (rv_id r))" using d(3) assms(3) by (simp add: given_def)
  have get: "getForService (wl_id svc) (rv_id r) t = Some r"
    using getForService_member[OF d(1) assms(3)] assms(2,3) by blast
  have seen: "\<forall>x \<in> set t. rv_id x \<in> set [rv_id r] \<longrightarrow> rv_createdAt r \<le> rv_createdAt x"
    using same_id[OF d(1) _ assms(3)] by fastforce
  have "rootWalk MAX_ROOT_DEPTH (wl_id svc) t r = revisionRoot t r"
    unfolding revisionRoot_def by (rule rootWalk_rootFrom[OF d(1,2) assms(2) d(3) assms(3) seen assms(4)])
  then show ?thesis unfolding resolveTarget_def using g get by simp
qed

section \<open>Examples\<close>

definition sampleWatched :: watchedService where
  "sampleWatched = \<lparr> ws_id = ''s'', ws_name = ''app'', ws_containerId = Some ''c'', ws_swarmServiceId = None,
     ws_autoRollback = True, ws_desiredStopped = False, ws_healthcheckDisabled = False, ws_dnsResolvable = True,
     ws_networkMode = NetBridge \<rparr>"

definition sampleContainer :: "ContainerState \<Rightarrow> WorkloadHealthSample" where
  "sampleContainer st = OfContainer \<lparr> sa_exitCode = Some 1, sa_health = HNone, sa_healthOutput = None,
     sa_restartCount = 0, sa_state = st \<rparr>"

definition sampleWatch :: RevisionWatch where
  "sampleWatch = \<lparr> wa_deploymentId = ''b'', wa_serviceId = ''s'', wa_userId = ''u'', wa_startedAt = 0,
     wa_containerId = Some ''c'', wa_swarmServiceId = None, wa_baseline = sampleContainer CRunning \<rparr>"

definition sampleTable :: deployments where
  "sampleTable = [sampleDeployment ''a'' 1 None None, sampleDeployment ''b'' 2 None (Some Watching)]"

definition samplePoll :: "ContainerState \<Rightarrow> timestamp \<Rightarrow> poll" where
  "samplePoll st now = \<lparr> po_deployments = sampleTable, po_service = Some sampleWatched,
     po_sample = sampleContainer st, po_probe = None, po_now = now \<rparr>"

lemmas sample_watch_defs = sampleWatched_def sampleContainer_def sampleWatch_def sampleTable_def samplePoll_def
  sampleDeployment_def

theorem watch_ends_witness:
  "\<exists>ended rest. watchLoop sampleWatch [samplePoll CRunning 5000, samplePoll CRunning 300000] = Some (ended, rest)
     \<and> (\<exists>q \<in> set [samplePoll CRunning 5000, samplePoll CRunning 300000]. ends_at sampleWatch ended q)"
  by (rule watch_ends[where p = "samplePoll CRunning 300000"]) (simp_all add: samplePoll_def sampleWatch_def)

definition publishedTable :: deployments where
  "publishedTable =
     recordSuccess 5 SourceImage None None \<lparr> ri_digest = None, ri_image = ''b'', ri_imageId = None, ri_tag = ''1'' \<rparr>
       (sampleDeployment ''b'' 2 None None) [sampleDeployment ''a'' 1 None None, sampleDeployment ''b'' 2 None None]"

lemma published_reachable: "health_step\<^sup>*\<^sup>* ([], []) ([], publishedTable)"
proof -
  let ?a = "sampleDeployment ''a'' 1 None None" and ?b = "sampleDeployment ''b'' 2 None None"
  let ?resolved = "\<lparr> ri_digest = None, ri_image = ''b'', ri_imageId = None, ri_tag = ''1'' \<rparr>"
  let ?p = "updateRow (rv_id ?b) (publishRow 5 SourceImage None None ?resolved) [?a, ?b]"
  have "health_step ([], []) ([], [] @ [?a])" by (rule health_step.created) (simp_all add: sampleDeployment_def)
  moreover have "health_step ([], [?a]) ([], [?a] @ [?b])" by (rule health_step.created) (simp_all add: sampleDeployment_def)
  moreover have "health_step ([], [?a, ?b]) ([(rv_serviceId ?b, rv_id ?b)], ?p)" by (rule health_step.published) simp
  moreover have "health_step ([(rv_serviceId ?b, rv_id ?b)], ?p)
      (remove1 (rv_serviceId ?b, rv_id ?b) [(rv_serviceId ?b, rv_id ?b)], clearSupersededHealth (rv_serviceId ?b) (rv_id ?b) ?p)"
    by (rule health_step.cleared) simp
  moreover have "publishedTable = clearSupersededHealth (rv_serviceId ?b) (rv_id ?b) ?p"
    by (simp add: publishedTable_def recordSuccess_def sampleDeployment_def)
  ultimately show ?thesis by (simp add: converse_rtranclp_into_rtranclp)
qed

lemma published_rows: "length publishedTable = 2" "rv_serviceId (publishedTable ! 1) = ''s''"
  "rv_health (publishedTable ! 1) = Some Watching"
  by code_simp+

theorem one_live_revision_witness: "publishedTable ! 1 = last publishedTable"
proof -
  have l: "publishedTable ! 1 \<in> set publishedTable" "last publishedTable = publishedTable ! 1"
    using published_rows(1) by (simp_all add: last_conv_nth flip: length_greater_0_conv)
  show ?thesis
    by (rule one_live_revision[OF published_reachable, of "''s''"]) (use l published_rows in simp_all)
qed

definition sampleRollback :: deploymentRow where
  "sampleRollback = sampleDeployment ''d'' 9 (Some ''a'') (Some Watching)"

theorem auto_rollback_once_witness:
  "(\<exists>r \<in> set sampleTable. rv_id r = ''a'' \<and> succeededRow r) \<and>
   EnqueueRollback ''x'' ''u'' \<notin> set (fst (finishWatch None ''t'' 9 sampleWatch (FoundUnhealthy sampleWatched ''down'')
     [sampleRollback] sampleRollback [sampleRollback]))"
proof -
  have "EnqueueRollback ''a'' ''u'' \<in> set (fst (finishWatch None ''t'' 5 sampleWatch
          (FoundUnhealthy sampleWatched ''down'') sampleTable (sampleTable ! 1) sampleTable))"
    by code_simp
  note once = auto_rollback_once[OF this, where dep' = sampleRollback and j = "''x''" and v = "''u''"]
  have "rv_rollbackOf sampleRollback = Some ''a''" "rv_trigger sampleRollback = Some TManual"
    by (simp_all add: sampleRollback_def sampleDeployment_def)
  then show ?thesis using once by blast
qed

theorem explicit_rollback_target_witness:
  "resolveTarget 5 sampleHistory \<lparr> wl_id = ''s'', wl_containerId = Some ''c'', wl_swarmServiceId = None \<rparr> (Some ''c'')
   = Inr (sampleDeployment ''a'' 1 None None)"
proof -
  let ?svc = "\<lparr> wl_id = ''s'', wl_containerId = Some ''c'', wl_swarmServiceId = None \<rparr>"
  let ?c = "sampleDeployment ''c'' 3 (Some ''a'') (Some Healthy)"
  have root: "revisionRoot sampleHistory ?c = sampleDeployment ''a'' 1 None None" by code_simp
  have walk: "rootWalk MAX_ROOT_DEPTH (wl_id ?svc) sampleHistory ?c = sampleDeployment ''a'' 1 None None" by code_simp
  have "resolveTarget 5 sampleHistory ?svc (Some (rv_id ?c)) =
         (if isRevision (revisionRoot sampleHistory ?c) then Inr (revisionRoot sampleHistory ?c)
          else Inl (RevisionError ''That revision wasn't found, or never ran successfully.'' 404))"
    by (rule explicit_rollback_target[OF sampleHistory_recorded])
       (simp_all only: walk, simp_all add: sampleHistory_def sampleDeployment_def is_root_def)
  then show ?thesis unfolding root by (simp add: sampleDeployment_def isRevision_def given_def)
qed

end
