(* ===== verification/Deploy_Queue.thy ===== *)
theory Deploy_Queue
  imports Revision_Health Service_Graph Path_Patterns
begin

text \<open>
  \<open>enqueueDeploy\<close> and \<open>enqueueStackDeploy\<close> of \<open>src/lib/services/deploy.service.ts\<close> with \<open>DeploymentDTO.create\<close>: a
  deployment row is written and a job queued for it, or the deployment gives way to one that is queued already; a stack's
  services are queued in the order of their dependencies, each job after the one before. New ids, the clock's readings
  and what other writers make of the job table in between are arguments; server logging is left out.
\<close>

record deploySys =
  ds_deployments :: deployments
  ds_jobs :: table
  ds_status :: "DeploymentStatus js_map"

record deployedService =
  dq_id :: string
  dq_name :: string
  dq_fromImage :: bool
  dq_channelCanary :: bool
  dq_environmentName :: "string option"
  dq_previewParentId :: "string option"

text \<open>An absent field is \<open>None\<close>; \<open>gitCommit\<close> may be absent, null or a commit.\<close>

record EnqueueDeployInput =
  ed_clientDeploymentId :: "string option"
  ed_dependsOnJobId :: "string option"
  ed_gitCommit :: "string option option"
  ed_mountSwap :: "(string \<times> string) option"
  ed_noCache :: "bool option"
  ed_note :: "string option"
  ed_restoreConfig :: "bool option"
  ed_rollbackOf :: "string option"
  ed_svc :: deployedService
  ed_trigger :: "DeployTrigger option"
  ed_userId :: string

record EnqueueDeployResult =
  er_deploymentId :: string
  er_jobId :: string

datatype deployError = DeploymentExists | NotQueued | PayloadUnreadable

text \<open>What a call draws from outside: new ids, the time, pruning, and the writers in between.\<close>

record draw =
  dw_deploymentUuid :: string
  dw_jobUuid :: string
  dw_now :: timestamp
  dw_prune :: bool
  dw_race :: "table \<Rightarrow> table"
  dw_race2 :: "table \<Rightarrow> table"

definition inputTrigger :: "EnqueueDeployInput \<Rightarrow> DeployTrigger" where
  "inputTrigger input = (case ed_trigger input of Some t \<Rightarrow> t | None \<Rightarrow> TManual)"

definition deployKind :: "EnqueueDeployInput \<Rightarrow> string" where
  "deployKind input =
     (if inputTrigger input = TPromote then ''promote''
      else if given (ed_rollbackOf input) then ''rollback'' else ''deploy'')"

definition trigger_text :: "DeployTrigger \<Rightarrow> string" where
  "trigger_text t = (case t of TManual \<Rightarrow> ''manual'' | TCron \<Rightarrow> ''cron'' | TPush \<Rightarrow> ''push'' | TPromote \<Rightarrow> ''promote'')"

definition ENQUEUE_TITLES :: "string js_map" where
  "ENQUEUE_TITLES = [(''deploy'', ''Deploy''), (''promote'', ''Promote to''), (''rollback'', ''Roll back'')]"

definition recordedCommit :: "EnqueueDeployInput \<Rightarrow> deployments \<Rightarrow> string option" where
  "recordedCommit input t =
     (case ed_gitCommit input of
        Some commit \<Rightarrow> commit
      | None \<Rightarrow>
          if given (ed_rollbackOf input) \<or> \<not> dq_fromImage (ed_svc input) \<or> \<not> given (dq_previewParentId (ed_svc input)) then None
          else (case listDeployments (dq_id (ed_svc input)) 1 t of r # _ \<Rightarrow> rv_gitCommit r | [] \<Rightarrow> None))"

text \<open>The row \<open>DeploymentDTO.create\<close> inserts for a deploy.\<close>

definition newDeployment :: "string \<Rightarrow> timestamp \<Rightarrow> EnqueueDeployInput \<Rightarrow> deployments \<Rightarrow> deploymentRow" where
  "newDeployment uuid now input t =
     \<lparr> rv_buildSource = None,
       rv_configSnapshot = None,
       rv_containerId = None,
       rv_createdAt = now,
       rv_environment = deployEnvironment (dq_channelCanary (ed_svc input)) (dq_environmentName (ed_svc input))
                          (dq_previewParentId (ed_svc input)),
       rv_errorMessage = None,
       rv_finishedAt = None,
       rv_gitCommit = recordedCommit input t,
       rv_gitRef = None,
       rv_health = None,
       rv_healthReason = None,
       rv_id = (if given (ed_clientDeploymentId input) then the (ed_clientDeploymentId input) else uuid),
       rv_imageDigest = None,
       rv_imageId = None,
       rv_imageRef = None,
       rv_log = Some (if given (ed_note input) then the (ed_note input) @ [CHR 10] else []),
       rv_restoreConfig = (deployKind input = ''rollback'' \<and> ed_restoreConfig input = Some True),
       rv_rollbackOf = ed_rollbackOf input,
       rv_serviceId = dq_id (ed_svc input),
       rv_startedAt = Some now,
       rv_status = DPending,
       rv_trigger = Some (inputTrigger input),
       rv_userId = ed_userId input \<rparr>"

definition deployJobInput :: "string \<Rightarrow> EnqueueDeployInput \<Rightarrow> NewJobInput" where
  "deployJobInput deploymentId input =
     \<lparr> in_dedupeKey =
         Some (deployKind input @ '':'' @ dq_id (ed_svc input) @
               (case ed_mountSwap input of Some (_, to) \<Rightarrow> '':mount:'' @ to | None \<Rightarrow> [])),
       in_dependsOnJobId = ed_dependsOnJobId input,
       in_exclusive = None,
       in_lockKey = Some (''service:'' @ dq_id (ed_svc input)),
       in_maxAttempts = None,
       in_payload =
         [(''deploymentId'', JStr deploymentId)] @
         (case ed_mountSwap input of
            Some (swapFrom, to) \<Rightarrow> [(''mountSwap'', JObj [(''from'', JStr swapFrom), (''to'', JStr to)])] | None \<Rightarrow> []) @
         [(''noCache'', JBool (ed_noCache input = Some True)),
          (''serviceId'', JStr (dq_id (ed_svc input))),
          (''trigger'', JStr (trigger_text (inputTrigger input))),
          (''userId'', JStr (ed_userId input))],
       in_priority = None,
       in_runAt = None,
       in_serviceId = Some (dq_id (ed_svc input)),
       in_title = the (map_of ENQUEUE_TITLES (deployKind input)) @ '' '' @ dq_name (ed_svc input),
       in_type = Deploy,
       in_userId = ed_userId input \<rparr>"

definition SUPERSEDED :: string where
  "SUPERSEDED = ''Superseded by a deploy that was already queued for this service.''"

definition giveWay :: "timestamp \<Rightarrow> string \<Rightarrow> string \<Rightarrow> string option option \<Rightarrow> deployments \<Rightarrow> deployments" where
  "giveWay now own coalesced gitCommit t =
     (let t' = updateRow own (\<lambda>r. r\<lparr>rv_errorMessage := Some SUPERSEDED, rv_finishedAt := Some now, rv_status := DStopped\<rparr>) t
      in case gitCommit of
           None \<Rightarrow> t'
         | Some commit \<Rightarrow> updateRow coalesced (\<lambda>r. r\<lparr>rv_gitCommit := commit\<rparr>) t')"

definition enqueueDeploy :: "draw \<Rightarrow> EnqueueDeployInput \<Rightarrow> deploySys \<Rightarrow> (deployError + EnqueueDeployResult) \<times> deploySys" where
  "enqueueDeploy w input st =
     (let dep = newDeployment (dw_deploymentUuid w) (dw_now w) input (ds_deployments st)
      in if rv_id dep \<in> rv_id ` set (ds_deployments st) then (Inl DeploymentExists, st)
         else
           (let st = st\<lparr>ds_deployments := ds_deployments st @ [dep],
                        ds_status := AList.update (dq_id (ed_svc input)) DPending (ds_status st)\<rparr>
            in case enqueue (dw_jobUuid w) (dw_now w) (dw_prune w) (dw_now w) (dw_race w) (dw_race2 w)
                      (deployJobInput (rv_id dep) input) (ds_jobs st) of
                 (Inl _, jobs) \<Rightarrow> (Inl NotQueued, st\<lparr>ds_jobs := jobs\<rparr>)
               | (Inr entry, jobs) \<Rightarrow>
                   (case deployJobPayload (job_payload entry) of
                      None \<Rightarrow> (Inl PayloadUnreadable, st\<lparr>ds_jobs := jobs\<rparr>)
                    | Some (coalesced, _) \<Rightarrow>
                        (Inr \<lparr> er_deploymentId = coalesced, er_jobId = job_id entry \<rparr>,
                         st\<lparr>ds_jobs := jobs,
                            ds_deployments :=
                              (if coalesced \<noteq> rv_id dep
                               then giveWay (dw_now w) (rv_id dep) coalesced (ed_gitCommit input) (ds_deployments st)
                               else ds_deployments st)\<rparr>))))"

text \<open>A deploy of a service with nothing but the job it waits for.\<close>

definition plainDeploy :: "deployedService \<Rightarrow> string \<Rightarrow> string option \<Rightarrow> EnqueueDeployInput" where
  "plainDeploy svc userId dependsOn =
     \<lparr> ed_clientDeploymentId = None, ed_dependsOnJobId = dependsOn, ed_gitCommit = None, ed_mountSwap = None,
       ed_noCache = None, ed_note = None, ed_restoreConfig = None, ed_rollbackOf = None, ed_svc = svc,
       ed_trigger = None, ed_userId = userId \<rparr>"

text \<open>The loop of \<open>enqueueStackDeploy\<close> and the primary service after it; the draws of the calls in order.\<close>

fun enqueueChain ::
  "string \<Rightarrow> deployedService list \<Rightarrow> string option \<Rightarrow> draw list \<Rightarrow> deploySys \<Rightarrow>
   (deployError + EnqueueDeployResult) \<times> deploySys" where
  "enqueueChain userId (svc # rest) dependsOn (w # ws) st =
     (case enqueueDeploy w (plainDeploy svc userId dependsOn) st of
        (Inl e, st') \<Rightarrow> (Inl e, st')
      | (Inr r, st') \<Rightarrow> if rest = [] then (Inr r, st') else enqueueChain userId rest (Some (er_jobId r)) ws st')"
| "enqueueChain userId _ dependsOn _ st = (Inl NotQueued, st)"

definition linkedInOrder :: "deployedService list \<Rightarrow> dep_map \<Rightarrow> deployedService list" where
  "linkedInOrder linked deps =
     (let byId = fold (\<lambda>svc m. AList.update (dq_id svc) svc m) linked []
      in List.map_filter (map_of byId) (stackDeployOrder (map dq_id linked) deps))"

definition enqueueStackDeploy ::
  "draw list \<Rightarrow> deployedService \<Rightarrow> deployedService list \<Rightarrow> string \<Rightarrow> dep_map \<Rightarrow> deploySys \<Rightarrow>
   (deployError + EnqueueDeployResult) \<times> deploySys" where
  "enqueueStackDeploy ws primary linked userId deps st =
     enqueueChain userId (linkedInOrder linked deps @ [primary]) None ws st"

end
