(* ===== verification/Deploy_Theorems.thy ===== *)
theory Deploy_Theorems
  imports Deploy_Queue Worker_Theorems Graph_Theorems
begin

text \<open>
  Properties of queueing deploys: a deploy always ends in a queued job of its kind for its service, its own deployment
  giving way when one was queued already; a stack's services are chained in the order of their dependencies; and that
  order is lost when one of them had a deploy queued before.
\<close>

section \<open>Services and draws for the instances below\<close>

definition stackService :: "string \<Rightarrow> deployedService" where
  "stackService i = \<lparr> dq_id = i, dq_name = i, dq_fromImage = True, dq_channelCanary = False, dq_environmentName = None,
     dq_previewParentId = None \<rparr>"

definition quietDraw :: "string \<Rightarrow> timestamp \<Rightarrow> draw" where
  "quietDraw i now = \<lparr> dw_deploymentUuid = ''d'' @ i, dw_jobUuid = ''j'' @ i, dw_now = now, dw_prune = False,
     dw_race = (\<lambda>u. u), dw_race2 = (\<lambda>u. u) \<rparr>"

definition idleSystem :: deploySys where
  "idleSystem = \<lparr> ds_deployments = [], ds_jobs = [], ds_status = [] \<rparr>"

definition queuedBefore :: deploySys where
  "queuedBefore = snd (enqueueDeploy (quietDraw ''0'' 1) (plainDeploy (stackService ''api'') ''u'' None) idleSystem)"

section \<open>One deploy\<close>

lemma deployJobPayload_input:
  "deployJobPayload (in_payload (deployJobInput d input)) = Some (d, dq_id (ed_svc input))"
  by (cases "ed_mountSwap input"; cases "inputTrigger input")
     (auto simp: deployJobInput_def deployJobPayload_def mountSwapOk_def isStr_def trigger_text_def DEPLOY_TRIGGERS_def)

lemma job_payload_newRow [simp]: "job_payload (newRow uuid now input) = in_payload input" "job_id (newRow uuid now input) = uuid"
  "job_status (newRow uuid now input) = Queued" "job_dependsOnJobId (newRow uuid now input) = in_dependsOnJobId input"
  "job_serviceId (newRow uuid now input) = in_serviceId input" "job_dedupeKey (newRow uuid now input) = in_dedupeKey input"
  "job_type (newRow uuid now input) = in_type input"
  by (simp_all add: newRow_def)

lemma deployJobInput_fields [simp]:
  "in_type (deployJobInput d input) = Deploy" "in_serviceId (deployJobInput d input) = Some (dq_id (ed_svc input))"
  "in_dependsOnJobId (deployJobInput d input) = ed_dependsOnJobId input"
  "in_dedupeKey (deployJobInput d input) \<noteq> Some []"
  by (simp_all add: deployJobInput_def deployKind_def)













text \<open>A writer that queues a deploy of the service between the look-up and the insert, and one that claims it at once.\<close>

definition otherDeploy :: job where
  "otherDeploy = newRow ''other'' 0 (deployJobInput ''theirs'' (plainDeploy (stackService ''api'') ''u'' None))"

definition overtaken :: "(table \<Rightarrow> table) \<Rightarrow> draw" where
  "overtaken race2 = (quietDraw ''0'' 1)\<lparr>dw_race := (\<lambda>u. u @ [otherDeploy]), dw_race2 := race2\<rparr>"


text \<open>
  The exception happens: a deploy queued by someone else between the two and claimed at once makes the request fail, with
  its deployment left pending for good, as no job will ever run it.
\<close>

theorem pending_deploy_without_job:
  "let w = overtaken (map (\<lambda>j. j\<lparr>job_status := Running\<rparr>));
       (r, st') = enqueueDeploy w (plainDeploy (stackService ''api'') ''u'' None) idleSystem
   in r = Inl NotQueued \<and> map_option rv_status (getDeployment ''d0'' (ds_deployments st')) = Some DPending \<and>
      ds_status st' = [(''api'', DPending)] \<and> map job_id (ds_jobs st') = [''other'']"
  by code_simp

section \<open>A chain of deploys\<close>

text \<open>Nothing is queued to deploy the service.\<close>

definition nothingQueued :: "string \<Rightarrow> table \<Rightarrow> bool" where
  "nothingQueued s t \<longleftrightarrow>
     (\<forall>j \<in> set t. job_status j = Queued \<longrightarrow> job_type j = Deploy \<longrightarrow> job_dedupeKey j \<noteq> Some (''deploy:'' @ s))"

lemma plain_key: "in_dedupeKey (deployJobInput d (plainDeploy svc u dep)) = Some (''deploy:'' @ dq_id svc)"
  by (simp add: deployJobInput_def deployKind_def plainDeploy_def inputTrigger_def given_def)

lemma plain_fields [simp]:
  "ed_svc (plainDeploy svc u dep) = svc" "ed_dependsOnJobId (plainDeploy svc u dep) = dep"
  "rv_id (newDeployment uuid now (plainDeploy svc u dep) t) = uuid"
  by (simp_all add: plainDeploy_def newDeployment_def given_def)

lemma enqueueDeploy_new:
  assumes jobs: "constraintsOk (ds_jobs st)" "nothingQueued (dq_id svc) (ds_jobs st)"
    and w: "dw_race w = (\<lambda>u. u)" "dw_jobUuid w \<notin> job_id ` set (ds_jobs st)"
      "dw_deploymentUuid w \<notin> rv_id ` set (ds_deployments st)"
  obtains st' row where
    "enqueueDeploy w (plainDeploy svc u dep) st = (Inr \<lparr> er_deploymentId = dw_deploymentUuid w, er_jobId = dw_jobUuid w \<rparr>, st')"
    "row = newRow (dw_jobUuid w) (dw_now w) (deployJobInput (dw_deploymentUuid w) (plainDeploy svc u dep))"
    "constraintsOk (ds_jobs st')" "set (ds_jobs st') \<subseteq> insert row (set (ds_jobs st))"
    "\<And>j. job_status j = Queued \<Longrightarrow> j \<in> set (ds_jobs st') \<longleftrightarrow> j = row \<or> j \<in> set (ds_jobs st)"
    "rv_id ` set (ds_deployments st') = insert (dw_deploymentUuid w) (rv_id ` set (ds_deployments st))"
proof -
  let ?in = "deployJobInput (dw_deploymentUuid w) (plainDeploy svc u dep)"
  let ?row = "newRow (dw_jobUuid w) (dw_now w) ?in"
  let ?t = "if dw_prune w then prune (dw_now w) (ds_jobs st @ [?row]) else ds_jobs st @ [?row]"
  have free: "\<not> list_ex (\<lambda>j. job_id j = job_id ?row \<or> dedupeConflict j ?row) (ds_jobs st)"
    using jobs(2) w(2) plain_key[of "dw_deploymentUuid w" svc u dep]
    by (auto simp: list_ex_iff dedupeConflict_def nothingQueued_def image_iff)
  have none: "findQueued Deploy (''deploy:'' @ dq_id svc) (ds_jobs st) = None"
    using jobs(2) by (auto simp: findQueued_def find_None_iff nothingQueued_def)
  have e: "enqueue (dw_jobUuid w) (dw_now w) (dw_prune w) (dw_now w) (dw_race w) (dw_race2 w) ?in (ds_jobs st) = (Inr ?row, ?t)"
    unfolding enqueue_def plain_key using none free w(1) by (simp add: create_def Let_def)
  have ok: "constraintsOk ?t" using constraintsOk_snoc[OF jobs(1) free] constraintsOk_prune by simp
  have sub: "set ?t \<subseteq> insert ?row (set (ds_jobs st))" by (auto simp: prune_def)
  have mem: "job_status j = Queued \<Longrightarrow> j \<in> set ?t \<longleftrightarrow> j = ?row \<or> j \<in> set (ds_jobs st)" for j
    using prune_keeps_queued[of j "dw_now w" "ds_jobs st @ [?row]"] by auto
  obtain st' where st': "enqueueDeploy w (plainDeploy svc u dep) st
      = (Inr \<lparr> er_deploymentId = dw_deploymentUuid w, er_jobId = dw_jobUuid w \<rparr>, st')"
    "ds_jobs st' = ?t" "rv_id ` set (ds_deployments st') = insert (dw_deploymentUuid w) (rv_id ` set (ds_deployments st))"
    using e w(3) deployJobPayload_input[of "dw_deploymentUuid w" "plainDeploy svc u dep"]
    by (simp add: enqueueDeploy_def Let_def)
  show ?thesis by (rule that[OF st'(1) refl]) (use ok sub mem st' in simp_all)
qed

lemma nothingQueued_row:
  "nothingQueued s t \<Longrightarrow> s \<noteq> dq_id svc \<Longrightarrow>
   set t' \<subseteq> insert (newRow i now (deployJobInput d (plainDeploy svc u dep))) (set t) \<Longrightarrow> nothingQueued s t'"
  unfolding nothingQueued_def using plain_key[of d svc u dep] by fastforce

text \<open>Draws without a writer in between, their ids new and different.\<close>

definition freshDraws :: "draw list \<Rightarrow> deploySys \<Rightarrow> bool" where
  "freshDraws ws st \<longleftrightarrow>
     (\<forall>w \<in> set ws. dw_race w = (\<lambda>u. u) \<and> dw_jobUuid w \<notin> job_id ` set (ds_jobs st)
        \<and> dw_deploymentUuid w \<notin> rv_id ` set (ds_deployments st))
     \<and> distinct (map dw_jobUuid ws) \<and> distinct (map dw_deploymentUuid ws)"

lemma freshDraws_step:
  assumes "freshDraws (w # ws) st" "job_id ` set (ds_jobs st1) \<subseteq> insert (dw_jobUuid w) (job_id ` set (ds_jobs st))"
    "rv_id ` set (ds_deployments st1) = insert (dw_deploymentUuid w) (rv_id ` set (ds_deployments st))"
  shows "freshDraws ws st1"
proof -
  have out: "dw_jobUuid v \<noteq> dw_jobUuid w" "dw_deploymentUuid v \<noteq> dw_deploymentUuid w"
      "dw_race v = (\<lambda>u. u)" "dw_jobUuid v \<notin> job_id ` set (ds_jobs st)" "dw_deploymentUuid v \<notin> rv_id ` set (ds_deployments st)"
    if "v \<in> set ws" for v
  proof -
    have "dw_jobUuid w \<notin> dw_jobUuid ` set ws" "dw_deploymentUuid w \<notin> dw_deploymentUuid ` set ws"
      using assms(1) by (simp_all add: freshDraws_def)
    moreover have "dw_jobUuid v \<in> dw_jobUuid ` set ws" "dw_deploymentUuid v \<in> dw_deploymentUuid ` set ws"
      using that by (rule imageI)+
    ultimately show "dw_jobUuid v \<noteq> dw_jobUuid w" "dw_deploymentUuid v \<noteq> dw_deploymentUuid w" by auto
  qed (use assms(1) that in \<open>simp_all add: freshDraws_def\<close>)
  have dist: "distinct (map dw_jobUuid ws)" "distinct (map dw_deploymentUuid ws)"
    using assms(1) by (simp_all add: freshDraws_def)
  have "dw_jobUuid v \<notin> job_id ` set (ds_jobs st1)" "dw_deploymentUuid v \<notin> rv_id ` set (ds_deployments st1)"
    if v: "v \<in> set ws" for v
    using out(1,2,4,5)[OF v] assms(2,3) by blast+
  then show ?thesis unfolding freshDraws_def using out(3) dist by blast
qed

text \<open>The queued jobs of a chain: each waits for the one before.\<close>

definition chainJob :: "draw list \<Rightarrow> deployedService list \<Rightarrow> string option \<Rightarrow> table \<Rightarrow> nat \<Rightarrow> job \<Rightarrow> bool" where
  "chainJob ws svcs dependsOn t k j \<longleftrightarrow>
     j \<in> set t \<and> job_id j = dw_jobUuid (ws ! k) \<and> job_status j = Queued \<and> job_type j = Deploy \<and>
     job_serviceId j = Some (dq_id (svcs ! k)) \<and>
     job_dependsOnJobId j = (if k = 0 then dependsOn else Some (dw_jobUuid (ws ! (k - 1))))"

lemma chain_queued:
  assumes "svcs \<noteq> []" "length svcs \<le> length ws" "distinct (map dq_id svcs)" "constraintsOk (ds_jobs st)"
    "\<forall>svc \<in> set svcs. nothingQueued (dq_id svc) (ds_jobs st)" "freshDraws ws st"
  shows "\<exists>r st'. enqueueChain u svcs dependsOn ws st = (Inr r, st') \<and>
     er_jobId r = dw_jobUuid (ws ! (length svcs - 1)) \<and> constraintsOk (ds_jobs st') \<and>
     (\<forall>j \<in> set (ds_jobs st). job_status j = Queued \<longrightarrow> j \<in> set (ds_jobs st')) \<and>
     (\<forall>k < length svcs. \<exists>j. chainJob ws svcs dependsOn (ds_jobs st') k j)"
  using assms
proof (induction svcs arbitrary: dependsOn ws st)
  case (Cons svc svcs)
  obtain w ws' where ws: "ws = w # ws'" using Cons.prems(2) by (cases ws) auto
  have w: "dw_race w = (\<lambda>u. u)" "dw_jobUuid w \<notin> job_id ` set (ds_jobs st)"
      "dw_deploymentUuid w \<notin> rv_id ` set (ds_deployments st)"
    using Cons.prems(6) ws by (simp_all add: freshDraws_def)
  obtain st1 row where one: "enqueueDeploy w (plainDeploy svc u dependsOn) st
        = (Inr \<lparr> er_deploymentId = dw_deploymentUuid w, er_jobId = dw_jobUuid w \<rparr>, st1)"
      "row = newRow (dw_jobUuid w) (dw_now w) (deployJobInput (dw_deploymentUuid w) (plainDeploy svc u dependsOn))"
      "constraintsOk (ds_jobs st1)" "set (ds_jobs st1) \<subseteq> insert row (set (ds_jobs st))"
      "\<And>j. job_status j = Queued \<Longrightarrow> j \<in> set (ds_jobs st1) \<longleftrightarrow> j = row \<or> j \<in> set (ds_jobs st)"
      "rv_id ` set (ds_deployments st1) = insert (dw_deploymentUuid w) (rv_id ` set (ds_deployments st))"
    using enqueueDeploy_new[OF Cons.prems(4) _ w, of svc u dependsOn] Cons.prems(5) by auto
  have row: "job_id row = dw_jobUuid w" "job_status row = Queued" "job_type row = Deploy"
      "job_serviceId row = Some (dq_id svc)" "job_dependsOnJobId row = dependsOn"
    using one(2) by simp_all
  have first: "row \<in> set (ds_jobs st1)" using one(5)[OF row(2)] by simp
  show ?case
  proof (cases "svcs = []")
    case True
    have "chainJob ws (svc # svcs) dependsOn (ds_jobs st1) 0 row" using first row ws by (simp add: chainJob_def)
    then show ?thesis using True one ws by auto
  next
    case False
    have ids: "job_id ` set (ds_jobs st1) \<subseteq> insert (dw_jobUuid w) (job_id ` set (ds_jobs st))"
      using image_mono[OF one(4), of job_id] row(1) by simp
    have fresh: "freshDraws ws' st1" using freshDraws_step Cons.prems(6) ws ids one(6) by simp
    have quiet: "\<forall>s \<in> set svcs. nothingQueued (dq_id s) (ds_jobs st1)"
    proof
      fix s assume s: "s \<in> set svcs"
      then have "dq_id s \<in> dq_id ` set svcs" by (rule imageI)
      then have "dq_id s \<noteq> dq_id svc" using Cons.prems(3) by auto
      then show "nothingQueued (dq_id s) (ds_jobs st1)"
        using nothingQueued_row[OF _ _ one(4)[unfolded one(2)]] Cons.prems(5) s by simp
    qed
    obtain r st' where rest: "enqueueChain u svcs (Some (dw_jobUuid w)) ws' st1 = (Inr r, st')"
        "er_jobId r = dw_jobUuid (ws' ! (length svcs - 1))" "constraintsOk (ds_jobs st')"
        "\<forall>j \<in> set (ds_jobs st1). job_status j = Queued \<longrightarrow> j \<in> set (ds_jobs st')"
        "\<forall>k < length svcs. \<exists>j. chainJob ws' svcs (Some (dw_jobUuid w)) (ds_jobs st') k j"
    proof -
      have "length svcs \<le> length ws'" "distinct (map dq_id svcs)" using Cons.prems(2,3) ws by simp_all
      from Cons.IH[OF False this one(3) quiet fresh, of "Some (dw_jobUuid w)"] show ?thesis using that by blast
    qed
    have chain: "\<exists>j. chainJob ws (svc # svcs) dependsOn (ds_jobs st') k j" if k: "k < length (svc # svcs)" for k
    proof (cases k)
      case 0
      have "row \<in> set (ds_jobs st')" using rest(4) first row(2) by blast
      then show ?thesis using 0 row ws by (auto simp: chainJob_def)
    next
      case (Suc m)
      then obtain j where "chainJob ws' svcs (Some (dw_jobUuid w)) (ds_jobs st') m j" using rest(5) k by auto
      then show ?thesis using Suc ws by (intro exI[of _ j]) (cases m; simp add: chainJob_def)
    qed
    have "enqueueChain u (svc # svcs) dependsOn ws st = (Inr r, st')" using one(1) rest(1) False ws by simp
    moreover have "er_jobId r = dw_jobUuid (ws ! (length (svc # svcs) - 1))" using rest(2) False ws by (cases svcs) auto
    moreover have "\<forall>j \<in> set (ds_jobs st). job_status j = Queued \<longrightarrow> j \<in> set (ds_jobs st')" using one(5) rest(4) by blast
    ultimately show ?thesis using rest(3) chain by blast
  qed
qed simp

lemma byId_map:
  "map_of (fold (\<lambda>svc m. AList.update (dq_id svc) svc m) xs m) i =
   (case List.find (\<lambda>svc. dq_id svc = i) (rev xs) of Some svc \<Rightarrow> Some svc | None \<Rightarrow> map_of m i)"
proof (induction xs arbitrary: m)
  case (Cons x xs)
  have f: "List.find P (ys @ [x]) = (case List.find P ys of Some y \<Rightarrow> Some y | None \<Rightarrow> if P x then Some x else None)" for P ys
    by (induction ys) auto
  show ?case using Cons by (simp add: f split: option.splits)
qed simp

lemma linkedInOrder_ids:
  assumes "set ids \<subseteq> dq_id ` set linked"
  shows "map dq_id (List.map_filter (map_of (fold (\<lambda>svc m. AList.update (dq_id svc) svc m) linked [])) ids) = ids"
  using assms
proof (induction ids)
  case (Cons i ids)
  obtain svc where f: "List.find (\<lambda>svc. dq_id svc = i) (rev linked) = Some svc"
    using Cons.prems by (cases "List.find (\<lambda>svc. dq_id svc = i) (rev linked)") (auto simp: find_None_iff)
  have "dq_id svc = i" using f by (auto simp: find_Some_iff)
  moreover have "map_of (fold (\<lambda>svc m. AList.update (dq_id svc) svc m) linked []) i = Some svc"
    unfolding byId_map f by simp
  ultimately show ?case using Cons by (simp add: map_filter_simps)
qed (simp add: map_filter_simps)

lemma linked_order: "map dq_id (linkedInOrder linked deps) = stackDeployOrder (map dq_id linked) deps"
proof -
  have "mset (stackDeployOrder (map dq_id linked) deps) = mset (map dq_id linked)" using deploy_order_is_right by blast
  then have "set (stackDeployOrder (map dq_id linked) deps) = dq_id ` set linked" by (metis set_map set_mset_mset)
  then show ?thesis unfolding linkedInOrder_def Let_def by (intro linkedInOrder_ids) simp
qed

text \<open>A job of a chain cannot be claimed before the one it waits for has succeeded.\<close>

lemma chained_waits:
  assumes "constraintsOk t" "chainJob ws svcs dependsOn t (Suc k) j" "chainJob ws svcs dependsOn t k i"
  shows "\<not> claimableCondition now t j"
  using assms by (auto simp: chainJob_def claimableCondition_def dependencySatisfied_def list_ex_iff)

text \<open>
  C10. Deploying a stack none of whose services has a deploy queued: every service gets a queued job, the linked ones in an
  order with each after all it depends on and the primary last, each job waiting for the one before, so that only the
  first can be claimed.
\<close>

theorem stack_deploys_in_order:
  assumes "length linked < length ws" "distinct (map dq_id (primary # linked))" "constraintsOk (ds_jobs st)"
    "\<forall>svc \<in> set (primary # linked). nothingQueued (dq_id svc) (ds_jobs st)" "freshDraws ws st"
    and order: "order = stackDeployOrder (map dq_id linked) deps @ [dq_id primary]"
  shows "\<exists>r st' jobs. enqueueStackDeploy ws primary linked userId deps st = (Inr r, st') \<and>
     map job_serviceId jobs = map Some order \<and> set jobs \<subseteq> set (ds_jobs st') \<and>
     (\<forall>k < length jobs. job_status (jobs ! k) = Queued \<and> job_type (jobs ! k) = Deploy \<and>
        job_dependsOnJobId (jobs ! k) = (if k = 0 then None else Some (job_id (jobs ! (k - 1)))) \<and>
        (k > 0 \<longrightarrow> \<not> claimableCondition now (ds_jobs st') (jobs ! k))) \<and>
     (acyclic (inner (map dq_id linked) deps) \<longrightarrow>
        (\<forall>i d. (i, d) \<in> inner (map dq_id linked) deps \<longrightarrow> (\<exists>ps qs rs. order = ps @ d # qs @ i # rs)))"
proof -
  let ?svcs = "linkedInOrder linked deps @ [primary]"
  have ids: "map dq_id ?svcs = order" by (simp add: order linked_order)
  have mset: "mset (map dq_id ?svcs) = mset (map dq_id (primary # linked))"
    using deploy_order_is_right by (simp add: linked_order)
  have len: "length ?svcs = length (primary # linked)" using mset by (metis length_map size_mset)
  have "set (map dq_id ?svcs) = set (map dq_id (primary # linked))" using mset by (metis set_mset_mset)
  then have quiet: "\<forall>svc \<in> set ?svcs. nothingQueued (dq_id svc) (ds_jobs st)"
    using assms(4) by (metis (no_types, lifting) image_iff set_map)
  have dist: "distinct (map dq_id ?svcs)" using mset assms(2) by (metis mset_eq_imp_distinct_iff)
  obtain r st' where c: "enqueueChain userId ?svcs None ws st = (Inr r, st')" "constraintsOk (ds_jobs st')"
      "\<forall>k < length ?svcs. \<exists>j. chainJob ws ?svcs None (ds_jobs st') k j"
    using chain_queued[of ?svcs ws st userId None] assms(1,3,5) len dist quiet by auto
  obtain f where f: "\<forall>k < length ?svcs. chainJob ws ?svcs None (ds_jobs st') k (f k)" using c(3) by metis
  define jobs where "jobs = map f [0..<length ?svcs]"
  have at: "chainJob ws ?svcs None (ds_jobs st') k (jobs ! k)" if "k < length jobs" for k
    using f that by (simp add: jobs_def del: upt_Suc)
  have "map job_serviceId jobs = map Some order"
  proof (rule nth_equalityI)
    show len: "length (map job_serviceId jobs) = length (map Some order)" using ids by (auto simp: jobs_def simp del: upt_Suc)
    fix k assume "k < length (map job_serviceId jobs)"
    then have k: "k < length jobs" "k < length ?svcs" "k < length order" using len by (simp_all add: jobs_def del: upt_Suc)
    have "order ! k = dq_id (?svcs ! k)" unfolding ids[symmetric] by (rule nth_map[OF k(2)])
    then show "map job_serviceId jobs ! k = map Some order ! k" using at[OF k(1)] k by (simp add: chainJob_def)
  qed
  moreover have "set jobs \<subseteq> set (ds_jobs st')" using at by (auto simp: in_set_conv_nth chainJob_def)
  moreover have "job_status (jobs ! k) = Queued \<and> job_type (jobs ! k) = Deploy \<and>
        job_dependsOnJobId (jobs ! k) = (if k = 0 then None else Some (job_id (jobs ! (k - 1)))) \<and>
        (k > 0 \<longrightarrow> \<not> claimableCondition now (ds_jobs st') (jobs ! k))" if k: "k < length jobs" for k
    using at[OF k] at[of "k - 1"] k chained_waits[OF c(2), of ws ?svcs None "k - 1" "jobs ! k" "jobs ! (k - 1)"]
    by (cases k) (auto simp: chainJob_def)
  moreover have "\<exists>ps qs rs. order = ps @ d # qs @ i # rs"
    if ac: "acyclic (inner (map dq_id linked) deps)" and e: "(i, d) \<in> inner (map dq_id linked) deps" for i d
  proof -
    obtain ps qs rs where "stackDeployOrder (map dq_id linked) deps = ps @ d # qs @ i # rs"
      using mp[OF conjunct2[OF deploy_order_is_right[of "map dq_id linked" deps]] ac] e by blast
    then have "order = ps @ d # qs @ i # (rs @ [dq_id primary])" by (simp add: order)
    then show ?thesis by blast
  qed
  ultimately show ?thesis using c(1) unfolding enqueueStackDeploy_def by blast
qed

theorem stack_deploys_in_order_witness:
  "\<exists>r st' jobs. enqueueStackDeploy [quietDraw ''1'' 2, quietDraw ''2'' 2, quietDraw ''3'' 2] (stackService ''web'')
       [stackService ''db'', stackService ''api''] ''u'' [(''api'', [''db''])] idleSystem = (Inr r, st') \<and>
     map job_serviceId jobs =
       map Some (stackDeployOrder (map dq_id [stackService ''db'', stackService ''api'']) [(''api'', [''db''])] @
                 [dq_id (stackService ''web'')]) \<and>
     set jobs \<subseteq> set (ds_jobs st')"
proof -
  let ?ws = "[quietDraw ''1'' 2, quietDraw ''2'' 2, quietDraw ''3'' 2]"
  let ?linked = "[stackService ''db'', stackService ''api'']"
  have "length ?linked < length ?ws" "distinct (map dq_id (stackService ''web'' # ?linked))"
    "constraintsOk (ds_jobs idleSystem)"
    "\<forall>svc \<in> set (stackService ''web'' # ?linked). nothingQueued (dq_id svc) (ds_jobs idleSystem)"
    "freshDraws ?ws idleSystem"
    by (simp_all add: stackService_def idleSystem_def constraintsOk_def noPair_def nothingQueued_def freshDraws_def quietDraw_def)
  from stack_deploys_in_order[OF this refl, of "''u''" "[(''api'', [''db''])]"] show ?thesis by blast
qed

text \<open>
  The order is lost when a linked service already has a deploy queued. Here the stack is \<open>db\<close>, \<open>api\<close>, which depends
  on \<open>db\<close>, and \<open>web\<close>; a deploy of \<open>api\<close> was queued before. The stack's deploy of \<open>api\<close> gives way to that job, which
  waits for nothing and is claimed first, before \<open>db\<close>; and \<open>web\<close> waits for that job alone, so it can be claimed while
  \<open>db\<close> is still queued.
\<close>

theorem stack_order_lost:
  "let st = snd (enqueueStackDeploy [quietDraw ''1'' 2, quietDraw ''2'' 2, quietDraw ''3'' 2] (stackService ''web'')
             [stackService ''db'', stackService ''api''] ''u'' [(''api'', [''db''])] queuedBefore)
   in map (\<lambda>j. (job_serviceId j, job_dependsOnJobId j)) (ds_jobs st) =
        [(Some ''api'', None), (Some ''db'', None), (Some ''web'', Some ''j0'')] \<and>
      map_option job_serviceId (fst (claimNext 3 3 [] (ds_jobs st))) = Some (Some ''api'')"
  by code_simp

end
