(* ===== verification/Deploy_Plan.thy ===== *)
theory Deploy_Plan
  imports Revisions
begin

text \<open>
  \<open>src/lib/services/deploy/plan.ts\<close>: what a deploy builds or pulls and what it runs, decided from the service, the build
  server it names and the revision it rolls back to; and the credentials a rollback pulls with. A service's columns are those
  the planner reads; a \<open>build method\<close>, a pull policy and a network mode are passed on as texts.
\<close>

record RegistryAuth =
  ra_password :: string
  ra_serveraddress :: string
  ra_username :: string

record CacheRegistryCredentials =
  cr_password :: string
  cr_registryUrl :: string
  cr_username :: string

datatype BuildServer = DockerServer string | AgentServer string

record GitSource =
  gs_bakeFile :: "string option"
  gs_buildTarget :: "string option"
  gs_buildContext :: "string option"
  gs_buildMethod :: string
  gs_dockerfilePath :: "string option"
  gs_gitRef :: "string option"
  gs_gitUrl :: string

record RevisionSource =
  rs_buildSource :: BuildSource
  rs_digest :: "string option"
  rs_gitCommit :: "string option"
  rs_gitRef :: "string option"
  rs_id :: string
  rs_imageId :: "string option"
  rs_imageRef :: string

datatype ImagePlan =
    Pull string string string
  | Revision "CacheRegistryCredentials option" RevisionSource
  | LocalBuild "CacheRegistryCredentials option" GitSource
  | DockerBuild "CacheRegistryCredentials option" GitSource BuildServer
  | AgentBuild "CacheRegistryCredentials option" GitSource BuildServer

datatype WorkloadPlan = Container string | SwarmService string int

record DeployPlan =
  dp_image :: ImagePlan
  dp_workload :: WorkloadPlan

record DeployPlanService =
  ps_buildServerRemoteHostId :: "string option"
  ps_buildSource :: BuildSource
  ps_gitBakeFile :: "string option"
  ps_gitBuildTarget :: "string option"
  ps_gitBuildContext :: "string option"
  ps_gitBuildMethod :: string
  ps_gitDockerfilePath :: "string option"
  ps_gitRef :: "string option"
  ps_gitUrl :: "string option"
  ps_image :: "string option"
  ps_networkMode :: string
  ps_pullPolicy :: string
  ps_replicas :: int
  ps_tag :: string

record DeployPlanInput =
  pi_buildServer :: "BuildServer option"
  pi_cacheRegistry :: "CacheRegistryCredentials option"
  pi_swarm :: bool
  pi_revision :: "RevisionSource option"
  pi_service :: DeployPlanService

datatype DeployPlanError = NoGitUrl | BuildServerMissing string | NoImage

definition revisionAuth ::
  "string \<Rightarrow> CacheRegistryCredentials option \<Rightarrow> RegistryAuth option \<Rightarrow> RegistryAuth option" where
  "revisionAuth imageRef registry auth =
     (case registry of
        None \<Rightarrow> auth
      | Some r \<Rightarrow>
          if \<not> starts_with (cr_registryUrl r @ ''/'') imageRef then auth
          else Some \<lparr> ra_password = cr_password r,
                      ra_serveraddress = hd (split_on (CHR ''/'') (cr_registryUrl r)),
                      ra_username = cr_username r \<rparr>)"

definition resolveGitBuild :: "DeployPlanInput \<Rightarrow> DeployPlanError + ImagePlan" where
  "resolveGitBuild input =
     (let service = pi_service input
      in if \<not> given (ps_gitUrl service) then Inl NoGitUrl
         else
           (let git = \<lparr> gs_bakeFile = ps_gitBakeFile service, gs_buildTarget = ps_gitBuildTarget service,
                        gs_buildContext = ps_gitBuildContext service, gs_buildMethod = ps_gitBuildMethod service,
                        gs_dockerfilePath = ps_gitDockerfilePath service, gs_gitRef = ps_gitRef service,
                        gs_gitUrl = the (ps_gitUrl service) \<rparr>
            in if \<not> given (ps_buildServerRemoteHostId service) then Inr (LocalBuild (pi_cacheRegistry input) git)
               else
                 (case pi_buildServer input of
                    None \<Rightarrow> Inl (BuildServerMissing (the (ps_buildServerRemoteHostId service)))
                  | Some (DockerServer h) \<Rightarrow> Inr (DockerBuild (pi_cacheRegistry input) git (DockerServer h))
                  | Some (AgentServer h) \<Rightarrow> Inr (AgentBuild (pi_cacheRegistry input) git (AgentServer h)))))"

definition resolveImage :: "DeployPlanInput \<Rightarrow> DeployPlanError + ImagePlan" where
  "resolveImage input =
     (let service = pi_service input
      in case pi_revision input of
           Some revision \<Rightarrow> Inr (Revision (if rs_buildSource revision = SourceGit then pi_cacheRegistry input else None) revision)
         | None \<Rightarrow>
             (case ps_buildSource service of
                SourceImage \<Rightarrow>
                  if \<not> given (ps_image service) then Inl NoImage
                  else Inr (Pull (the (ps_image service)) (ps_pullPolicy service) (ps_tag service))
              | SourceGit \<Rightarrow> resolveGitBuild input))"

definition resolveWorkload :: "DeployPlanInput \<Rightarrow> WorkloadPlan" where
  "resolveWorkload input =
     (if pi_swarm input then SwarmService (ps_networkMode (pi_service input)) (ps_replicas (pi_service input))
      else Container (ps_networkMode (pi_service input)))"

definition resolveDeployPlan :: "DeployPlanInput \<Rightarrow> DeployPlanError + DeployPlan" where
  "resolveDeployPlan input =
     (case resolveImage input of
        Inl e \<Rightarrow> Inl e
      | Inr img \<Rightarrow> Inr \<lparr> dp_image = img, dp_workload = resolveWorkload input \<rparr>)"

section \<open>Facts\<close>

text \<open>A rollback can always be planned; otherwise a plan fails exactly for want of an image, a repository or its server.\<close>

lemma resolveDeployPlan_fails_iff:
  "(\<exists>e. resolveDeployPlan input = Inl e) \<longleftrightarrow>
   pi_revision input = None \<and>
   (if ps_buildSource (pi_service input) = SourceImage then \<not> given (ps_image (pi_service input))
    else \<not> given (ps_gitUrl (pi_service input)) \<or>
         given (ps_buildServerRemoteHostId (pi_service input)) \<and> pi_buildServer input = None)"
  by (cases "ps_buildSource (pi_service input)")
     (auto simp: resolveDeployPlan_def resolveImage_def resolveGitBuild_def Let_def split: option.splits BuildServer.splits)

text \<open>A pulled image and a revision that was pulled never come with the cache registry's credentials.\<close>

lemma pulled_without_cache_registry:
  "resolveDeployPlan input = Inr plan \<Longrightarrow> dp_image plan = Revision registry revision \<Longrightarrow> rs_buildSource revision = SourceImage \<Longrightarrow>
   registry = None"
  by (auto simp: resolveDeployPlan_def resolveImage_def resolveGitBuild_def Let_def
      split: option.splits BuildServer.splits BuildSource.splits if_splits)

end
