(* ===== verification/Redirects.thy ===== *)
theory Redirects
  imports Service_Domains
begin

text \<open>
  \<open>src/lib/redirects.ts\<close> with \<open>server/validation/redirect.ts\<close>, \<open>server/redirect-form.ts\<close>, \<open>dto/redirect-dto.ts\<close>,
  \<open>services/redirect.service.ts\<close> and the API handlers of \<open>routes/api/v1/redirects\<close>: redirects from a hostname or a path
  of it to another URL, the table that stores them and the configuration Traefik serves them with.

  \<open>parseUrl\<close> stands for the \<open>URL\<close> class: the protocol and the text of a URL, \<open>None\<close> when it throws. \<open>stringify\<close> is
  \<open>JSON.stringify\<close> with its indentation, \<open>cores\<close> the map \<open>coreHosts\<close> reads from the settings.
\<close>

section \<open>A redirect\<close>

record RedirectFields =
  rf_destination :: string
  rf_enabled :: bool
  rf_keepPath :: bool
  rf_permanent :: bool
  rf_source :: string

record RedirectRule = RedirectFields +
  rf_id :: string

record redirectRow = RedirectRule +
  rf_createdAt :: timestamp
  rf_updatedAt :: timestamp
  rf_userId :: string

type_synonym redirects = "redirectRow list"

definition REDIRECT_ROUTER_PRIORITY :: int where
  "REDIRECT_ROUTER_PRIORITY = 9500"

text \<open>The character class of \<open>/[.*+?^${}()|[\]\\]/g\<close>, each escaped with a backslash.\<close>

definition regexSpecial :: "char \<Rightarrow> bool" where
  "regexSpecial c \<longleftrightarrow> c \<in> set ''.*+?^${}()|[]'' \<or> c = CHR 0x5C"

definition escapeRegex :: "string \<Rightarrow> string" where
  "escapeRegex txt = concat (map (\<lambda>c. if regexSpecial c then [CHR 0x5C, c] else [c]) txt)"

definition badPrefixChar :: "char \<Rightarrow> bool" where
  "badPrefixChar c \<longleftrightarrow> is_ws c \<or> c \<in> {CHR 0x60, CHR ''?'', CHR ''#'', CHR 0x5C}"

text \<open>The host and the path prefix.\<close>

definition splitSource :: "string \<Rightarrow> (string \<times> string) option" where
  "splitSource source =
     (let trimmed = lower (trim source);
          host = takeWhile (\<lambda>c. c \<noteq> CHR ''/'') trimmed;
          pathPrefix = strip_trailing (CHR ''/'') (dropWhile (\<lambda>c. c \<noteq> CHR ''/'') trimmed)
      in if \<not> isDomainName host \<or> list_ex badPrefixChar pathPrefix then None else Some (host, pathPrefix))"

definition normalizeSource :: "string \<Rightarrow> string option" where
  "normalizeSource source = map_option (\<lambda>(host, pathPrefix). host @ pathPrefix) (splitSource source)"

definition normalizeDestination :: "(string \<Rightarrow> (string \<times> string) option) \<Rightarrow> string \<Rightarrow> string option" where
  "normalizeDestination parseUrl destination =
     (case parseUrl (trim destination) of
        Some (protocol, url) \<Rightarrow> if protocol = ''https:'' \<or> protocol = ''http:'' then Some url else None
      | None \<Rightarrow> None)"

text \<open>\<open>text.replaceAll("$", "$$$$")\<close> doubles every dollar sign.\<close>

definition doubleDollars :: "string \<Rightarrow> string" where
  "doubleDollars txt = concat (map (\<lambda>c. if c = CHR ''$'' then ''$$'' else [c]) txt)"

definition regexHead :: "string \<Rightarrow> string \<Rightarrow> string" where
  "regexHead host pathPrefix = ''^https?://'' @ escapeRegex host @ ''(?::'' @ [CHR 0x5C] @ ''d+)?'' @ escapeRegex pathPrefix"

text \<open>The pair of a regular expression and its replacement.\<close>

definition redirectRegexFor :: "('a RedirectFields_scheme) \<Rightarrow> (string \<times> string) option" where
  "redirectRegexFor rule =
     (case splitSource (rf_source rule) of
        None \<Rightarrow> None
      | Some (host, pathPrefix) \<Rightarrow>
          if rf_keepPath rule
          then Some (regexHead host pathPrefix @ ''((?:[/?].*)?)$'',
                     doubleDollars (strip_trailing (CHR ''/'') (rf_destination rule)) @ ''${1}'')
          else Some (regexHead host pathPrefix @ ''(?:[/?].*)?$'', doubleDollars (rf_destination rule)))"

definition backtick :: string where
  "backtick = [CHR 0x60]"

definition redirectRouterRule :: "string \<Rightarrow> string \<Rightarrow> string" where
  "redirectRouterRule host pathPrefix =
     (let hostRule = ''Host('' @ backtick @ host @ backtick @ '')''
      in if pathPrefix \<noteq> []
         then hostRule @ '' && (Path('' @ backtick @ pathPrefix @ backtick @ '') || PathPrefix('' @ backtick @
              pathPrefix @ ''/'' @ backtick @ ''))''
         else hostRule)"

section \<open>Traefik's configuration\<close>

definition routerName :: "string \<Rightarrow> string" where
  "routerName i = ''homerun-redirect-'' @ i"

definition redirectMiddleware :: "(string \<times> string) \<Rightarrow> bool \<Rightarrow> json" where
  "redirectMiddleware regex permanent =
     JObj [(''redirectRegex'',
       JObj [(''regex'', JStr (fst regex)), (''replacement'', JStr (snd regex)), (''permanent'', JBool permanent)])]"

definition redirectRouter :: "(string \<Rightarrow> string option) \<Rightarrow> string \<Rightarrow> string \<Rightarrow> string \<times> string \<Rightarrow> json" where
  "redirectRouter certResolver entrypoint name parts =
     JObj [(''entryPoints'', JArr [JStr entrypoint]),
           (''middlewares'', JArr [JStr name]),
           (''priority'', JNum REDIRECT_ROUTER_PRIORITY),
           (''rule'', JStr (redirectRouterRule (fst parts) (snd parts))),
           (''service'', JStr ''noop@internal''),
           (''tls'', JObj (case certResolver (fst parts) of
                             Some r \<Rightarrow> if r = [] then [] else [(''certResolver'', JStr r)]
                           | None \<Rightarrow> []))]"

definition addRedirect ::
  "(string \<Rightarrow> string option) \<Rightarrow> string \<Rightarrow> ('a RedirectRule_scheme) \<Rightarrow> json js_map \<times> json js_map \<Rightarrow>
   json js_map \<times> json js_map" where
  "addRedirect certResolver entrypoint rule acc =
     (case (rf_enabled rule, splitSource (rf_source rule), redirectRegexFor rule) of
        (True, Some parts, Some regex) \<Rightarrow>
          (let name = routerName (rf_id rule)
           in (AList.update name (redirectMiddleware regex (rf_permanent rule)) (fst acc),
               AList.update name (redirectRouter certResolver entrypoint name parts) (snd acc)))
      | _ \<Rightarrow> acc)"

text \<open>The middlewares and the routers.\<close>

definition redirectMaps ::
  "(string \<Rightarrow> string option) \<Rightarrow> string \<Rightarrow> ('a RedirectRule_scheme) list \<Rightarrow> json js_map \<times> json js_map" where
  "redirectMaps certResolver entrypoint rules = fold (addRedirect certResolver entrypoint) rules ([], [])"

definition redirectsConfig ::
  "(json \<Rightarrow> string) \<Rightarrow> (string \<Rightarrow> string option) \<Rightarrow> string \<Rightarrow> ('a RedirectRule_scheme) list \<Rightarrow> string option" where
  "redirectsConfig stringify certResolver entrypoint rules =
     (let (middlewares, routers) = redirectMaps certResolver entrypoint rules
      in if routers = [] then None
         else Some (stringify (JObj [(''http'', JObj [(''middlewares'', JObj middlewares), (''routers'', JObj routers)])])))"

section \<open>Reading a form\<close>

datatype redirectError =
    NotText string
  | FieldRequired string
  | BadSource
  | BadDestination
  | HostOwned string string
  | SourceTaken string

definition checkbox :: "json js_map \<Rightarrow> string \<Rightarrow> bool" where
  "checkbox input k \<longleftrightarrow> map_of input k = Some (JStr ''on'') \<or> map_of input k = Some (JBool True)"

definition requiredText :: "json js_map \<Rightarrow> string \<Rightarrow> redirectError + string" where
  "requiredText input k =
     (case map_of input k of
        Some (JStr s) \<Rightarrow> if trim s = [] then Inl (FieldRequired k) else Inr (trim s)
      | _ \<Rightarrow> Inl (NotText k))"

text \<open>\<open>redirectSchema\<close>, with the first of its issues as the error.\<close>

definition redirectSchema ::
  "(string \<Rightarrow> (string \<times> string) option) \<Rightarrow> json js_map \<Rightarrow> redirectError + RedirectFields" where
  "redirectSchema parseUrl input =
     (case requiredText input ''destination'' of
        Inl e \<Rightarrow> Inl e
      | Inr destination \<Rightarrow>
          (case requiredText input ''source'' of
             Inl e \<Rightarrow> Inl e
           | Inr source \<Rightarrow>
               (case (normalizeSource source, normalizeDestination parseUrl destination) of
                  (None, _) \<Rightarrow> Inl BadSource
                | (Some _, None) \<Rightarrow> Inl BadDestination
                | (Some s, Some d) \<Rightarrow>
                    if s = [] then Inl BadSource else if d = [] then Inl BadDestination
                    else Inr \<lparr> rf_destination = d, rf_enabled = checkbox input ''enabled'',
                               rf_keepPath = checkbox input ''keepPath'',
                               rf_permanent = checkbox input ''permanent'', rf_source = s \<rparr>)))"

definition getRedirect :: "string \<Rightarrow> redirects \<Rightarrow> redirectRow option" where
  "getRedirect i t = List.find (\<lambda>r. rf_id r = i) t"

definition getBySource :: "string \<Rightarrow> redirects \<Rightarrow> redirectRow option" where
  "getBySource source t = List.find (\<lambda>r. rf_source r = source) t"

text \<open>The label of what owns the host, an empty one counting as none.\<close>

definition coreLabel :: "string js_map \<Rightarrow> string \<Rightarrow> string option" where
  "coreLabel cores host = (case map_of cores host of Some label \<Rightarrow> if label = [] then None else Some label | None \<Rightarrow> None)"

definition coreOwner :: "string js_map \<Rightarrow> string \<Rightarrow> string option" where
  "coreOwner cores host = (if host = [] then None else coreLabel cores host)"

definition parseRedirectInput ::
  "(string \<Rightarrow> (string \<times> string) option) \<Rightarrow> string js_map \<Rightarrow> redirects \<Rightarrow> json js_map \<Rightarrow> string option \<Rightarrow>
   redirectError + RedirectFields" where
  "parseRedirectInput parseUrl cores t input selfId =
     (case redirectSchema parseUrl input of
        Inl e \<Rightarrow> Inl e
      | Inr data \<Rightarrow>
          (let host = (case splitSource (rf_source data) of Some (host, _) \<Rightarrow> host | None \<Rightarrow> [])
           in case coreOwner cores host of
                Some label \<Rightarrow> Inl (HostOwned host label)
              | None \<Rightarrow>
                  (case getBySource (rf_source data) t of
                     Some taken \<Rightarrow> if Some (rf_id taken) \<noteq> selfId then Inl (SourceTaken (rf_source data)) else Inr data
                   | None \<Rightarrow> Inr data)))"

section \<open>The table\<close>

text \<open>A write that would break the primary key or \<open>redirect_source_idx\<close> throws, leaving the table.\<close>

definition redirectKeysOk :: "redirects \<Rightarrow> bool" where
  "redirectKeysOk t \<longleftrightarrow> distinct (map rf_id t) \<and> distinct (map rf_source t)"

definition writeRedirects :: "redirects \<Rightarrow> redirects \<Rightarrow> redirects option" where
  "writeRedirects t t' = (if redirectKeysOk t' then Some t' else None)"

definition createRedirect :: "string \<Rightarrow> timestamp \<Rightarrow> string \<Rightarrow> RedirectFields \<Rightarrow> redirects \<Rightarrow> redirects option" where
  "createRedirect uuid now userId input t =
     writeRedirects t
       (t @ [\<lparr> rf_destination = rf_destination input, rf_enabled = rf_enabled input, rf_keepPath = rf_keepPath input,
              rf_permanent = rf_permanent input, rf_source = rf_source input, rf_id = uuid,
              rf_createdAt = now, rf_updatedAt = now, rf_userId = userId \<rparr>])"

definition updateRedirect :: "string \<Rightarrow> timestamp \<Rightarrow> RedirectFields \<Rightarrow> redirects \<Rightarrow> redirects option" where
  "updateRedirect i now input t =
     writeRedirects t
       (map (\<lambda>r. if rf_id r = i
                 then r\<lparr>rf_destination := rf_destination input, rf_enabled := rf_enabled input,
                        rf_keepPath := rf_keepPath input, rf_permanent := rf_permanent input,
                        rf_source := rf_source input, rf_updatedAt := now\<rparr>
                 else r) t)"

definition setRedirectEnabled :: "string \<Rightarrow> timestamp \<Rightarrow> bool \<Rightarrow> redirects \<Rightarrow> redirects" where
  "setRedirectEnabled i now enabled t =
     map (\<lambda>r. if rf_id r = i then r\<lparr>rf_enabled := enabled, rf_updatedAt := now\<rparr> else r) t"

definition deleteRedirect :: "string \<Rightarrow> redirects \<Rightarrow> redirects" where
  "deleteRedirect i t = filter (\<lambda>r. rf_id r \<noteq> i) t"

section \<open>Publishing\<close>

definition redirectHost :: "string \<Rightarrow> string option" where
  "redirectHost source = map_option fst (splitSource source)"

text \<open>\<open>ServiceDTO.domainTaken\<close>: the first of the domains another service lists among its own.\<close>

definition domainTaken :: "routedService list \<Rightarrow> string list \<Rightarrow> string option \<Rightarrow> string option" where
  "domainTaken services domains excludeId =
     (if domains = [] then None
      else
        (let rows = filter (\<lambda>svc. list_ex (\<lambda>d. d \<in> set domains) (sd_domains svc) \<and>
                              (case excludeId of None \<Rightarrow> True | Some i \<Rightarrow> i = [] \<or> sd_id svc \<noteq> i)) services;
             taken = concat (map sd_domains rows)
         in List.find (\<lambda>d. d \<in> set taken) domains))"

definition unrouted :: "routedService list \<Rightarrow> string list \<Rightarrow> string list" where
  "unrouted services hosts = filter (\<lambda>host. domainTaken services [host] None = None) hosts"

text \<open>The hosts \<open>#syncDns\<close> hands to the DNS providers to sync and to delete.\<close>

definition redirectDns ::
  "routedService list \<Rightarrow> ('a RedirectFields_scheme) list \<Rightarrow> string list \<Rightarrow> string list \<times> string list" where
  "redirectDns services rules previousHosts =
     (let enabled = js_unique (List.map_filter (\<lambda>rule. redirectHost (rf_source rule)) (filter rf_enabled rules));
          removed = filter (\<lambda>host. host \<notin> set enabled) (js_unique previousHosts)
      in (unrouted services enabled, unrouted services removed))"

section \<open>The API\<close>

text \<open>
  The handlers once the body has been read: \<open>{ ...defaults, ...body }\<close> goes through \<open>parseRedirectInput\<close> and the row is
  written; the hosts are those \<open>sync\<close> is called with.
\<close>

datatype redirectReply =
    RedirectRefused redirectError
  | RedirectMissing
  | RedirectThrew
  | RedirectDone "string list"

definition mergeBody :: "json js_map \<Rightarrow> json js_map \<Rightarrow> json js_map" where
  "mergeBody defaults body = fold (\<lambda>(k, v) m. AList.update k v m) body defaults"

definition postRedirect ::
  "(string \<Rightarrow> (string \<times> string) option) \<Rightarrow> string js_map \<Rightarrow> string \<Rightarrow> timestamp \<Rightarrow> string \<Rightarrow> json js_map \<Rightarrow>
   redirects \<Rightarrow> redirectReply \<times> redirects" where
  "postRedirect parseUrl cores uuid now userId body t =
     (case parseRedirectInput parseUrl cores t
             (mergeBody [(''enabled'', JBool True), (''keepPath'', JBool True), (''permanent'', JBool True)] body) None of
        Inl e \<Rightarrow> (RedirectRefused e, t)
      | Inr fs \<Rightarrow>
          (case createRedirect uuid now userId fs t of
             None \<Rightarrow> (RedirectThrew, t)
           | Some t' \<Rightarrow> (RedirectDone [], t')))"

definition storedInput :: "redirectRow \<Rightarrow> json js_map" where
  "storedInput r =
     [(''destination'', JStr (rf_destination r)), (''enabled'', JBool (rf_enabled r)), (''keepPath'', JBool (rf_keepPath r)),
      (''permanent'', JBool (rf_permanent r)), (''source'', JStr (rf_source r))]"

definition patchRedirect ::
  "(string \<Rightarrow> (string \<times> string) option) \<Rightarrow> string js_map \<Rightarrow> string \<Rightarrow> timestamp \<Rightarrow> json js_map \<Rightarrow>
   redirects \<Rightarrow> redirectReply \<times> redirects" where
  "patchRedirect parseUrl cores i now body t =
     (case getRedirect i t of
        None \<Rightarrow> (RedirectMissing, t)
      | Some current \<Rightarrow>
          (case parseRedirectInput parseUrl cores t (mergeBody (storedInput current) body) (Some (rf_id current)) of
             Inl e \<Rightarrow> (RedirectRefused e, t)
           | Inr fs \<Rightarrow>
               (case updateRedirect i now fs t of
                  None \<Rightarrow> (RedirectThrew, t)
                | Some t' \<Rightarrow> (RedirectDone (case redirectHost (rf_source current) of
                                            Some host \<Rightarrow> if host = [] then [] else [host] | None \<Rightarrow> []), t'))))"

definition removeRedirect :: "string \<Rightarrow> redirects \<Rightarrow> redirectReply \<times> redirects" where
  "removeRedirect i t =
     (case getRedirect i t of
        None \<Rightarrow> (RedirectMissing, t)
      | Some current \<Rightarrow>
          (RedirectDone (case redirectHost (rf_source current) of
                           Some host \<Rightarrow> if host = [] then [] else [host] | None \<Rightarrow> []), deleteRedirect i t))"

end
