(* ===== verification/Hostname_Owner.thy ===== *)
theory Hostname_Owner
  imports Redirects
begin

text \<open>
  \<open>src/lib/server/hostname-owner.ts\<close> and \<open>services/domain-takeover.ts\<close>: who routes a hostname, the conflicts of the
  domains a service asks for, and taking them over. The rows the queries read are arguments, as are the base domain and
  \<open>parseHost\<close>, the host name the \<open>URL\<close> class reads, \<open>None\<close> when it throws.
\<close>

section \<open>Homerun's own hosts\<close>

record statusPageHosts =
  sp_name :: string
  sp_domains :: "string list"

record instanceHosts =
  ih_garagePublicHost :: "string option"
  ih_registryPublicHost :: "string option"
  ih_origin :: "string option"

definition hostOfUrl :: "(string \<Rightarrow> string option) \<Rightarrow> string option \<Rightarrow> string option" where
  "hostOfUrl parseHost url =
     (case url of None \<Rightarrow> None | Some u \<Rightarrow> if u = [] then None else map_option lower (parseHost u))"

definition setHost :: "string option \<Rightarrow> string \<Rightarrow> string js_map \<Rightarrow> string js_map" where
  "setHost host label m = (case host of None \<Rightarrow> m | Some h \<Rightarrow> if h = [] then m else AList.update (lower h) label m)"

definition statusPageLabel :: "string \<Rightarrow> string" where
  "statusPageLabel name = ''the status page '' @ [CHR 0x22] @ name @ [CHR 0x22]"

definition coreHosts :: "(string \<Rightarrow> string option) \<Rightarrow> instanceHosts \<Rightarrow> statusPageHosts list \<Rightarrow> string js_map" where
  "coreHosts parseHost settings pages =
     (let hosts = fold (\<lambda>page m. fold (\<lambda>d. AList.update (lower d) (statusPageLabel (sp_name page))) (sp_domains page) m) pages [];
          hosts = setHost (ih_garagePublicHost settings) ''object storage'' hosts;
          hosts = setHost (ih_registryPublicHost settings) ''the Docker registry'' hosts
      in case hostOfUrl parseHost (ih_origin settings) of
           None \<Rightarrow> hosts
         | Some dashboard \<Rightarrow> if dashboard = [] then hosts else AList.update dashboard ''the Homerun dashboard'' hosts)"

section \<open>What routes a host\<close>

record serviceRow = ServiceDomainFields +
  sv_id :: string
  sv_name :: string
  sv_stackId :: "string option"
  sv_dnsResolvable :: bool
  sv_domainPorts :: "nat js_map"
  sv_stripPathDomains :: "string list"

record workstationRow =
  ws_id :: string
  ws_domain :: "string option"
  ws_slug :: string

definition workstationHostname :: "workstationRow \<Rightarrow> string \<Rightarrow> string" where
  "workstationHostname ws baseDomain = (case ws_domain ws of Some d \<Rightarrow> d | None \<Rightarrow> ws_slug ws @ ''.'' @ baseDomain)"

text \<open>What the functions read: the core hosts, the services with the slugs of their stacks, redirects and workstations.\<close>

record routing =
  ro_core :: "string js_map"
  ro_services :: "serviceRow list"
  ro_stackSlugs :: "string js_map"
  ro_redirects :: redirects
  ro_workstations :: "workstationRow list"
  ro_serviceDomain :: string
  ro_baseDomain :: string

record routedEntry =
  re_dnsResolvable :: bool
  re_entries :: "string list"
  re_id :: string
  re_name :: string

definition stackSlugOf :: "string js_map \<Rightarrow> serviceRow \<Rightarrow> string option" where
  "stackSlugOf slugs svc = (case sv_stackId svc of None \<Rightarrow> None | Some i \<Rightarrow> if i = [] then None else map_of slugs i)"

definition rowHostnames :: "string js_map \<Rightarrow> string \<Rightarrow> serviceRow \<Rightarrow> string list" where
  "rowHostnames slugs domain svc = serviceHostnames (ServiceDomainFields.truncate svc) (stackSlugOf slugs svc) domain"

definition routedServices :: "routing \<Rightarrow> routedEntry list" where
  "routedServices ro =
     map (\<lambda>svc. \<lparr> re_dnsResolvable = sv_dnsResolvable svc,
                  re_entries = map lower (rowHostnames (ro_stackSlugs ro) (ro_serviceDomain ro) svc),
                  re_id = sv_id svc, re_name = sv_name svc \<rparr>) (ro_services ro)"

definition quoted :: "string \<Rightarrow> string" where
  "quoted s = [CHR 0x22] @ s @ [CHR 0x22]"

definition hostnameOwner :: "routing \<Rightarrow> string \<Rightarrow> string option \<Rightarrow> string option" where
  "hostnameOwner ro hostname exceptWorkstationId =
     (let host = lower (trim hostname)
      in case coreLabel (ro_core ro) host of
           Some label \<Rightarrow> Some label
         | None \<Rightarrow>
             (case List.find (\<lambda>svc. host \<in> set (domainHosts (re_entries svc))) (routedServices ro) of
                Some svc \<Rightarrow> Some (''the service '' @ quoted (re_name svc))
              | None \<Rightarrow>
                  if list_ex (\<lambda>r. redirectHost (rf_source r) = Some host) (ro_redirects ro) then Some ''a redirect''
                  else
                    (case List.find (\<lambda>ws. Some (ws_id ws) \<noteq> exceptWorkstationId \<and> workstationHostname ws (ro_baseDomain ro) = host)
                            (ro_workstations ro) of
                       Some _ \<Rightarrow> Some ''another workstation''
                     | None \<Rightarrow> None)))"

datatype domainOwner =
    CoreHost (owner_label: string)
  | WorkstationHost (owner_label: string)
  | RedirectSource (owner_id: string) (owner_label: string)
  | RoutedBy (owner_id: string) (owner_label: string)

record domainConflict =
  dc_entry :: string
  dc_owner :: domainOwner

definition redirectOn :: "string \<Rightarrow> redirectRow \<Rightarrow> bool" where
  "redirectOn host r \<longleftrightarrow> rf_enabled r \<and> redirectHost (rf_source r) = Some host"

definition ownerOf :: "routing \<Rightarrow> string option \<Rightarrow> string \<Rightarrow> domainOwner option" where
  "ownerOf ro exceptServiceId entry =
     (let host = fst (splitDomain entry)
      in case coreLabel (ro_core ro) host of
           Some label \<Rightarrow> Some (CoreHost label)
         | None \<Rightarrow>
             if host \<in> set (map (\<lambda>ws. lower (workstationHostname ws (ro_baseDomain ro))) (ro_workstations ro))
             then Some (WorkstationHost ''a workstation'')
             else
               (case List.find (redirectOn host) (ro_redirects ro) of
                  Some r \<Rightarrow> Some (RedirectSource (rf_id r) (''the redirect from '' @ rf_source r))
                | None \<Rightarrow>
                    map_option (\<lambda>svc. RoutedBy (re_id svc) (''the service '' @ quoted (re_name svc)))
                      (List.find (\<lambda>svc. Some (re_id svc) \<noteq> exceptServiceId \<and> entry \<in> set (re_entries svc)) (routedServices ro))))"

definition serviceDomainConflicts :: "routing \<Rightarrow> string list \<Rightarrow> string option \<Rightarrow> domainConflict list" where
  "serviceDomainConflicts ro entries exceptServiceId =
     List.map_filter (\<lambda>raw.
       (let entry = lower raw
        in map_option (\<lambda>owner. \<lparr> dc_entry = entry, dc_owner = owner \<rparr>) (ownerOf ro exceptServiceId entry))) entries"

definition serviceRoutedHosts :: "routing \<Rightarrow> string option \<Rightarrow> string list" where
  "serviceRoutedHosts ro exceptServiceId =
     js_unique (concat (map (\<lambda>svc. domainHosts (re_entries svc))
       (filter (\<lambda>svc. Some (re_id svc) \<noteq> exceptServiceId \<and> re_dnsResolvable svc) (routedServices ro))))"

section \<open>Taking domains over\<close>

text \<open>\<open>withoutEntries\<close> as the row its update leaves.\<close>

definition withoutEntries :: "string js_map \<Rightarrow> string \<Rightarrow> string list \<Rightarrow> serviceRow \<Rightarrow> serviceRow" where
  "withoutEntries slugs domain entries row =
     (let domains = filter (\<lambda>d. d \<notin> set entries) (sd_domains row);
          defaultDomainEnabled =
            (sd_defaultDomainEnabled row \<and> defaultHostname (sd_slug row) (stackSlugOf slugs row) domain \<notin> set entries);
          row' = row\<lparr>sd_defaultDomainEnabled := defaultDomainEnabled, sd_domains := domains,
                     sv_domainPorts := filter (\<lambda>(d, _). d \<notin> set entries) (sv_domainPorts row),
                     sd_primaryDomain :=
                       (case sd_primaryDomain row of
                          Some p \<Rightarrow> if p \<noteq> [] \<and> p \<in> set entries then None else Some p
                        | None \<Rightarrow> None),
                     sv_stripPathDomains := filter (\<lambda>d. d \<notin> set entries) (sv_stripPathDomains row)\<rparr>
      in if rowHostnames slugs domain row' = [] then row'\<lparr>sv_dnsResolvable := False\<rparr> else row')"

text \<open>The entries taken from one redirect or one service.\<close>

definition takenFrom :: "(domainOwner \<Rightarrow> bool) \<Rightarrow> domainConflict list \<Rightarrow> string list" where
  "takenFrom owner conflicts = map dc_entry (filter (\<lambda>c. owner (dc_owner c)) conflicts)"

definition isRedirect :: "string \<Rightarrow> domainOwner \<Rightarrow> bool" where
  "isRedirect i owner \<longleftrightarrow> (case owner of RedirectSource j _ \<Rightarrow> i = j | _ \<Rightarrow> False)"

definition isService :: "string \<Rightarrow> domainOwner \<Rightarrow> bool" where
  "isService i owner \<longleftrightarrow> (case owner of RoutedBy j _ \<Rightarrow> i = j | _ \<Rightarrow> False)"

definition canYield :: "domainOwner \<Rightarrow> bool" where
  "canYield owner \<longleftrightarrow> (case owner of RedirectSource _ _ \<Rightarrow> True | RoutedBy _ _ \<Rightarrow> True | _ \<Rightarrow> False)"

text \<open>
  The owners are different rows, each updated once; the labels come back with the conflict that threw, if one did.
\<close>

definition takeOverDomains :: "timestamp \<Rightarrow> domainConflict list \<Rightarrow> routing \<Rightarrow> (domainConflict + string list) \<times> routing" where
  "takeOverDomains now conflicts ro =
     (case List.find (\<lambda>c. \<not> canYield (dc_owner c)) conflicts of
        Some c \<Rightarrow> (Inl c, ro)
      | None \<Rightarrow>
          (Inr (js_unique (map (\<lambda>c. owner_label (dc_owner c)) conflicts)),
           ro\<lparr>ro_redirects :=
                map (\<lambda>r. if list_ex (\<lambda>c. isRedirect (rf_id r) (dc_owner c)) conflicts
                          then r\<lparr>rf_enabled := False, rf_updatedAt := now\<rparr> else r) (ro_redirects ro),
              ro_services :=
                map (\<lambda>svc. let entries = takenFrom (isService (sv_id svc)) conflicts
                            in if entries = [] then svc
                               else withoutEntries (ro_stackSlugs ro) (ro_serviceDomain ro) entries svc) (ro_services ro)\<rparr>))"

end
