(* ===== verification/Redirect_Theorems.thy ===== *)
theory Redirect_Theorems
  imports Redirects Pattern_Theorems
begin

text \<open>
  Properties of redirects: the regular expression of a redirect matches exactly the URLs under its source; stored sources
  are canonical and each stored once, so that every enabled redirect is published; and the hosts whose DNS is cleaned up.
\<close>

section \<open>The regular expression\<close>

lemma regexSpecial_syntax: "regexSpecial c \<longleftrightarrow> is_syntax c"
  by (auto simp: regexSpecial_def is_syntax_def)

lemma parse_escaped:
  "parseRx (escapeRegex w @ rest) ((alts, cur, cap) # fs) = parseRx rest ((alts, cur @ map Lit w, cap) # fs)"
proof (induction w arbitrary: cur)
  case (Cons c w)
  have e: "escapeRegex (c # w) = (if is_syntax c then [CHR 0x5C, c] else [c]) @ escapeRegex w"
    by (simp add: escapeRegex_def regexSpecial_syntax)
  show ?case
  proof (cases "is_syntax c")
    case True
    then have "c \<noteq> CHR ''d''" by (auto simp: is_syntax_def)
    then show ?thesis using Cons True by (simp add: e addRx_def)
  next
    case False
    then have "c \<notin> set [CHR 0x5C, CHR ''^'', CHR ''$'', CHR ''.'', CHR ''|'', CHR ''?'', CHR ''*'', CHR ''+'',
       CHR ''('', CHR '')'', CHR ''['', CHR '']'', CHR ''{'', CHR ''}'']"
      unfolding is_syntax_def .
    then show ?thesis using Cons False by (simp add: e addRx_def)
  qed
qed (simp add: escapeRegex_def)

definition sourceSeq :: "string \<Rightarrow> string \<Rightarrow> rx list" where
  "sourceSeq host pathPrefix =
     [Bol, Lit (CHR ''h''), Lit (CHR ''t''), Lit (CHR ''t''), Lit (CHR ''p''), Opt (Lit (CHR ''s'')), Lit (CHR '':''),
      Lit (CHR ''/''), Lit (CHR ''/'')] @ map Lit host @ [Opt (Group [[Lit (CHR '':''), Many1 Digit]])] @ map Lit pathPrefix"

definition restGroup :: rx where
  "restGroup = Opt (Group [[OneOf ''/?'', Many Any]])"

lemma syntax_char: "is_syntax (CHR ''h'') = False" "is_syntax (CHR ''t'') = False" "is_syntax (CHR ''p'') = False"
  "is_syntax (CHR ''s'') = False" "is_syntax (CHR '':'') = False" "is_syntax (CHR ''/'') = False"
  by (simp_all add: is_syntax_def)

lemma parse_head:
  "parseRx (regexHead host pathPrefix @ rest) [([], [], False)] = parseRx rest [([], sourceSeq host pathPrefix, False)]"
  unfolding regexHead_def
  by (simp add: quantify_def addRx_def syntax_char parse_escaped sourceSeq_def)

lemma read_dropped: "readRx (regexHead host pathPrefix @ ''(?:[/?].*)?$'') = Some [sourceSeq host pathPrefix @ [restGroup, Eol]]"
  unfolding readRx_def parse_head
  by (simp add: quantify_def addRx_def syntax_char restGroup_def)

lemma read_kept: "readRx (regexHead host pathPrefix @ ''((?:[/?].*)?)$'') =
  Some [sourceSeq host pathPrefix @ [Capture [[restGroup]], Eol]]"
  unfolding readRx_def parse_head
  by (simp add: quantify_def addRx_def syntax_char restGroup_def)

lemma in_lits:
  "t \<in> set (mSeq False (map Lit w @ rs) (b, a)) \<longleftrightarrow> (\<exists>a'. a = w @ a' \<and> t \<in> set (mSeq False rs (rev w @ b, a')))"
proof (induction w arbitrary: a b)
  case (Cons c w)
  show ?case
  proof (cases a)
    case (Cons d a')
    then show ?thesis using Cons.IH[of "c # b" a'] by (cases "c = d") (simp_all add: same_char_def)
  qed simp
qed simp

text \<open>A port, or none.\<close>

definition portText :: "string \<Rightarrow> bool" where
  "portText p \<longleftrightarrow> p = [] \<or> (\<exists>ds. p = CHR '':'' # ds \<and> ds \<noteq> [] \<and> list_all is_digit ds)"

lemma accepts_Digit: "accepts ci Digit = is_digit"
  by (rule ext) simp

lemma in_port:
  "t \<in> set (mAtom False (Opt (Group [[Lit (CHR '':''), Many1 Digit]])) (b, a)) \<longleftrightarrow>
   (\<exists>p. portText p \<and> a = p @ snd t \<and> fst t = rev p @ b)"
proof -
  have "t \<in> set (mAtom False (Opt (Group [[Lit (CHR '':''), Many1 Digit]])) (b, a)) \<longleftrightarrow>
      t = (b, a) \<or> t \<in> set (mSeq False (map Lit '':'' @ [Many1 Digit]) (b, a))"
    by auto
  also have "\<dots> \<longleftrightarrow> t = (b, a) \<or> (\<exists>a'. a = '':'' @ a' \<and> t \<in> set (mAtom False (Many1 Digit) (CHR '':'' # b, a')))"
    unfolding in_lits in_mSeq_Cons by simp
  also have "\<dots> \<longleftrightarrow> (\<exists>p. portText p \<and> a = p @ snd t \<and> fst t = rev p @ b)"
    unfolding in_many1[of Digit, simplified single.simps, OF TrueI] accepts_Digit portText_def by (cases t) auto
  finally show ?thesis .
qed

text \<open>What may stand after the source: nothing, or a slash or question mark and anything but a line break.\<close>

definition restText :: "string \<Rightarrow> bool" where
  "restText r \<longleftrightarrow> r = [] \<or> hd r \<in> {CHR ''/'', CHR ''?''} \<and> list_all (\<lambda>c. \<not> is_eol c) (tl r)"

lemma in_rest:
  "t \<in> set (mAtom False restGroup (b, a)) \<longleftrightarrow> (\<exists>r. restText r \<and> a = r @ snd t \<and> fst t = rev r @ b)"
proof -
  have "t \<in> set (mAtom False restGroup (b, a)) \<longleftrightarrow>
      t = (b, a) \<or> (\<exists>u \<in> set (one False (OneOf ''/?'') (b, a)). t \<in> set (repeats spotLeft (mAtom False Any) u))"
    by (auto simp: restGroup_def)
  also have "\<dots> \<longleftrightarrow> t = (b, a) \<or>
      (\<exists>c w. (c = CHR ''/'' \<or> c = CHR ''?'') \<and> list_all (\<lambda>d. \<not> is_eol d) w \<and> a = c # w @ snd t \<and> fst t = rev w @ c # b)"
    by (cases a) (auto simp: in_many same_char_def)
  also have "\<dots> \<longleftrightarrow> (\<exists>r. restText r \<and> a = r @ snd t \<and> fst t = rev r @ b)"
  proof
    assume "t = (b, a) \<or>
      (\<exists>c w. (c = CHR ''/'' \<or> c = CHR ''?'') \<and> list_all (\<lambda>d. \<not> is_eol d) w \<and> a = c # w @ snd t \<and> fst t = rev w @ c # b)"
    then consider "t = (b, a)" | c w where "c = CHR ''/'' \<or> c = CHR ''?''" "list_all (\<lambda>d. \<not> is_eol d) w"
        "a = c # w @ snd t" "fst t = rev w @ c # b" by blast
    then show "\<exists>r. restText r \<and> a = r @ snd t \<and> fst t = rev r @ b"
    proof cases
      case 1
      then show ?thesis by (intro exI[of _ "[]"]) (simp add: restText_def)
    next
      case 2
      then show ?thesis by (intro exI[of _ "c # w"]) (auto simp: restText_def)
    qed
  next
    assume "\<exists>r. restText r \<and> a = r @ snd t \<and> fst t = rev r @ b"
    then obtain r where r: "restText r" "a = r @ snd t" "fst t = rev r @ b" by blast
    show "t = (b, a) \<or>
      (\<exists>c w. (c = CHR ''/'' \<or> c = CHR ''?'') \<and> list_all (\<lambda>d. \<not> is_eol d) w \<and> a = c # w @ snd t \<and> fst t = rev w @ c # b)"
      using r by (cases r; cases t) (auto simp: restText_def)
  qed
  finally show ?thesis .
qed

text \<open>The URLs of a source.\<close>

definition underSource :: "string \<Rightarrow> string \<Rightarrow> string \<Rightarrow> string \<Rightarrow> bool" where
  "underSource host pathPrefix rest url \<longleftrightarrow>
     restText rest \<and> (\<exists>scheme port. scheme \<in> {''http://'', ''https://''} \<and> portText port \<and>
       url = scheme @ host @ port @ pathPrefix @ rest)"

lemma in_source:
  "t \<in> set (mSeq False (sourceSeq host pathPrefix @ rs) ([], a)) \<longleftrightarrow>
   (\<exists>scheme port a'. scheme \<in> {''http://'', ''https://''} \<and> portText port \<and> a = scheme @ host @ port @ pathPrefix @ a' \<and>
      t \<in> set (mSeq False rs (rev (scheme @ host @ port @ pathPrefix), a')))"
proof -
  let ?port = "Opt (Group [[Lit (CHR '':''), Many1 Digit]])"
  let ?tail = "map Lit (''://'' @ host) @ ?port # map Lit pathPrefix @ rs"
  define T where "T = ?tail"
  have seq: "sourceSeq host pathPrefix @ rs = Bol # map Lit ''http'' @ Opt (Lit (CHR ''s'')) # T"
    by (simp add: sourceSeq_def T_def)
  have bol: "t \<in> set (mSeq False (Bol # X) ([], a)) \<longleftrightarrow> t \<in> set (mSeq False X ([], a))" for X by simp
  have opt: "t \<in> set (mSeq False (Opt (Lit (CHR ''s'')) # T) (b, a')) \<longleftrightarrow>
      t \<in> set (mSeq False T (b, a')) \<or> t \<in> set (mSeq False (map Lit ''s'' @ T) (b, a'))" for b a'
    by auto
  have tail: "t \<in> set (mSeq False T (b, a')) \<longleftrightarrow>
      (\<exists>port a''. portText port \<and> a' = (''://'' @ host) @ port @ pathPrefix @ a'' \<and>
         t \<in> set (mSeq False rs (rev pathPrefix @ rev port @ rev (''://'' @ host) @ b, a'')))" for b a'
  proof -
    have "t \<in> set (mSeq False (?port # map Lit pathPrefix @ rs) (c, e)) \<longleftrightarrow>
        (\<exists>port a''. portText port \<and> e = port @ pathPrefix @ a'' \<and>
           t \<in> set (mSeq False rs (rev pathPrefix @ rev port @ c, a'')))" for c e
    proof -
      have "t \<in> set (mSeq False (?port # map Lit pathPrefix @ rs) (c, e)) \<longleftrightarrow>
          (\<exists>u. (\<exists>p. portText p \<and> e = p @ snd u \<and> fst u = rev p @ c) \<and> t \<in> set (mSeq False (map Lit pathPrefix @ rs) (fst u, snd u)))"
        unfolding in_mSeq_Cons Bex_def in_port by simp
      then show ?thesis unfolding in_lits by (simp only: split_paired_Ex fst_conv snd_conv) blast
    qed
    then show ?thesis unfolding T_def in_lits by blast
  qed
  have "t \<in> set (mSeq False (sourceSeq host pathPrefix @ rs) ([], a)) \<longleftrightarrow>
      (\<exists>a'. a = ''http'' @ a' \<and> (t \<in> set (mSeq False T (rev ''http'', a')) \<or>
         (\<exists>a''. a' = ''s'' @ a'' \<and> t \<in> set (mSeq False T (rev ''s'' @ rev ''http'', a'')))))"
    unfolding seq bol in_lits opt append_Nil2 ..
  also have "\<dots> \<longleftrightarrow> (\<exists>s a'. s \<in> {[], ''s''} \<and> a = ''http'' @ s @ a' \<and> t \<in> set (mSeq False T (rev s @ rev ''http'', a')))"
    by (simp only: insert_iff empty_iff) (metis append_Nil rev.simps(1))
  finally have one: "t \<in> set (mSeq False (sourceSeq host pathPrefix @ rs) ([], a)) \<longleftrightarrow>
      (\<exists>s port a'. s \<in> {[], ''s''} \<and> portText port \<and> a = ''http'' @ s @ (''://'' @ host) @ port @ pathPrefix @ a' \<and>
        t \<in> set (mSeq False rs (rev pathPrefix @ rev port @ rev (''://'' @ host) @ rev s @ rev ''http'', a')))"
    unfolding tail by blast
  let ?ends = "\<lambda>scheme port a'. set (mSeq False rs (rev (scheme @ host @ port @ pathPrefix), a'))"
  have spot: "rev pathPrefix @ rev port @ rev (''://'' @ host) @ rev s @ rev ''http'' =
      rev ((''http'' @ s @ ''://'') @ host @ port @ pathPrefix)" for s port
    by simp
  show ?thesis
  proof
    assume "t \<in> set (mSeq False (sourceSeq host pathPrefix @ rs) ([], a))"
    then obtain s port a' where s: "s \<in> {[], ''s''}" "portText port"
        "a = ''http'' @ s @ (''://'' @ host) @ port @ pathPrefix @ a'" "t \<in> ?ends (''http'' @ s @ ''://'') port a'"
      unfolding one spot by blast
    then show "\<exists>scheme port a'. scheme \<in> {''http://'', ''https://''} \<and> portText port \<and>
        a = scheme @ host @ port @ pathPrefix @ a' \<and> t \<in> ?ends scheme port a'"
      by (intro exI[of _ "''http'' @ s @ ''://''"] exI[of _ port] exI[of _ a']) auto
  next
    assume "\<exists>scheme port a'. scheme \<in> {''http://'', ''https://''} \<and> portText port \<and>
        a = scheme @ host @ port @ pathPrefix @ a' \<and> t \<in> ?ends scheme port a'"
    then obtain scheme port a' where e: "scheme \<in> {''http://'', ''https://''}" "portText port"
        "a = scheme @ host @ port @ pathPrefix @ a'" "t \<in> ?ends scheme port a'" by blast
    obtain s where s: "s \<in> {[], ''s''}" "scheme = ''http'' @ s @ ''://''" using e(1) by auto
    show "t \<in> set (mSeq False (sourceSeq host pathPrefix @ rs) ([], a))"
      unfolding one spot using e s by (intro exI[of _ s] exI[of _ port] exI[of _ a']) simp
  qed
qed

lemma test_source:
  assumes "readRx regex = Some [sourceSeq host pathPrefix @ rs]"
    and rs: "\<And>b a. (\<exists>t. t \<in> set (mSeq False rs (b, a))) \<longleftrightarrow> restText a"
    and go: "\<not> starts_with ''(?i)'' regex"
  shows "goRegexTest regex url = Some (\<exists>rest. underSource host pathPrefix rest url)"
proof -
  have bol: "t \<notin> set (mSeq False (sourceSeq host pathPrefix @ rs) (c # b, a))" for t c b a
    by (simp add: sourceSeq_def)
  have "rxTest False [sourceSeq host pathPrefix @ rs] url \<longleftrightarrow>
      (\<exists>t. t \<in> set (mSeq False (sourceSeq host pathPrefix @ rs) ([], url)))"
  proof
    assume "rxTest False [sourceSeq host pathPrefix @ rs] url"
    then obtain b a t where b: "url = rev b @ a" "t \<in> set (mSeq False (sourceSeq host pathPrefix @ rs) (b, a))"
      unfolding rxTest_one by blast
    have "b = []" using b(2) bol by (cases b) auto
    then show "\<exists>t. t \<in> set (mSeq False (sourceSeq host pathPrefix @ rs) ([], url))" using b by (intro exI[of _ t]) simp
  next
    assume "\<exists>t. t \<in> set (mSeq False (sourceSeq host pathPrefix @ rs) ([], url))"
    then show "rxTest False [sourceSeq host pathPrefix @ rs] url"
      unfolding rxTest_one by (intro exI[of _ "[]"] exI[of _ url]) simp
  qed
  also have "\<dots> \<longleftrightarrow> (\<exists>rest. underSource host pathPrefix rest url)"
  proof
    assume "\<exists>t. t \<in> set (mSeq False (sourceSeq host pathPrefix @ rs) ([], url))"
    then obtain t scheme port rest where e: "scheme \<in> {''http://'', ''https://''}" "portText port"
        "url = scheme @ host @ port @ pathPrefix @ rest"
        "t \<in> set (mSeq False rs (rev (scheme @ host @ port @ pathPrefix), rest))"
      unfolding in_source by (elim exE conjE)
    have "restText rest" by (rule rs[THEN iffD1, OF exI, OF e(4)])
    then show "\<exists>rest. underSource host pathPrefix rest url" unfolding underSource_def using e(1-3) by blast
  next
    assume "\<exists>rest. underSource host pathPrefix rest url"
    then obtain rest scheme port where e: "restText rest" "scheme \<in> {''http://'', ''https://''}" "portText port"
        "url = scheme @ host @ port @ pathPrefix @ rest" unfolding underSource_def by (elim exE conjE)
    obtain t where "t \<in> set (mSeq False rs (rev (scheme @ host @ port @ pathPrefix), rest))"
      using rs[of "rev (scheme @ host @ port @ pathPrefix)" rest, THEN iffD2, OF e(1)] by blast
    then have "t \<in> set (mSeq False (sourceSeq host pathPrefix @ rs) ([], url))"
      unfolding in_source using e(2-4) by (intro exI conjI)
    then show "\<exists>t. t \<in> set (mSeq False (sourceSeq host pathPrefix @ rs) ([], url))" by (rule exI)
  qed
  finally show ?thesis using assms(1) go by (simp add: goRegexTest_def regExpTest_def)
qed

lemma rest_end:
  "(\<exists>t. t \<in> set (mSeq False [restGroup, Eol] (b, a))) \<longleftrightarrow> restText a"
  "(\<exists>t. t \<in> set (mSeq False [Capture [[restGroup]], Eol] (b, a))) \<longleftrightarrow> restText a"
proof -
  have "(\<exists>t. t \<in> set (mSeq False [restGroup, Eol] (b, a))) \<longleftrightarrow>
      (\<exists>u. (\<exists>r. restText r \<and> a = r @ snd u \<and> fst u = rev r @ b) \<and> snd u = [])"
    unfolding in_mSeq_Cons Bex_def in_rest[symmetric] by auto
  also have "\<dots> \<longleftrightarrow> restText a" by (auto simp: split_paired_Ex)
  finally show one: "(\<exists>t. t \<in> set (mSeq False [restGroup, Eol] (b, a))) \<longleftrightarrow> restText a" .
  have "mSeq False [Capture [[restGroup]], Eol] (b, a) = mSeq False [restGroup, Eol] (b, a)"
  proof -
    have "concat (map (mSeq False []) xs) = xs" for xs by (induction xs) auto
    then show ?thesis by simp
  qed
  then show "(\<exists>t. t \<in> set (mSeq False [Capture [[restGroup]], Eol] (b, a))) \<longleftrightarrow> restText a" using one by simp
qed

lemma redirect_regex_urls:
  assumes "redirectRegexFor rule = Some (regex, replacement)"
  shows "\<exists>host pathPrefix. splitSource (rf_source rule) = Some (host, pathPrefix) \<and>
     goRegexTest regex url = Some (\<exists>rest. underSource host pathPrefix rest url)"
proof -
  obtain host pathPrefix where p: "splitSource (rf_source rule) = Some (host, pathPrefix)"
    using assms by (auto simp: redirectRegexFor_def split: option.splits)
  have go: "\<not> starts_with ''(?i)'' (regexHead host pathPrefix @ e)" for e by (simp add: regexHead_def)
  show ?thesis
  proof (cases "rf_keepPath rule")
    case True
    then have "regex = regexHead host pathPrefix @ ''((?:[/?].*)?)$''" using assms p by (simp add: redirectRegexFor_def)
    then show ?thesis using p test_source[OF read_kept rest_end(2) go] by simp
  next
    case False
    then have "regex = regexHead host pathPrefix @ ''(?:[/?].*)?$''" using assms p by (simp add: redirectRegexFor_def)
    then show ?thesis using p test_source[OF read_dropped rest_end(1) go] by simp
  qed
qed

text \<open>Which text of a URL is the rest is settled by the source.\<close>

lemma digit_not_slash: "is_digit c \<Longrightarrow> c \<noteq> CHR ''/'' \<and> c \<noteq> CHR ''?''"
  by (auto simp: is_digit_def)

lemma port_before:
  assumes "portText p" "q = [] \<or> hd q = CHR ''/'' \<or> hd q = CHR ''?''"
  shows "takeWhile (\<lambda>c. c \<noteq> CHR ''/'' \<and> c \<noteq> CHR ''?'') (p @ q) = p"
proof -
  have "\<forall>c \<in> set p. c \<noteq> CHR ''/'' \<and> c \<noteq> CHR ''?''"
    using assms(1) digit_not_slash by (fastforce simp: portText_def list_all_iff)
  then show ?thesis using assms(2) by (cases q) (simp_all add: takeWhile_append)
qed

lemma rest_unique:
  assumes "scheme \<in> {''http://'', ''https://''}" "portText port" "restText rest"
    and "scheme' \<in> {''http://'', ''https://''}" "portText port'" "restText rest'"
    and pp: "pathPrefix = [] \<or> hd pathPrefix = CHR ''/''"
    and url: "scheme @ host @ port @ pathPrefix @ rest = scheme' @ host @ port' @ pathPrefix @ rest'"
  shows "rest = rest'"
proof -
  have "scheme = scheme'" using assms(1,4) url by auto
  then have same: "port @ pathPrefix @ rest = port' @ pathPrefix @ rest'" using url by simp
  have after: "pathPrefix @ r = [] \<or> hd (pathPrefix @ r) = CHR ''/'' \<or> hd (pathPrefix @ r) = CHR ''?''" if "restText r" for r
    using pp that by (cases pathPrefix) (auto simp: restText_def)
  have "port = port'" using port_before[OF assms(2) after[OF assms(3)]] port_before[OF assms(5) after[OF assms(6)]] same by simp
  then show ?thesis using same by simp
qed

lemma prefix_slash: "splitSource source = Some (host, pathPrefix) \<Longrightarrow> pathPrefix = [] \<or> hd pathPrefix = CHR ''/''"
proof -
  assume "splitSource source = Some (host, pathPrefix)"
  then have "pathPrefix = strip_trailing (CHR ''/'') (dropWhile (\<lambda>c. c \<noteq> CHR ''/'') (lower (trim source)))"
    by (auto simp: splitSource_def Let_def split: if_splits)
  then obtain n where n: "dropWhile (\<lambda>c. c \<noteq> CHR ''/'') (lower (trim source)) = pathPrefix @ replicate n (CHR ''/'')"
    using strip_trailing_append by metis
  show ?thesis
  proof (cases pathPrefix)
    case (Cons c r)
    then show ?thesis using n hd_dropWhile[of "\<lambda>c. c \<noteq> CHR ''/''" "lower (trim source)"] by force
  qed simp
qed

section \<open>The groups of a match\<close>

lemma source_plain: "seqCaps (sourceSeq host pathPrefix) = 0"
proof -
  have "seqCaps (map Lit w) = 0" for w by (induction w) auto
  moreover have "seqCaps (xs @ ys) = seqCaps xs + seqCaps ys" for xs ys by (induction xs) auto
  ultimately show ?thesis by (simp add: sourceSeq_def)
qed

lemma rest_plain: "rxCaps restGroup = 0"
  by (simp add: restGroup_def)

lemma dropped_groups:
  assumes "y \<in> set (cSeq False 1 [restGroup, Eol] (u, g))"
  shows "fst y = (rev (snd u) @ fst u, []) \<and> restText (snd u)"
proof -
  have t: "(fst y, snd y) \<in> set (cAtom False 1 restGroup (u, g))" "snd (fst y) = []"
    using assms by (auto split: if_splits)
  then have "fst y \<in> set (mAtom False restGroup (fst u, snd u))" unfolding plain_captures[OF rest_plain] by simp
  then show ?thesis using t(2) unfolding in_rest by (auto simp: prod_eq_iff)
qed

lemma kept_groups:
  "y \<in> set (cSeq False 1 [Capture [[restGroup]], Eol] (u, g)) \<Longrightarrow>
   fst y = (rev (snd u) @ fst u, []) \<and> restText (snd u) \<and> groupText (snd y) 1 = snd u"
proof -
  assume "y \<in> set (cSeq False 1 [Capture [[restGroup]], Eol] (u, g))"
  then obtain t h where t: "(t, h) \<in> set (cAtom False 2 restGroup (u, g))" "snd t = []" "y = (t, h(1 \<mapsto> takenText u t))"
    by (auto split: if_splits simp: numeral_2_eq_2)
  then have "t \<in> set (mAtom False restGroup (fst u, snd u))" unfolding plain_captures[OF rest_plain] by simp
  then show ?thesis using t unfolding in_rest by (auto simp: prod_eq_iff takenText_def groupText_def)
qed

lemma source_matches:
  assumes "readRx regex = Some [sourceSeq host pathPrefix @ rs]" "\<not> starts_with ''(?i)'' regex"
    and "goRegexMatches regex url = Some ms" "m \<in> set ms"
  shows "\<exists>scheme port rest. scheme \<in> {''http://'', ''https://''} \<and> portText port \<and> url = scheme @ host @ port @ pathPrefix @ rest \<and>
     fst m = ([], url) \<and> snd m \<in> set (cSeq False 1 rs ((rev (scheme @ host @ port @ pathPrefix), rest), Map.empty))"
proof -
  have "ms = rxMatches False [sourceSeq host pathPrefix @ rs] url" using assms(1-3) by (simp add: goRegexMatches_def)
  then obtain b a where b: "url = rev b @ a" "fst m = (b, a)" "snd m \<in> set (matchesAt False [sourceSeq host pathPrefix @ rs] (b, a))"
    using in_rxMatches assms(4) by blast
  then have "snd m \<in> set (cSeq False 1 (sourceSeq host pathPrefix @ rs) ((b, a), Map.empty))" by (simp add: matchesAt_def)
  then obtain u where u: "u \<in> set (mSeq False (sourceSeq host pathPrefix) (b, a))" "snd m \<in> set (cSeq False 1 rs (u, Map.empty))"
    unfolding plain_sequence[OF source_plain] by auto
  have "b = []" using u(1) by (cases b) (simp_all add: sourceSeq_def)
  then have "u \<in> set (mSeq False (sourceSeq host pathPrefix @ []) ([], url))" using u(1) b(1) by simp
  then obtain scheme port rest where e: "scheme \<in> {''http://'', ''https://''}" "portText port"
      "url = scheme @ host @ port @ pathPrefix @ rest" "u = (rev (scheme @ host @ port @ pathPrefix), rest)"
    unfolding in_source by auto
  show ?thesis
    using e(1-3) u(2) b(1,2) \<open>b = []\<close> unfolding e(4) by (intro exI[of _ scheme] exI[of _ port] exI[of _ rest]) simp
qed

text \<open>
  How a replacement is expanded, for the groups \<open>g\<close> of a match: two dollars stand for one, \<open>${1}\<close> for the first group,
  any other character for itself.
\<close>

definition expandsTemplate :: "(captures \<Rightarrow> string \<Rightarrow> string) \<Rightarrow> bool" where
  "expandsTemplate expand \<longleftrightarrow>
     (\<forall>g. expand g [] = []) \<and> (\<forall>g r. expand g (''$$'' @ r) = ''$'' @ expand g r) \<and>
     (\<forall>g r. expand g (''${1}'' @ r) = groupText g 1 @ expand g r) \<and>
     (\<forall>g c r. c \<noteq> CHR ''$'' \<longrightarrow> expand g (c # r) = c # expand g r)"

lemma expand_doubled:
  assumes "expandsTemplate expand"
  shows "expand g (doubleDollars w @ r) = w @ expand g r"
  using assms by (induction w) (auto simp: doubleDollars_def expandsTemplate_def)

fun goExpand :: "captures \<Rightarrow> string \<Rightarrow> string" where
  "goExpand g [] = []"
| "goExpand g (c # cs) =
     (if c = CHR ''$'' then
        (case cs of
           d # ds \<Rightarrow>
             if d = CHR ''$'' then d # goExpand g ds
             else if take 3 cs = ''{1}'' then groupText g 1 @ goExpand g (drop 3 cs) else c # goExpand g cs
         | [] \<Rightarrow> [c])
      else c # goExpand g cs)"

lemma goExpand_expands: "expandsTemplate goExpand"
  by (auto simp: expandsTemplate_def numeral_3_eq_3)

text \<open>A match of a redirect takes the whole URL, and its replacement is the destination, with the rest when it is kept.\<close>

lemma redirect_match:
  assumes "redirectRegexFor rule = Some (regex, replacement)" "expandsTemplate expand"
    and "splitSource (rf_source rule) = Some (host, pathPrefix)" "underSource host pathPrefix rest url"
    and "goRegexMatches regex url = Some ms" "m \<in> set ms"
  shows "fst m = ([], url) \<and> fst (snd m) = (rev url, []) \<and> expand (snd (snd m)) replacement =
     (if rf_keepPath rule then strip_trailing (CHR ''/'') (rf_destination rule) @ rest else rf_destination rule)"
proof -
  let ?g = "snd (snd m)"
  have go: "\<not> starts_with ''(?i)'' (regexHead host pathPrefix @ e)" for e by (simp add: regexHead_def)
  have tail: "expand ?g (''${1}'' @ []) = groupText ?g 1" "expand ?g [] = []"
    using assms(2) unfolding expandsTemplate_def by (metis append_Nil2)+
  obtain scheme port where s: "scheme \<in> {''http://'', ''https://''}" "portText port" "restText rest"
    "url = scheme @ host @ port @ pathPrefix @ rest" using assms(4) by (auto simp: underSource_def)
  have same: "rest' = rest" if "scheme' \<in> {''http://'', ''https://''}" "portText port'" "restText rest'"
    "url = scheme' @ host @ port' @ pathPrefix @ rest'" for scheme' port' rest'
    using rest_unique[OF s(1-3) that(1-3) prefix_slash[OF assms(3)]] s(4) that(4) by metis
  show ?thesis
  proof (cases "rf_keepPath rule")
    case True
    then have r: "regex = regexHead host pathPrefix @ ''((?:[/?].*)?)$''"
      "replacement = doubleDollars (strip_trailing (CHR ''/'') (rf_destination rule)) @ ''${1}''"
      using assms(1,3) by (simp_all add: redirectRegexFor_def)
    obtain scheme' port' rest' where e: "scheme' \<in> {''http://'', ''https://''}" "portText port'"
        "url = scheme' @ host @ port' @ pathPrefix @ rest'" "fst m = ([], url)"
        "snd m \<in> set (cSeq False 1 [Capture [[restGroup]], Eol] ((rev (scheme' @ host @ port' @ pathPrefix), rest'), Map.empty))"
      using source_matches[OF read_kept go assms(5)[unfolded r(1)] assms(6)] by (elim exE conjE)
    note k = kept_groups[OF e(5)]
    then have "rest' = rest" using same[OF e(1,2) _ e(3)] by simp
    then show ?thesis using True k e(3,4) tail r(2) expand_doubled[OF assms(2)] by simp
  next
    case False
    then have r: "regex = regexHead host pathPrefix @ ''(?:[/?].*)?$''" "replacement = doubleDollars (rf_destination rule)"
      using assms(1,3) by (simp_all add: redirectRegexFor_def)
    obtain scheme' port' rest' where e: "scheme' \<in> {''http://'', ''https://''}" "portText port'"
        "url = scheme' @ host @ port' @ pathPrefix @ rest'" "fst m = ([], url)"
        "snd m \<in> set (cSeq False 1 [restGroup, Eol] ((rev (scheme' @ host @ port' @ pathPrefix), rest'), Map.empty))"
      using source_matches[OF read_dropped go assms(5)[unfolded r(1)] assms(6)] by (elim exE conjE)
    note k = dropped_groups[OF e(5)]
    then show ?thesis using False e(3,4) tail r(2) expand_doubled[OF assms(2), of ?g _ "[]"] by simp
  qed
qed

text \<open>
  C35. Traefik sends a URL on by a redirect exactly when it is \<open>http\<close> or \<open>https\<close>, of the source's host, with or without a
  port, under the source's path, and ends there or goes on with a slash or a query. Every match then takes the whole URL, and
  the replacement, expanded with the groups of that match, is the destination as written, dollar signs included, with
  what follows the source in the URL appended when the redirect keeps the path.
\<close>

theorem redirect_sends:
  assumes "redirectRegexFor rule = Some (regex, replacement)" "expandsTemplate expand"
  shows "\<exists>host pathPrefix ms. splitSource (rf_source rule) = Some (host, pathPrefix) \<and>
     goRegexTest regex url = Some (\<exists>rest. underSource host pathPrefix rest url) \<and>
     goRegexMatches regex url = Some ms \<and> (ms \<noteq> [] \<longleftrightarrow> (\<exists>rest. underSource host pathPrefix rest url)) \<and>
     (\<forall>rest m. underSource host pathPrefix rest url \<longrightarrow> m \<in> set ms \<longrightarrow>
        fst m = ([], url) \<and> fst (snd m) = (rev url, []) \<and> expand (snd (snd m)) replacement =
          (if rf_keepPath rule then strip_trailing (CHR ''/'') (rf_destination rule) @ rest else rf_destination rule))"
proof -
  obtain host pathPrefix where p: "splitSource (rf_source rule) = Some (host, pathPrefix)"
    "goRegexTest regex url = Some (\<exists>rest. underSource host pathPrefix rest url)"
    using redirect_regex_urls[OF assms(1)] by blast
  then obtain ms where ms: "goRegexMatches regex url = Some ms" "ms \<noteq> [] \<longleftrightarrow> (\<exists>rest. underSource host pathPrefix rest url)"
    using go_matches by blast
  show ?thesis using p ms redirect_match[OF assms p(1) _ ms(1)] by blast
qed

definition blogRedirect :: RedirectFields where
  "blogRedirect = \<lparr> rf_destination = ''https://new.io/$b/'', rf_enabled = True, rf_keepPath = True, rf_permanent = True,
     rf_source = ''old.io/blog'' \<rparr>"

lemma blogRedirect_source: "splitSource (rf_source blogRedirect) = Some (''old.io'', ''/blog'')"
  by code_simp

theorem redirect_sends_witness:
  "\<exists>regex replacement m ms. redirectRegexFor blogRedirect = Some (regex, replacement) \<and>
     goRegexMatches regex ''http://old.io/blog/post?x'' = Some (m # ms) \<and>
     goExpand (snd (snd m)) replacement = ''https://new.io/$b/post?x''"
proof -
  obtain regex replacement where r: "redirectRegexFor blogRedirect = Some (regex, replacement)"
    by (cases "rf_keepPath blogRedirect") (simp_all add: redirectRegexFor_def blogRedirect_source)
  have kept: "strip_trailing (CHR ''/'') (rf_destination blogRedirect) @ ''/post?x'' = ''https://new.io/$b/post?x''"
    "rf_keepPath blogRedirect" by code_simp+
  have under: "underSource ''old.io'' ''/blog'' ''/post?x'' ''http://old.io/blog/post?x''"
    unfolding underSource_def by (auto simp: restText_def portText_def is_eol_def)
  obtain ms where ms: "goRegexMatches regex ''http://old.io/blog/post?x'' = Some ms" "ms \<noteq> []"
    "\<forall>m \<in> set ms. goExpand (snd (snd m)) replacement = ''https://new.io/$b/post?x''"
    using redirect_sends[OF r goExpand_expands, of "''http://old.io/blog/post?x''"] blogRedirect_source under kept
    by (metis fst_conv option.inject snd_conv)
  then obtain m ms' where "ms = m # ms'" by (cases ms) auto
  then show ?thesis
    using r ms by (intro exI[of _ regex] exI[of _ replacement] exI[of _ m] exI[of _ ms']) simp
qed

section \<open>Sources\<close>

lemma lower_char_idem: "lower_char (lower_char c) = lower_char c"
proof -
  let ?n = "(of_char c :: nat)"
  show ?thesis
  proof (cases "(65 \<le> ?n \<and> ?n \<le> 90) \<or> (192 \<le> ?n \<and> ?n \<le> 222 \<and> ?n \<noteq> 215)")
    case True
    then have "lower_char c = char_of (?n + 32)" by (auto simp: lower_char_def Let_def)
    moreover have "(of_char (char_of (?n + 32) :: char) :: nat) = ?n + 32" using True by auto
    ultimately show ?thesis using True by (auto simp: lower_char_def Let_def)
  qed (auto simp: lower_char_def Let_def)
qed

lemma lower_idem: "lower (lower s) = lower s"
  by (simp add: lower_def lower_char_idem)

lemma domain_char:
  assumes "isDomainName s" "c \<in> set s"
  shows "\<not> is_ws c \<and> c \<noteq> CHR ''/''"
proof -
  let ?ls = "split_on (CHR ''.'') s"
  have d: "list_all isDnsLabel (butlast ?ls)" "list_all is_lower_ascii (last ?ls)"
    using assms(1) by (simp_all add: isDomainName_def Let_def)
  have ls: "?ls = butlast ?ls @ [last ?ls]" by simp
  have "c = CHR ''.'' \<or> is_slug_char c \<or> is_lower_ascii c"
  proof -
    consider "c = CHR ''.''" | w where "w \<in> set ?ls" "c \<in> set w" using split_on_covers[OF assms(2)] by blast
    then show ?thesis
    proof cases
      case 2
      have "w \<in> set (butlast ?ls) \<or> w = last ?ls" using 2(1) ls by (metis Un_iff empty_iff insert_iff list.set set_append)
      then show ?thesis using d 2(2) by (auto simp: list_all_iff isDnsLabel_def)
    qed simp
  qed
  then show ?thesis by (auto simp: is_slug_char_def is_ws_def is_lower_ascii_def is_digit_def)
qed

lemma domain_nonempty: "isDomainName s \<Longrightarrow> s \<noteq> []"
  by (auto simp: isDomainName_def)

lemma splitSource_canonical:
  assumes "splitSource source = Some (host, pathPrefix)"
  shows "splitSource (host @ pathPrefix) = Some (host, pathPrefix)" "host \<noteq> []" "host @ pathPrefix \<noteq> []"
    "trim (host @ pathPrefix) = host @ pathPrefix"
proof -
  define t where "t = lower (trim source)"
  have ok: "isDomainName host" "\<not> list_ex badPrefixChar pathPrefix"
    and parts: "host = takeWhile (\<lambda>c. c \<noteq> CHR ''/'') t" "pathPrefix = strip_trailing (CHR ''/'') (dropWhile (\<lambda>c. c \<noteq> CHR ''/'') t)"
    using assms by (auto simp: splitSource_def Let_def t_def split: if_splits)
  obtain n where n: "dropWhile (\<lambda>c. c \<noteq> CHR ''/'') t = pathPrefix @ replicate n (CHR ''/'')"
    using strip_trailing_append[OF parts(2)[symmetric]] by blast
  have slash: "\<forall>c \<in> set host. c \<noteq> CHR ''/'' \<and> \<not> is_ws c" using domain_char[OF ok(1)] by blast
  have h: "host \<noteq> []" by (rule domain_nonempty[OF ok(1)])
  have p: "pathPrefix = [] \<or> hd pathPrefix = CHR ''/''"
  proof (cases pathPrefix)
    case (Cons c r)
    then have "dropWhile (\<lambda>c. c \<noteq> CHR ''/'') t \<noteq> []" "hd (dropWhile (\<lambda>c. c \<noteq> CHR ''/'') t) = c" using n by simp_all
    then show ?thesis using hd_dropWhile[of "\<lambda>c. c \<noteq> CHR ''/''" t] Cons by simp
  qed simp
  have pend: "pathPrefix \<noteq> [] \<Longrightarrow> last pathPrefix \<noteq> CHR ''/''" unfolding parts(2) by (rule strip_trailing_last)
  have low: "lower (host @ pathPrefix) = host @ pathPrefix"
  proof -
    have "lower t = t" by (simp add: t_def lower_idem)
    moreover have "t = (host @ pathPrefix) @ replicate n (CHR ''/'')"
      using takeWhile_dropWhile_id[of "\<lambda>c. c \<noteq> CHR ''/''" t] n parts(1) by simp
    ultimately have "lower (host @ pathPrefix) @ lower (replicate n (CHR ''/'')) = (host @ pathPrefix) @ replicate n (CHR ''/'')"
      by (simp add: lower_def)
    then show ?thesis by (simp add: lower_def append_eq_append_conv)
  qed
  have ends: "\<not> is_ws (hd (host @ pathPrefix))" "\<not> is_ws (last (host @ pathPrefix))"
    using h slash ok(2) by (auto simp: list_ex_iff badPrefixChar_def hd_append last_append)
  show trim: "trim (host @ pathPrefix) = host @ pathPrefix" by (rule trim_id) (use h ends in simp_all)
  have "takeWhile (\<lambda>c. c \<noteq> CHR ''/'') (host @ pathPrefix) = host" "dropWhile (\<lambda>c. c \<noteq> CHR ''/'') (host @ pathPrefix) = pathPrefix"
    using slash p by (cases pathPrefix; simp add: takeWhile_append dropWhile_append)+
  moreover have "strip_trailing (CHR ''/'') pathPrefix = pathPrefix"
    using pend by (cases "pathPrefix = []") (simp_all add: strip_trailing_def dropWhile_id hd_rev)
  ultimately show "splitSource (host @ pathPrefix) = Some (host, pathPrefix)" using ok by (simp add: splitSource_def low trim)
  show "host \<noteq> []" "host @ pathPrefix \<noteq> []" using h by simp_all
qed

lemma normalizeSource_idem: "normalizeSource source = Some s \<Longrightarrow> normalizeSource s = Some s"
  using splitSource_canonical(1) by (force simp: normalizeSource_def)

section \<open>The table\<close>

definition canonicalRow :: "redirectRow \<Rightarrow> bool" where
  "canonicalRow r \<longleftrightarrow> normalizeSource (rf_source r) = Some (rf_source r)"

definition redirectsInv :: "redirects \<Rightarrow> bool" where
  "redirectsInv t \<longleftrightarrow> redirectKeysOk t \<and> list_all canonicalRow t"

text \<open>Every write of the table: the API's, and a service taking a redirect's host over.\<close>

inductive redirects_reachable :: "redirects \<Rightarrow> bool" where
  no_redirects: "redirects_reachable []"
| posted: "redirects_reachable t \<Longrightarrow> redirects_reachable (snd (postRedirect parseUrl cores uuid now userId body t))"
| patched: "redirects_reachable t \<Longrightarrow> redirects_reachable (snd (patchRedirect parseUrl cores i now body t))"
| removed: "redirects_reachable t \<Longrightarrow> redirects_reachable (snd (removeRedirect i t))"
| switched: "redirects_reachable t \<Longrightarrow> redirects_reachable (setRedirectEnabled i now on t)"

lemma redirectSchema_source: "redirectSchema parseUrl input = Inr fs \<Longrightarrow> normalizeSource (rf_source fs) = Some (rf_source fs)"
  by (auto simp: redirectSchema_def normalizeSource_idem split: sum.splits option.splits if_splits)

lemma parseRedirectInput_source:
  "parseRedirectInput parseUrl cores t input selfId = Inr fs \<Longrightarrow> normalizeSource (rf_source fs) = Some (rf_source fs)"
  by (auto simp: parseRedirectInput_def Let_def redirectSchema_source split: sum.splits option.splits if_splits)

lemma redirectsInv_write:
  "redirectsInv t \<Longrightarrow> writeRedirects t t' = Some t'' \<Longrightarrow> list_all canonicalRow t' \<Longrightarrow> redirectsInv t''"
  by (auto simp: writeRedirects_def redirectsInv_def split: if_splits)

lemma reachable_redirects: "redirects_reachable t \<Longrightarrow> redirectsInv t"
proof (induction rule: redirects_reachable.induct)
  case no_redirects
  show ?case by (simp add: redirectsInv_def redirectKeysOk_def)
next
  case (posted t parseUrl cores uuid now userId body)
  show ?case
  proof (cases "snd (postRedirect parseUrl cores uuid now userId body t) = t")
    case False
    then obtain fs t' where f: "normalizeSource (rf_source fs) = Some (rf_source fs)" "createRedirect uuid now userId fs t = Some t'"
        "snd (postRedirect parseUrl cores uuid now userId body t) = t'"
      by (auto simp: postRedirect_def split: sum.splits option.splits dest: parseRedirectInput_source)
    show ?thesis unfolding f(3)
      by (rule redirectsInv_write[OF posted.IH f(2)[unfolded createRedirect_def]])
         (use posted.IH f(1) in \<open>simp add: redirectsInv_def canonicalRow_def\<close>)
  qed (use posted.IH in simp)
next
  case (patched t parseUrl cores i now body)
  show ?case
  proof (cases "snd (patchRedirect parseUrl cores i now body t) = t")
    case False
    then obtain fs t' where f: "normalizeSource (rf_source fs) = Some (rf_source fs)" "updateRedirect i now fs t = Some t'"
        "snd (patchRedirect parseUrl cores i now body t) = t'"
      by (auto simp: patchRedirect_def split: sum.splits option.splits dest: parseRedirectInput_source)
    show ?thesis unfolding f(3)
      by (rule redirectsInv_write[OF patched.IH f(2)[unfolded updateRedirect_def]])
         (use patched.IH f(1) in \<open>auto simp: redirectsInv_def canonicalRow_def list_all_iff\<close>)
  qed (use patched.IH in simp)
next
  case (removed t i)
  have "redirectsInv (deleteRedirect i t)"
    using removed.IH by (auto simp: redirectsInv_def redirectKeysOk_def deleteRedirect_def list_all_iff distinct_map_filter)
  then show ?case using removed.IH by (simp add: removeRedirect_def split: option.splits)
next
  case (switched t i now on)
  have same: "map rf_id (setRedirectEnabled i now on t) = map rf_id t" "map rf_source (setRedirectEnabled i now on t) = map rf_source t"
    by (simp_all add: setRedirectEnabled_def)
  have "list_all canonicalRow (setRedirectEnabled i now on t)"
    using switched.IH by (auto simp: setRedirectEnabled_def redirectsInv_def list_all_iff canonicalRow_def)
  then show ?case using switched.IH same by (simp add: redirectsInv_def redirectKeysOk_def)
qed

section \<open>Publishing\<close>

text \<open>The entries of one row.\<close>

definition rowMiddleware :: "redirectRow \<Rightarrow> string \<times> json" where
  "rowMiddleware r = (routerName (rf_id r), redirectMiddleware (the (redirectRegexFor r)) (rf_permanent r))"

definition rowRouter :: "(string \<Rightarrow> string option) \<Rightarrow> string \<Rightarrow> redirectRow \<Rightarrow> string \<times> json" where
  "rowRouter certResolver entrypoint r =
     (routerName (rf_id r), redirectRouter certResolver entrypoint (routerName (rf_id r)) (the (splitSource (rf_source r))))"

lemma canonical_published: "canonicalRow r \<Longrightarrow> \<exists>parts regex. splitSource (rf_source r) = Some parts \<and> redirectRegexFor r = Some regex"
  by (cases "rf_keepPath r") (auto simp: canonicalRow_def normalizeSource_def redirectRegexFor_def split: option.splits)

lemma addRedirect_row:
  assumes "canonicalRow r" "routerName (rf_id r) \<notin> fst ` set ms" "routerName (rf_id r) \<notin> fst ` set rs"
  shows "addRedirect certResolver entrypoint r (ms, rs) =
     (if rf_enabled r then (ms @ [rowMiddleware r], rs @ [rowRouter certResolver entrypoint r]) else (ms, rs))"
proof -
  obtain parts regex where "splitSource (rf_source r) = Some parts" "redirectRegexFor r = Some regex"
    using canonical_published[OF assms(1)] by blast
  then show ?thesis using assms(2,3)
    by (auto simp: addRedirect_def Let_def update_new rowMiddleware_def rowRouter_def split: bool.splits)
qed

lemma routerName_inj [simp]: "routerName i = routerName j \<longleftrightarrow> i = j"
  by (simp add: routerName_def)

lemma redirectMaps_rows:
  assumes "list_all canonicalRow t" "distinct (map rf_id t)"
    "\<forall>r \<in> set t. routerName (rf_id r) \<notin> fst ` set ms \<and> routerName (rf_id r) \<notin> fst ` set rs"
  shows "fold (addRedirect certResolver entrypoint) t (ms, rs) =
     (ms @ map rowMiddleware (filter rf_enabled t), rs @ map (rowRouter certResolver entrypoint) (filter rf_enabled t))"
  using assms
proof (induction t arbitrary: ms rs)
  case (Cons r t)
  let ?ms = "if rf_enabled r then ms @ [rowMiddleware r] else ms"
  let ?rs = "if rf_enabled r then rs @ [rowRouter certResolver entrypoint r] else rs"
  have add: "addRedirect certResolver entrypoint r (ms, rs) = (?ms, ?rs)" using addRedirect_row Cons.prems(1,3) by simp
  have other: "rf_id x \<noteq> rf_id r" if "x \<in> set t" for x
    using Cons.prems(2) imageI[OF that, of rf_id] by auto
  have "\<forall>x \<in> set t. routerName (rf_id x) \<notin> fst ` set ?ms \<and> routerName (rf_id x) \<notin> fst ` set ?rs"
    using Cons.prems(3) other by (auto simp: rowMiddleware_def rowRouter_def)
  then show ?case using Cons.IH[of ?ms ?rs] Cons.prems(1,2) add by simp
qed simp

text \<open>
  C36. Whatever the writes of the table were, stored sources are canonical and each stored once, and every enabled
  redirect is published: the configuration has its middleware and its router, in the table's order and nothing else, and
  there is no configuration exactly when no redirect is enabled.
\<close>

theorem redirects_published:
  assumes "redirects_reachable t"
  shows "distinct (map rf_source t) \<and> (\<forall>r \<in> set t. normalizeSource (rf_source r) = Some (rf_source r)) \<and>
     redirectMaps certResolver entrypoint t =
       (map rowMiddleware (filter rf_enabled t), map (rowRouter certResolver entrypoint) (filter rf_enabled t)) \<and>
     (redirectsConfig stringify certResolver entrypoint t = None \<longleftrightarrow> (\<forall>r \<in> set t. \<not> rf_enabled r))"
proof -
  have inv: "list_all canonicalRow t" "distinct (map rf_id t)" "distinct (map rf_source t)"
    using reachable_redirects[OF assms] by (simp_all add: redirectsInv_def redirectKeysOk_def)
  have m: "redirectMaps certResolver entrypoint t =
      (map rowMiddleware (filter rf_enabled t), map (rowRouter certResolver entrypoint) (filter rf_enabled t))"
    unfolding redirectMaps_def using redirectMaps_rows[OF inv(1,2)] by simp
  have "redirectsConfig stringify certResolver entrypoint t = None \<longleftrightarrow> (\<forall>r \<in> set t. \<not> rf_enabled r)"
    unfolding redirectsConfig_def m by (auto simp: filter_empty_conv)
  then show ?thesis using m inv by (auto simp: list_all_iff canonicalRow_def)
qed

definition postedOnce :: "redirectReply \<times> redirects" where
  "postedOnce = postRedirect (\<lambda>u. Some (''https:'', u)) [] ''r1'' 5 ''u''
     [(''destination'', JStr ''https://new.io/''), (''source'', JStr '' OLD.io/Blog/ '')] []"

lemma postedOnce_rows: "map (\<lambda>r. (rf_source r, rf_enabled r)) (snd postedOnce) = [(''old.io/blog'', True)]"
  by code_simp

theorem redirects_published_witness:
  "length (snd (redirectMaps (\<lambda>_. None) ''websecure'' (snd postedOnce))) = 1"
proof -
  have r: "redirects_reachable (snd postedOnce)"
    unfolding postedOnce_def by (rule redirects_reachable.posted[OF redirects_reachable.no_redirects])
  have "length (snd postedOnce) = 1" "\<forall>x \<in> set (snd postedOnce). rf_enabled x"
    using postedOnce_rows by (cases "snd postedOnce"; auto)+
  then show ?thesis using redirects_published[OF r, of "\<lambda>_. None" "''websecure''"] by simp
qed

section \<open>DNS\<close>

lemma domainTaken_None: "domainTaken services [host] None = None \<longleftrightarrow> (\<forall>svc \<in> set services. host \<notin> set (sd_domains svc))"
  by (auto simp: domainTaken_def Let_def list_ex_iff find_None_iff)

lemma in_map_filter: "y \<in> set (List.map_filter f xs) \<longleftrightarrow> (\<exists>x \<in> set xs. f x = Some y)"
  by (induction xs) (auto simp: map_filter_simps split: option.splits)

lemma redirect_dns_hosts:
  assumes "redirectDns services rules previousHosts = (wanted, dropped)"
  shows "set wanted \<inter> set dropped = {}"
    and "host \<in> set dropped \<longleftrightarrow> host \<in> set previousHosts \<and> (\<forall>svc \<in> set services. host \<notin> set (sd_domains svc)) \<and>
           (\<forall>rule \<in> set rules. rf_enabled rule \<longrightarrow> redirectHost (rf_source rule) \<noteq> Some host)"
    and "host \<in> set wanted \<longleftrightarrow> (\<forall>svc \<in> set services. host \<notin> set (sd_domains svc)) \<and>
           (\<exists>rule \<in> set rules. rf_enabled rule \<and> redirectHost (rf_source rule) = Some host)"
  using assms by (auto simp: redirectDns_def Let_def unrouted_def domainTaken_None in_map_filter)

text \<open>
  Removing a redirect cleans up the DNS of its host unless a service lists that very host: a service that routes a path
  of it, or has it as its default hostname, does not keep the record, although it still routes the host.
\<close>

definition pathService :: routedService where
  "pathService = \<lparr> sd_defaultDomainEnabled = True, sd_domains = [''example.com/api''], sd_primaryDomain = None,
     sd_slug = ''api'', sd_id = ''s1'', sd_stackId = None, sd_blockedPaths = [] \<rparr>"

theorem cleanup_drops_routed_host:
  "snd (redirectDns [pathService] ([] :: redirectRow list) [''example.com'', ''api.base.io'']) = [''example.com'', ''api.base.io''] \<and>
   serviceForHost [pathService] [] ''base.io'' ''example.com'' = Some pathService \<and>
   serviceForHost [pathService] [] ''base.io'' ''api.base.io'' = Some pathService"
  by code_simp

end
