(* ===== verification/Redirect_Target.thy ===== *)
theory Redirect_Target
  imports Prelude
begin

text \<open>
  \<open>src/lib/redirect-target.ts\<close>: where a sign-in page may send the visitor afterwards. Of the \<open>URL\<close> class of the platform the
  source uses what the URL standard says of a reference that starts with a slash, resolved against
  \<open>http://homerun.invalid\<close>: tabs and line breaks are dropped, trailing spaces and controls too, dot segments resolved, and
  each part percent-encoded. A reference that starts with two slashes after that names a host of its own; the class's answer
  for it is the argument \<open>authority\<close>, \<open>None\<close> when it throws.
\<close>

record urlParts =
  url_origin :: string
  url_pathname :: string
  url_search :: string
  url_hash :: string

definition BASE_ORIGIN :: string where
  "BASE_ORIGIN = ''http://homerun.invalid''"

section \<open>Resolving a reference\<close>

definition code :: "char \<Rightarrow> nat" where
  "code c = of_char c"

definition stripControls :: "string \<Rightarrow> string" where
  "stripControls s =
     (let strip = dropWhile (\<lambda>c. code c \<le> 32)
      in filter (\<lambda>c. code c \<notin> {9, 10, 13}) (rev (strip (rev (strip s)))))"

definition hexUpper :: "nat \<Rightarrow> char" where
  "hexUpper n = (if n < 10 then char_of (48 + n) else char_of (55 + n))"

definition percentByte :: "nat \<Rightarrow> string" where
  "percentByte n = [CHR ''%'', hexUpper (n div 16), hexUpper (n mod 16)]"

text \<open>The bytes of a character in UTF-8, each written as \<open>%XX\<close>.\<close>

definition percentChar :: "char \<Rightarrow> string" where
  "percentChar c =
     (let n = code c
      in if n < 128 then percentByte n else percentByte (192 + n div 64) @ percentByte (128 + n mod 64))"

definition percentEncode :: "(char \<Rightarrow> bool) \<Rightarrow> string \<Rightarrow> string" where
  "percentEncode P s = concat (map (\<lambda>c. if P c then percentChar c else [c]) s)"

definition controlSet :: "char \<Rightarrow> bool" where
  "controlSet c \<longleftrightarrow> code c < 32 \<or> code c > 126"

definition fragmentSet :: "char \<Rightarrow> bool" where
  "fragmentSet c \<longleftrightarrow> controlSet c \<or> c \<in> {CHR '' '', CHR 0x22, CHR ''<'', CHR ''>'', CHR 0x60}"

definition querySet :: "char \<Rightarrow> bool" where
  "querySet c \<longleftrightarrow> controlSet c \<or> c \<in> {CHR '' '', CHR 0x22, CHR ''#'', CHR ''<'', CHR ''>'', CHR 0x27}"

definition pathSet :: "char \<Rightarrow> bool" where
  "pathSet c \<longleftrightarrow> controlSet c \<or> c \<in> {CHR '' '', CHR 0x22, CHR ''#'', CHR ''<'', CHR ''>'', CHR ''?'', CHR ''^'', CHR 0x60,
     CHR ''{'', CHR ''}''}"

definition singleDot :: "string \<Rightarrow> bool" where
  "singleDot seg \<longleftrightarrow> lower seg \<in> {''.'', ''%2e''}"

definition doubleDot :: "string \<Rightarrow> bool" where
  "doubleDot seg \<longleftrightarrow> lower seg \<in> {''..'', ''.%2e'', ''%2e.'', ''%2e%2e''}"

text \<open>The path state over the segments after the first slash; the last one is not followed by a slash.\<close>

fun pathSegments :: "string list \<Rightarrow> string list \<Rightarrow> string list" where
  "pathSegments path [] = path"
| "pathSegments path (seg # rest) =
     (if doubleDot seg then pathSegments (if rest = [] then butlast path @ [[]] else butlast path) rest
      else if singleDot seg then pathSegments (if rest = [] then path @ [[]] else path) rest
      else pathSegments (path @ [percentEncode pathSet seg]) rest)"

definition resolveReference :: "(string \<Rightarrow> urlParts option) \<Rightarrow> string \<Rightarrow> urlParts option" where
  "resolveReference authority candidate =
     (let s = stripControls candidate
      in if starts_with ''//'' s then authority s
         else
           (let beforeHash = takeWhile (\<lambda>c. c \<noteq> CHR ''#'') s;
                fragment = tl (dropWhile (\<lambda>c. c \<noteq> CHR ''#'') s);
                path = takeWhile (\<lambda>c. c \<noteq> CHR ''?'') beforeHash;
                query = tl (dropWhile (\<lambda>c. c \<noteq> CHR ''?'') beforeHash)
            in Some \<lparr> url_origin = BASE_ORIGIN,
                      url_pathname = concat (map (\<lambda>seg. CHR ''/'' # seg) (pathSegments [] (split_on (CHR ''/'') (tl path)))),
                      url_search = (if query = [] then [] else CHR ''?'' # percentEncode querySet query),
                      url_hash = (if fragment = [] then [] else CHR ''#'' # percentEncode fragmentSet fragment) \<rparr>))"

section \<open>The target\<close>

definition safeRedirectTarget :: "(string \<Rightarrow> urlParts option) \<Rightarrow> string option \<Rightarrow> string option" where
  "safeRedirectTarget authority candidate =
     (case candidate of
        None \<Rightarrow> None
      | Some c \<Rightarrow>
          if \<not> starts_with ''/'' c then None
          else if starts_with ''//'' c \<or> CHR 0x5C \<in> set c then None
          else
            (case resolveReference authority c of
               None \<Rightarrow> None
             | Some parsed \<Rightarrow>
                 if url_origin parsed \<noteq> BASE_ORIGIN then None
                 else Some (url_pathname parsed @ url_search parsed @ url_hash parsed)))"

section \<open>Where it leads\<close>

text \<open>A browser reads a target as a path of the same origin when it starts with one slash only.\<close>

definition sameOrigin :: "string \<Rightarrow> bool" where
  "sameOrigin target \<longleftrightarrow> starts_with ''/'' target \<and> \<not> starts_with ''//'' target \<and> \<not> starts_with [CHR ''/'', CHR 0x5C] target"

text \<open>
  A candidate with dot segments in front of an empty one comes out with two leading slashes, which a browser reads as another
  host.
\<close>

theorem dot_segments_leave:
  "safeRedirectTarget authority (Some ''/.//evil.example/x'') = Some ''//evil.example/x''"
  "safeRedirectTarget authority (Some ''/a/..//evil.example/x'') = Some ''//evil.example/x''"
  "\<not> sameOrigin ''//evil.example/x''"
  by code_simp+

lemma pathSegments_plain:
  "\<forall>seg \<in> set segs. \<not> singleDot seg \<and> \<not> doubleDot seg \<Longrightarrow> pathSegments path segs = path @ map (percentEncode pathSet) segs"
  by (induction path segs rule: pathSegments.induct) auto

lemma encoded_head:
  assumes "percentEncode P (c # cs) = d # ds"
  shows "d = c \<or> d = CHR ''%''"
  using assms by (auto simp: percentEncode_def percentChar_def percentByte_def Let_def split: if_splits)

lemma encoded_nonempty: "percentEncode P (c # cs) \<noteq> []"
  by (auto simp: percentEncode_def percentChar_def percentByte_def Let_def)

definition pathOf :: "string \<Rightarrow> string" where
  "pathOf c = takeWhile (\<lambda>c. c \<noteq> CHR ''?'') (takeWhile (\<lambda>c. c \<noteq> CHR ''#'') c)"

lemma target_parts:
  assumes "safeRedirectTarget authority (Some c) = Some t" "stripControls c = c"
  obtains r query fragment where "c = CHR ''/'' # r" "r = [] \<or> hd r \<noteq> CHR ''/''" "CHR 0x5C \<notin> set r"
    "t = concat (map (\<lambda>seg. CHR ''/'' # seg) (pathSegments [] (split_on (CHR ''/'') (pathOf r)))) @
       (if query = [] then [] else CHR ''?'' # percentEncode querySet query) @
       (if fragment = [] then [] else CHR ''#'' # percentEncode fragmentSet fragment)"
proof -
  obtain r where r: "c = CHR ''/'' # r" using assms(1) by (cases c) (auto simp: safeRedirectTarget_def split: if_splits)
  have no: "\<not> starts_with ''//'' c" "CHR 0x5C \<notin> set c" using assms(1) r by (auto simp: safeRedirectTarget_def split: if_splits)
  let ?query = "tl (dropWhile (\<lambda>c. c \<noteq> CHR ''?'') (takeWhile (\<lambda>c. c \<noteq> CHR ''#'') c))"
  let ?fragment = "tl (dropWhile (\<lambda>c. c \<noteq> CHR ''#'') c)"
  let ?path = "concat (map (\<lambda>seg. CHR ''/'' # seg) (pathSegments [] (split_on (CHR ''/'') (pathOf r))))"
  let ?q = "if ?query = [] then [] else CHR ''?'' # percentEncode querySet ?query"
  let ?f = "if ?fragment = [] then [] else CHR ''#'' # percentEncode fragmentSet ?fragment"
  have "tl (takeWhile (\<lambda>c. c \<noteq> CHR ''?'') (takeWhile (\<lambda>c. c \<noteq> CHR ''#'') c)) = pathOf r" by (simp add: r pathOf_def)
  then have "resolveReference authority c =
      Some \<lparr> url_origin = BASE_ORIGIN, url_pathname = ?path, url_search = ?q, url_hash = ?f \<rparr>"
    unfolding resolveReference_def Let_def assms(2) using no(1) by simp
  then have t: "t = ?path @ ?q @ ?f"
    using assms(1) no r by (simp add: safeRedirectTarget_def del: append_assoc)
  show ?thesis
  proof (rule that[OF r _ _ t])
    show "r = [] \<or> hd r \<noteq> CHR ''/''" using no(1) r by (cases r) auto
    show "CHR 0x5C \<notin> set r" using no(2) r by simp
  qed
qed

text \<open>
  C40. A sign-in target stays on this origin when the candidate has no dot segment and nothing the URL parser
  strips: what comes back starts with exactly one slash and no backslash after it.
\<close>

theorem safe_target_stays:
  assumes target: "safeRedirectTarget authority (Some c) = Some t" and stripped: "stripControls c = c"
    and plain: "\<forall>seg \<in> set (split_on (CHR ''/'') (pathOf c)). \<not> singleDot seg \<and> \<not> doubleDot seg"
  shows "sameOrigin t"
proof -
  obtain r query fragment where r: "c = CHR ''/'' # r" "r = [] \<or> hd r \<noteq> CHR ''/''" "CHR 0x5C \<notin> set r"
    and t: "t = concat (map (\<lambda>seg. CHR ''/'' # seg) (pathSegments [] (split_on (CHR ''/'') (pathOf r)))) @
       (if query = [] then [] else CHR ''?'' # percentEncode querySet query) @
       (if fragment = [] then [] else CHR ''#'' # percentEncode fragmentSet fragment)"
    by (rule target_parts[OF target stripped])
  have "pathOf c = CHR ''/'' # pathOf r" by (simp add: pathOf_def r(1))
  then have "pathSegments [] (split_on (CHR ''/'') (pathOf r)) = map (percentEncode pathSet) (split_on (CHR ''/'') (pathOf r))"
    using plain by (subst pathSegments_plain) auto
  note t = t[unfolded this]
  show ?thesis
  proof (cases "pathOf r")
    case Nil
    then show ?thesis using t by (simp add: percentEncode_def sameOrigin_def)
  next
    case (Cons x xs)
    then have x: "x \<noteq> CHR ''/''" "x \<noteq> CHR 0x5C" using r(2,3) by (cases r; auto simp: pathOf_def split: if_splits)+
    obtain w ws where w: "split_on (CHR ''/'') (pathOf r) = (x # w) # ws"
      using Cons x(1) split_on_nonempty[of "CHR ''/''" xs] by (cases "split_on (CHR ''/'') xs") auto
    obtain d ds where d: "percentEncode pathSet (x # w) = d # ds" using encoded_nonempty[of pathSet x w] by (cases "percentEncode pathSet (x # w)") auto
    then have "d \<noteq> CHR ''/''" "d \<noteq> CHR 0x5C" using encoded_head[OF d] x by auto
    then show ?thesis using t w d by (simp add: sameOrigin_def)
  qed
qed

theorem safe_target_stays_witness:
  "safeRedirectTarget (\<lambda>_. None) (Some ''/app?rd=a b#x'') = Some ''/app?rd=a%20b#x'' \<and> sameOrigin ''/app?rd=a%20b#x''"
proof -
  have t: "safeRedirectTarget (\<lambda>_. None) (Some ''/app?rd=a b#x'') = Some ''/app?rd=a%20b#x''" by code_simp
  have "stripControls ''/app?rd=a b#x'' = ''/app?rd=a b#x''" by code_simp
  moreover have "\<forall>seg \<in> set (split_on (CHR ''/'') (pathOf ''/app?rd=a b#x'')). \<not> singleDot seg \<and> \<not> doubleDot seg" by code_simp
  ultimately show ?thesis using safe_target_stays[OF t] t by blast
qed

end
