(* ===== verification/Env_Vars.thy ===== *)
theory Env_Vars
  imports Prelude
begin

text \<open>
  \<open>src/lib/env-parse.ts\<close> and the environment fields of \<open>server/validation/service.ts\<close>: reading pasted \<open>.env\<close> text into
  the rows of the environment editor, and the form the editor posts back into the stored variables.

  A record of variables is the list of its entries in the order \<open>Object.entries\<close> gives them. Assigning a text to
  \<open>__proto__\<close> of an object sets nothing, and \<open>key in record\<close> is also true of the names \<open>Object.prototype\<close> has.
\<close>

section \<open>Pasted text\<close>

record ParsedEnvVar =
  ev_key :: string
  ev_value :: string

text \<open>\<open>KEY_PATTERN\<close>, and \<open>BUILD_ARG_NAME_PATTERN\<close> of \<open>build-methods.ts\<close>.\<close>

definition isEnvKey :: "string \<Rightarrow> bool" where
  "isEnvKey s \<longleftrightarrow> s \<noteq> [] \<and> is_word (hd s) \<and> \<not> is_digit (hd s) \<and> list_all is_word s"

definition unquote :: "string \<Rightarrow> string" where
  "unquote v =
     (if length v \<ge> 2 \<and> hd v = last v \<and> (hd v = CHR 0x22 \<or> hd v = CHR 0x27) then butlast (tl v) else v)"

text \<open>\<open>text.split(/\r?\n/)\<close>.\<close>

definition dropCr :: "string \<Rightarrow> string" where
  "dropCr w = (if w \<noteq> [] \<and> last w = CHR 13 then butlast w else w)"

definition splitLines :: "string \<Rightarrow> string list" where
  "splitLines s = (let ls = split_on (CHR 10) s in map dropCr (butlast ls) @ [last ls])"

definition parseEnvLine :: "string \<Rightarrow> ParsedEnvVar option" where
  "parseEnvLine rawLine =
     (let line = trim rawLine
      in if line = [] \<or> starts_with ''#'' line then None
         else
           (let withoutExport = (if starts_with ''export '' line then trim (drop 7 line) else line)
            in if CHR ''='' \<notin> set withoutExport then None
               else
                 (let key = trim (takeWhile (\<lambda>c. c \<noteq> CHR ''='') withoutExport)
                  in if \<not> isEnvKey key then None
                     else Some \<lparr> ev_key = key, ev_value = unquote (trim (tl (dropWhile (\<lambda>c. c \<noteq> CHR ''='') withoutExport))) \<rparr>)))"

definition parseDotEnv :: "string \<Rightarrow> ParsedEnvVar list" where
  "parseDotEnv s = List.map_filter parseEnvLine (splitLines s)"

text \<open>Overwriting the first row with a key.\<close>

fun setRow :: "string \<Rightarrow> string \<Rightarrow> ('a ParsedEnvVar_scheme) list \<Rightarrow> ('a ParsedEnvVar_scheme) list" where
  "setRow k v [] = []"
| "setRow k v (r # rs) = (if ev_key r = k then r\<lparr>ev_value := v\<rparr> # rs else r # setRow k v rs)"

definition mergeEnvRow ::
  "(ParsedEnvVar \<Rightarrow> 'a ParsedEnvVar_scheme) \<Rightarrow> ParsedEnvVar \<Rightarrow> ('a ParsedEnvVar_scheme) list \<Rightarrow> ('a ParsedEnvVar_scheme) list" where
  "mergeEnvRow makeRow imp rows =
     (if list_ex (\<lambda>r. ev_key r = ev_key imp) rows then setRow (ev_key imp) (ev_value imp) rows else rows @ [makeRow imp])"

definition mergeEnvRows ::
  "('a ParsedEnvVar_scheme) list \<Rightarrow> ParsedEnvVar list \<Rightarrow> (ParsedEnvVar \<Rightarrow> 'a ParsedEnvVar_scheme) \<Rightarrow>
   ('a ParsedEnvVar_scheme) list" where
  "mergeEnvRows existing imported makeRow =
     (let rows = fold (mergeEnvRow makeRow) imported (filter (\<lambda>r. ev_key r \<noteq> [] \<or> ev_value r \<noteq> []) existing)
      in if rows \<noteq> [] then rows else [makeRow \<lparr> ev_key = [], ev_value = [] \<rparr>])"

section \<open>The editor\<close>

record EnvEditorRow = ParsedEnvVar +
  er_build :: bool
  er_keep :: "string option"
  er_secret :: bool

definition plainEnvRow :: "ParsedEnvVar \<Rightarrow> EnvEditorRow" where
  "plainEnvRow row =
     \<lparr> ev_key = ev_key row, ev_value = ev_value row, er_build = False, er_keep = None, er_secret = False \<rparr>"

definition blankEnvRow :: ParsedEnvVar where
  "blankEnvRow = \<lparr> ev_key = [], ev_value = [] \<rparr>"

definition envEditorRow :: "string list \<Rightarrow> string list \<Rightarrow> string \<times> string \<Rightarrow> EnvEditorRow" where
  "envEditorRow secretKeys buildKeys entry =
     (case entry of (key, v) \<Rightarrow>
        (if key \<in> set secretKeys
         then \<lparr> ev_key = key, ev_value = [], er_build = False, er_keep = Some key, er_secret = True \<rparr>
         else plainEnvRow \<lparr> ev_key = key, ev_value = v \<rparr>)\<lparr>er_build := key \<in> set buildKeys\<rparr>)"

definition envEditorRows :: "string js_map \<Rightarrow> string list \<Rightarrow> string list \<Rightarrow> EnvEditorRow list" where
  "envEditorRows envVars secretKeys buildKeys =
     (let rows = map (envEditorRow secretKeys buildKeys) envVars
      in if rows \<noteq> [] then rows else [plainEnvRow blankEnvRow])"

definition toggleEnvRowSecret :: "string js_map \<Rightarrow> EnvEditorRow \<Rightarrow> EnvEditorRow" where
  "toggleEnvRowSecret envVars row =
     (let row =
        (case (er_secret row, er_keep row) of
           (True, Some keep) \<Rightarrow>
             row\<lparr>ev_value := (case map_of envVars keep of Some v \<Rightarrow> v | None \<Rightarrow> []), er_keep := None\<rparr>
         | _ \<Rightarrow> row)
      in row\<lparr>er_secret := \<not> er_secret row\<rparr>)"

definition envRowKeep :: "EnvEditorRow \<Rightarrow> string" where
  "envRowKeep row = (if ev_value row = [] then (case er_keep row of Some keep \<Rightarrow> keep | None \<Rightarrow> []) else [])"

section \<open>The posted form\<close>

record envForm =
  ef_envKey :: "string list"
  ef_envValue :: "string list"
  ef_envKeep :: "string list"
  ef_envSecret :: "string list"
  ef_envBuild :: "string list"

definition elementAt :: "'a list \<Rightarrow> nat \<Rightarrow> 'a option" where
  "elementAt xs i = (if i < length xs then Some (xs ! i) else None)"

text \<open>\<open>env[key] = value\<close>.\<close>

definition assignEnv :: "string \<Rightarrow> string \<Rightarrow> string js_map \<Rightarrow> string js_map" where
  "assignEnv key v env = (if key = ''__proto__'' then env else AList.update key v env)"

definition postedValue :: "string js_map \<Rightarrow> envForm \<Rightarrow> nat \<Rightarrow> string" where
  "postedValue stored form i =
     (let v = (case elementAt (ef_envValue form) i of Some v \<Rightarrow> v | None \<Rightarrow> [])
      in case elementAt (ef_envKeep form) i of
           Some keep \<Rightarrow>
             if v = [] \<and> keep \<noteq> [] then (case map_of stored keep of Some s \<Rightarrow> s | None \<Rightarrow> v) else v
         | None \<Rightarrow> v)"

definition parseEnvVars :: "envForm \<Rightarrow> string js_map \<Rightarrow> string js_map" where
  "parseEnvVars form stored =
     fold (\<lambda>i env.
             let trimmed = trim (ef_envKey form ! i)
             in if trimmed = [] then env else assignEnv trimmed (postedValue stored form i) env)
       [0..<length (ef_envKey form)] []"

definition OBJECT_PROTOTYPE :: "string list" where
  "OBJECT_PROTOTYPE =
     [''__proto__'', ''__defineGetter__'', ''__defineSetter__'', ''__lookupGetter__'', ''__lookupSetter__'', ''constructor'',
      ''hasOwnProperty'', ''isPrototypeOf'', ''propertyIsEnumerable'', ''toLocaleString'', ''toString'', ''valueOf'']"

definition inRecord :: "string \<Rightarrow> string js_map \<Rightarrow> bool" where
  "inRecord key env \<longleftrightarrow> key \<in> fst ` set env \<or> key \<in> set OBJECT_PROTOTYPE"

definition parseSecretEnvKeys :: "envForm \<Rightarrow> string js_map \<Rightarrow> string list" where
  "parseSecretEnvKeys form envVars = filter (\<lambda>key. inRecord key envVars) (js_unique (ef_envSecret form))"

text \<open>The first name that is no shell identifier, or the names.\<close>

definition parseBuildEnvKeys :: "envForm \<Rightarrow> string js_map \<Rightarrow> string + string list" where
  "parseBuildEnvKeys form envVars =
     (let keys = filter (\<lambda>key. inRecord key envVars) (js_unique (ef_envBuild form))
      in case List.find (\<lambda>key. \<not> isEnvKey key) keys of
           Some invalid \<Rightarrow> if invalid = [] then Inr keys else Inl invalid
         | None \<Rightarrow> Inr keys)"

end
