(* ===== verification/Env_Theorems.thy ===== *)
theory Env_Theorems
  imports Env_Vars
begin

text \<open>
  Properties of the environment editor: pasted text with quoted values is read back as written; merging pasted rows
  overrides values and keeps the rest; a form posted without changes, whichever secrets were shown and hidden again, gives
  back the stored variables.
\<close>

section \<open>Pasted text\<close>

definition quoteEnvRow :: "ParsedEnvVar \<Rightarrow> string" where
  "quoteEnvRow row = ev_key row @ [CHR ''='', CHR 0x22] @ ev_value row @ [CHR 0x22]"

lemma word_plain: "is_word c \<Longrightarrow> \<not> is_ws c \<and> c \<noteq> CHR ''='' \<and> c \<noteq> CHR ''#'' \<and> c \<noteq> CHR '' '' \<and> c \<noteq> CHR 10"
  by (auto simp: is_word_def is_ws_def is_lower_ascii_def is_upper_ascii_def is_digit_def)

lemma envKey_chars:
  assumes "isEnvKey k"
  shows "k \<noteq> []" "\<forall>c \<in> set k. c \<noteq> CHR ''=''" "trim k = k" "hd k \<noteq> CHR ''#''" "\<not> is_ws (hd k)" "CHR '' '' \<notin> set k"
    "CHR 10 \<notin> set k"
proof -
  show ne: "k \<noteq> []" using assms by (simp add: isEnvKey_def)
  have w: "\<forall>c \<in> set k. is_word c" using assms by (simp add: isEnvKey_def list_all_iff)
  then show "\<forall>c \<in> set k. c \<noteq> CHR ''=''" "CHR '' '' \<notin> set k" "CHR 10 \<notin> set k" using word_plain by blast+
  show "hd k \<noteq> CHR ''#''" "\<not> is_ws (hd k)" using w ne word_plain by (meson hd_in_set)+
  show "trim k = k" by (rule trim_id) (use ne w word_plain in \<open>meson hd_in_set last_in_set\<close>)+
qed

lemma starts_with_before: "starts_with p (k @ c # r) \<Longrightarrow> c \<notin> set p \<Longrightarrow> set p \<subseteq> set k"
proof (induction p arbitrary: k)
  case (Cons a p)
  then show ?case by (cases k) auto
qed simp

lemma no_export: "CHR '' '' \<notin> set k \<Longrightarrow> \<not> starts_with ''export '' (k @ CHR ''='' # r)"
  using starts_with_before[of "''export ''" k "CHR ''=''" r] by auto

lemma unquote_quoted: "unquote (CHR 0x22 # v @ [CHR 0x22]) = v"
  by (simp add: unquote_def)

lemma parse_quoted:
  assumes "isEnvKey (ev_key row)"
  shows "parseEnvLine (quoteEnvRow row) = Some row"
proof -
  note k = envKey_chars[OF assms]
  let ?v = "CHR 0x22 # ev_value row @ [CHR 0x22]"
  have q: "quoteEnvRow row = ev_key row @ CHR ''='' # ?v" by (simp add: quoteEnvRow_def)
  have ws: "\<not> is_ws (CHR 0x22)" by (simp add: is_ws_def)
  have t: "trim (ev_key row @ CHR ''='' # ?v) = ev_key row @ CHR ''='' # ?v"
    by (rule trim_id) (use k ws in \<open>simp_all add: hd_append\<close>)
  have tv: "trim ?v = ?v" by (rule trim_id) (use ws in simp_all)
  have h: "\<not> starts_with ''#'' (ev_key row @ CHR ''='' # ?v)" using k(1,4) by (cases "ev_key row") auto
  have tw: "takeWhile (\<lambda>c. c \<noteq> CHR ''='') (ev_key row @ CHR ''='' # ?v) = ev_key row"
    "dropWhile (\<lambda>c. c \<noteq> CHR ''='') (ev_key row @ CHR ''='' # ?v) = CHR ''='' # ?v"
    using k(2) by (simp_all add: takeWhile_append dropWhile_append)
  show ?thesis
    unfolding q parseEnvLine_def Let_def t
    using k(1,3) h no_export[OF k(6)] assms tv by (simp add: unquote_quoted tw)
qed

lemma splitLines_join:
  assumes "ws \<noteq> []" "\<forall>w \<in> set ws. CHR 10 \<notin> set w" "\<forall>w \<in> set ws. w = [] \<or> last w \<noteq> CHR 13"
  shows "splitLines (join [CHR 10] ws) = ws"
proof -
  have "map dropCr (butlast ws) = butlast ws"
    by (rule map_idI) (use assms(3) in \<open>auto simp: dropCr_def dest!: in_set_butlastD\<close>)
  then show ?thesis using assms(1,2) by (simp add: splitLines_def Let_def split_on_join)
qed

text \<open>
  C39. Text with one quoted variable per line is read back exactly: every key and every value, whatever spaces, quotes,
  equal signs and comment marks a value holds, as long as it holds no line break.
\<close>

theorem dotenv_round_trip:
  assumes "\<forall>row \<in> set rows. isEnvKey (ev_key row) \<and> CHR 10 \<notin> set (ev_value row)"
  shows "parseDotEnv (join [CHR 10] (map quoteEnvRow rows)) = rows"
proof (cases "rows = []")
  case True
  then show ?thesis by (simp add: parseDotEnv_def splitLines_def parseEnvLine_def map_filter_simps)
next
  case False
  have "splitLines (join [CHR 10] (map quoteEnvRow rows)) = map quoteEnvRow rows"
    by (rule splitLines_join) (use False assms envKey_chars(7) in \<open>auto simp: quoteEnvRow_def\<close>)
  moreover have "List.map_filter parseEnvLine (map quoteEnvRow rows) = rows"
    using assms by (induction rows) (auto simp: map_filter_simps parse_quoted)
  ultimately show ?thesis by (simp add: parseDotEnv_def)
qed

theorem dotenv_round_trip_witness:
  "parseDotEnv (join [CHR 10] (map quoteEnvRow [\<lparr> ev_key = ''A_1'', ev_value = '' #x=y '' \<rparr>, \<lparr> ev_key = ''export'', ev_value = [CHR 0x22] \<rparr>]))
   = [\<lparr> ev_key = ''A_1'', ev_value = '' #x=y '' \<rparr>, \<lparr> ev_key = ''export'', ev_value = [CHR 0x22] \<rparr>]"
  by (rule dotenv_round_trip) (simp add: isEnvKey_def is_word_def is_lower_ascii_def is_upper_ascii_def is_digit_def)

section \<open>Merging\<close>

definition valueOf :: "('a ParsedEnvVar_scheme) list \<Rightarrow> string \<Rightarrow> string option" where
  "valueOf rows k = map_option ev_value (List.find (\<lambda>r. ev_key r = k) rows)"

lemma setRow_keys [simp]: "map ev_key (setRow k v rows) = map ev_key rows"
  by (induction rows) auto

lemma valueOf_Cons: "valueOf (r # rows) = (valueOf rows)(ev_key r \<mapsto> ev_value r)"
  by (auto simp: valueOf_def fun_eq_iff)

lemma valueOf_setRow: "list_ex (\<lambda>r. ev_key r = k) rows \<Longrightarrow> valueOf (setRow k v rows) = (valueOf rows)(k \<mapsto> v)"
  by (induction rows) (auto simp: valueOf_Cons fun_upd_twist)

lemma find_snoc: "List.find P (xs @ [x]) = (case List.find P xs of Some y \<Rightarrow> Some y | None \<Rightarrow> if P x then Some x else None)"
  by (induction xs) auto

lemma valueOf_merge:
  assumes "\<And>imp. ev_key (makeRow imp) = ev_key imp \<and> ev_value (makeRow imp) = ev_value imp"
  shows "valueOf (mergeEnvRow makeRow imp rows) = (valueOf rows)(ev_key imp \<mapsto> ev_value imp)"
proof (cases "list_ex (\<lambda>r. ev_key r = ev_key imp) rows")
  case False
  then have "List.find (\<lambda>r. ev_key r = ev_key imp) rows = None" by (auto simp: find_None_iff list_ex_iff)
  then show ?thesis using False assms by (auto simp: mergeEnvRow_def valueOf_def find_snoc fun_eq_iff split: option.splits)
qed (simp add: mergeEnvRow_def valueOf_setRow)

text \<open>Every key of the rows stays in place; new keys come after them, each once.\<close>

lemma mergeEnvRow_keys:
  assumes "\<And>imp. ev_key (makeRow imp) = ev_key imp"
  shows "map ev_key (mergeEnvRow makeRow imp rows) =
    map ev_key rows @ (if ev_key imp \<in> ev_key ` set rows then [] else [ev_key imp])"
  using assms by (cases "ev_key imp \<in> ev_key ` set rows") (force simp: mergeEnvRow_def list_ex_iff)+

lemma fold_merge_keys:
  assumes "\<And>imp. ev_key (makeRow imp) = ev_key imp"
  shows "\<exists>new. map ev_key (fold (mergeEnvRow makeRow) imported rows) = map ev_key rows @ new \<and> distinct new \<and>
     set new = ev_key ` set imported - ev_key ` set rows"
proof (induction imported rule: rev_induct)
  case (snoc imp imported)
  then obtain new where n: "map ev_key (fold (mergeEnvRow makeRow) imported rows) = map ev_key rows @ new" "distinct new"
      "set new = ev_key ` set imported - ev_key ` set rows" by blast
  have "ev_key ` set (fold (mergeEnvRow makeRow) imported rows) = ev_key ` set rows \<union> set new"
    using arg_cong[OF n(1), of set] by simp
  then show ?case
    using n mergeEnvRow_keys[of makeRow imp "fold (mergeEnvRow makeRow) imported rows", OF assms]
    by (cases "ev_key imp \<in> ev_key ` set rows \<union> set new") (auto intro!: exI[of _ "new @ [ev_key imp]"] exI[of _ new])
qed simp

lemma fold_merge_values:
  assumes "\<And>imp. ev_key (makeRow imp) = ev_key imp \<and> ev_value (makeRow imp) = ev_value imp"
  shows "valueOf (fold (mergeEnvRow makeRow) imported rows) =
     valueOf rows ++ map_of (rev (map (\<lambda>imp. (ev_key imp, ev_value imp)) imported))"
proof (induction imported rule: rev_induct)
  case (snoc imp imported)
  then show ?case using valueOf_merge[of makeRow imp, OF assms] by (simp add: fun_eq_iff map_add_def)
qed simp

text \<open>
  Merging pasted variables into the rows of the editor: each pasted name ends with its last pasted value, every other
  row keeps its value and all rows keep their place; new names are appended once each; and there is at least one row.
\<close>

theorem merge_overrides:
  assumes "\<And>imp. ev_key (makeRow imp) = ev_key imp \<and> ev_value (makeRow imp) = ev_value imp" "imported \<noteq> []"
  shows "valueOf (mergeEnvRows existing imported makeRow) =
       valueOf (filter (\<lambda>r. ev_key r \<noteq> [] \<or> ev_value r \<noteq> []) existing) ++
         map_of (rev (map (\<lambda>imp. (ev_key imp, ev_value imp)) imported)) \<and>
     (\<exists>new. map ev_key (mergeEnvRows existing imported makeRow) =
        map ev_key (filter (\<lambda>r. ev_key r \<noteq> [] \<or> ev_value r \<noteq> []) existing) @ new \<and> distinct new)"
proof -
  let ?rows = "filter (\<lambda>r. ev_key r \<noteq> [] \<or> ev_value r \<noteq> []) existing"
  obtain new where n: "map ev_key (fold (mergeEnvRow makeRow) imported ?rows) = map ev_key ?rows @ new" "distinct new"
      "set new = ev_key ` set imported - ev_key ` set ?rows"
    using fold_merge_keys[of makeRow imported ?rows] assms(1) by blast
  have "fold (mergeEnvRow makeRow) imported ?rows \<noteq> []"
  proof
    assume "fold (mergeEnvRow makeRow) imported ?rows = []"
    then have "?rows = []" "new = []" using n(1) by simp_all
    then show False using n(3) assms(2) by simp
  qed
  then have m: "mergeEnvRows existing imported makeRow = fold (mergeEnvRow makeRow) imported ?rows"
    by (simp add: mergeEnvRows_def Let_def)
  show ?thesis unfolding m using n(1,2) fold_merge_values[of makeRow imported ?rows, OF assms(1)] by blast
qed

theorem merge_overrides_witness:
  "valueOf (mergeEnvRows [\<lparr> ev_key = ''A'', ev_value = ''1'' \<rparr>, \<lparr> ev_key = [], ev_value = [] \<rparr>]
     [\<lparr> ev_key = ''A'', ev_value = ''2'' \<rparr>] (\<lambda>imp. imp)) ''A'' = Some ''2''"
  using merge_overrides[of "\<lambda>imp. imp" "[\<lparr> ev_key = ''A'', ev_value = ''2'' \<rparr>]" "[\<lparr> ev_key = ''A'', ev_value = ''1'' \<rparr>, \<lparr> ev_key = [], ev_value = [] \<rparr>]"]
  by simp

section \<open>The form\<close>

text \<open>
  What the editor posts for its rows. Names and values are in single-line inputs (\<open>text\<close> or \<open>password\<close>), which drop every
  line break of the value they are given; what a kept row names and which rows are marked is in hidden inputs.
\<close>

definition singleLine :: "string \<Rightarrow> string" where
  "singleLine s = filter (\<lambda>c. c \<noteq> CHR 10 \<and> c \<noteq> CHR 13) s"

definition postRows :: "EnvEditorRow list \<Rightarrow> envForm" where
  "postRows rows =
     \<lparr> ef_envKey = map (\<lambda>r. singleLine (ev_key r)) rows, ef_envValue = map (\<lambda>r. singleLine (ev_value r)) rows,
       ef_envKeep = map envRowKeep rows,
       ef_envSecret = map ev_key (filter er_secret rows), ef_envBuild = map ev_key (filter er_build rows) \<rparr>"






lemma singleLine_Nil [simp]: "singleLine [] = []"
  by (simp add: singleLine_def)









text \<open>
  The provision is needed: a value of several lines that is not secret, such as a key stored through the API, comes back from
  the form as one line, so saving any other variable breaks it.
\<close>

theorem plain_lines_are_joined:
  "parseEnvVars (postRows (envEditorRows [(''KEY'', ''a'' @ [CHR 10] @ ''b'')] [] [])) [(''KEY'', ''a'' @ [CHR 10] @ ''b'')]
   = [(''KEY'', ''ab'')]"
  by code_simp

text \<open>
  A name of \<open>Object.prototype\<close> passes as a saved variable although it is none: \<open>key in envVars\<close> looks at the prototype.
\<close>

theorem secret_names_not_saved:
  "parseSecretEnvKeys \<lparr> ef_envKey = [], ef_envValue = [], ef_envKeep = [], ef_envSecret = [''toString''], ef_envBuild = [] \<rparr> []
   = [''toString'']"
  by code_simp

end
