(* ===== verification/Spec2Isabelle.thy ===== *)
theory Spec2Isabelle
  imports Shell_Words Worker_Theorems Permission_Theorems Link_Theorems Graph_Theorems Status_Theorems
    Cron_Theorems Pattern_Theorems Slug_Theorems Notification_Theorems Incident_Rows
    Ban_Theorems Domain_Theorems Update_Theorems Rollback_Theorems Deploy_Theorems Deploy_Plan
    Owner_Theorems Redirect_Target Env_Theorems
begin

text \<open>
  Homerun, a self-hosted platform for deploying services: a verification of the logic at its core.
  All paths are relative to the repository.

  \<^bold>\<open>The program.\<close> A SvelteKit application (\<open>src/\<close>) keeps its state in PostgreSQL. Requests pass a
  permission guard; deploys, backups and other long work become rows of a persistent job queue. A
  worker loop in the application claims rows and prepares, hands off and finalizes them; a Go worker
  (\<open>internal/worker\<close>) executes what was handed off and writes to the same rows. A deploy of a git
  service first waits for the commit's status checks, going back in the queue between looks. Services
  depend on each other, through recorded rows and through env values that name another service's host;
  the dependencies order the deploys of a stack.

  \<^bold>\<open>Theories.\<close>

  \<^item> \<open>Prelude\<close>: the character classes and string operations the sources use, numbers as text, the
    lemma collections, generic facts on lists and association lists.
  \<^item> \<open>Shell_Words\<close> (\<open>src/lib/shell-words.ts\<close>): splitting and joining command lines, and that
    splitting undoes joining.
  \<^item> \<open>Job_Queue\<close> (\<open>src/lib/dto/job-dto.ts\<close>, the \<open>job\<close> table of \<open>src/lib/server/db/schema.ts\<close>,
    \<open>internal/worker/store.go\<close>): a table is a list of rows; each statement is a function from table
    to table, with the partial unique index checked where a statement can violate it.
    \<open>Job_Laws\<close> has the invariant, its preservation by every statement and the step relation of all
    writes; \<open>Job_Theorems\<close> has mutual exclusion, claiming order and progress, the exclusive barrier,
    cancelling of dependents, deduplication, orphan recovery, deferral, staleness.
  \<^item> \<open>Job_Worker\<close> (\<open>src/lib/services/queue/worker.ts\<close> and its neighbours): the worker's tick, pump,
    dispatch, settling and recovery over the table, \<open>enqueue\<close> and \<open>wait\<close>. \<open>Worker_Laws\<close> states what
    the worker's loops need of a source of claims as the locale \<open>claim_source\<close>, interpreted by both
    claiming operations of the queue, and the invariant of every interleaving of a process with other
    writers; \<open>Worker_Theorems\<close> has what follows.
  \<^item> \<open>Permissions\<close>, \<open>Permission_Theorems\<close> (\<open>src/lib/permissions.ts\<close>): areas, roles, parsing, the
    intersection as a semilattice, and the route guards.
  \<^item> \<open>Service_Links\<close>, \<open>Link_Theorems\<close> (\<open>src/lib/service-link.ts\<close> and the host patterns of
    \<open>src/lib/service-graph.ts\<close>): what a link writes and what the graph reads, each regular expression
    as the function it computes.
  \<^item> \<open>Service_Graph\<close> (\<open>src/lib/service-graph.ts\<close>), \<open>Service_Dependencies\<close>
    (\<open>src/lib/dto/service-dependency-dto.ts\<close>): dependency maps, forest, layers and the recorded rows.
    \<open>Graph_Laws\<close> states what the writes need of a loop check as the locale \<open>cycle_guard\<close>, interpreted
    by \<open>createsCycle\<close>; \<open>Graph_Theorems\<close> has acyclicity, backfill, deploy order and the forest.
  \<^item> \<open>Status_Checks\<close> (\<open>src/lib/status-checks.ts\<close>), \<open>Status_Gate\<close>
    (\<open>src/lib/services/deploy/status-check-step.ts\<close>), \<open>Status_Theorems\<close>: reading, merging and
    evaluating a commit's checks, the gate, and the wait the gate and the queue make together.

  \<^item> \<open>Cron_Expression\<close> (\<open>src/lib/services/cron\<close>, \<open>src/lib/schedule.ts\<close>), \<open>Cron_Theorems\<close>: parsing, matching and
    the next run of an expression, the ticks of a scheduler; bounds, the first matching minute, once per minute.
  \<^item> \<open>Path_Patterns\<close> (\<open>src/lib/path-patterns.ts\<close>, \<open>watch-paths.ts\<close>, \<open>slug.ts\<close>, \<open>release-channels.ts\<close>,
    \<open>preview-branches.ts\<close>), \<open>Regex\<close>, \<open>Pattern_Theorems\<close>, \<open>Slug_Theorems\<close>: patterns and the expressions
    written for the proxy cover the same paths; slugs are labels and free ones are found.
  \<^item> \<open>Js_Numbers\<close>, \<open>Js_Sort\<close>: numbers read from text as the language reads them, and sorting with a comparator.
  \<^item> \<open>Resource_Incidents\<close> (\<open>src/lib/resource-incidents.ts\<close>, \<open>resource-thresholds.ts\<close>,
    \<open>services/capacity.service.ts\<close>), \<open>Incident_Theorems\<close>, \<open>Incident_Rows\<close>: the tracker as a refinement of a
    four-state automaton, its rows, and what a restart keeps.
  \<^item> \<open>Notifications\<close> (\<open>src/lib/services/notification-*.ts\<close>), \<open>Notification_Theorems\<close>: grouping and dispatching.
  \<^item> \<open>Ip_Address\<close>, \<open>Ip_Laws\<close>, \<open>Ip_Theorems\<close> (\<open>src/lib/ip-bans.ts\<close>, \<open>ip-intel.ts\<close>): addresses and ranges against the
    URL standard's parser; \<open>Ip_Bans\<close>, \<open>Ban_Theorems\<close> (\<open>src/lib/services/ip-ban.service.ts\<close> and its tables): who is
    banned, for how long, and that nobody is who must not be.
  \<^item> \<open>Service_Domains\<close>, \<open>Domain_Theorems\<close> (\<open>src/lib/service-domains.ts\<close>, \<open>services/service-for-host.ts\<close>): hosts of
    services and previews, and rewriting them in env values.
  \<^item> \<open>Image_Versions\<close>, \<open>Image_Theorems\<close> (\<open>src/lib/image-versions.ts\<close>), \<open>Image_Updates\<close>, \<open>Update_Theorems\<close>
    (\<open>src/lib/services/image-version.service.ts\<close>): version tags, the newest release, pins, checks and trials.
  \<^item> \<open>Revision_Config\<close> (\<open>src/lib/revision-config.ts\<close>), \<open>Revisions\<close> (\<open>src/lib/revisions.ts\<close>),
    \<open>Revision_Health\<close> (\<open>src/lib/services/revision.service.ts\<close>, \<open>revision-health.service.ts\<close>, the statements of
    \<open>src/lib/dto/deployment-dto.ts\<close>): \<open>Revision_Theorems\<close> has the rollback target and the folding of redeploys,
    \<open>Retention_Theorems\<close> the retained images and the restoring of a configuration, \<open>Rollback_Theorems\<close> the health watch,
    the uniqueness of the live deployment and that automatic rollbacks end.
  \<^item> \<open>Deploy_Queue\<close> (\<open>enqueueDeploy\<close> and \<open>enqueueStackDeploy\<close> of \<open>src/lib/services/deploy.service.ts\<close>, over the job
    table and the deployments), \<open>Deploy_Theorems\<close>: a deploy ends in a queued job, a stack in a chain of them in the order
    of its dependencies, and when that order is lost; \<open>Deploy_Plan\<close> (\<open>services/deploy/plan.ts\<close>): what a deploy builds.
  \<^item> \<open>Redirects\<close> (\<open>src/lib/redirects.ts\<close>, its form, table, service and API), \<open>Redirect_Theorems\<close>: the URLs a redirect
    matches, what is stored and published, whose DNS is cleaned up; \<open>Hostname_Owner\<close> (\<open>src/lib/server/hostname-owner.ts\<close>,
    \<open>services/domain-takeover.ts\<close>), \<open>Owner_Theorems\<close>: who routes a hostname and taking it over; \<open>Redirect_Target\<close>
    (\<open>src/lib/redirect-target.ts\<close>): where a sign-in may lead.
  \<^item> \<open>Env_Vars\<close> (\<open>src/lib/env-parse.ts\<close>, the environment fields of \<open>server/validation/service.ts\<close>), \<open>Env_Theorems\<close>:
    pasted variables, the editor and its form, secrets included.

  \<^bold>\<open>Conventions.\<close> State is passed in and returned; what the code throws is a value of a sum or a
  constructor of a result; a NULL is \<open>None\<close>; a \<open>Map\<close> or object is an association list in insertion
  order; the clock, new ids, encryption, HTTP, the parser of URLs and dates and locale-dependent sorting are
  arguments. Strings are lists of characters up to code 255. Objects the incident tracker shares are held in a heap.
  Time zones are a constant offset to UTC; a number read from text is an exact rational. What runs between two
  statements of an operation (another process, the next poll) is an argument or a step of its own. A regular
  expression of the source is the function it computes on the strings it is given; one the source writes as text, for
  tags, paths and redirects, is read and matched by \<open>Regex\<close>.

  \<^bold>\<open>Loops and fuel.\<close> The stack of \<open>createsCycle\<close> and the walk of \<open>revisionRoot\<close> have termination proofs; the search
  for a free slug is a partial function shown to end. The worker's claim loop has
  one unit of fuel more than there are rows waiting, which suffices because each claim takes a row out
  of those waiting; \<open>wait\<close>'s loop and the health watch run over the readings they are given and are shown to return by
  the first one past the deadline. The forest's recursion has one unit more than there are members,
  which suffices because each expansion adds a member; both facts are part of the theorems. The two walks of
  \<open>revision.service.ts\<close> count down the ten levels the code allows.

  \<^bold>\<open>Not modelled.\<close> The pages and REST plumbing, the clients of Docker, DNS, storage and identity
  services, telemetry, and what each job type does once claimed; these are I/O or libraries. Of a deploy the steps between
  its plan and the rows it records are calls of Docker; compose files and pipelines go through a YAML library; the tables
  without rules of their own are plain reads and writes.
\<close>

end
